(* ===== verification/Prelude.thy ===== *)
theory Prelude
  imports Complex_Main "HOL-Library.AList" "HOL-Library.Multiset"
begin

section \<open>Shared vocabulary: JavaScript objects, values, strings and sorting\<close>

text \<open>
  What every component of the hub uses of JavaScript.
  \<^item> A plain object used as a map is an insertion-ordered association list \<open>'v obj\<close>: writing an
    existing key keeps its position, writing a new key appends it, \<open>delete\<close> removes it, and
    \<open>Object.keys\<close> lists the keys in order. No key of the modelled maps is a canonical array index
    in practice, so the rule that moves integer keys to the front is not modelled.
  \<^item> A JSON value is a \<open>json\<close>; numbers are exact rationals (the rounding of doubles is not
    modelled) and an ISO timestamp string is \<open>JTime\<close> of its milliseconds.
  \<^item> \<open>Array.prototype.sort\<close>, which the language requires to be stable, is \<open>sort_by\<close>.
  The collections \<open>obj_simps\<close> and \<open>frame_simps\<close> carry the component proofs.
\<close>

named_theorems obj_simps \<open>reading, writing and deleting keys of an object\<close>
named_theorems frame_simps \<open>fields that an operation does not write\<close>

subsection \<open>Objects as insertion-ordered maps\<close>

type_synonym jstime = int
type_synonym 'v obj = "(string \<times> 'v) list"

abbreviation oget :: "'v obj \<Rightarrow> string \<Rightarrow> 'v option" where
  "oget ob k \<equiv> map_of ob k"

abbreviation oset :: "string \<Rightarrow> 'v \<Rightarrow> 'v obj \<Rightarrow> 'v obj" where
  "oset k v ob \<equiv> AList.update k v ob"

abbreviation odel :: "string \<Rightarrow> 'v obj \<Rightarrow> 'v obj" where
  "odel k ob \<equiv> AList.delete k ob"

abbreviation okeys :: "'v obj \<Rightarrow> string list" where
  "okeys ob \<equiv> map fst ob"

abbreviation ovals :: "'v obj \<Rightarrow> 'v list" where
  "ovals ob \<equiv> map snd ob"

abbreviation owf :: "'v obj \<Rightarrow> bool" where
  "owf ob \<equiv> distinct (map fst ob)"

text \<open>
  The contract the components rely on, stated as a locale: what a read returns after a write or
  a delete, and that both keep the object well formed. It is interpreted on the association
  lists below, so every component reads its maps through the same laws.
\<close>

locale js_object =
  fixes get :: "'m \<Rightarrow> string \<Rightarrow> 'v option"
    and set_key :: "string \<Rightarrow> 'v \<Rightarrow> 'm \<Rightarrow> 'm"
    and del_key :: "string \<Rightarrow> 'm \<Rightarrow> 'm"
    and keys :: "'m \<Rightarrow> string list"
    and wf :: "'m \<Rightarrow> bool"
  assumes get_set: "get (set_key k v m) k' = (if k' = k then Some v else get m k')"
    and get_del: "get (del_key k m) k' = (if k' = k then None else get m k')"
    and keys_get: "k \<in> set (keys m) \<longleftrightarrow> get m k \<noteq> None"
    and wf_set: "wf m \<Longrightarrow> wf (set_key k v m)"
    and wf_del: "wf m \<Longrightarrow> wf (del_key k m)"
    and set_present: "get m k \<noteq> None \<Longrightarrow> keys (set_key k v m) = keys m"
    and set_absent: "get m k = None \<Longrightarrow> keys (set_key k v m) = keys m @ [k]"
begin

lemma get_set_same: "get (set_key k v m) k = Some v"
  by (simp add: get_set)

lemma set_commute_get:
  "k \<noteq> k' \<Longrightarrow> get (set_key k v (set_key k' v' m)) q = get (set_key k' v' (set_key k v m)) q"
  by (simp add: get_set)

lemma keys_set: "set (keys (set_key k v m)) = insert k (set (keys m))"
proof (cases "get m k")
  case None
  then show ?thesis by (simp add: set_absent)
next
  case (Some x)
  then have "k \<in> set (keys m)" by (simp add: keys_get)
  with Some show ?thesis by (auto simp: set_present)
qed

lemma keys_del: "set (keys (del_key k m)) = set (keys m) - {k}"
  by (auto simp: keys_get get_del split: if_splits)

lemma del_set_cancel: "get m k = None \<Longrightarrow> get (del_key k (set_key k v m)) q = get m q"
  by (simp add: get_del get_set)

end

lemma oset_keys: "okeys (oset k v ob) = (if k \<in> set (okeys ob) then okeys ob else okeys ob @ [k])"
  by (rule AList.update_keys)

interpretation jo: js_object "oget :: 'v obj \<Rightarrow> _" oset odel okeys owf
proof (standard, goal_cases)
  case (1 k v m k') show ?case by (simp add: AList.update_conv')
next
  case (2 k m k') show ?case by (simp add: AList.delete_conv')
next
  case (3 k m) show ?case using map_of_eq_None_iff [of m k] by auto
next
  case (4 m k v) then show ?case by (rule AList.distinct_update)
next
  case (5 m k) then show ?case by (rule AList.distinct_delete)
next
  case (6 m k v) then show ?case
    using map_of_eq_None_iff [of m k] by (auto simp: oset_keys)
next
  case (7 m k v) then show ?case
    using map_of_eq_None_iff [of m k] by (auto simp: oset_keys)
qed

lemmas oget_oset [obj_simps] = jo.get_set
lemmas oget_odel [obj_simps] = jo.get_del
lemmas okeys_oset_set [obj_simps] = jo.keys_set
lemmas okeys_odel_set [obj_simps] = jo.keys_del

lemma oget_in: "oget ob k = Some v \<Longrightarrow> (k, v) \<in> set ob"
  by (rule map_of_SomeD)

lemma in_oget: "owf ob \<Longrightarrow> (k, v) \<in> set ob \<Longrightarrow> oget ob k = Some v"
  by (rule map_of_is_SomeI)

lemma ovals_oget:
  assumes "owf ob"
  shows "v \<in> set (ovals ob) \<longleftrightarrow> (\<exists>k. oget ob k = Some v)"
proof
  assume "v \<in> set (ovals ob)"
  then obtain k where "(k, v) \<in> set ob" by auto
  with assms show "\<exists>k. oget ob k = Some v" by (blast intro: in_oget)
next
  assume "\<exists>k. oget ob k = Some v"
  then obtain k where "(k, v) \<in> set ob" by (blast dest: oget_in)
  then show "v \<in> set (ovals ob)" by force
qed

lemma set_oset: "owf ob \<Longrightarrow> set (oset k v ob) = insert (k, v) {kv \<in> set ob. fst kv \<noteq> k}"
  by (induction ob) (auto simp: image_iff)

lemma set_odel: "set (odel k ob) = {kv \<in> set ob. fst kv \<noteq> k}"
  by (induction ob) auto

lemma length_oset:
  "length (oset k v ob) = (if k \<in> set (okeys ob) then length ob else Suc (length ob))"
  by (induction ob) auto

lemma oset_fresh: "oget ob k = None \<Longrightarrow> oset k v ob = ob @ [(k, v)]"
  by (induction ob) (auto split: if_splits)

lemma oget_map_values: "oget (map (\<lambda>(k, v). (k, f k v)) ob) k = map_option (f k) (oget ob k)"
  by (induction ob) auto

text \<open>Counting the values that satisfy a predicate, before and after one write or delete.\<close>

definition ocount :: "('v \<Rightarrow> bool) \<Rightarrow> 'v obj \<Rightarrow> nat" where
  "ocount P ob = length (filter P (ovals ob))"

lemma ocount_Nil [simp]: "ocount P [] = 0"
  by (simp add: ocount_def)

lemma ocount_oset:
  assumes "owf ob"
  shows "ocount P (oset k v ob) + (case oget ob k of Some w \<Rightarrow> (if P w then 1 else 0) | None \<Rightarrow> 0) =
    ocount P ob + (if P v then 1 else 0)"
  using assms
proof (induction ob)
  case Nil
  then show ?case by (simp add: ocount_def)
next
  case (Cons kv ob)
  then show ?case
    by (cases kv) (auto simp: ocount_def split: option.splits)
qed

lemma ocount_oset_le:
  assumes "owf ob" and "P v \<Longrightarrow> \<exists>w. oget ob k = Some w \<and> P w"
  shows "ocount P (oset k v ob) \<le> ocount P ob"
  using ocount_oset [OF assms(1), of P k v] assms(2) by (auto split: option.splits if_splits)

lemma ocount_oset_Suc: "owf ob \<Longrightarrow> ocount P (oset k v ob) \<le> Suc (ocount P ob)"
  using ocount_oset [of ob P k v] by (auto split: option.splits if_splits)

lemma ocount_odel_le: "ocount P (odel k ob) \<le> ocount P ob"
  by (induction ob) (auto simp: ocount_def)

lemma ocount_mono: "(\<And>v. P v \<Longrightarrow> Q v) \<Longrightarrow> ocount P ob \<le> ocount Q ob"
  by (induction ob) (auto simp: ocount_def)

lemma ocount_zero: "(\<And>k v. oget ob k = Some v \<Longrightarrow> \<not> P v) \<Longrightarrow> owf ob \<Longrightarrow> ocount P ob = 0"
  by (fastforce simp: ocount_def filter_empty_conv intro: in_oget)

lemma ocount_le_length:
  assumes "owf ob" and "\<And>k v. oget ob k = Some v \<Longrightarrow> P v \<Longrightarrow> k \<in> set ks"
  shows "ocount P ob \<le> length ks"
proof -
  have "ocount P ob = length (filter (\<lambda>kv. P (snd kv)) ob)"
    by (simp add: ocount_def filter_map o_def)
  also have "\<dots> = card (fst ` set (filter (\<lambda>kv. P (snd kv)) ob))"
    using assms(1) by (metis distinct_card distinct_map_filter length_map set_map)
  also have "\<dots> \<le> card (set ks)"
    using assms by (intro card_mono) (auto dest: in_oget)
  also have "\<dots> \<le> length ks" by (rule card_length)
  finally show ?thesis .
qed

lemma ocount_odel_zero: "(\<And>v. oget ob k = Some v \<Longrightarrow> \<not> P v) \<Longrightarrow> owf ob \<Longrightarrow>
    ocount P (odel k ob) = ocount P ob"
  by (induction ob) (auto simp: ocount_def split: if_splits)

subsection \<open>Falsy defaults\<close>

definition num_or :: "'a::zero \<Rightarrow> 'a \<Rightarrow> 'a" where
  "num_or x y = (if x = 0 then y else x)"

definition str_or :: "string \<Rightarrow> string \<Rightarrow> string" where
  "str_or x y = (if x = [] then y else x)"

definition opt_or :: "'a option \<Rightarrow> 'a option \<Rightarrow> 'a option" where
  "opt_or x y = (case x of None \<Rightarrow> y | Some _ \<Rightarrow> x)"

lemma opt_or_simps [simp]: "opt_or None y = y" "opt_or (Some a) y = Some a"
  by (simp_all add: opt_or_def)

subsection \<open>JSON values\<close>

datatype json =
    JUndef
  | JNull
  | JBool bool
  | JNum rat
  | JStr string
  | JTime jstime
  | JArr "json list"
  | JObj "(string \<times> json) list"

fun truthy :: "json \<Rightarrow> bool" where
  "truthy JUndef = False"
| "truthy JNull = False"
| "truthy (JBool b) = b"
| "truthy (JNum n) = (n \<noteq> 0)"
| "truthy (JStr s) = (s \<noteq> [])"
| "truthy (JTime t) = True"
| "truthy (JArr xs) = True"
| "truthy (JObj kvs) = True"

definition jget :: "json obj \<Rightarrow> string \<Rightarrow> json" where
  "jget ob k = (case oget ob k of None \<Rightarrow> JUndef | Some v \<Rightarrow> v)"

definition JInt :: "int \<Rightarrow> json" where
  "JInt n = JNum (of_int n)"

definition JOptStr :: "string option \<Rightarrow> json" where
  "JOptStr x = (case x of None \<Rightarrow> JNull | Some s \<Rightarrow> JStr s)"

definition JOptTime :: "jstime option \<Rightarrow> json" where
  "JOptTime x = (case x of None \<Rightarrow> JNull | Some t \<Rightarrow> JTime t)"

lemma jget_oset [simp]: "jget (oset k v ob) k' = (if k' = k then v else jget ob k')"
  by (simp add: jget_def obj_simps)

subsection \<open>Numbers as text\<close>

definition digit_char :: "int \<Rightarrow> char" where
  "digit_char d = char_of (48 + d)"

text \<open>The decimal digits of a non-negative integer.\<close>

function show_digits :: "int \<Rightarrow> string" where
  "show_digits n = (if n < 10 then [digit_char n] else show_digits (n div 10) @ [digit_char (n mod 10)])"
  by auto
termination by (relation "measure nat") auto

declare show_digits.simps [simp del]

definition show_nat :: "nat \<Rightarrow> string" where
  "show_nat n = show_digits (int n)"

definition show_int :: "int \<Rightarrow> string" where
  "show_int n = (if n < 0 then CHR ''-'' # show_digits (- n) else show_digits n)"

definition digit_val :: "char \<Rightarrow> int option" where
  "digit_val c = (let n = of_char c :: int in if 48 \<le> n \<and> n \<le> 57 then Some (n - 48) else None)"

fun read_digits :: "int \<Rightarrow> string \<Rightarrow> int" where
  "read_digits acc [] = acc"
| "read_digits acc (c # cs) =
     (case digit_val c of None \<Rightarrow> acc | Some d \<Rightarrow> read_digits (10 * acc + d) cs)"

lemma digit_val_digit_char: "0 \<le> d \<Longrightarrow> d < 10 \<Longrightarrow> digit_val (digit_char d) = Some d"
  by (simp add: digit_val_def digit_char_def of_char_of)

lemma read_digits_append:
  "(\<forall>c \<in> set xs. digit_val c \<noteq> None) \<Longrightarrow>
    read_digits a (xs @ ys) = read_digits (read_digits a xs) ys"
  by (induction xs arbitrary: a) (auto split: option.splits)

lemma show_digits_digits: "0 \<le> n \<Longrightarrow> c \<in> set (show_digits n) \<Longrightarrow> digit_val c \<noteq> None"
proof (induction n rule: show_digits.induct)
  case (1 n)
  then show ?case
    by (cases "n < 10") (auto simp: show_digits.simps [of n] digit_val_digit_char)
qed

lemma read_show_digits: "0 \<le> n \<Longrightarrow> read_digits 0 (show_digits n) = n"
proof (induction n rule: show_digits.induct)
  case (1 n)
  show ?case
  proof (cases "n < 10")
    case True
    with 1 show ?thesis by (simp add: show_digits.simps [of n] digit_val_digit_char)
  next
    case False
    then have "read_digits 0 (show_digits (n div 10)) = n div 10" using 1 by simp
    then show ?thesis
      using False 1(2) show_digits_digits [of "n div 10"]
      by (subst show_digits.simps) (simp add: read_digits_append digit_val_digit_char)
  qed
qed

lemma show_nat_inj: "show_nat m = show_nat n \<Longrightarrow> m = n"
  unfolding show_nat_def by (metis of_nat_0_le_iff of_nat_eq_iff read_show_digits)

lemma show_nat_no_dash: "CHR ''-'' \<notin> set (show_nat n)"
  using show_digits_digits [of "int n" "CHR ''-''"] by (auto simp: digit_val_def show_nat_def)

text \<open>
  \<open>parseInt(x, 10)\<close>: the argument is turned into a string, leading blanks are skipped, an
  optional sign and the longest run of digits are read; no digit gives NaN (\<open>None\<close>). A number is
  read from its decimal text, which cuts its fraction. An array becomes its elements joined by
  commas, and the digits stop at the first comma.
\<close>

definition is_blank :: "char \<Rightarrow> bool" where
  "is_blank c = (of_char c \<in> {9, 10, 11, 12, 13, 32, 160 :: int})"

definition parse_digits :: "string \<Rightarrow> int option" where
  "parse_digits s = (case s of [] \<Rightarrow> None
     | c # _ \<Rightarrow> (case digit_val c of None \<Rightarrow> None | Some _ \<Rightarrow> Some (read_digits 0 s)))"

definition parse_int_str :: "string \<Rightarrow> int option" where
  "parse_int_str s = (case dropWhile is_blank s of
       [] \<Rightarrow> None
     | c # cs \<Rightarrow>
         (if c = CHR ''-'' then map_option uminus (parse_digits cs)
          else if c = CHR ''+'' then parse_digits cs
          else parse_digits (c # cs)))"

definition trunc_rat :: "rat \<Rightarrow> int" where
  "trunc_rat q = (if q < 0 then - \<lfloor>- q\<rfloor> else \<lfloor>q\<rfloor>)"

fun parseInt :: "json \<Rightarrow> int option" where
  "parseInt (JNum n) = Some (trunc_rat n)"
| "parseInt (JStr s) = parse_int_str s"
| "parseInt (JArr (x # xs)) = parseInt x"
| "parseInt _ = None"

text \<open>\<open>parseInt(x, 10) || d\<close>: NaN and 0 are both falsy.\<close>

definition parseInt_or :: "json \<Rightarrow> int \<Rightarrow> int" where
  "parseInt_or x d = (case parseInt x of None \<Rightarrow> d | Some n \<Rightarrow> num_or n d)"

subsection \<open>Strings\<close>

definition lower_char :: "char \<Rightarrow> char" where
  "lower_char c = (let n = of_char c :: int in if 65 \<le> n \<and> n \<le> 90 then char_of (n + 32) else c)"

definition is_lower_alnum :: "char \<Rightarrow> bool" where
  "is_lower_alnum c = (let n = of_char c :: int in (97 \<le> n \<and> n \<le> 122) \<or> (48 \<le> n \<and> n \<le> 57))"

text \<open>\<open>s.toLowerCase().replace(/[^a-z0-9]/g, '-')\<close>\<close>

definition slug :: "string \<Rightarrow> string" where
  "slug s = map (\<lambda>c. let l = lower_char c in if is_lower_alnum l then l else CHR ''-'') s"

text \<open>\<open>s.split(c)\<close> on a single character, and \<open>xs.join(c)\<close>.\<close>

fun split_on :: "char \<Rightarrow> string \<Rightarrow> string list" where
  "split_on sep [] = [[]]"
| "split_on sep (c # cs) =
     (if c = sep then [] # split_on sep cs
      else (case split_on sep cs of [] \<Rightarrow> [[c]] | w # ws \<Rightarrow> (c # w) # ws))"

fun join_with :: "char \<Rightarrow> string list \<Rightarrow> string" where
  "join_with sep [] = []"
| "join_with sep [w] = w"
| "join_with sep (w # ws) = w @ sep # join_with sep ws"

lemma split_on_nonempty: "split_on sep s \<noteq> []"
  by (induction s) (auto split: list.splits)

lemma join_split: "join_with sep (split_on sep s) = s"
proof (induction s)
  case Nil
  then show ?case by simp
next
  case (Cons c cs)
  then show ?case
    using split_on_nonempty [of sep cs]
    by (cases "split_on sep cs"; cases "tl (split_on sep cs)") auto
qed

lemma split_on_no_sep: "w \<in> set (split_on sep s) \<Longrightarrow> sep \<notin> set w"
  by (induction s arbitrary: w) (fastforce split: list.splits if_splits)+

lemma split_on_append_sep: "sep \<notin> set w \<Longrightarrow> split_on sep (w @ sep # s) = w # split_on sep s"
  by (induction w) auto

lemma split_on_single: "sep \<notin> set w \<Longrightarrow> split_on sep w = [w]"
  by (induction w) auto

lemma split_join:
  "ws \<noteq> [] \<Longrightarrow> \<forall>w \<in> set ws. sep \<notin> set w \<Longrightarrow> split_on sep (join_with sep ws) = ws"
  by (induction sep ws rule: join_with.induct) (auto simp: split_on_single split_on_append_sep)

subsection \<open>Stable sorting by a comparator\<close>

fun insert_by :: "('a \<Rightarrow> 'a \<Rightarrow> int) \<Rightarrow> 'a \<Rightarrow> 'a list \<Rightarrow> 'a list" where
  "insert_by cmp x [] = [x]"
| "insert_by cmp x (y # ys) = (if cmp x y \<le> 0 then x # y # ys else y # insert_by cmp x ys)"

definition sort_by :: "('a \<Rightarrow> 'a \<Rightarrow> int) \<Rightarrow> 'a list \<Rightarrow> 'a list" where
  "sort_by cmp xs = foldr (insert_by cmp) xs []"

lemma mset_insert_by: "mset (insert_by cmp x xs) = add_mset x (mset xs)"
  by (induction xs) auto

lemma mset_sort_by: "mset (sort_by cmp xs) = mset xs"
  unfolding sort_by_def by (induction xs) (auto simp: mset_insert_by)

lemma set_sort_by [simp]: "set (sort_by cmp xs) = set xs"
  by (metis mset_sort_by set_mset_mset)

lemma length_sort_by [simp]: "length (sort_by cmp xs) = length xs"
  by (metis mset_sort_by size_mset)

lemma distinct_sort_by [simp]: "distinct (sort_by cmp xs) = distinct xs"
  by (metis mset_sort_by mset_eq_imp_distinct_iff)

text \<open>
  The contract of a comparator: its sign is antisymmetric and "not after" is transitive. Under
  it the sorted list is ordered and keeps the order of the elements that compare equal.
\<close>

locale comparator =
  fixes cmp :: "'a \<Rightarrow> 'a \<Rightarrow> int"
  assumes cmp_sym: "cmp x y < 0 \<longleftrightarrow> 0 < cmp y x"
    and cmp_trans: "cmp x y \<le> 0 \<Longrightarrow> cmp y z \<le> 0 \<Longrightarrow> cmp x z \<le> 0"
begin

lemma cmp_refl: "cmp x x = 0"
  using cmp_sym [of x x] by linarith

lemma cmp_total: "cmp x y \<le> 0 \<or> cmp y x \<le> 0"
  using cmp_sym [of y x] by linarith

lemma sorted_insert_by:
  "sorted_wrt (\<lambda>a b. cmp a b \<le> 0) xs \<Longrightarrow> sorted_wrt (\<lambda>a b. cmp a b \<le> 0) (insert_by cmp x xs)"
proof (induction xs)
  case Nil
  then show ?case by simp
next
  case (Cons y ys)
  have set_ins: "set (insert_by cmp x ys) = insert x (set ys)"
    by (metis mset_insert_by set_mset_add_mset_insert set_mset_mset)
  show ?case
  proof (cases "cmp x y \<le> 0")
    case True
    with Cons.prems show ?thesis by (auto intro: cmp_trans)
  next
    case False
    then have "cmp y x \<le> 0" using cmp_total by blast
    with False Cons show ?thesis by (auto simp: set_ins)
  qed
qed

lemma sorted_sort_by: "sorted_wrt (\<lambda>a b. cmp a b \<le> 0) (sort_by cmp xs)"
  unfolding sort_by_def by (induction xs) (auto intro: sorted_insert_by)

text \<open>Two members of a sorted list stand in the order of a strict comparison.\<close>

lemma sorted_before:
  assumes "sorted_wrt (\<lambda>a b. cmp a b \<le> 0) xs" "x \<in> set xs" "y \<in> set xs" "cmp x y < 0"
  shows "\<exists>as bs cs. xs = as @ x # bs @ y # cs"
proof -
  from assms(2) obtain us vs where xs: "xs = us @ x # vs" by (meson split_list)
  have "y \<noteq> x" using assms(4) cmp_refl [of x] by auto
  moreover have "y \<notin> set us"
    using assms(1,4) cmp_sym [of x y] by (auto simp: xs sorted_wrt_append)
  ultimately have "y \<in> set vs" using assms(3) xs by simp
  then obtain bs cs where "vs = bs @ y # cs" by (meson split_list)
  with xs show ?thesis by blast
qed

lemma cmp_zero_shift: "cmp x k = 0 \<Longrightarrow> cmp y k = 0 \<Longrightarrow> cmp x y \<le> 0"
  by (metis cmp_sym cmp_trans linorder_le_less_linear order_refl order_less_irrefl)

lemma filter_insert_by:
  "filter (\<lambda>z. cmp z k = 0) (insert_by cmp x xs) = filter (\<lambda>z. cmp z k = 0) (x # xs)"
  by (induction xs) (auto dest: cmp_zero_shift)

lemma sort_by_stable: "filter (\<lambda>z. cmp z k = 0) (sort_by cmp xs) = filter (\<lambda>z. cmp z k = 0) xs"
  unfolding sort_by_def
proof (induction xs)
  case Nil
  then show ?case by simp
next
  case (Cons x xs)
  then show ?case using filter_insert_by [of k x "foldr (insert_by cmp) xs []"] by simp
qed

end

subsection \<open>Removing one occurrence\<close>

text \<open>\<open>let i = xs.indexOf(x); if (i > -1) xs.splice(i, 1)\<close> is \<open>remove1 x xs\<close>.\<close>

lemma distinct_remove1_set: "distinct xs \<Longrightarrow> set (remove1 x xs) = set xs - {x}"
  by (rule set_remove1_eq)

text \<open>\<open>if (xs.indexOf(x) === -1) xs.push(x)\<close>\<close>

definition push_new :: "'a \<Rightarrow> 'a list \<Rightarrow> 'a list" where
  "push_new x xs = (if x \<in> set xs then xs else xs @ [x])"

lemma set_push_new [simp]: "set (push_new x xs) = insert x (set xs)"
  by (auto simp: push_new_def)

lemma distinct_push_new [simp]: "distinct (push_new x xs) = distinct xs"
  by (auto simp: push_new_def)

lemma length_push_new: "length (push_new x xs) \<le> Suc (length xs)"
  by (simp add: push_new_def)

subsection \<open>Invariants of a step relation\<close>

inductive reach :: "('s \<Rightarrow> bool) \<Rightarrow> ('s \<Rightarrow> 'e \<Rightarrow> 's \<Rightarrow> bool) \<Rightarrow> 's \<Rightarrow> bool"
  for init step where
  reach_init: "init s \<Longrightarrow> reach init step s"
| reach_step: "reach init step s \<Longrightarrow> step s e s' \<Longrightarrow> reach init step s'"

locale invariant_machine =
  fixes init :: "'s \<Rightarrow> bool" and step :: "'s \<Rightarrow> 'e \<Rightarrow> 's \<Rightarrow> bool" and inv :: "'s \<Rightarrow> bool"
  assumes inv_init: "init s \<Longrightarrow> inv s"
    and inv_step: "inv s \<Longrightarrow> step s e s' \<Longrightarrow> inv s'"
begin

lemma reach_inv: "reach init step s \<Longrightarrow> inv s"
  by (induction rule: reach.induct) (auto intro: inv_init inv_step)

end

end
