(* ===== verification/HubTypes.thy ===== *)
theory HubTypes
  imports Prelude
begin

section \<open>The records, states and effects of the beacon hub\<close>

text \<open>
  The data model shared by the coordinator, the scheduler and the queue journal: work items,
  beacons, affinity bindings, the coordinator's state, the services a handler finds at run time,
  and the calls a handler makes to them. Field names are the source's. A field the source
  initialises to \<open>null\<close> is an option; an absent string is \<open>''''\<close>, which is just as falsy.
\<close>

subsection \<open>Statuses\<close>

text \<open>
  The queue status strings used by the coordinator and the scheduler: the current names and the
  older ones the scheduler still accepts. \<open>OtherStatus\<close> is any other string, which can only come
  from a journal file.
\<close>

datatype status =
    Queued | Pending | Assigned | Dispatched | Running | RetryScheduled | Stalled
  | Completed | Complete | Failed | Errored | TimedOut | Canceled
  | OtherStatus string

fun status_name :: "status \<Rightarrow> string" where
  "status_name Queued = ''Queued''"
| "status_name Pending = ''Pending''"
| "status_name Assigned = ''Assigned''"
| "status_name Dispatched = ''Dispatched''"
| "status_name Running = ''Running''"
| "status_name RetryScheduled = ''RetryScheduled''"
| "status_name Stalled = ''Stalled''"
| "status_name Completed = ''Completed''"
| "status_name Complete = ''Complete''"
| "status_name Failed = ''Failed''"
| "status_name Errored = ''Error''"
| "status_name TimedOut = ''Timeout''"
| "status_name Canceled = ''Canceled''"
| "status_name (OtherStatus s) = s"

definition named_statuses :: "status list" where
  "named_statuses = [Queued, Pending, Assigned, Dispatched, Running, RetryScheduled, Stalled,
     Completed, Complete, Failed, Errored, TimedOut, Canceled]"

definition status_of :: "string \<Rightarrow> status" where
  "status_of s = (case find (\<lambda>st. status_name st = s) named_statuses of
     Some st \<Rightarrow> st | None \<Rightarrow> OtherStatus s)"

lemma status_of_name: "st \<in> set named_statuses \<Longrightarrow> status_of (status_name st) = st"
  by (cases st) (simp_all add: named_statuses_def status_of_def)

lemma status_name_of: "status_name (status_of s) = s"
  by (auto simp: status_of_def find_Some_iff split: option.splits)

text \<open>
  What an agent may still claim, what a beacon is working on, and what
  \<open>completeWorkItem\<close> and \<open>failWorkItem\<close> treat as already finalized.
\<close>

definition upcoming :: "status \<Rightarrow> bool" where
  "upcoming st \<longleftrightarrow> st \<in> {Queued, Pending, Assigned}"

definition finalized :: "status \<Rightarrow> bool" where
  "finalized st \<longleftrightarrow> st \<in> {Complete, Errored, TimedOut}"

text \<open>\<open>TERMINAL_STATUSES\<close> of the scheduler.\<close>

definition terminal_status :: "status \<Rightarrow> bool" where
  "terminal_status st \<longleftrightarrow> st \<in> {Completed, Complete, Failed, Errored, TimedOut, Canceled}"

datatype health_label = Healthy | Uncertain | Unhealthy | UnknownHealth

fun label_name :: "health_label \<Rightarrow> string" where
  "label_name Healthy = ''Healthy''"
| "label_name Uncertain = ''Uncertain''"
| "label_name Unhealthy = ''Unhealthy''"
| "label_name UnknownHealth = ''Unknown''"

subsection \<open>Work items\<close>

record progress =
  Percent :: json
  Message :: json
  Step :: json
  TotalSteps :: json
  UpdatedAt :: jstime

record work_item =
  WorkItemHash :: string
  RunHash :: string
  RunID :: string
  NodeHash :: string
  OperationHash :: string
  Capability :: string
  Action :: string
  Settings :: "json obj"
  AffinityKey :: string
  RequireAffinityMatch :: bool
  AssignedBeaconID :: "string option"
  Status :: status
  TimeoutMs :: int
  CreatedAt :: "jstime option"
  EnqueuedAt :: "jstime option"
  AssignedAt :: "jstime option"
  DispatchedAt :: "jstime option"
  StartedAt :: "jstime option"
  ClaimedAt :: "jstime option"
  CompletedAt :: "jstime option"
  CanceledAt :: "jstime option"
  CancelRequested :: bool
  CancelReason :: string
  LastEventAt :: "jstime option"
  QueueWaitMs :: int
  Priority :: int
  Health :: "rat option"
  HealthLabel :: health_label
  HealthReason :: string
  HealthComputedAt :: "jstime option"
  ItemResult :: json
  AttemptNumber :: int
  MaxAttempts :: "int option"
  RetryBackoffMs :: int
  RetryAfter :: "int option"
  LastError :: "string option"
  ItemProgress :: "progress option"
  AccumulatedLog :: "json list"
  StallFinalized :: bool
  PriorStatusBeforeStall :: "status option"
  StalledAt :: "jstime option"
  StalledSinceMs :: "int option"

text \<open>What a caller passes to \<open>enqueueWorkItem\<close>; an absent string or number is falsy.\<close>

record work_info =
  qRunHash :: string
  qRunID :: string
  qNodeHash :: string
  qOperationHash :: string
  qCapability :: string
  qAction :: string
  qSettings :: "json obj"
  qAffinityKey :: string
  qRequireAffinityMatch :: bool
  qTimeoutMs :: int
  qEnqueuedAt :: "jstime option"
  qPriority :: "int option"

subsection \<open>Beacons and affinity bindings\<close>

text \<open>
  \<open>Active\<close> is a status the scheduler accepts and no code of the hub assigns. A capability is a
  name or, for the scheduler only, an object with a \<open>Capability\<close> field.
\<close>

datatype beacon_status = Online | Offline | Busy | Active

datatype capability = CapName string | CapObj string

record beacon =
  BeaconID :: string
  Name :: string
  SessionID :: "string option"
  Capabilities :: "capability list"
  BeaconStatus :: beacon_status
  LastHeartbeat :: jstime
  CurrentWorkItems :: "string list"
  MaxConcurrent :: int
  Tags :: "json obj"
  Contexts :: "string option obj"
  BindAddresses :: "json list"
  HostID :: "string option"
  SharedMounts :: "json list"
  RegisteredAt :: jstime

record binding =
  BindKey :: string
  BindBeaconID :: string
  BindRunHash :: string
  BindCreatedAt :: jstime
  ExpiresAt :: jstime

record settings_input =
  FieldName :: string
  FieldDataType :: string
  FieldRequired :: bool
  FieldDescription :: string

record settings_field = settings_input +
  FieldDefault :: json

record catalog_entry =
  CatCapability :: string
  CatAction :: string
  CatDescription :: string
  CatSettingsSchema :: "settings_field list"
  CatSourceBeacons :: "string list"

text \<open>The definition of a task type generated from a catalog entry.\<close>

record task_config =
  tcHash :: string
  tcName :: string
  tcDescription :: string
  tcCategory :: string
  tcCapability :: string
  tcAction :: string
  tcSettingsInputs :: "settings_input list"
  tcDefaultSettings :: "json obj"

subsection \<open>Calls to other services\<close>

text \<open>
  A handler's calls to the journal, the persistence bridge, the scheduler's broadcast hook, the
  WebSocket push channel, the execution engine, the run manifest, and the callbacks of a waiting
  HTTP request, in the order it makes them. A call that hands over a record carries its payload.
\<close>

datatype effect =
    JournalAppend string "json obj"
  | PersistUpsert work_item
  | PersistUpdate string "json obj"
  | PersistEvent "json obj"
  | PersistAttempt "json obj"
  | PersistOutcome string int "json obj"
  | Broadcast string "json obj"
  | Push string "json obj" bool
  | CatalogPersist
  | TaskTypeRegistered task_config
  | OperationRegistered "json obj"
  | ReachabilityProbe string
  | FleetNotify string
  | BridgesNotify string
  | EngineResume string string "json obj"
  | EngineStall string string "json obj"
  | ManifestResumeEvent string string string
  | ManifestTaskError string string string
  | ManifestProgress string string progress
  | DirectCallback string "string + json obj"
  | StreamFrame string string json

text \<open>The coordinator's own state; \<open>Effects\<close> is the trace of calls made so far.\<close>

record coord =
  Beacons :: "beacon obj"
  WorkQueue :: "work_item obj"
  AffinityBindings :: "binding obj"
  WorkItemCounter :: nat
  DirectDispatchCallbacks :: "unit obj"
  StreamDispatchHandlers :: "unit obj"
  ActionCatalog :: "catalog_entry obj"
  Effects :: "effect list"

definition initial_coord :: coord where
  "initial_coord = \<lparr>Beacons = [], WorkQueue = [], AffinityBindings = [], WorkItemCounter = 0,
     DirectDispatchCallbacks = [], StreamDispatchHandlers = [], ActionCatalog = [],
     Effects = []\<rparr>"

text \<open>
  What a handler reads of its surroundings: the clock (one reading per handler), the Fable
  settings (0 or \<open>''''\<close> when unset) and the services it finds. The push channel answers whether
  the beacon has a live socket; the fleet filter is \<open>checkDispatchAllowed\<close>, with \<open>True\<close> where
  it allows or throws; \<open>WaitingNodes\<close> gives the nodes that wait in a run the manifest knows.
\<close>

record action_default =
  dTimeoutMs :: int
  dMaxAttempts :: int
  dRetryBackoffMs :: int
  dDefaultPriority :: int
  dExpectedWaitP95Ms :: int
  dHeartbeatExpectedMs :: int
  dMinSamplesForBaseline :: int

record hub_env =
  Now :: jstime
  WorkItemTimeoutSetting :: int
  AffinityTTLSetting :: int
  HeartbeatTimeoutSetting :: int
  HubInstanceID :: string
  PushHandler :: "(string \<Rightarrow> json obj \<Rightarrow> bool) option"
  FleetFilter :: "(string \<Rightarrow> work_item \<Rightarrow> bool) option"
  ActionDefaults :: "(string \<Rightarrow> string \<Rightarrow> action_default) option"
  JournalOn :: bool
  BridgeOn :: bool
  SchedulerOn :: bool
  EngineOn :: bool
  WaitingNodes :: "string \<Rightarrow> string list option"
  HypervisorStateOn :: bool
  ReachabilityOn :: bool
  FleetOn :: bool
  RegistryHas :: "(string \<Rightarrow> bool) option"

definition emit :: "effect \<Rightarrow> coord \<Rightarrow> coord" where
  "emit e s = s\<lparr>Effects := Effects s @ [e]\<rparr>"

definition emit_when :: "bool \<Rightarrow> effect list \<Rightarrow> coord \<Rightarrow> coord" where
  "emit_when b es s = (if b then s\<lparr>Effects := Effects s @ es\<rparr> else s)"

lemma emit_frame [simp]:
  "Beacons (emit e s) = Beacons s" "WorkQueue (emit e s) = WorkQueue s"
  "AffinityBindings (emit e s) = AffinityBindings s" "WorkItemCounter (emit e s) = WorkItemCounter s"
  "DirectDispatchCallbacks (emit e s) = DirectDispatchCallbacks s"
  "StreamDispatchHandlers (emit e s) = StreamDispatchHandlers s"
  "ActionCatalog (emit e s) = ActionCatalog s" "Effects (emit e s) = Effects s @ [e]"
  by (simp_all add: emit_def)

lemma emit_when_frame [simp]:
  "Beacons (emit_when b es s) = Beacons s" "WorkQueue (emit_when b es s) = WorkQueue s"
  "AffinityBindings (emit_when b es s) = AffinityBindings s"
  "WorkItemCounter (emit_when b es s) = WorkItemCounter s"
  "DirectDispatchCallbacks (emit_when b es s) = DirectDispatchCallbacks s"
  "StreamDispatchHandlers (emit_when b es s) = StreamDispatchHandlers s"
  "ActionCatalog (emit_when b es s) = ActionCatalog s"
  "Effects (emit_when b es s) = Effects s @ (if b then es else [])"
  by (simp_all add: emit_when_def)

definition set_item :: "string \<Rightarrow> work_item \<Rightarrow> coord \<Rightarrow> coord" where
  "set_item h w s = s\<lparr>WorkQueue := oset h w (WorkQueue s)\<rparr>"

definition set_beacon :: "string \<Rightarrow> beacon \<Rightarrow> coord \<Rightarrow> coord" where
  "set_beacon b bcn s = s\<lparr>Beacons := oset b bcn (Beacons s)\<rparr>"

definition delete_item :: "string \<Rightarrow> coord \<Rightarrow> coord" where
  "delete_item h s = s\<lparr>WorkQueue := odel h (WorkQueue s)\<rparr>"

lemma set_item_frame [simp]:
  "Beacons (set_item h w s) = Beacons s" "WorkQueue (set_item h w s) = oset h w (WorkQueue s)"
  "AffinityBindings (set_item h w s) = AffinityBindings s"
  "WorkItemCounter (set_item h w s) = WorkItemCounter s"
  "DirectDispatchCallbacks (set_item h w s) = DirectDispatchCallbacks s"
  "StreamDispatchHandlers (set_item h w s) = StreamDispatchHandlers s"
  "ActionCatalog (set_item h w s) = ActionCatalog s" "Effects (set_item h w s) = Effects s"
  by (simp_all add: set_item_def)

lemma set_beacon_frame [simp]:
  "Beacons (set_beacon b bcn s) = oset b bcn (Beacons s)"
  "WorkQueue (set_beacon b bcn s) = WorkQueue s"
  "AffinityBindings (set_beacon b bcn s) = AffinityBindings s"
  "WorkItemCounter (set_beacon b bcn s) = WorkItemCounter s"
  "DirectDispatchCallbacks (set_beacon b bcn s) = DirectDispatchCallbacks s"
  "StreamDispatchHandlers (set_beacon b bcn s) = StreamDispatchHandlers s"
  "ActionCatalog (set_beacon b bcn s) = ActionCatalog s" "Effects (set_beacon b bcn s) = Effects s"
  by (simp_all add: set_beacon_def)

lemma delete_item_frame [simp]:
  "Beacons (delete_item h s) = Beacons s" "WorkQueue (delete_item h s) = odel h (WorkQueue s)"
  "AffinityBindings (delete_item h s) = AffinityBindings s"
  "WorkItemCounter (delete_item h s) = WorkItemCounter s"
  "DirectDispatchCallbacks (delete_item h s) = DirectDispatchCallbacks s"
  "StreamDispatchHandlers (delete_item h s) = StreamDispatchHandlers s"
  "ActionCatalog (delete_item h s) = ActionCatalog s" "Effects (delete_item h s) = Effects s"
  by (simp_all add: delete_item_def)

text \<open>
  \<open>_isMetaCapability\<close> of the coordinator: the capabilities whose own dispatches are never
  persisted, because persisting them would dispatch again.
\<close>

definition isMetaCapability :: "string \<Rightarrow> bool" where
  "isMetaCapability c \<longleftrightarrow> c \<in> {''QueuePersistence'', ''ManifestStore'', ''MeadowProxy'',
     ''DataBeaconSchema'', ''DataBeaconManagement''}"

definition persists :: "hub_env \<Rightarrow> work_item \<Rightarrow> bool" where
  "persists env w \<longleftrightarrow> BridgeOn env \<and> \<not> isMetaCapability (Capability w)"

end
