(* ===== verification/ActionDefaults.thy ===== *)
theory ActionDefaults
  imports HubTypes
begin

section \<open>Per-action runtime defaults\<close>

text \<open>
  \<open>Ultravisor-Beacon-ActionDefaults.cjs\<close>: the table of per-action defaults with its ten-second
  cache, the lookup order (row of the action, row of the capability, Fable setting, hard
  default), and \<open>applyToWorkItem\<close>. The queue store is a database: its rows are the parameter
  \<open>row\<close>, a function from capability and action to the columns the row carries (\<open>None\<close> for a
  missing row, a column absent or 0 when unset).
\<close>

datatype default_field =
    FTimeoutMs | FMaxAttempts | FRetryBackoffMs | FDefaultPriority
  | FExpectedWaitP95Ms | FHeartbeatExpectedMs | FMinSamplesForBaseline

fun HARD_DEFAULTS :: "default_field \<Rightarrow> int" where
  "HARD_DEFAULTS FTimeoutMs = 300000"
| "HARD_DEFAULTS FMaxAttempts = 1"
| "HARD_DEFAULTS FRetryBackoffMs = 5000"
| "HARD_DEFAULTS FDefaultPriority = 0"
| "HARD_DEFAULTS FExpectedWaitP95Ms = 0"
| "HARD_DEFAULTS FHeartbeatExpectedMs = 60000"
| "HARD_DEFAULTS FMinSamplesForBaseline = 20"

type_synonym default_row = "default_field \<Rightarrow> int option"

record default_settings =
  setTimeoutMs :: int
  setHeartbeatMs :: int

record default_cache_entry =
  At :: jstime
  Value :: action_default

type_synonym default_cache = "default_cache_entry obj"

definition cacheTTLMs :: int where
  "cacheTTLMs = 10000"

definition cacheKey :: "string \<Rightarrow> string \<Rightarrow> string" where
  "cacheKey cap act = cap @ ''||'' @ act"

text \<open>\<open>null\<close> unless one of the two legacy settings is set to a truthy number.\<close>

definition fableSettingFallback :: "default_settings \<Rightarrow> default_field \<Rightarrow> int option" where
  "fableSettingFallback st f =
     (if f = FTimeoutMs \<and> setTimeoutMs st \<noteq> 0 then Some (setTimeoutMs st)
      else if f = FHeartbeatExpectedMs \<and> setHeartbeatMs st \<noteq> 0 then Some (setHeartbeatMs st)
      else None)"

text \<open>A column counts when it is neither \<open>null\<close> nor 0.\<close>

definition row_value :: "default_row option \<Rightarrow> default_field \<Rightarrow> int option" where
  "row_value r f = (case r of None \<Rightarrow> None
     | Some cols \<Rightarrow> (case cols f of None \<Rightarrow> None | Some n \<Rightarrow> if n = 0 then None else Some n))"

definition resolve_field ::
  "default_settings \<Rightarrow> default_row option \<Rightarrow> default_row option \<Rightarrow> default_field \<Rightarrow> int" where
  "resolve_field st specific wildcard f =
     (case row_value specific f of Some n \<Rightarrow> n
      | None \<Rightarrow> (case row_value wildcard f of Some n \<Rightarrow> n
         | None \<Rightarrow> (case fableSettingFallback st f of Some n \<Rightarrow> n
            | None \<Rightarrow> HARD_DEFAULTS f)))"

definition resolve_rows ::
  "default_settings \<Rightarrow> (string \<Rightarrow> string \<Rightarrow> default_row option) option \<Rightarrow> string \<Rightarrow> string \<Rightarrow>
     action_default" where
  "resolve_rows st store cap act =
     (let specific = (case store of None \<Rightarrow> None | Some row \<Rightarrow> row cap act);
          wildcard = (case store of None \<Rightarrow> None
            | Some row \<Rightarrow> if specific = None \<and> act \<noteq> [] then row cap [] else None);
          v = resolve_field st specific wildcard
      in \<lparr>dTimeoutMs = v FTimeoutMs, dMaxAttempts = v FMaxAttempts,
          dRetryBackoffMs = v FRetryBackoffMs, dDefaultPriority = v FDefaultPriority,
          dExpectedWaitP95Ms = v FExpectedWaitP95Ms,
          dHeartbeatExpectedMs = v FHeartbeatExpectedMs,
          dMinSamplesForBaseline = v FMinSamplesForBaseline\<rparr>)"

definition resolve ::
  "default_settings \<Rightarrow> (string \<Rightarrow> string \<Rightarrow> default_row option) option \<Rightarrow> jstime \<Rightarrow>
     string \<Rightarrow> string \<Rightarrow> default_cache \<Rightarrow> action_default \<times> default_cache" where
  "resolve st store now cap act cache =
     (case oget cache (cacheKey cap act) of
        Some e \<Rightarrow>
          (if now - At e < cacheTTLMs then (Value e, cache)
           else (let v = resolve_rows st store cap act
                 in (v, oset (cacheKey cap act) \<lparr>At = now, Value = v\<rparr> cache)))
      | None \<Rightarrow>
          (let v = resolve_rows st store cap act
           in (v, oset (cacheKey cap act) \<lparr>At = now, Value = v\<rparr> cache)))"

text \<open>
  \<open>applyToWorkItem\<close>. The \<open>Priority == null\<close> branch is kept as an option: a work item of the
  coordinator always carries a number there.
\<close>

definition default_priority :: "json obj \<Rightarrow> action_default \<Rightarrow> int" where
  "default_priority st d = (case parseInt (jget st ''priority'') of Some n \<Rightarrow> n
     | None \<Rightarrow> (case parseInt (jget st ''Priority'') of Some n \<Rightarrow> n | None \<Rightarrow> dDefaultPriority d))"

definition applyToWorkItem ::
  "action_default \<Rightarrow> json obj \<Rightarrow> int option \<Rightarrow> work_item \<Rightarrow> work_item" where
  "applyToWorkItem d st pri w = w\<lparr>
     TimeoutMs := num_or (TimeoutMs w)
       (parseInt_or (jget st ''timeoutMs'') (parseInt_or (jget st ''TimeoutMs'') (dTimeoutMs d))),
     MaxAttempts := Some (case MaxAttempts w of
         Some n \<Rightarrow> num_or n (parseInt_or (jget st ''maxRetries'')
           (parseInt_or (jget st ''MaxAttempts'') (dMaxAttempts d)))
       | None \<Rightarrow> parseInt_or (jget st ''maxRetries'')
           (parseInt_or (jget st ''MaxAttempts'') (dMaxAttempts d))),
     RetryBackoffMs := num_or (RetryBackoffMs w)
       (parseInt_or (jget st ''retryBackoffMs'')
         (parseInt_or (jget st ''RetryBackoffMs'') (dRetryBackoffMs d))),
     Priority := (case pri of Some p \<Rightarrow> p | None \<Rightarrow> default_priority st d)\<rparr>"

text \<open>
  \<open>recomputeWaitBaseline\<close>: the 95th percentile of the stored wait samples, or \<open>None\<close> when the
  store is missing or holds too few. The second component is the row written back to the store,
  the third the cache, which a successful run drops.
\<close>

definition p95_index :: "nat \<Rightarrow> nat" where
  "p95_index n = (95 * n) div 100 - 1"

definition recomputeWaitBaseline ::
  "string \<Rightarrow> string \<Rightarrow> int \<Rightarrow> int list option \<Rightarrow> default_cache \<Rightarrow>
     int option \<times> (string \<times> string \<times> int option) list \<times> default_cache" where
  "recomputeWaitBaseline cap act minSamples samples cache =
     (case samples of None \<Rightarrow> (None, [], cache)
      | Some xs \<Rightarrow>
          (if int (length xs) < num_or minSamples (HARD_DEFAULTS FMinSamplesForBaseline)
           then (None, [], cache)
           else (let ys = sort_by (\<lambda>a b. a - b) xs; i = p95_index (length ys);
                     p95 = (if i < length ys then Some (ys ! i) else None)
                 in (p95, [(cap, act, p95)], []))))"

subsection \<open>Properties of the lookup\<close>

lemma resolve_cached:
  "oget cache (cacheKey cap act) = Some e \<Longrightarrow> now - At e < cacheTTLMs \<Longrightarrow>
    resolve st store now cap act cache = (Value e, cache)"
  by (simp add: resolve_def)

lemma resolve_miss:
  assumes "\<And>e. oget cache (cacheKey cap act) = Some e \<Longrightarrow> cacheTTLMs \<le> now - At e"
  shows "resolve st store now cap act cache =
    (resolve_rows st store cap act,
     oset (cacheKey cap act) \<lparr>At = now, Value = resolve_rows st store cap act\<rparr> cache)"
  using assms by (auto simp: resolve_def Let_def not_le [symmetric] split: option.splits)

lemma row_value_nonzero: "row_value r f = Some n \<Longrightarrow> n \<noteq> 0"
  by (auto simp: row_value_def split: option.splits if_splits)

lemma resolve_field_order:
  "row_value specific f = Some n \<Longrightarrow> resolve_field st specific wildcard f = n"
  "row_value specific f = None \<Longrightarrow> row_value wildcard f = Some n \<Longrightarrow>
     resolve_field st specific wildcard f = n"
  "row_value specific f = None \<Longrightarrow> row_value wildcard f = None \<Longrightarrow>
     fableSettingFallback st f = Some n \<Longrightarrow> resolve_field st specific wildcard f = n"
  "row_value specific f = None \<Longrightarrow> row_value wildcard f = None \<Longrightarrow>
     fableSettingFallback st f = None \<Longrightarrow> resolve_field st specific wildcard f = HARD_DEFAULTS f"
  by (simp_all add: resolve_field_def)

lemma num_or_nonzero [simp]: "n \<noteq> 0 \<Longrightarrow> num_or n d = n"
  by (simp add: num_or_def)

text \<open>
  A work item whose timeout, attempt limit and backoff are all set is not changed: the row, the
  settings and the hard defaults are read only where the item has nothing.
\<close>

lemma applyToWorkItem_set:
  assumes "TimeoutMs w \<noteq> 0" "MaxAttempts w = Some n" "n \<noteq> 0" "RetryBackoffMs w \<noteq> 0"
  shows "applyToWorkItem d st (Some (Priority w)) w = w"
  using assms by (simp add: applyToWorkItem_def)

interpretation int_diff: comparator "\<lambda>a b :: int. a - b"
  by standard auto

lemma sort_by_int_sorted: "sorted (sort_by (\<lambda>a b :: int. a - b) xs)"
  using int_diff.sorted_sort_by [of xs] by (simp add: sorted_wrt_iff_nth_less sorted_iff_nth_mono_less)

lemma p95_index_bounds: "0 < n \<Longrightarrow> p95_index n < n"
  unfolding p95_index_def by arith

end
