(* ===== verification/WorkQueue.thy ===== *)
theory WorkQueue
  imports ActionDefaults
begin

section \<open>The work queue: enqueue, push and poll\<close>

text \<open>
  The assignment paths of \<open>Ultravisor-Beacon-Coordinator.cjs\<close>: \<open>enqueueWorkItem\<close> and its routing by
  name and by sticky binding, the push of a work item to a beacon with a live socket, the poll of
  a beacon over HTTP, and the record sent to a beacon. A handler reads the clock and the services
  from \<open>env\<close> and returns the coordinator's next state. An item is addressed by its hash, since
  the source mutates the record that the queue holds.
\<close>

subsection \<open>Lookups\<close>

text \<open>\<open>findBeaconByName\<close>: the first beacon in registration order with that name.\<close>

definition findBeaconByName :: "string \<Rightarrow> coord \<Rightarrow> (string \<times> beacon) option" where
  "findBeaconByName n s = find (\<lambda>kb. Name (snd kb) = n) (Beacons s)"

definition runningCountForBeacon :: "string \<Rightarrow> coord \<Rightarrow> nat" where
  "runningCountForBeacon b s =
     ocount (\<lambda>w. AssignedBeaconID w = Some b \<and> Status w = Running) (WorkQueue s)"

definition beaconSatisfiesAffinity :: "work_item \<Rightarrow> beacon \<Rightarrow> bool" where
  "beaconSatisfiesAffinity w b =
     (if \<not> RequireAffinityMatch w \<or> AffinityKey w = [] then True else Name b = AffinityKey w)"

text \<open>\<open>tmpBeacon.Capabilities.indexOf(cap) !== -1\<close>: only plain names count here.\<close>

definition beaconHasCapability :: "string \<Rightarrow> beacon \<Rightarrow> bool" where
  "beaconHasCapability c b \<longleftrightarrow> CapName c \<in> set (Capabilities b)"

definition atCapacity :: "beacon \<Rightarrow> bool" where
  "atCapacity b \<longleftrightarrow> int (length (CurrentWorkItems b)) \<ge> MaxConcurrent b"

subsection \<open>The record sent to a beacon\<close>

text \<open>
  \<open>_sanitizeWorkItemForBeacon\<close>. It fills \<open>Settings.QueueMetadata\<close> when the settings have none, and
  that write stays on the item: the second component is the item with its new settings.
\<close>

definition queueMetadata :: "hub_env \<Rightarrow> work_item \<Rightarrow> jstime \<Rightarrow> json" where
  "queueMetadata env w enq = JObj
     [(''RunID'', JStr (RunID w)),
      (''WorkItemHash'', JStr (WorkItemHash w)),
      (''EnqueuedAt'', JTime enq),
      (''DispatchedAt'', JOptTime (opt_or (DispatchedAt w) (Some (Now env)))),
      (''QueueWaitMs'', JInt (num_or (QueueWaitMs w) (max 0 (Now env - enq)))),
      (''AttemptNumber'', JInt (num_or (AttemptNumber w) 1)),
      (''HubInstanceID'', JStr (HubInstanceID env))]"

definition sanitizeWorkItemForBeacon :: "hub_env \<Rightarrow> work_item \<Rightarrow> json obj \<times> work_item" where
  "sanitizeWorkItemForBeacon env w =
     (let st = (case EnqueuedAt w of
                  Some enq \<Rightarrow> (if truthy (jget (Settings w) ''QueueMetadata'') then Settings w
                               else oset ''QueueMetadata'' (queueMetadata env w enq) (Settings w))
                | None \<Rightarrow> Settings w)
      in ([(''WorkItemHash'', JStr (WorkItemHash w)),
           (''RunID'', JStr (RunID w)),
           (''Capability'', JStr (Capability w)),
           (''Action'', JStr (Action w)),
           (''Settings'', JObj st),
           (''OperationHash'', JStr (OperationHash w)),
           (''TimeoutMs'', JInt (TimeoutMs w)),
           (''AttemptNumber'', JInt (num_or (AttemptNumber w) 1)),
           (''QueueMetadata'', jget st ''QueueMetadata'')],
          w\<lparr>Settings := st\<rparr>))"

text \<open>Hand a work item to the push channel of a beacon; the flag is its answer.\<close>

definition push_to ::
  "hub_env \<Rightarrow> (string \<Rightarrow> json obj \<Rightarrow> bool) \<Rightarrow> string \<Rightarrow> string \<Rightarrow> work_item \<Rightarrow> coord \<Rightarrow>
     bool \<times> work_item \<times> coord" where
  "push_to env ph b h w s =
     (let (payload, w') = sanitizeWorkItemForBeacon env w; ok = ph b payload
      in (ok, w', emit (Push b payload ok) (set_item h w' s)))"

subsection \<open>Pushing\<close>

definition pushAssignedWorkItem :: "hub_env \<Rightarrow> string \<Rightarrow> coord \<Rightarrow> bool \<times> coord" where
  "pushAssignedWorkItem env h s =
     (case (PushHandler env, oget (WorkQueue s) h) of
        (Some ph, Some w) \<Rightarrow>
          (case AssignedBeaconID w of None \<Rightarrow> (False, s)
           | Some b \<Rightarrow>
             (case oget (Beacons s) b of None \<Rightarrow> (False, s)
              | Some bcn \<Rightarrow>
                 (if BeaconStatus bcn \<noteq> Online \<and> BeaconStatus bcn \<noteq> Busy then (False, s)
                  else if int (runningCountForBeacon b s) \<ge> num_or (MaxConcurrent bcn) 1
                  then (False, s)
                  else (let (ok, w', s') = push_to env ph b h (w\<lparr>Status := Running\<rparr>) s
                        in if ok then (True, s')
                           else (False, set_item h (w'\<lparr>Status := Assigned\<rparr>) s')))))
      | _ \<Rightarrow> (False, s))"

text \<open>
  The binding created when an item with an affinity key is taken and the key has none:
  \<open>UltravisorBeaconAffinityTTLMs || 3600000\<close> from now.
\<close>

definition bind_affinity :: "hub_env \<Rightarrow> work_item \<Rightarrow> string \<Rightarrow> coord \<Rightarrow> coord" where
  "bind_affinity env w b s =
     (if AffinityKey w \<noteq> [] \<and> oget (AffinityBindings s) (AffinityKey w) = None
      then s\<lparr>AffinityBindings := oset (AffinityKey w)
               \<lparr>BindKey = AffinityKey w, BindBeaconID = b, BindRunHash = RunHash w,
                BindCreatedAt = Now env,
                ExpiresAt = Now env + num_or (AffinityTTLSetting env) 3600000\<rparr>
               (AffinityBindings s)\<rparr>
      else s)"

definition binding_json :: "binding \<Rightarrow> json obj" where
  "binding_json bd = [(''AffinityKey'', JStr (BindKey bd)), (''BeaconID'', JStr (BindBeaconID bd)),
     (''RunHash'', JStr (BindRunHash bd)), (''CreatedAt'', JTime (BindCreatedAt bd)),
     (''ExpiresAt'', JTime (ExpiresAt bd))]"

text \<open>The journal lines of a claim: the claim itself and the binding of its key, if any.\<close>

definition journal_claim :: "hub_env \<Rightarrow> work_item \<Rightarrow> string \<Rightarrow> coord \<Rightarrow> coord" where
  "journal_claim env w b s = emit_when (JournalOn env)
     (JournalAppend ''claim'' [(''WorkItemHash'', JStr (WorkItemHash w)), (''BeaconID'', JStr b),
        (''ClaimedAt'', JOptTime (ClaimedAt w))]
      # (if AffinityKey w \<noteq> [] then
           (case oget (AffinityBindings s) (AffinityKey w) of None \<Rightarrow> []
            | Some bd \<Rightarrow> [JournalAppend ''affinity-create'' (binding_json bd)])
         else [])) s"

definition fleetAllows :: "hub_env \<Rightarrow> string \<Rightarrow> work_item \<Rightarrow> bool" where
  "fleetAllows env b w = (case FleetFilter env of None \<Rightarrow> True | Some f \<Rightarrow> f b w)"

text \<open>The gates of the push loop: online or busy, free slot, affinity, capability, fleet filter.\<close>

definition pushEligible :: "hub_env \<Rightarrow> work_item \<Rightarrow> beacon \<Rightarrow> bool" where
  "pushEligible env w bcn \<longleftrightarrow>
     (BeaconStatus bcn = Online \<or> BeaconStatus bcn = Busy) \<and> \<not> atCapacity bcn \<and>
     beaconSatisfiesAffinity w bcn \<and> beaconHasCapability (Capability w) bcn \<and>
     fleetAllows env (BeaconID bcn) w"

definition push_claim :: "hub_env \<Rightarrow> beacon \<Rightarrow> work_item \<Rightarrow> work_item" where
  "push_claim env bcn w = w\<lparr>Status := Running, AssignedBeaconID := Some (BeaconID bcn),
     ClaimedAt := Some (Now env), DispatchedAt := Some (Now env), LastEventAt := Some (Now env)\<rparr>"

text \<open>One beacon of the loop of \<open>_tryPushToWebSocketBeacon\<close> that passed the gates.\<close>

definition tryPushOne ::
  "hub_env \<Rightarrow> (string \<Rightarrow> json obj \<Rightarrow> bool) \<Rightarrow> string \<Rightarrow> string \<Rightarrow> beacon \<Rightarrow> work_item \<Rightarrow> coord \<Rightarrow>
     bool \<times> coord" where
  "tryPushOne env ph h k bcn w s =
     (let w1 = push_claim env bcn w;
          s1 = set_beacon k (bcn\<lparr>CurrentWorkItems := CurrentWorkItems bcn @ [WorkItemHash w]\<rparr>)
                 (set_item h w1 s);
          s2 = bind_affinity env w1 (BeaconID bcn) s1;
          (ok, w2, s3) = push_to env ph (BeaconID bcn) h w1 s2
      in if ok then (True, journal_claim env w2 (BeaconID bcn) s3)
         else (False, set_beacon k
                 (bcn\<lparr>CurrentWorkItems :=
                    remove1 (WorkItemHash w) (CurrentWorkItems bcn @ [WorkItemHash w])\<rparr>)
                 (set_item h (w2\<lparr>Status := Pending, AssignedBeaconID := None, ClaimedAt := None\<rparr>)
                    s3)))"

fun tryPushLoop ::
  "hub_env \<Rightarrow> (string \<Rightarrow> json obj \<Rightarrow> bool) \<Rightarrow> string \<Rightarrow> string list \<Rightarrow> coord \<Rightarrow> bool \<times> coord" where
  "tryPushLoop env ph h [] s = (False, s)"
| "tryPushLoop env ph h (k # ks) s =
     (case (oget (Beacons s) k, oget (WorkQueue s) h) of
        (Some bcn, Some w) \<Rightarrow>
          (if pushEligible env w bcn
           then (case tryPushOne env ph h k bcn w s of
                   (True, s') \<Rightarrow> (True, s') | (False, s') \<Rightarrow> tryPushLoop env ph h ks s')
           else tryPushLoop env ph h ks s)
      | _ \<Rightarrow> tryPushLoop env ph h ks s)"

definition tryPushToWebSocketBeacon :: "hub_env \<Rightarrow> string \<Rightarrow> coord \<Rightarrow> bool \<times> coord" where
  "tryPushToWebSocketBeacon env h s =
     (case PushHandler env of None \<Rightarrow> (False, s)
      | Some ph \<Rightarrow> tryPushLoop env ph h (okeys (Beacons s)) s)"

subsection \<open>Enqueue\<close>

text \<open>
  The hash is \<open>wi-run-node-clock-counter\<close>; the record starts Pending, unassigned, on attempt 0.
\<close>

definition workItemHash :: "work_info \<Rightarrow> jstime \<Rightarrow> nat \<Rightarrow> string" where
  "workItemHash q now ctr = ''wi-'' @ str_or (qRunHash q) ''unknown'' @ ''-'' @
     str_or (qNodeHash q) ''unknown'' @ ''-'' @ show_int now @ ''-'' @ show_nat ctr"

definition newWorkItem :: "hub_env \<Rightarrow> work_info \<Rightarrow> nat \<Rightarrow> work_item" where
  "newWorkItem env q ctr =
     \<lparr>WorkItemHash = workItemHash q (Now env) ctr,
      RunHash = qRunHash q, RunID = qRunID q, NodeHash = qNodeHash q,
      OperationHash = qOperationHash q,
      Capability = str_or (qCapability q) ''Shell'', Action = str_or (qAction q) ''Execute'',
      Settings = qSettings q, AffinityKey = qAffinityKey q,
      RequireAffinityMatch = qRequireAffinityMatch q,
      AssignedBeaconID = None, Status = Pending,
      TimeoutMs = num_or (qTimeoutMs q) (num_or (WorkItemTimeoutSetting env) 300000),
      CreatedAt = Some (Now env), EnqueuedAt = opt_or (qEnqueuedAt q) (Some (Now env)),
      AssignedAt = None, DispatchedAt = None, StartedAt = None, ClaimedAt = None,
      CompletedAt = None, CanceledAt = None, CancelRequested = False, CancelReason = [],
      LastEventAt = Some (Now env), QueueWaitMs = 0,
      Priority = (case qPriority q of Some p \<Rightarrow> p
        | None \<Rightarrow> parseInt_or (jget (qSettings q) ''priority'') 0),
      Health = None, HealthLabel = UnknownHealth, HealthReason = [], HealthComputedAt = None,
      ItemResult = JNull, AttemptNumber = 0,
      MaxAttempts = Some (parseInt_or (jget (qSettings q) ''maxRetries'') 1),
      RetryBackoffMs = parseInt_or (jget (qSettings q) ''retryBackoffMs'') 5000,
      RetryAfter = None, LastError = None, ItemProgress = None, AccumulatedLog = [],
      StallFinalized = False, PriorStatusBeforeStall = None, StalledAt = None,
      StalledSinceMs = None\<rparr>"

definition withDefaults :: "hub_env \<Rightarrow> work_info \<Rightarrow> work_item \<Rightarrow> work_item" where
  "withDefaults env q w = (case ActionDefaults env of None \<Rightarrow> w
     | Some f \<Rightarrow> applyToWorkItem (f (Capability w) (Action w)) (qSettings q) (Some (Priority w)) w)"

definition assign_to :: "hub_env \<Rightarrow> string \<Rightarrow> work_item \<Rightarrow> work_item" where
  "assign_to env b w =
     w\<lparr>AssignedBeaconID := Some b, Status := Assigned, ClaimedAt := Some (Now env)\<rparr>"

definition add_current :: "string \<Rightarrow> string \<Rightarrow> coord \<Rightarrow> coord" where
  "add_current k h s = (case oget (Beacons s) k of None \<Rightarrow> s
     | Some bcn \<Rightarrow> set_beacon k (bcn\<lparr>CurrentWorkItems := CurrentWorkItems bcn @ [h]\<rparr>) s)"

text \<open>
  Routing by affinity key: to the beacon of that name; else, for a strict item, nowhere; else to
  the live beacon of an unexpired binding. An expired binding is deleted on the way.
\<close>

definition routeWorkItem :: "hub_env \<Rightarrow> work_item \<Rightarrow> coord \<Rightarrow> work_item \<times> coord" where
  "routeWorkItem env w s =
     (if AffinityKey w = [] then (w, s)
      else (case findBeaconByName (AffinityKey w) s of
          Some (k, bcn) \<Rightarrow> (assign_to env (BeaconID bcn) w, add_current k (WorkItemHash w) s)
        | None \<Rightarrow>
            (if RequireAffinityMatch w then (w, s)
             else (case oget (AffinityBindings s) (AffinityKey w) of
                 None \<Rightarrow> (w, s)
               | Some bd \<Rightarrow>
                   (if oget (Beacons s) (BindBeaconID bd) = None then (w, s)
                    else if Now env < ExpiresAt bd
                    then (assign_to env (BindBeaconID bd) w,
                          add_current (BindBeaconID bd) (WorkItemHash w) s)
                    else (w, s\<lparr>AffinityBindings :=
                               odel (AffinityKey w) (AffinityBindings s)\<rparr>))))))"

definition enqueue_json :: "work_item \<Rightarrow> json obj" where
  "enqueue_json w =
     [(''WorkItemHash'', JStr (WorkItemHash w)), (''RunHash'', JStr (RunHash w)),
      (''NodeHash'', JStr (NodeHash w)), (''OperationHash'', JStr (OperationHash w)),
      (''Capability'', JStr (Capability w)), (''Action'', JStr (Action w)),
      (''Settings'', JObj (Settings w)), (''AffinityKey'', JStr (AffinityKey w)),
      (''AssignedBeaconID'', JOptStr (AssignedBeaconID w)),
      (''Status'', JStr (status_name (Status w))), (''TimeoutMs'', JInt (TimeoutMs w)),
      (''CreatedAt'', JOptTime (CreatedAt w)), (''ClaimedAt'', JOptTime (ClaimedAt w))]"

definition journal_enqueue :: "hub_env \<Rightarrow> work_item \<Rightarrow> coord \<Rightarrow> coord" where
  "journal_enqueue env w s = emit_when (JournalOn env)
     (JournalAppend ''enqueue'' (enqueue_json w)
      # (if AffinityKey w \<noteq> [] \<and> Status w = Assigned then
           (case oget (AffinityBindings s) (AffinityKey w) of None \<Rightarrow> []
            | Some bd \<Rightarrow> [JournalAppend ''affinity-create'' (binding_json bd)])
         else [])) s"

definition persist_enqueue :: "hub_env \<Rightarrow> work_item \<Rightarrow> coord \<Rightarrow> coord" where
  "persist_enqueue env w s = emit_when (persists env w)
     [PersistUpsert w,
      PersistEvent [(''WorkItemHash'', JStr (WorkItemHash w)), (''RunID'', JStr (RunID w)),
        (''EventType'', JStr ''enqueued''), (''FromStatus'', JStr []),
        (''ToStatus'', JStr (status_name (Status w))),
        (''Payload'', JObj [(''Capability'', JStr (Capability w)), (''Action'', JStr (Action w)),
           (''Priority'', JInt (Priority w)), (''AffinityKey'', JStr (AffinityKey w))])]] s"

text \<open>The scheduler's \<open>notifyEnqueued\<close>.\<close>

definition notifyEnqueued :: "work_item \<Rightarrow> effect" where
  "notifyEnqueued w = Broadcast ''queue.enqueued''
     [(''WorkItemHash'', JStr (WorkItemHash w)), (''RunID'', JStr (RunID w)),
      (''Capability'', JStr (Capability w)), (''Action'', JStr (Action w)),
      (''Priority'', JInt (Priority w)), (''EnqueuedAt'', JOptTime (EnqueuedAt w)),
      (''AffinityKey'', JStr (AffinityKey w))]"

text \<open>
  \<open>enqueueWorkItem\<close>: the hash of the new item and the next state. A Pending item is offered to
  the sockets at once; an Assigned one goes to its own beacon when that has running capacity.
\<close>

definition enqueueRecord :: "hub_env \<Rightarrow> work_info \<Rightarrow> coord \<Rightarrow> work_item \<times> coord" where
  "enqueueRecord env q s0 =
     (let s1 = s0\<lparr>WorkItemCounter := Suc (WorkItemCounter s0)\<rparr>;
          w0 = withDefaults env q (newWorkItem env q (WorkItemCounter s1));
          (w, s2) = routeWorkItem env w0 s1;
          s3 = set_item (WorkItemHash w) w s2
      in (w, emit_when (SchedulerOn env) [notifyEnqueued w]
               (persist_enqueue env w (journal_enqueue env w s3))))"

definition enqueueWorkItem :: "hub_env \<Rightarrow> work_info \<Rightarrow> coord \<Rightarrow> string \<times> coord" where
  "enqueueWorkItem env q s0 =
     (let (w, s) = enqueueRecord env q s0; h = WorkItemHash w
      in if Status w = Pending then (h, snd (tryPushToWebSocketBeacon env h s))
         else if Status w = Assigned then (h, snd (pushAssignedWorkItem env h s))
         else (h, s))"

subsection \<open>Poll\<close>

definition pollWait :: "hub_env \<Rightarrow> work_item \<Rightarrow> int" where
  "pollWait env w = (if QueueWaitMs w \<noteq> 0 then QueueWaitMs w
     else (case EnqueuedAt w of None \<Rightarrow> QueueWaitMs w | Some e \<Rightarrow> max 0 (Now env - e)))"

definition dispatched_event :: "work_item \<Rightarrow> string \<Rightarrow> status \<Rightarrow> effect" where
  "dispatched_event w b from_st = PersistEvent
     [(''WorkItemHash'', JStr (WorkItemHash w)), (''RunID'', JStr (RunID w)),
      (''EventType'', JStr ''dispatched''), (''FromStatus'', JStr (status_name from_st)),
      (''ToStatus'', JStr ''Running''), (''BeaconID'', JStr b),
      (''Payload'', JObj [(''QueueWaitMs'', JInt (QueueWaitMs w)), (''Path'', JStr ''poll'')])]"

definition attempt_row :: "work_item \<Rightarrow> string \<Rightarrow> effect" where
  "attempt_row w b = PersistAttempt
     [(''WorkItemHash'', JStr (WorkItemHash w)), (''AttemptNumber'', JInt (AttemptNumber w)),
      (''BeaconID'', JStr b), (''DispatchedAt'', JOptTime (DispatchedAt w)),
      (''Outcome'', JStr ''Dispatched'')]"

text \<open>The first pass: an item assigned to the polling beacon starts to run.\<close>

definition claimAssigned :: "hub_env \<Rightarrow> work_item \<Rightarrow> work_item" where
  "claimAssigned env w = w\<lparr>Status := Running,
     StartedAt := opt_or (StartedAt w) (Some (Now env)),
     DispatchedAt := opt_or (DispatchedAt w) (Some (Now env)),
     LastEventAt := Some (Now env), QueueWaitMs := pollWait env w,
     AttemptNumber := AttemptNumber w + 1\<rparr>"

definition pollAssigned :: "hub_env \<Rightarrow> string \<Rightarrow> string \<Rightarrow> work_item \<Rightarrow> coord \<Rightarrow> json obj \<times> coord" where
  "pollAssigned env b h w0 s =
     (let w = claimAssigned env w0;
          s1 = emit_when (persists env w)
            [PersistUpdate (WorkItemHash w)
               [(''Status'', JStr ''Running''), (''StartedAt'', JOptTime (StartedAt w)),
                (''DispatchedAt'', JOptTime (DispatchedAt w)), (''LastEventAt'', JTime (Now env)),
                (''QueueWaitMs'', JInt (QueueWaitMs w)),
                (''AttemptNumber'', JInt (AttemptNumber w))],
             dispatched_event w b Assigned, attempt_row w b] s;
          (payload, w') = sanitizeWorkItemForBeacon env w
      in (payload, set_item h w' s1))"

text \<open>
  The second pass: a Pending item that is free or already this beacon's, that the affinity rule
  and the beacon's capabilities admit, and that the fleet filter does not deny.
\<close>

definition pollEligible :: "hub_env \<Rightarrow> string \<Rightarrow> beacon \<Rightarrow> work_item \<Rightarrow> bool" where
  "pollEligible env b bcn w \<longleftrightarrow> Status w = Pending \<and>
     (AssignedBeaconID w = None \<or> AssignedBeaconID w = Some b) \<and>
     beaconSatisfiesAffinity w bcn \<and> beaconHasCapability (Capability w) bcn \<and>
     fleetAllows env b w"

definition claimPending :: "hub_env \<Rightarrow> string \<Rightarrow> work_item \<Rightarrow> work_item" where
  "claimPending env b w = w\<lparr>Status := Running, AssignedBeaconID := Some b,
     ClaimedAt := Some (Now env),
     AssignedAt := opt_or (AssignedAt w) (Some (Now env)),
     DispatchedAt := opt_or (DispatchedAt w) (Some (Now env)),
     StartedAt := opt_or (StartedAt w) (Some (Now env)),
     LastEventAt := Some (Now env), QueueWaitMs := pollWait env w,
     AttemptNumber := AttemptNumber w + 1\<rparr>"

definition push_current :: "string \<Rightarrow> string \<Rightarrow> coord \<Rightarrow> coord" where
  "push_current b h s = (case oget (Beacons s) b of None \<Rightarrow> s
     | Some bcn \<Rightarrow> set_beacon b (bcn\<lparr>CurrentWorkItems := push_new h (CurrentWorkItems bcn)\<rparr>) s)"

definition pollPending :: "hub_env \<Rightarrow> string \<Rightarrow> string \<Rightarrow> work_item \<Rightarrow> coord \<Rightarrow> json obj \<times> coord" where
  "pollPending env b h w0 s =
     (let w = claimPending env b w0;
          s1 = emit_when (persists env w)
            [PersistUpdate (WorkItemHash w)
               [(''Status'', JStr ''Running''), (''AssignedBeaconID'', JStr b),
                (''AssignedAt'', JOptTime (AssignedAt w)),
                (''DispatchedAt'', JOptTime (DispatchedAt w)),
                (''StartedAt'', JOptTime (StartedAt w)), (''LastEventAt'', JTime (Now env)),
                (''QueueWaitMs'', JInt (QueueWaitMs w)),
                (''AttemptNumber'', JInt (AttemptNumber w))],
             dispatched_event w b (Status w0), attempt_row w b] s;
          s2 = bind_affinity env w b (push_current b (WorkItemHash w) s1);
          s3 = journal_claim env w b s2;
          (payload, w') = sanitizeWorkItemForBeacon env w
      in (payload, set_item h w' s3))"

definition pollForWork :: "hub_env \<Rightarrow> string \<Rightarrow> coord \<Rightarrow> json obj option \<times> coord" where
  "pollForWork env b s0 =
     (case oget (Beacons s0) b of None \<Rightarrow> (None, s0)
      | Some bcn \<Rightarrow>
          (let s = set_beacon b (bcn\<lparr>LastHeartbeat := Now env\<rparr>) s0
           in if atCapacity bcn then (None, s)
              else (case find (\<lambda>(h, w). Status w = Assigned \<and> AssignedBeaconID w = Some b)
                          (WorkQueue s) of
                  Some (h, w) \<Rightarrow> (case pollAssigned env b h w s of (p, s') \<Rightarrow> (Some p, s'))
                | None \<Rightarrow>
                    (case find (\<lambda>(h, w). pollEligible env b bcn w) (WorkQueue s) of
                       Some (h, w) \<Rightarrow> (case pollPending env b h w s of (p, s') \<Rightarrow> (Some p, s'))
                     | None \<Rightarrow> (None, s)))))"

end
