(* ===== verification/WorkOutcome.thy ===== *)
theory WorkOutcome
  imports WorkQueue
begin

section \<open>What happens to dispatched work: completion, failure, stall, progress, timeouts\<close>

text \<open>
  The second half of \<open>Ultravisor-Beacon-Coordinator.cjs\<close>: the slot-free re-dispatch, the completion
  and failure of a work item with its retry branch, the stall finalization, the direct and the
  streaming dispatch, progress reports, and the periodic timeout check. The engine answers
  \<open>resumeOperation\<close> and \<open>stallOperation\<close> through a callback, which is a handler of its own
  (\<open>resumeFinished\<close>, \<open>stallFinished\<close>): between the call and the answer the item stays queued.
\<close>

subsection \<open>Slot-free re-dispatch\<close>

fun dispatchLoop :: "hub_env \<Rightarrow> string list \<Rightarrow> coord \<Rightarrow> coord" where
  "dispatchLoop env [] s = s"
| "dispatchLoop env (h # hs) s = dispatchLoop env hs
     (case oget (WorkQueue s) h of None \<Rightarrow> s
      | Some w \<Rightarrow>
          (if Status w = Assigned \<and> AssignedBeaconID w \<noteq> None then snd (pushAssignedWorkItem env h s)
           else if Status w \<noteq> Pending \<or> AssignedBeaconID w \<noteq> None then s
           else snd (tryPushToWebSocketBeacon env h s)))"

definition dispatchPendingWorkItems :: "hub_env \<Rightarrow> coord \<Rightarrow> coord" where
  "dispatchPendingWorkItems env s =
     (case PushHandler env of None \<Rightarrow> s
      | Some ph \<Rightarrow> dispatchLoop env (okeys (WorkQueue s)) s)"

definition free_slot :: "string \<Rightarrow> beacon \<Rightarrow> beacon" where
  "free_slot h bcn =
     (let cur = remove1 h (CurrentWorkItems bcn)
      in bcn\<lparr>CurrentWorkItems := cur,
             BeaconStatus := (if int (length cur) < MaxConcurrent bcn then Online
                              else BeaconStatus bcn)\<rparr>)"

definition removeWorkItemFromBeacon :: "hub_env \<Rightarrow> string option \<Rightarrow> string \<Rightarrow> coord \<Rightarrow> coord" where
  "removeWorkItemFromBeacon env bo h s =
     (case bo of None \<Rightarrow> s
      | Some b \<Rightarrow> (case oget (Beacons s) b of None \<Rightarrow> s
         | Some bcn \<Rightarrow> dispatchPendingWorkItems env (set_beacon b (free_slot h bcn) s)))"

subsection \<open>Waiting callers\<close>

text \<open>The result of a handler that reports through a callback.\<close>

datatype callback = CbOk | CbError string | CbDeferred

record work_result =
  Outputs :: "json obj"
  Log :: "json list"

definition result_json :: "string \<Rightarrow> work_result \<Rightarrow> json obj" where
  "result_json h r = [(''Success'', JBool True), (''WorkItemHash'', JStr h),
     (''Outputs'', JObj (Outputs r)), (''Log'', JArr (Log r))]"

text \<open>
  \<open>Buffer.from(data, 'base64')\<close> accepts a string or an array and throws on any other truthy
  value; the frame is represented by the value it decodes.
\<close>

definition decodable :: "json \<Rightarrow> bool" where
  "decodable v = (case v of JStr s \<Rightarrow> True | JTime t \<Rightarrow> True | JArr xs \<Rightarrow> True | _ \<Rightarrow> False)"

definition resolveStreamDispatch :: "string \<Rightarrow> string + work_result \<Rightarrow> coord \<Rightarrow> bool \<times> coord" where
  "resolveStreamDispatch h res s =
     (if oget (StreamDispatchHandlers s) h = None then (False, s)
      else (let s1 = s\<lparr>StreamDispatchHandlers := odel h (StreamDispatchHandlers s)\<rparr>
            in (True, case res of
                Inl msg \<Rightarrow> emit_when True
                  [StreamFrame h ''error'' (JObj [(''Error'', JStr (str_or msg ''Unknown error''))]),
                   StreamFrame h ''end'' JNull] s1
              | Inr r \<Rightarrow>
                  (let d = jget (Outputs r) ''OutputData'';
                       bin = truthy d \<and> decodable d;
                       r' = (if bin then r\<lparr>Outputs := odel ''OutputData'' (Outputs r)\<rparr> else r)
                   in emit_when True
                        ((if bin then [StreamFrame h ''binary'' d] else [])
                         @ [StreamFrame h ''result'' (JObj (result_json h r')),
                            StreamFrame h ''end'' JNull]) s1))))"

definition resolveDirectDispatch :: "string \<Rightarrow> string + work_result \<Rightarrow> coord \<Rightarrow> bool \<times> coord" where
  "resolveDirectDispatch h res s =
     (if oget (DirectDispatchCallbacks s) h = None then (False, s)
      else (True, emit (DirectCallback h
                    (case res of Inl msg \<Rightarrow> Inl msg | Inr r \<Rightarrow> Inr (result_json h r)))
                  (s\<lparr>DirectDispatchCallbacks := odel h (DirectDispatchCallbacks s)\<rparr>)))"

subsection \<open>Completion\<close>

definition durationMs :: "hub_env \<Rightarrow> work_item \<Rightarrow> int" where
  "durationMs env w = (case DispatchedAt w of None \<Rightarrow> 0 | Some d \<Rightarrow> max 0 (Now env - d))"

definition notFound :: "string \<Rightarrow> string" where
  "notFound h = ''BeaconCoordinator: work item ['' @ h @ ''] not found.''"

definition alreadyFinalized :: "string \<Rightarrow> status \<Rightarrow> string" where
  "alreadyFinalized h st =
     ''BeaconCoordinator: work item ['' @ h @ ''] already finalized ('' @ status_name st @ '').''"

definition engineMissing :: string where
  "engineMissing = ''BeaconCoordinator: ExecutionEngine service not found.''"

definition event_json :: "work_item \<Rightarrow> string \<Rightarrow> string \<Rightarrow> status \<Rightarrow> json obj \<Rightarrow> json obj" where
  "event_json w ev to from_st payload =
     [(''WorkItemHash'', JStr (WorkItemHash w)), (''RunID'', JStr (RunID w)),
      (''EventType'', JStr ev), (''FromStatus'', JStr (status_name from_st)),
      (''ToStatus'', JStr to), (''BeaconID'', JOptStr (AssignedBeaconID w)),
      (''Payload'', JObj payload)]"

definition completeRecord :: "hub_env \<Rightarrow> work_result \<Rightarrow> work_item \<Rightarrow> work_item" where
  "completeRecord env r w = w\<lparr>Status := Complete, CompletedAt := Some (Now env),
     LastEventAt := Some (Now env),
     ItemResult := JObj [(''Outputs'', JObj (Outputs r)),
                         (''Log'', JArr (AccumulatedLog w @ Log r))]\<rparr>"

definition completeEffects :: "hub_env \<Rightarrow> string \<Rightarrow> work_result \<Rightarrow> work_item \<Rightarrow> effect list" where
  "completeEffects env h r w =
     (if JournalOn env then [JournalAppend ''complete'' [(''WorkItemHash'', JStr h)]] else [])
   @ (if persists env w then
        [PersistUpdate h [(''Status'', JStr ''Complete''), (''CompletedAt'', JTime (Now env)),
           (''LastEventAt'', JTime (Now env)),
           (''Result'', JObj [(''Outputs'', JObj (Outputs r)), (''Log'', JArr (Log r))])],
         PersistEvent (event_json w ''completed'' ''Complete'' (Status w)
           [(''DurationMs'', JInt (durationMs env w))]),
         PersistOutcome h (num_or (AttemptNumber w) 1)
           [(''CompletedAt'', JTime (Now env)), (''Outcome'', JStr ''Complete''),
            (''DurationMs'', JInt (durationMs env w))]]
      else [])
   @ (if SchedulerOn env then
        [Broadcast ''queue.completed''
           [(''WorkItemHash'', JStr (WorkItemHash w)), (''RunID'', JStr (RunID w)),
            (''BeaconID'', JOptStr (AssignedBeaconID w)),
            (''DurationMs'', JInt (durationMs env w)), (''CompletedAt'', JTime (Now env))]]
      else [])"

text \<open>
  Who is told: a streaming caller, else a waiting HTTP caller, else (no run) nobody, else the
  engine. Only the engine's answer leaves the item in the queue.
\<close>

definition settle ::
  "hub_env \<Rightarrow> string \<Rightarrow> string + work_result \<Rightarrow> work_item \<Rightarrow> (coord \<Rightarrow> coord) \<Rightarrow> coord \<Rightarrow>
     callback \<times> coord" where
  "settle env h res w toEngine s =
     (case resolveStreamDispatch h res s of
        (True, s1) \<Rightarrow> (CbOk, delete_item h s1)
      | (False, s1) \<Rightarrow>
          (case resolveDirectDispatch h res s1 of
             (True, s2) \<Rightarrow> (CbOk, delete_item h s2)
           | (False, s2) \<Rightarrow>
               (if RunHash w = [] then (CbOk, delete_item h s2)
                else if \<not> EngineOn env then (CbError engineMissing, s2)
                else (CbDeferred, toEngine s2))))"

definition completeWorkItem ::
  "hub_env \<Rightarrow> string \<Rightarrow> work_result \<Rightarrow> coord \<Rightarrow> callback \<times> coord" where
  "completeWorkItem env h r s =
     (case oget (WorkQueue s) h of None \<Rightarrow> (CbError (notFound h), s)
      | Some w \<Rightarrow>
          (if finalized (Status w) then (CbError (alreadyFinalized h (Status w)), s)
           else (let w' = completeRecord env r w;
                     r' = r\<lparr>Log := AccumulatedLog w @ Log r\<rparr>;
                     s1 = emit_when True (completeEffects env h r w) (set_item h w' s);
                     s2 = removeWorkItemFromBeacon env (AssignedBeaconID w) h s1
                 in settle env h (Inr r') w
                      (emit (EngineResume (RunHash w) (NodeHash w)
                        (oset ''BeaconID'' (JStr (case AssignedBeaconID w of None \<Rightarrow> [] | Some b \<Rightarrow> b))
                          (Outputs r)))) s2)))"

text \<open>The engine's callback of a completed or failed item.\<close>

definition resumeFinished :: "string \<Rightarrow> string option \<Rightarrow> coord \<Rightarrow> callback \<times> coord" where
  "resumeFinished h err s =
     (case err of Some msg \<Rightarrow> (CbError msg, s) | None \<Rightarrow> (CbOk, delete_item h s))"

subsection \<open>Failure and retry\<close>

definition retriesLeft :: "work_item \<Rightarrow> bool" where
  "retriesLeft w = (case MaxAttempts w of None \<Rightarrow> False | Some m \<Rightarrow> AttemptNumber w < m - 1)"

definition retryRecord :: "hub_env \<Rightarrow> string \<Rightarrow> work_item \<Rightarrow> work_item" where
  "retryRecord env msg w = w\<lparr>AttemptNumber := AttemptNumber w + 1,
     LastError := Some (str_or msg ''Unknown error''), Status := RetryScheduled,
     RetryAfter := Some (Now env + RetryBackoffMs w * (AttemptNumber w + 1)),
     ClaimedAt := None, AssignedBeaconID := None\<rparr>"

definition retry_json :: "string \<Rightarrow> work_item \<Rightarrow> json obj" where
  "retry_json h w = [(''WorkItemHash'', JStr h), (''AttemptNumber'', JInt (AttemptNumber w)),
     (''MaxAttempts'', (case MaxAttempts w of None \<Rightarrow> JUndef | Some m \<Rightarrow> JInt m)),
     (''RetryAfterMs'', JInt (RetryBackoffMs w * AttemptNumber w)),
     (''LastError'', JOptStr (LastError w))]"

text \<open>
  The retry branch. The record's \<open>AssignedBeaconID\<close> is set to \<open>null\<close> before it is passed to
  \<open>_removeWorkItemFromBeacon\<close>, so that call gets \<open>null\<close>; the order is kept.
\<close>

definition scheduleRetry :: "hub_env \<Rightarrow> string \<Rightarrow> string \<Rightarrow> work_item \<Rightarrow> coord \<Rightarrow> coord" where
  "scheduleRetry env h msg w s =
     (let w' = retryRecord env msg w;
          s1 = removeWorkItemFromBeacon env (AssignedBeaconID w') h (set_item h w' s)
      in emit_when (JournalOn env) [JournalAppend ''retry-scheduled'' (retry_json h w')] s1)"

definition failRecord :: "hub_env \<Rightarrow> string \<Rightarrow> json list \<Rightarrow> work_item \<Rightarrow> work_item" where
  "failRecord env msg lg w = w\<lparr>Status := Errored, CompletedAt := Some (Now env),
     LastEventAt := Some (Now env), LastError := Some (str_or msg ''Unknown error''),
     ItemResult := JObj [(''Error'', JStr (str_or msg ''Unknown error'')), (''Log'', JArr lg)]\<rparr>"

definition failEffects :: "hub_env \<Rightarrow> string \<Rightarrow> work_item \<Rightarrow> work_item \<Rightarrow> effect list" where
  "failEffects env h w w' =
     (if JournalOn env then [JournalAppend ''fail'' [(''WorkItemHash'', JStr h)]] else [])
   @ (if persists env w then
        [PersistUpdate h [(''Status'', JStr ''Error''), (''CompletedAt'', JTime (Now env)),
           (''LastEventAt'', JTime (Now env)), (''LastError'', JOptStr (LastError w')),
           (''Result'', ItemResult w')],
         PersistEvent (event_json w ''failed'' ''Error'' (Status w)
           [(''Error'', JOptStr (LastError w')), (''DurationMs'', JInt (durationMs env w))]),
         PersistOutcome h (num_or (AttemptNumber w) 1)
           [(''CompletedAt'', JTime (Now env)), (''Outcome'', JStr ''Error''),
            (''ErrorMessage'', JOptStr (LastError w')),
            (''DurationMs'', JInt (durationMs env w))]]
      else [])
   @ (if SchedulerOn env then
        [Broadcast ''queue.failed''
           [(''WorkItemHash'', JStr (WorkItemHash w)), (''RunID'', JStr (RunID w)),
            (''BeaconID'', JOptStr (AssignedBeaconID w)),
            (''Attempt'', JInt (AttemptNumber w)), (''Error'', JOptStr (LastError w'))]]
      else [])"

definition failMessage :: "string \<Rightarrow> string" where
  "failMessage msg = str_or msg ''Beacon work item failed.''"

text \<open>The run's waiting task is pointed at its Error event, the error is logged, the run resumes.\<close>

definition failToEngine :: "hub_env \<Rightarrow> string \<Rightarrow> work_item \<Rightarrow> effect list" where
  "failToEngine env msg w =
     (case WaitingNodes env (RunHash w) of None \<Rightarrow> []
      | Some nodes \<Rightarrow>
          (if NodeHash w \<in> set nodes then [ManifestResumeEvent (RunHash w) (NodeHash w) ''Error'']
           else [])
          @ [ManifestTaskError (RunHash w) (NodeHash w) (failMessage msg)])
   @ [EngineResume (RunHash w) (NodeHash w)
        [(''StdOut'', JStr (failMessage msg)), (''ExitCode'', JInt (- 1)),
         (''BeaconID'', JStr (case AssignedBeaconID w of None \<Rightarrow> [] | Some b \<Rightarrow> b)),
         (''_BeaconError'', JBool True)]]"

definition failWorkItem ::
  "hub_env \<Rightarrow> string \<Rightarrow> string \<Rightarrow> json list \<Rightarrow> coord \<Rightarrow> callback \<times> coord" where
  "failWorkItem env h msg lg s =
     (case oget (WorkQueue s) h of None \<Rightarrow> (CbError (notFound h), s)
      | Some w \<Rightarrow>
          (if finalized (Status w) then (CbError (alreadyFinalized h (Status w)), s)
           else if retriesLeft w then (CbOk, scheduleRetry env h msg w s)
           else (let w' = failRecord env msg lg w;
                     s1 = emit_when True (failEffects env h w w') (set_item h w' s);
                     s2 = removeWorkItemFromBeacon env (AssignedBeaconID w) h s1
                 in settle env h (Inl (failMessage msg)) w
                      (emit_when True (failToEngine env msg w)) s2)))"

subsection \<open>Stall finalization\<close>

definition stallWorkItem :: "hub_env \<Rightarrow> string \<Rightarrow> coord \<Rightarrow> callback \<times> coord" where
  "stallWorkItem env h s =
     (case oget (WorkQueue s) h of None \<Rightarrow> (CbError (notFound h), s)
      | Some w \<Rightarrow>
          (if StallFinalized w then (CbOk, s)
           else (let s1 = emit_when (persists env w)
                       [PersistUpdate h [(''Status'', JStr ''Stalled''),
                          (''CompletedAt'', JTime (Now env)), (''LastEventAt'', JTime (Now env))]]
                       (emit_when (JournalOn env)
                          [JournalAppend ''stalled'' [(''WorkItemHash'', JStr h)]]
                          (set_item h (w\<lparr>StallFinalized := True\<rparr>) s));
                     s2 = removeWorkItemFromBeacon env (AssignedBeaconID w) h s1
                 in if RunHash w = [] then (CbOk, delete_item h s2)
                    else if \<not> EngineOn env then (CbOk, delete_item h s2)
                    else (CbDeferred, emit (EngineStall (RunHash w) (NodeHash w)
                       [(''BeaconID'', JStr (case AssignedBeaconID w of None \<Rightarrow> [] | Some b \<Rightarrow> b)),
                        (''StalledAt'', JTime (Now env))]) s2))))"

definition stallFinished :: "string \<Rightarrow> string option \<Rightarrow> coord \<Rightarrow> callback \<times> coord" where
  "stallFinished h err s =
     ((case err of None \<Rightarrow> CbOk | Some msg \<Rightarrow> CbError msg), delete_item h s)"

subsection \<open>Direct and streaming dispatch\<close>

definition without_run :: "work_info \<Rightarrow> work_info" where
  "without_run q = q\<lparr>qRunHash := [], qNodeHash := [], qOperationHash := []\<rparr>"

definition dispatchTimeoutMs :: "hub_env \<Rightarrow> work_info \<Rightarrow> int" where
  "dispatchTimeoutMs env q = num_or (qTimeoutMs q) (num_or (WorkItemTimeoutSetting env) 300000)"

definition dispatchAndWait :: "hub_env \<Rightarrow> work_info \<Rightarrow> coord \<Rightarrow> string \<times> coord" where
  "dispatchAndWait env q s =
     (let (h, s1) = enqueueWorkItem env (without_run q) s
      in (h, s1\<lparr>DirectDispatchCallbacks := oset h () (DirectDispatchCallbacks s1)\<rparr>))"

definition dispatchAndStream :: "hub_env \<Rightarrow> work_info \<Rightarrow> coord \<Rightarrow> string \<times> coord" where
  "dispatchAndStream env q s =
     (let (h, s1) = enqueueWorkItem env (without_run q) s
      in (h, s1\<lparr>StreamDispatchHandlers := oset h () (StreamDispatchHandlers s1)\<rparr>))"

definition drop_timed_out :: "hub_env \<Rightarrow> string \<Rightarrow> coord \<Rightarrow> coord" where
  "drop_timed_out env h s =
     (case oget (WorkQueue s) h of None \<Rightarrow> s
      | Some w \<Rightarrow> delete_item h (removeWorkItemFromBeacon env (AssignedBeaconID w) h s))"

text \<open>The two timers, for the timeout \<open>ms\<close> they were armed with.\<close>

definition directTimeout :: "hub_env \<Rightarrow> string \<Rightarrow> int \<Rightarrow> coord \<Rightarrow> coord" where
  "directTimeout env h ms s =
     (if oget (DirectDispatchCallbacks s) h = None then s
      else emit (DirectCallback h (Inl (''Direct dispatch timed out after '' @ show_int ms @ ''ms.'')))
             (drop_timed_out env h
                (s\<lparr>DirectDispatchCallbacks := odel h (DirectDispatchCallbacks s)\<rparr>)))"

definition streamTimeout :: "hub_env \<Rightarrow> string \<Rightarrow> int \<Rightarrow> coord \<Rightarrow> coord" where
  "streamTimeout env h ms s =
     (if oget (StreamDispatchHandlers s) h = None then s
      else emit_when True
             [StreamFrame h ''error'' (JObj [(''Error'',
                JStr (''Dispatch timed out after '' @ show_int ms @ ''ms.''))]),
              StreamFrame h ''end'' JNull]
             (drop_timed_out env h
                (s\<lparr>StreamDispatchHandlers := odel h (StreamDispatchHandlers s)\<rparr>)))"

subsection \<open>Progress\<close>

text \<open>A progress report; \<open>JUndef\<close> is an absent field, an absent log is empty.\<close>

record progress_data =
  pPercent :: json
  pMessage :: json
  pStep :: json
  pTotalSteps :: json
  pLog :: "json list"
  pBinaryData :: json

definition defined_or :: "json \<Rightarrow> json \<Rightarrow> json" where
  "defined_or v d = (if v = JUndef then d else v)"

definition next_progress :: "hub_env \<Rightarrow> progress_data \<Rightarrow> progress option \<Rightarrow> progress" where
  "next_progress env p old =
     \<lparr>Percent = defined_or (pPercent p) (case old of None \<Rightarrow> JUndef | Some q \<Rightarrow> Percent q),
      Message = (if truthy (pMessage p) then pMessage p
                 else (case old of None \<Rightarrow> JStr [] | Some q \<Rightarrow> Message q)),
      Step = defined_or (pStep p) (case old of None \<Rightarrow> JUndef | Some q \<Rightarrow> Step q),
      TotalSteps = defined_or (pTotalSteps p) (case old of None \<Rightarrow> JUndef | Some q \<Rightarrow> TotalSteps q),
      UpdatedAt = Now env\<rparr>"

definition progress_json :: "progress \<Rightarrow> json obj" where
  "progress_json p = [(''Percent'', Percent p), (''Message'', Message p), (''Step'', Step p),
     (''TotalSteps'', TotalSteps p), (''UpdatedAt'', JTime (UpdatedAt p))]"

definition progressRecord :: "hub_env \<Rightarrow> progress_data \<Rightarrow> work_item \<Rightarrow> work_item" where
  "progressRecord env p w = w\<lparr>ItemProgress := Some (next_progress env p (ItemProgress w)),
     LastEventAt := Some (Now env), StartedAt := opt_or (StartedAt w) (Some (Now env)),
     AccumulatedLog := AccumulatedLog w @ pLog p\<rparr>"

definition progressEffects :: "hub_env \<Rightarrow> string \<Rightarrow> progress_data \<Rightarrow> work_item \<Rightarrow> coord \<Rightarrow> effect list" where
  "progressEffects env h p w s =
     (let np = next_progress env p (ItemProgress w)
      in (if persists env w then
            [PersistUpdate h [(''LastEventAt'', JTime (Now env)),
               (''StartedAt'', JOptTime (opt_or (StartedAt w) (Some (Now env))))]] else [])
       @ (case WaitingNodes env (RunHash w) of None \<Rightarrow> []
          | Some nodes \<Rightarrow> if NodeHash w \<in> set nodes
                          then [ManifestProgress (RunHash w) (NodeHash w) np] else [])
       @ (if oget (StreamDispatchHandlers s) h = None then []
          else StreamFrame h ''progress'' (JObj (progress_json np))
               # (if truthy (pBinaryData p) \<and> decodable (pBinaryData p)
                  then [StreamFrame h ''data'' (pBinaryData p)] else [])))"

definition updateProgress :: "hub_env \<Rightarrow> string \<Rightarrow> progress_data \<Rightarrow> coord \<Rightarrow> bool \<times> coord" where
  "updateProgress env h p s =
     (case oget (WorkQueue s) h of None \<Rightarrow> (False, s)
      | Some w \<Rightarrow>
          (if Status w \<noteq> Running \<and> Status w \<noteq> Assigned then (False, s)
           else (True, emit_when True (progressEffects env h p w s)
                         (set_item h (progressRecord env p w) s))))"

subsection \<open>Affinity bindings\<close>

definition clearAffinityBinding :: "hub_env \<Rightarrow> string \<Rightarrow> coord \<Rightarrow> bool \<times> coord" where
  "clearAffinityBinding env k s =
     (if oget (AffinityBindings s) k = None then (False, s)
      else (True, emit_when (JournalOn env)
                    [JournalAppend ''affinity-clear'' [(''AffinityKey'', JStr k)]]
                    (s\<lparr>AffinityBindings := odel k (AffinityBindings s)\<rparr>)))"

subsection \<open>The periodic timeout check\<close>

text \<open>
  A handler that may throw: reading a field of a missing queue entry is a \<open>TypeError\<close>, and the
  writes made before it stay.
\<close>

datatype outcome = Done coord | TypeErr coord

fun state_of :: "outcome \<Rightarrow> coord" where
  "state_of (Done s) = s"
| "state_of (TypeErr s) = s"

fun and_then :: "outcome \<Rightarrow> (coord \<Rightarrow> outcome) \<Rightarrow> outcome" where
  "and_then (Done s) f = f s"
| "and_then (TypeErr s) f = TypeErr s"

definition timed_out :: "hub_env \<Rightarrow> work_item \<Rightarrow> bool" where
  "timed_out env w \<longleftrightarrow> (Status w = Running \<or> Status w = Assigned) \<and>
     TimeoutMs w < Now env - (case ClaimedAt w of None \<Rightarrow> Now env | Some t \<Rightarrow> t)"

definition timeoutMessage :: "hub_env \<Rightarrow> work_item \<Rightarrow> string" where
  "timeoutMessage env w = ''Work item timed out after '' @
     show_int (Now env - (case ClaimedAt w of None \<Rightarrow> Now env | Some t \<Rightarrow> t)) @ ''ms.''"

fun timeoutLoop :: "hub_env \<Rightarrow> string list \<Rightarrow> coord \<Rightarrow> outcome" where
  "timeoutLoop env [] s = Done s"
| "timeoutLoop env (h # hs) s =
     (case oget (WorkQueue s) h of None \<Rightarrow> TypeErr s
      | Some w \<Rightarrow> timeoutLoop env hs
          (if timed_out env w
           then snd (failWorkItem env (WorkItemHash w) (timeoutMessage env w) [JStr ''Timeout''] s)
           else s))"

definition retry_due :: "hub_env \<Rightarrow> work_item \<Rightarrow> bool" where
  "retry_due env w \<longleftrightarrow> Status w = RetryScheduled \<and>
     (case RetryAfter w of None \<Rightarrow> False | Some t \<Rightarrow> t \<noteq> 0 \<and> t \<le> Now env)"

fun retryLoop :: "hub_env \<Rightarrow> string list \<Rightarrow> coord \<Rightarrow> outcome" where
  "retryLoop env [] s = Done s"
| "retryLoop env (h # hs) s =
     (case oget (WorkQueue s) h of None \<Rightarrow> TypeErr s
      | Some w \<Rightarrow> retryLoop env hs
          (if retry_due env w
           then snd (tryPushToWebSocketBeacon env h
                       (set_item h (w\<lparr>Status := Pending, RetryAfter := None\<rparr>) s))
           else s))"

definition heartbeatTimeout :: "hub_env \<Rightarrow> int" where
  "heartbeatTimeout env = num_or (HeartbeatTimeoutSetting env) 60000"

definition missed_heartbeat :: "hub_env \<Rightarrow> beacon \<Rightarrow> bool" where
  "missed_heartbeat env bcn \<longleftrightarrow> heartbeatTimeout env < Now env - LastHeartbeat bcn"

definition markOfflineBeacons :: "hub_env \<Rightarrow> coord \<Rightarrow> coord" where
  "markOfflineBeacons env s = s\<lparr>Beacons :=
     map (\<lambda>(k, bcn). (k, if missed_heartbeat env bcn then bcn\<lparr>BeaconStatus := Offline\<rparr> else bcn))
       (Beacons s)\<rparr>"

definition expired_binding :: "hub_env \<Rightarrow> binding \<Rightarrow> bool" where
  "expired_binding env bd \<longleftrightarrow> ExpiresAt bd < Now env"

definition dropExpiredBindings :: "hub_env \<Rightarrow> coord \<Rightarrow> coord" where
  "dropExpiredBindings env s = emit_when (JournalOn env)
     (map (\<lambda>(k, bd). JournalAppend ''affinity-clear'' [(''AffinityKey'', JStr k)])
        (filter (\<lambda>(k, bd). expired_binding env bd) (AffinityBindings s)))
     (s\<lparr>AffinityBindings := filter (\<lambda>(k, bd). \<not> expired_binding env bd) (AffinityBindings s)\<rparr>)"

definition checkTimeouts :: "hub_env \<Rightarrow> coord \<Rightarrow> outcome" where
  "checkTimeouts env s =
     (let hs = okeys (WorkQueue s)
      in and_then (timeoutLoop env hs s) (\<lambda>s1.
         and_then (retryLoop env hs s1) (\<lambda>s2.
         Done (dropExpiredBindings env (markOfflineBeacons env s2)))))"

end
