(* ===== verification/Scheduler.thy ===== *)
theory Scheduler
  imports WorkOutcome
begin

section \<open>The beacon scheduler: dispatch, health, stall detection, cancel, reorder\<close>

text \<open>
  \<open>Ultravisor-Beacon-Scheduler.cjs\<close>. The scheduler works on the coordinator's queue and beacons, so
  its handlers are functions of the coordinator's state; the broadcast hook is its own and is on
  when \<open>SchedulerOn\<close>. Scores are exact rationals, and \<open>toFixed(4)\<close> rounds to the nearest
  ten-thousandth.
\<close>

text \<open>The scheduler's own \<open>_isMetaCapability\<close> lists two capabilities only.\<close>

definition schedulerMeta :: "string \<Rightarrow> bool" where
  "schedulerMeta c \<longleftrightarrow> c = ''QueuePersistence'' \<or> c = ''ManifestStore''"

definition sched_persists :: "hub_env \<Rightarrow> work_item \<Rightarrow> bool" where
  "sched_persists env w \<longleftrightarrow> BridgeOn env \<and> \<not> schedulerMeta (Capability w)"

definition broadcast :: "hub_env \<Rightarrow> string \<Rightarrow> json obj \<Rightarrow> coord \<Rightarrow> coord" where
  "broadcast env topic payload s = emit_when (SchedulerOn env) [Broadcast topic payload] s"

lemma broadcast_frame [simp]:
  "Beacons (broadcast env t p s) = Beacons s" "WorkQueue (broadcast env t p s) = WorkQueue s"
  "AffinityBindings (broadcast env t p s) = AffinityBindings s"
  by (simp_all add: broadcast_def)

subsection \<open>Order and choice\<close>

definition dispatch_stamp :: "work_item \<Rightarrow> jstime option" where
  "dispatch_stamp w = opt_or (EnqueuedAt w) (CreatedAt w)"

text \<open>
  \<open>_compareDispatchPriority\<close>: Assigned first, then the higher priority, then the older stamp. The
  empty string of an item with no stamp sorts before every timestamp.
\<close>

definition compare_stamp :: "jstime option \<Rightarrow> jstime option \<Rightarrow> int" where
  "compare_stamp a b = (case (a, b) of
       (None, None) \<Rightarrow> 0 | (None, Some _) \<Rightarrow> - 1 | (Some _, None) \<Rightarrow> 1
     | (Some x, Some y) \<Rightarrow> (if x < y then - 1 else if y < x then 1 else 0))"

definition assigned_rank :: "work_item \<Rightarrow> int" where
  "assigned_rank w = (if Status w = Assigned then 1 else 0)"

definition compareDispatchPriority :: "work_item \<Rightarrow> work_item \<Rightarrow> int" where
  "compareDispatchPriority a b =
     (if assigned_rank a \<noteq> assigned_rank b then assigned_rank b - assigned_rank a
      else if Priority a \<noteq> Priority b then Priority b - Priority a
      else compare_stamp (dispatch_stamp a) (dispatch_stamp b))"

text \<open>
  \<open>_beaconCanTake\<close>: online or active, the capability by name or by object, and a free slot.
\<close>

definition beaconCanTake :: "beacon \<Rightarrow> work_item \<Rightarrow> bool" where
  "beaconCanTake bcn w \<longleftrightarrow>
     (BeaconStatus bcn = Online \<or> BeaconStatus bcn = Active) \<and>
     (let c = str_or (Capability w) ''Shell''
      in CapName c \<in> set (Capabilities bcn) \<or> CapObj c \<in> set (Capabilities bcn)) \<and>
     int (length (CurrentWorkItems bcn)) < num_or (MaxConcurrent bcn) 1"

text \<open>The loop over the beacons, with the best one so far and its load.\<close>

fun leastLoaded :: "work_item \<Rightarrow> (string \<times> beacon) list \<Rightarrow> (string \<times> beacon) option \<Rightarrow>
    (string \<times> beacon) option" where
  "leastLoaded w [] best = best"
| "leastLoaded w ((k, bcn) # bs) best =
     leastLoaded w bs
       (if beaconCanTake bcn w \<and>
           (case best of None \<Rightarrow> True
            | Some (k', b') \<Rightarrow> length (CurrentWorkItems bcn) < length (CurrentWorkItems b'))
        then Some (k, bcn) else best)"

definition pickBeacon :: "work_item \<Rightarrow> coord \<Rightarrow> (string \<times> beacon) option" where
  "pickBeacon w s =
     (case AssignedBeaconID w of
        Some b \<Rightarrow> (case oget (Beacons s) b of None \<Rightarrow> None
           | Some bcn \<Rightarrow> if beaconCanTake bcn w then Some (b, bcn) else None)
      | None \<Rightarrow>
          (case (if AffinityKey w = [] then None else findBeaconByName (AffinityKey w) s) of
             Some (k, bcn) \<Rightarrow> if beaconCanTake bcn w then Some (k, bcn) else None
           | None \<Rightarrow> leastLoaded w (Beacons s) None))"

subsection \<open>Dispatch\<close>

definition dispatchWait :: "hub_env \<Rightarrow> work_item \<Rightarrow> int" where
  "dispatchWait env w = max 0 (Now env - (case EnqueuedAt w of None \<Rightarrow> Now env | Some e \<Rightarrow> e))"

definition dispatchMetadata :: "hub_env \<Rightarrow> work_item \<Rightarrow> json" where
  "dispatchMetadata env w = JObj
     [(''RunID'', JStr (RunID w)), (''WorkItemHash'', JStr (WorkItemHash w)),
      (''EnqueuedAt'', JOptTime (opt_or (EnqueuedAt w) (Some (Now env)))),
      (''DispatchedAt'', JTime (Now env)), (''QueueWaitMs'', JInt (QueueWaitMs w)),
      (''AttemptNumber'', JInt (AttemptNumber w)), (''HubInstanceID'', JStr (HubInstanceID env))]"

definition dispatchRecord :: "hub_env \<Rightarrow> beacon \<Rightarrow> work_item \<Rightarrow> work_item" where
  "dispatchRecord env bcn w =
     (let w1 = w\<lparr>Status := Dispatched, AssignedBeaconID := Some (BeaconID bcn),
                 AssignedAt := opt_or (AssignedAt w) (Some (Now env)),
                 DispatchedAt := Some (Now env), LastEventAt := Some (Now env),
                 QueueWaitMs := dispatchWait env w, AttemptNumber := AttemptNumber w + 1\<rparr>
      in w1\<lparr>Settings := oset ''QueueMetadata'' (dispatchMetadata env w1) (Settings w1)\<rparr>)"

definition dispatchEffects :: "hub_env \<Rightarrow> status \<Rightarrow> work_item \<Rightarrow> effect list" where
  "dispatchEffects env from_st w =
     [PersistUpdate (WorkItemHash w)
        [(''Status'', JStr ''Dispatched''), (''AssignedBeaconID'', JOptStr (AssignedBeaconID w)),
         (''AssignedAt'', JOptTime (AssignedAt w)), (''DispatchedAt'', JOptTime (DispatchedAt w)),
         (''QueueWaitMs'', JInt (QueueWaitMs w)), (''AttemptNumber'', JInt (AttemptNumber w)),
         (''LastEventAt'', JOptTime (LastEventAt w)), (''Settings'', JObj (Settings w))],
      PersistEvent (event_json w ''dispatched'' ''Dispatched'' from_st
        [(''QueueWaitMs'', JInt (QueueWaitMs w))]),
      PersistAttempt
        [(''WorkItemHash'', JStr (WorkItemHash w)), (''AttemptNumber'', JInt (AttemptNumber w)),
         (''BeaconID'', JOptStr (AssignedBeaconID w)),
         (''DispatchedAt'', JOptTime (DispatchedAt w)), (''Outcome'', JStr ''Dispatched'')]]"

text \<open>The push of a dispatched item: no handler counts as not pushed.\<close>

definition dispatchPush :: "hub_env \<Rightarrow> string \<Rightarrow> string \<Rightarrow> work_item \<Rightarrow> coord \<Rightarrow> bool \<times> coord" where
  "dispatchPush env b h w s =
     (case PushHandler env of None \<Rightarrow> (False, s)
      | Some ph \<Rightarrow> (case push_to env ph b h w s of (ok, w', s') \<Rightarrow> (ok, s')))"

definition dispatchItemToBeacon :: "hub_env \<Rightarrow> string \<Rightarrow> work_item \<Rightarrow> string \<Rightarrow> beacon \<Rightarrow> coord \<Rightarrow> coord" where
  "dispatchItemToBeacon env h w0 k bcn s =
     (let w = dispatchRecord env bcn w0;
          s1 = set_beacon k (bcn\<lparr>CurrentWorkItems := push_new (WorkItemHash w) (CurrentWorkItems bcn)\<rparr>)
                 (set_item h w s);
          s2 = emit_when (sched_persists env w) (dispatchEffects env (Status w0) w) s1;
          (pushed, s3) = dispatchPush env (BeaconID bcn) h w s2
      in broadcast env ''queue.dispatched''
           [(''WorkItemHash'', JStr (WorkItemHash w)), (''RunID'', JStr (RunID w)),
            (''BeaconID'', JStr (BeaconID bcn)), (''Capability'', JStr (Capability w)),
            (''Action'', JStr (Action w)), (''QueueWaitMs'', JInt (QueueWaitMs w)),
            (''AttemptNumber'', JInt (AttemptNumber w)), (''Pushed'', JBool pushed),
            (''DispatchedAt'', JOptTime (DispatchedAt w))] s3)"

definition cancelRecord :: "hub_env \<Rightarrow> string \<Rightarrow> work_item \<Rightarrow> work_item" where
  "cancelRecord env reason w = w\<lparr>Status := Canceled,
     CanceledAt := opt_or (CanceledAt w) (Some (Now env)),
     CancelReason := str_or (CancelReason w) reason, LastEventAt := Some (Now env)\<rparr>"

definition markCanceled :: "hub_env \<Rightarrow> string \<Rightarrow> string \<Rightarrow> work_item \<Rightarrow> coord \<Rightarrow> coord" where
  "markCanceled env h reason w0 s =
     (let w = cancelRecord env reason w0;
          s1 = emit_when (sched_persists env w)
            [PersistUpdate (WorkItemHash w)
               [(''Status'', JStr ''Canceled''), (''CanceledAt'', JOptTime (CanceledAt w)),
                (''CancelReason'', JStr (CancelReason w)), (''LastEventAt'', JTime (Now env))],
             PersistEvent [(''WorkItemHash'', JStr (WorkItemHash w)), (''RunID'', JStr (RunID w)),
               (''EventType'', JStr ''canceled''), (''FromStatus'', JStr (status_name (Status w0))),
               (''ToStatus'', JStr ''Canceled''),
               (''Payload'', JObj [(''Reason'', JStr (CancelReason w))])]]
            (set_item h w s)
      in broadcast env ''queue.canceled''
           [(''WorkItemHash'', JStr (WorkItemHash w)), (''RunID'', JStr (RunID w)),
            (''Reason'', JStr (CancelReason w))] s1)"

text \<open>
  One pass of \<open>_dispatchTick\<close> over the sorted items. The item is the record in the queue: the
  loop mutates only its own item, the beacons and the trace.
\<close>

fun dispatchAll :: "hub_env \<Rightarrow> (string \<times> work_item) list \<Rightarrow> coord \<Rightarrow> coord" where
  "dispatchAll env [] s = s"
| "dispatchAll env ((h, w) # ws) s = dispatchAll env ws
     (if CancelRequested w then markCanceled env h ''Canceled before dispatch'' w s
      else (case pickBeacon w s of None \<Rightarrow> s
            | Some (k, bcn) \<Rightarrow> dispatchItemToBeacon env h w k bcn s))"

definition dispatchable :: "coord \<Rightarrow> (string \<times> work_item) list" where
  "dispatchable s = sort_by (\<lambda>a b. compareDispatchPriority (snd a) (snd b))
     (filter (\<lambda>(h, w). Status w = Queued \<or> Status w = Pending) (WorkQueue s))"

definition dispatchTick :: "hub_env \<Rightarrow> coord \<Rightarrow> coord" where
  "dispatchTick env s = dispatchAll env (dispatchable s) s"

subsection \<open>Health\<close>

text \<open>
  A health reading: the score, its label and reason. \<open>min_dim\<close> keeps the weaker of the score so
  far and a new dimension.
\<close>

record health =
  Score :: "rat option"
  Label :: health_label
  Reason :: string

definition frac :: "int \<Rightarrow> int \<Rightarrow> rat" where
  "frac a b = of_int a / of_int b"

definition remaining :: "int \<Rightarrow> int \<Rightarrow> rat" where
  "remaining used limit = max 0 (1 - frac used limit)"

definition remaining1 :: "int \<Rightarrow> int \<Rightarrow> rat" where
  "remaining1 used limit = max 0 (min 1 (1 - frac used limit))"

definition min_dim :: "rat \<Rightarrow> string \<Rightarrow> rat \<times> string \<Rightarrow> rat \<times> string" where
  "min_dim x reason acc = (if x < fst acc then (x, reason) else acc)"

definition schedulerDefaults :: "hub_env \<Rightarrow> work_item \<Rightarrow> action_default" where
  "schedulerDefaults env w = (case ActionDefaults env of
       Some f \<Rightarrow> f (Capability w) (Action w)
     | None \<Rightarrow> \<lparr>dTimeoutMs = 0, dMaxAttempts = 0, dRetryBackoffMs = 0, dDefaultPriority = 0,
                 dExpectedWaitP95Ms = 0, dHeartbeatExpectedMs = 60000,
                 dMinSamplesForBaseline = 20\<rparr>)"

text \<open>The retry dimension; a non-positive limit (a negative request setting) skips it.\<close>

definition retryDim :: "work_item \<Rightarrow> rat \<times> string" where
  "retryDim w =
     (let m = num_or (case MaxAttempts w of None \<Rightarrow> 0 | Some n \<Rightarrow> n) 1
      in if 0 < m then min_dim (remaining (AttemptNumber w) m) ''retry_burn'' (1, [])
         else (1, []))"

definition thresholdLabel :: "rat \<Rightarrow> health_label" where
  "thresholdLabel x = (if 6 / 10 \<le> x then Healthy else if 3 / 10 \<le> x then Uncertain else Unhealthy)"

definition toFixed4 :: "rat \<Rightarrow> rat" where
  "toFixed4 x = of_int \<lfloor>x * 10000 + 1 / 2\<rfloor> / 10000"

definition scored :: "rat \<times> string \<Rightarrow> health" where
  "scored acc = \<lparr>Score = Some (toFixed4 (fst acc)), Label = thresholdLabel (fst acc),
     Reason = str_or (snd acc) ''nominal''\<rparr>"

definition unknown_health :: health where
  "unknown_health = \<lparr>Score = None, Label = UnknownHealth, Reason = ''insufficient_signal''\<rparr>"

definition waitHealth :: "hub_env \<Rightarrow> work_item \<Rightarrow> health" where
  "waitHealth env w =
     (let p95 = dExpectedWaitP95Ms (schedulerDefaults env w) in
      if 0 < p95
      then scored (min_dim (remaining1 (dispatchWait env w) (p95 * 3)) ''queue_wait'' (retryDim w))
      else if AttemptNumber w \<le> 1 then unknown_health
      else scored (retryDim w))"

definition runStart :: "hub_env \<Rightarrow> work_item \<Rightarrow> jstime" where
  "runStart env w = (case opt_or (StartedAt w) (DispatchedAt w) of None \<Rightarrow> Now env | Some t \<Rightarrow> t)"

definition heartbeatExpected :: "hub_env \<Rightarrow> work_item \<Rightarrow> int" where
  "heartbeatExpected env w = num_or (dHeartbeatExpectedMs (schedulerDefaults env w)) 60000"

definition runHealth :: "hub_env \<Rightarrow> work_item \<Rightarrow> health" where
  "runHealth env w =
     (let started = runStart env w; elapsed = max 0 (Now env - started) in
      if elapsed < 2000 \<and> LastEventAt w = None then unknown_health
      else (let since = max 0 (Now env - (case LastEventAt w of None \<Rightarrow> started | Some t \<Rightarrow> t))
            in scored (min_dim (remaining1 since (heartbeatExpected env w * 2)) ''event_freshness''
                 (min_dim (remaining elapsed (num_or (TimeoutMs w) 300000)) ''timeout_proximity''
                    (retryDim w)))))"

definition computeHealth :: "hub_env \<Rightarrow> work_item \<Rightarrow> health" where
  "computeHealth env w =
     (if upcoming (Status w) then waitHealth env w
      else if Status w = Dispatched \<or> Status w = Running then runHealth env w
      else scored (retryDim w))"

definition JScore :: "rat option \<Rightarrow> json" where
  "JScore x = (case x of None \<Rightarrow> JNull | Some q \<Rightarrow> JNum q)"

definition health_changed :: "work_item \<Rightarrow> health \<Rightarrow> bool" where
  "health_changed w hl \<longleftrightarrow> HealthLabel w \<noteq> Label hl \<or>
     1 / 10 \<le> (case (Health w, Score hl) of (Some a, Some b) \<Rightarrow> \<bar>a - b\<bar> | _ \<Rightarrow> 1)"

definition updateHealth :: "hub_env \<Rightarrow> string \<Rightarrow> work_item \<Rightarrow> coord \<Rightarrow> work_item \<times> coord" where
  "updateHealth env h w0 s =
     (let hl = computeHealth env w0;
          w = w0\<lparr>Health := Score hl, HealthLabel := Label hl, HealthReason := Reason hl,
                 HealthComputedAt := Some (Now env)\<rparr>;
          s1 = emit_when (sched_persists env w)
            [PersistUpdate (WorkItemHash w)
               [(''Health'', JScore (Score hl)), (''HealthLabel'', JStr (label_name (Label hl))),
                (''HealthReason'', JStr (Reason hl)), (''HealthComputedAt'', JTime (Now env))]]
            (set_item h w s)
      in (w, if health_changed w0 hl
             then broadcast env ''queue.health''
               [(''WorkItemHash'', JStr (WorkItemHash w)), (''RunID'', JStr (RunID w)),
                (''Status'', JStr (status_name (Status w))), (''Health'', JScore (Score hl)),
                (''HealthLabel'', JStr (label_name (Label hl))),
                (''HealthReason'', JStr (Reason hl))] s1
             else s1))"

subsection \<open>Stall detection\<close>

definition stallThreshold :: "hub_env \<Rightarrow> work_item \<Rightarrow> int" where
  "stallThreshold env w = heartbeatExpected env w * 2"

definition lastEvent :: "work_item \<Rightarrow> jstime option" where
  "lastEvent w = opt_or (LastEventAt w) (DispatchedAt w)"

text \<open>The gates of \<open>_maybeMarkStalled\<close>, in the code's order; the result is the silence in ms.\<close>

definition stallSilence :: "hub_env \<Rightarrow> work_item \<Rightarrow> int option" where
  "stallSilence env w =
     (if Status w \<notin> {Dispatched, Running, Pending, Assigned} then None
      else if (Status w = Pending \<or> Status w = Assigned) \<and> DispatchedAt w = None then None
      else (case lastEvent w of None \<Rightarrow> None
        | Some t \<Rightarrow> if Now env - t \<le> stallThreshold env w then None else Some (Now env - t)))"

definition stallRecord :: "hub_env \<Rightarrow> int \<Rightarrow> work_item \<Rightarrow> work_item" where
  "stallRecord env since w = w\<lparr>PriorStatusBeforeStall := Some (Status w), Status := Stalled,
     StalledAt := Some (Now env), StalledSinceMs := Some since\<rparr>"

definition maybeMarkStalled :: "hub_env \<Rightarrow> string \<Rightarrow> work_item \<Rightarrow> coord \<Rightarrow> coord" where
  "maybeMarkStalled env h w0 s =
     (case stallSilence env w0 of None \<Rightarrow> s
      | Some since \<Rightarrow>
          (let w = stallRecord env since w0;
               s1 = emit_when (sched_persists env w)
                 [PersistUpdate (WorkItemHash w) [(''Status'', JStr ''Stalled''),
                    (''StalledAt'', JOptTime (StalledAt w))],
                  PersistEvent (event_json w ''stalled'' ''Stalled'' (Status w0)
                    [(''LastEventAt'', JOptTime (LastEventAt w)),
                     (''StalledSinceMs'', JInt since)])]
                 (set_item h w s);
               s2 = broadcast env ''queue.stalled''
                 [(''WorkItemHash'', JStr (WorkItemHash w)), (''RunID'', JStr (RunID w)),
                  (''Capability'', JStr (Capability w)), (''Action'', JStr (Action w)),
                  (''BeaconID'', JOptStr (AssignedBeaconID w)),
                  (''LastEventAt'', JOptTime (LastEventAt w)),
                  (''StalledSince'', JOptTime (StalledAt w)),
                  (''StalledSinceMs'', JInt since)] s1
           in snd (stallWorkItem env (WorkItemHash w) s2)))"

definition recoverRecord :: "work_item \<Rightarrow> work_item" where
  "recoverRecord w = w\<lparr>
     Status := (case PriorStatusBeforeStall w of None \<Rightarrow> Running | Some st \<Rightarrow> st),
     PriorStatusBeforeStall := None, StalledAt := None, StalledSinceMs := None\<rparr>"

definition maybeRecoverStalled :: "hub_env \<Rightarrow> string \<Rightarrow> work_item \<Rightarrow> coord \<Rightarrow> coord" where
  "maybeRecoverStalled env h w0 s =
     (case lastEvent w0 of None \<Rightarrow> s
      | Some t \<Rightarrow>
          (if stallThreshold env w0 < Now env - t then s
           else (let w = recoverRecord w0;
                     s1 = emit_when (sched_persists env w)
                       [PersistUpdate (WorkItemHash w)
                          [(''Status'', JStr (status_name (Status w)))],
                        PersistEvent [(''WorkItemHash'', JStr (WorkItemHash w)),
                          (''RunID'', JStr (RunID w)), (''EventType'', JStr ''unstalled''),
                          (''FromStatus'', JStr ''Stalled''),
                          (''ToStatus'', JStr (status_name (Status w))),
                          (''BeaconID'', JOptStr (AssignedBeaconID w))]]
                       (set_item h w s)
                 in broadcast env ''queue.unstalled''
                      [(''WorkItemHash'', JStr (WorkItemHash w)), (''RunID'', JStr (RunID w)),
                       (''BeaconID'', JOptStr (AssignedBeaconID w)),
                       (''Status'', JStr (status_name (Status w))),
                       (''RecoveredAt'', JTime (Now env))] s1)))"

text \<open>
  \<open>_healthTick\<close> over the keys of the queue. A key removed by an earlier stall of the same tick
  would be read as \<open>undefined\<close>; a stall removes only its own key, so the model's \<open>None\<close> case is
  never reached from well-formed states.
\<close>

definition healthStep :: "hub_env \<Rightarrow> string \<Rightarrow> work_item \<Rightarrow> coord \<Rightarrow> coord" where
  "healthStep env h w s =
     (if terminal_status (Status w) then s
      else if Status w = Stalled then maybeRecoverStalled env h w s
      else (case updateHealth env h w s of (w', s') \<Rightarrow> maybeMarkStalled env h w' s'))"

fun healthLoop :: "hub_env \<Rightarrow> string list \<Rightarrow> coord \<Rightarrow> outcome" where
  "healthLoop env [] s = Done s"
| "healthLoop env (h # hs) s =
     (case oget (WorkQueue s) h of None \<Rightarrow> TypeErr s
      | Some w \<Rightarrow> healthLoop env hs (healthStep env h w s))"

definition healthTick :: "hub_env \<Rightarrow> coord \<Rightarrow> outcome" where
  "healthTick env s = healthLoop env (okeys (WorkQueue s)) s"

subsection \<open>Buckets and the summary\<close>

datatype bucket = Upcoming | InProgress | StalledBucket | CompletedBucket | ErroredBucket

definition bucketFor :: "work_item \<Rightarrow> bucket" where
  "bucketFor w =
     (if upcoming (Status w) then Upcoming
      else if Status w = Completed \<or> Status w = Complete then CompletedBucket
      else if Status w \<in> {Failed, Errored, TimedOut, Canceled} then ErroredBucket
      else if Status w = Stalled then StalledBucket
      else if Status w = Dispatched \<or> Status w = Running
           then (if HealthLabel w = Unhealthy then StalledBucket else InProgress)
      else Upcoming)"

record capability_row =
  rowCapability :: string
  rowAction :: string
  rowQueued :: nat
  rowRunning :: nat
  rowStalled :: nat

definition row_key :: "work_item \<Rightarrow> string" where
  "row_key w = str_or (Capability w) ''Shell'' @ ''|'' @ Action w"

definition bump_row :: "work_item \<Rightarrow> capability_row obj \<Rightarrow> capability_row obj" where
  "bump_row w rows =
     (let r = (case oget rows (row_key w) of Some r \<Rightarrow> r
               | None \<Rightarrow> \<lparr>rowCapability = str_or (Capability w) ''Shell'', rowAction = Action w,
                          rowQueued = 0, rowRunning = 0, rowStalled = 0\<rparr>)
      in oset (row_key w)
           (case bucketFor w of Upcoming \<Rightarrow> r\<lparr>rowQueued := Suc (rowQueued r)\<rparr>
            | InProgress \<Rightarrow> r\<lparr>rowRunning := Suc (rowRunning r)\<rparr>
            | StalledBucket \<Rightarrow> r\<lparr>rowStalled := Suc (rowStalled r)\<rparr>
            | _ \<Rightarrow> r) rows)"

record queue_summary =
  sAt :: jstime
  sBuckets :: "bucket \<Rightarrow> nat"
  sByCapability :: "capability_row list"

definition summarize :: "hub_env \<Rightarrow> coord \<Rightarrow> queue_summary" where
  "summarize env s =
     \<lparr>sAt = Now env,
      sBuckets = fold (\<lambda>w f. f(bucketFor w := Suc (f (bucketFor w)))) (ovals (WorkQueue s)) (\<lambda>_. 0),
      sByCapability = ovals (fold bump_row (ovals (WorkQueue s)) [])\<rparr>"

definition row_json :: "capability_row \<Rightarrow> json" where
  "row_json r = JObj [(''Capability'', JStr (rowCapability r)), (''Action'', JStr (rowAction r)),
     (''Queued'', JInt (int (rowQueued r))), (''Running'', JInt (int (rowRunning r))),
     (''Stalled'', JInt (int (rowStalled r)))]"

definition summary_json :: "queue_summary \<Rightarrow> json obj" where
  "summary_json m = [(''At'', JTime (sAt m)),
     (''Buckets'', JObj [(''Upcoming'', JInt (int (sBuckets m Upcoming))),
        (''InProgress'', JInt (int (sBuckets m InProgress))),
        (''Stalled'', JInt (int (sBuckets m StalledBucket))),
        (''Completed'', JInt (int (sBuckets m CompletedBucket))),
        (''Errored'', JInt (int (sBuckets m ErroredBucket)))]),
     (''ByCapability'', JArr (map row_json (sByCapability m)))]"

definition summaryTick :: "hub_env \<Rightarrow> coord \<Rightarrow> coord" where
  "summaryTick env s = broadcast env ''queue.summary'' (summary_json (summarize env s)) s"

subsection \<open>Cancellation\<close>

datatype cancel_result =
    CancelDone
  | CancelAsked status
  | CancelNotFound
  | CancelTerminal status

definition askCancel :: "hub_env \<Rightarrow> string \<Rightarrow> string \<Rightarrow> work_item \<Rightarrow> coord \<Rightarrow> coord" where
  "askCancel env h reason w0 s =
     (let w = w0\<lparr>CancelRequested := True, CancelReason := str_or reason ''cancel requested''\<rparr>;
          s1 = emit_when (sched_persists env w)
            [PersistUpdate h [(''CancelRequested'', JBool True),
               (''CancelReason'', JStr (CancelReason w))],
             PersistEvent [(''WorkItemHash'', JStr h), (''RunID'', JStr (RunID w)),
               (''EventType'', JStr ''cancel_requested''),
               (''FromStatus'', JStr (status_name (Status w))),
               (''ToStatus'', JStr (status_name (Status w))),
               (''Payload'', JObj [(''Reason'', JStr (CancelReason w))])]]
            (set_item h w s)
      in broadcast env ''queue.cancel_requested''
           [(''WorkItemHash'', JStr h), (''RunID'', JStr (RunID w)),
            (''Reason'', JStr (CancelReason w))] s1)"

definition requestCancel :: "hub_env \<Rightarrow> string \<Rightarrow> string \<Rightarrow> coord \<Rightarrow> cancel_result \<times> coord" where
  "requestCancel env h reason s =
     (case oget (WorkQueue s) h of None \<Rightarrow> (CancelNotFound, s)
      | Some w \<Rightarrow>
          (if upcoming (Status w) then (CancelDone, markCanceled env h reason w s)
           else if Status w = Dispatched \<or> Status w = Running
                then (CancelAsked (Status w), askCancel env h reason w s)
           else (CancelTerminal (Status w), s)))"

subsection \<open>Reordering\<close>

text \<open>
  \<open>listBuckets\<close> with a bucket and a numeric limit, clamped to 1..5000 (0 counts as 500). The
  loop stops as soon as it has that many, and it always has room for one.
\<close>

definition listLimit :: "int \<Rightarrow> nat" where
  "listLimit n = nat (max 1 (min (num_or n 500) 5000))"

definition listBuckets :: "bucket option \<Rightarrow> int \<Rightarrow> coord \<Rightarrow> (bucket \<times> work_item) list" where
  "listBuckets b n s = take (listLimit n)
     (map (\<lambda>w. (bucketFor w, w))
        (filter (\<lambda>w. b = None \<or> b = Some (bucketFor w)) (ovals (WorkQueue s))))"

datatype direction = MoveUp | MoveDown | OtherDirection

datatype reorder_error =
    ReorderNotFound | ReorderNotUpcoming | ReorderNotListed | AlreadyAtTop | AlreadyAtBottom
  | InvalidDirection | NeighborMissing

definition upcomingOrder :: "coord \<Rightarrow> work_item list" where
  "upcomingOrder s = sort_by compareDispatchPriority (map snd (listBuckets (Some Upcoming) 5000 s))"

fun index_of :: "('a \<Rightarrow> bool) \<Rightarrow> 'a list \<Rightarrow> nat option" where
  "index_of P [] = None"
| "index_of P (x # xs) = (if P x then Some 0 else map_option Suc (index_of P xs))"

definition neighborIndex :: "direction \<Rightarrow> nat \<Rightarrow> nat \<Rightarrow> reorder_error + nat" where
  "neighborIndex d i n = (case d of
       MoveUp \<Rightarrow> (if i = 0 then Inl AlreadyAtTop else Inr (i - 1))
     | MoveDown \<Rightarrow> (if i = n - 1 then Inl AlreadyAtBottom else Inr (i + 1))
     | OtherDirection \<Rightarrow> Inl InvalidDirection)"

definition reorderedPriority :: "direction \<Rightarrow> work_item \<Rightarrow> int" where
  "reorderedPriority d nb = (if d = MoveUp then Priority nb + 1 else Priority nb - 1)"

definition direction_name :: "direction \<Rightarrow> string" where
  "direction_name d = (case d of MoveUp \<Rightarrow> ''up'' | MoveDown \<Rightarrow> ''down'' | OtherDirection \<Rightarrow> [])"

definition applyReorder :: "hub_env \<Rightarrow> string \<Rightarrow> direction \<Rightarrow> work_item \<Rightarrow> work_item \<Rightarrow> coord \<Rightarrow> coord" where
  "applyReorder env h d nb w0 s =
     (let p = reorderedPriority d nb; w = w0\<lparr>Priority := p\<rparr>;
          s1 = emit_when (sched_persists env w)
            [PersistUpdate h [(''Priority'', JInt p)],
             PersistEvent [(''WorkItemHash'', JStr h), (''RunID'', JStr (RunID w)),
               (''EventType'', JStr ''reordered''),
               (''FromStatus'', JStr (status_name (Status w))),
               (''ToStatus'', JStr (status_name (Status w))),
               (''Payload'', JObj [(''Direction'', JStr (direction_name d)),
                  (''OldPriority'', JInt (Priority w0)), (''NewPriority'', JInt p)])]]
            (set_item h w s);
          s2 = broadcast env ''queue.reordered''
            [(''WorkItemHash'', JStr h), (''Priority'', JInt p),
             (''Direction'', JStr (direction_name d))] s1
      in summaryTick env s2)"

text \<open>The result carries the old and the new priority.\<close>

definition reorderWorkItem ::
  "hub_env \<Rightarrow> string \<Rightarrow> direction \<Rightarrow> coord \<Rightarrow> (reorder_error + int \<times> int) \<times> coord" where
  "reorderWorkItem env h d s =
     (case oget (WorkQueue s) h of None \<Rightarrow> (Inl ReorderNotFound, s)
      | Some w \<Rightarrow>
          (if bucketFor w \<noteq> Upcoming then (Inl ReorderNotUpcoming, s)
           else (case index_of (\<lambda>v. WorkItemHash v = h) (upcomingOrder s) of
               None \<Rightarrow> (Inl ReorderNotListed, s)
             | Some i \<Rightarrow>
                 (case neighborIndex d i (length (upcomingOrder s)) of
                    Inl e \<Rightarrow> (Inl e, s)
                  | Inr j \<Rightarrow>
                      (case oget (WorkQueue s) (WorkItemHash (upcomingOrder s ! j)) of
                         None \<Rightarrow> (Inl NeighborMissing, s)
                       | Some nb \<Rightarrow> (Inr (Priority w, reorderedPriority d nb),
                                      applyReorder env h d nb w s))))))"

end
