(* ===== verification/BeaconRegistry.thy ===== *)
theory BeaconRegistry
  imports WorkQueue
begin

section \<open>Beacon registration, the action catalog and universal addresses\<close>

text \<open>
  The registry side of \<open>Ultravisor-Beacon-Coordinator.cjs\<close>: \<open>registerBeacon\<close> with its reclaim of a
  beacon of the same name, \<open>deregisterBeacon\<close>, \<open>heartbeat\<close>, the action catalog built from the
  schemas of the beacons and the task types generated from it, and the resolution of
  \<open>>Beacon/Context/Path\<close> addresses to URLs.
\<close>

subsection \<open>The action catalog\<close>

record action_schema =
  aCapability :: string
  aAction :: string
  aDescription :: string
  aSettingsSchema :: "settings_field list option"

definition catalogKey :: "action_schema \<Rightarrow> string" where
  "catalogKey a = aCapability a @ '':'' @ aAction a"

definition catalogUpsert :: "string \<Rightarrow> action_schema \<Rightarrow> catalog_entry obj \<Rightarrow> catalog_entry obj" where
  "catalogUpsert b a cat = oset (catalogKey a)
     (case oget cat (catalogKey a) of
        Some e \<Rightarrow> e\<lparr>CatDescription := str_or (aDescription a) (CatDescription e),
                    CatSettingsSchema := (case aSettingsSchema a of Some xs \<Rightarrow> xs
                      | None \<Rightarrow> CatSettingsSchema e),
                    CatSourceBeacons := push_new b (CatSourceBeacons e)\<rparr>
      | None \<Rightarrow> \<lparr>CatCapability = aCapability a, CatAction = aAction a,
                  CatDescription = aDescription a,
                  CatSettingsSchema = (case aSettingsSchema a of Some xs \<Rightarrow> xs | None \<Rightarrow> []),
                  CatSourceBeacons = [b]\<rparr>) cat"

definition updateActionCatalog :: "hub_env \<Rightarrow> string \<Rightarrow> action_schema list \<Rightarrow> coord \<Rightarrow> coord" where
  "updateActionCatalog env b schemas s = emit_when (HypervisorStateOn env) [CatalogPersist]
     (s\<lparr>ActionCatalog := fold (catalogUpsert b) schemas (ActionCatalog s)\<rparr>)"

text \<open>\<open>action.replace(/([a-z])([A-Z])/g, '$1 $2')\<close>\<close>

definition is_lower :: "char \<Rightarrow> bool" where
  "is_lower c = (let n = of_char c :: int in 97 \<le> n \<and> n \<le> 122)"

definition is_upper :: "char \<Rightarrow> bool" where
  "is_upper c = (let n = of_char c :: int in 65 \<le> n \<and> n \<le> 90)"

fun spaced_name :: "string \<Rightarrow> string" where
  "spaced_name (a # b # cs) =
     (if is_lower a \<and> is_upper b then a # CHR '' '' # spaced_name (b # cs)
      else a # spaced_name (b # cs))"
| "spaced_name cs = cs"

definition standardInputs :: "settings_input list" where
  "standardInputs =
     [\<lparr>FieldName = ''AffinityKey'', FieldDataType = ''String'', FieldRequired = False,
       FieldDescription = ''Sticky routing key for beacon affinity.''\<rparr>,
      \<lparr>FieldName = ''RequireAffinityMatch'', FieldDataType = ''Boolean'', FieldRequired = False,
       FieldDescription = ''Strict routing: AffinityKey must match a registered beacon Name; the item waits for that beacon instead of falling back to any capable one.''\<rparr>,
      \<lparr>FieldName = ''TimeoutMs'', FieldDataType = ''Number'', FieldRequired = False,
       FieldDescription = ''Work item timeout in milliseconds.''\<rparr>]"

definition taskTypeHash :: "catalog_entry \<Rightarrow> string" where
  "taskTypeHash e = ''beacon-'' @ slug (CatCapability e) @ ''-'' @ slug (CatAction e)"

definition catalogTaskConfig :: "catalog_entry \<Rightarrow> task_config" where
  "catalogTaskConfig e =
     \<lparr>tcHash = taskTypeHash e, tcName = spaced_name (CatAction e),
      tcDescription = CatDescription e, tcCategory = ''beacon-'' @ slug (CatCapability e),
      tcCapability = CatCapability e, tcAction = CatAction e,
      tcSettingsInputs =
        map (\<lambda>f. \<lparr>FieldName = FieldName f, FieldDataType = str_or (FieldDataType f) ''String'',
                   FieldRequired = FieldRequired f, FieldDescription = FieldDescription f\<rparr>)
          (CatSettingsSchema e) @ standardInputs,
      tcDefaultSettings =
        oset ''TimeoutMs'' (JInt 300000) (oset ''RequireAffinityMatch'' (JBool False)
          (oset ''AffinityKey'' (JStr [])
            (fold (\<lambda>f. oset (FieldName f)
                 (if truthy (FieldDefault f) then FieldDefault f else JStr []))
               (CatSettingsSchema e) [])))\<rparr>"

text \<open>
  \<open>_registerCatalogTaskTypes\<close>: one task type per entry whose hash the registry does not have yet,
  counting those registered earlier in the same loop.
\<close>

fun newTaskTypes :: "(string \<Rightarrow> bool) \<Rightarrow> catalog_entry list \<Rightarrow> task_config list" where
  "newTaskTypes has [] = []"
| "newTaskTypes has (e # es) =
     (if has (taskTypeHash e) then newTaskTypes has es
      else catalogTaskConfig e # newTaskTypes (\<lambda>h. has h \<or> h = taskTypeHash e) es)"

definition registerCatalogTaskTypes :: "hub_env \<Rightarrow> coord \<Rightarrow> coord" where
  "registerCatalogTaskTypes env s = (case RegistryHas env of None \<Rightarrow> s
     | Some has \<Rightarrow> emit_when True
         (map TaskTypeRegistered (newTaskTypes has (ovals (ActionCatalog s)))) s)"

definition loadActionCatalog :: "hub_env \<Rightarrow> catalog_entry obj option \<Rightarrow> coord \<Rightarrow> coord" where
  "loadActionCatalog env stored s =
     (if \<not> HypervisorStateOn env then s
      else (case stored of None \<Rightarrow> s
        | Some cat \<Rightarrow> (let s1 = s\<lparr>ActionCatalog := cat\<rparr>
                       in if cat = [] then s1 else registerCatalogTaskTypes env s1)))"

definition registerBeaconOperations :: "hub_env \<Rightarrow> string \<Rightarrow> json obj list \<Rightarrow> coord \<Rightarrow> coord" where
  "registerBeaconOperations env b ops s = emit_when (HypervisorStateOn env)
     (map (\<lambda>ob. OperationRegistered
        (oset ''SourceType'' (JStr ''Beacon'') (oset ''SourceBeacon'' (JStr b) ob))) ops) s"

record catalog_view =
  vCapability :: string
  vAction :: string
  vDescription :: string
  vSettingsSchema :: "settings_field list"
  vAvailable :: bool
  vSourceBeacons :: "string list"

definition getActionCatalog :: "coord \<Rightarrow> catalog_view list" where
  "getActionCatalog s = map (\<lambda>e.
     \<lparr>vCapability = CatCapability e, vAction = CatAction e, vDescription = CatDescription e,
      vSettingsSchema = CatSettingsSchema e,
      vAvailable = (\<exists>bcn \<in> set (ovals (Beacons s)).
         BeaconStatus bcn = Online \<and> beaconHasCapability (CatCapability e) bcn),
      vSourceBeacons = CatSourceBeacons e\<rparr>) (ovals (ActionCatalog s))"

definition getActionCatalogForCapability :: "string \<Rightarrow> coord \<Rightarrow> catalog_view list" where
  "getActionCatalogForCapability c s = filter (\<lambda>v. vCapability v = c) (getActionCatalog s)"

subsection \<open>Registration\<close>

text \<open>What a beacon sends; an absent field is \<open>None\<close>, 0, \<open>''''\<close> or the empty list.\<close>

record beacon_info =
  bName :: string
  bCapabilities :: "capability list option"
  bMaxConcurrent :: int
  bTags :: "json obj option"
  bContexts :: "string option obj option"
  bBindAddresses :: "json list option"
  bHostID :: string
  bSharedMounts :: "json list option"
  bActionSchemas :: "action_schema list"
  bOperations :: "json obj list"

definition or_old :: "'a option \<Rightarrow> 'a \<Rightarrow> 'a" where
  "or_old x old = (case x of None \<Rightarrow> old | Some v \<Rightarrow> v)"

definition reclaimBeacon :: "hub_env \<Rightarrow> beacon_info \<Rightarrow> string option \<Rightarrow> beacon \<Rightarrow> beacon" where
  "reclaimBeacon env bi session bcn = bcn\<lparr>SessionID := session, LastHeartbeat := Now env,
     BeaconStatus := Online,
     Capabilities := or_old (bCapabilities bi) (Capabilities bcn),
     MaxConcurrent := num_or (bMaxConcurrent bi) (MaxConcurrent bcn),
     Tags := or_old (bTags bi) (Tags bcn), Contexts := or_old (bContexts bi) (Contexts bcn),
     BindAddresses := or_old (bBindAddresses bi) (BindAddresses bcn),
     HostID := (if bHostID bi = [] then HostID bcn else Some (bHostID bi)),
     SharedMounts := or_old (bSharedMounts bi) (SharedMounts bcn)\<rparr>"

definition beaconIDFor :: "string \<Rightarrow> jstime \<Rightarrow> string" where
  "beaconIDFor n now = ''bcn-'' @ slug n @ ''-'' @ show_int now"

definition newBeacon :: "hub_env \<Rightarrow> beacon_info \<Rightarrow> string option \<Rightarrow> string \<Rightarrow> beacon" where
  "newBeacon env bi session n =
     \<lparr>BeaconID = beaconIDFor n (Now env), Name = n, SessionID = session,
      Capabilities = or_old (bCapabilities bi) [], BeaconStatus = Online,
      LastHeartbeat = Now env, CurrentWorkItems = [],
      MaxConcurrent = num_or (bMaxConcurrent bi) 1,
      Tags = or_old (bTags bi) [], Contexts = or_old (bContexts bi) [],
      BindAddresses = or_old (bBindAddresses bi) [],
      HostID = (if bHostID bi = [] then None else Some (bHostID bi)),
      SharedMounts = or_old (bSharedMounts bi) [], RegisteredAt = Now env\<rparr>"

text \<open>The tail both branches share; only a fresh registration tells the fleet manager.\<close>

definition afterRegister :: "hub_env \<Rightarrow> beacon_info \<Rightarrow> string \<Rightarrow> bool \<Rightarrow> coord \<Rightarrow> coord" where
  "afterRegister env bi b fresh s =
     (let s1 = (if bActionSchemas bi = [] then s
                else registerCatalogTaskTypes env (updateActionCatalog env b (bActionSchemas bi) s));
          s2 = (if bOperations bi = [] then s1
                else registerBeaconOperations env b (bOperations bi) s1);
          s3 = emit_when (ReachabilityOn env) [ReachabilityProbe b] s2;
          s4 = emit_when (fresh \<and> FleetOn env) [FleetNotify b] s3
      in emit (BridgesNotify b) s4)"

definition registerBeacon ::
  "hub_env \<Rightarrow> beacon_info \<Rightarrow> string option \<Rightarrow> coord \<Rightarrow> string \<times> coord" where
  "registerBeacon env bi session s =
     (let n = str_or (bName bi) ''unnamed'';
          fresh = (let b = beaconIDFor n (Now env)
                   in (b, afterRegister env bi b True
                            (set_beacon b (newBeacon env bi session n) s)))
      in (case findBeaconByName n s of
            Some (k, bcn) \<Rightarrow>
              (if BeaconStatus bcn \<in> {Offline, Online, Busy}
               then (BeaconID bcn, afterRegister env bi (BeaconID bcn) False
                                     (set_beacon k (reclaimBeacon env bi session bcn) s))
               else fresh)
          | None \<Rightarrow> fresh))"

definition release_item :: "work_item \<Rightarrow> work_item" where
  "release_item w = (if Status w = Assigned \<or> Status w = Running
     then w\<lparr>Status := Pending, AssignedBeaconID := None, ClaimedAt := None\<rparr> else w)"

fun releaseItems :: "string list \<Rightarrow> coord \<Rightarrow> coord" where
  "releaseItems [] s = s"
| "releaseItems (h # hs) s = releaseItems hs
     (case oget (WorkQueue s) h of None \<Rightarrow> s | Some w \<Rightarrow> set_item h (release_item w) s)"

definition deregisterBeacon :: "string \<Rightarrow> coord \<Rightarrow> bool \<times> coord" where
  "deregisterBeacon b s =
     (case oget (Beacons s) b of None \<Rightarrow> (False, s)
      | Some bcn \<Rightarrow>
          (let s1 = releaseItems (CurrentWorkItems bcn) s
           in (True, s1\<lparr>Beacons := odel b (Beacons s1)\<rparr>)))"

definition heartbeat :: "hub_env \<Rightarrow> string \<Rightarrow> coord \<Rightarrow> beacon option \<times> coord" where
  "heartbeat env b s =
     (case oget (Beacons s) b of None \<Rightarrow> (None, s)
      | Some bcn \<Rightarrow>
          (let bcn' = bcn\<lparr>LastHeartbeat := Now env,
                 BeaconStatus := (if atCapacity bcn then Busy else Online)\<rparr>
           in (Some bcn', set_beacon b bcn' s)))"

definition findBeaconBySessionID :: "string option \<Rightarrow> coord \<Rightarrow> (string \<times> beacon) option" where
  "findBeaconBySessionID sid s = find (\<lambda>kb. SessionID (snd kb) = sid) (Beacons s)"

subsection \<open>Universal addresses\<close>

text \<open>
  \<open>encodeURIComponent\<close> on strings of code points below 256: letters, digits and
  \<open>- _ . ! ~ * ' ( )\<close> stay, every other character becomes the percent-escapes of its UTF-8
  bytes.
\<close>

definition uri_unreserved :: "char \<Rightarrow> bool" where
  "uri_unreserved c \<longleftrightarrow> is_lower c \<or> is_upper c \<or> digit_val c \<noteq> None \<or>
     of_char c \<in> {45, 95, 46, 33, 126, 42, 39, 40, 41 :: int}"

definition hex_char :: "int \<Rightarrow> char" where
  "hex_char d = char_of (if d < 10 then 48 + d else 55 + d)"

definition percent_byte :: "int \<Rightarrow> string" where
  "percent_byte n = [CHR ''%'', hex_char (n div 16), hex_char (n mod 16)]"

definition encode_char :: "char \<Rightarrow> string" where
  "encode_char c = (let n = of_char c :: int in
     if uri_unreserved c then [c]
     else if n < 128 then percent_byte n
     else percent_byte (192 + n div 64) @ percent_byte (128 + n mod 64))"

definition encodeURIComponent :: "string \<Rightarrow> string" where
  "encodeURIComponent s = concat (map encode_char s)"

record resolved_address =
  rURL :: string
  rBeaconID :: string
  rBeaconName :: string
  rContext :: string
  rPath :: string
  rFilename :: string

definition with_slash :: "string \<Rightarrow> string" where
  "with_slash s = (if s \<noteq> [] \<and> last s = CHR ''/'' then s else s @ ''/'')"

definition lookupBeacon :: "string \<Rightarrow> coord \<Rightarrow> beacon option" where
  "lookupBeacon n s = opt_or (oget (Beacons s) n) (map_option snd (findBeaconByName n s))"

definition resolveParts :: "string \<Rightarrow> string \<Rightarrow> string list \<Rightarrow> coord \<Rightarrow> resolved_address option" where
  "resolveParts bn ctx segs s =
     (case lookupBeacon bn s of None \<Rightarrow> None
      | Some bcn \<Rightarrow>
          (case oget (Contexts bcn) ctx of
             Some (Some base) \<Rightarrow>
               (if base = [] then None
                else Some \<lparr>rURL = with_slash base @
                             join_with (CHR ''/'') (map encodeURIComponent segs),
                           rBeaconID = BeaconID bcn, rBeaconName = Name bcn, rContext = ctx,
                           rPath = join_with (CHR ''/'') segs, rFilename = last segs\<rparr>)
           | _ \<Rightarrow> None))"

definition resolveUniversalAddress :: "string \<Rightarrow> coord \<Rightarrow> resolved_address option" where
  "resolveUniversalAddress addr s =
     (case addr of [] \<Rightarrow> None
      | c # rest \<Rightarrow>
          (if c \<noteq> CHR ''>'' then None
           else (case split_on (CHR ''/'') rest of
                   bn # ctx # seg # segs \<Rightarrow> resolveParts bn ctx (seg # segs) s
                 | _ \<Rightarrow> None)))"

definition scanAndResolveAddresses ::
  "json obj \<Rightarrow> coord \<Rightarrow> (string \<times> string \<times> resolved_address) list" where
  "scanAndResolveAddresses ob s = concat (map (\<lambda>(k, v). case v of
       JStr a \<Rightarrow> (case resolveUniversalAddress a s of None \<Rightarrow> [] | Some r \<Rightarrow> [(k, a, r)])
     | _ \<Rightarrow> []) ob)"

end
