(* ===== verification/SlotInvariant.thy ===== *)
theory SlotInvariant
  imports Scheduler BeaconRegistry
begin

section \<open>The slot invariant of the coordinator\<close>

text \<open>
  What the coordinator keeps true between its queue and its beacons: every Running or Assigned
  item sits on a registered beacon, is listed among that beacon's current work items, and respects
  the item's strict affinity; no beacon has more Running items than its \<open>MaxConcurrent\<close>; and a
  Stalled item has been silent for longer than the stall threshold or has no event at all. The
  set \<open>X\<close> exempts hashes that a handler is about to delete, since a timed-out dispatch frees its
  slot (and re-dispatches into it) before it deletes its item.
\<close>

definition placed :: "status \<Rightarrow> bool" where
  "placed st \<longleftrightarrow> st = Running \<or> st = Assigned"

definition stale :: "hub_env \<Rightarrow> work_item \<Rightarrow> bool" where
  "stale env w \<longleftrightarrow> (case lastEvent w of None \<Rightarrow> True
     | Some t \<Rightarrow> stallThreshold env w < Now env - t)"

definition item_ok :: "hub_env \<Rightarrow> string set \<Rightarrow> beacon obj \<Rightarrow> string \<Rightarrow> work_item \<Rightarrow> bool" where
  "item_ok env X bs h w \<longleftrightarrow> WorkItemHash w = h \<and> (Status w = Stalled \<longrightarrow> stale env w) \<and>
     (h \<notin> X \<longrightarrow> placed (Status w) \<longrightarrow>
        (\<exists>b bcn. AssignedBeaconID w = Some b \<and> oget bs b = Some bcn \<and>
           h \<in> set (CurrentWorkItems bcn) \<and> beaconSatisfiesAffinity w bcn))"

definition runs_on :: "string set \<Rightarrow> string \<Rightarrow> work_item \<Rightarrow> bool" where
  "runs_on X b w \<longleftrightarrow> WorkItemHash w \<notin> X \<and> AssignedBeaconID w = Some b \<and> Status w = Running"

definition load :: "string set \<Rightarrow> string \<Rightarrow> work_item obj \<Rightarrow> nat" where
  "load X b q = ocount (runs_on X b) q"

definition beacon_ok :: "string set \<Rightarrow> work_item obj \<Rightarrow> string \<Rightarrow> beacon \<Rightarrow> bool" where
  "beacon_ok X q b bcn \<longleftrightarrow> BeaconID bcn = b \<and> 0 < MaxConcurrent bcn \<and>
     int (load X b q) \<le> MaxConcurrent bcn"

definition slots :: "hub_env \<Rightarrow> string set \<Rightarrow> work_item obj \<Rightarrow> beacon obj \<Rightarrow> bool" where
  "slots env X q bs \<longleftrightarrow> owf q \<and> owf bs \<and>
     (\<forall>h w. oget q h = Some w \<longrightarrow> item_ok env X bs h w) \<and>
     (\<forall>b bcn. oget bs b = Some bcn \<longrightarrow> beacon_ok X q b bcn)"

definition slot_inv :: "hub_env \<Rightarrow> string set \<Rightarrow> coord \<Rightarrow> bool" where
  "slot_inv env X s \<longleftrightarrow> slots env X (WorkQueue s) (Beacons s)"

lemma slotsD:
  assumes "slots env X q bs"
  shows "owf q" "owf bs" "oget q h = Some w \<Longrightarrow> item_ok env X bs h w"
    "oget bs b = Some bcn \<Longrightarrow> beacon_ok X q b bcn"
  using assms by (auto simp: slots_def)

lemma slots_hash: "slots env X q bs \<Longrightarrow> oget q h = Some w \<Longrightarrow> WorkItemHash w = h"
  by (auto simp: slots_def item_ok_def)

lemma slots_id: "slots env X q bs \<Longrightarrow> oget bs b = Some bcn \<Longrightarrow> BeaconID bcn = b"
  by (auto simp: slots_def beacon_ok_def)

lemma load_antimono: "X \<subseteq> Y \<Longrightarrow> load Y b q \<le> load X b q"
  unfolding load_def runs_on_def by (rule ocount_mono) auto

lemma item_ok_mono: "item_ok env X bs h w \<Longrightarrow> X \<subseteq> Y \<Longrightarrow> item_ok env Y bs h w"
  by (auto simp: item_ok_def)

lemma beacon_ok_mono: "beacon_ok X q b bcn \<Longrightarrow> X \<subseteq> Y \<Longrightarrow> beacon_ok Y q b bcn"
  using load_antimono [of X Y b q] by (auto simp: beacon_ok_def)

lemma slots_weaken: "slots env X q bs \<Longrightarrow> X \<subseteq> Y \<Longrightarrow> slots env Y q bs"
  unfolding slots_def by (blast intro: item_ok_mono beacon_ok_mono)

text \<open>The running items of a beacon are among its current work items.\<close>

lemma load_le_current:
  assumes "slots env X q bs" and "oget bs b = Some bcn"
  shows "load X b q \<le> length (CurrentWorkItems bcn)"
  unfolding load_def
proof (rule ocount_le_length)
  show "owf q" using assms(1) by (rule slotsD)
next
  fix h w
  assume "oget q h = Some w" and "runs_on X b w"
  with slotsD(3) [OF assms(1)] assms(2) show "h \<in> set (CurrentWorkItems bcn)"
    by (fastforce simp: item_ok_def runs_on_def placed_def)
qed

subsection \<open>Writing one item\<close>

text \<open>
  One rule covers the writes: the new record must be well placed, and it may only start to run
  where a slot is free.
\<close>

lemma slots_write_item:
  assumes s: "slots env X q bs" and ok: "item_ok env X bs h w'"
    and room: "\<And>b bcn. runs_on X b w' \<Longrightarrow> oget bs b = Some bcn \<Longrightarrow>
      (\<exists>w. oget q h = Some w \<and> runs_on X b w) \<or> int (load X b q) < MaxConcurrent bcn"
  shows "slots env X (oset h w' q) bs"
proof -
  have owf: "owf q" using s by (rule slotsD)
  have "beacon_ok X (oset h w' q) b bcn" if b: "oget bs b = Some bcn" for b bcn
  proof -
    have old: "beacon_ok X q b bcn" using s b by (rule slotsD)
    consider "\<not> runs_on X b w'" | w where "oget q h = Some w" "runs_on X b w"
      | "int (load X b q) < MaxConcurrent bcn"
      using room b by blast
    then have "int (load X b (oset h w' q)) \<le> MaxConcurrent bcn"
    proof cases
      case 3
      then show ?thesis
        using ocount_oset_Suc [OF owf, of "runs_on X b" h w'] by (simp add: load_def)
    qed (use old ocount_oset_le [OF owf, of "runs_on X b" w' h] in
          \<open>force simp: load_def beacon_ok_def\<close>)+
    with old show ?thesis by (simp add: beacon_ok_def)
  qed
  then show ?thesis
    using s ok by (auto simp: slots_def obj_simps AList.distinct_update split: if_splits)
qed

lemma slots_write_idle:
  assumes "slots env X q bs" "WorkItemHash w' = h" "h \<in> X \<or> \<not> placed (Status w')"
    "Status w' = Stalled \<Longrightarrow> stale env w'"
  shows "slots env X (oset h w' q) bs"
  using assms by (intro slots_write_item) (auto simp: item_ok_def runs_on_def placed_def)

text \<open>
  A write that keeps the item's place: its status, beacon and affinity stay, and a Stalled item
  gets no new event.
\<close>

definition same_place :: "work_item \<Rightarrow> work_item \<Rightarrow> bool" where
  "same_place w w' \<longleftrightarrow> WorkItemHash w' = WorkItemHash w \<and> Status w' = Status w \<and>
     AssignedBeaconID w' = AssignedBeaconID w \<and> AffinityKey w' = AffinityKey w \<and>
     RequireAffinityMatch w' = RequireAffinityMatch w \<and>
     (Status w = Stalled \<longrightarrow> lastEvent w' = lastEvent w \<and> Capability w' = Capability w \<and>
        Action w' = Action w)"

lemma affinity_fields:
  "AffinityKey w' = AffinityKey w \<Longrightarrow> RequireAffinityMatch w' = RequireAffinityMatch w \<Longrightarrow>
    beaconSatisfiesAffinity w' = beaconSatisfiesAffinity w"
  by (intro ext) (simp add: beaconSatisfiesAffinity_def)

lemma slots_write_same:
  assumes s: "slots env X q bs" and h: "oget q h = Some w" and same: "same_place w w'"
  shows "slots env X (oset h w' q) bs"
proof (rule slots_write_item [OF s])
  have "beaconSatisfiesAffinity w' = beaconSatisfiesAffinity w"
    using same by (intro affinity_fields) (simp_all add: same_place_def)
  moreover have "stale env w' = stale env w" if st: "Status w = Stalled"
  proof -
    have "stallThreshold env w' = stallThreshold env w" "lastEvent w' = lastEvent w"
      using same st unfolding same_place_def stallThreshold_def heartbeatExpected_def
        schedulerDefaults_def by (simp_all split: option.split)
    then show ?thesis by (simp add: stale_def split: option.split)
  qed
  ultimately show "item_ok env X bs h w'"
    using slotsD(3) [OF s h] same by (auto simp: item_ok_def same_place_def)
next
  fix b bcn
  assume "runs_on X b w'" and "oget bs b = Some bcn"
  with h same show "(\<exists>w. oget q h = Some w \<and> runs_on X b w) \<or> int (load X b q) < MaxConcurrent bcn"
    by (auto simp: runs_on_def same_place_def)
qed

text \<open>An item that takes its place on a beacon that lists it, as Assigned or as Running.\<close>

lemma slots_write_placed:
  assumes s: "slots env X q bs" and hash: "WorkItemHash w' = h"
    and b: "AssignedBeaconID w' = Some b" "oget bs b = Some bcn"
    and "h \<in> set (CurrentWorkItems bcn)" "beaconSatisfiesAffinity w' bcn"
    and "Status w' \<noteq> Stalled"
    and room: "Status w' = Running \<Longrightarrow> int (load X b q) < MaxConcurrent bcn"
  shows "slots env X (oset h w' q) bs"
proof (rule slots_write_item [OF s])
  show "item_ok env X bs h w'" using assms by (auto simp: item_ok_def placed_def)
next
  fix b' bcn'
  assume "runs_on X b' w'" and "oget bs b' = Some bcn'"
  with b room show "(\<exists>w. oget q h = Some w \<and> runs_on X b' w) \<or> int (load X b' q) < MaxConcurrent bcn'"
    by (auto simp: runs_on_def)
qed

lemma slots_delete_item:
  assumes "slots env (insert h X) q bs"
  shows "slots env X (odel h q) bs"
proof -
  have owf: "owf q" using assms by (rule slotsD)
  have "item_ok env X bs k w" if "oget (odel h q) k = Some w" for k w
    using that slotsD(3) [OF assms, of k w]
    by (auto simp: item_ok_def obj_simps split: if_splits)
  moreover have "load X b (odel h q) \<le> load (insert h X) b q" for b
  proof -
    have "load X b (odel h q) = load (insert h X) b (odel h q)"
      unfolding load_def ocount_def
    proof (intro arg_cong [where f = length] filter_cong refl)
      fix w assume "w \<in> set (ovals (odel h q))"
      then obtain k where "oget (odel h q) k = Some w"
        using ovals_oget [OF AList.distinct_delete [OF owf]] by blast
      then have "oget q k = Some w" "k \<noteq> h"
        by (simp_all add: obj_simps split: if_splits)
      with slots_hash [OF assms] have "WorkItemHash w \<noteq> h" by blast
      then show "runs_on X b w = runs_on (insert h X) b w" by (auto simp: runs_on_def)
    qed
    also have "\<dots> \<le> load (insert h X) b q" unfolding load_def by (rule ocount_odel_le)
    finally show ?thesis .
  qed
  ultimately show ?thesis
    using assms unfolding slots_def beacon_ok_def
    by (meson AList.distinct_delete dual_order.trans of_nat_mono)
qed

lemma slots_delete_item': "slots env X q bs \<Longrightarrow> slots env X (odel h q) bs"
  using slots_delete_item slots_weaken by blast

subsection \<open>Writing one beacon\<close>

text \<open>
  A beacon record may be replaced when it keeps its name and its slots, lists every item that
  still needs it, and its limit does not fall below the running load.
\<close>

lemma slots_write_beacon:
  assumes s: "slots env X q bs" and id: "BeaconID bcn' = b"
    and max: "0 < MaxConcurrent bcn'" "int (load X b q) \<le> MaxConcurrent bcn'"
    and keep: "\<And>h w bcn. oget q h = Some w \<Longrightarrow> h \<notin> X \<Longrightarrow> placed (Status w) \<Longrightarrow>
        AssignedBeaconID w = Some b \<Longrightarrow> oget bs b = Some bcn \<Longrightarrow>
        h \<in> set (CurrentWorkItems bcn) \<Longrightarrow> h \<in> set (CurrentWorkItems bcn') \<and> Name bcn' = Name bcn"
  shows "slots env X q (oset b bcn' bs)"
proof -
  have "item_ok env X (oset b bcn' bs) h w" if h: "oget q h = Some w" for h w
  proof -
    from s h have ok: "item_ok env X bs h w" by (rule slotsD)
    show ?thesis
    proof (cases "h \<notin> X \<and> placed (Status w)")
      case False
      with ok show ?thesis by (auto simp: item_ok_def)
    next
      case True
      with ok obtain c bcn where c: "AssignedBeaconID w = Some c" "oget bs c = Some bcn"
        "h \<in> set (CurrentWorkItems bcn)" "beaconSatisfiesAffinity w bcn"
        by (auto simp: item_ok_def)
      then show ?thesis
        using ok True keep [OF h, of bcn]
        by (cases "c = b") (auto simp: item_ok_def obj_simps beaconSatisfiesAffinity_def)
    qed
  qed
  then show ?thesis
    using s id max by (auto simp: slots_def beacon_ok_def obj_simps AList.distinct_update split: if_splits)
qed

lemma slots_grow_beacon:
  assumes s: "slots env X q bs" and b: "oget bs b = Some bcn"
    and "BeaconID bcn' = BeaconID bcn" "Name bcn' = Name bcn"
    and "MaxConcurrent bcn \<le> MaxConcurrent bcn'"
    and "set (CurrentWorkItems bcn) \<subseteq> set (CurrentWorkItems bcn')"
  shows "slots env X q (oset b bcn' bs)"
  using assms slotsD(4) [OF s b] by (intro slots_write_beacon) (auto simp: beacon_ok_def)

text \<open>Freeing the slot of an item that no longer needs one.\<close>

lemma slots_free:
  assumes s: "slots env X q bs" and b: "oget bs b = Some bcn"
    and idle: "\<And>w. oget q h = Some w \<Longrightarrow> h \<in> X \<or> \<not> placed (Status w)"
  shows "slots env X q (oset b (free_slot h bcn) bs)"
proof (rule slots_write_beacon [OF s])
  from slotsD(4) [OF s b] show "BeaconID (free_slot h bcn) = b"
    "0 < MaxConcurrent (free_slot h bcn)" "int (load X b q) \<le> MaxConcurrent (free_slot h bcn)"
    by (auto simp: free_slot_def Let_def beacon_ok_def)
next
  fix k w c
  assume "oget q k = Some w" "k \<notin> X" "placed (Status w)" "oget bs b = Some c"
    "k \<in> set (CurrentWorkItems c)"
  with idle b show "k \<in> set (CurrentWorkItems (free_slot h bcn)) \<and> Name (free_slot h bcn) = Name c"
    by (cases "k = h") (auto simp: free_slot_def Let_def)
qed

end
