(* ===== verification/SlotPreservation.thy ===== *)
theory SlotPreservation
  imports SlotInvariant
begin

section \<open>Every handler keeps the slot invariant\<close>

text \<open>
  One preservation lemma per handler of the coordinator and the scheduler, from the write rules
  of the slot invariant. The lemmas are in the code's order: push, enqueue, poll, slot-free
  re-dispatch, completion, failure, timeouts, registration, and the scheduler's ticks.
\<close>

named_theorems slot_rules \<open>handlers that keep the slot invariant\<close>

subsection \<open>Frames\<close>

lemma slot_inv_frame:
  "WorkQueue s' = WorkQueue s \<Longrightarrow> Beacons s' = Beacons s \<Longrightarrow> slot_inv env X s' = slot_inv env X s"
  by (simp add: slot_inv_def)

lemma slot_inv_emit [simp]: "slot_inv env X (emit e s) = slot_inv env X s"
  "slot_inv env X (emit_when b es s) = slot_inv env X s"
  "slot_inv env X (broadcast env' t p s) = slot_inv env X s"
  by (simp_all add: slot_inv_def)

lemma bind_affinity_frame [simp]:
  "WorkQueue (bind_affinity env w b s) = WorkQueue s" "Beacons (bind_affinity env w b s) = Beacons s"
  by (simp_all add: bind_affinity_def)

lemma journal_claim_frame [simp]:
  "WorkQueue (journal_claim env w b s) = WorkQueue s" "Beacons (journal_claim env w b s) = Beacons s"
  by (simp_all add: journal_claim_def)

lemma slot_inv_claims [simp]:
  "slot_inv env X (bind_affinity env' w b s) = slot_inv env X s"
  "slot_inv env X (journal_claim env' w b s) = slot_inv env X s"
  by (simp_all add: slot_inv_def)

lemma slot_inv_owf: "slot_inv env X s \<Longrightarrow> owf (WorkQueue s)" "slot_inv env X s \<Longrightarrow> owf (Beacons s)"
  by (auto simp: slot_inv_def slots_def)

lemma slot_inv_hash: "slot_inv env X s \<Longrightarrow> oget (WorkQueue s) h = Some w \<Longrightarrow> WorkItemHash w = h"
  by (auto simp: slot_inv_def intro: slots_hash)

lemma slot_inv_id: "slot_inv env X s \<Longrightarrow> oget (Beacons s) b = Some bcn \<Longrightarrow> BeaconID bcn = b"
  by (auto simp: slot_inv_def intro: slots_id)

lemma slot_inv_max: "slot_inv env X s \<Longrightarrow> oget (Beacons s) b = Some bcn \<Longrightarrow> 0 < MaxConcurrent bcn"
  by (auto simp: slot_inv_def slots_def beacon_ok_def)

lemma slot_inv_set_same:
  "slot_inv env X s \<Longrightarrow> oget (WorkQueue s) h = Some w \<Longrightarrow> same_place w w' \<Longrightarrow>
    slot_inv env X (set_item h w' s)"
  by (simp add: slot_inv_def slots_write_same)

lemma slot_inv_set_idle:
  "slot_inv env X s \<Longrightarrow> WorkItemHash w' = h \<Longrightarrow> h \<in> X \<or> \<not> placed (Status w') \<Longrightarrow>
    (Status w' = Stalled \<Longrightarrow> stale env w') \<Longrightarrow> slot_inv env X (set_item h w' s)"
  by (simp add: slot_inv_def slots_write_idle)

lemma slot_inv_delete [slot_rules]: "slot_inv env X s \<Longrightarrow> slot_inv env X (delete_item h s)"
  by (simp add: slot_inv_def slots_delete_item')

lemma find_pair:
  assumes "find P ob = Some (k, v)" and "owf ob"
  shows "oget ob k = Some v" "P (k, v)"
  using assms by (auto simp: find_Some_iff)

lemma findBeaconByName_get:
  assumes "findBeaconByName n s = Some (k, bcn)" and "owf (Beacons s)"
  shows "oget (Beacons s) k = Some bcn" "Name bcn = n"
  using find_pair [OF assms(1)[unfolded findBeaconByName_def] assms(2)] by simp_all

subsection \<open>Pushing\<close>

lemma push_toD:
  assumes "push_to env ph b h w s = (ok, w', s')"
  shows "\<exists>st. w' = w\<lparr>Settings := st\<rparr>" "WorkQueue s' = oset h w' (WorkQueue s)"
    "Beacons s' = Beacons s" "AffinityBindings s' = AffinityBindings s"
  using assms by (auto simp: push_to_def sanitizeWorkItemForBeacon_def Let_def split: prod.splits)

lemma running_load: "load X b (WorkQueue s) \<le> runningCountForBeacon b s"
  unfolding load_def runningCountForBeacon_def by (rule ocount_mono) (simp add: runs_on_def)

lemma pushAssigned_slots [slot_rules]:
  assumes s: "slot_inv env X s"
    and st: "\<And>w. oget (WorkQueue s) h = Some w \<Longrightarrow> Status w = Assigned"
  shows "slot_inv env X (snd (pushAssignedWorkItem env h s))"
proof (cases "PushHandler env = None \<or> oget (WorkQueue s) h = None")
  case True
  with s show ?thesis by (auto simp: pushAssignedWorkItem_def split: option.splits)
next
  case False
  then obtain ph w where ph: "PushHandler env = Some ph" and w: "oget (WorkQueue s) h = Some w"
    by auto
  note hash = slot_inv_hash [OF s w]
  have asg: "Status w = Assigned" using st w .
  show ?thesis
  proof (cases "\<exists>b bcn. AssignedBeaconID w = Some b \<and> oget (Beacons s) b = Some bcn \<and>
      (BeaconStatus bcn = Online \<or> BeaconStatus bcn = Busy) \<and>
      int (runningCountForBeacon b s) < num_or (MaxConcurrent bcn) 1")
    case False
    with s ph w show ?thesis
      by (auto simp: pushAssignedWorkItem_def split: option.splits)
  next
    case True
    then obtain b bcn where b: "AssignedBeaconID w = Some b" "oget (Beacons s) b = Some bcn"
      "BeaconStatus bcn = Online \<or> BeaconStatus bcn = Busy"
      "int (runningCountForBeacon b s) < num_or (MaxConcurrent bcn) 1" by blast
    obtain ok w' s' where p: "push_to env ph b h (w\<lparr>Status := Running\<rparr>) s = (ok, w', s')"
      by (cases "push_to env ph b h (w\<lparr>Status := Running\<rparr>) s")
    note push = push_toD [OF p]
    then obtain stg where w': "w' = w\<lparr>Status := Running, Settings := stg\<rparr>" by auto
    have res: "snd (pushAssignedWorkItem env h s) =
        (if ok then s' else set_item h (w'\<lparr>Status := Assigned\<rparr>) s')"
      using ph w b p by (auto simp: pushAssignedWorkItem_def)
    have ok: "item_ok env X (Beacons s) h w"
      using s w by (auto simp: slot_inv_def dest: slotsD)
    show ?thesis
    proof (cases ok)
      case True
      have "slots env X (oset h w' (WorkQueue s)) (Beacons s)"
      proof (rule slots_write_item)
        show "slots env X (WorkQueue s) (Beacons s)" using s by (simp add: slot_inv_def)
        have "beaconSatisfiesAffinity w' = beaconSatisfiesAffinity w"
          by (rule affinity_fields) (simp_all add: w')
        with ok asg show "item_ok env X (Beacons s) h w'"
          by (simp add: item_ok_def placed_def w')
      next
        fix b' bcn'
        assume "runs_on X b' w'" "oget (Beacons s) b' = Some bcn'"
        with w' b have "b' = b" "bcn' = bcn" by (auto simp: runs_on_def)
        with b running_load [of X b s] slot_inv_max [OF s b(2)]
        show "(\<exists>v. oget (WorkQueue s) h = Some v \<and> runs_on X b' v) \<or>
            int (load X b' (WorkQueue s)) < MaxConcurrent bcn'"
          by (auto simp: num_or_def)
      qed
      with True res push show ?thesis by (simp add: slot_inv_def)
    next
      case False
      have "slots env X (oset h (w'\<lparr>Status := Assigned\<rparr>) (WorkQueue s)) (Beacons s)"
        using s w asg by (intro slots_write_same [of _ _ _ _ _ w])
          (auto simp: slot_inv_def same_place_def w' lastEvent_def)
      with False res push show ?thesis by (simp add: slot_inv_def)
    qed
  qed
qed

lemma grown_current: "set cur \<subseteq> set (remove1 h (cur @ [h]))"
proof
  fix x
  assume "x \<in> set cur"
  then show "x \<in> set (remove1 h (cur @ [h]))"
    by (cases "x = h") (simp_all add: remove1_append)
qed

lemma slot_inv_grow:
  assumes "slot_inv env X s" "oget (Beacons s) b = Some bcn"
    and "BeaconID bcn' = BeaconID bcn" "Name bcn' = Name bcn" "MaxConcurrent bcn' = MaxConcurrent bcn"
    and "set (CurrentWorkItems bcn) \<subseteq> set (CurrentWorkItems bcn')"
  shows "slot_inv env X (set_beacon b bcn' s)"
  using assms by (simp add: slot_inv_def slots_grow_beacon)

lemma tryPushOne_slots:
  assumes s: "slot_inv env X s" and b: "oget (Beacons s) k = Some bcn"
    and w: "oget (WorkQueue s) h = Some w" and el: "pushEligible env w bcn"
  shows "slot_inv env X (snd (tryPushOne env ph h k bcn w s))"
proof -
  define w1 where "w1 = push_claim env bcn w"
  define bcn1 where "bcn1 = bcn\<lparr>CurrentWorkItems := CurrentWorkItems bcn @ [WorkItemHash w]\<rparr>"
  define s2 where "s2 = bind_affinity env w1 (BeaconID bcn) (set_beacon k bcn1 (set_item h w1 s))"
  obtain ok w2 s3 where p: "push_to env ph (BeaconID bcn) h w1 s2 = (ok, w2, s3)"
    by (cases "push_to env ph (BeaconID bcn) h w1 s2")
  note push = push_toD [OF p]
  then obtain stg where w2: "w2 = w1\<lparr>Settings := stg\<rparr>" by auto
  note hash = slot_inv_hash [OF s w] and id = slot_inv_id [OF s b]
  have res: "snd (tryPushOne env ph h k bcn w s) =
      (if ok then journal_claim env w2 (BeaconID bcn) s3
       else set_beacon k (bcn\<lparr>CurrentWorkItems :=
              remove1 (WorkItemHash w) (CurrentWorkItems bcn @ [WorkItemHash w])\<rparr>)
            (set_item h (w2\<lparr>Status := Pending, AssignedBeaconID := None, ClaimedAt := None\<rparr>) s3))"
    using p unfolding w1_def bcn1_def s2_def tryPushOne_def by (simp add: Let_def)
  have q3: "WorkQueue s3 = oset h w2 (WorkQueue s)" "Beacons s3 = oset k bcn1 (Beacons s)"
    using push by (simp_all add: s2_def)
  show ?thesis
  proof (cases ok)
    case True
    have "slots env X (oset h w2 (WorkQueue s)) (oset k bcn1 (Beacons s))"
    proof (rule slots_write_placed)
      show "slots env X (WorkQueue s) (oset k bcn1 (Beacons s))"
        using slot_inv_grow [OF s b, of bcn1] by (auto simp: slot_inv_def bcn1_def)
      show "int (load X k (WorkQueue s)) < MaxConcurrent bcn1"
        using load_le_current [of env X "WorkQueue s" "Beacons s" k bcn] s b el
        by (auto simp: slot_inv_def bcn1_def pushEligible_def atCapacity_def)
      have "beaconSatisfiesAffinity w2 = beaconSatisfiesAffinity w"
        by (rule affinity_fields) (simp_all add: w2 w1_def push_claim_def)
      with el show "beaconSatisfiesAffinity w2 bcn1"
        by (simp add: pushEligible_def beaconSatisfiesAffinity_def bcn1_def)
    qed (simp_all add: w2 w1_def push_claim_def bcn1_def hash id obj_simps)
    with True res q3 show ?thesis by (simp add: slot_inv_def)
  next
    case False
    let ?w = "w2\<lparr>Status := Pending, AssignedBeaconID := None, ClaimedAt := None\<rparr>"
    have "slot_inv env X (set_item h ?w s)"
      by (rule slot_inv_set_idle [OF s]) (simp_all add: w2 w1_def push_claim_def hash placed_def)
    then have "slot_inv env X (set_beacon k (bcn\<lparr>CurrentWorkItems :=
        remove1 (WorkItemHash w) (CurrentWorkItems bcn @ [WorkItemHash w])\<rparr>) (set_item h ?w s))"
      using b grown_current [of "CurrentWorkItems bcn" "WorkItemHash w"]
      by (intro slot_inv_grow [where bcn = bcn]) simp_all
    with False res q3 show ?thesis by (simp add: slot_inv_def)
  qed
qed

lemma tryPushLoop_slots:
  "slot_inv env X s \<Longrightarrow> slot_inv env X (snd (tryPushLoop env ph h ks s))"
proof (induction ks arbitrary: s)
  case Nil
  then show ?case by simp
next
  case (Cons k ks)
  show ?case
  proof (cases "\<exists>bcn w. oget (Beacons s) k = Some bcn \<and> oget (WorkQueue s) h = Some w \<and>
      pushEligible env w bcn")
    case False
    with Cons show ?thesis by (auto split: option.splits)
  next
    case True
    then obtain bcn w where b: "oget (Beacons s) k = Some bcn" "oget (WorkQueue s) h = Some w"
      and el: "pushEligible env w bcn" by blast
    obtain ok s' where t: "tryPushOne env ph h k bcn w s = (ok, s')" by (rule prod.exhaust)
    with tryPushOne_slots [OF Cons.prems b el, of ph] have "slot_inv env X s'" by simp
    with Cons.IH b el t show ?thesis by (cases ok) auto
  qed
qed

lemma tryPush_slots [slot_rules]:
  "slot_inv env X s \<Longrightarrow> slot_inv env X (snd (tryPushToWebSocketBeacon env h s))"
  by (auto simp: tryPushToWebSocketBeacon_def tryPushLoop_slots split: option.splits)

subsection \<open>Enqueue\<close>

lemma newWorkItem_fields:
  "WorkItemHash (withDefaults env q (newWorkItem env q n)) = workItemHash q (Now env) n"
  "Status (withDefaults env q (newWorkItem env q n)) = Pending"
  "AssignedBeaconID (withDefaults env q (newWorkItem env q n)) = None"
  "AffinityKey (withDefaults env q (newWorkItem env q n)) = qAffinityKey q"
  "RequireAffinityMatch (withDefaults env q (newWorkItem env q n)) = qRequireAffinityMatch q"
  by (simp_all add: withDefaults_def newWorkItem_def applyToWorkItem_def split: option.splits)

lemma slot_inv_assign:
  assumes s: "slot_inv env X s" and b: "oget (Beacons s) b = Some bcn"
    and aff: "beaconSatisfiesAffinity w bcn"
  shows "slot_inv env X (set_item (WorkItemHash w) (assign_to env' b w) (add_current b (WorkItemHash w) s))"
proof -
  let ?b = "bcn\<lparr>CurrentWorkItems := CurrentWorkItems bcn @ [WorkItemHash w]\<rparr>"
  have "slot_inv env X (set_beacon b ?b s)"
    by (rule slot_inv_grow [OF s b]) auto
  then have "slots env X (oset (WorkItemHash w) (assign_to env' b w) (WorkQueue s)) (oset b ?b (Beacons s))"
  proof (intro slots_write_placed)
    have "beaconSatisfiesAffinity (assign_to env' b w) = beaconSatisfiesAffinity w"
      by (rule affinity_fields) (simp_all add: assign_to_def)
    with aff show "beaconSatisfiesAffinity (assign_to env' b w) ?b"
      by (simp add: beaconSatisfiesAffinity_def)
  qed (auto simp: slot_inv_def assign_to_def obj_simps)
  with b show ?thesis by (simp add: slot_inv_def add_current_def)
qed

text \<open>Routing either leaves the item as it was or assigns it to a registered beacon it may run on.\<close>

lemma routeWorkItemD:
  assumes "routeWorkItem env w s = (w', s')" and inv: "slot_inv env' X s"
  shows "w' = w \<and> WorkQueue s' = WorkQueue s \<and> Beacons s' = Beacons s \<or>
    (\<exists>k bcn. w' = assign_to env k w \<and> s' = add_current k (WorkItemHash w) s \<and>
       oget (Beacons s) k = Some bcn \<and> beaconSatisfiesAffinity w bcn)"
proof (cases "findBeaconByName (AffinityKey w) s")
  case None
  with assms(1) show ?thesis
    by (auto simp: routeWorkItem_def beaconSatisfiesAffinity_def split: if_splits option.splits)
next
  case (Some kb)
  then obtain k bcn where kb: "findBeaconByName (AffinityKey w) s = Some (k, bcn)"
    by (cases kb) simp
  note get = findBeaconByName_get [OF kb slot_inv_owf(2) [OF inv]]
  then have "beaconSatisfiesAffinity w bcn" by (simp add: beaconSatisfiesAffinity_def)
  with assms(1) kb get slot_inv_id [OF inv get(1)] show ?thesis
    by (auto simp: routeWorkItem_def split: if_splits)
qed

lemma enqueueRecord_slots:
  assumes s: "slot_inv env X s"
  shows "slot_inv env X (snd (enqueueRecord env q s))"
proof -
  define s1 where "s1 = s\<lparr>WorkItemCounter := Suc (WorkItemCounter s)\<rparr>"
  define w0 where "w0 = withDefaults env q (newWorkItem env q (WorkItemCounter s1))"
  have s1: "slot_inv env X s1" using s by (simp add: slot_inv_def s1_def)
  obtain w s2 where r: "routeWorkItem env w0 s1 = (w, s2)" by (rule prod.exhaust)
  have "slot_inv env X (set_item (WorkItemHash w) w s2)"
    using routeWorkItemD [OF r s1]
  proof (elim disjE exE conjE)
    assume "w = w0" "WorkQueue s2 = WorkQueue s1" "Beacons s2 = Beacons s1"
    moreover from this s1 have "slot_inv env X s2" by (simp add: slot_inv_def)
    ultimately show ?thesis
      by (intro slot_inv_set_idle) (simp_all add: w0_def newWorkItem_fields placed_def)
  next
    fix k bcn
    assume r: "w = assign_to env k w0" "s2 = add_current k (WorkItemHash w0) s1"
      and b: "oget (Beacons s1) k = Some bcn" and aff: "beaconSatisfiesAffinity w0 bcn"
    with slot_inv_assign [OF s1 b aff, of env] show ?thesis by (simp add: assign_to_def)
  qed
  with r show ?thesis
    by (simp add: enqueueRecord_def Let_def s1_def w0_def journal_enqueue_def persist_enqueue_def)
qed

lemma enqueueRecord_get:
  "enqueueRecord env q s = (w, s') \<Longrightarrow> oget (WorkQueue s') (WorkItemHash w) = Some w"
  by (auto simp: enqueueRecord_def Let_def journal_enqueue_def persist_enqueue_def obj_simps
      split: prod.splits)

lemma enqueue_slots [slot_rules]:
  assumes s: "slot_inv env X s"
  shows "slot_inv env X (snd (enqueueWorkItem env q s))"
proof -
  obtain w s' where e: "enqueueRecord env q s = (w, s')" by (rule prod.exhaust)
  with enqueueRecord_slots [OF s, of q] have "slot_inv env X s'" by simp
  with e enqueueRecord_get [OF e] show ?thesis
    by (auto simp: enqueueWorkItem_def Let_def intro!: tryPush_slots pushAssigned_slots)
qed

subsection \<open>Poll\<close>

lemma sanitize_fields [simp]:
  "WorkItemHash (snd (sanitizeWorkItemForBeacon env w)) = WorkItemHash w"
  "Status (snd (sanitizeWorkItemForBeacon env w)) = Status w"
  "AssignedBeaconID (snd (sanitizeWorkItemForBeacon env w)) = AssignedBeaconID w"
  "beaconSatisfiesAffinity (snd (sanitizeWorkItemForBeacon env w)) = beaconSatisfiesAffinity w"
  by (auto simp: sanitizeWorkItemForBeacon_def Let_def intro!: affinity_fields)

lemma claim_fields [simp]:
  "WorkItemHash (claimAssigned env w) = WorkItemHash w" "Status (claimAssigned env w) = Running"
  "AssignedBeaconID (claimAssigned env w) = AssignedBeaconID w"
  "beaconSatisfiesAffinity (claimAssigned env w) = beaconSatisfiesAffinity w"
  "WorkItemHash (claimPending env b w) = WorkItemHash w" "Status (claimPending env b w) = Running"
  "AssignedBeaconID (claimPending env b w) = Some b"
  "beaconSatisfiesAffinity (claimPending env b w) = beaconSatisfiesAffinity w"
  by (auto simp: claimAssigned_def claimPending_def intro!: affinity_fields)

lemma slot_inv_run:
  assumes s: "slot_inv env X s" and b: "oget (Beacons s) b = Some bcn"
    and free: "\<not> atCapacity bcn" and aff: "beaconSatisfiesAffinity w' bcn"
    and hash: "WorkItemHash w' = h" and w': "AssignedBeaconID w' = Some b" "Status w' = Running"
    and cur: "h \<in> set cur" "set (CurrentWorkItems bcn) \<subseteq> set cur"
  shows "slots env X (oset h w' (WorkQueue s))
    (oset b (bcn\<lparr>LastHeartbeat := t, CurrentWorkItems := cur\<rparr>) (Beacons s))"
proof (rule slots_write_placed [where b = b])
  let ?b = "bcn\<lparr>LastHeartbeat := t, CurrentWorkItems := cur\<rparr>"
  show "slots env X (WorkQueue s) (oset b ?b (Beacons s))"
    using slot_inv_grow [OF s b, of ?b] cur by (simp add: slot_inv_def)
  show "oget (oset b ?b (Beacons s)) b = Some ?b" by (simp add: obj_simps)
  show "int (load X b (WorkQueue s)) < MaxConcurrent ?b"
    using load_le_current [of env X "WorkQueue s" "Beacons s" b bcn] s b free
    by (simp add: slot_inv_def atCapacity_def)
  show "beaconSatisfiesAffinity w' ?b" using aff by (simp add: beaconSatisfiesAffinity_def)
qed (use hash w' cur in simp_all)

lemma pollAssigned_slots:
  assumes s: "slot_inv env {} s" and b: "oget (Beacons s) b = Some bcn" and free: "\<not> atCapacity bcn"
    and w: "oget (WorkQueue s) h = Some w" "Status w = Assigned" "AssignedBeaconID w = Some b"
  shows "slot_inv env {}
    (snd (pollAssigned env b h w (set_beacon b (bcn\<lparr>LastHeartbeat := t\<rparr>) s)))"
proof -
  let ?w = "snd (sanitizeWorkItemForBeacon env (claimAssigned env w))"
  have "item_ok env {} (Beacons s) h w" using s w by (auto simp: slot_inv_def dest: slotsD)
  with b w have "h \<in> set (CurrentWorkItems bcn)" "beaconSatisfiesAffinity w bcn"
    by (simp_all add: item_ok_def placed_def)
  then have "slots env {} (oset h ?w (WorkQueue s))
      (oset b (bcn\<lparr>LastHeartbeat := t, CurrentWorkItems := CurrentWorkItems bcn\<rparr>) (Beacons s))"
    using w slot_inv_hash [OF s w(1)] by (intro slot_inv_run [OF s b free]) simp_all
  then show ?thesis
    by (simp add: pollAssigned_def Let_def slot_inv_def case_prod_beta)
qed

lemma pollPending_slots:
  assumes s: "slot_inv env {} s" and b: "oget (Beacons s) b = Some bcn" and free: "\<not> atCapacity bcn"
    and w: "oget (WorkQueue s) h = Some w" "pollEligible env b bcn w"
  shows "slot_inv env {}
    (snd (pollPending env b h w (set_beacon b (bcn\<lparr>LastHeartbeat := t\<rparr>) s)))"
proof -
  let ?w = "snd (sanitizeWorkItemForBeacon env (claimPending env b w))"
  note hash = slot_inv_hash [OF s w(1)]
  have "slots env {} (oset h ?w (WorkQueue s))
      (oset b (bcn\<lparr>LastHeartbeat := t, CurrentWorkItems := push_new h (CurrentWorkItems bcn)\<rparr>)
        (Beacons s))"
    using w hash by (intro slot_inv_run [OF s b free]) (auto simp: pollEligible_def)
  with hash show ?thesis
    by (simp add: pollPending_def Let_def slot_inv_def push_current_def obj_simps
        case_prod_beta)
qed

text \<open>The four ways a poll of a registered beacon ends.\<close>

lemma poll_cases:
  assumes b: "oget (Beacons s) b = Some bcn" and owf: "owf (WorkQueue s)"
    and s1: "s1 = set_beacon b (bcn\<lparr>LastHeartbeat := Now env\<rparr>) s"
  obtains (idle) "pollForWork env b s = (None, s1)"
  | (assigned) h w where "oget (WorkQueue s) h = Some w" "Status w = Assigned"
      "AssignedBeaconID w = Some b" "\<not> atCapacity bcn"
      "pollForWork env b s = map_prod Some id (pollAssigned env b h w s1)"
  | (pending) h w where "oget (WorkQueue s) h = Some w" "pollEligible env b bcn w"
      "\<not> atCapacity bcn" "pollForWork env b s = map_prod Some id (pollPending env b h w s1)"
proof -
  note [simp] = b pollForWork_def s1 Let_def
  let ?asg = "find (\<lambda>(h, w). Status w = Assigned \<and> AssignedBeaconID w = Some b) (WorkQueue s)"
  let ?pend = "find (\<lambda>(h, w). pollEligible env b bcn w) (WorkQueue s)"
  show thesis
  proof (cases "atCapacity bcn")
    case True
    then show thesis by (intro idle) simp
  next
    case free: False
    show thesis
    proof (cases ?asg)
      case (Some hw)
      obtain h w where "hw = (h, w)" by (rule prod.exhaust)
      with Some free find_pair [of _ _ h w, OF _ owf] show thesis
        by (intro assigned [of h w]) (auto simp: case_prod_beta map_prod_def)
    next
      case none: None
      show thesis
      proof (cases ?pend)
        case None
        with none free show thesis by (intro idle) simp
      next
        case (Some hw)
        obtain h w where "hw = (h, w)" by (rule prod.exhaust)
        with Some none free find_pair [of _ _ h w, OF _ owf] show thesis
          by (intro pending [of h w]) (auto simp: case_prod_beta map_prod_def)
      qed
    qed
  qed
qed

lemma poll_slots:
  assumes s: "slot_inv env {} s"
  shows "slot_inv env {} (snd (pollForWork env b s))"
proof (cases "oget (Beacons s) b")
  case None
  with s show ?thesis by (simp add: pollForWork_def)
next
  case (Some bcn)
  then show ?thesis
    using slot_inv_owf(1) [OF s] refl
  proof (cases rule: poll_cases [where env = env])
    case idle
    then show ?thesis using slot_inv_grow [OF s Some] by simp
  next
    case (assigned h w)
    with pollAssigned_slots [OF s Some] show ?thesis by simp
  next
    case (pending h w)
    with pollPending_slots [OF s Some] show ?thesis by simp
  qed
qed

subsection \<open>Slot-free re-dispatch\<close>

lemma dispatchLoop_slots: "slot_inv env X s \<Longrightarrow> slot_inv env X (dispatchLoop env hs s)"
proof (induction hs arbitrary: s)
  case Nil
  then show ?case by simp
next
  case (Cons h hs)
  then show ?case
    by (auto split: option.splits intro!: Cons.IH pushAssigned_slots tryPush_slots)
qed

lemma dispatchPending_slots [slot_rules]:
  "slot_inv env X s \<Longrightarrow> slot_inv env X (dispatchPendingWorkItems env s)"
  by (auto simp: dispatchPendingWorkItems_def dispatchLoop_slots split: option.splits)

lemma removeFromBeacon_slots:
  assumes s: "slot_inv env X s"
    and idle: "\<And>w. oget (WorkQueue s) h = Some w \<Longrightarrow> h \<in> X \<or> \<not> placed (Status w)"
  shows "slot_inv env X (removeWorkItemFromBeacon env bo h s)"
proof -
  have "slot_inv env X (set_beacon b (free_slot h bcn) s)" if "oget (Beacons s) b = Some bcn" for b bcn
    using s that idle by (simp add: slot_inv_def slots_free)
  with s show ?thesis
    by (auto simp: removeWorkItemFromBeacon_def split: option.splits intro!: dispatchPending_slots)
qed

text \<open>Writing an idle record and then freeing its slot: the shape of completion and failure.\<close>

lemma retire_slots:
  assumes "slot_inv env X s" "WorkItemHash w' = h" "\<not> placed (Status w')" "Status w' \<noteq> Stalled"
  shows "slot_inv env X (removeWorkItemFromBeacon env bo h (emit_when b es (set_item h w' s)))"
  using assms by (intro removeFromBeacon_slots) (auto intro: slot_inv_set_idle simp: obj_simps)

subsection \<open>Completion, failure, stall\<close>

lemma resolve_frame [simp]:
  "WorkQueue (snd (resolveStreamDispatch h res s)) = WorkQueue s"
  "Beacons (snd (resolveStreamDispatch h res s)) = Beacons s"
  "WorkQueue (snd (resolveDirectDispatch h res s)) = WorkQueue s"
  "Beacons (snd (resolveDirectDispatch h res s)) = Beacons s"
  by (simp_all add: resolveStreamDispatch_def resolveDirectDispatch_def Let_def split: sum.splits)

text \<open>
  What \<open>settle\<close> leaves of the queue: the item stays when the engine is to answer (or is missing),
  and goes otherwise.
\<close>

lemma settle_state:
  assumes "\<And>t. WorkQueue (toEngine t) = WorkQueue t" "\<And>t. Beacons (toEngine t) = Beacons t"
  shows "Beacons (snd (settle env h res w toEngine s)) = Beacons s"
    "WorkQueue (snd (settle env h res w toEngine s)) \<in> {WorkQueue s, odel h (WorkQueue s)}"
proof -
  obtain b1 s1 where r1: "resolveStreamDispatch h res s = (b1, s1)" by (rule prod.exhaust)
  obtain b2 s2 where r2: "resolveDirectDispatch h res s1 = (b2, s2)" by (rule prod.exhaust)
  have f: "WorkQueue s1 = WorkQueue s" "Beacons s1 = Beacons s" "WorkQueue s2 = WorkQueue s"
    "Beacons s2 = Beacons s"
    using resolve_frame(1,2) [of h res s] resolve_frame(3,4) [of h res s1] r1 r2 by simp_all
  show "Beacons (snd (settle env h res w toEngine s)) = Beacons s"
    "WorkQueue (snd (settle env h res w toEngine s)) \<in> {WorkQueue s, odel h (WorkQueue s)}"
    using r1 r2 f assms by (auto simp: settle_def split: bool.split)
qed

lemma settle_slots:
  assumes "slot_inv env X s"
    and "\<And>t. WorkQueue (toEngine t) = WorkQueue t" "\<And>t. Beacons (toEngine t) = Beacons t"
  shows "slot_inv env X (snd (settle env h res w toEngine s))"
  using settle_state [of toEngine env h res w s] assms
  by (auto simp: slot_inv_def intro: slots_delete_item')

lemma complete_slots [slot_rules]:
  assumes s: "slot_inv env X s"
  shows "slot_inv env X (snd (completeWorkItem env h r s))"
proof (cases "oget (WorkQueue s) h")
  case None
  with s show ?thesis by (simp add: completeWorkItem_def)
next
  case (Some w)
  have "slot_inv env X (removeWorkItemFromBeacon env (AssignedBeaconID w) h
      (emit_when True (completeEffects env h r w) (set_item h (completeRecord env r w) s)))"
    using slot_inv_hash [OF s Some]
    by (intro retire_slots [OF s]) (simp_all add: completeRecord_def placed_def)
  then show ?thesis
    using s Some by (auto simp: completeWorkItem_def Let_def intro!: settle_slots)
qed

lemma fail_slots [slot_rules]:
  assumes s: "slot_inv env X s"
  shows "slot_inv env X (snd (failWorkItem env h msg lg s))"
proof (cases "oget (WorkQueue s) h")
  case None
  with s show ?thesis by (simp add: failWorkItem_def)
next
  case (Some w)
  note hash = slot_inv_hash [OF s Some]
  have "slot_inv env X (removeWorkItemFromBeacon env (AssignedBeaconID w) h
      (emit_when True (failEffects env h w (failRecord env msg lg w))
        (set_item h (failRecord env msg lg w) s)))"
    using hash by (intro retire_slots [OF s]) (simp_all add: failRecord_def placed_def)
  moreover have "slot_inv env X (scheduleRetry env h msg w s)"
    using slot_inv_set_idle [OF s, of "retryRecord env msg w" h] hash
    by (simp add: scheduleRetry_def retryRecord_def removeWorkItemFromBeacon_def Let_def placed_def)
  ultimately show ?thesis
    using s Some by (auto simp: failWorkItem_def Let_def intro!: settle_slots)
qed

lemma finished_slots [slot_rules]:
  "slot_inv env X s \<Longrightarrow> slot_inv env X (snd (resumeFinished h err s))"
  "slot_inv env X s \<Longrightarrow> slot_inv env X (snd (stallFinished h err s))"
  by (auto simp: resumeFinished_def stallFinished_def slot_inv_delete split: option.splits)

text \<open>\<open>_stallWorkItem\<close> runs on an item that \<open>_maybeMarkStalled\<close> has just marked.\<close>

lemma stall_slots:
  assumes s: "slot_inv env X s"
    and idle: "\<And>w. oget (WorkQueue s) h = Some w \<Longrightarrow> \<not> placed (Status w)"
  shows "slot_inv env X (snd (stallWorkItem env h s))"
proof (cases "oget (WorkQueue s) h")
  case None
  with s show ?thesis by (simp add: stallWorkItem_def)
next
  case (Some w)
  have "slot_inv env X (set_item h (w\<lparr>StallFinalized := True\<rparr>) s)"
    by (rule slot_inv_set_same [OF s Some]) (simp add: same_place_def lastEvent_def)
  then have "slot_inv env X (removeWorkItemFromBeacon env bo h (emit_when b1 e1 (emit_when b2 e2
      (set_item h (w\<lparr>StallFinalized := True\<rparr>) s))))" for bo b1 e1 b2 e2
    using idle Some by (intro removeFromBeacon_slots) (auto simp: obj_simps)
  then show ?thesis
    using s Some by (auto simp: stallWorkItem_def Let_def intro!: slot_inv_delete)
qed

subsection \<open>Direct dispatch, progress and bindings\<close>

lemma dispatch_slots [slot_rules]:
  assumes "slot_inv env X s"
  shows "slot_inv env X (snd (dispatchAndWait env q s))"
    "slot_inv env X (snd (dispatchAndStream env q s))"
  using enqueue_slots [OF assms, of "without_run q"]
  by (simp_all add: dispatchAndWait_def dispatchAndStream_def slot_inv_def case_prod_beta)

text \<open>
  A timer frees the slot of an item that may still be Running, and the freed slot can be taken
  again before the item is deleted: between the two, the item is exempt.
\<close>

lemma drop_slots:
  assumes s: "slot_inv env {} s"
  shows "slot_inv env {} (drop_timed_out env h s)"
proof (cases "oget (WorkQueue s) h")
  case None
  with s show ?thesis by (simp add: drop_timed_out_def)
next
  case (Some w)
  have "slot_inv env {h} s" using s by (auto simp: slot_inv_def intro: slots_weaken)
  then have "slot_inv env {h} (removeWorkItemFromBeacon env (AssignedBeaconID w) h s)"
    by (rule removeFromBeacon_slots) simp
  with Some show ?thesis
    by (auto simp: drop_timed_out_def slot_inv_def intro: slots_delete_item)
qed

lemma timer_slots:
  assumes "slot_inv env {} s"
  shows "slot_inv env {} (directTimeout env h ms s)" "slot_inv env {} (streamTimeout env h ms s)"
proof -
  have "slot_inv env {} (s\<lparr>DirectDispatchCallbacks := d\<rparr>)" "slot_inv env {} (s\<lparr>StreamDispatchHandlers := d\<rparr>)"
    for d using assms by (simp_all add: slot_inv_def)
  then show "slot_inv env {} (directTimeout env h ms s)" "slot_inv env {} (streamTimeout env h ms s)"
    using assms by (simp_all add: directTimeout_def streamTimeout_def drop_slots)
qed

lemma progress_slots [slot_rules]:
  assumes s: "slot_inv env X s"
  shows "slot_inv env X (snd (updateProgress env h p s))"
proof -
  have "slot_inv env X (set_item h (progressRecord env p w) s)"
    if w: "oget (WorkQueue s) h = Some w" "Status w = Running \<or> Status w = Assigned" for w
    using w by (intro slot_inv_set_same [OF s w(1)]) (auto simp: same_place_def progressRecord_def)
  with s show ?thesis by (auto simp: updateProgress_def split: option.splits)
qed

lemma clearAffinity_slots [slot_rules]:
  "slot_inv env X s \<Longrightarrow> slot_inv env X (snd (clearAffinityBinding env k s))"
  by (simp add: clearAffinityBinding_def slot_inv_def)

subsection \<open>The periodic timeout check\<close>

lemma timeoutLoop_slots: "slot_inv env X s \<Longrightarrow> slot_inv env X (state_of (timeoutLoop env hs s))"
  by (induction hs arbitrary: s) (auto split: option.splits intro: fail_slots)

lemma retryLoop_slots: "slot_inv env X s \<Longrightarrow> slot_inv env X (state_of (retryLoop env hs s))"
proof (induction hs arbitrary: s)
  case Nil
  then show ?case by simp
next
  case (Cons h hs)
  have "slot_inv env X (set_item h (w\<lparr>Status := Pending, RetryAfter := None\<rparr>) s)"
    if "oget (WorkQueue s) h = Some w" for w
    using slot_inv_hash [OF Cons.prems that] by (intro slot_inv_set_idle [OF Cons.prems]) (simp_all add: placed_def)
  with Cons show ?case by (auto split: option.splits intro!: Cons.IH tryPush_slots)
qed

text \<open>Replacing every beacon by one with the same name, slots and limit.\<close>

lemma slot_inv_map_beacons:
  assumes s: "slot_inv env X s"
    and f: "\<And>k bcn. BeaconID (f k bcn) = BeaconID bcn \<and> Name (f k bcn) = Name bcn \<and>
      MaxConcurrent (f k bcn) = MaxConcurrent bcn \<and> CurrentWorkItems (f k bcn) = CurrentWorkItems bcn"
  shows "slot_inv env X (s\<lparr>Beacons := map (\<lambda>(k, bcn). (k, f k bcn)) (Beacons s)\<rparr>)"
proof -
  let ?bs = "map (\<lambda>(k, bcn). (k, f k bcn)) (Beacons s)"
  have get: "oget ?bs b = map_option (f b) (oget (Beacons s) b)" for b
    by (rule oget_map_values)
  have "map fst ?bs = map fst (Beacons s)" by (simp add: case_prod_beta comp_def)
  then have keys: "owf ?bs = owf (Beacons s)" by (rule arg_cong)
  have "beaconSatisfiesAffinity w (f k bcn) = beaconSatisfiesAffinity w bcn" for w k bcn
    using f by (simp add: beaconSatisfiesAffinity_def)
  then have "item_ok env X ?bs h w" if "item_ok env X (Beacons s) h w" for h w
    using that f by (fastforce simp: item_ok_def get)
  then show ?thesis
    using s f by (auto simp: slot_inv_def slots_def keys get beacon_ok_def simp del: map_map)
qed

lemma offline_slots: "slot_inv env X s \<Longrightarrow> slot_inv env X (markOfflineBeacons env' s)"
  unfolding markOfflineBeacons_def by (rule slot_inv_map_beacons) auto

lemma expired_slots: "slot_inv env X s \<Longrightarrow> slot_inv env X (dropExpiredBindings env' s)"
  by (simp add: dropExpiredBindings_def slot_inv_def)

lemma checkTimeouts_slots [slot_rules]:
  assumes "slot_inv env X s"
  shows "slot_inv env X (state_of (checkTimeouts env s))"
proof -
  let ?hs = "okeys (WorkQueue s)"
  have then_slots: "slot_inv env X (state_of (and_then x f))"
    if "slot_inv env X (state_of x)" "\<And>t. slot_inv env X t \<Longrightarrow> slot_inv env X (state_of (f t))" for x f
    using that by (cases x) simp_all
  show ?thesis
    unfolding checkTimeouts_def Let_def
    by (intro then_slots) (simp_all add: assms timeoutLoop_slots retryLoop_slots expired_slots offline_slots)
qed

subsection \<open>Registration\<close>

lemma afterRegister_frame [simp]:
  "WorkQueue (afterRegister env bi b fresh s) = WorkQueue s"
  "Beacons (afterRegister env bi b fresh s) = Beacons s"
  by (simp_all add: afterRegister_def Let_def updateActionCatalog_def registerCatalogTaskTypes_def
      registerBeaconOperations_def split: option.splits)

text \<open>
  A registration is admissible when a fresh beacon's id is not taken, its limit is positive, and a
  reclaiming beacon does not ask for a lower limit than it has.
\<close>

definition register_ok :: "hub_env \<Rightarrow> beacon_info \<Rightarrow> coord \<Rightarrow> bool" where
  "register_ok env bi s \<longleftrightarrow> 0 \<le> bMaxConcurrent bi \<and>
     oget (Beacons s) (beaconIDFor (str_or (bName bi) ''unnamed'') (Now env)) = None \<and>
     (\<forall>(k, bcn) \<in> set (Beacons s). Name bcn = str_or (bName bi) ''unnamed'' \<longrightarrow>
        bMaxConcurrent bi = 0 \<or> MaxConcurrent bcn \<le> bMaxConcurrent bi)"

lemma load_unregistered:
  assumes "slots env X q bs" and "oget bs b = None"
  shows "load X b q = 0"
  unfolding load_def
proof (rule ocount_zero)
  show "owf q" using assms(1) by (rule slotsD)
next
  fix h w
  assume "oget q h = Some w"
  with slotsD(3) [OF assms(1)] assms(2) show "\<not> runs_on X b w"
    by (fastforce simp: item_ok_def runs_on_def placed_def)
qed

lemma register_slots:
  assumes s: "slot_inv env X s" and ok: "register_ok env' bi s"
  shows "slot_inv env X (snd (registerBeacon env' bi session s))"
proof -
  define n where "n = str_or (bName bi) ''unnamed''"
  let ?id = "beaconIDFor n (Now env')"
  have fresh: "slot_inv env X (set_beacon ?id (newBeacon env' bi session n) s)"
  proof -
    have none: "oget (Beacons s) ?id = None" using ok by (simp add: register_ok_def n_def)
    with load_unregistered [of env X "WorkQueue s" "Beacons s"] s ok show ?thesis
      by (auto simp: slot_inv_def newBeacon_def register_ok_def num_or_def intro!: slots_write_beacon)
  qed
  have reclaim: "slot_inv env X (set_beacon k (reclaimBeacon env' bi session bcn) s)"
    if f: "findBeaconByName n s = Some (k, bcn)" for k bcn
  proof -
    note get = findBeaconByName_get [OF f slot_inv_owf(2) [OF s]]
    from get(1) have "(k, bcn) \<in> set (Beacons s)" by (rule oget_in)
    with ok get(2) have "bMaxConcurrent bi = 0 \<or> MaxConcurrent bcn \<le> bMaxConcurrent bi"
      by (auto simp: register_ok_def n_def)
    then have "MaxConcurrent bcn \<le> MaxConcurrent (reclaimBeacon env' bi session bcn)"
      by (auto simp: reclaimBeacon_def num_or_def)
    then show ?thesis
      using s get(1) unfolding slot_inv_def
      by (auto simp: reclaimBeacon_def intro: slots_grow_beacon)
  qed
  have res: "\<exists>t b f. snd (registerBeacon env' bi session s) = afterRegister env' bi b f t \<and>
      slot_inv env X t"
    using fresh reclaim
    by (auto simp: registerBeacon_def Let_def n_def split: option.splits)
  then show ?thesis by (auto simp: slot_inv_def)
qed

lemma releaseItems_frame [simp]: "Beacons (releaseItems hs s) = Beacons s"
  by (induction hs arbitrary: s) (simp_all split: option.split)

lemma release_item_fields:
  "WorkItemHash (release_item w) = WorkItemHash w"
  "\<not> placed (Status (release_item w))" "Status (release_item w) = Stalled \<longleftrightarrow> Status w = Stalled"
  "lastEvent (release_item w) = lastEvent w" "release_item (release_item w) = release_item w"
  by (auto simp: release_item_def placed_def lastEvent_def)

lemma releaseItems_get:
  "oget (WorkQueue (releaseItems hs s)) h =
    (if h \<in> set hs then map_option release_item (oget (WorkQueue s) h) else oget (WorkQueue s) h)"
proof (induction hs arbitrary: s)
  case Nil
  then show ?case by simp
next
  case (Cons k hs)
  then show ?case
    by (auto simp: obj_simps release_item_fields split: option.splits)
qed

lemma release_stale: "Status w = Stalled \<Longrightarrow> release_item w = w"
  by (simp add: release_item_def)

lemma releaseItems_slots: "slot_inv env X s \<Longrightarrow> slot_inv env X (releaseItems hs s)"
proof (induction hs arbitrary: s)
  case Nil
  then show ?case by simp
next
  case (Cons h hs)
  have "slot_inv env X (set_item h (release_item w) s)" if w: "oget (WorkQueue s) h = Some w" for w
  proof -
    have "stale env (release_item w)" if "Status (release_item w) = Stalled"
      using that Cons.prems w release_stale [of w] release_item_fields(3) [of w]
      by (auto simp: slot_inv_def item_ok_def dest!: slotsD(3))
    with slot_inv_hash [OF Cons.prems w] show ?thesis
      by (intro slot_inv_set_idle [OF Cons.prems]) (simp_all add: release_item_fields)
  qed
  with Cons show ?case by (auto split: option.splits intro!: Cons.IH)
qed

lemma slots_delete_beacon:
  assumes s: "slots env X q bs"
    and none: "\<And>h w. oget q h = Some w \<Longrightarrow> h \<notin> X \<Longrightarrow> placed (Status w) \<Longrightarrow> AssignedBeaconID w \<noteq> Some b"
  shows "slots env X q (odel b bs)"
proof -
  have "item_ok env X (odel b bs) h w" if h: "oget q h = Some w" for h w
    using slotsD(3) [OF s h] none [OF h] by (auto simp: item_ok_def obj_simps)
  with s show ?thesis
    by (auto simp: slots_def obj_simps AList.distinct_delete split: if_splits)
qed

lemma deregister_slots [slot_rules]:
  assumes s: "slot_inv env X s"
  shows "slot_inv env X (snd (deregisterBeacon b s))"
proof (cases "oget (Beacons s) b")
  case None
  with s show ?thesis by (simp add: deregisterBeacon_def)
next
  case (Some bcn)
  define s1 where "s1 = releaseItems (CurrentWorkItems bcn) s"
  have "slot_inv env X s1" unfolding s1_def using s by (rule releaseItems_slots)
  then have "slots env X (WorkQueue s1) (odel b (Beacons s1))"
    unfolding slot_inv_def
  proof (rule slots_delete_beacon)
    fix h w
    assume h: "oget (WorkQueue s1) h = Some w" "h \<notin> X" "placed (Status w)"
    show "AssignedBeaconID w \<noteq> Some b"
    proof
      assume b: "AssignedBeaconID w = Some b"
      have "h \<notin> set (CurrentWorkItems bcn)"
        using h release_item_fields(2) by (auto simp: s1_def releaseItems_get split: if_splits)
      with h have "oget (WorkQueue s) h = Some w" by (simp add: s1_def releaseItems_get)
      then have "item_ok env X (Beacons s) h w" using s by (auto simp: slot_inv_def dest: slotsD)
      with h b Some \<open>h \<notin> set (CurrentWorkItems bcn)\<close> show False by (auto simp: item_ok_def)
    qed
  qed
  with Some show ?thesis by (simp add: deregisterBeacon_def slot_inv_def s1_def)
qed

lemma heartbeat_slots [slot_rules]:
  assumes s: "slot_inv env X s"
  shows "slot_inv env X (snd (heartbeat env' b s))"
  using s by (auto simp: heartbeat_def Let_def split: option.splits intro!: slot_inv_grow)

subsection \<open>The scheduler's ticks\<close>

lemma pickBeacon_get:
  assumes "pickBeacon w s = Some (k, bcn)" and "owf (Beacons s)"
  shows "oget (Beacons s) k = Some bcn" "beaconCanTake bcn w"
proof -
  have loop: "(k, bcn) \<in> set bs \<and> beaconCanTake bcn w \<or> best = Some (k, bcn)"
    if "leastLoaded w bs best = Some (k, bcn)" for bs best
    using that
  proof (induction bs arbitrary: best)
    case (Cons kb bs)
    then show ?case by (cases kb) (fastforce split: if_splits)
  qed simp
  show "oget (Beacons s) k = Some bcn" "beaconCanTake bcn w"
    using assms loop [of "Beacons s" None]
    by (auto simp: pickBeacon_def dest: findBeaconByName_get split: option.splits if_splits)
qed

lemma dispatchPush_slots:
  assumes s: "slot_inv env X s" and w: "oget (WorkQueue s) h = Some w"
  shows "slot_inv env X (snd (dispatchPush env b h w s))"
proof (cases "PushHandler env")
  case None
  with s show ?thesis by (simp add: dispatchPush_def)
next
  case (Some ph)
  obtain ok w' s' where p: "push_to env ph b h w s = (ok, w', s')" by (rule prod_cases3)
  note push = push_toD [OF p]
  then have "same_place w w'" by (auto simp: same_place_def lastEvent_def)
  from slot_inv_set_same [OF s w this] push Some p show ?thesis
    by (simp add: dispatchPush_def slot_inv_def)
qed

lemma dispatchRecord_fields [simp]:
  "WorkItemHash (dispatchRecord env bcn w) = WorkItemHash w"
  "Status (dispatchRecord env bcn w) = Dispatched"
  "AssignedBeaconID (dispatchRecord env bcn w) = Some (BeaconID bcn)"
  by (simp_all add: dispatchRecord_def Let_def)

lemma dispatchItem_slots:
  assumes s: "slot_inv env X s" and b: "oget (Beacons s) k = Some bcn" and h: "WorkItemHash w = h"
  shows "slot_inv env X (dispatchItemToBeacon env h w k bcn s)"
proof -
  define w1 where "w1 = dispatchRecord env bcn w"
  define s2 where "s2 = emit_when (sched_persists env w1) (dispatchEffects env (Status w) w1)
    (set_beacon k (bcn\<lparr>CurrentWorkItems := push_new (WorkItemHash w1) (CurrentWorkItems bcn)\<rparr>)
       (set_item h w1 s))"
  have "slot_inv env X (set_item h w1 s)"
    by (rule slot_inv_set_idle [OF s]) (simp_all add: w1_def h placed_def)
  then have "slot_inv env X s2"
    unfolding s2_def slot_inv_emit by (rule slot_inv_grow [where bcn = bcn]) (auto simp: b)
  then have "slot_inv env X (snd (dispatchPush env (BeaconID bcn) h w1 s2))"
    by (rule dispatchPush_slots) (simp add: s2_def obj_simps)
  then show ?thesis
    by (simp add: dispatchItemToBeacon_def Let_def case_prod_beta w1_def [symmetric] s2_def [symmetric])
qed

lemma markCanceled_slots:
  assumes "slot_inv env X s" "WorkItemHash w = h"
  shows "slot_inv env X (markCanceled env h reason w s)"
  using slot_inv_set_idle [OF assms(1), of "cancelRecord env reason w" h] assms(2)
  by (simp add: markCanceled_def Let_def cancelRecord_def placed_def)

lemma dispatchAll_slots:
  "slot_inv env X s \<Longrightarrow> \<forall>(h, w) \<in> set ws. WorkItemHash w = h \<Longrightarrow> slot_inv env X (dispatchAll env ws s)"
proof (induction ws arbitrary: s)
  case Nil
  then show ?case by simp
next
  case (Cons hw ws)
  obtain h w where hw: "hw = (h, w)" by (rule prod.exhaust)
  with Cons.prems have hash: "WorkItemHash w = h" by simp
  have "slot_inv env X (case pickBeacon w s of None \<Rightarrow> s
      | Some (k, bcn) \<Rightarrow> dispatchItemToBeacon env h w k bcn s)"
    using Cons.prems(1) pickBeacon_get(1) [OF _ slot_inv_owf(2) [OF Cons.prems(1)]] hash
    by (auto split: option.splits intro!: dispatchItem_slots)
  with markCanceled_slots [OF Cons.prems(1) hash] Cons hw show ?case by simp
qed

lemma dispatchTick_slots [slot_rules]:
  assumes s: "slot_inv env X s"
  shows "slot_inv env X (dispatchTick env s)"
  unfolding dispatchTick_def
proof (rule dispatchAll_slots [OF s])
  show "\<forall>(h, w) \<in> set (dispatchable s). WorkItemHash w = h"
    using slot_inv_hash [OF s] in_oget [OF slot_inv_owf(1) [OF s]] by (auto simp: dispatchable_def)
qed

lemma summary_slots [slot_rules]: "slot_inv env X s \<Longrightarrow> slot_inv env X (summaryTick env' s)"
  by (simp add: summaryTick_def)

lemma requestCancel_slots [slot_rules]:
  assumes s: "slot_inv env X s"
  shows "slot_inv env X (snd (requestCancel env h reason s))"
proof (cases "oget (WorkQueue s) h")
  case None
  with s show ?thesis by (simp add: requestCancel_def)
next
  case (Some w)
  have "slot_inv env X (set_item h (w\<lparr>CancelRequested := True, CancelReason := r\<rparr>) s)" for r
    by (rule slot_inv_set_same [OF s Some]) (simp add: same_place_def lastEvent_def)
  with s Some markCanceled_slots [OF s slot_inv_hash [OF s Some]] show ?thesis
    by (simp add: requestCancel_def askCancel_def Let_def)
qed

lemma reorder_slots [slot_rules]:
  assumes s: "slot_inv env X s"
  shows "slot_inv env X (snd (reorderWorkItem env h d s))"
proof -
  have "slot_inv env X (applyReorder env h d nb w s)" if w: "oget (WorkQueue s) h = Some w" for nb w
  proof -
    have "slot_inv env X (set_item h (w\<lparr>Priority := p\<rparr>) s)" for p
      by (rule slot_inv_set_same [OF s w]) (simp add: same_place_def lastEvent_def)
    then show ?thesis by (simp add: applyReorder_def Let_def summary_slots)
  qed
  with s show ?thesis by (simp add: reorderWorkItem_def split: option.split sum.split)
qed

lemma updateHealth_slots:
  assumes s: "slot_inv env X s" and w: "oget (WorkQueue s) h = Some w"
  shows "slot_inv env X (snd (updateHealth env h w s))"
    "same_place w (fst (updateHealth env h w s))"
    "oget (WorkQueue (snd (updateHealth env h w s))) h = Some (fst (updateHealth env h w s))"
proof -
  show same: "same_place w (fst (updateHealth env h w s))"
    by (simp add: updateHealth_def Let_def same_place_def lastEvent_def)
  from slot_inv_set_same [OF s w this]
  show "slot_inv env X (snd (updateHealth env h w s))"
    by (simp add: updateHealth_def Let_def)
  show "oget (WorkQueue (snd (updateHealth env h w s))) h = Some (fst (updateHealth env h w s))"
    by (simp add: updateHealth_def Let_def obj_simps)
qed

lemma markStalled_slots:
  assumes s: "slot_inv env X s" and w: "oget (WorkQueue s) h = Some w"
  shows "slot_inv env X (maybeMarkStalled env h w s)"
proof (cases "stallSilence env w")
  case None
  with s show ?thesis by (simp add: maybeMarkStalled_def)
next
  case (Some since)
  note hash = slot_inv_hash [OF s w]
  have "stale env (stallRecord env since w)"
    using Some by (auto simp: stallSilence_def stale_def stallRecord_def lastEvent_def stallThreshold_def
        heartbeatExpected_def schedulerDefaults_def Let_def split: if_splits option.splits)
  then have "slot_inv env X (set_item h (stallRecord env since w) s)"
    by (intro slot_inv_set_idle [OF s]) (simp_all add: stallRecord_def hash placed_def)
  then show ?thesis
    using Some hash
    by (auto simp: maybeMarkStalled_def Let_def stallRecord_def obj_simps placed_def intro!: stall_slots)
qed

text \<open>A Stalled item of a reachable state is never recovered by the health tick.\<close>

lemma recover_none:
  assumes "slot_inv env X s" "oget (WorkQueue s) h = Some w" "Status w = Stalled"
  shows "maybeRecoverStalled env h w s = s"
proof -
  have "stale env w" using assms by (auto simp: slot_inv_def item_ok_def dest!: slotsD(3))
  then show ?thesis by (auto simp: stale_def maybeRecoverStalled_def split: option.splits)
qed

lemma healthStep_slots:
  assumes s: "slot_inv env X s" and w: "oget (WorkQueue s) h = Some w"
  shows "slot_inv env X (healthStep env h w s)"
proof -
  note up = updateHealth_slots [OF s w]
  have "slot_inv env X (maybeMarkStalled env h (fst (updateHealth env h w s)) (snd (updateHealth env h w s)))"
    by (rule markStalled_slots [OF up(1,3)])
  with s recover_none [OF s w] show ?thesis
    by (simp add: healthStep_def case_prod_beta)
qed

lemma healthLoop_slots: "slot_inv env X s \<Longrightarrow> slot_inv env X (state_of (healthLoop env hs s))"
  by (induction hs arbitrary: s) (auto split: option.splits intro: healthStep_slots)

lemma healthTick_slots [slot_rules]:
  "slot_inv env X s \<Longrightarrow> slot_inv env X (state_of (healthTick env s))"
  unfolding healthTick_def by (rule healthLoop_slots)

end
