(* ===== verification/QueueJournal.thy ===== *)
theory QueueJournal
  imports WorkOutcome
begin

section \<open>The queue journal: append, compact, replay, restore\<close>

text \<open>
  \<open>Ultravisor-Beacon-QueueJournal.cjs\<close> and the coordinator's \<open>restoreFromJournal\<close>. The file
  system is a state: the lines of the journal file and the snapshot file. A line is an entry, or
  text that does not parse. Time stamps of lines are not read back and are left out. Values are
  JSON, so a record written and read again is itself.
\<close>

subsection \<open>Files\<close>

datatype journal_line = Entry string "json obj" | Garbage | Blank

datatype snapshot_file =
    NoSnapshot
  | BadSnapshot
  | Snapshot "json obj obj option" "json obj obj option"

record journal =
  JEnabled :: bool
  JInitialized :: bool
  JLines :: "journal_line list option"
  JSnapshot :: snapshot_file
  WriteCount :: int
  CompactThreshold :: int

definition initial_journal :: "journal_line list option \<Rightarrow> snapshot_file \<Rightarrow> journal" where
  "initial_journal ls sn = \<lparr>JEnabled = False, JInitialized = False, JLines = ls, JSnapshot = sn,
     WriteCount = 0, CompactThreshold = 500\<rparr>"

text \<open>\<open>initialize\<close>; the flag tells whether the directory exists or could be made.\<close>

definition initialize :: "string \<Rightarrow> bool \<Rightarrow> int \<Rightarrow> journal \<Rightarrow> journal" where
  "initialize path dir_ok threshold j =
     (if path = [] \<or> \<not> dir_ok then j
      else j\<lparr>CompactThreshold := num_or threshold 500, JEnabled := True, JInitialized := True\<rparr>)"

subsection \<open>Replay\<close>

text \<open>A string field; anything else counts as absent.\<close>

definition str_field :: "json obj \<Rightarrow> string \<Rightarrow> string" where
  "str_field d f = (case jget d f of JStr s \<Rightarrow> s | _ \<Rightarrow> [])"

definition truthy_or_null :: "json \<Rightarrow> json" where
  "truthy_or_null v = (if truthy v then v else JNull)"

type_synonym journal_state = "json obj obj \<times> json obj obj"

definition claim_fields_json :: "json obj \<Rightarrow> json obj \<Rightarrow> json obj" where
  "claim_fields_json d item = oset ''ClaimedAt'' (truthy_or_null (jget d ''ClaimedAt''))
     (oset ''AssignedBeaconID'' (truthy_or_null (jget d ''BeaconID''))
       (oset ''Status'' (JStr ''Running'') item))"

definition applyEntry :: "string \<Rightarrow> json obj \<Rightarrow> journal_state \<Rightarrow> journal_state" where
  "applyEntry op d qb =
     (let q = fst qb; b = snd qb; h = str_field d ''WorkItemHash''; k = str_field d ''AffinityKey''
      in if op = ''enqueue'' then (if h = [] then qb else (oset h d q, b))
         else if op = ''claim'' then
           (if h = [] then qb
            else (case oget q h of None \<Rightarrow> qb
                  | Some item \<Rightarrow> (oset h (claim_fields_json d item) q, b)))
         else if op = ''complete'' \<or> op = ''fail'' then (if h = [] then qb else (odel h q, b))
         else if op = ''affinity-create'' then (if k = [] then qb else (q, oset k d b))
         else if op = ''affinity-clear'' then (if k = [] then qb else (q, odel k b))
         else qb)"

fun applyLine :: "journal_line \<Rightarrow> journal_state \<Rightarrow> journal_state" where
  "applyLine (Entry op d) qb = applyEntry op d qb"
| "applyLine Garbage qb = qb"
| "applyLine Blank qb = qb"

definition load_snapshot :: "snapshot_file \<Rightarrow> journal_state" where
  "load_snapshot sn = (case sn of
       Snapshot q b \<Rightarrow> ((case q of None \<Rightarrow> [] | Some x \<Rightarrow> x), (case b of None \<Rightarrow> [] | Some x \<Rightarrow> x))
     | _ \<Rightarrow> ([], []))"

definition in_flight :: "json obj \<Rightarrow> bool" where
  "in_flight item \<longleftrightarrow> jget item ''Status'' = JStr ''Running'' \<or> jget item ''Status'' = JStr ''Assigned''"

definition reset_item :: "json obj \<Rightarrow> json obj" where
  "reset_item item =
     (if in_flight item
      then oset ''ClaimedAt'' JNull (oset ''AssignedBeaconID'' JNull (oset ''Status'' (JStr ''Pending'') item))
      else item)"

text \<open>\<open>new Date(x).getTime()\<close>: \<open>null\<close> is the epoch, and NaN compares with nothing.\<close>

definition date_ms :: "json \<Rightarrow> rat option" where
  "date_ms v = (case v of JTime t \<Rightarrow> Some (of_int t) | JNum n \<Rightarrow> Some n | JNull \<Rightarrow> Some 0
     | JBool b \<Rightarrow> Some (if b then 1 else 0) | _ \<Rightarrow> None)"

definition binding_expired :: "jstime \<Rightarrow> json obj \<Rightarrow> bool" where
  "binding_expired now bd = (case date_ms (jget bd ''ExpiresAt'') of None \<Rightarrow> False
     | Some t \<Rightarrow> t < of_int now)"

definition replay_lines :: "journal \<Rightarrow> journal_state" where
  "replay_lines j = fold applyLine (case JLines j of None \<Rightarrow> [] | Some ls \<Rightarrow> ls)
     (load_snapshot (JSnapshot j))"

definition replay :: "jstime \<Rightarrow> journal \<Rightarrow> journal_state" where
  "replay now j =
     (if \<not> JInitialized j then ([], [])
      else (let qb = replay_lines j
            in (map (\<lambda>(h, item). (h, reset_item item)) (fst qb),
                filter (\<lambda>(k, bd). \<not> binding_expired now bd) (snd qb))))"

subsection \<open>Compaction and append\<close>

definition snapshot_item :: "work_item \<Rightarrow> json obj" where
  "snapshot_item w = enqueue_json w @ [(''CompletedAt'', JOptTime (CompletedAt w))]"

definition snapshot_queue :: "work_item obj \<Rightarrow> json obj obj" where
  "snapshot_queue q = map (\<lambda>(h, w). (h, snapshot_item w)) (filter (\<lambda>(h, w). \<not> finalized (Status w)) q)"

text \<open>
  \<open>compact\<close>; a failing write leaves the files as they were before it (the snapshot is written
  beside and renamed), and the count unchanged. A failure after the rename is not modelled.
\<close>

definition compact :: "bool \<Rightarrow> work_item obj \<Rightarrow> binding obj \<Rightarrow> journal \<Rightarrow> journal" where
  "compact ok q b j =
     (if \<not> JEnabled j \<or> \<not> ok then j
      else j\<lparr>JSnapshot := Snapshot (Some (snapshot_queue q)) (Some (map (\<lambda>(k, bd). (k, binding_json bd)) b)),
             JLines := Some [Entry ''compact'' []], WriteCount := 1\<rparr>)"

text \<open>
  \<open>appendEntry\<close> for one line; \<open>coordinator\<close> is the state that \<open>_requestCompaction\<close> finds, if the
  service is there, and the flags tell whether the two writes succeed.
\<close>

definition appendEntry ::
  "bool \<Rightarrow> bool \<Rightarrow> (work_item obj \<times> binding obj) option \<Rightarrow> string \<Rightarrow> json obj \<Rightarrow> journal \<Rightarrow> journal" where
  "appendEntry ok cok coordinator op d j =
     (if \<not> JEnabled j \<or> \<not> ok then j
      else (let j1 = j\<lparr>JLines := Some ((case JLines j of None \<Rightarrow> [] | Some ls \<Rightarrow> ls) @ [Entry op d]),
                       WriteCount := WriteCount j + 1\<rparr>
            in if CompactThreshold j1 \<le> WriteCount j1
               then (case coordinator of None \<Rightarrow> j1 | Some (q, b) \<Rightarrow> compact cok q b j1)
               else j1))"

subsection \<open>Restore\<close>

text \<open>
  A restored entry used as a work item: a field that the journal does not carry is \<open>undefined\<close>,
  which the coordinator reads like 0, \<open>''''\<close>, \<open>false\<close> or \<open>null\<close>.
\<close>

definition num_field :: "json obj \<Rightarrow> string \<Rightarrow> int" where
  "num_field d f = (case jget d f of JNum n \<Rightarrow> \<lfloor>n\<rfloor> | _ \<Rightarrow> 0)"

definition time_field :: "json obj \<Rightarrow> string \<Rightarrow> jstime option" where
  "time_field d f = (case jget d f of JTime t \<Rightarrow> Some t | _ \<Rightarrow> None)"

definition item_of_json :: "json obj \<Rightarrow> work_item" where
  "item_of_json d =
     \<lparr>WorkItemHash = str_field d ''WorkItemHash'', RunHash = str_field d ''RunHash'',
      RunID = str_field d ''RunID'', NodeHash = str_field d ''NodeHash'',
      OperationHash = str_field d ''OperationHash'', Capability = str_field d ''Capability'',
      Action = str_field d ''Action'',
      Settings = (case jget d ''Settings'' of JObj ob \<Rightarrow> ob | _ \<Rightarrow> []),
      AffinityKey = str_field d ''AffinityKey'',
      RequireAffinityMatch = truthy (jget d ''RequireAffinityMatch''),
      AssignedBeaconID = (case jget d ''AssignedBeaconID'' of JStr b \<Rightarrow> Some b | _ \<Rightarrow> None),
      Status = status_of (str_field d ''Status''), TimeoutMs = num_field d ''TimeoutMs'',
      CreatedAt = time_field d ''CreatedAt'', EnqueuedAt = time_field d ''EnqueuedAt'',
      AssignedAt = time_field d ''AssignedAt'', DispatchedAt = time_field d ''DispatchedAt'',
      StartedAt = time_field d ''StartedAt'', ClaimedAt = time_field d ''ClaimedAt'',
      CompletedAt = time_field d ''CompletedAt'', CanceledAt = time_field d ''CanceledAt'',
      CancelRequested = truthy (jget d ''CancelRequested''),
      CancelReason = str_field d ''CancelReason'', LastEventAt = time_field d ''LastEventAt'',
      QueueWaitMs = num_field d ''QueueWaitMs'', Priority = num_field d ''Priority'',
      Health = None, HealthLabel = UnknownHealth, HealthReason = [], HealthComputedAt = None,
      ItemResult = jget d ''Result'', AttemptNumber = num_field d ''AttemptNumber'',
      MaxAttempts = (case jget d ''MaxAttempts'' of JNum n \<Rightarrow> Some \<lfloor>n\<rfloor> | _ \<Rightarrow> None),
      RetryBackoffMs = num_field d ''RetryBackoffMs'', RetryAfter = None,
      LastError = (case jget d ''LastError'' of JStr e \<Rightarrow> Some e | _ \<Rightarrow> None),
      ItemProgress = None, AccumulatedLog = [], StallFinalized = False,
      PriorStatusBeforeStall = None, StalledAt = None, StalledSinceMs = None\<rparr>"

definition binding_of_json :: "json obj \<Rightarrow> binding" where
  "binding_of_json d = \<lparr>BindKey = str_field d ''AffinityKey'', BindBeaconID = str_field d ''BeaconID'',
     BindRunHash = str_field d ''RunHash'',
     BindCreatedAt = (case time_field d ''CreatedAt'' of None \<Rightarrow> 0 | Some t \<Rightarrow> t),
     ExpiresAt = (case time_field d ''ExpiresAt'' of None \<Rightarrow> 0 | Some t \<Rightarrow> t)\<rparr>"

text \<open>The merge keeps what the coordinator already has.\<close>

definition merge_new :: "('a \<Rightarrow> 'b) \<Rightarrow> 'a obj \<Rightarrow> 'b obj \<Rightarrow> 'b obj" where
  "merge_new f new old = fold (\<lambda>(k, x) ob. if oget ob k = None then oset k (f x) ob else ob) new old"

definition restoreFromJournal :: "jstime \<Rightarrow> journal option \<Rightarrow> coord \<Rightarrow> coord" where
  "restoreFromJournal now jo s =
     (case jo of None \<Rightarrow> s
      | Some j \<Rightarrow> (let qb = replay now j
                    in s\<lparr>WorkQueue := merge_new item_of_json (fst qb) (WorkQueue s),
                         AffinityBindings := merge_new binding_of_json (snd qb) (AffinityBindings s)\<rparr>))"

subsection \<open>What a replay yields\<close>

lemma oget_map_snd: "oget (map (\<lambda>(k, v). (k, f v)) ob) k = map_option f (oget ob k)"
  by (rule oget_map_values)

lemma reset_item_fields:
  "\<not> in_flight (reset_item item)"
  "f \<notin> {''Status'', ''AssignedBeaconID'', ''ClaimedAt''} \<Longrightarrow> jget (reset_item item) f = jget item f"
  by (simp_all add: reset_item_def in_flight_def)

lemma claim_json_fields:
  "f \<notin> {''Status'', ''AssignedBeaconID'', ''ClaimedAt''} \<Longrightarrow>
    jget (claim_fields_json d item) f = jget item f"
  by (simp add: claim_fields_json_def)

text \<open>
  The lines that settle whether a hash is in the queue, and what they do to its entry; a claim
  line changes three fields of an entry that is there, and every other line leaves it.
\<close>

fun settling :: "string \<Rightarrow> journal_line \<Rightarrow> bool" where
  "settling h (Entry op d) \<longleftrightarrow> op \<in> {''enqueue'', ''complete'', ''fail''} \<and>
     str_field d ''WorkItemHash'' = h"
| "settling h _ \<longleftrightarrow> False"

lemma applyEntry_get:
  "oget (fst (applyEntry op d qb)) h =
    (if h = [] \<or> str_field d ''WorkItemHash'' \<noteq> h then oget (fst qb) h
     else if op = ''enqueue'' then Some d
     else if op = ''claim'' then map_option (claim_fields_json d) (oget (fst qb) h)
     else if op = ''complete'' \<or> op = ''fail'' then None
     else oget (fst qb) h)"
proof -
  consider "op = ''enqueue''" | "op = ''claim''" | "op = ''complete'' \<or> op = ''fail''"
    | "op \<noteq> ''enqueue''" "op \<noteq> ''claim''" "op \<noteq> ''complete''" "op \<noteq> ''fail''" by blast
  then show ?thesis
  proof cases
    case 2
    then show ?thesis by (simp add: applyEntry_def Let_def obj_simps split: option.split)
  qed (auto simp: applyEntry_def Let_def obj_simps)
qed

lemma apply_settling:
  assumes "h \<noteq> []" "settling h (Entry op d)"
  shows "oget (fst (applyEntry op d qb)) h = (if op = ''enqueue'' then Some d else None)"
  using assms by (auto simp: applyEntry_get)

text \<open>Two entries agree up to the fields that a claim and a reset write.\<close>

definition same_work :: "json obj option \<Rightarrow> json obj option \<Rightarrow> bool" where
  "same_work x y \<longleftrightarrow> (case (x, y) of (None, None) \<Rightarrow> True
     | (Some a, Some b) \<Rightarrow> \<forall>f. f \<notin> {''Status'', ''AssignedBeaconID'', ''ClaimedAt''} \<longrightarrow> jget a f = jget b f
     | _ \<Rightarrow> False)"

lemma same_work_refl [simp]: "same_work x x"
  by (simp add: same_work_def split: option.split)

lemma same_work_trans: "same_work x y \<Longrightarrow> same_work y z \<Longrightarrow> same_work x z"
  by (auto simp: same_work_def split: option.splits)

lemma apply_other:
  assumes "h \<noteq> []" "\<not> settling h l"
  shows "same_work (oget (fst (applyLine l qb)) h) (oget (fst qb) h)"
proof (cases l)
  case (Entry op d)
  have "same_work (map_option (claim_fields_json d) x) x" for x
    by (simp add: same_work_def claim_json_fields split: option.split)
  with assms Entry show ?thesis
    by (cases "str_field d ''WorkItemHash'' = h") (simp_all add: applyEntry_get)
qed simp_all

lemma fold_other:
  assumes "h \<noteq> []" "\<forall>l \<in> set ls. \<not> settling h l"
  shows "same_work (oget (fst (fold applyLine ls qb)) h) (oget (fst qb) h)"
  using assms(2)
proof (induction ls arbitrary: qb)
  case (Cons l ls)
  then have "same_work (oget (fst (fold applyLine ls (applyLine l qb))) h) (oget (fst (applyLine l qb)) h)"
    by simp
  moreover have "same_work (oget (fst (applyLine l qb)) h) (oget (fst qb) h)"
    using Cons.prems assms(1) by (intro apply_other) auto
  ultimately show ?case by (simp add: same_work_trans)
qed simp

lemma replay_get:
  "JInitialized j \<Longrightarrow> oget (fst (replay now j)) h = map_option reset_item (oget (fst (replay_lines j)) h)"
  by (simp add: replay_def Let_def oget_map_snd)

lemma same_work_reset: "same_work (map_option reset_item x) x"
  by (auto simp: same_work_def reset_item_fields split: option.splits)

text \<open>
  C16. The last line wins: after the lines of the journal, a hash is in the replayed queue exactly
  when the last enqueue, complete or fail line of that hash is an enqueue; the entry then carries the
  fields of that line, up to the three that a claim or the restart rewrites, and is not in flight.
\<close>

theorem replay_last_line_wins:
  assumes "JInitialized j" and "JLines j = Some (ls @ Entry op d # rest)" and "h \<noteq> []"
    and "settling h (Entry op d)" and "\<forall>l \<in> set rest. \<not> settling h l"
  shows "if op = ''enqueue''
    then \<exists>item. oget (fst (replay now j)) h = Some item \<and> \<not> in_flight item \<and>
       (\<forall>f. f \<notin> {''Status'', ''AssignedBeaconID'', ''ClaimedAt''} \<longrightarrow> jget item f = jget d f)
    else oget (fst (replay now j)) h = None"
proof -
  define qb where "qb = applyEntry op d (fold applyLine ls (load_snapshot (JSnapshot j)))"
  have lines: "replay_lines j = fold applyLine rest qb"
    using assms(2) by (simp add: replay_lines_def qb_def)
  have "same_work (oget (fst (replay now j)) h) (oget (fst qb) h)"
    unfolding replay_get [OF assms(1)] lines
    by (rule same_work_trans [OF same_work_reset fold_other [OF assms(3,5)]])
  moreover have "oget (fst qb) h = (if op = ''enqueue'' then Some d else None)"
    unfolding qb_def by (rule apply_settling [OF assms(3,4)])
  moreover have "\<not> in_flight item" if "oget (fst (replay now j)) h = Some item" for item
    using that reset_item_fields(1) by (auto simp: replay_get [OF assms(1)])
  ultimately show ?thesis
    by (cases "op = ''enqueue''"; cases "oget (fst (replay now j)) h") (simp_all add: same_work_def)
qed

lemma merge_new_get:
  "oget (merge_new f new old) k = (case oget old k of Some v \<Rightarrow> Some v | None \<Rightarrow> map_option f (oget new k))"
  unfolding merge_new_def
  by (induction new arbitrary: old) (auto simp: obj_simps split: option.splits if_splits)

lemma merge_new_owf: "owf old \<Longrightarrow> owf (merge_new f new old)"
  unfolding merge_new_def
  by (induction new arbitrary: old) (auto simp: AList.distinct_update)

lemma status_in_flight:
  "Status (item_of_json d) = Running \<or> Status (item_of_json d) = Assigned \<Longrightarrow> in_flight d"
  using status_name_of [of "str_field d ''Status''"]
  by (auto simp: item_of_json_def in_flight_def str_field_def split: json.splits)


text \<open>A file written by the hub: entries under their own hash, with no event or dispatch time.\<close>

definition hub_item :: "string \<Rightarrow> json obj \<Rightarrow> bool" where
  "hub_item h d \<longleftrightarrow> str_field d ''WorkItemHash'' = h \<and> jget d ''LastEventAt'' = JUndef \<and>
     jget d ''DispatchedAt'' = JUndef"

fun hub_line :: "journal_line \<Rightarrow> bool" where
  "hub_line (Entry op d) \<longleftrightarrow> (op = ''enqueue'' \<longrightarrow> hub_item (str_field d ''WorkItemHash'') d)"
| "hub_line _ \<longleftrightarrow> True"

definition hub_queue :: "json obj obj \<Rightarrow> bool" where
  "hub_queue q \<longleftrightarrow> owf q \<and> (\<forall>h d. oget q h = Some d \<longrightarrow> hub_item h d)"

definition hub_journal :: "journal \<Rightarrow> bool" where
  "hub_journal j \<longleftrightarrow> hub_queue (fst (load_snapshot (JSnapshot j))) \<and>
     (\<forall>l \<in> set (case JLines j of None \<Rightarrow> [] | Some ls \<Rightarrow> ls). hub_line l)"

lemma hub_item_claim: "hub_item h item \<Longrightarrow> hub_item h (claim_fields_json d item)"
  by (simp add: hub_item_def claim_fields_json_def str_field_def)

lemma hub_item_reset: "hub_item h item \<Longrightarrow> hub_item h (reset_item item)"
  by (simp add: hub_item_def reset_item_def str_field_def)

lemma applyEntry_owf: "owf (fst qb) \<Longrightarrow> owf (fst (applyEntry op d qb))"
  by (simp add: applyEntry_def Let_def AList.distinct_update AList.distinct_delete split: option.split)

lemma applyEntry_cases:
  assumes "oget (fst (applyEntry op d qb)) h = Some item"
  shows "oget (fst qb) h = Some item \<or> op = ''enqueue'' \<and> item = d \<and> str_field d ''WorkItemHash'' = h \<or>
    (\<exists>old. oget (fst qb) h = Some old \<and> item = claim_fields_json d old)"
proof (cases "h = [] \<or> str_field d ''WorkItemHash'' \<noteq> h")
  case True
  with assms show ?thesis by (simp only: applyEntry_get if_True) blast
next
  case False
  then have "oget (fst (applyEntry op d qb)) h = (if op = ''enqueue'' then Some d
     else if op = ''claim'' then map_option (claim_fields_json d) (oget (fst qb) h)
     else if op = ''complete'' \<or> op = ''fail'' then None else oget (fst qb) h)"
    by (simp only: applyEntry_get if_False)
  with assms False show ?thesis
    by (cases "op = ''enqueue''"; cases "op = ''claim''"; cases "op = ''complete'' \<or> op = ''fail''";
        cases "oget (fst qb) h") auto
qed

lemma applyLine_hub: "hub_queue (fst qb) \<Longrightarrow> hub_line l \<Longrightarrow> hub_queue (fst (applyLine l qb))"
proof (cases l)
  case (Entry op d)
  assume qb: "hub_queue (fst qb)" and l: "hub_line l"
  have "hub_item h item" if get: "oget (fst (applyEntry op d qb)) h = Some item" for h item
  proof -
    consider "oget (fst qb) h = Some item" | "op = ''enqueue''" "item = d" "str_field d ''WorkItemHash'' = h"
      | old where "oget (fst qb) h = Some old" "item = claim_fields_json d old"
      using applyEntry_cases [OF get] by blast
    then show ?thesis
      using qb l Entry by cases (auto simp: hub_queue_def hub_item_claim)
  qed
  with qb Entry show ?thesis by (simp add: hub_queue_def applyEntry_owf)
qed simp_all

lemma replay_hub:
  assumes "hub_journal j"
  shows "\<forall>h d. oget (fst (replay now j)) h = Some d \<longrightarrow> hub_item h d"
proof -
  have "hub_queue (fst (fold applyLine ls qb))" if "hub_queue (fst qb)" "\<forall>l \<in> set ls. hub_line l" for ls qb
    using that by (induction ls arbitrary: qb) (simp_all add: applyLine_hub)
  then have "hub_queue (fst (replay_lines j))" using assms by (simp add: hub_journal_def replay_lines_def)
  then show ?thesis
    by (cases "JInitialized j") (auto simp: replay_get hub_queue_def hub_item_reset, simp add: replay_def)
qed

subsection \<open>Compaction\<close>

lemma snapshot_queue_get:
  assumes "owf q"
  shows "oget (snapshot_queue q) h = (case oget q h of None \<Rightarrow> None
    | Some w \<Rightarrow> if finalized (Status w) then None else Some (snapshot_item w))"
  using assms unfolding snapshot_queue_def
  by (induction q) (auto simp: map_of_eq_None_iff [symmetric] split: option.splits if_splits)


subsection \<open>The journal does not grow without bound\<close>

text \<open>One append, on a hub whose coordinator is there; the disk may refuse the line.\<close>

datatype journal_event = Append bool "work_item obj \<times> binding obj" string "json obj"

inductive journal_step :: "journal \<Rightarrow> journal_event \<Rightarrow> journal \<Rightarrow> bool" where
  "journal_step j (Append ok qb op d) (appendEntry ok True (Some qb) op d j)"

definition line_count :: "journal \<Rightarrow> nat" where
  "line_count j = (case JLines j of None \<Rightarrow> 0 | Some ls \<Rightarrow> length ls)"

text \<open>The state after \<open>initialize\<close> over files with \<open>n\<close> lines, with a usable threshold.\<close>

definition opened :: "nat \<Rightarrow> int \<Rightarrow> journal \<Rightarrow> bool" where
  "opened n k j \<longleftrightarrow> line_count j \<le> n \<and> WriteCount j = 0 \<and> CompactThreshold j = k \<and> 1 < k"

definition bounded :: "nat \<Rightarrow> int \<Rightarrow> journal \<Rightarrow> bool" where
  "bounded n k j \<longleftrightarrow> 1 < k \<and> CompactThreshold j = k \<and> 0 \<le> WriteCount j \<and> WriteCount j < k \<and>
     int (line_count j) \<le> int n + WriteCount j"

interpretation journal_bound: invariant_machine "opened n k" journal_step "bounded n k" for n k
proof
  fix j
  assume "opened n k j"
  then show "bounded n k j" by (simp add: opened_def bounded_def)
next
  fix j e j'
  assume inv: "bounded n k j" and step: "journal_step j e j'"
  from step obtain ok q b op d where j': "j' = appendEntry ok True (Some (q, b)) op d j"
    by (cases rule: journal_step.cases) auto
  show "bounded n k j'"
  proof (cases "JEnabled j \<and> ok \<and> k \<le> WriteCount j + 1")
    case True
    with inv j' show ?thesis
      by (auto simp: appendEntry_def Let_def compact_def bounded_def line_count_def)
  next
    case False
    with inv j' show ?thesis
      by (auto simp: appendEntry_def Let_def bounded_def line_count_def split: option.splits)
  qed
qed

text \<open>
  Compaction keeps the journal short: opened over a file of \<open>n\<close> lines with a threshold \<open>k\<close> above
  one, the journal never holds \<open>n + k\<close> lines or more, and fewer than \<open>k\<close> writes separate it from its
  snapshot, however many lines are appended and whichever of the appends fail.
\<close>

theorem journal_stays_short:
  assumes "reach (opened n k) journal_step j"
  shows "int (line_count j) < int n + k \<and> WriteCount j < k"
  using journal_bound.reach_inv [OF assms] by (simp add: bounded_def)

subsection \<open>What an enqueue line carries\<close>

text \<open>
  An enqueue line read back as a work item has the identity, the routing fields and the times of
  the item it was written for. It does not carry \<open>RequireAffinityMatch\<close>, \<open>MaxAttempts\<close> and
  \<open>Priority\<close>: a strict item restored from the journal is not strict any more, has no retries left and
  has lost its place in the queue.
\<close>

theorem enqueue_line_roundtrip:
  assumes "Status w \<in> set named_statuses" and "v = item_of_json (enqueue_json w)"
  shows "WorkItemHash v = WorkItemHash w \<and> RunHash v = RunHash w \<and> NodeHash v = NodeHash w \<and>
    OperationHash v = OperationHash w \<and> Capability v = Capability w \<and> Action v = Action w \<and>
    Settings v = Settings w \<and> AffinityKey v = AffinityKey w \<and>
    AssignedBeaconID v = AssignedBeaconID w \<and> Status v = Status w \<and> TimeoutMs v = TimeoutMs w \<and>
    CreatedAt v = CreatedAt w \<and> ClaimedAt v = ClaimedAt w \<and>
    RequireAffinityMatch v = False \<and> \<not> retriesLeft v \<and> Priority v = 0"
proof -
  have opt: "(case JOptStr x of JStr b \<Rightarrow> Some b | _ \<Rightarrow> None) = x" for x
    by (simp add: JOptStr_def split: option.split)
  have time: "(case JOptTime x of JTime t \<Rightarrow> Some t | _ \<Rightarrow> None) = x" for x
    by (simp add: JOptTime_def split: option.split)
  show ?thesis
    using assms(1) unfolding assms(2)
    by (simp add: item_of_json_def enqueue_json_def jget_def str_field_def num_field_def time_field_def
        JInt_def opt time status_of_name retriesLeft_def)
qed

subsection \<open>Evaluated journals\<close>

definition enqueue_fields :: "json obj" where
  "enqueue_fields = [(''WorkItemHash'', JStr ''h''), (''Status'', JStr ''Pending''), (''Action'', JStr ''Execute'')]"

definition claim_line :: journal_line where
  "claim_line = Entry ''claim'' [(''WorkItemHash'', JStr ''h''), (''BeaconID'', JStr ''b'')]"

text \<open>A file with a garbled line, an enqueue and the claim that followed it.\<close>

definition claimed_journal :: journal where
  "claimed_journal = initialize ''dir'' True 0
     (initial_journal (Some [Garbage, Entry ''enqueue'' enqueue_fields, claim_line]) NoSnapshot)"

theorem replay_last_line_wins_witness:
  "\<exists>item. oget (fst (replay 9 claimed_journal)) ''h'' = Some item \<and> \<not> in_flight item \<and>
     jget item ''Action'' = JStr ''Execute''"
proof -
  have init: "JInitialized claimed_journal" by code_simp
  have lines: "JLines claimed_journal = Some ([Garbage] @ Entry ''enqueue'' enqueue_fields # [claim_line])"
    by (simp add: claimed_journal_def initialize_def initial_journal_def)
  have own: "settling ''h'' (Entry ''enqueue'' enqueue_fields)" by code_simp
  have other: "\<forall>l \<in> set [claim_line]. \<not> settling ''h'' l" by code_simp
  have action: "jget enqueue_fields ''Action'' = JStr ''Execute''" by code_simp
  have keep: "''Action'' \<notin> {''Status'', ''AssignedBeaconID'', ''ClaimedAt''}" by simp
  from replay_last_line_wins [OF init lines _ own other, of 9]
  have "\<exists>item. oget (fst (replay 9 claimed_journal)) ''h'' = Some item \<and> \<not> in_flight item \<and>
     (\<forall>f. f \<notin> {''Status'', ''AssignedBeaconID'', ''ClaimedAt''} \<longrightarrow> jget item f = jget enqueue_fields f)"
    by (simp only: simp_thms if_True list.distinct)
  with keep action show ?thesis by metis
qed


definition demo_item :: work_item where
  "demo_item = (item_of_json enqueue_fields)\<lparr>Status := Running, AssignedBeaconID := Some ''b''\<rparr>"


definition short_journal :: journal where
  "short_journal = initialize ''dir'' True 2 (initial_journal (Some [Garbage]) NoSnapshot)"

theorem journal_stays_short_witness:
  "line_count (appendEntry True True (Some ([], [])) ''complete'' [] short_journal) < 3"
proof -
  have "opened 1 2 short_journal"
    by (simp add: opened_def short_journal_def initialize_def initial_journal_def line_count_def num_or_def)
  then have "reach (opened 1 2) journal_step short_journal" by (rule reach_init)
  then have "reach (opened 1 2) journal_step
      (appendEntry True True (Some ([], [])) ''complete'' [] short_journal)"
    by (rule reach_step) (rule journal_step.intros)
  from journal_stays_short [OF this] show ?thesis by simp
qed

theorem enqueue_line_roundtrip_witness:
  "Action (item_of_json (enqueue_json (demo_item\<lparr>RequireAffinityMatch := True\<rparr>))) = ''Execute'' \<and>
   \<not> RequireAffinityMatch (item_of_json (enqueue_json (demo_item\<lparr>RequireAffinityMatch := True\<rparr>)))"
proof -
  have "Status (demo_item\<lparr>RequireAffinityMatch := True\<rparr>) \<in> set named_statuses" by code_simp
  note line = enqueue_line_roundtrip [OF this refl]
  have "Action (demo_item\<lparr>RequireAffinityMatch := True\<rparr>) = ''Execute''" by code_simp
  with line show ?thesis by simp
qed

end
