(* ===== verification/HubSystem.thy ===== *)
theory HubSystem
  imports SlotPreservation QueueJournal
begin

section \<open>The hub as a state machine\<close>

text \<open>
  The coordinator and the scheduler as one step relation: a step is one handler call (an HTTP
  request, a socket message, a callback of the engine, a timer) with the clock and the services it
  finds. Node runs a handler to its end before the next one starts, so a handler is one atomic
  step, and any interleaving of handlers is a sequence of steps. The slot invariant of the
  reachable states gives the safety properties of the queue.
\<close>

subsection \<open>The hub's steps\<close>

datatype hub_event =
    Register beacon_info "string option"
  | Deregister string
  | Heartbeat string
  | Poll string
  | Enqueue work_info
  | DispatchAndWait work_info
  | DispatchAndStream work_info
  | CompleteItem string work_result
  | FailItem string string "json list"
  | Progress string progress_data
  | EngineResumed string "string option"
  | EngineStalled string "string option"
  | DirectTimer string int
  | StreamTimer string int
  | TimeoutCheck
  | ClearBinding string
  | DispatchTimer
  | HealthTimer
  | SummaryTimer
  | Cancel string string
  | Reorder string direction

fun hub_apply :: "hub_env \<Rightarrow> hub_event \<Rightarrow> coord \<Rightarrow> coord" where
  "hub_apply env (Register bi session) s = snd (registerBeacon env bi session s)"
| "hub_apply env (Deregister b) s = snd (deregisterBeacon b s)"
| "hub_apply env (Heartbeat b) s = snd (heartbeat env b s)"
| "hub_apply env (Poll b) s = snd (pollForWork env b s)"
| "hub_apply env (Enqueue q) s = snd (enqueueWorkItem env q s)"
| "hub_apply env (DispatchAndWait q) s = snd (dispatchAndWait env q s)"
| "hub_apply env (DispatchAndStream q) s = snd (dispatchAndStream env q s)"
| "hub_apply env (CompleteItem h r) s = snd (completeWorkItem env h r s)"
| "hub_apply env (FailItem h msg lg) s = snd (failWorkItem env h msg lg s)"
| "hub_apply env (Progress h p) s = snd (updateProgress env h p s)"
| "hub_apply env (EngineResumed h err) s = snd (resumeFinished h err s)"
| "hub_apply env (EngineStalled h err) s = snd (stallFinished h err s)"
| "hub_apply env (DirectTimer h ms) s = directTimeout env h ms s"
| "hub_apply env (StreamTimer h ms) s = streamTimeout env h ms s"
| "hub_apply env TimeoutCheck s = state_of (checkTimeouts env s)"
| "hub_apply env (ClearBinding k) s = snd (clearAffinityBinding env k s)"
| "hub_apply env DispatchTimer s = dispatchTick env s"
| "hub_apply env HealthTimer s = state_of (healthTick env s)"
| "hub_apply env SummaryTimer s = summaryTick env s"
| "hub_apply env (Cancel h reason) s = snd (requestCancel env h reason s)"
| "hub_apply env (Reorder h d) s = snd (reorderWorkItem env h d s)"

text \<open>
  The only guard is on registrations (\<open>register_ok\<close>): the code itself accepts a lower limit and
  an id that is taken, and both break the bound below.
\<close>

fun admissible :: "hub_env \<Rightarrow> hub_event \<Rightarrow> coord \<Rightarrow> bool" where
  "admissible env (Register bi session) s = register_ok env bi s"
| "admissible env ev s = True"

text \<open>The clock does not run backwards, and the table of action defaults is fixed.\<close>

definition later :: "hub_env \<Rightarrow> hub_env \<Rightarrow> bool" where
  "later env env' \<longleftrightarrow> Now env \<le> Now env' \<and> ActionDefaults env' = ActionDefaults env"

type_synonym hub_state = "hub_env \<times> coord"

inductive hub_step :: "hub_state \<Rightarrow> hub_event \<Rightarrow> hub_state \<Rightarrow> bool" where
  hub_step: "later env env' \<Longrightarrow> admissible env' ev s \<Longrightarrow>
    hub_step (env, s) ev (env', hub_apply env' ev s)"

inductive_simps hub_step_iff: "hub_step (env, s) ev (env', s')"
inductive_cases hub_stepE: "hub_step x ev y"

text \<open>
  A hub begins empty, or with what it restores from the journal of an earlier run.
\<close>

definition hub_init :: "hub_state \<Rightarrow> bool" where
  "hub_init x \<longleftrightarrow> snd x = initial_coord \<or>
     (\<exists>now j. hub_journal j \<and> snd x = restoreFromJournal now (Some j) initial_coord)"

definition hub_inv :: "hub_state \<Rightarrow> bool" where
  "hub_inv x \<longleftrightarrow> slot_inv (fst x) {} (snd x)"

abbreviation hub_reach :: "hub_env \<Rightarrow> coord \<Rightarrow> bool" where
  "hub_reach env s \<equiv> reach hub_init hub_step (env, s)"

lemma slot_inv_initial: "slot_inv env X initial_coord"
  by (simp add: slot_inv_def slots_def initial_coord_def)

lemma slot_inv_restored:
  assumes "hub_journal j"
  shows "slot_inv env X (restoreFromJournal now (Some j) initial_coord)"
proof -
  let ?q = "merge_new item_of_json (fst (replay now j)) []"
  have "item_ok env X [] h w" if "oget ?q h = Some w" for h w
  proof -
    from that obtain d where d: "oget (fst (replay now j)) h = Some d" "w = item_of_json d"
      by (auto simp: merge_new_get)
    with replay_hub [OF assms] have "hub_item h d" by blast
    then have "WorkItemHash w = h" "lastEvent w = None"
      by (simp_all add: d hub_item_def item_of_json_def lastEvent_def time_field_def)
    moreover have "\<not> in_flight d"
      using d(1) by (cases "JInitialized j") (auto simp: replay_get reset_item_fields, simp add: replay_def)
    with status_in_flight [of d] have "\<not> placed (Status w)" by (auto simp: d placed_def)
    ultimately show ?thesis by (simp add: item_ok_def stale_def)
  qed
  then show ?thesis
    by (simp add: slot_inv_def slots_def restoreFromJournal_def Let_def initial_coord_def merge_new_owf)
qed

lemma stale_later: "stale env w \<Longrightarrow> later env env' \<Longrightarrow> stale env' w"
  by (auto simp: stale_def later_def stallThreshold_def heartbeatExpected_def schedulerDefaults_def
      split: option.splits)

lemma slot_inv_later:
  assumes "slot_inv env X s" "later env env'"
  shows "slot_inv env' X s"
proof -
  have "item_ok env X bs h w \<Longrightarrow> item_ok env' X bs h w" for bs h w
    using stale_later [OF _ assms(2), of w] by (auto simp: item_ok_def)
  with assms(1) show ?thesis by (simp add: slot_inv_def slots_def)
qed

lemma hub_apply_slots:
  "slot_inv env {} s \<Longrightarrow> admissible env ev s \<Longrightarrow> slot_inv env {} (hub_apply env ev s)"
  by (cases ev) (simp_all add: slot_rules poll_slots timer_slots register_slots)

interpretation hub: invariant_machine hub_init hub_step hub_inv
proof
  fix x
  assume "hub_init x"
  then show "hub_inv x"
    by (auto simp: hub_init_def hub_inv_def slot_inv_initial slot_inv_restored)
next
  fix x e x'
  assume "hub_inv x" "hub_step x e x'"
  then show "hub_inv x'"
    by (auto simp: hub_inv_def elim!: hub_stepE intro!: hub_apply_slots dest: slot_inv_later)
qed

lemma reach_slot_inv: "hub_reach env s \<Longrightarrow> slot_inv env {} s"
  using hub.reach_inv by (fastforce simp: hub_inv_def)

lemma load_running: "load {} b (WorkQueue s) = runningCountForBeacon b s"
  unfolding load_def runningCountForBeacon_def by (simp add: runs_on_def [abs_def] conj_commute)

text \<open>Running a list of events from the initial state, for concrete runs.\<close>

fun hub_run :: "(hub_env \<times> hub_event) list \<Rightarrow> hub_state \<Rightarrow> hub_state" where
  "hub_run [] x = x"
| "hub_run ((env, ev) # es) x = hub_run es (env, hub_apply env ev (snd x))"

fun run_ok :: "(hub_env \<times> hub_event) list \<Rightarrow> hub_state \<Rightarrow> bool" where
  "run_ok [] x = True"
| "run_ok ((env, ev) # es) x \<longleftrightarrow> later (fst x) env \<and> admissible env ev (snd x) \<and>
     run_ok es (env, hub_apply env ev (snd x))"

lemma run_reach: "reach hub_init hub_step x \<Longrightarrow> run_ok es x \<Longrightarrow> reach hub_init hub_step (hub_run es x)"
proof (induction es arbitrary: x)
  case (Cons e es)
  obtain env ev where e: "e = (env, ev)" by (rule prod.exhaust)
  have "hub_step x ev (env, hub_apply env ev (snd x))"
    using Cons.prems e by (cases x) (simp add: hub_step_iff)
  with Cons e show ?case by (auto intro: reach_step)
qed simp

lemma run_initial: "run_ok es (env, initial_coord) \<Longrightarrow>
    reach hub_init hub_step (hub_run es (env, initial_coord))"
  by (rule run_reach) (auto intro: reach_init simp: hub_init_def)

subsection \<open>A concrete run\<close>

text \<open>
  A hub with no optional service, a beacon that takes two items at a time, and runs used to
  evaluate the properties on.
\<close>

definition plain_env :: "jstime \<Rightarrow> hub_env" where
  "plain_env t = \<lparr>Now = t, WorkItemTimeoutSetting = 0, AffinityTTLSetting = 0,
     HeartbeatTimeoutSetting = 0, HubInstanceID = ''hub'', PushHandler = None, FleetFilter = None,
     ActionDefaults = None, JournalOn = False, BridgeOn = False, SchedulerOn = False,
     EngineOn = False, WaitingNodes = (\<lambda>_. None), HypervisorStateOn = False,
     ReachabilityOn = False, FleetOn = False, RegistryHas = None\<rparr>"

definition shell_info :: "int \<Rightarrow> beacon_info" where
  "shell_info n = \<lparr>bName = ''b'', bCapabilities = Some [CapName ''Shell''], bMaxConcurrent = n,
     bTags = None, bContexts = None, bBindAddresses = None, bHostID = [], bSharedMounts = None,
     bActionSchemas = [], bOperations = []\<rparr>"

definition shell_work :: "string \<Rightarrow> work_info" where
  "shell_work k = \<lparr>qRunHash = [], qRunID = [], qNodeHash = [], qOperationHash = [],
     qCapability = [], qAction = [], qSettings = [], qAffinityKey = k,
     qRequireAffinityMatch = True, qTimeoutMs = 0, qEnqueuedAt = None, qPriority = None\<rparr>"

abbreviation boot :: hub_state where
  "boot \<equiv> (plain_env 0, initial_coord)"

definition demo_events :: "(hub_env \<times> hub_event) list" where
  "demo_events =
     [(plain_env 5, Register (shell_info 2) None),
      (plain_env 6, Enqueue (shell_work ''b'')),
      (plain_env 7, Poll ''bcn-b-5'')]"

definition demo_state :: coord where
  "demo_state = snd (hub_run demo_events boot)"

lemma later_plain [simp]: "later (plain_env a) (plain_env b) \<longleftrightarrow> a \<le> b"
  by (simp add: later_def plain_env_def)

lemma demo_reach: "hub_reach (plain_env 7) demo_state"
proof -
  have "register_ok (plain_env 5) (shell_info 2) initial_coord" by code_simp
  then have "run_ok demo_events boot" by (simp add: demo_events_def)
  then have "reach hub_init hub_step (hub_run demo_events boot)" by (rule run_initial)
  then show ?thesis by (simp add: demo_state_def demo_events_def)
qed

end
