(* ===== verification/Admission.thy ===== *)
theory Admission
  imports HubTypes
begin

section \<open>Admission control: backpressure and the per-client token bucket\<close>

text \<open>
  \<open>Ultravisor-AdmissionPolicy.cjs\<close>. The two services it samples are parameters of \<open>evaluate\<close>: the
  coordinator's work items and the observer's beacon records, each \<open>None\<close> when the service is
  missing. Token counts are exact rationals. The broadcasts are collected in \<open>Announcements\<close>.
\<close>

record thresholds =
  MaxQueuedDepth :: int
  SoftQueuedDepth :: int
  MinFleetAliveRatio :: rat
  PerClientRPS :: rat
  PerClientBurst :: rat

definition DEFAULT_THRESHOLDS :: thresholds where
  "DEFAULT_THRESHOLDS = \<lparr>MaxQueuedDepth = 5000, SoftQueuedDepth = 3000,
     MinFleetAliveRatio = 1 / 2, PerClientRPS = 200, PerClientBurst = 500\<rparr>"

record token_bucket =
  Tokens :: rat
  LastRefillAt :: jstime

datatype mode = HealthyMode | DenyingMode

record admission =
  Thresholds :: thresholds
  ClientBuckets :: "token_bucket obj"
  Mode :: mode
  FirstDenyAt :: "jstime option"
  DenyCount :: nat
  Announcements :: "(string \<times> json obj) list"

definition initial_admission :: "thresholds \<Rightarrow> admission" where
  "initial_admission th = \<lparr>Thresholds = th, ClientBuckets = [], Mode = HealthyMode,
     FirstDenyAt = None, DenyCount = 0, Announcements = []\<rparr>"

subsection \<open>Sampling\<close>

text \<open>A beacon record of the observer; a time that does not parse is a plain string.\<close>

record observed_beacon =
  oDeregisteredAt :: json
  oLastHeartbeatAt :: json
  oLastWSCloseAt :: json
  oRegisteredAt :: json
  oLiveness :: string

definition date_parse :: "json \<Rightarrow> jstime option" where
  "date_parse v = (case v of JTime t \<Rightarrow> Some t | _ \<Rightarrow> None)"

definition json_or :: "json \<Rightarrow> json \<Rightarrow> json" where
  "json_or a b = (if truthy a then a else b)"

definition currencyMs :: int where
  "currencyMs = 300000"

text \<open>The records the fleet ratio counts: not deregistered, and alive or seen within five minutes.\<close>

definition counted :: "jstime \<Rightarrow> observed_beacon \<Rightarrow> bool" where
  "counted now r \<longleftrightarrow> \<not> truthy (oDeregisteredAt r) \<and>
     (let seen = json_or (oLastHeartbeatAt r) (json_or (oLastWSCloseAt r) (oRegisteredAt r))
      in \<not> (truthy seen \<and> (case date_parse seen of None \<Rightarrow> False
              | Some t \<Rightarrow> oLiveness r \<noteq> ''Alive'' \<and> currencyMs < now - t)))"

record fleet_sample =
  QueuedDepth :: nat
  InFlight :: nat
  AliveBeacons :: nat
  TotalBeacons :: nat
  FleetAliveRatio :: rat

definition sample :: "jstime \<Rightarrow> work_item list option \<Rightarrow> observed_beacon list option \<Rightarrow> fleet_sample" where
  "sample now items obs =
     (let ws = (case items of None \<Rightarrow> [] | Some xs \<Rightarrow> xs);
          rs = filter (counted now) (case obs of None \<Rightarrow> [] | Some xs \<Rightarrow> xs);
          alive = length (filter (\<lambda>r. oLiveness r = ''Alive'') rs)
      in \<lparr>QueuedDepth = length (filter (\<lambda>w. Status w = Pending \<or> Status w = Queued \<or> Status w = Assigned) ws),
          InFlight = length (filter (\<lambda>w. Status w = Dispatched \<or> Status w = Running) ws),
          AliveBeacons = alive, TotalBeacons = length rs,
          FleetAliveRatio = (if length rs = 0 then 1 else of_nat alive / of_nat (length rs))\<rparr>)"

subsection \<open>Clients and tokens\<close>

record request =
  ReqSessionID :: string
  ReqRemoteAddress :: string
  ReqForwardedFor :: string

definition trim :: "string \<Rightarrow> string" where
  "trim s = rev (dropWhile is_blank (rev (dropWhile is_blank s)))"

definition clientKey :: "request \<Rightarrow> string" where
  "clientKey r =
     (if ReqSessionID r \<noteq> [] \<and> ReqSessionID r \<noteq> ''anonymous'' then ''session:'' @ ReqSessionID r
      else (let ip = (if ReqRemoteAddress r = [] \<and> ReqForwardedFor r \<noteq> []
                      then trim (hd (split_on (CHR '','') (ReqForwardedFor r)))
                      else ReqRemoteAddress r)
            in ''ip:'' @ str_or ip ''unknown''))"

text \<open>The bucket after its refill: created full, then filled at the rate up to the burst.\<close>

definition refilled :: "thresholds \<Rightarrow> jstime \<Rightarrow> token_bucket option \<Rightarrow> token_bucket" where
  "refilled th now bo =
     (let b = (case bo of None \<Rightarrow> \<lparr>Tokens = PerClientBurst th, LastRefillAt = now\<rparr> | Some b \<Rightarrow> b)
      in if 0 < now - LastRefillAt b
         then \<lparr>Tokens = min (PerClientBurst th)
                  (Tokens b + of_int (now - LastRefillAt b) / 1000 * PerClientRPS th),
               LastRefillAt = now\<rparr>
         else b)"

text \<open>The answer: a token, or the seconds to wait (\<open>None\<close> is the infinity of a zero rate).\<close>

datatype token_answer = Allowed | NotAllowed "int option"

definition consumeToken :: "jstime \<Rightarrow> string \<Rightarrow> admission \<Rightarrow> token_answer \<times> admission" where
  "consumeToken now c a =
     (let th = Thresholds a; b = refilled th now (oget (ClientBuckets a) c)
      in if 1 \<le> Tokens b
         then (Allowed, a\<lparr>ClientBuckets := oset c (b\<lparr>Tokens := Tokens b - 1\<rparr>) (ClientBuckets a)\<rparr>)
         else (NotAllowed (if PerClientRPS th = 0 then None
                           else Some (max 1 \<lceil>(1 - Tokens b) / PerClientRPS th\<rceil>)),
               a\<lparr>ClientBuckets := oset c b (ClientBuckets a)\<rparr>))"

subsection \<open>The decision\<close>

datatype deny_reason = QueuedDepthExceeded | FleetUnhealthy | ClientRateLimit

fun reason_name :: "deny_reason \<Rightarrow> string" where
  "reason_name QueuedDepthExceeded = ''queued_depth_exceeded''"
| "reason_name FleetUnhealthy = ''fleet_unhealthy''"
| "reason_name ClientRateLimit = ''client_rate_limit''"

datatype decision = Admitted | Denied deny_reason "int option" "json obj"

definition JSeconds :: "int option \<Rightarrow> json" where
  "JSeconds s = (case s of None \<Rightarrow> JNull | Some n \<Rightarrow> JInt n)"

definition deny ::
  "jstime \<Rightarrow> deny_reason \<Rightarrow> string \<Rightarrow> int option \<Rightarrow> json obj \<Rightarrow> fleet_sample option \<Rightarrow> admission \<Rightarrow>
     decision \<times> admission" where
  "deny now reason c retry detail sm a =
     (Denied reason retry detail,
      a\<lparr>DenyCount := Suc (DenyCount a), Mode := DenyingMode,
        FirstDenyAt := (if Mode a = DenyingMode then FirstDenyAt a else Some now),
        Announcements := Announcements a @
          [(''observer.admission.denied'',
            [(''Reason'', JStr (reason_name reason)), (''ClientID'', JStr c),
             (''RetryAfterSeconds'', JSeconds retry), (''At'', JTime now)]
            @ (case sm of None \<Rightarrow> []
               | Some x \<Rightarrow> [(''QueuedDepth'', JInt (int (QueuedDepth x))),
                           (''FleetAliveRatio'', JNum (FleetAliveRatio x))]))]\<rparr>)"

text \<open>The two backpressure gates of an enqueue, in the code's order.\<close>

definition backpressure :: "thresholds \<Rightarrow> fleet_sample \<Rightarrow> (deny_reason \<times> int \<times> json obj) option" where
  "backpressure th sm =
     (if MaxQueuedDepth th \<le> int (QueuedDepth sm)
      then Some (QueuedDepthExceeded, 30,
             [(''QueuedDepth'', JInt (int (QueuedDepth sm))), (''MaxQueuedDepth'', JInt (MaxQueuedDepth th))])
      else if SoftQueuedDepth th \<le> int (QueuedDepth sm) \<and> 0 < TotalBeacons sm \<and>
              FleetAliveRatio sm < MinFleetAliveRatio th
      then Some (FleetUnhealthy, 15,
             [(''AliveBeacons'', JInt (int (AliveBeacons sm))), (''TotalBeacons'', JInt (int (TotalBeacons sm))),
              (''FleetAliveRatio'', JNum (FleetAliveRatio sm)),
              (''MinFleetAliveRatio'', JNum (MinFleetAliveRatio th))])
      else None)"

text \<open>\<open>enq\<close> is \<open>pCategory !== 'readonly'\<close>.\<close>

definition evaluate ::
  "jstime \<Rightarrow> work_item list option \<Rightarrow> observed_beacon list option \<Rightarrow> request \<Rightarrow> bool \<Rightarrow> admission \<Rightarrow>
     decision \<times> admission" where
  "evaluate now items obs req enq a =
     (let c = clientKey req; sm = sample now items obs in
      (case (if enq then backpressure (Thresholds a) sm else None) of
         Some (reason, retry, detail) \<Rightarrow> deny now reason c (Some retry) detail (Some sm) a
       | None \<Rightarrow>
           (case consumeToken now c a of
              (NotAllowed retry, a1) \<Rightarrow>
                deny now ClientRateLimit c retry [(''ClientID'', JStr c)] None a1
            | (Allowed, a1) \<Rightarrow>
                (Admitted,
                 if Mode a1 = DenyingMode \<and> enq
                 then a1\<lparr>Mode := HealthyMode,
                         Announcements := Announcements a1 @
                           [(''observer.admission.recovered'',
                             [(''ClientID'', JStr c), (''At'', JTime now)])]\<rparr>
                 else a1))))"

subsection \<open>Properties\<close>

lemma consume_frame [simp]:
  "Thresholds (snd (consumeToken now c a)) = Thresholds a"
  "Mode (snd (consumeToken now c a)) = Mode a"
  "Announcements (snd (consumeToken now c a)) = Announcements a"
  "FirstDenyAt (snd (consumeToken now c a)) = FirstDenyAt a"
  by (simp_all add: consumeToken_def Let_def)

lemma consume_buckets:
  "oget (ClientBuckets (snd (consumeToken now c a))) c' =
    (if c' = c
     then (let b = refilled (Thresholds a) now (oget (ClientBuckets a) c)
           in Some (if 1 \<le> Tokens b then b\<lparr>Tokens := Tokens b - 1\<rparr> else b))
     else oget (ClientBuckets a) c')"
  by (simp add: consumeToken_def Let_def obj_simps)

lemma consume_allowed:
  "fst (consumeToken now c a) = Allowed \<longleftrightarrow>
    1 \<le> Tokens (refilled (Thresholds a) now (oget (ClientBuckets a) c))"
  by (simp add: consumeToken_def Let_def)

text \<open>
  When an enqueue is admitted: exactly when the queue is below its hard limit, the fleet is not
  both loaded (soft limit) and mostly dead, and the client's bucket holds a token after its refill.
  A read-only request only needs the token. A denial by backpressure takes no token.
\<close>

theorem admitted_iff:
  "(fst (evaluate now items obs req enq a) = Admitted \<longleftrightarrow>
     (enq \<longrightarrow> int (QueuedDepth (sample now items obs)) < MaxQueuedDepth (Thresholds a) \<and>
        \<not> (SoftQueuedDepth (Thresholds a) \<le> int (QueuedDepth (sample now items obs)) \<and>
           0 < TotalBeacons (sample now items obs) \<and>
           FleetAliveRatio (sample now items obs) < MinFleetAliveRatio (Thresholds a))) \<and>
     1 \<le> Tokens (refilled (Thresholds a) now (oget (ClientBuckets a) (clientKey req)))) \<and>
   (enq \<and> backpressure (Thresholds a) (sample now items obs) \<noteq> None \<longrightarrow>
     ClientBuckets (snd (evaluate now items obs req enq a)) = ClientBuckets a)"
proof -
  let ?c = "clientKey req"
  let ?bp = "backpressure (Thresholds a) (sample now items obs)"
  have bp: "?bp = None \<longleftrightarrow> int (QueuedDepth (sample now items obs)) < MaxQueuedDepth (Thresholds a) \<and>
      \<not> (SoftQueuedDepth (Thresholds a) \<le> int (QueuedDepth (sample now items obs)) \<and>
         0 < TotalBeacons (sample now items obs) \<and>
         FleetAliveRatio (sample now items obs) < MinFleetAliveRatio (Thresholds a))"
    by (auto simp: backpressure_def)
  obtain r a1 where t: "consumeToken now ?c a = (r, a1)" by (rule prod.exhaust)
  then have r: "r = Allowed \<longleftrightarrow> 1 \<le> Tokens (refilled (Thresholds a) now (oget (ClientBuckets a) ?c))"
    using consume_allowed [of now ?c a] by simp
  show ?thesis
    unfolding bp [symmetric] r [symmetric]
    using t by (cases enq; cases ?bp; cases r) (auto simp: evaluate_def Let_def deny_def)
qed

text \<open>
  The mode follows the decisions: a denial of any kind turns it to Denying and announces itself
  once; an admitted enqueue turns it to Healthy and announces the recovery exactly when it was
  Denying; an admitted read-only request changes and announces nothing. \<open>FirstDenyAt\<close> is the time
  the current denying spell began.
\<close>

theorem mode_follows_decision:
  assumes "evaluate now items obs req enq a = (d, a')"
  shows "Mode a' = (if d \<noteq> Admitted then DenyingMode else if enq then HealthyMode else Mode a) \<and>
    FirstDenyAt a' = (if d \<noteq> Admitted \<and> Mode a = HealthyMode then Some now else FirstDenyAt a) \<and>
    map fst (Announcements a') = map fst (Announcements a) @
      (if d \<noteq> Admitted then [''observer.admission.denied'']
       else if enq \<and> Mode a = DenyingMode then [''observer.admission.recovered''] else [])"
proof -
  obtain r a1 where t: "consumeToken now (clientKey req) a = (r, a1)" by (rule prod.exhaust)
  have frame: "Mode a1 = Mode a" "Announcements a1 = Announcements a" "FirstDenyAt a1 = FirstDenyAt a"
    using consume_frame [of now "clientKey req" a] t by simp_all
  show ?thesis
  proof (cases "if enq then backpressure (Thresholds a) (sample now items obs) else None")
    case None
    with assms t frame show ?thesis
      by (cases r; cases "Mode a") (auto simp: evaluate_def Let_def deny_def)
  next
    case (Some x)
    with assms show ?thesis
      by (cases x; cases "Mode a") (auto simp: evaluate_def Let_def deny_def split: if_splits)
  qed
qed

subsection \<open>The rate bound\<close>

text \<open>
  The tokens a client would find at a time, and the grants it gets over a sequence of requests
  of all clients.
\<close>

definition level :: "jstime \<Rightarrow> string \<Rightarrow> admission \<Rightarrow> rat" where
  "level t c a = Tokens (refilled (Thresholds a) t (oget (ClientBuckets a) c))"

fun grants :: "string \<Rightarrow> (jstime \<times> string) list \<Rightarrow> admission \<Rightarrow> nat" where
  "grants c [] a = 0"
| "grants c ((t, k) # rs) a =
     (if k = c \<and> fst (consumeToken t k a) = Allowed then 1 else 0) + grants c rs (snd (consumeToken t k a))"

definition buckets_ok :: "admission \<Rightarrow> bool" where
  "buckets_ok a \<longleftrightarrow> 0 \<le> PerClientRPS (Thresholds a) \<and> 0 \<le> PerClientBurst (Thresholds a) \<and>
     (\<forall>c b. oget (ClientBuckets a) c = Some b \<longrightarrow> 0 \<le> Tokens b \<and> Tokens b \<le> PerClientBurst (Thresholds a))"

text \<open>The tokens gained over some milliseconds.\<close>

definition gain :: "thresholds \<Rightarrow> int \<Rightarrow> rat" where
  "gain th d = of_int d / 1000 * PerClientRPS th"

lemma gain_add: "gain th (x + y) = gain th x + gain th y"
  by (simp add: gain_def field_simps)

lemma gain_mono: "0 \<le> PerClientRPS th \<Longrightarrow> x \<le> y \<Longrightarrow> gain th x \<le> gain th y"
  unfolding gain_def by (intro mult_right_mono divide_right_mono) simp_all

lemma gain_nonneg: "0 \<le> PerClientRPS th \<Longrightarrow> 0 \<le> x \<Longrightarrow> 0 \<le> gain th x"
  by (simp add: gain_def)

lemma refilled_tokens:
  "Tokens (refilled th t (Some b)) =
    (if LastRefillAt b < t then min (PerClientBurst th) (Tokens b + gain th (t - LastRefillAt b))
     else Tokens b)"
  "Tokens (refilled th t None) = PerClientBurst th"
  by (simp_all add: refilled_def gain_def)

lemma refilled_again: "refilled th t (Some (b\<lparr>Tokens := x\<rparr>)) = b\<lparr>Tokens := x\<rparr>"
  if "b = refilled th t bo" for b
  using that by (simp add: refilled_def Let_def split: option.split)

lemma refilled_bounds:
  assumes "buckets_ok a"
  shows "0 \<le> Tokens (refilled (Thresholds a) t (oget (ClientBuckets a) c))"
    "Tokens (refilled (Thresholds a) t (oget (ClientBuckets a) c)) \<le> PerClientBurst (Thresholds a)"
  using assms by (auto simp: refilled_def buckets_ok_def Let_def split: option.split)

lemma level_bounds:
  assumes "buckets_ok a"
  shows "0 \<le> level t c a" "level t c a \<le> PerClientBurst (Thresholds a)"
  using refilled_bounds [OF assms] by (simp_all add: level_def)

lemma consume_ok: "buckets_ok a \<Longrightarrow> buckets_ok (snd (consumeToken t c a))"
  using refilled_bounds [of a t c]
  by (auto simp: buckets_ok_def consume_buckets Let_def split: if_splits)

lemma level_consume:
  "level t c (snd (consumeToken t k a)) = level t c a -
    (if k = c \<and> fst (consumeToken t k a) = Allowed then 1 else 0)"
proof (cases "k = c")
  case True
  define b where "b = refilled (Thresholds a) t (oget (ClientBuckets a) c)"
  note again = refilled_again [OF b_def]
  have "refilled (Thresholds a) t (Some b) = b"
    using again [of "Tokens b"] by simp
  with again [of "Tokens b - 1"] True show ?thesis
    by (simp add: level_def consume_buckets consume_allowed Let_def b_def [symmetric])
next
  case False
  then show ?thesis by (simp add: level_def consume_buckets)
qed

lemma level_later:
  assumes "buckets_ok a" and "t0 \<le> t"
  shows "level t c a \<le> level t0 c a + gain (Thresholds a) (t - t0)"
proof -
  let ?g = "gain (Thresholds a)"
  have r: "0 \<le> PerClientRPS (Thresholds a)" using assms(1) by (simp add: buckets_ok_def)
  have step: "0 \<le> ?g (t - t0)" using r assms(2) by (simp add: gain_nonneg)
  show ?thesis
  proof (cases "oget (ClientBuckets a) c")
    case None
    with step show ?thesis by (simp add: level_def refilled_tokens)
  next
    case (Some b)
    consider "t \<le> LastRefillAt b" | "t0 \<le> LastRefillAt b" "LastRefillAt b < t" | "LastRefillAt b < t0"
      by linarith
    then show ?thesis
    proof cases
      case 1
      with Some assms(2) step show ?thesis by (simp add: level_def refilled_tokens)
    next
      case 2
      have "?g (t - LastRefillAt b) \<le> ?g (t - t0)" using 2 r by (intro gain_mono) simp_all
      with 2 Some show ?thesis by (simp add: level_def refilled_tokens)
    next
      case 3
      have "?g (t - LastRefillAt b) = ?g (t0 - LastRefillAt b) + ?g (t - t0)"
        using gain_add [of "Thresholds a" "t0 - LastRefillAt b" "t - t0"] by simp
      with 3 Some assms(2) step show ?thesis by (simp add: level_def refilled_tokens)
    qed
  qed
qed

lemma grants_level:
  assumes "buckets_ok a" and "sorted (t0 # map fst rs @ [T])"
  shows "of_nat (grants c rs a) \<le> level t0 c a + gain (Thresholds a) (T - t0)"
  using assms
proof (induction rs arbitrary: t0 a)
  case Nil
  then have "0 \<le> gain (Thresholds a) (T - t0)" by (simp add: buckets_ok_def gain_nonneg)
  with level_bounds(1) [OF Nil(1), of t0 c] show ?case by simp
next
  case (Cons q rs)
  obtain t k where q: "q = (t, k)" by (rule prod.exhaust)
  let ?a = "snd (consumeToken t k a)" and ?g = "gain (Thresholds a)"
  define one where "one = (if k = c \<and> fst (consumeToken t k a) = Allowed then 1 else 0 :: nat)"
  have "of_nat (grants c rs ?a) \<le> level t c ?a + ?g (T - t)"
    using Cons.IH [OF consume_ok [OF Cons.prems(1)], of t t k] Cons.prems(2) q by simp
  moreover have "level t c ?a = level t c a - of_nat one"
    unfolding one_def level_consume by (simp only: of_nat_0 of_nat_1 if_distrib [of of_nat])
  moreover have "level t c a \<le> level t0 c a + ?g (t - t0)"
    using Cons.prems q by (intro level_later) simp_all
  moreover have "?g (T - t0) = ?g (t - t0) + ?g (T - t)"
    using gain_add [of "Thresholds a" "t - t0" "T - t"] by simp
  moreover have "grants c (q # rs) a = one + grants c rs ?a" by (simp add: q one_def)
  ultimately show ?case by simp
qed

text \<open>
  C18. The rate bound: over any sequence of requests of all clients between two times, in time order,
  the token bucket grants one client at most its burst plus its rate times the elapsed seconds,
  whatever the other clients do and however the requests are spaced.
\<close>

theorem grants_bounded:
  assumes "buckets_ok a" and "sorted (t0 # map fst rs @ [T])"
  shows "of_nat (grants c rs a) \<le> PerClientBurst (Thresholds a) +
    of_int (T - t0) / 1000 * PerClientRPS (Thresholds a)"
  using grants_level [OF assms, of c] level_bounds(2) [OF assms(1), of t0 c]
  unfolding gain_def by linarith

text \<open>
  Clients are isolated: a request of one client leaves the tokens of every other client as they
  were, so a client that is out of tokens does not cost anybody else one.
\<close>

theorem clients_isolated:
  assumes "c \<noteq> clientKey req"
  shows "oget (ClientBuckets (snd (evaluate now items obs req enq a))) c = oget (ClientBuckets a) c"
proof -
  obtain r a1 where t: "consumeToken now (clientKey req) a = (r, a1)" by (rule prod.exhaust)
  have "oget (ClientBuckets a1) c = oget (ClientBuckets a) c"
    using consume_buckets [of now "clientKey req" a c] t assms by simp
  with t show ?thesis
    by (cases "if enq then backpressure (Thresholds a) (sample now items obs) else None"; cases r)
      (auto simp: evaluate_def Let_def deny_def)
qed

text \<open>
  The retry hint is honest: a client that is told to come back after some seconds, and that
  sends nothing meanwhile, is granted a token when it comes back then or later.
\<close>

theorem retry_after_suffices:
  assumes "consumeToken now c a = (NotAllowed (Some n), a1)"
    and "0 < PerClientRPS (Thresholds a)" and "1 \<le> PerClientBurst (Thresholds a)"
    and "oget (ClientBuckets a2) c = oget (ClientBuckets a1) c" and "Thresholds a2 = Thresholds a"
    and "\<And>b. oget (ClientBuckets a) c = Some b \<Longrightarrow> LastRefillAt b \<le> now"
    and "now + 1000 * n \<le> later"
  shows "fst (consumeToken later c a2) = Allowed"
proof -
  let ?th = "Thresholds a" and ?r = "PerClientRPS (Thresholds a)"
  define b where "b = refilled ?th now (oget (ClientBuckets a) c)"
  from assms(1) have out: "Tokens b < 1" and n: "n = max 1 \<lceil>(1 - Tokens b) / ?r\<rceil>"
    and a1: "oget (ClientBuckets a1) c = Some b"
    by (auto simp: consumeToken_def Let_def b_def obj_simps split: if_splits)
  have last: "LastRefillAt b \<le> now"
    using assms(6) by (auto simp: b_def refilled_def Let_def split: option.split)
  have "(1 - Tokens b) / ?r \<le> of_int \<lceil>(1 - Tokens b) / ?r\<rceil>" by (rule le_of_int_ceiling)
  also have "\<dots> \<le> of_int n" unfolding n by simp
  finally have "(1 - Tokens b) / ?r \<le> of_int n" .
  then have "1 - Tokens b \<le> of_int n * ?r" using assms(2) by (simp add: pos_divide_le_eq)
  also have "of_int n * ?r = gain ?th (1000 * n)" by (simp add: gain_def)
  also have "\<dots> \<le> gain ?th (later - LastRefillAt b)"
    using assms(2,7) last by (intro gain_mono) simp_all
  finally have "1 \<le> Tokens b + gain ?th (later - LastRefillAt b)" by simp
  moreover have "LastRefillAt b < later" using assms(7) last n by linarith
  ultimately show ?thesis
    using assms(3-5) a1 by (simp add: consume_allowed refilled_tokens)
qed

subsection \<open>Evaluated requests\<close>

definition session_request :: request where
  "session_request = \<lparr>ReqSessionID = ''s'', ReqRemoteAddress = [], ReqForwardedFor = []\<rparr>"

abbreviation fresh_policy :: admission where
  "fresh_policy \<equiv> initial_admission DEFAULT_THRESHOLDS"

text \<open>A policy that admits nothing: its hard limit is zero.\<close>

abbreviation closed_policy :: admission where
  "closed_policy \<equiv> initial_admission (DEFAULT_THRESHOLDS\<lparr>MaxQueuedDepth := 0\<rparr>)"

theorem admitted_iff_witness:
  "fst (evaluate 7 None None session_request True fresh_policy) = Admitted \<and>
   fst (evaluate 7 None None session_request True closed_policy) \<noteq> Admitted"
  using admitted_iff [of 7 None None session_request True fresh_policy]
    admitted_iff [of 7 None None session_request True closed_policy]
  by (simp add: sample_def initial_admission_def DEFAULT_THRESHOLDS_def refilled_def)

theorem mode_follows_decision_witness:
  "Mode (snd (evaluate 7 None None session_request True closed_policy)) = DenyingMode \<and>
   FirstDenyAt (snd (evaluate 7 None None session_request True closed_policy)) = Some 7"
proof -
  have "fst (evaluate 7 None None session_request True closed_policy) \<noteq> Admitted" by code_simp
  moreover have "Mode closed_policy = HealthyMode" by (simp add: initial_admission_def)
  ultimately show ?thesis
    using mode_follows_decision [OF prod.collapse [symmetric], of 7 None None session_request True closed_policy]
    by simp
qed

theorem grants_bounded_witness:
  "of_nat (grants ''c'' [(0, ''c''), (3, ''d''), (5, ''c'')] fresh_policy) \<le> (501 :: rat)"
proof -
  have "buckets_ok fresh_policy"
    by (simp add: buckets_ok_def initial_admission_def DEFAULT_THRESHOLDS_def)
  from grants_bounded [OF this, of 0 "[(0, ''c''), (3, ''d''), (5, ''c'')]" 5 "''c''"]
  show ?thesis by (simp add: initial_admission_def DEFAULT_THRESHOLDS_def)
qed

definition drained_policy :: admission where
  "drained_policy = fresh_policy\<lparr>ClientBuckets := [(''ip:a'', \<lparr>Tokens = 0, LastRefillAt = 7\<rparr>)]\<rparr>"

theorem clients_isolated_witness:
  "oget (ClientBuckets (snd (evaluate 9 None None session_request True drained_policy))) ''ip:a'' =
     Some \<lparr>Tokens = 0, LastRefillAt = 7\<rparr>"
proof -
  have "''ip:a'' \<noteq> clientKey session_request" by code_simp
  from clients_isolated [OF this, of 9 None None True drained_policy]
  show ?thesis by (simp add: drained_policy_def)
qed

theorem retry_after_suffices_witness:
  "fst (consumeToken 1007 ''ip:a'' (snd (consumeToken 7 ''ip:a'' drained_policy))) = Allowed"
proof -
  have told: "consumeToken 7 ''ip:a'' drained_policy =
      (NotAllowed (Some 1), snd (consumeToken 7 ''ip:a'' drained_policy))"
    by (simp add: consumeToken_def drained_policy_def initial_admission_def DEFAULT_THRESHOLDS_def
        refilled_def Let_def)
  show ?thesis
    by (rule retry_after_suffices [OF told])
      (simp_all add: drained_policy_def initial_admission_def DEFAULT_THRESHOLDS_def)
qed

end
