(* ===== verification/RunManager.thy ===== *)
theory RunManager
  imports HubTypes
begin

section \<open>Runs: minting, idempotency, end and cancellation\<close>

text \<open>
  \<open>Ultravisor-Beacon-RunManager.cjs\<close> and the run operations of the queue store
  (\<open>Ultravisor-Beacon-QueueStore.cjs\<close>: \<open>insertRun\<close>, \<open>getRunByRunID\<close>, \<open>getRunByIdempotencyKey\<close>,
  \<open>updateRunState\<close>). The run table is a list of rows in the order of their ids; the database
  behind it is assumed to insert at the end and to filter and sort as asked. The GUID is a random
  string, a parameter. The manager finds a store only when it is enabled (\<open>None\<close> otherwise).
\<close>

record run =
  GUIDBeaconRun :: string
  RunKeyID :: string
  IdempotencyKey :: string
  SubmitterTag :: string
  RunState :: string
  RunStartedAt :: jstime
  RunEndedAt :: "jstime option"
  RunCanceledAt :: "jstime option"
  RunCancelReason :: string
  RunMetadata :: "json obj"

record run_manager =
  RunHubID :: string
  RunCounter :: nat
  IdempotencyCache :: "run obj"
  RunStore :: "run list option"

definition initial_manager :: "string \<Rightarrow> run list option \<Rightarrow> run_manager" where
  "initial_manager hub store =
     \<lparr>RunHubID = hub, RunCounter = 0, IdempotencyCache = [], RunStore = store\<rparr>"

subsection \<open>The run table\<close>

definition getRunByRunID :: "run list \<Rightarrow> string \<Rightarrow> run option" where
  "getRunByRunID rows r = find (\<lambda>x. RunKeyID x = r) rows"

text \<open>The most recent row with the key wins.\<close>

definition getRunByIdempotencyKey :: "run list \<Rightarrow> string \<Rightarrow> run option" where
  "getRunByIdempotencyKey rows k =
     (if k = [] then None else find (\<lambda>x. IdempotencyKey x = k) (rev rows))"

definition insertRun :: "run list \<Rightarrow> run \<Rightarrow> run option \<times> run list" where
  "insertRun rows r = (getRunByRunID (rows @ [r]) (RunKeyID r), rows @ [r])"

definition patch_run :: "string \<Rightarrow> jstime option \<Rightarrow> jstime option \<Rightarrow> string \<Rightarrow> run \<Rightarrow> run" where
  "patch_run st ended canceled reason x = x\<lparr>RunState := st,
     RunEndedAt := opt_or ended (RunEndedAt x), RunCanceledAt := opt_or canceled (RunCanceledAt x),
     RunCancelReason := str_or reason (RunCancelReason x)\<rparr>"

text \<open>\<open>updateRunState\<close> reads the first row of that run and updates it by its row id.\<close>

fun updateRunState ::
  "string \<Rightarrow> string \<Rightarrow> jstime option \<Rightarrow> jstime option \<Rightarrow> string \<Rightarrow> run list \<Rightarrow> run list" where
  "updateRunState r st ended canceled reason [] = []"
| "updateRunState r st ended canceled reason (x # xs) =
     (if RunKeyID x = r then patch_run st ended canceled reason x # xs
      else x # updateRunState r st ended canceled reason xs)"

subsection \<open>The manager\<close>

text \<open>\<open>rn-hub-clock-counter\<close>\<close>

definition runID :: "string \<Rightarrow> jstime \<Rightarrow> nat \<Rightarrow> string" where
  "runID hub now n = ''rn-'' @ hub @ ''-'' @ show_int now @ ''-'' @ show_nat n"

definition mintRunID :: "jstime \<Rightarrow> run_manager \<Rightarrow> string \<times> run_manager" where
  "mintRunID now m =
     (let n = Suc (RunCounter m) in (runID (RunHubID m) now n, m\<lparr>RunCounter := n\<rparr>))"

record run_info =
  iIdempotencyKey :: string
  iSubmitterTag :: string
  iMetadata :: "json obj"

definition newRun :: "string \<Rightarrow> string \<Rightarrow> jstime \<Rightarrow> run_info \<Rightarrow> run" where
  "newRun guid r now i =
     \<lparr>GUIDBeaconRun = guid, RunKeyID = r, IdempotencyKey = iIdempotencyKey i,
      SubmitterTag = iSubmitterTag i, RunState = ''Active'', RunStartedAt = now, RunEndedAt = None,
      RunCanceledAt = None, RunCancelReason = [], RunMetadata = iMetadata i\<rparr>"

definition cache_run :: "string \<Rightarrow> run \<Rightarrow> run_manager \<Rightarrow> run_manager" where
  "cache_run k r m =
     (if k = [] then m else m\<lparr>IdempotencyCache := oset k r (IdempotencyCache m)\<rparr>)"

definition freshRun :: "string \<Rightarrow> jstime \<Rightarrow> run_info \<Rightarrow> run_manager \<Rightarrow> run \<times> run_manager" where
  "freshRun guid now i m =
     (let (rid, m1) = mintRunID now m; r0 = newRun guid rid now i in
      (case RunStore m1 of
         None \<Rightarrow> (r0, cache_run (iIdempotencyKey i) r0 m1)
       | Some rows \<Rightarrow>
           (let (saved, rows') = insertRun rows r0;
                r = (case saved of None \<Rightarrow> r0 | Some x \<Rightarrow> x)
            in (r, cache_run (iIdempotencyKey i) r (m1\<lparr>RunStore := Some rows'\<rparr>)))))"

definition startRun :: "string \<Rightarrow> jstime \<Rightarrow> run_info \<Rightarrow> run_manager \<Rightarrow> run \<times> run_manager" where
  "startRun guid now i m =
     (let k = iIdempotencyKey i in
      if k = [] then freshRun guid now i m
      else (case oget (IdempotencyCache m) k of
          Some r \<Rightarrow> (r, m)
        | None \<Rightarrow>
            (case RunStore m of
               None \<Rightarrow> freshRun guid now i m
             | Some rows \<Rightarrow>
                 (case getRunByIdempotencyKey rows k of
                    Some r \<Rightarrow> (r, cache_run k r m)
                  | None \<Rightarrow> freshRun guid now i m))))"

definition getRun :: "string \<Rightarrow> run_manager \<Rightarrow> run option" where
  "getRun r m = (case RunStore m of None \<Rightarrow> None | Some rows \<Rightarrow> getRunByRunID rows r)"

definition drop_key :: "string \<Rightarrow> run_manager \<Rightarrow> run_manager" where
  "drop_key k m =
     (if k = [] then m else m\<lparr>IdempotencyCache := odel k (IdempotencyCache m)\<rparr>)"

definition endRun :: "jstime \<Rightarrow> string \<Rightarrow> string \<Rightarrow> run_manager \<Rightarrow> bool \<times> run_manager" where
  "endRun now r final m =
     (case RunStore m of None \<Rightarrow> (False, m)
      | Some rows \<Rightarrow>
          (case getRunByRunID rows r of None \<Rightarrow> (False, m)
           | Some x \<Rightarrow> (True, drop_key (IdempotencyKey x)
               (m\<lparr>RunStore := Some (updateRunState r (str_or final ''Ended'') (Some now) None [] rows)\<rparr>))))"

definition cancelRun :: "jstime \<Rightarrow> string \<Rightarrow> string \<Rightarrow> run_manager \<Rightarrow> bool \<times> run_manager" where
  "cancelRun now r reason m =
     (case RunStore m of None \<Rightarrow> (False, m)
      | Some rows \<Rightarrow>
          (case getRunByRunID rows r of None \<Rightarrow> (False, m)
           | Some x \<Rightarrow> (True, drop_key (IdempotencyKey x)
               (m\<lparr>RunStore := Some (updateRunState r ''Canceled'' (Some now) (Some now) reason rows)\<rparr>))))"

subsection \<open>The identifiers are unique\<close>

text \<open>What follows the last dash.\<close>

definition last_part :: "string \<Rightarrow> string" where
  "last_part s = rev (takeWhile (\<lambda>c. c \<noteq> CHR ''-'') (rev s))"

lemma last_part_append: "CHR ''-'' \<notin> set b \<Longrightarrow> last_part (a @ CHR ''-'' # b) = b"
proof -
  assume "CHR ''-'' \<notin> set b"
  then have "takeWhile (\<lambda>c. c \<noteq> CHR ''-'') (rev b @ CHR ''-'' # rev a) = rev b"
    by (subst takeWhile_append2) auto
  then show ?thesis by (simp add: last_part_def)
qed

lemma runID_counter: "last_part (runID hub now n) = show_nat n"
  using last_part_append [of "show_nat n" "''rn-'' @ hub @ ''-'' @ show_int now"]
  by (simp add: runID_def show_nat_no_dash)

lemma runID_inj: "runID hub t m = runID hub' t' n \<Longrightarrow> m = n"
  by (metis runID_counter show_nat_inj)

lemma getRunByRunID_append:
  "r \<notin> RunKeyID ` set rows \<Longrightarrow> RunKeyID x = r \<Longrightarrow> getRunByRunID (rows @ [x]) r = Some x"
  unfolding getRunByRunID_def by (induction rows) auto

lemma update_keys: "map RunKeyID (updateRunState r st e c reason rows) = map RunKeyID rows"
  by (induction rows) (simp_all add: patch_run_def)

text \<open>
  The steps of a manager, and its invariant: the ids in the table are distinct, and each carries a
  counter that has been used.
\<close>

datatype run_event =
    StartRun string jstime run_info
  | EndRun jstime string string
  | CancelRun jstime string string

fun run_apply :: "run_event \<Rightarrow> run_manager \<Rightarrow> run_manager" where
  "run_apply (StartRun guid now i) m = snd (startRun guid now i m)"
| "run_apply (EndRun now r final) m = snd (endRun now r final m)"
| "run_apply (CancelRun now r reason) m = snd (cancelRun now r reason m)"

definition run_step :: "run_manager \<Rightarrow> run_event \<Rightarrow> run_manager \<Rightarrow> bool" where
  "run_step m e m' \<longleftrightarrow> m' = run_apply e m"

definition run_init :: "run_manager \<Rightarrow> bool" where
  "run_init m \<longleftrightarrow> (\<exists>hub. m = initial_manager hub (Some []))"

definition issued :: "nat \<Rightarrow> string \<Rightarrow> bool" where
  "issued n r \<longleftrightarrow> (\<exists>hub t k. r = runID hub t k \<and> k \<le> n)"

lemma issued_Suc: "issued n r \<Longrightarrow> issued (Suc n) r"
  unfolding issued_def by (metis le_SucI)

lemma issued_runID: "issued n (runID hub t k) \<longleftrightarrow> k \<le> n"
  by (auto simp: issued_def dest: runID_inj)

definition runs_ok :: "run_manager \<Rightarrow> bool" where
  "runs_ok m \<longleftrightarrow> (\<exists>rows. RunStore m = Some rows \<and> distinct (map RunKeyID rows) \<and>
     (\<forall>r \<in> set (map RunKeyID rows). issued (RunCounter m) r))"

lemma frame_run [simp]:
  "RunStore (cache_run k r m) = RunStore m" "RunCounter (cache_run k r m) = RunCounter m"
  "RunStore (drop_key k m) = RunStore m" "RunCounter (drop_key k m) = RunCounter m"
  by (simp_all add: cache_run_def drop_key_def)

lemma freshRun_ok:
  assumes "runs_ok m"
  shows "runs_ok (snd (freshRun guid now i m))"
proof -
  let ?id = "runID (RunHubID m) now (Suc (RunCounter m))"
  from assms obtain rows where rows: "RunStore m = Some rows" "distinct (map RunKeyID rows)"
    "\<forall>r \<in> set (map RunKeyID rows). issued (RunCounter m) r"
    by (auto simp: runs_ok_def)
  have new: "?id \<notin> set (map RunKeyID rows)"
    using rows(3) issued_runID [of "RunCounter m" _ _ "Suc (RunCounter m)"] by fastforce
  have store: "RunStore (snd (freshRun guid now i m)) = Some (rows @ [newRun guid ?id now i])"
    "RunCounter (snd (freshRun guid now i m)) = Suc (RunCounter m)"
    by (simp_all add: freshRun_def mintRunID_def Let_def rows(1) insertRun_def)
  then show ?thesis
    using rows(2,3) new by (auto simp: runs_ok_def newRun_def issued_runID intro: issued_Suc)
qed

lemma update_ok:
  "runs_ok m \<Longrightarrow> RunStore m = Some rows \<Longrightarrow>
    runs_ok (drop_key k (m\<lparr>RunStore := Some (updateRunState r st e c reason rows)\<rparr>))"
  by (simp only: runs_ok_def frame_run) (simp add: update_keys del: set_map)

lemma cache_ok: "runs_ok (cache_run k r m) = runs_ok m"
  by (simp add: runs_ok_def)

lemma startRun_ok: "runs_ok m \<Longrightarrow> runs_ok (snd (startRun guid now i m))"
  by (auto simp: startRun_def Let_def freshRun_ok cache_ok split: option.split)

interpretation runs: invariant_machine run_init run_step runs_ok
proof
  fix m
  assume "run_init m"
  then show "runs_ok m" by (auto simp: run_init_def runs_ok_def initial_manager_def)
next
  fix m e m'
  assume "runs_ok m" "run_step m e m'"
  then show "runs_ok m'"
    by (cases e) (auto simp: run_step_def startRun_ok endRun_def cancelRun_def update_ok split: option.split)
qed


subsection \<open>Idempotency\<close>

lemma startRun_caches:
  assumes "iIdempotencyKey i \<noteq> []"
  shows "oget (IdempotencyCache (snd (startRun guid now i m))) (iIdempotencyKey i) =
    Some (fst (startRun guid now i m))"
  using assms
  by (auto simp: startRun_def freshRun_def mintRunID_def insertRun_def cache_run_def Let_def obj_simps
      split: option.splits)

text \<open>
  A repeated start is answered with the same run: after a start with a key, every further start
  with that key returns the same record and changes nothing, whatever else it asks for.
\<close>

theorem startRun_idempotent:
  assumes "startRun guid now i m = (r, m')" and "iIdempotencyKey i \<noteq> []"
    and "iIdempotencyKey j = iIdempotencyKey i"
  shows "startRun guid' now' j m' = (r, m')"
  using startRun_caches [OF assms(2), of guid now m] assms by (simp add: startRun_def)

text \<open>
  An end does not free the key: the run is marked in the table and dropped from the cache, but
  the next start with its key finds the ended row again and hands it out, in its final state,
  instead of a new run.
\<close>

theorem ended_run_is_handed_out:
  assumes "RunStore m = Some rows" and "rows = xs @ [x]" and "RunKeyID x \<notin> RunKeyID ` set xs"
    and "IdempotencyKey x = k" and "k \<noteq> []" and "iIdempotencyKey i = k" and "final \<noteq> []"
    and "endRun now (RunKeyID x) final m = (ok, m1)"
  shows "ok \<and> RunState (fst (startRun guid now' i m1)) = final \<and>
    RunKeyID (fst (startRun guid now' i m1)) = RunKeyID x"
proof -
  have "updateRunState (RunKeyID x) st e c reason (xs @ [x]) = xs @ [patch_run st e c reason x]" for st e c reason
    using assms(3) by (induction xs) auto
  moreover have "getRunByRunID rows (RunKeyID x) = Some x"
    using getRunByRunID_append assms(2,3) by blast
  ultimately have "m1 = drop_key k (m\<lparr>RunStore := Some (xs @ [patch_run final (Some now) None [] x])\<rparr>)" "ok"
    using assms by (auto simp: endRun_def str_or_def)
  with assms show ?thesis
    by (simp add: startRun_def drop_key_def obj_simps getRunByIdempotencyKey_def patch_run_def)
qed

subsection \<open>An evaluated manager\<close>

definition keyed_start :: run_info where
  "keyed_start = \<lparr>iIdempotencyKey = ''k'', iSubmitterTag = [], iMetadata = []\<rparr>"

definition started_manager :: run_manager where
  "started_manager = snd (startRun ''g'' 5 keyed_start (initial_manager ''hub'' (Some [])))"

lemma started_reach: "reach run_init run_step started_manager"
proof -
  have "reach run_init run_step (initial_manager ''hub'' (Some []))"
    by (rule reach_init) (auto simp: run_init_def)
  then show ?thesis
    by (rule reach_step [of _ _ _ "StartRun ''g'' 5 keyed_start"]) (simp add: run_step_def started_manager_def)
qed


theorem startRun_idempotent_witness:
  "startRun ''other'' 99 keyed_start started_manager =
     (fst (startRun ''g'' 5 keyed_start (initial_manager ''hub'' (Some []))), started_manager)"
  unfolding started_manager_def
  by (rule startRun_idempotent [OF prod.collapse [symmetric]]) (simp_all add: keyed_start_def)

theorem ended_run_is_handed_out_witness:
  "let m = snd (endRun 6 ''rn-hub-5-1'' ''Done'' started_manager)
   in RunState (fst (startRun ''g2'' 7 keyed_start m)) = ''Done'' \<and>
      RunKeyID (fst (startRun ''g2'' 7 keyed_start m)) = ''rn-hub-5-1''"
proof -
  let ?x = "newRun ''g'' ''rn-hub-5-1'' 5 keyed_start"
  have store: "RunStore started_manager = Some [?x]" by code_simp
  have "RunKeyID ?x = ''rn-hub-5-1''" "IdempotencyKey ?x = ''k''" by (simp_all add: newRun_def keyed_start_def)
  with ended_run_is_handed_out [OF store, of "[]" ?x "''k''" keyed_start "''Done''" 6
      "fst (endRun 6 ''rn-hub-5-1'' ''Done'' started_manager)" "snd (endRun 6 ''rn-hub-5-1'' ''Done'' started_manager)"]
  show ?thesis by (simp add: keyed_start_def Let_def)
qed

end
