(* ===== verification/Redispatch.thy ===== *)
theory Redispatch
  imports SlotPreservation
begin

section \<open>What a slot-free re-dispatch leaves alone\<close>

text \<open>
  Freeing a slot offers the waiting items to the beacons again. These lemmas say what that can do to
  the rest of the state: it adds and removes no item, moves only Pending and Assigned items, keeps
  the claim and the limits of an Assigned item it starts, and does not touch the waiting callers. On
  them rest the properties of the handlers that free a slot: completion, failure, stall, timeouts.
\<close>

definition same_deadline :: "work_item \<Rightarrow> work_item \<Rightarrow> bool" where
  "same_deadline w w' \<longleftrightarrow> WorkItemHash w' = WorkItemHash w \<and> placed (Status w') \<and>
     ClaimedAt w' = ClaimedAt w \<and> TimeoutMs w' = TimeoutMs w \<and> RunHash w' = RunHash w \<and>
     AttemptNumber w' = AttemptNumber w \<and> MaxAttempts w' = MaxAttempts w"

definition may_become :: "work_item \<Rightarrow> work_item \<Rightarrow> bool" where
  "may_become w w' \<longleftrightarrow> WorkItemHash w' = WorkItemHash w \<and>
     (Status w = Running \<or> \<not> placed (Status w) \<and> Status w \<noteq> Pending \<longrightarrow> w' = w) \<and>
     (Status w = Assigned \<longrightarrow> same_deadline w w') \<and>
     (Status w = Pending \<longrightarrow> Status w' = Pending \<or> Status w' = Running)"

definition calm :: "coord \<Rightarrow> coord \<Rightarrow> bool" where
  "calm s s' \<longleftrightarrow>
     (\<forall>h. case oget (WorkQueue s) h of None \<Rightarrow> oget (WorkQueue s') h = None
        | Some w \<Rightarrow> (\<exists>w'. oget (WorkQueue s') h = Some w' \<and> may_become w w')) \<and>
     DirectDispatchCallbacks s' = DirectDispatchCallbacks s \<and>
     StreamDispatchHandlers s' = StreamDispatchHandlers s"

lemma may_become_refl [simp]: "may_become w w"
  by (simp add: may_become_def same_deadline_def placed_def)

lemma same_deadline_trans: "same_deadline w w' \<Longrightarrow> same_deadline w' w'' \<Longrightarrow> same_deadline w w''"
  by (simp add: same_deadline_def)

lemma may_become_trans:
  assumes "may_become w w'" "may_become w' w''"
  shows "may_become w w''"
proof -
  consider "Status w = Running \<or> \<not> placed (Status w) \<and> Status w \<noteq> Pending" | "Status w = Assigned"
    | "Status w = Pending" by (auto simp: placed_def)
  then show ?thesis
  proof cases
    case 1
    with assms show ?thesis by (simp add: may_become_def)
  next
    case 2
    with assms(1) have w': "same_deadline w w'" "Status w' = Running \<or> Status w' = Assigned"
      by (auto simp: may_become_def same_deadline_def placed_def)
    with assms(2) have "same_deadline w w''"
      by (auto simp: may_become_def intro: same_deadline_trans)
    with 2 assms show ?thesis by (simp add: may_become_def placed_def)
  next
    case 3
    with assms(1) have "Status w' = Pending \<or> Status w' = Running" by (simp add: may_become_def)
    with 3 assms show ?thesis by (auto simp: may_become_def placed_def)
  qed
qed

lemma calm_refl [simp]: "calm s s"
  by (simp add: calm_def split: option.split)

lemma calm_trans: "calm s s' \<Longrightarrow> calm s' s'' \<Longrightarrow> calm s s''"
proof -
  assume 1: "calm s s'" and 2: "calm s' s''"
  have "case oget (WorkQueue s) h of None \<Rightarrow> oget (WorkQueue s'') h = None
      | Some w \<Rightarrow> (\<exists>w''. oget (WorkQueue s'') h = Some w'' \<and> may_become w w'')" for h
  proof (cases "oget (WorkQueue s) h")
    case None
    with 1 2 show ?thesis by (auto simp: calm_def dest!: spec [of _ h])
  next
    case (Some w)
    with 1 obtain w' where w': "oget (WorkQueue s') h = Some w'" "may_become w w'"
      by (auto simp: calm_def dest!: spec [of _ h])
    with 2 obtain w'' where "oget (WorkQueue s'') h = Some w''" "may_become w' w''"
      by (auto simp: calm_def dest!: spec [of _ h])
    with Some w' show ?thesis by (auto intro: may_become_trans)
  qed
  with 1 2 show ?thesis by (simp add: calm_def)
qed

lemma calmD:
  assumes "calm s s'"
  shows "oget (WorkQueue s) h = None \<longleftrightarrow> oget (WorkQueue s') h = None"
    "oget (WorkQueue s) h = Some w \<Longrightarrow> \<exists>w'. oget (WorkQueue s') h = Some w' \<and> may_become w w'"
    "DirectDispatchCallbacks s' = DirectDispatchCallbacks s"
    "StreamDispatchHandlers s' = StreamDispatchHandlers s"
  using assms by (auto simp: calm_def split: option.splits dest: spec [of _ h])

lemma calm_write:
  assumes "oget (WorkQueue s) h = Some w" "may_become w w'" "WorkQueue s' = oset h w' (WorkQueue s)"
    and "DirectDispatchCallbacks s' = DirectDispatchCallbacks s"
    and "StreamDispatchHandlers s' = StreamDispatchHandlers s"
  shows "calm s s'"
  using assms by (auto simp: calm_def obj_simps split: option.split)

lemma calm_frame:
  assumes "calm s s'" "WorkQueue s'' = WorkQueue s'"
    and "DirectDispatchCallbacks s'' = DirectDispatchCallbacks s'"
    and "StreamDispatchHandlers s'' = StreamDispatchHandlers s'"
  shows "calm s s''"
  using assms by (simp add: calm_def cong: option.case_cong)

lemma push_to_callbacks:
  assumes "push_to env ph b h w s = (ok, w', s')"
  shows "DirectDispatchCallbacks s' = DirectDispatchCallbacks s"
    "StreamDispatchHandlers s' = StreamDispatchHandlers s"
  using assms by (auto simp: push_to_def sanitizeWorkItemForBeacon_def Let_def split: prod.splits)

lemma bind_affinity_callbacks [simp]:
  "DirectDispatchCallbacks (bind_affinity env w b s) = DirectDispatchCallbacks s"
  "StreamDispatchHandlers (bind_affinity env w b s) = StreamDispatchHandlers s"
  "DirectDispatchCallbacks (journal_claim env w b s) = DirectDispatchCallbacks s"
  "StreamDispatchHandlers (journal_claim env w b s) = StreamDispatchHandlers s"
  by (simp_all add: bind_affinity_def journal_claim_def)

text \<open>The push of an Assigned item: what \<open>_pushAssignedWorkItem\<close> writes, when it writes.\<close>

lemma pushAssigned_result:
  assumes "oget (WorkQueue s) h = Some w"
  obtains "pushAssignedWorkItem env h s = (False, s)"
  | ok w' s' where "pushAssignedWorkItem env h s = (ok, s')" "WorkQueue s' = oset h w' (WorkQueue s)"
      "same_deadline w w'" "Status w' = (if ok then Running else Assigned)"
      "DirectDispatchCallbacks s' = DirectDispatchCallbacks s"
      "StreamDispatchHandlers s' = StreamDispatchHandlers s"
proof (cases "\<exists>ph b bcn. PushHandler env = Some ph \<and> AssignedBeaconID w = Some b \<and>
    oget (Beacons s) b = Some bcn \<and> (BeaconStatus bcn = Online \<or> BeaconStatus bcn = Busy) \<and>
    int (runningCountForBeacon b s) < num_or (MaxConcurrent bcn) 1")
  case False
  with assms have "pushAssignedWorkItem env h s = (False, s)"
    by (auto simp: pushAssignedWorkItem_def split: option.splits)
  then show thesis by (rule that(1))
next
  case True
  then obtain ph b bcn where b: "PushHandler env = Some ph" "AssignedBeaconID w = Some b"
    "oget (Beacons s) b = Some bcn" "BeaconStatus bcn = Online \<or> BeaconStatus bcn = Busy"
    "int (runningCountForBeacon b s) < num_or (MaxConcurrent bcn) 1" by blast
  obtain ok w' s' where p: "push_to env ph b h (w\<lparr>Status := Running\<rparr>) s = (ok, w', s')"
    by (rule prod_cases3)
  note push = push_toD [OF p] push_to_callbacks [OF p]
  then obtain stg where "w' = w\<lparr>Status := Running, Settings := stg\<rparr>" by auto
  with push b p assms show thesis
    by (intro that(2) [of ok "if ok then s' else set_item h (w'\<lparr>Status := Assigned\<rparr>) s'"
          "if ok then w' else w'\<lparr>Status := Assigned\<rparr>"])
      (auto simp: pushAssignedWorkItem_def same_deadline_def placed_def)
qed

lemma pushAssigned_calm:
  assumes "\<And>w. oget (WorkQueue s) h = Some w \<Longrightarrow> Status w = Assigned"
  shows "calm s (snd (pushAssignedWorkItem env h s))"
proof (cases "oget (WorkQueue s) h")
  case None
  then show ?thesis by (simp add: pushAssignedWorkItem_def split: option.split)
next
  case (Some w)
  from pushAssigned_result [OF Some, of env] show ?thesis
  proof cases
    case 1
    then show ?thesis by simp
  next
    case (2 ok w' s')
    then have "calm s s'"
      using assms [OF Some]
      by (intro calm_write [OF Some _ 2(2)]) (auto simp: may_become_def same_deadline_def placed_def)
    with 2 show ?thesis by simp
  qed
qed

text \<open>The push of a waiting item: what one beacon of the loop writes.\<close>

lemma tryPushOne_result:
  assumes "oget (WorkQueue s) h = Some w" and "tryPushOne env ph h k bcn w s = (ok, s')"
  shows "\<exists>w'. WorkQueue s' = oset h w' (WorkQueue s) \<and> WorkItemHash w' = WorkItemHash w \<and>
      Status w' = (if ok then Running else Pending)"
    "DirectDispatchCallbacks s' = DirectDispatchCallbacks s"
    "StreamDispatchHandlers s' = StreamDispatchHandlers s"
proof -
  define w1 where "w1 = push_claim env bcn w"
  define s2 where "s2 = bind_affinity env w1 (BeaconID bcn)
    (set_beacon k (bcn\<lparr>CurrentWorkItems := CurrentWorkItems bcn @ [WorkItemHash w]\<rparr>) (set_item h w1 s))"
  obtain ok' w2 s3 where p: "push_to env ph (BeaconID bcn) h w1 s2 = (ok', w2, s3)"
    by (rule prod_cases3)
  note push = push_toD [OF p] push_to_callbacks [OF p]
  obtain stg where "w2 = w1\<lparr>Settings := stg\<rparr>" using push(1) by auto
  moreover have "(ok, s') = (if ok' then (True, journal_claim env w2 (BeaconID bcn) s3)
         else (False, set_beacon k
                 (bcn\<lparr>CurrentWorkItems :=
                    remove1 (WorkItemHash w) (CurrentWorkItems bcn @ [WorkItemHash w])\<rparr>)
                 (set_item h (w2\<lparr>Status := Pending, AssignedBeaconID := None, ClaimedAt := None\<rparr>)
                    s3)))"
    using assms(2) p unfolding tryPushOne_def w1_def s2_def by (simp add: Let_def)
  ultimately show "\<exists>w'. WorkQueue s' = oset h w' (WorkQueue s) \<and> WorkItemHash w' = WorkItemHash w \<and>
      Status w' = (if ok then Running else Pending)"
    "DirectDispatchCallbacks s' = DirectDispatchCallbacks s"
    "StreamDispatchHandlers s' = StreamDispatchHandlers s"
    using push by (auto simp: w1_def push_claim_def s2_def split: if_splits)
qed

lemma tryPushLoop_calm:
  "(\<And>w. oget (WorkQueue s) h = Some w \<Longrightarrow> Status w = Pending) \<Longrightarrow>
    calm s (snd (tryPushLoop env ph h ks s))"
proof (induction ks arbitrary: s)
  case Nil
  then show ?case by simp
next
  case (Cons k ks)
  show ?case
  proof (cases "\<exists>bcn w. oget (Beacons s) k = Some bcn \<and> oget (WorkQueue s) h = Some w \<and>
      pushEligible env w bcn")
    case False
    with Cons show ?thesis by (auto split: option.splits)
  next
    case True
    then obtain bcn w where b: "oget (Beacons s) k = Some bcn" "oget (WorkQueue s) h = Some w"
      and el: "pushEligible env w bcn" by blast
    obtain ok s' where t: "tryPushOne env ph h k bcn w s = (ok, s')" by (rule prod.exhaust)
    note res = tryPushOne_result [OF b(2) t]
    obtain w' where w': "WorkQueue s' = oset h w' (WorkQueue s)" "WorkItemHash w' = WorkItemHash w"
      "Status w' = (if ok then Running else Pending)" using res(1) by blast
    have "Status w = Pending" using Cons.prems b(2) .
    with w' have calm: "calm s s'"
      by (intro calm_write [OF b(2) _ w'(1) res(2,3)]) (simp add: may_become_def placed_def)
    show ?thesis
    proof (cases ok)
      case True
      with b el t calm show ?thesis by simp
    next
      case False
      with Cons.IH [of s'] w' have "calm s' (snd (tryPushLoop env ph h ks s'))"
        by (simp add: obj_simps)
      with calm_trans [OF calm] b el t False show ?thesis by simp
    qed
  qed
qed

lemma tryPush_calm:
  "(\<And>w. oget (WorkQueue s) h = Some w \<Longrightarrow> Status w = Pending) \<Longrightarrow>
    calm s (snd (tryPushToWebSocketBeacon env h s))"
  by (simp add: tryPushToWebSocketBeacon_def tryPushLoop_calm split: option.split)

lemma dispatchLoop_calm: "calm s (dispatchLoop env hs s)"
proof (induction hs arbitrary: s)
  case Nil
  then show ?case by simp
next
  case (Cons h hs)
  have "calm s (case oget (WorkQueue s) h of None \<Rightarrow> s
      | Some w \<Rightarrow>
          (if Status w = Assigned \<and> AssignedBeaconID w \<noteq> None then snd (pushAssignedWorkItem env h s)
           else if Status w \<noteq> Pending \<or> AssignedBeaconID w \<noteq> None then s
           else snd (tryPushToWebSocketBeacon env h s)))"
    by (auto split: option.split intro!: pushAssigned_calm tryPush_calm)
  from calm_trans [OF this Cons.IH] show ?case by simp
qed

lemma dispatchPending_calm: "calm s (dispatchPendingWorkItems env s)"
  by (simp add: dispatchPendingWorkItems_def dispatchLoop_calm split: option.split)

lemma removeFromBeacon_calm: "calm s (removeWorkItemFromBeacon env bo h s)"
proof -
  have "calm s (dispatchPendingWorkItems env (set_beacon b bcn s))" for b bcn
    by (rule calm_trans [OF calm_frame [OF calm_refl] dispatchPending_calm]) simp_all
  then show ?thesis by (simp add: removeWorkItemFromBeacon_def split: option.split)
qed

text \<open>An item that is neither waiting nor assigned is left exactly as it was.\<close>

lemma removeFromBeacon_keeps:
  assumes "oget (WorkQueue s) h = Some w" and "\<not> placed (Status w)" and "Status w \<noteq> Pending"
  shows "oget (WorkQueue (removeWorkItemFromBeacon env bo k s)) h = Some w"
proof -
  from calmD(2) [OF removeFromBeacon_calm assms(1), of env bo k] obtain w' where
    "oget (WorkQueue (removeWorkItemFromBeacon env bo k s)) h = Some w'" "may_become w w'" by blast
  with assms(2,3) show ?thesis by (simp add: may_become_def)
qed

end
