(* ===== verification/OutcomeProperties.thy ===== *)
theory OutcomeProperties
  imports Redispatch
begin

section \<open>Completion, failure and progress: what the handlers promise\<close>

text \<open>
  Properties of \<open>completeWorkItem\<close>, \<open>failWorkItem\<close> and \<open>updateProgress\<close> on every branch: a waiting
  caller is answered once, an item is finalized once, a failure with attempts left goes back to the
  queue, and the log of a result is everything the beacon reported.
\<close>

subsection \<open>Waiting callers\<close>

lemma resolve_direct:
  assumes "oget (StreamDispatchHandlers s) h = None" "oget (DirectDispatchCallbacks s) h \<noteq> None"
  shows "settle env h res w f s = (CbOk, delete_item h (snd (resolveDirectDispatch h res s)))"
  using assms by (simp add: settle_def resolveStreamDispatch_def resolveDirectDispatch_def)

text \<open>The state in which \<open>completeWorkItem\<close> settles an item.\<close>

definition freed :: "hub_env \<Rightarrow> string \<Rightarrow> work_result \<Rightarrow> work_item \<Rightarrow> coord \<Rightarrow> coord" where
  "freed env h r w s = removeWorkItemFromBeacon env (AssignedBeaconID w) h
     (emit_when True (completeEffects env h r w) (set_item h (completeRecord env r w) s))"

lemma freed_keeps:
  "DirectDispatchCallbacks (freed env h r w s) = DirectDispatchCallbacks s"
  "StreamDispatchHandlers (freed env h r w s) = StreamDispatchHandlers s"
  "oget (WorkQueue (freed env h r w s)) h = Some (completeRecord env r w)"
proof -
  let ?s = "emit_when True (completeEffects env h r w) (set_item h (completeRecord env r w) s)"
  note calm = removeFromBeacon_calm [of ?s env "AssignedBeaconID w" h]
  from calmD(3,4) [OF calm] show "DirectDispatchCallbacks (freed env h r w s) = DirectDispatchCallbacks s"
    "StreamDispatchHandlers (freed env h r w s) = StreamDispatchHandlers s"
    by (simp_all add: freed_def)
  show "oget (WorkQueue (freed env h r w s)) h = Some (completeRecord env r w)"
    unfolding freed_def
    by (rule removeFromBeacon_keeps) (simp_all add: obj_simps completeRecord_def placed_def)
qed

lemma complete_live:
  assumes "oget (WorkQueue s) h = Some w" "\<not> finalized (Status w)"
  shows "completeWorkItem env h r s = settle env h (Inr (r\<lparr>Log := AccumulatedLog w @ Log r\<rparr>)) w
    (emit (EngineResume (RunHash w) (NodeHash w)
       (oset ''BeaconID'' (JStr (case AssignedBeaconID w of None \<Rightarrow> [] | Some b \<Rightarrow> b)) (Outputs r))))
    (freed env h r w s)"
  using assms by (simp add: completeWorkItem_def Let_def freed_def)

text \<open>
  C12. A caller that waits in \<open>dispatchAndWait\<close> is answered exactly once: the completion of its item
  calls it back with the outputs and the whole log as its last effect, removes the item and the
  callback, and after that a second completion is refused and the timer of the dispatch does nothing.
\<close>

theorem waiting_caller_answered_once:
  assumes "oget (WorkQueue s) h = Some w" "\<not> finalized (Status w)"
    and "oget (StreamDispatchHandlers s) h = None" "oget (DirectDispatchCallbacks s) h = Some ()"
    and "completeWorkItem env h r s = (cb, s')"
  shows "cb = CbOk \<and>
    last (Effects s') = DirectCallback h (Inr (result_json h (r\<lparr>Log := AccumulatedLog w @ Log r\<rparr>))) \<and>
    completeWorkItem env' h r' s' = (CbError (notFound h), s') \<and>
    directTimeout env' h ms s' = s'"
proof -
  let ?t = "freed env h r w s"
  have "completeWorkItem env h r s = (CbOk, delete_item h (snd (resolveDirectDispatch h
      (Inr (r\<lparr>Log := AccumulatedLog w @ Log r\<rparr>)) ?t)))"
    unfolding complete_live [OF assms(1,2)]
    by (rule resolve_direct) (simp_all add: freed_keeps assms(3,4))
  with assms(5) have cb: "cb = CbOk" and s': "s' = delete_item h (snd (resolveDirectDispatch h
      (Inr (r\<lparr>Log := AccumulatedLog w @ Log r\<rparr>)) ?t))" by simp_all
  have "oget (WorkQueue s') h = None" "oget (DirectDispatchCallbacks s') h = None"
    "last (Effects s') = DirectCallback h (Inr (result_json h (r\<lparr>Log := AccumulatedLog w @ Log r\<rparr>)))"
    by (simp_all add: s' resolveDirectDispatch_def freed_keeps assms(4) obj_simps)
  then show ?thesis using cb by (simp add: completeWorkItem_def directTimeout_def)
qed

text \<open>
  An item of a run is finalized once: a completion hands the outputs to the engine and leaves the
  item Complete until the engine answers; a second completion or a failure that arrives in between
  (a beacon that answers twice, a late timeout) is refused and changes nothing.
\<close>

theorem finalized_once:
  assumes "oget (WorkQueue s) h = Some w" "\<not> finalized (Status w)" "RunHash w \<noteq> []" "EngineOn env"
    and "oget (StreamDispatchHandlers s) h = None" "oget (DirectDispatchCallbacks s) h = None"
    and "completeWorkItem env h r s = (cb, s')"
  shows "cb = CbDeferred \<and>
    last (Effects s') = EngineResume (RunHash w) (NodeHash w)
      (oset ''BeaconID'' (JStr (case AssignedBeaconID w of None \<Rightarrow> [] | Some b \<Rightarrow> b)) (Outputs r)) \<and>
    completeWorkItem env' h r' s' = (CbError (alreadyFinalized h Complete), s') \<and>
    failWorkItem env' h msg lg s' = (CbError (alreadyFinalized h Complete), s') \<and>
    oget (WorkQueue (snd (resumeFinished h None s'))) h = None"
proof -
  let ?t = "freed env h r w s"
  have "completeWorkItem env h r s = (CbDeferred, emit (EngineResume (RunHash w) (NodeHash w)
      (oset ''BeaconID'' (JStr (case AssignedBeaconID w of None \<Rightarrow> [] | Some b \<Rightarrow> b)) (Outputs r))) ?t)"
    unfolding complete_live [OF assms(1,2)]
    by (simp add: settle_def resolveStreamDispatch_def resolveDirectDispatch_def freed_keeps assms(3-6))
  with assms(7) have cb: "cb = CbDeferred" and s': "s' = emit (EngineResume (RunHash w) (NodeHash w)
      (oset ''BeaconID'' (JStr (case AssignedBeaconID w of None \<Rightarrow> [] | Some b \<Rightarrow> b)) (Outputs r))) ?t"
    by simp_all
  have "oget (WorkQueue s') h = Some (completeRecord env r w)" by (simp add: s' freed_keeps)
  then show ?thesis
    using cb s' by (simp add: completeWorkItem_def failWorkItem_def completeRecord_def finalized_def
        resumeFinished_def obj_simps)
qed

subsection \<open>Failure and retry\<close>

lemma scheduleRetry_state:
  "WorkQueue (scheduleRetry env h msg w s) = oset h (retryRecord env msg w) (WorkQueue s)"
  "Beacons (scheduleRetry env h msg w s) = Beacons s"
  "DirectDispatchCallbacks (scheduleRetry env h msg w s) = DirectDispatchCallbacks s"
  "StreamDispatchHandlers (scheduleRetry env h msg w s) = StreamDispatchHandlers s"
  by (simp_all add: scheduleRetry_def Let_def retryRecord_def removeWorkItemFromBeacon_def)

text \<open>
  C28. A failure with attempts left is not reported to anyone: the item is scheduled for
  \<open>RetryBackoffMs\<close> times its new attempt number from now, without a beacon and without a claim, with
  one attempt fewer to go, and no caller, no engine and no manifest hears of it. The beacon records
  do not change: the failed item stays among its beacon's current work items, so its slot stays taken.
\<close>

theorem failure_with_attempts_left:
  assumes "oget (WorkQueue s) h = Some w" "\<not> finalized (Status w)" "MaxAttempts w = Some m"
    and "AttemptNumber w < m - 1" and "failWorkItem env h msg lg s = (cb, s')"
  shows "cb = CbOk \<and>
    oget (WorkQueue s') h = Some (w\<lparr>AttemptNumber := AttemptNumber w + 1,
      LastError := Some (str_or msg ''Unknown error''), Status := RetryScheduled,
      RetryAfter := Some (Now env + RetryBackoffMs w * (AttemptNumber w + 1)),
      ClaimedAt := None, AssignedBeaconID := None\<rparr>) \<and>
    (\<forall>k. k \<noteq> h \<longrightarrow> oget (WorkQueue s') k = oget (WorkQueue s) k) \<and>
    Beacons s' = Beacons s \<and>
    (\<exists>es. Effects s' = Effects s @ es \<and> (\<forall>e \<in> set es. \<exists>op d. e = JournalAppend op d))"
proof -
  have res: "cb = CbOk" "s' = scheduleRetry env h msg w s"
    using assms by (auto simp: failWorkItem_def retriesLeft_def)
  moreover have "Effects (scheduleRetry env h msg w s) = Effects s @
      (if JournalOn env then [JournalAppend ''retry-scheduled'' (retry_json h (retryRecord env msg w))]
       else [])"
    by (simp add: scheduleRetry_def Let_def retryRecord_def removeWorkItemFromBeacon_def)
  ultimately show ?thesis
    by (simp add: scheduleRetry_state obj_simps retryRecord_def)
qed

text \<open>
  The last failure is reported once: when no attempt is left, an item of a run is marked Error,
  the run is resumed with exit code -1 and the error text, and a further failure or completion that
  arrives before the engine's answer is refused.
\<close>

theorem last_failure_reported_once:
  assumes "oget (WorkQueue s) h = Some w" "\<not> finalized (Status w)" "\<not> retriesLeft w"
    and "RunHash w \<noteq> []" "EngineOn env"
    and "oget (StreamDispatchHandlers s) h = None" "oget (DirectDispatchCallbacks s) h = None"
    and "failWorkItem env h msg lg s = (cb, s')"
  shows "cb = CbDeferred \<and> last (Effects s') = EngineResume (RunHash w) (NodeHash w)
      [(''StdOut'', JStr (str_or msg ''Beacon work item failed.'')), (''ExitCode'', JInt (- 1)),
       (''BeaconID'', JStr (case AssignedBeaconID w of None \<Rightarrow> [] | Some b \<Rightarrow> b)),
       (''_BeaconError'', JBool True)] \<and>
    failWorkItem env' h msg' lg' s' = (CbError (alreadyFinalized h Errored), s') \<and>
    completeWorkItem env' h r s' = (CbError (alreadyFinalized h Errored), s')"
proof -
  let ?w = "failRecord env msg lg w"
  let ?u = "emit_when True (failEffects env h w ?w) (set_item h ?w s)"
  let ?t = "removeWorkItemFromBeacon env (AssignedBeaconID w) h ?u"
  note calm = removeFromBeacon_calm [of ?u env "AssignedBeaconID w" h]
  have get: "oget (WorkQueue ?t) h = Some ?w"
    by (rule removeFromBeacon_keeps) (simp_all add: obj_simps failRecord_def placed_def)
  have "failWorkItem env h msg lg s = (CbDeferred, emit_when True (failToEngine env msg w) ?t)"
    using assms(1-7) calmD(3,4) [OF calm]
    by (simp add: failWorkItem_def Let_def settle_def resolveStreamDispatch_def resolveDirectDispatch_def)
  with assms(8) have res: "cb = CbDeferred" "s' = emit_when True (failToEngine env msg w) ?t" by simp_all
  then have "oget (WorkQueue s') h = Some ?w" using get by simp
  then show ?thesis
    using res by (simp add: failWorkItem_def completeWorkItem_def failRecord_def finalized_def
        failToEngine_def failMessage_def)
qed

subsection \<open>Progress\<close>

text \<open>A list of progress reports, in order.\<close>

fun report_all :: "hub_env \<Rightarrow> string \<Rightarrow> progress_data list \<Rightarrow> coord \<Rightarrow> coord" where
  "report_all env h [] s = s"
| "report_all env h (p # ps) s = report_all env h ps (snd (updateProgress env h p s))"

lemma report_all_item:
  assumes "oget (WorkQueue s) h = Some w" and "placed (Status w)"
  shows "\<exists>w'. oget (WorkQueue (report_all env h ps s)) h = Some w' \<and> Status w' = Status w \<and>
    AccumulatedLog w' = AccumulatedLog w @ concat (map pLog ps) \<and> RunHash w' = RunHash w"
  using assms
proof (induction ps arbitrary: s w)
  case (Cons p ps)
  have "oget (WorkQueue (snd (updateProgress env h p s))) h = Some (progressRecord env p w)"
    using Cons.prems by (auto simp: updateProgress_def placed_def obj_simps)
  from Cons.IH [OF this] Cons.prems(2) show ?case by (simp add: progressRecord_def)
qed simp

lemma report_all_callbacks:
  "DirectDispatchCallbacks (report_all env h ps s) = DirectDispatchCallbacks s"
  "StreamDispatchHandlers (report_all env h ps s) = StreamDispatchHandlers s"
proof -
  have "DirectDispatchCallbacks (snd (updateProgress env h p s)) = DirectDispatchCallbacks s"
    "StreamDispatchHandlers (snd (updateProgress env h p s)) = StreamDispatchHandlers s" for p s
    by (simp_all add: updateProgress_def split: option.split)
  then show "DirectDispatchCallbacks (report_all env h ps s) = DirectDispatchCallbacks s"
    "StreamDispatchHandlers (report_all env h ps s) = StreamDispatchHandlers s"
    by (induction ps arbitrary: s) simp_all
qed

text \<open>
  No progress line is lost: after any number of progress reports on a running item, its completion
  keeps in the item's result the log lines of all the reports, in the order they came, and then the
  lines of the final result.
\<close>

theorem result_log_is_complete:
  assumes "oget (WorkQueue s) h = Some w" "Status w = Running" "AccumulatedLog w = []"
    and "RunHash w \<noteq> []" "EngineOn env'"
    and "oget (StreamDispatchHandlers s) h = None" "oget (DirectDispatchCallbacks s) h = None"
  shows "\<exists>w'. oget (WorkQueue (snd (completeWorkItem env' h r (report_all env h ps s)))) h = Some w' \<and>
    Status w' = Complete \<and>
    ItemResult w' = JObj [(''Outputs'', JObj (Outputs r)),
      (''Log'', JArr (concat (map pLog ps) @ Log r))]"
proof -
  let ?s = "report_all env h ps s"
  from report_all_item [OF assms(1)] assms(2,3) obtain w1 where
    w1: "oget (WorkQueue ?s) h = Some w1" "Status w1 = Running"
      "AccumulatedLog w1 = concat (map pLog ps)" "RunHash w1 = RunHash w"
    by (fastforce simp: placed_def)
  have "WorkQueue (snd (completeWorkItem env' h r ?s)) = WorkQueue (freed env' h r w1 ?s)"
    using complete_live [OF w1(1)] w1 assms(4-7)
    by (simp add: finalized_def settle_def resolveStreamDispatch_def resolveDirectDispatch_def
        freed_keeps report_all_callbacks)
  then show ?thesis
    using freed_keeps(3) [of env' h r w1 ?s] w1(3) by (simp add: completeRecord_def)
qed

text \<open>
  A progress report merges: the fields it gives replace the old ones, the fields it leaves out
  keep their last value, its log lines are appended, and a report on an item that is neither Running
  nor Assigned is refused and changes nothing.
\<close>

theorem progress_merges:
  assumes "oget (WorkQueue s) h = Some w"
  shows "(if Status w = Running \<or> Status w = Assigned
     then \<exists>w' q. updateProgress env h p s = (True, snd (updateProgress env h p s)) \<and>
       oget (WorkQueue (snd (updateProgress env h p s))) h = Some w' \<and> ItemProgress w' = Some q \<and>
       AccumulatedLog w' = AccumulatedLog w @ pLog p \<and> Status w' = Status w \<and>
       LastEventAt w' = Some (Now env) \<and>
       (pPercent p \<noteq> JUndef \<longrightarrow> Percent q = pPercent p) \<and>
       (\<forall>old. ItemProgress w = Some old \<longrightarrow>
          (pPercent p = JUndef \<longrightarrow> Percent q = Percent old) \<and>
          (pStep p = JUndef \<longrightarrow> Step q = Step old) \<and>
          (pTotalSteps p = JUndef \<longrightarrow> TotalSteps q = TotalSteps old) \<and>
          (\<not> truthy (pMessage p) \<longrightarrow> Message q = Message old))
     else updateProgress env h p s = (False, s))"
  using assms
  by (auto simp: updateProgress_def obj_simps progressRecord_def next_progress_def defined_or_def)

end
