(* ===== verification/TimeoutProperties.thy ===== *)
theory TimeoutProperties
  imports HubSystem Redispatch
begin

section \<open>The periodic checks: what they do, and when they throw\<close>

text \<open>
  \<open>_checkTimeouts\<close> and \<open>_healthTick\<close> walk over a list of keys taken before their first write. A key
  whose item is gone when the loop reads it is a \<open>TypeError\<close> inside a timer callback. These lemmas
  follow which keys each step removes.
\<close>

subsection \<open>One failure, seen from the other items\<close>

lemma resolve_others:
  assumes "k \<noteq> h"
  shows "oget (DirectDispatchCallbacks (snd (resolveDirectDispatch h res s))) k = oget (DirectDispatchCallbacks s) k"
    "oget (StreamDispatchHandlers (snd (resolveDirectDispatch h res s))) k = oget (StreamDispatchHandlers s) k"
    "oget (DirectDispatchCallbacks (snd (resolveStreamDispatch h res s))) k = oget (DirectDispatchCallbacks s) k"
    "oget (StreamDispatchHandlers (snd (resolveStreamDispatch h res s))) k = oget (StreamDispatchHandlers s) k"
  using assms
  by (simp_all add: resolveDirectDispatch_def resolveStreamDispatch_def Let_def obj_simps split: sum.split)

lemma settle_others:
  assumes "k \<noteq> h"
  shows "oget (WorkQueue (snd (settle env h res w (emit_when b es) s))) k = oget (WorkQueue s) k"
    "oget (DirectDispatchCallbacks (snd (settle env h res w (emit_when b es) s))) k = oget (DirectDispatchCallbacks s) k"
    "oget (StreamDispatchHandlers (snd (settle env h res w (emit_when b es) s))) k = oget (StreamDispatchHandlers s) k"
proof -
  obtain b1 s1 where r1: "resolveStreamDispatch h res s = (b1, s1)" by (rule prod.exhaust)
  obtain b2 s2 where r2: "resolveDirectDispatch h res s1 = (b2, s2)" by (rule prod.exhaust)
  note fr = resolve_frame [of h res s] resolve_frame [of h res s1]
    resolve_others [OF assms, of res s] resolve_others [OF assms, of res s1]
  show "oget (WorkQueue (snd (settle env h res w (emit_when b es) s))) k = oget (WorkQueue s) k"
    "oget (DirectDispatchCallbacks (snd (settle env h res w (emit_when b es) s))) k = oget (DirectDispatchCallbacks s) k"
    "oget (StreamDispatchHandlers (snd (settle env h res w (emit_when b es) s))) k = oget (StreamDispatchHandlers s) k"
    using fr r1 r2 assms by (auto simp: settle_def obj_simps split: bool.split)
qed

text \<open>What a step on one key leaves of another.\<close>

definition same_at :: "string \<Rightarrow> coord \<Rightarrow> coord \<Rightarrow> bool" where
  "same_at k s s' \<longleftrightarrow>
     (oget (WorkQueue s) k = None \<longrightarrow> oget (WorkQueue s') k = None) \<and>
     (\<forall>w. oget (WorkQueue s) k = Some w \<longrightarrow> (\<exists>w'. oget (WorkQueue s') k = Some w' \<and> may_become w w')) \<and>
     oget (DirectDispatchCallbacks s') k = oget (DirectDispatchCallbacks s) k \<and>
     oget (StreamDispatchHandlers s') k = oget (StreamDispatchHandlers s) k"

lemma same_at_refl [simp]: "same_at k s s"
  by (simp add: same_at_def)

lemma same_at_trans: "same_at k s s' \<Longrightarrow> same_at k s' s'' \<Longrightarrow> same_at k s s''"
proof -
  assume 1: "same_at k s s'" and 2: "same_at k s' s''"
  show "same_at k s s''"
  proof (cases "oget (WorkQueue s) k")
    case None
    with 1 2 show ?thesis by (simp add: same_at_def)
  next
    case (Some w)
    with 1 obtain w' where w': "oget (WorkQueue s') k = Some w'" "may_become w w'"
      by (auto simp: same_at_def)
    with 2 obtain w'' where "oget (WorkQueue s'') k = Some w''" "may_become w' w''"
      by (auto simp: same_at_def)
    with Some w' 1 2 show ?thesis by (auto simp: same_at_def intro: may_become_trans)
  qed
qed

lemma same_at_calm: "calm s s' \<Longrightarrow> same_at k s s'"
  using calmD(1,2) [of s s' k] calmD(3,4) [of s s'] by (auto simp: same_at_def)

lemma same_at_other:
  assumes "oget (WorkQueue s') k = oget (WorkQueue s) k"
    and "oget (DirectDispatchCallbacks s') k = oget (DirectDispatchCallbacks s) k"
    and "oget (StreamDispatchHandlers s') k = oget (StreamDispatchHandlers s) k"
  shows "same_at k s s'"
  using assms by (simp add: same_at_def)

lemma fail_others:
  assumes "k \<noteq> h"
  shows "same_at k s (snd (failWorkItem env h msg lg s))"
proof (cases "oget (WorkQueue s) h")
  case None
  then show ?thesis by (simp add: failWorkItem_def)
next
  case (Some w)
  let ?w = "failRecord env msg lg w"
  let ?u = "emit_when True (failEffects env h w ?w) (set_item h ?w s)"
  let ?v = "removeWorkItemFromBeacon env (AssignedBeaconID w) h ?u"
  let ?x = "snd (settle env h (Inl (failMessage msg)) w (emit_when True (failToEngine env msg w)) ?v)"
  have "same_at k s ?u" using assms by (intro same_at_other) (simp_all add: obj_simps)
  moreover have "same_at k ?u ?v" by (rule same_at_calm [OF removeFromBeacon_calm])
  moreover have "same_at k ?v ?x" by (rule same_at_other) (simp_all add: settle_others [OF assms])
  ultimately have "same_at k s ?x" by (blast intro: same_at_trans)
  moreover have "same_at k s (scheduleRetry env h msg w s)"
    using assms by (intro same_at_other)
      (simp_all add: scheduleRetry_def Let_def retryRecord_def removeWorkItemFromBeacon_def obj_simps)
  ultimately show ?thesis using Some by (simp add: failWorkItem_def Let_def)
qed

text \<open>
  An item that the first loop removes: timed out, with no attempt left, and with no engine run to
  answer for it (it is a single dispatch, or a caller waits for it).
\<close>

definition dropped_by_timeout :: "hub_env \<Rightarrow> coord \<Rightarrow> string \<Rightarrow> bool" where
  "dropped_by_timeout env s h \<longleftrightarrow> (\<exists>w. oget (WorkQueue s) h = Some w \<and> timed_out env w \<and>
     \<not> retriesLeft w \<and>
     (RunHash w = [] \<or> oget (DirectDispatchCallbacks s) h \<noteq> None \<or> oget (StreamDispatchHandlers s) h \<noteq> None))"

lemma timed_out_live: "timed_out env w \<Longrightarrow> \<not> finalized (Status w) \<and> placed (Status w)"
  by (auto simp: timed_out_def finalized_def placed_def)

lemma fail_drops:
  assumes "dropped_by_timeout env s h"
  shows "oget (WorkQueue (snd (failWorkItem env h msg lg s))) h = None"
proof -
  from assms obtain w where w: "oget (WorkQueue s) h = Some w" "timed_out env w" "\<not> retriesLeft w"
    "RunHash w = [] \<or> oget (DirectDispatchCallbacks s) h \<noteq> None \<or> oget (StreamDispatchHandlers s) h \<noteq> None"
    by (auto simp: dropped_by_timeout_def)
  let ?w = "failRecord env msg lg w"
  let ?u = "emit_when True (failEffects env h w ?w) (set_item h ?w s)"
  let ?v = "removeWorkItemFromBeacon env (AssignedBeaconID w) h ?u"
  have cb: "DirectDispatchCallbacks ?v = DirectDispatchCallbacks s"
    "StreamDispatchHandlers ?v = StreamDispatchHandlers s"
    using calmD(3,4) [OF removeFromBeacon_calm [of ?u env "AssignedBeaconID w" h]] by simp_all
  have "failWorkItem env h msg lg s =
      settle env h (Inl (failMessage msg)) w (emit_when True (failToEngine env msg w)) ?v"
    using w timed_out_live [OF w(2)] by (simp add: failWorkItem_def Let_def)
  moreover obtain b1 s1 where r1: "resolveStreamDispatch h (Inl (failMessage msg)) ?v = (b1, s1)"
    by (rule prod.exhaust)
  moreover obtain b2 s2 where r2: "resolveDirectDispatch h (Inl (failMessage msg)) s1 = (b2, s2)"
    by (rule prod.exhaust)
  moreover have "b1 \<or> b2 \<or> RunHash w = []"
    using w(4) r1 r2 cb by (auto simp: resolveStreamDispatch_def resolveDirectDispatch_def split: if_splits)
  ultimately show ?thesis
    by (auto simp: settle_def obj_simps split: bool.split)
qed

lemma dropped_same_at:
  assumes "dropped_by_timeout env s k" and "same_at k s s'"
  shows "dropped_by_timeout env s' k"
proof -
  from assms(1) obtain w where w: "oget (WorkQueue s) k = Some w" "timed_out env w" "\<not> retriesLeft w"
    "RunHash w = [] \<or> oget (DirectDispatchCallbacks s) k \<noteq> None \<or> oget (StreamDispatchHandlers s) k \<noteq> None"
    by (auto simp: dropped_by_timeout_def)
  from assms(2) w(1) obtain w' where w': "oget (WorkQueue s') k = Some w'" "may_become w w'"
    by (auto simp: same_at_def)
  have "w' = w \<or> same_deadline w w'"
    using w'(2) w(2) by (auto simp: may_become_def timed_out_def)
  then have "timed_out env w'" "\<not> retriesLeft w'" "RunHash w' = RunHash w"
    using w by (auto simp: timed_out_def same_deadline_def placed_def retriesLeft_def
        cong: option.case_cong)
  with w(4) w'(1) assms(2) show ?thesis by (auto simp: dropped_by_timeout_def same_at_def)
qed

subsection \<open>The first loop\<close>

lemma timeoutLoop_run:
  assumes "slot_inv env {} s" "distinct hs" "\<And>k. k \<in> set hs \<Longrightarrow> oget (WorkQueue s) k \<noteq> None"
  shows "\<exists>s'. timeoutLoop env hs s = Done s' \<and> (\<forall>k. k \<notin> set hs \<longrightarrow> same_at k s s') \<and>
    (\<forall>k. k \<in> set hs \<longrightarrow> dropped_by_timeout env s k \<longrightarrow> oget (WorkQueue s') k = None)"
  using assms
proof (induction hs arbitrary: s)
  case Nil
  then show ?case by simp
next
  case (Cons h hs)
  from Cons.prems(3) [of h] obtain w where w: "oget (WorkQueue s) h = Some w" by auto
  define s1 where "s1 = (if timed_out env w
     then snd (failWorkItem env (WorkItemHash w) (timeoutMessage env w) [JStr ''Timeout''] s) else s)"
  have hash: "WorkItemHash w = h" using slot_inv_hash [OF Cons.prems(1) w] .
  have others: "same_at k s s1" if "k \<noteq> h" for k
    using that hash by (simp add: s1_def fail_others)
  have inv: "slot_inv env {} s1" using Cons.prems(1) by (simp add: s1_def fail_slots)
  have there: "oget (WorkQueue s1) k \<noteq> None" if "k \<in> set hs" for k
    using others [of k] Cons.prems(2) Cons.prems(3) [of k] that by (force simp: same_at_def)
  from Cons.IH [OF inv _ there] Cons.prems(2) obtain s' where
    s': "timeoutLoop env hs s1 = Done s'" "\<forall>k. k \<notin> set hs \<longrightarrow> same_at k s1 s'"
      "\<forall>k. k \<in> set hs \<longrightarrow> dropped_by_timeout env s1 k \<longrightarrow> oget (WorkQueue s') k = None" by auto
  have "oget (WorkQueue s') h = None" if "dropped_by_timeout env s h"
  proof -
    have "timed_out env w" using that w by (auto simp: dropped_by_timeout_def)
    then have "oget (WorkQueue s1) h = None" using fail_drops [OF that] hash by (simp add: s1_def)
    with s'(2) Cons.prems(2) show ?thesis by (auto simp: same_at_def)
  qed
  moreover have "timeoutLoop env (h # hs) s = Done s'" using w s'(1) by (simp add: s1_def)
  moreover have "same_at k s s'" if "k \<notin> set (h # hs)" for k
    using that others s'(2) by (auto intro: same_at_trans)
  moreover have "oget (WorkQueue s') k = None" if "k \<in> set hs" "dropped_by_timeout env s k" for k
    using that s'(3) others [of k] Cons.prems(2) by (auto intro: dropped_same_at)
  ultimately show ?case by (intro exI [of _ s']) auto
qed

subsection \<open>The second loop\<close>

definition retryStep :: "hub_env \<Rightarrow> string \<Rightarrow> work_item \<Rightarrow> coord \<Rightarrow> coord" where
  "retryStep env h w s = (if retry_due env w
     then snd (tryPushToWebSocketBeacon env h (set_item h (w\<lparr>Status := Pending, RetryAfter := None\<rparr>) s))
     else s)"

lemma retryLoop_Cons:
  "retryLoop env (h # hs) s = (case oget (WorkQueue s) h of None \<Rightarrow> TypeErr s
     | Some w \<Rightarrow> retryLoop env hs (retryStep env h w s))"
  unfolding retryStep_def by (rule retryLoop.simps)

lemma retryStep_get:
  assumes "oget (WorkQueue s) h = Some w"
  shows "k \<noteq> h \<Longrightarrow> same_at k s (retryStep env h w s)"
    "\<exists>w'. oget (WorkQueue (retryStep env h w s)) h = Some w' \<and> \<not> retry_due env w'"
proof -
  let ?w = "w\<lparr>Status := Pending, RetryAfter := None\<rparr>"
  have calm: "calm (set_item h ?w s) (snd (tryPushToWebSocketBeacon env h (set_item h ?w s)))"
    by (rule tryPush_calm) (auto simp: obj_simps)
  show "same_at k s (retryStep env h w s)" if "k \<noteq> h"
  proof -
    have "same_at k s (set_item h ?w s)" using that by (intro same_at_other) (simp_all add: obj_simps)
    with same_at_calm [OF calm, of k] show ?thesis
      by (auto simp: retryStep_def intro: same_at_trans)
  qed
  have "oget (WorkQueue (set_item h ?w s)) h = Some ?w" by (simp add: obj_simps)
  from calmD(2) [OF calm this] show "\<exists>w'. oget (WorkQueue (retryStep env h w s)) h = Some w' \<and> \<not> retry_due env w'"
    using assms by (auto simp: retryStep_def may_become_def retry_due_def)
qed

lemma retryLoop_gone:
  assumes "k \<in> set hs" "oget (WorkQueue s) k = None"
  shows "\<exists>s'. retryLoop env hs s = TypeErr s'"
  using assms
proof (induction hs arbitrary: s)
  case (Cons h hs)
  show ?case
  proof (cases "oget (WorkQueue s) h")
    case (Some w)
    with Cons.prems have "k \<noteq> h" "k \<in> set hs" by auto
    moreover from retryStep_get(1) [OF Some \<open>k \<noteq> h\<close>, of env] Cons.prems(2)
    have "oget (WorkQueue (retryStep env h w s)) k = None" by (simp add: same_at_def)
    ultimately show ?thesis using Cons.IH Some unfolding retryLoop_Cons by simp
  qed simp
qed simp

text \<open>An item that is not due stays so while other items are pushed.\<close>

lemma not_due_stays:
  assumes "same_at k s s'" "oget (WorkQueue s) k = Some w" "\<not> retry_due env w"
  shows "\<exists>w'. oget (WorkQueue s') k = Some w' \<and> \<not> retry_due env w'"
  using assms by (fastforce simp: same_at_def may_become_def retry_due_def same_deadline_def placed_def)

lemma retryLoop_run:
  assumes "\<And>k. k \<in> set hs \<Longrightarrow> oget (WorkQueue s) k \<noteq> None"
  shows "\<exists>s'. retryLoop env hs s = Done s' \<and>
    (\<forall>k w. oget (WorkQueue s') k = Some w \<longrightarrow> k \<in> set hs \<or> (\<forall>v. oget (WorkQueue s) k = Some v \<longrightarrow> \<not> retry_due env v)
       \<longrightarrow> \<not> retry_due env w)"
  using assms
proof (induction hs arbitrary: s)
  case Nil
  then show ?case by auto
next
  case (Cons h hs)
  from Cons.prems [of h] obtain w where w: "oget (WorkQueue s) h = Some w" by auto
  let ?s = "retryStep env h w s"
  note step = retryStep_get [OF w, where env = env]
  have there: "oget (WorkQueue ?s) k \<noteq> None" if "k \<in> set hs" for k
    using step Cons.prems [of k] that by (cases "k = h") (force simp: same_at_def)+
  from Cons.IH [OF there] obtain s' where s': "retryLoop env hs ?s = Done s'"
    "\<And>k v. oget (WorkQueue s') k = Some v \<Longrightarrow>
       k \<in> set hs \<or> (\<forall>x. oget (WorkQueue ?s) k = Some x \<longrightarrow> \<not> retry_due env x) \<Longrightarrow> \<not> retry_due env v"
    by blast
  have "\<not> retry_due env v" if v: "oget (WorkQueue s') k = Some v"
    and k: "k \<in> set (h # hs) \<or> (\<forall>x. oget (WorkQueue s) k = Some x \<longrightarrow> \<not> retry_due env x)" for k v
  proof (cases "k \<in> set hs")
    case True
    with s'(2) [OF v] show ?thesis by blast
  next
    case False
    have "\<forall>x. oget (WorkQueue ?s) k = Some x \<longrightarrow> \<not> retry_due env x"
    proof (cases "k = h")
      case True
      with step(2) show ?thesis by auto
    next
      case ne: False
      with k False have old: "\<forall>x. oget (WorkQueue s) k = Some x \<longrightarrow> \<not> retry_due env x" by simp
      show ?thesis
      proof (cases "oget (WorkQueue s) k")
        case None
        with step(1) [OF ne] show ?thesis by (simp add: same_at_def)
      next
        case (Some x)
        with old not_due_stays [OF step(1) [OF ne] Some] show ?thesis by auto
      qed
    qed
    with s'(2) [OF v] show ?thesis by blast
  qed
  with s'(1) w show ?case unfolding retryLoop_Cons by (intro exI [of _ s']) auto
qed

subsection \<open>The properties of the timeout check\<close>

text \<open>
  C37. The timeout check throws: in a reachable state, when an item has timed out that has no attempt
  left and no engine run (or has a waiting caller), the first loop deletes it and the second loop,
  which walks over the same keys, reads its status from \<open>undefined\<close>. The check ends with a
  \<open>TypeError\<close>; the heartbeat scan and the cleanup of expired bindings do not run.
\<close>

theorem timeout_check_throws:
  assumes "hub_reach env s" "later env env'" "dropped_by_timeout env' s h"
  shows "\<exists>s'. checkTimeouts env' s = TypeErr s'"
proof -
  let ?hs = "okeys (WorkQueue s)"
  have inv: "slot_inv env' {} s"
    by (rule slot_inv_later [OF reach_slot_inv [OF assms(1)] assms(2)])
  have h: "h \<in> set ?hs"
    using assms(3) jo.keys_get [of h "WorkQueue s"] by (auto simp: dropped_by_timeout_def)
  obtain s1 where s1: "timeoutLoop env' ?hs s = Done s1"
    "\<forall>k. k \<in> set ?hs \<longrightarrow> dropped_by_timeout env' s k \<longrightarrow> oget (WorkQueue s1) k = None"
    using timeoutLoop_run [OF inv slot_inv_owf(1) [OF inv]] jo.keys_get [of _ "WorkQueue s"] by blast
  from s1(2) h assms(3) have "oget (WorkQueue s1) h = None" by blast
  then obtain s2 where "retryLoop env' ?hs s1 = TypeErr s2"
    using retryLoop_gone [OF h] by blast
  with s1(1) show ?thesis by (simp add: checkTimeouts_def Let_def)
qed

lemma timeoutLoop_quiet:
  "(\<And>h. h \<in> set hs \<Longrightarrow> \<exists>w. oget (WorkQueue s) h = Some w \<and> \<not> timed_out env w) \<Longrightarrow>
    timeoutLoop env hs s = Done s"
proof (induction hs)
  case (Cons h hs)
  from Cons.prems [of h] obtain w where "oget (WorkQueue s) h = Some w" "\<not> timed_out env w" by auto
  with Cons show ?case by simp
qed simp

text \<open>
  What a timeout check achieves when nothing has timed out: it ends normally; no item is left
  whose retry is due; every beacon that missed its heartbeat is Offline; and no binding that has
  expired is left.
\<close>

theorem timeout_check_completes:
  assumes "\<And>h w. oget (WorkQueue s) h = Some w \<Longrightarrow> \<not> timed_out env w"
    and "owf (AffinityBindings s)"
  shows "\<exists>s'. checkTimeouts env s = Done s' \<and>
    (\<forall>h w. oget (WorkQueue s') h = Some w \<longrightarrow> \<not> retry_due env w) \<and>
    (\<forall>b bcn. oget (Beacons s') b = Some bcn \<longrightarrow> missed_heartbeat env bcn \<longrightarrow> BeaconStatus bcn = Offline) \<and>
    (\<forall>k bd. (k, bd) \<in> set (AffinityBindings s') \<longrightarrow> \<not> expired_binding env bd)"
proof -
  let ?hs = "okeys (WorkQueue s)"
  have first: "timeoutLoop env ?hs s = Done s"
    using assms(1) jo.keys_get [of _ "WorkQueue s"] by (intro timeoutLoop_quiet) blast
  obtain s2 where s2: "retryLoop env ?hs s = Done s2"
    "\<And>k w. oget (WorkQueue s2) k = Some w \<Longrightarrow> k \<in> set ?hs \<or>
        (\<forall>v. oget (WorkQueue s) k = Some v \<longrightarrow> \<not> retry_due env v) \<Longrightarrow> \<not> retry_due env w"
    using retryLoop_run [of ?hs s env] jo.keys_get [of _ "WorkQueue s"] by blast
  have due: "\<not> retry_due env w" if "oget (WorkQueue s2) h = Some w" for h w
    using s2(2) [OF that] jo.keys_get [of h "WorkQueue s"] by blast
  let ?s = "dropExpiredBindings env (markOfflineBeacons env s2)"
  have "BeaconStatus bcn = Offline" if b: "oget (Beacons ?s) b = Some bcn" "missed_heartbeat env bcn" for b bcn
  proof -
    let ?f = "\<lambda>k v. if missed_heartbeat env v then v\<lparr>BeaconStatus := Offline\<rparr> else v"
    have "oget (Beacons ?s) b = map_option (?f b) (oget (Beacons s2) b)"
      unfolding oget_map_values [of ?f, symmetric]
      by (simp add: dropExpiredBindings_def markOfflineBeacons_def)
    with b(1) obtain v where v: "bcn = ?f b v" by auto
    with b(2) show ?thesis by (cases "missed_heartbeat env v") auto
  qed
  moreover have "checkTimeouts env s = Done ?s"
    using first s2(1) by (simp add: checkTimeouts_def Let_def)
  ultimately show ?thesis
    using due by (intro exI [of _ ?s]) (auto simp: dropExpiredBindings_def markOfflineBeacons_def)
qed

subsection \<open>The health tick\<close>

lemma stall_others:
  assumes "k \<noteq> h"
  shows "oget (WorkQueue s) k = None \<longleftrightarrow> oget (WorkQueue (snd (stallWorkItem env h s))) k = None"
proof (cases "oget (WorkQueue s) h")
  case None
  then show ?thesis by (simp add: stallWorkItem_def)
next
  case (Some w)
  have "oget (WorkQueue (removeWorkItemFromBeacon env bo h (emit_when b1 e1 (emit_when b2 e2 (set_item h v s))))) k = None
      \<longleftrightarrow> oget (WorkQueue s) k = None" for bo b1 e1 b2 e2 v
    using calmD(1) [OF removeFromBeacon_calm, of _ k] assms by (simp add: obj_simps)
  with Some assms show ?thesis by (simp add: stallWorkItem_def Let_def obj_simps)
qed

lemma healthStep_others:
  assumes s: "slot_inv env X s" and w: "oget (WorkQueue s) h = Some w" and "k \<noteq> h"
  shows "oget (WorkQueue s) k = None \<longleftrightarrow> oget (WorkQueue (healthStep env h w s)) k = None"
proof -
  note hash = slot_inv_hash [OF s w]
  have mark: "oget (WorkQueue t) k = None \<longleftrightarrow> oget (WorkQueue (maybeMarkStalled env h v t)) k = None"
    if "WorkItemHash v = h" for v t
  proof -
    have "oget (WorkQueue (snd (stallWorkItem env h u))) k = None \<longleftrightarrow> oget (WorkQueue u) k = None" for u
      using stall_others [OF assms(3)] by blast
    then show ?thesis
      using assms(3) that
      by (simp add: maybeMarkStalled_def Let_def stallRecord_def obj_simps split: option.split)
  qed
  have "oget (WorkQueue (snd (updateHealth env h w s))) k = oget (WorkQueue s) k"
    using assms(3) by (simp add: updateHealth_def Let_def obj_simps)
  moreover have "WorkItemHash (fst (updateHealth env h w s)) = h"
    using hash by (simp add: updateHealth_def Let_def)
  moreover note mark [of "fst (updateHealth env h w s)" "snd (updateHealth env h w s)"]
  ultimately have up: "oget (WorkQueue s) k = None \<longleftrightarrow> oget (WorkQueue (maybeMarkStalled env h
      (fst (updateHealth env h w s)) (snd (updateHealth env h w s)))) k = None" by simp
  show ?thesis
  proof (cases "terminal_status (Status w) \<or> Status w = Stalled")
    case True
    then have "healthStep env h w s = s" using recover_none [OF s w] by (auto simp: healthStep_def)
    then show ?thesis by simp
  next
    case False
    with up show ?thesis by (simp add: healthStep_def case_prod_beta)
  qed
qed

lemma healthLoop_done:
  assumes "slot_inv env X s" "distinct hs" "\<And>k. k \<in> set hs \<Longrightarrow> oget (WorkQueue s) k \<noteq> None"
  shows "\<exists>s'. healthLoop env hs s = Done s'"
  using assms
proof (induction hs arbitrary: s)
  case (Cons h hs)
  from Cons.prems(3) [of h] obtain w where w: "oget (WorkQueue s) h = Some w" by auto
  have "oget (WorkQueue (healthStep env h w s)) k \<noteq> None" if "k \<in> set hs" for k
    using healthStep_others [OF Cons.prems(1) w, of k] Cons.prems(2,3) that by auto
  with Cons.IH [OF healthStep_slots [OF Cons.prems(1) w]] Cons.prems(2) w show ?case by simp
qed simp

text \<open>
  C38. The health tick does not throw: in every reachable state it ends normally, although it deletes
  the items that it stalls while it walks over the keys of the queue.
\<close>

theorem health_tick_completes:
  assumes "hub_reach env s" "later env env'"
  shows "\<exists>s'. healthTick env' s = Done s'"
proof -
  have inv: "slot_inv env' {} s"
    by (rule slot_inv_later [OF reach_slot_inv [OF assms(1)] assms(2)])
  show ?thesis
    unfolding healthTick_def
    using healthLoop_done [OF inv slot_inv_owf(1) [OF inv]] jo.keys_get [of _ "WorkQueue s"] by blast
qed

end
