(* ===== verification/SchedulerProperties.thy ===== *)
theory SchedulerProperties
  imports HubSystem Redispatch
begin

section \<open>The scheduler: order, choice, health, stall, reorder\<close>

text \<open>
  Properties of \<open>Ultravisor-Beacon-Scheduler.cjs\<close>. The comparator of the dispatch order meets the
  contract of a stable sort, so the dispatch list is ordered and fair among equals.
\<close>

subsection \<open>The dispatch order\<close>

lemma compare_stamp_sym: "compare_stamp a b < 0 \<longleftrightarrow> 0 < compare_stamp b a"
  by (auto simp: compare_stamp_def split: option.splits)

lemma compare_stamp_trans: "compare_stamp a b \<le> 0 \<Longrightarrow> compare_stamp b c \<le> 0 \<Longrightarrow> compare_stamp a c \<le> 0"
  by (auto simp: compare_stamp_def split: option.splits if_splits)

interpretation dispatch_order: comparator compareDispatchPriority
proof
  fix x y
  show "compareDispatchPriority x y < 0 \<longleftrightarrow> 0 < compareDispatchPriority y x"
    using compare_stamp_sym by (auto simp: compareDispatchPriority_def)
next
  fix x y z
  assume "compareDispatchPriority x y \<le> 0" "compareDispatchPriority y z \<le> 0"
  then show "compareDispatchPriority x z \<le> 0"
    using compare_stamp_trans [of "dispatch_stamp x" "dispatch_stamp y" "dispatch_stamp z"]
    by (auto simp: compareDispatchPriority_def split: if_splits)
qed

interpretation entry_order: comparator "\<lambda>a b :: string \<times> work_item. compareDispatchPriority (snd a) (snd b)"
  by standard (auto simp: dispatch_order.cmp_sym intro: dispatch_order.cmp_trans)

text \<open>
  The order in which a tick serves the queue: exactly the Queued and Pending entries, each once;
  a higher priority before a lower one; among equal priorities the older stamp first; and entries
  that compare equal in the order in which they were enqueued.
\<close>

theorem dispatch_order_fair:
  "mset (dispatchable s) = mset (filter (\<lambda>(h, w). Status w = Queued \<or> Status w = Pending) (WorkQueue s)) \<and>
   (\<forall>i j. i < j \<longrightarrow> j < length (dispatchable s) \<longrightarrow>
      (let a = snd (dispatchable s ! i); b = snd (dispatchable s ! j)
       in Priority b < Priority a \<or>
          Priority a = Priority b \<and> compare_stamp (dispatch_stamp a) (dispatch_stamp b) \<le> 0)) \<and>
   filter (\<lambda>e. compareDispatchPriority (snd e) w = 0) (dispatchable s) =
     filter (\<lambda>e. compareDispatchPriority (snd e) w = 0)
       (filter (\<lambda>(h, w). Status w = Queued \<or> Status w = Pending) (WorkQueue s))"
proof (intro conjI allI impI)
  show "mset (dispatchable s) = mset (filter (\<lambda>(h, w). Status w = Queued \<or> Status w = Pending) (WorkQueue s))"
    unfolding dispatchable_def by (rule mset_sort_by)
next
  fix i j
  assume ij: "i < j" "j < length (dispatchable s)"
  let ?a = "snd (dispatchable s ! i)" and ?b = "snd (dispatchable s ! j)"
  have rank: "assigned_rank (snd e) = 0" if "e \<in> set (dispatchable s)" for e
    using that by (auto simp: dispatchable_def assigned_rank_def)
  have "sorted_wrt (\<lambda>x y. compareDispatchPriority (snd x) (snd y) \<le> 0) (dispatchable s)"
    unfolding dispatchable_def by (rule entry_order.sorted_sort_by)
  then have "compareDispatchPriority ?a ?b \<le> 0" using ij by (simp add: sorted_wrt_iff_nth_less)
  moreover have "assigned_rank ?a = 0" "assigned_rank ?b = 0"
    using rank [OF nth_mem] ij by simp_all
  ultimately show "let a = ?a; b = ?b in Priority b < Priority a \<or>
      Priority a = Priority b \<and> compare_stamp (dispatch_stamp a) (dispatch_stamp b) \<le> 0"
    by (auto simp: compareDispatchPriority_def Let_def split: if_splits)
next
  show "filter (\<lambda>e. compareDispatchPriority (snd e) w = 0) (dispatchable s) =
      filter (\<lambda>e. compareDispatchPriority (snd e) w = 0)
        (filter (\<lambda>(h, w). Status w = Queued \<or> Status w = Pending) (WorkQueue s))"
    unfolding dispatchable_def using entry_order.sort_by_stable [of "([], w)"] by simp
qed

subsection \<open>The choice of a beacon\<close>

text \<open>What the loop over the beacons returns: the first of the least loaded ones that can take it.\<close>

lemma leastLoaded_best:
  assumes "leastLoaded w bs best = Some (k, b)"
    and "\<And>k' b'. best = Some (k', b') \<Longrightarrow> beaconCanTake b' w"
  shows "((k, b) \<in> set bs \<or> best = Some (k, b)) \<and> beaconCanTake b w \<and>
    (\<forall>(k', b') \<in> set bs. beaconCanTake b' w \<longrightarrow> length (CurrentWorkItems b) \<le> length (CurrentWorkItems b')) \<and>
    (\<forall>k' b'. best = Some (k', b') \<longrightarrow> length (CurrentWorkItems b) \<le> length (CurrentWorkItems b'))"
  using assms
proof (induction bs arbitrary: best)
  case (Cons kb bs)
  obtain k1 b1 where kb: "kb = (k1, b1)" by (rule prod.exhaust)
  let ?better = "beaconCanTake b1 w \<and> (case best of None \<Rightarrow> True
      | Some (k', b') \<Rightarrow> length (CurrentWorkItems b1) < length (CurrentWorkItems b'))"
  define nxt where "nxt = (if ?better then Some (k1, b1) else best)"
  have a1: "leastLoaded w bs nxt = Some (k, b)" using Cons.prems(1) by (simp add: kb nxt_def)
  have a2: "beaconCanTake b' w" if "nxt = Some (k', b')" for k' b'
    using that Cons.prems(2) by (auto simp: nxt_def split: if_splits)
  have IH: "((k, b) \<in> set bs \<or> nxt = Some (k, b)) \<and> beaconCanTake b w \<and>
    (\<forall>(k', b') \<in> set bs. beaconCanTake b' w \<longrightarrow> length (CurrentWorkItems b) \<le> length (CurrentWorkItems b')) \<and>
    (\<forall>k' b'. nxt = Some (k', b') \<longrightarrow> length (CurrentWorkItems b) \<le> length (CurrentWorkItems b'))"
    by (rule Cons.IH [OF a1]) (rule a2)
  have ih1: "(k, b) \<in> set bs \<or> nxt = Some (k, b)" using IH by (rule conjunct1)
  have ih2: "beaconCanTake b w" using IH by (elim conjE)
  have ih3: "\<forall>(k', b') \<in> set bs. beaconCanTake b' w \<longrightarrow> length (CurrentWorkItems b) \<le> length (CurrentWorkItems b')"
    using IH by (elim conjE)
  have ih4: "length (CurrentWorkItems b) \<le> length (CurrentWorkItems b')" if "nxt = Some (k', b')" for k' b'
    using IH that by blast
  have old: "length (CurrentWorkItems b) \<le> length (CurrentWorkItems b')" if best: "best = Some (k', b')" for k' b'
  proof (cases ?better)
    case True
    then have "nxt = Some (k1, b1)" by (simp add: nxt_def)
    from ih4 [OF this] True best show ?thesis by simp
  next
    case False
    then have "nxt = best" unfolding nxt_def by (rule if_not_P)
    with best ih4 show ?thesis by simp
  qed
  have new: "length (CurrentWorkItems b) \<le> length (CurrentWorkItems b1)" if "beaconCanTake b1 w"
  proof (cases ?better)
    case True
    with ih4 [of k1 b1] show ?thesis by (simp add: nxt_def)
  next
    case False
    with that obtain k' b' where "best = Some (k', b')" "length (CurrentWorkItems b') \<le> length (CurrentWorkItems b1)"
      by (auto split: option.splits)
    with old show ?thesis by fastforce
  qed
  show ?case
    using ih1 ih2 ih3 old new by (cases ?better) (auto simp: kb nxt_def)
qed simp

lemma leastLoaded_none:
  "leastLoaded w bs best = None \<longleftrightarrow> best = None \<and> (\<forall>(k, b) \<in> set bs. \<not> beaconCanTake b w)"
proof (induction bs arbitrary: best)
  case (Cons kb bs)
  then show ?case by (cases kb) (auto split: option.splits)
qed simp

lemma pickBeacon_any:
  "AssignedBeaconID w = None \<Longrightarrow> AffinityKey w = [] \<or> findBeaconByName (AffinityKey w) s = None \<Longrightarrow>
    pickBeacon w s = leastLoaded w (Beacons s) None"
  by (auto simp: pickBeacon_def)

text \<open>
  C39. \<open>_pickBeacon\<close> picks a registered beacon that can take the item (online, capable, a free slot).
  An item that is already assigned goes only to its beacon, an item whose affinity key names a
  beacon only to that one; any other item goes to a least loaded beacon that can take it, and is
  left waiting only when no registered beacon can.
\<close>

theorem pickBeacon_correct:
  assumes "owf (Beacons s)"
  shows "case pickBeacon w s of
      Some (k, b) \<Rightarrow> oget (Beacons s) k = Some b \<and> beaconCanTake b w \<and>
        (\<forall>a. AssignedBeaconID w = Some a \<longrightarrow> k = a) \<and>
        (AssignedBeaconID w = None \<longrightarrow> AffinityKey w \<noteq> [] \<longrightarrow> findBeaconByName (AffinityKey w) s \<noteq> None \<longrightarrow>
           Name b = AffinityKey w) \<and>
        (AssignedBeaconID w = None \<longrightarrow> (AffinityKey w = [] \<or> findBeaconByName (AffinityKey w) s = None) \<longrightarrow>
           (\<forall>k' b'. oget (Beacons s) k' = Some b' \<longrightarrow> beaconCanTake b' w \<longrightarrow>
              length (CurrentWorkItems b) \<le> length (CurrentWorkItems b')))
    | None \<Rightarrow> AssignedBeaconID w = None \<longrightarrow> (AffinityKey w = [] \<or> findBeaconByName (AffinityKey w) s = None) \<longrightarrow>
        (\<forall>k' b'. oget (Beacons s) k' = Some b' \<longrightarrow> \<not> beaconCanTake b' w)"
proof (cases "pickBeacon w s")
  case None
  then show ?thesis
    by (auto simp: pickBeacon_def leastLoaded_none dest: oget_in split: option.splits if_splits)
next
  case (Some kb)
  then obtain k b where kb: "pickBeacon w s = Some (k, b)" by (cases kb) simp
  note get = pickBeacon_get [OF kb assms]
  have least: "length (CurrentWorkItems b) \<le> length (CurrentWorkItems b')"
    if "AssignedBeaconID w = None" "AffinityKey w = [] \<or> findBeaconByName (AffinityKey w) s = None"
      "oget (Beacons s) k' = Some b'" "beaconCanTake b' w" for k' b'
  proof -
    have "leastLoaded w (Beacons s) None = Some (k, b)"
      using kb pickBeacon_any [OF that(1,2)] by simp
    from leastLoaded_best [OF this] oget_in [OF that(3)] that(4) show ?thesis by fastforce
  qed
  show ?thesis
    using kb get least findBeaconByName_get(2) [OF _ assms]
    by (auto simp: pickBeacon_def split: option.splits if_splits)
qed

text \<open>
  The tick does not honour \<open>RequireAffinityMatch\<close>: a strict item whose affinity key names no
  registered beacon, which the push, the poll and the routing of the coordinator all hold back for
  that beacon, is given to any other beacon that can take it.
\<close>

theorem strict_item_dispatched_elsewhere:
  assumes "RequireAffinityMatch w" "AffinityKey w \<noteq> []" "AssignedBeaconID w = None"
    and "findBeaconByName (AffinityKey w) s = None"
    and "(k, b) \<in> set (Beacons s)" "beaconCanTake b w" "owf (Beacons s)"
  shows "\<exists>k' b'. pickBeacon w s = Some (k', b') \<and> \<not> beaconSatisfiesAffinity w b'"
proof -
  have "pickBeacon w s = leastLoaded w (Beacons s) None"
    using assms(3,4) by (simp add: pickBeacon_def)
  moreover have "leastLoaded w (Beacons s) None \<noteq> None"
    using assms(5,6) by (auto simp: leastLoaded_none)
  ultimately obtain k' b' where p: "pickBeacon w s = Some (k', b')" by auto
  have "Name b' \<noteq> AffinityKey w"
  proof -
    have "(k', b') \<in> set (Beacons s)" using pickBeacon_get(1) [OF p assms(7)] by (rule oget_in)
    with assms(4) show ?thesis by (force simp: findBeaconByName_def find_None_iff)
  qed
  with p assms(1,2) show ?thesis by (simp add: beaconSatisfiesAffinity_def)
qed

subsection \<open>One tick\<close>

lemma dispatchItem_writes:
  "\<exists>st. WorkQueue (dispatchItemToBeacon env h w k bcn s) =
      oset h ((dispatchRecord env bcn w)\<lparr>Settings := st\<rparr>) (WorkQueue s)"
  "Beacons (dispatchItemToBeacon env h w k bcn s) =
    oset k (bcn\<lparr>CurrentWorkItems := push_new (WorkItemHash w) (CurrentWorkItems bcn)\<rparr>) (Beacons s)"
proof -
  let ?w = "dispatchRecord env bcn w"
  define u where "u = emit_when (sched_persists env ?w) (dispatchEffects env (Status w) ?w)
    (set_beacon k (bcn\<lparr>CurrentWorkItems := push_new (WorkItemHash w) (CurrentWorkItems bcn)\<rparr>) (set_item h ?w s))"
  define v where "v = snd (dispatchPush env (BeaconID bcn) h ?w u)"
  have res: "WorkQueue (dispatchItemToBeacon env h w k bcn s) = WorkQueue v"
    "Beacons (dispatchItemToBeacon env h w k bcn s) = Beacons v"
    by (simp_all add: dispatchItemToBeacon_def Let_def case_prod_beta u_def v_def)
  have "Beacons v = Beacons u \<and> (\<exists>st. WorkQueue v = oset h (?w\<lparr>Settings := st\<rparr>) (WorkQueue u))"
  proof (cases "PushHandler env")
    case None
    then have "v = u" by (simp add: v_def dispatchPush_def)
    moreover have "WorkQueue u = oset h (?w\<lparr>Settings := Settings ?w\<rparr>) (WorkQueue u)" by (simp add: u_def)
    ultimately show ?thesis by metis
  next
    case (Some ph)
    obtain ok w' s' where p: "push_to env ph (BeaconID bcn) h ?w u = (ok, w', s')" by (rule prod_cases3)
    from push_toD [OF p] p Some show ?thesis by (auto simp: v_def dispatchPush_def)
  qed
  then show "\<exists>st. WorkQueue (dispatchItemToBeacon env h w k bcn s) =
      oset h (?w\<lparr>Settings := st\<rparr>) (WorkQueue s)"
    "Beacons (dispatchItemToBeacon env h w k bcn s) =
      oset k (bcn\<lparr>CurrentWorkItems := push_new (WorkItemHash w) (CurrentWorkItems bcn)\<rparr>) (Beacons s)"
    by (auto simp: res u_def)
qed

definition limit_of :: "beacon \<Rightarrow> int" where
  "limit_of b = num_or (MaxConcurrent b) 1"

text \<open>How a tick may change a beacon: items are added, up to the limit.\<close>

definition filled :: "beacon option \<Rightarrow> beacon option \<Rightarrow> bool" where
  "filled x y \<longleftrightarrow> (case (x, y) of (None, None) \<Rightarrow> True
     | (Some b, Some b') \<Rightarrow> set (CurrentWorkItems b) \<subseteq> set (CurrentWorkItems b') \<and>
         MaxConcurrent b' = MaxConcurrent b \<and>
         (b' = b \<or> int (length (CurrentWorkItems b')) \<le> limit_of b)
     | _ \<Rightarrow> False)"

lemma filled_refl [simp]: "filled x x"
  by (simp add: filled_def split: option.split)

lemma filled_trans: "filled x y \<Longrightarrow> filled y z \<Longrightarrow> filled x z"
  by (cases x; cases y; cases z) (auto simp: filled_def limit_of_def)

definition tick_result :: "hub_env \<Rightarrow> string \<Rightarrow> work_item \<Rightarrow> coord \<Rightarrow> bool" where
  "tick_result env h w s' \<longleftrightarrow>
     (if CancelRequested w
      then oget (WorkQueue s') h = Some (cancelRecord env ''Canceled before dispatch'' w)
      else oget (WorkQueue s') h = Some w \<or>
        (\<exists>w' b bcn. oget (WorkQueue s') h = Some w' \<and> Status w' = Dispatched \<and>
           AssignedBeaconID w' = Some b \<and> AttemptNumber w' = AttemptNumber w + 1 \<and>
           oget (Beacons s') b = Some bcn \<and> h \<in> set (CurrentWorkItems bcn)))"

lemma tick_result_later:
  assumes "tick_result env h w s" "oget (WorkQueue s') h = oget (WorkQueue s) h"
    and "\<And>b. filled (oget (Beacons s) b) (oget (Beacons s') b)"
  shows "tick_result env h w s'"
proof -
  have "\<exists>bcn'. oget (Beacons s') b = Some bcn' \<and> h \<in> set (CurrentWorkItems bcn')"
    if "oget (Beacons s) b = Some bcn" "h \<in> set (CurrentWorkItems bcn)" for b bcn
    using assms(3) [of b] that by (auto simp: filled_def split: option.splits)
  with assms(1,2) show ?thesis unfolding tick_result_def by (auto split: if_splits)
qed

definition tickStep :: "hub_env \<Rightarrow> string \<Rightarrow> work_item \<Rightarrow> coord \<Rightarrow> coord" where
  "tickStep env h w s = (if CancelRequested w then markCanceled env h ''Canceled before dispatch'' w s
      else (case pickBeacon w s of None \<Rightarrow> s
            | Some (k, bcn) \<Rightarrow> dispatchItemToBeacon env h w k bcn s))"

lemma tickStep_run:
  assumes s: "slot_inv env {} s" and w: "oget (WorkQueue s) h = Some w"
  shows "slot_inv env {} (tickStep env h w s)"
    "k \<noteq> h \<Longrightarrow> oget (WorkQueue (tickStep env h w s)) k = oget (WorkQueue s) k"
    "filled (oget (Beacons s) b) (oget (Beacons (tickStep env h w s)) b)"
    "tick_result env h w (tickStep env h w s)"
proof -
  note hash = slot_inv_hash [OF s w]
  have cancel: "WorkQueue (markCanceled env h r w s) = oset h (cancelRecord env r w) (WorkQueue s)"
    "Beacons (markCanceled env h r w s) = Beacons s" for r
    by (simp_all add: markCanceled_def Let_def)
  show "slot_inv env {} (tickStep env h w s)"
    using dispatchAll_slots [OF s, of "[(h, w)]"] hash by (simp add: tickStep_def)
  show "oget (WorkQueue (tickStep env h w s)) k = oget (WorkQueue s) k" if "k \<noteq> h"
  proof -
    have "oget (WorkQueue (dispatchItemToBeacon env h w a b s)) k = oget (WorkQueue s) k" for a b
    proof -
      obtain st where "WorkQueue (dispatchItemToBeacon env h w a b s) =
          oset h ((dispatchRecord env b w)\<lparr>Settings := st\<rparr>) (WorkQueue s)"
        using dispatchItem_writes(1) by blast
      with that show ?thesis by (simp add: obj_simps)
    qed
    with that show ?thesis by (simp add: tickStep_def cancel obj_simps split: option.split)
  qed
  have pick: "oget (Beacons s) k = Some bcn" "beaconCanTake bcn w" "BeaconID bcn = k"
    if "pickBeacon w s = Some (k, bcn)" for k bcn
    using pickBeacon_get [OF that slot_inv_owf(2) [OF s]] slot_inv_id [OF s] by auto
  have room: "int (length (push_new (WorkItemHash w) (CurrentWorkItems bcn))) \<le> limit_of bcn"
    if "beaconCanTake bcn w" for bcn
    using that length_push_new [of "WorkItemHash w" "CurrentWorkItems bcn"]
    by (simp add: beaconCanTake_def limit_of_def)
  show "filled (oget (Beacons s) b) (oget (Beacons (tickStep env h w s)) b)"
    using pick(1) room [OF pick(2)]
    by (auto simp: tickStep_def cancel dispatchItem_writes(2) obj_simps filled_def split: option.split)
  show "tick_result env h w (tickStep env h w s)"
  proof (cases "CancelRequested w")
    case True
    then show ?thesis by (simp add: tick_result_def tickStep_def cancel obj_simps)
  next
    case False
    show ?thesis
    proof (cases "pickBeacon w s")
      case None
      with False w show ?thesis by (simp add: tick_result_def tickStep_def)
    next
      case (Some kb)
      then obtain k bcn where kb: "pickBeacon w s = Some (k, bcn)" by (cases kb) simp
      obtain st where "WorkQueue (dispatchItemToBeacon env h w k bcn s) =
          oset h ((dispatchRecord env bcn w)\<lparr>Settings := st\<rparr>) (WorkQueue s)"
        using dispatchItem_writes(1) by blast
      with False kb pick(3) [OF kb] hash show ?thesis
        by (auto simp: tick_result_def tickStep_def dispatchItem_writes(2) obj_simps)
          (simp add: dispatchRecord_def Let_def)
    qed
  qed
qed

lemma dispatchAll_run:
  assumes "slot_inv env {} s" "distinct (map fst ws)"
    and "\<And>h w. (h, w) \<in> set ws \<Longrightarrow> oget (WorkQueue s) h = Some w"
  shows "(\<forall>k. k \<notin> set (map fst ws) \<longrightarrow> oget (WorkQueue (dispatchAll env ws s)) k = oget (WorkQueue s) k) \<and>
    (\<forall>b. filled (oget (Beacons s) b) (oget (Beacons (dispatchAll env ws s)) b)) \<and>
    (\<forall>h w. (h, w) \<in> set ws \<longrightarrow> tick_result env h w (dispatchAll env ws s))"
  using assms
proof (induction ws arbitrary: s)
  case Nil
  then show ?case by simp
next
  case (Cons hw ws)
  obtain h w where hw: "hw = (h, w)" by (rule prod.exhaust)
  let ?s = "tickStep env h w s"
  have w: "oget (WorkQueue s) h = Some w" using Cons.prems(3) hw by simp
  note step = tickStep_run [OF Cons.prems(1) w]
  have "oget (WorkQueue ?s) k = Some v" if "(k, v) \<in> set ws" for k v
  proof -
    have "k \<noteq> h" using that Cons.prems(2) hw by force
    with step(2) Cons.prems(3) [of k v] that show ?thesis by simp
  qed
  from Cons.IH [OF step(1) _ this] Cons.prems(2) hw
  have ih: "\<forall>k. k \<notin> set (map fst ws) \<longrightarrow> oget (WorkQueue (dispatchAll env ws ?s)) k = oget (WorkQueue ?s) k"
    "\<forall>b. filled (oget (Beacons ?s) b) (oget (Beacons (dispatchAll env ws ?s)) b)"
    "\<forall>h w. (h, w) \<in> set ws \<longrightarrow> tick_result env h w (dispatchAll env ws ?s)" by auto
  have all: "dispatchAll env (hw # ws) s = dispatchAll env ws ?s" by (simp add: hw tickStep_def)
  have "tick_result env h w (dispatchAll env ws ?s)"
    using ih(1,2) Cons.prems(2) hw by (intro tick_result_later [OF step(4)]) auto
  with ih step(2) show ?case
    unfolding all using filled_trans [OF step(3)] by (auto simp: hw)
qed

lemma dispatch_tick_run:
  assumes "slot_inv env {} s"
  shows "(\<forall>h w. oget (WorkQueue s) h = Some w \<longrightarrow>
      (if Status w = Queued \<or> Status w = Pending then tick_result env h w (dispatchTick env s)
       else oget (WorkQueue (dispatchTick env s)) h = Some w)) \<and>
    (\<forall>b bcn bcn'. oget (Beacons s) b = Some bcn \<longrightarrow> oget (Beacons (dispatchTick env s)) b = Some bcn' \<longrightarrow>
      bcn' = bcn \<or> int (length (CurrentWorkItems bcn')) \<le> num_or (MaxConcurrent bcn) 1)"
proof -
  let ?q = "filter (\<lambda>(h, w). Status w = Queued \<or> Status w = Pending) (WorkQueue s)"
  note owf = slot_inv_owf(1) [OF assms]
  have mem: "(h, w) \<in> set (dispatchable s) \<longleftrightarrow> (h, w) \<in> set (WorkQueue s) \<and> (Status w = Queued \<or> Status w = Pending)"
    for h w by (simp add: dispatchable_def)
  have "distinct (map fst ?q)" using owf by (simp add: distinct_map_filter)
  moreover have "mset (map fst (dispatchable s)) = mset (map fst ?q)"
    by (simp add: dispatchable_def mset_map mset_sort_by del: mset_filter)
  ultimately have dist: "distinct (map fst (dispatchable s))" by (metis mset_eq_imp_distinct_iff)
  have "(\<forall>k. k \<notin> set (map fst (dispatchable s)) \<longrightarrow> oget (WorkQueue (dispatchTick env s)) k = oget (WorkQueue s) k) \<and>
    (\<forall>b. filled (oget (Beacons s) b) (oget (Beacons (dispatchTick env s)) b)) \<and>
    (\<forall>h w. (h, w) \<in> set (dispatchable s) \<longrightarrow> tick_result env h w (dispatchTick env s))"
    unfolding dispatchTick_def
    by (rule dispatchAll_run [OF assms dist]) (use mem in_oget [OF owf] in blast)
  then have run: "\<And>k. k \<notin> set (map fst (dispatchable s)) \<Longrightarrow>
      oget (WorkQueue (dispatchTick env s)) k = oget (WorkQueue s) k"
    "\<And>b. filled (oget (Beacons s) b) (oget (Beacons (dispatchTick env s)) b)"
    "\<And>h w. (h, w) \<in> set (dispatchable s) \<Longrightarrow> tick_result env h w (dispatchTick env s)" by blast+
  have "if Status w = Queued \<or> Status w = Pending then tick_result env h w (dispatchTick env s)
       else oget (WorkQueue (dispatchTick env s)) h = Some w" if w: "oget (WorkQueue s) h = Some w" for h w
  proof (cases "Status w = Queued \<or> Status w = Pending")
    case True
    with run(3) [of h w] mem [of h w] oget_in [OF w] show ?thesis by simp
  next
    case False
    have "h \<notin> set (map fst (dispatchable s))"
    proof
      assume "h \<in> set (map fst (dispatchable s))"
      then obtain v where "(h, v) \<in> set (dispatchable s)" by auto
      with mem [of h v] in_oget [OF owf, of h v] w False show False by auto
    qed
    with run(1) False w show ?thesis by simp
  qed
  moreover have "bcn' = bcn \<or> int (length (CurrentWorkItems bcn')) \<le> num_or (MaxConcurrent bcn) 1"
    if "oget (Beacons s) b = Some bcn" "oget (Beacons (dispatchTick env s)) b = Some bcn'" for b bcn bcn'
    using run(2) [of b] that by (auto simp: filled_def limit_of_def)
  ultimately show ?thesis by blast
qed

text \<open>
  C14. What one dispatch tick does: an item that is neither Queued nor Pending is left as it is; a
  waiting item with a cancel request is canceled instead of sent; every other waiting item either
  stays as it was or becomes Dispatched on a registered beacon that now lists it, with one more
  attempt; and no beacon that receives an item ends above its \<open>MaxConcurrent\<close>.
\<close>

theorem dispatch_tick_correct:
  assumes "hub_reach env' s" "later env' env" "oget (WorkQueue s) h = Some w"
  shows "(if Status w = Queued \<or> Status w = Pending then tick_result env h w (dispatchTick env s)
       else oget (WorkQueue (dispatchTick env s)) h = Some w) \<and>
    (\<forall>b bcn bcn'. oget (Beacons s) b = Some bcn \<longrightarrow> oget (Beacons (dispatchTick env s)) b = Some bcn' \<longrightarrow>
      bcn' = bcn \<or> int (length (CurrentWorkItems bcn')) \<le> num_or (MaxConcurrent bcn) 1)"
  using dispatch_tick_run [OF slot_inv_later [OF reach_slot_inv [OF assms(1)] assms(2)]] assms(3) by blast

subsection \<open>Health\<close>

lemma toFixed4_near: "toFixed4 x \<le> y \<longleftrightarrow> \<lfloor>x * 10000 + 1 / 2\<rfloor> \<le> \<lfloor>y * 10000\<rfloor>"
  by (simp add: toFixed4_def divide_le_eq le_floor_iff)

lemma toFixed4_mono: "x \<le> y \<Longrightarrow> toFixed4 x \<le> toFixed4 y"
  unfolding toFixed4_def by (intro divide_right_mono) (simp_all add: floor_mono)

lemma toFixed4_fixed: "toFixed4 (of_int n / 10000) = of_int n / 10000"
proof -
  have "\<lfloor>of_int n + 1 / 2 :: rat\<rfloor> = n" by (rule floor_unique) simp_all
  then show ?thesis by (simp add: toFixed4_def)
qed

lemma toFixed4_marks:
  "toFixed4 0 = 0" "toFixed4 1 = 1" "toFixed4 (6 / 10) = 6 / 10" "toFixed4 (3 / 10) = 3 / 10"
  using toFixed4_fixed [of 0] toFixed4_fixed [of 10000] toFixed4_fixed [of 6000] toFixed4_fixed [of 3000]
  by simp_all

definition unit_dim :: "rat \<times> string \<Rightarrow> bool" where
  "unit_dim acc \<longleftrightarrow> 0 \<le> fst acc \<and> fst acc \<le> 1"

lemma unit_min_dim: "unit_dim acc \<Longrightarrow> 0 \<le> x \<Longrightarrow> unit_dim (min_dim x r acc)"
  by (simp add: unit_dim_def min_dim_def)

lemma unit_retryDim: "unit_dim (retryDim w)"
  by (auto simp: retryDim_def Let_def remaining_def intro!: unit_min_dim) (simp_all add: unit_dim_def)

lemma unit_scored:
  assumes "unit_dim acc"
  shows "\<exists>x. Score (scored acc) = Some x \<and> 0 \<le> x \<and> x \<le> 1 \<and>
    (Label (scored acc) = Healthy \<and> 6 / 10 \<le> x \<or> Label (scored acc) = Uncertain \<and> 3 / 10 \<le> x \<and> x \<le> 6 / 10 \<or>
     Label (scored acc) = Unhealthy \<and> x \<le> 3 / 10)"
proof -
  have "0 \<le> toFixed4 (fst acc)" "toFixed4 (fst acc) \<le> 1"
    using assms toFixed4_mono [of 0 "fst acc"] toFixed4_mono [of "fst acc" 1]
    by (simp_all add: unit_dim_def toFixed4_marks)
  moreover have "6 / 10 \<le> fst acc \<Longrightarrow> 6 / 10 \<le> toFixed4 (fst acc)"
    "3 / 10 \<le> fst acc \<Longrightarrow> 3 / 10 \<le> toFixed4 (fst acc)"
    "fst acc \<le> 6 / 10 \<Longrightarrow> toFixed4 (fst acc) \<le> 6 / 10"
    "fst acc \<le> 3 / 10 \<Longrightarrow> toFixed4 (fst acc) \<le> 3 / 10"
    using toFixed4_mono toFixed4_marks(3,4) by metis+
  ultimately show ?thesis
    unfolding scored_def thresholdLabel_def by auto
qed

lemma unit_waitDim: "unit_dim (min_dim (remaining1 a b) r (retryDim w))"
  by (intro unit_min_dim unit_retryDim) (simp add: remaining1_def)

lemma unit_runDim: "unit_dim (min_dim (remaining1 a b) r (min_dim (remaining c d) r' (retryDim w)))"
  by (intro unit_min_dim unit_retryDim) (simp_all add: remaining1_def remaining_def)

text \<open>
  A health reading is sound: either it is Unknown and has no score, or its score lies between 0
  and 1 and its label is the one of the thresholds 0.6 and 0.3 (up to the rounding of the score to
  four digits), whatever the item and the defaults hold.
\<close>

theorem health_score_sound:
  "(case Score (computeHealth env w) of
      None \<Rightarrow> Label (computeHealth env w) = UnknownHealth
    | Some x \<Rightarrow> 0 \<le> x \<and> x \<le> 1 \<and>
        (Label (computeHealth env w) = Healthy \<and> 6 / 10 \<le> x \<or>
         Label (computeHealth env w) = Uncertain \<and> 3 / 10 \<le> x \<and> x \<le> 6 / 10 \<or>
         Label (computeHealth env w) = Unhealthy \<and> x \<le> 3 / 10))"
proof -
  let ?sound = "\<lambda>hl. (case Score hl of None \<Rightarrow> Label hl = UnknownHealth
    | Some x \<Rightarrow> 0 \<le> x \<and> x \<le> 1 \<and> (Label hl = Healthy \<and> 6 / 10 \<le> x \<or>
         Label hl = Uncertain \<and> 3 / 10 \<le> x \<and> x \<le> 6 / 10 \<or> Label hl = Unhealthy \<and> x \<le> 3 / 10))"
  have unknown: "?sound unknown_health" by (simp add: unknown_health_def)
  have known: "?sound (scored acc)" if "unit_dim acc" for acc
    using unit_scored [OF that] by (elim exE conjE) (simp only: option.case)
  show ?thesis
    unfolding computeHealth_def waitHealth_def runHealth_def Let_def
    by (auto intro!: known unit_waitDim unit_runDim unit_retryDim unknown split del: option.split)
qed

lemma min_dim_fst: "fst (min_dim x r acc) = min x (fst acc)"
  by (simp add: min_dim_def)

lemma frac_mono: "0 < c \<Longrightarrow> a \<le> b \<Longrightarrow> frac a c \<le> frac b c"
  unfolding frac_def by (intro divide_right_mono) simp_all

lemma remaining_antimono:
  assumes "0 < c" "a \<le> b"
  shows "remaining b c \<le> remaining a c" "remaining1 b c \<le> remaining1 a c"
  using frac_mono [OF assms] by (simp_all add: remaining_def remaining1_def)

text \<open>
  Silence never improves the health: while a dispatched or running item reports nothing, a later
  reading of its health is never higher than an earlier one.
\<close>

theorem health_decays:
  assumes "Status w = Dispatched \<or> Status w = Running" "LastEventAt w = Some t" "later env env'"
    and "0 \<le> TimeoutMs w" "0 < heartbeatExpected env w"
  shows "\<exists>x y. Score (computeHealth env w) = Some x \<and> Score (computeHealth env' w) = Some y \<and> y \<le> x"
proof -
  have now: "Now env \<le> Now env'" and hb: "heartbeatExpected env' w = heartbeatExpected env w"
    using assms(3) by (simp_all add: later_def heartbeatExpected_def schedulerDefaults_def)
  let ?since = "\<lambda>e. max 0 (Now e - t)" and ?el = "\<lambda>e. max 0 (Now e - runStart e w)"
  define dims where "dims = (\<lambda>e. min_dim (remaining1 (?since e) (heartbeatExpected env w * 2)) ''event_freshness''
    (min_dim (remaining (?el e) (num_or (TimeoutMs w) 300000)) ''timeout_proximity'' (retryDim w)))"
  have score: "Score (computeHealth env w) = Some (toFixed4 (fst (dims env)))"
    "Score (computeHealth env' w) = Some (toFixed4 (fst (dims env')))"
    using assms(1,2) hb by (auto simp: computeHealth_def upcoming_def runHealth_def Let_def scored_def dims_def)
  have "?since env \<le> ?since env'" using now by simp
  then have "remaining1 (?since env') (heartbeatExpected env w * 2) \<le> remaining1 (?since env) (heartbeatExpected env w * 2)"
    using assms(5) by (intro remaining_antimono) simp_all
  moreover have "?el env \<le> ?el env'" using now by (auto simp: runStart_def split: option.split)
  then have "remaining (?el env') (num_or (TimeoutMs w) 300000) \<le> remaining (?el env) (num_or (TimeoutMs w) 300000)"
    using assms(4) by (intro remaining_antimono) (simp_all add: num_or_def)
  ultimately have "fst (dims env') \<le> fst (dims env)"
    unfolding dims_def min_dim_fst by (intro min.mono) simp_all
  then show ?thesis using score toFixed4_mono by blast
qed

subsection \<open>Stall\<close>

text \<open>
  A silent item is stalled, once and finally: in a reachable state, when a dispatched or running
  item has had no event for longer than the stall threshold (twice the expected heartbeat), the next
  health step marks it Stalled and hands the stall to its run; an item with no run, or with no
  engine, is dropped from the queue. Its former status is kept, its log and attempts are untouched.
\<close>

theorem silent_item_stalls:
  assumes "hub_reach env' s" "later env' env" "oget (WorkQueue s) h = Some w"
    and "Status w = Dispatched \<or> Status w = Running" "\<not> StallFinalized w"
    and "lastEvent w = Some t" "stallThreshold env w < Now env - t"
  shows "if RunHash w \<noteq> [] \<and> EngineOn env
    then \<exists>w'. oget (WorkQueue (healthStep env h w s)) h = Some w' \<and> Status w' = Stalled \<and>
      PriorStatusBeforeStall w' = Some (Status w) \<and> StallFinalized w' \<and>
      AttemptNumber w' = AttemptNumber w \<and> AccumulatedLog w' = AccumulatedLog w \<and>
      (\<exists>f. last (Effects (healthStep env h w s)) = EngineStall (RunHash w) (NodeHash w) f)
    else oget (WorkQueue (healthStep env h w s)) h = None"
proof -
  have inv: "slot_inv env {} s"
    by (rule slot_inv_later [OF reach_slot_inv [OF assms(1)] assms(2)])
  define v where "v = fst (updateHealth env h w s)"
  define u where "u = snd (updateHealth env h w s)"
  have hash: "WorkItemHash v = h"
    using slot_inv_hash [OF inv assms(3)] by (simp add: v_def updateHealth_def Let_def)
  have v: "Status v = Status w" "RunHash v = RunHash w" "NodeHash v = NodeHash w" "lastEvent v = Some t"
    "stallThreshold env v = stallThreshold env w" "AttemptNumber v = AttemptNumber w"
    "AccumulatedLog v = AccumulatedLog w" "\<not> StallFinalized v" "DispatchedAt v = DispatchedAt w"
    using assms(5,6) by (simp_all add: v_def updateHealth_def Let_def lastEvent_def stallThreshold_def
        heartbeatExpected_def schedulerDefaults_def split: option.split)
  have silence: "stallSilence env v = Some (Now env - t)"
    using assms(4,6,7) v by (auto simp: stallSilence_def)
  let ?w = "(stallRecord env (Now env - t) v)\<lparr>StallFinalized := True\<rparr>"
  have keep: "oget (WorkQueue (removeWorkItemFromBeacon env bo h (emit_when b1 e1 (emit_when b2 e2
      (set_item h ?w x))))) h = Some ?w" for bo b1 e1 b2 e2 x
    by (rule removeFromBeacon_keeps) (simp_all add: obj_simps stallRecord_def placed_def)
  have "healthStep env h w s = maybeMarkStalled env h v u"
    using assms(4) by (auto simp: healthStep_def terminal_status_def v_def u_def case_prod_beta)
  then show ?thesis
    using silence v hash keep assms(4)
    by (auto simp: maybeMarkStalled_def Let_def stallWorkItem_def stallRecord_def obj_simps)
qed


subsection \<open>The summary\<close>

lemma fold_count:
  "fold (\<lambda>w f. f(g w := Suc (f (g w)))) ws f0 b = f0 b + length (filter (\<lambda>w. g w = b) ws)"
  by (induction ws arbitrary: f0) auto

definition rows_of :: "string \<Rightarrow> bucket \<Rightarrow> work_item list \<Rightarrow> nat" where
  "rows_of k b ws = length (filter (\<lambda>w. row_key w = k \<and> bucketFor w = b) ws)"

definition row_ok :: "work_item list \<Rightarrow> string \<Rightarrow> capability_row option \<Rightarrow> bool" where
  "row_ok ws k ro \<longleftrightarrow> (case ro of None \<Rightarrow> \<forall>w \<in> set ws. row_key w \<noteq> k
     | Some r \<Rightarrow> rowQueued r = rows_of k Upcoming ws \<and> rowRunning r = rows_of k InProgress ws \<and>
         rowStalled r = rows_of k StalledBucket ws)"

lemma bump_row_ok:
  assumes "\<And>k. row_ok ws k (oget rows k)"
  shows "row_ok (ws @ [w]) k (oget (bump_row w rows) k)"
proof (cases "k = row_key w")
  case True
  from assms [of k] True show ?thesis
    by (auto simp: row_ok_def rows_of_def bump_row_def Let_def obj_simps split: option.splits bucket.splits)
next
  case False
  with assms [of k] show ?thesis
    by (auto simp: row_ok_def rows_of_def bump_row_def Let_def obj_simps split: option.splits)
qed

lemma fold_rows:
  "(\<And>k. row_ok us k (oget rows k)) \<Longrightarrow> row_ok (us @ ws) k (oget (fold bump_row ws rows) k)"
proof (induction ws arbitrary: us rows)
  case (Cons w ws)
  have "row_ok (us @ [w]) k (oget (bump_row w rows) k)" for k
    by (rule bump_row_ok) (rule Cons.prems)
  from Cons.IH [OF this] show ?case by simp
qed simp

text \<open>
  The queue summary adds up: each of the five buckets counts exactly the items of the queue that
  \<open>bucketFor\<close> puts there, so together they count every item once; and the row of a capability and
  action counts exactly its upcoming, running and stalled items.
\<close>

theorem summary_adds_up:
  "(\<forall>b. sBuckets (summarize env s) b = length (filter (\<lambda>w. bucketFor w = b) (ovals (WorkQueue s)))) \<and>
   sBuckets (summarize env s) Upcoming + sBuckets (summarize env s) InProgress +
     sBuckets (summarize env s) StalledBucket + sBuckets (summarize env s) CompletedBucket +
     sBuckets (summarize env s) ErroredBucket = length (WorkQueue s) \<and>
   (\<forall>k. row_ok (ovals (WorkQueue s)) k (oget (fold bump_row (ovals (WorkQueue s)) []) k))"
proof -
  have count: "sBuckets (summarize env s) b = length (filter (\<lambda>w. bucketFor w = b) (ovals (WorkQueue s)))" for b
    by (simp add: summarize_def fold_count)
  have "length (filter (\<lambda>w. bucketFor w = Upcoming) ws) + length (filter (\<lambda>w. bucketFor w = InProgress) ws) +
      length (filter (\<lambda>w. bucketFor w = StalledBucket) ws) + length (filter (\<lambda>w. bucketFor w = CompletedBucket) ws) +
      length (filter (\<lambda>w. bucketFor w = ErroredBucket) ws) = length ws" for ws
  proof (induction ws)
    case (Cons w ws)
    then show ?case by (cases "bucketFor w") simp_all
  qed simp
  from this [of "ovals (WorkQueue s)"]
  have "sBuckets (summarize env s) Upcoming + sBuckets (summarize env s) InProgress +
     sBuckets (summarize env s) StalledBucket + sBuckets (summarize env s) CompletedBucket +
     sBuckets (summarize env s) ErroredBucket = length (WorkQueue s)"
    unfolding count by simp
  moreover have "row_ok [] k (oget [] k)" for k by (simp add: row_ok_def)
  from fold_rows [OF this] have "row_ok (ovals (WorkQueue s)) k (oget (fold bump_row (ovals (WorkQueue s)) []) k)" for k
    by simp
  ultimately show ?thesis using count by blast
qed

subsection \<open>Reorder and cancel\<close>

lemma snd_listBuckets:
  "map snd (listBuckets (Some b) n s) = take (listLimit n) (filter (\<lambda>w. bucketFor w = b) (ovals (WorkQueue s)))"
  by (simp add: listBuckets_def take_map comp_def eq_commute [of b])

lemma upcomingOrder_mem:
  assumes "owf (WorkQueue s)" "length (WorkQueue s) \<le> 5000"
  shows "w \<in> set (upcomingOrder s) \<longleftrightarrow> (\<exists>h. oget (WorkQueue s) h = Some w) \<and> bucketFor w = Upcoming"
proof -
  let ?ws = "filter (\<lambda>w. bucketFor w = Upcoming) (ovals (WorkQueue s))"
  have "listLimit 5000 = 5000" by (simp add: listLimit_def num_or_def)
  moreover have "length ?ws \<le> 5000"
    using assms(2) length_filter_le [of _ "ovals (WorkQueue s)"] by (metis le_trans length_map)
  ultimately have "map snd (listBuckets (Some Upcoming) 5000 s) = ?ws"
    unfolding snd_listBuckets by simp
  then have "set (upcomingOrder s) = set ?ws" unfolding upcomingOrder_def set_sort_by by (rule arg_cong)
  moreover have "w \<in> set ?ws \<longleftrightarrow> w \<in> set (ovals (WorkQueue s)) \<and> bucketFor w = Upcoming"
    by (simp only: set_filter mem_Collect_eq)
  ultimately show ?thesis by (simp only: ovals_oget [OF assms(1)])
qed

lemma upcomingOrder_distinct:
  assumes "slot_inv env X s"
  shows "distinct (map WorkItemHash (upcomingOrder s))"
proof -
  have "WorkItemHash (snd e) = fst e" if "e \<in> set (WorkQueue s)" for e
    using that slot_inv_hash [OF assms in_oget [OF slot_inv_owf(1) [OF assms], of "fst e" "snd e"]] by simp
  then have keys: "map (\<lambda>e. WorkItemHash (snd e)) (WorkQueue s) = okeys (WorkQueue s)"
    by (intro map_cong) simp_all
  have "distinct (map (\<lambda>e. WorkItemHash (snd e)) (WorkQueue s))"
    unfolding keys by (rule slot_inv_owf(1) [OF assms])
  then have "distinct (map WorkItemHash (ovals (WorkQueue s)))" by (simp add: comp_def)
  then have "distinct (map WorkItemHash (map snd (listBuckets (Some Upcoming) 5000 s)))"
    unfolding snd_listBuckets take_map [symmetric] by (intro distinct_take distinct_map_filter)
  moreover have "mset (map WorkItemHash (upcomingOrder s)) =
      mset (map WorkItemHash (map snd (listBuckets (Some Upcoming) 5000 s)))"
    by (simp only: upcomingOrder_def mset_map mset_sort_by)
  ultimately show ?thesis by (metis mset_eq_imp_distinct_iff)
qed

lemma reorderWorkItem_Inr:
  assumes "reorderWorkItem env h d s = (Inr r, s')"
  obtains w i j nb where "oget (WorkQueue s) h = Some w" "bucketFor w = Upcoming"
    "index_of (\<lambda>v. WorkItemHash v = h) (upcomingOrder s) = Some i"
    "neighborIndex d i (length (upcomingOrder s)) = Inr j"
    "oget (WorkQueue s) (WorkItemHash (upcomingOrder s ! j)) = Some nb"
    "r = (Priority w, reorderedPriority d nb)" "s' = applyReorder env h d nb w s"
  using assms unfolding reorderWorkItem_def
  by (simp split: if_splits option.splits sum.splits)

lemma index_of_Some: "index_of P xs = Some i \<Longrightarrow> i < length xs \<and> P (xs ! i)"
  by (induction xs arbitrary: i) (auto split: if_splits)

text \<open>A successful reorder, with the neighbor it found in the order.\<close>

lemma reorder_success:
  assumes inv: "slot_inv env' {} s" and len: "length (WorkQueue s) \<le> 5000"
    and w: "oget (WorkQueue s) h = Some w" and run: "reorderWorkItem env h d s = (Inr (old, new), s')"
    and idx: "index_of (\<lambda>v. WorkItemHash v = h) (upcomingOrder s) = Some i"
    and nb: "nb = upcomingOrder s ! (if d = MoveUp then i - 1 else i + 1)"
  shows "d = MoveUp \<or> d = MoveDown" "bucketFor w = Upcoming" "bucketFor nb = Upcoming"
    "WorkItemHash nb \<noteq> h" "oget (WorkQueue s) (WorkItemHash nb) = Some nb"
    "new = reorderedPriority d nb" "s' = applyReorder env h d nb w s"
proof -
  let ?j = "if d = MoveUp then i - 1 else i + 1"
  obtain w1 i1 j1 nb1 where w1: "oget (WorkQueue s) h = Some w1" "bucketFor w1 = Upcoming"
    and i1: "index_of (\<lambda>v. WorkItemHash v = h) (upcomingOrder s) = Some i1"
    and j1: "neighborIndex d i1 (length (upcomingOrder s)) = Inr j1"
    and nb1: "oget (WorkQueue s) (WorkItemHash (upcomingOrder s ! j1)) = Some nb1"
    and r1: "(old, new) = (Priority w1, reorderedPriority d nb1)" "s' = applyReorder env h d nb1 w1 s"
    by (rule reorderWorkItem_Inr [OF run])
  have "w1 = w" "i1 = i" using w1 i1 w idx by simp_all
  note i = index_of_Some [OF idx]
  have j: "j1 = ?j" "?j < length (upcomingOrder s)" "?j \<noteq> i" and d: "d = MoveUp \<or> d = MoveDown"
    using j1 i \<open>i1 = i\<close> by (auto simp: neighborIndex_def split: if_splits direction.splits)
  then have "nb \<in> set (upcomingOrder s)" using nb by (metis nth_mem)
  then obtain k where k: "oget (WorkQueue s) k = Some nb" "bucketFor nb = Upcoming"
    using upcomingOrder_mem [OF slot_inv_owf(1) [OF inv] len] by auto
  have hash: "WorkItemHash nb = k" using slot_inv_hash [OF inv k(1)] .
  have "nb1 = nb" using nb1 j(1) k(1) hash by (simp add: nb)
  with r1 \<open>w1 = w\<close> w1(2) d k hash show "d = MoveUp \<or> d = MoveDown" "bucketFor w = Upcoming"
    "bucketFor nb = Upcoming" "oget (WorkQueue s) (WorkItemHash nb) = Some nb"
    "new = reorderedPriority d nb" "s' = applyReorder env h d nb w s" by simp_all
  show "WorkItemHash nb \<noteq> h"
  proof
    assume "WorkItemHash nb = h"
    then have "map WorkItemHash (upcomingOrder s) ! ?j = map WorkItemHash (upcomingOrder s) ! i"
      using j(2) i nb by (simp only: nth_map)
    then have "?j = i" using j(2) i
      nth_eq_iff_index_eq [OF upcomingOrder_distinct [OF inv], of ?j i] by (simp only: length_map)
    with j(3) show False by simp
  qed
qed

lemma applyReorder_queue:
  "WorkQueue (applyReorder env h d nb w s) = oset h (w\<lparr>Priority := reorderedPriority d nb\<rparr>) (WorkQueue s)"
  by (simp add: applyReorder_def Let_def summaryTick_def)

text \<open>
  A reorder moves the item past its neighbor: when \<open>reorderWorkItem\<close> succeeds on an item and the
  neighbor has the same rank (both Assigned, or neither), then in the order computed afterwards the
  item stands before that neighbor after a move up, and behind it after a move down. Only the
  priority of the one item changes.
\<close>

theorem reorder_passes_neighbor:
  assumes "hub_reach env' s" "length (WorkQueue s) \<le> 5000" "oget (WorkQueue s) h = Some w"
    and "reorderWorkItem env h d s = (Inr (old, new), s')"
    and "index_of (\<lambda>v. WorkItemHash v = h) (upcomingOrder s) = Some i"
    and "nb = upcomingOrder s ! (if d = MoveUp then i - 1 else i + 1)"
    and "assigned_rank nb = assigned_rank w"
  shows "WorkQueue s' = oset h (w\<lparr>Priority := new\<rparr>) (WorkQueue s) \<and>
    (\<exists>as bs cs. upcomingOrder s' =
      (if d = MoveUp then as @ w\<lparr>Priority := new\<rparr> # bs @ nb # cs
       else as @ nb # bs @ w\<lparr>Priority := new\<rparr> # cs))"
proof -
  note inv = reach_slot_inv [OF assms(1)]
  note ok = reorder_success [OF inv assms(2-6)]
  let ?w = "w\<lparr>Priority := new\<rparr>"
  have q': "WorkQueue s' = oset h ?w (WorkQueue s)" by (simp add: ok(6,7) applyReorder_queue)
  have wf': "owf (WorkQueue s')" "length (WorkQueue s') \<le> 5000"
    using slot_inv_owf(1) [OF inv] assms(2,3) jo.keys_get [of h "WorkQueue s"]
    by (simp_all add: q' AList.distinct_update length_oset del: set_map)
  have "oget (WorkQueue s') h = Some ?w" "oget (WorkQueue s') (WorkItemHash nb) = Some nb"
    using ok(4,5) by (simp_all add: q' obj_simps)
  moreover have "bucketFor ?w = bucketFor w" by (simp add: bucketFor_def)
  ultimately have mem: "?w \<in> set (upcomingOrder s')" "nb \<in> set (upcomingOrder s')"
    using upcomingOrder_mem [OF wf'] ok(2,3) by auto
  have sorted: "sorted_wrt (\<lambda>a b. compareDispatchPriority a b \<le> 0) (upcomingOrder s')"
    unfolding upcomingOrder_def by (rule dispatch_order.sorted_sort_by)
  have "assigned_rank ?w = assigned_rank nb" using assms(7) by (simp add: assigned_rank_def)
  then have less: "if d = MoveUp then compareDispatchPriority ?w nb < 0 else compareDispatchPriority nb ?w < 0"
    using ok(6) by (cases "d = MoveUp") (simp_all add: compareDispatchPriority_def reorderedPriority_def)
  show ?thesis
    using less dispatch_order.sorted_before [OF sorted mem] dispatch_order.sorted_before [OF sorted mem(2,1)] q'
    by (cases "d = MoveUp") simp_all
qed

text \<open>
  What a cancel request does, by status: an item that waits is Canceled at once; a dispatched or
  running one keeps its status and is marked, for its beacon to see; any other is refused and nothing
  changes, and that includes an item between retries and a stalled one. No journal line is written
  and no beacon record changes: the slot of an Assigned item that is canceled stays taken.
\<close>

theorem cancel_by_status:
  assumes "oget (WorkQueue s) h = Some w" and "requestCancel env h reason s = (res, s')"
  shows "(if Status w \<in> {Queued, Pending, Assigned}
      then res = CancelDone \<and> oget (WorkQueue s') h = Some (cancelRecord env reason w)
      else if Status w = Dispatched \<or> Status w = Running
      then res = CancelAsked (Status w) \<and> (\<exists>w'. oget (WorkQueue s') h = Some w' \<and>
        CancelRequested w' \<and> Status w' = Status w)
      else res = CancelTerminal (Status w) \<and> s' = s) \<and>
    (\<forall>k. k \<noteq> h \<longrightarrow> oget (WorkQueue s') k = oget (WorkQueue s) k) \<and> Beacons s' = Beacons s \<and>
    (\<exists>es. Effects s' = Effects s @ es \<and> (\<forall>op d. JournalAppend op d \<notin> set es))"
proof -
  consider "upcoming (Status w)" | "Status w = Dispatched \<or> Status w = Running"
    | "\<not> upcoming (Status w)" "Status w \<noteq> Dispatched" "Status w \<noteq> Running" by blast
  then show ?thesis
  proof cases
    case 1
    with assms have "res = CancelDone" "s' = markCanceled env h reason w s"
      by (simp_all add: requestCancel_def)
    with 1 show ?thesis
      by (auto simp: upcoming_def markCanceled_def Let_def obj_simps broadcast_def)
  next
    case 2
    with assms have "res = CancelAsked (Status w)" "s' = askCancel env h reason w s"
      by (auto simp: requestCancel_def upcoming_def)
    with 2 show ?thesis
      by (auto simp: askCancel_def Let_def obj_simps broadcast_def)
  next
    case 3
    with assms show ?thesis by (auto simp: requestCancel_def upcoming_def)
  qed
qed

end
