(* ===== verification/RegistryProperties.thy ===== *)
theory RegistryProperties
  imports HubSystem
begin

section \<open>Polling, registration and addresses: what the handlers promise\<close>

text \<open>
  Properties of \<open>pollForWork\<close>, \<open>enqueueWorkItem\<close>, \<open>registerBeacon\<close>, \<open>deregisterBeacon\<close>, the task
  types generated from the action catalog and \<open>resolveUniversalAddress\<close>.
\<close>

subsection \<open>Polling\<close>

text \<open>The item a poll would take, and the entries that stand before it in the queue.\<close>

definition assigned_here :: "string \<Rightarrow> work_item \<Rightarrow> bool" where
  "assigned_here b w \<longleftrightarrow> Status w = Assigned \<and> AssignedBeaconID w = Some b"

lemma find_first:
  assumes "find (\<lambda>(h, w). P w) q = Some (h, w)"
  shows "\<exists>xs ys. q = xs @ (h, w) # ys \<and> P w \<and> (\<forall>e \<in> set xs. \<not> P (snd e))"
  using assms
proof (induction q)
  case (Cons e q)
  show ?case
  proof (cases "P (snd e)")
    case True
    with Cons.prems have "e = (h, w)" by (simp add: case_prod_beta)
    with True show ?thesis by (intro exI [of _ "[]"] exI [of _ q]) simp
  next
    case False
    with Cons.prems have "find (\<lambda>(h, w). P w) q = Some (h, w)" by (cases e) simp
    from Cons.IH [OF this] obtain xs ys where "q = xs @ (h, w) # ys" "P w" "\<forall>e \<in> set xs. \<not> P (snd e)" by blast
    with False show ?thesis by (intro exI [of _ "e # xs"] exI [of _ ys]) simp
  qed
qed simp

lemma find_no:
  "find (\<lambda>(h, w). P w) q = None \<longleftrightarrow> (\<forall>e \<in> set q. \<not> P (snd e))"
  by (induction q) auto

lemma sanitized:
  "jget (fst (sanitizeWorkItemForBeacon env w)) ''WorkItemHash'' = JStr (WorkItemHash w)"
  "Status (snd (sanitizeWorkItemForBeacon env w)) = Status w"
  "AssignedBeaconID (snd (sanitizeWorkItemForBeacon env w)) = AssignedBeaconID w"
  "AttemptNumber (snd (sanitizeWorkItemForBeacon env w)) = AttemptNumber w"
  by (simp_all add: sanitizeWorkItemForBeacon_def Let_def jget_def)

text \<open>What handing item \<open>h\<close> to beacon \<open>b\<close> leaves behind.\<close>

definition handed_out :: "string \<Rightarrow> string \<Rightarrow> work_item \<Rightarrow> json obj \<Rightarrow> coord \<Rightarrow> coord \<Rightarrow> bool" where
  "handed_out b h w p s s' \<longleftrightarrow> jget p ''WorkItemHash'' = JStr h \<and>
     (\<exists>w'. oget (WorkQueue s') h = Some w' \<and> Status w' = Running \<and> AssignedBeaconID w' = Some b \<and>
        AttemptNumber w' = AttemptNumber w + 1) \<and>
     (\<forall>k. k \<noteq> h \<longrightarrow> oget (WorkQueue s') k = oget (WorkQueue s) k)"

lemma pollAssigned_handed:
  assumes "WorkItemHash w = h" "AssignedBeaconID w = Some b" "pollAssigned env b h w s1 = (p, s')"
    and "WorkQueue s1 = WorkQueue s"
  shows "handed_out b h w p s s'"
  using assms
  by (auto simp: handed_out_def pollAssigned_def Let_def case_prod_beta obj_simps sanitized
      claimAssigned_def)

lemma pollPending_queue:
  "WorkQueue (snd (pollPending env b h w s)) =
    oset h (snd (sanitizeWorkItemForBeacon env (claimPending env b w))) (WorkQueue s)"
  by (simp add: pollPending_def Let_def case_prod_beta push_current_def bind_affinity_def
      journal_claim_def split: option.split)

lemma pollPending_handed:
  assumes "WorkItemHash w = h" "pollPending env b h w s1 = (p, s')" "WorkQueue s1 = WorkQueue s"
  shows "handed_out b h w p s s'"
proof -
  have "p = fst (sanitizeWorkItemForBeacon env (claimPending env b w))"
    using assms(2) by (auto simp: pollPending_def Let_def case_prod_beta)
  moreover have "WorkQueue s' =
      oset h (snd (sanitizeWorkItemForBeacon env (claimPending env b w))) (WorkQueue s)"
    using pollPending_queue [of env b h w s1] assms(2,3) by simp
  ultimately show ?thesis
    using assms(1) by (simp add: handed_out_def obj_simps sanitized claimPending_def)
qed

text \<open>The state the poll works on, and the two searches of the queue.\<close>

lemma poll_unfold:
  assumes "oget (Beacons s) b = Some bcn"
  shows "pollForWork env b s =
      (let s1 = set_beacon b (bcn\<lparr>LastHeartbeat := Now env\<rparr>) s in
       if atCapacity bcn then (None, s1)
       else (case find (\<lambda>(h, w). assigned_here b w) (WorkQueue s) of
           Some (h, w) \<Rightarrow> map_prod Some id (pollAssigned env b h w s1)
         | None \<Rightarrow> (case find (\<lambda>(h, w). pollEligible env b bcn w) (WorkQueue s) of
              Some (h, w) \<Rightarrow> map_prod Some id (pollPending env b h w s1)
            | None \<Rightarrow> (None, s1))))"
  unfolding assigned_here_def
  by (simp add: pollForWork_def assms Let_def map_prod_def cong: option.case_cong)

lemma found_item:
  assumes "slot_inv env' {} s" "find (\<lambda>(h, w). P w) (WorkQueue s) = Some (h, w)"
  obtains xs ys where "WorkQueue s = xs @ (h, w) # ys" "P w" "\<forall>e \<in> set xs. \<not> P (snd e)" "WorkItemHash w = h"
proof -
  from find_first [OF assms(2)] obtain xs ys where split: "WorkQueue s = xs @ (h, w) # ys" "P w"
    "\<forall>e \<in> set xs. \<not> P (snd e)" by blast
  then have "oget (WorkQueue s) h = Some w"
    using slot_inv_owf(1) [OF assms(1)] by (intro in_oget) auto
  from slot_inv_hash [OF assms(1) this] split show thesis by (intro that)
qed

text \<open>
  C21. A poll hands out the right item, once: an item assigned to the polling beacon comes before any
  other, and among equals the first in the queue is taken; it is Running on that beacon with one
  more attempt, and no other item changes. When nothing is handed out, the beacon is at its limit or
  the queue holds nothing it may take, and the queue is untouched.
\<close>

theorem poll_takes_first:
  assumes "hub_reach env' s" "oget (Beacons s) b = Some bcn" "pollForWork env b s = (res, s')"
  shows "case res of
      None \<Rightarrow> WorkQueue s' = WorkQueue s \<and> (atCapacity bcn \<or>
        (\<forall>e \<in> set (WorkQueue s). \<not> assigned_here b (snd e) \<and> \<not> pollEligible env b bcn (snd e)))
    | Some p \<Rightarrow> \<not> atCapacity bcn \<and> (\<exists>h w xs ys. WorkQueue s = xs @ (h, w) # ys \<and> handed_out b h w p s s' \<and>
        (if assigned_here b w then \<forall>e \<in> set xs. \<not> assigned_here b (snd e)
         else pollEligible env b bcn w \<and> (\<forall>e \<in> set (WorkQueue s). \<not> assigned_here b (snd e)) \<and>
           (\<forall>e \<in> set xs. \<not> pollEligible env b bcn (snd e))))"
proof -
  note inv = reach_slot_inv [OF assms(1)]
  define s1 where "s1 = set_beacon b (bcn\<lparr>LastHeartbeat := Now env\<rparr>) s"
  have q1: "WorkQueue s1 = WorkQueue s" by (simp add: s1_def)
  note poll = assms(3) [unfolded poll_unfold [OF assms(2)], folded s1_def, unfolded Let_def]
  consider "atCapacity bcn" | h w where "\<not> atCapacity bcn" "find (\<lambda>(h, w). assigned_here b w) (WorkQueue s) = Some (h, w)"
    | h w where "\<not> atCapacity bcn" "\<forall>e \<in> set (WorkQueue s). \<not> assigned_here b (snd e)"
        "find (\<lambda>(h, w). pollEligible env b bcn w) (WorkQueue s) = Some (h, w)"
    | "\<not> atCapacity bcn" "\<forall>e \<in> set (WorkQueue s). \<not> assigned_here b (snd e)"
        "\<forall>e \<in> set (WorkQueue s). \<not> pollEligible env b bcn (snd e)"
    unfolding find_no [symmetric] by (metis option.exhaust surj_pair)
  then show ?thesis
  proof cases
    case 1
    with poll q1 show ?thesis by auto
  next
    case (2 h w)
    from found_item [OF inv 2(2)] obtain xs ys where f: "WorkQueue s = xs @ (h, w) # ys" "assigned_here b w"
      "\<forall>e \<in> set xs. \<not> assigned_here b (snd e)" "WorkItemHash w = h" by blast
    obtain p t where p: "pollAssigned env b h w s1 = (p, t)" by (rule prod.exhaust)
    have "handed_out b h w p s t"
      using f(2) by (intro pollAssigned_handed [OF f(4) _ p q1]) (simp add: assigned_here_def)
    moreover have "res = Some p" "s' = t" using poll 2 p by simp_all
    ultimately show ?thesis using 2(1) f(1-3) by simp blast
  next
    case (3 h w)
    from found_item [OF inv 3(3)] obtain xs ys where f: "WorkQueue s = xs @ (h, w) # ys" "pollEligible env b bcn w"
      "\<forall>e \<in> set xs. \<not> pollEligible env b bcn (snd e)" "WorkItemHash w = h" by blast
    obtain p t where p: "pollPending env b h w s1 = (p, t)" by (rule prod.exhaust)
    have "find (\<lambda>(h, w). assigned_here b w) (WorkQueue s) = None" using 3(2) by (simp only: find_no)
    with poll 3(1,3) p have "res = Some p" "s' = t" by simp_all
    moreover have "\<not> assigned_here b w" using 3(2) f(1) by auto
    ultimately show ?thesis using 3(1,2) f(1-3) pollPending_handed [OF f(4) p q1] by (simp only: option.case) metis
  next
    case 4
    then have "find (\<lambda>(h, w). assigned_here b w) (WorkQueue s) = None"
      "find (\<lambda>(h, w). pollEligible env b bcn w) (WorkQueue s) = None" by (simp_all only: find_no)
    with poll 4 q1 show ?thesis by auto
  qed
qed

subsection \<open>Enqueue\<close>

text \<open>
  The action defaults never reach a work item: \<open>enqueueWorkItem\<close> fills in the timeout, the
  attempt limit and the backoff before it applies the table, so whatever row the table has for the
  action, the new item is the one it would have been without the table.
\<close>

theorem action_defaults_never_apply:
  "withDefaults env q (newWorkItem env q n) = newWorkItem env q n"
proof -
  have or_nonzero: "num_or x y \<noteq> 0" if "y \<noteq> 0" for x y :: int using that by (simp add: num_or_def)
  have parse: "parseInt_or v d \<noteq> 0" if "d \<noteq> 0" for v d
    using or_nonzero [OF that] that by (simp add: parseInt_or_def split: option.split)
  let ?w = "newWorkItem env q n"
  have "TimeoutMs ?w \<noteq> 0" "MaxAttempts ?w = Some (parseInt_or (jget (qSettings q) ''maxRetries'') 1)"
    "RetryBackoffMs ?w \<noteq> 0"
    by (simp_all add: newWorkItem_def or_nonzero parse)
  then have "applyToWorkItem d st (Some (Priority ?w)) ?w = ?w" for d st
    by (intro applyToWorkItem_set [of ?w, OF _ _ parse [of 1]]) simp_all
  then show ?thesis by (simp add: withDefaults_def split: option.split)
qed

subsection \<open>Deregistration\<close>

text \<open>
  Deregistering a beacon gives back its work: every item in its list that was Running or Assigned
  is Pending again with no beacon and no claim, every other item is untouched, and no Running or
  Assigned item is left on the beacon that is gone.
\<close>

theorem deregister_gives_back:
  assumes "hub_reach env s" "oget (Beacons s) b = Some bcn" "deregisterBeacon b s = (ok, s')"
  shows "ok \<and> Beacons s' = odel b (Beacons s) \<and>
    (\<forall>h. oget (WorkQueue s') h = (if h \<in> set (CurrentWorkItems bcn)
       then map_option release_item (oget (WorkQueue s) h) else oget (WorkQueue s) h)) \<and>
    (\<forall>h w. oget (WorkQueue s') h = Some w \<longrightarrow> placed (Status w) \<longrightarrow> AssignedBeaconID w \<noteq> Some b)"
proof -
  have inv: "slot_inv env {} s" by (rule reach_slot_inv [OF assms(1)])
  have ok: ok and s': "s' = (let s1 = releaseItems (CurrentWorkItems bcn) s in s1\<lparr>Beacons := odel b (Beacons s1)\<rparr>)"
    using assms(2,3) by (auto simp: deregisterBeacon_def Let_def)
  have queue: "oget (WorkQueue s') h = (if h \<in> set (CurrentWorkItems bcn)
       then map_option release_item (oget (WorkQueue s) h) else oget (WorkQueue s) h)" for h
    by (simp add: s' Let_def releaseItems_get)
  have "AssignedBeaconID w \<noteq> Some b" if w: "oget (WorkQueue s') h = Some w" "placed (Status w)" for h w
  proof (cases "h \<in> set (CurrentWorkItems bcn)")
    case True
    with w queue [of h] release_item_fields(2) show ?thesis by auto
  next
    case False
    with w queue [of h] have "oget (WorkQueue s) h = Some w" by simp
    then have "item_ok env {} (Beacons s) h w" using inv by (auto simp: slot_inv_def dest: slotsD(3))
    with w(2) False assms(2) show ?thesis by (auto simp: item_ok_def)
  qed
  with ok queue show ?thesis by (simp add: s' Let_def)
qed

subsection \<open>Registration\<close>

lemma ovals_oset_same: "oget ob k = Some v \<Longrightarrow> f v' = f v \<Longrightarrow> map f (ovals (oset k v' ob)) = map f (ovals ob)"
  by (induction ob) auto

text \<open>
  A name belongs to one beacon: registering under a name that is taken does not add a beacon but
  takes the old one over, with its id and its current work, and the beacon of that name is Online
  with a fresh heartbeat and the new session. No other beacon changes, and names stay distinct.
\<close>

theorem registration_reclaims_name:
  assumes "owf (Beacons s)" "distinct (map Name (ovals (Beacons s)))"
    and "\<And>k v. oget (Beacons s) k = Some v \<Longrightarrow> BeaconStatus v \<noteq> Active \<and> BeaconID v = k"
    and "oget (Beacons s) (beaconIDFor (str_or (bName bi) ''unnamed'') (Now env)) = None"
    and "registerBeacon env bi session s = (b, s')"
  shows "distinct (map Name (ovals (Beacons s'))) \<and>
    (\<forall>k. k \<noteq> b \<longrightarrow> oget (Beacons s') k = oget (Beacons s) k) \<and>
    (\<exists>bcn. oget (Beacons s') b = Some bcn \<and> BeaconID bcn = b \<and> Name bcn = str_or (bName bi) ''unnamed'' \<and>
       BeaconStatus bcn = Online \<and> SessionID bcn = session \<and> LastHeartbeat bcn = Now env \<and>
       (case oget (Beacons s) b of None \<Rightarrow> CurrentWorkItems bcn = []
        | Some old \<Rightarrow> Name old = Name bcn \<and> CurrentWorkItems bcn = CurrentWorkItems old))"
proof -
  let ?n = "str_or (bName bi) ''unnamed''"
  let ?new = "beaconIDFor ?n (Now env)"
  show ?thesis
  proof (cases "findBeaconByName ?n s")
    case None
    then have res: "b = ?new" "Beacons s' = oset ?new (newBeacon env bi session ?n) (Beacons s)"
      using assms(5) by (auto simp: registerBeacon_def Let_def)
    have "?n \<notin> Name ` set (ovals (Beacons s))"
      using None unfolding findBeaconByName_def find_None_iff by force
    then have "distinct (map Name (ovals (Beacons s')))"
      using assms(2,4) by (auto simp: res oset_fresh newBeacon_def)
    then show ?thesis by (simp add: res assms(4) obj_simps newBeacon_def)
  next
    case (Some e)
    obtain k bcn where e: "e = (k, bcn)" by (rule prod.exhaust)
    from findBeaconByName_get [OF Some [unfolded e] assms(1)]
    have k: "oget (Beacons s) k = Some bcn" "Name bcn = ?n" by simp_all
    have old: "BeaconStatus bcn \<noteq> Active" "BeaconID bcn = k" using assms(3) [OF k(1)] by simp_all
    have "BeaconStatus bcn \<in> {Offline, Online, Busy}" using old(1) by (cases "BeaconStatus bcn") simp_all
    with Some e old have res: "b = k" "Beacons s' = oset k (reclaimBeacon env bi session bcn) (Beacons s)"
      using assms(5) by (auto simp: registerBeacon_def Let_def)
    have "map Name (ovals (Beacons s')) = map Name (ovals (Beacons s))"
      unfolding res(2) using k(1) by (rule ovals_oset_same) (simp add: reclaimBeacon_def)
    then show ?thesis using assms(2) k old by (simp add: res obj_simps reclaimBeacon_def)
  qed
qed

subsection \<open>Task types from the catalog\<close>

text \<open>
  Every action of the catalog has a task type and none is registered twice: the types generated
  from a catalog have distinct hashes that the registry did not have, and afterwards the registry
  has the hash of every entry.
\<close>

theorem task_types_complete:
  "distinct (map tcHash (newTaskTypes has es)) \<and> (\<forall>t \<in> set (newTaskTypes has es). \<not> has (tcHash t)) \<and>
   (\<forall>e \<in> set es. has (taskTypeHash e) \<or> taskTypeHash e \<in> tcHash ` set (newTaskTypes has es))"
proof (induction es arbitrary: has)
  case (Cons e es)
  show ?case
    using Cons.IH [of has] Cons.IH [of "\<lambda>h. has h \<or> h = taskTypeHash e"]
    by (auto simp: catalogTaskConfig_def)
qed simp

subsection \<open>Universal addresses\<close>

text \<open>
  Reading the percent escapes back, to state what the encoding keeps: the inverse of
  \<open>encodeURIComponent\<close> on its own output.
\<close>

definition hex_val :: "char \<Rightarrow> int" where
  "hex_val c = (let n = of_char c in if n \<le> 57 then n - 48 else n - 55)"

definition byte_val :: "char \<Rightarrow> char \<Rightarrow> int" where
  "byte_val a b = 16 * hex_val a + hex_val b"

fun decode_uri :: "string \<Rightarrow> string" where
  "decode_uri [] = []"
| "decode_uri (c # cs) =
     (if c \<noteq> CHR ''%'' then c # decode_uri cs
      else (case cs of
          a # b # rest \<Rightarrow>
            (if byte_val a b < 128 then char_of (byte_val a b) # decode_uri rest
             else (case rest of
                 _ # x # y # rest' \<Rightarrow>
                   char_of ((byte_val a b - 192) * 64 + (byte_val x y - 128)) # decode_uri rest'
               | _ \<Rightarrow> []))
        | _ \<Rightarrow> []))"

lemma of_char_hex: "0 \<le> d \<Longrightarrow> d < 16 \<Longrightarrow> (of_char (hex_char d) :: int) = (if d < 10 then 48 + d else 55 + d)"
  by (auto simp: hex_char_def)

lemma hex_val_char: "0 \<le> d \<Longrightarrow> d < 16 \<Longrightarrow> hex_val (hex_char d) = d"
  by (simp add: hex_val_def of_char_hex)

lemma byte_val_hex: "0 \<le> n \<Longrightarrow> n < 256 \<Longrightarrow> byte_val (hex_char (n div 16)) (hex_char (n mod 16)) = n"
  by (simp add: byte_val_def hex_val_char)

lemma of_char_bounds: "0 \<le> (of_char c :: int)" "(of_char c :: int) < 256"
  by (simp_all add: of_char_def)

lemma hex_no_slash: "0 \<le> d \<Longrightarrow> d < 16 \<Longrightarrow> hex_char d \<noteq> CHR ''/''"
proof
  assume d: "0 \<le> d" "d < 16" and "hex_char d = CHR ''/''"
  then have "(of_char (hex_char d) :: int) = 47" by simp
  with of_char_hex [OF d] d show False by (simp split: if_splits)
qed

lemma encode_char_cases:
  obtains "encode_char c = [c]" "c \<noteq> CHR ''%''" "c \<noteq> CHR ''/''"
  | "encode_char c = percent_byte (of_char c)" "(of_char c :: int) < 128"
  | "encode_char c = percent_byte (192 + of_char c div 64) @ percent_byte (128 + of_char c mod 64)"
    "128 \<le> (of_char c :: int)"
proof (cases "uri_unreserved c")
  case True
  moreover have "\<not> uri_unreserved CHR ''%''" "\<not> uri_unreserved CHR ''/''" by code_simp+
  ultimately show ?thesis using that(1) by (auto simp: encode_char_def Let_def)
next
  case False
  then show ?thesis using that(2,3) by (cases "(of_char c :: int) < 128") (simp_all add: encode_char_def Let_def)
qed

lemma percent_no_slash: "0 \<le> n \<Longrightarrow> n < 256 \<Longrightarrow> CHR ''/'' \<notin> set (percent_byte n)"
proof -
  assume "0 \<le> n" "n < 256"
  then have "0 \<le> n div 16" "n div 16 < 16" by (simp_all add: pos_imp_zdiv_nonneg_iff)
  with hex_no_slash [of "n div 16"] hex_no_slash [of "n mod 16"] show ?thesis
    by (simp add: percent_byte_def eq_commute [of "CHR ''/''"])
qed

lemma utf8_bytes:
  "0 \<le> 192 + of_char c div (64 :: int)" "192 + of_char c div (64 :: int) < 256"
  "0 \<le> 128 + of_char c mod (64 :: int)" "128 + of_char c mod (64 :: int) < 256"
  using of_char_bounds [of c] by linarith+

lemma encode_no_slash: "CHR ''/'' \<notin> set (encodeURIComponent x)"
proof -
  have "CHR ''/'' \<notin> set (encode_char c)" for c
  proof (cases c rule: encode_char_cases)
    case 2
    then show ?thesis using of_char_bounds [of c] percent_no_slash [of "of_char c"] by simp
  next
    case 3
    with percent_no_slash [OF utf8_bytes(1,2)] percent_no_slash [OF utf8_bytes(3,4)] show ?thesis by simp
  qed simp
  then show ?thesis by (simp add: encodeURIComponent_def)
qed

lemma decode_one: "0 \<le> n \<Longrightarrow> n < 128 \<Longrightarrow> decode_uri (percent_byte n @ rest) = char_of n # decode_uri rest"
  using byte_val_hex [of n] by (simp add: percent_byte_def)

lemma decode_two:
  assumes "128 \<le> m" "m < 256" "0 \<le> n" "n < 256"
  shows "decode_uri (percent_byte m @ percent_byte n @ rest) =
    char_of ((m - 192) * 64 + (n - 128)) # decode_uri rest"
  using assms byte_val_hex [of m] byte_val_hex [of n] by (simp add: percent_byte_def)

lemma decode_encode_char: "decode_uri (encode_char c @ rest) = c # decode_uri rest"
proof (cases c rule: encode_char_cases)
  case 2
  then show ?thesis using of_char_bounds [of c] decode_one [of "of_char c" rest] by simp
next
  case 3
  let ?n = "of_char c :: int"
  have "0 \<le> ?n div 64" using of_char_bounds [of c] by (simp add: pos_imp_zdiv_nonneg_iff)
  then have "128 \<le> 192 + ?n div 64" by linarith
  from decode_two [OF this utf8_bytes(2-4), of c rest]
  have "decode_uri (encode_char c @ rest) = char_of (?n div 64 * 64 + ?n mod 64) # decode_uri rest"
    by (simp only: 3(1) append_assoc add_diff_cancel_left')
  then show ?thesis by (simp only: div_mult_mod_eq char_of_char)
qed simp

lemma decode_encode: "decode_uri (encodeURIComponent x) = x"
  by (induction x) (simp_all add: encodeURIComponent_def decode_encode_char)

text \<open>
  An address resolves to the URL of its path and loses nothing of it: for a beacon that is
  registered with the context, the URL is the base followed by one encoded part per segment,
  separated by slashes, and decoding the parts gives the segments of the address back, whatever
  characters they hold.
\<close>

theorem address_roundtrip:
  assumes "CHR ''/'' \<notin> set bn" "CHR ''/'' \<notin> set ctx" "segs \<noteq> []" "\<forall>x \<in> set segs. CHR ''/'' \<notin> set x"
    and "lookupBeacon bn s = Some bcn" "oget (Contexts bcn) ctx = Some (Some base)" "base \<noteq> []"
  shows "\<exists>r rest. resolveUniversalAddress (CHR ''>'' # join_with (CHR ''/'') (bn # ctx # segs)) s = Some r \<and>
    rBeaconID r = BeaconID bcn \<and> rPath r = join_with (CHR ''/'') segs \<and> rFilename r = last segs \<and>
    rURL r = with_slash base @ rest \<and> map decode_uri (split_on (CHR ''/'') rest) = segs"
proof -
  have "split_on (CHR ''/'') (join_with (CHR ''/'') (bn # ctx # segs)) = bn # ctx # segs"
    using assms(1,2,4) by (intro split_join) auto
  moreover have "split_on (CHR ''/'') (join_with (CHR ''/'') (map encodeURIComponent segs)) =
      map encodeURIComponent segs"
    using assms(3) encode_no_slash by (intro split_join) auto
  moreover obtain seg rest where "segs = seg # rest" using assms(3) by (cases segs) auto
  ultimately show ?thesis
    using assms(5-7)
    by (simp add: resolveUniversalAddress_def resolveParts_def comp_def decode_encode del: join_with.simps split_on.simps)
qed

subsection \<open>Evaluated handlers\<close>

definition pending_events :: "(hub_env \<times> hub_event) list" where
  "pending_events =
     [(plain_env 5, Register (shell_info 2) None),
      (plain_env 6, Enqueue (shell_work []))]"

definition pending_state :: coord where
  "pending_state = snd (hub_run pending_events boot)"

lemma pending_reach: "hub_reach (plain_env 6) pending_state"
proof -
  have "register_ok (plain_env 5) (shell_info 2) initial_coord" by code_simp
  then have "run_ok pending_events boot" by (simp add: pending_events_def)
  then have "reach hub_init hub_step (hub_run pending_events boot)" by (rule run_initial)
  then show ?thesis by (simp add: pending_state_def pending_events_def)
qed

lemma pending_beacon: "oget (Beacons pending_state) ''bcn-b-5'' = Some (the (oget (Beacons pending_state) ''bcn-b-5''))"
proof -
  have "oget (Beacons pending_state) ''bcn-b-5'' \<noteq> None" by code_simp
  then show ?thesis by auto
qed

theorem poll_takes_first_witness:
  "\<exists>h w p. handed_out ''bcn-b-5'' h w p pending_state (snd (pollForWork (plain_env 7) ''bcn-b-5'' pending_state))"
proof -
  have "fst (pollForWork (plain_env 7) ''bcn-b-5'' pending_state) \<noteq> None" by code_simp
  with poll_takes_first [OF pending_reach pending_beacon prod.collapse [symmetric], of "plain_env 7"]
  show ?thesis by (auto split: option.splits)
qed

theorem deregister_gives_back_witness:
  "\<exists>w. oget (WorkQueue (snd (deregisterBeacon ''bcn-b-5'' demo_state))) ''wi-unknown-unknown-6-1'' = Some w \<and>
     Status w = Pending \<and> AssignedBeaconID w = None"
proof -
  have "map_option (\<lambda>b. CurrentWorkItems b) (oget (Beacons demo_state) ''bcn-b-5'') = Some [''wi-unknown-unknown-6-1'']"
    by code_simp
  then obtain bcn where b: "oget (Beacons demo_state) ''bcn-b-5'' = Some bcn" "CurrentWorkItems bcn = [''wi-unknown-unknown-6-1'']"
    by auto
  have "map_option Status (oget (WorkQueue demo_state) ''wi-unknown-unknown-6-1'') = Some Running" by code_simp
  with b deregister_gives_back [OF demo_reach b(1) prod.collapse [symmetric]]
  show ?thesis by (auto simp: release_item_def)
qed

theorem registration_reclaims_name_witness:
  "distinct (map Name (ovals (Beacons (snd (registerBeacon (plain_env 9) (shell_info 2) (Some ''x'') pending_state)))))"
proof -
  have ok: "owf (Beacons pending_state) \<and> distinct (map Name (ovals (Beacons pending_state))) \<and>
    (\<forall>e \<in> set (Beacons pending_state). BeaconStatus (snd e) \<noteq> Active \<and> BeaconID (snd e) = fst e) \<and>
    oget (Beacons pending_state) (beaconIDFor (str_or (bName (shell_info 2)) ''unnamed'') (Now (plain_env 9))) = None"
    by code_simp
  have "BeaconStatus v \<noteq> Active \<and> BeaconID v = k" if "oget (Beacons pending_state) k = Some v" for k v
    using ok oget_in [OF that] by force
  with ok registration_reclaims_name [OF _ _ _ _ prod.collapse [symmetric], of pending_state "shell_info 2" "plain_env 9" "Some ''x''"]
  show ?thesis by blast
qed

definition shell_entry :: catalog_entry where
  "shell_entry = \<lparr>CatCapability = ''Shell'', CatAction = ''Execute'', CatDescription = [],
     CatSettingsSchema = [], CatSourceBeacons = []\<rparr>"

theorem task_types_complete_witness:
  "taskTypeHash shell_entry \<in> tcHash ` set (newTaskTypes (\<lambda>h. h = ''other'') [shell_entry, shell_entry])"
proof -
  have "taskTypeHash shell_entry \<noteq> ''other''" by code_simp
  with task_types_complete [of "\<lambda>h. h = ''other''" "[shell_entry, shell_entry]"] show ?thesis by simp
qed

definition file_state :: coord where
  "file_state = set_beacon ''k'' ((the (oget (Beacons pending_state) ''bcn-b-5''))\<lparr>BeaconID := ''k'', Name := ''n'',
     Contexts := [(''files'', Some ''http://h/f'')]\<rparr>) initial_coord"

theorem address_roundtrip_witness:
  "\<exists>r. resolveUniversalAddress ''>n/files/a b/c%.txt'' file_state = Some r \<and> rFilename r = ''c%.txt''"
proof -
  let ?b = "(the (oget (Beacons pending_state) ''bcn-b-5''))\<lparr>BeaconID := ''k'', Name := ''n'',
     Contexts := [(''files'', Some ''http://h/f'')]\<rparr>"
  have look: "lookupBeacon ''n'' file_state = Some ?b"
    by (simp add: lookupBeacon_def file_state_def findBeaconByName_def initial_coord_def)
  have segs: "\<forall>x \<in> set [''a b'', ''c%.txt'']. CHR ''/'' \<notin> set x" by simp
  have base: "oget (Contexts ?b) ''files'' = Some (Some ''http://h/f'')" by simp
  from address_roundtrip [OF _ _ _ segs look base]
  have "\<exists>r rest. resolveUniversalAddress (CHR ''>'' # join_with (CHR ''/'') (''n'' # ''files'' # [''a b'', ''c%.txt'']))
      file_state = Some r \<and> rFilename r = last [''a b'', ''c%.txt'']"
    by (simp only: list.set insert_iff empty_iff char.inject) blast
  then show ?thesis by simp
qed

end
