(* ===== verification/OutputStore.thy ===== *)
theory OutputStore
  imports Prelude
begin

section \<open>Task outputs on disk: lifting large values and reading them back\<close>

text \<open>
  \<open>src/source/services/Ultravisor-OutputStore.cjs\<close>. A large string that a task returns is written
  to a file under the staging folder of its run and replaced by a small reference object; a reader
  replaces the reference by the content of the file.

  JavaScript strings are lists of UTF-16 code units here (\<open>units\<close>, numbers below 65536), and a file
  is a list of bytes. \<open>Buffer.from(s, 'utf8')\<close> and \<open>Buffer.byteLength\<close> turn a surrogate pair into
  one code point and a lone surrogate into U+FFFD. The strings inside \<open>json\<close> values use the units
  below 256. The disk maps absolute paths to contents; which paths can be written is a parameter.
\<close>

subsection \<open>UTF-8\<close>

type_synonym units = "nat list"
type_synonym bytes = "nat list"

definition high_surrogate :: "nat \<Rightarrow> bool" where
  "high_surrogate u \<longleftrightarrow> 55296 \<le> u \<and> u < 56320"

definition low_surrogate :: "nat \<Rightarrow> bool" where
  "low_surrogate u \<longleftrightarrow> 56320 \<le> u \<and> u < 57344"

definition replacement :: nat where
  "replacement = 65533"

definition pair_point :: "nat \<Rightarrow> nat \<Rightarrow> nat" where
  "pair_point h l = 65536 + (h - 55296) * 1024 + (l - 56320)"

fun code_points :: "units \<Rightarrow> nat list" where
  "code_points [] = []"
| "code_points [u] = [if high_surrogate u \<or> low_surrogate u then replacement else u]"
| "code_points (u # v # us) =
     (if high_surrogate u \<and> low_surrogate v then pair_point u v # code_points us
      else (if high_surrogate u \<or> low_surrogate u then replacement else u) # code_points (v # us))"

definition encode_point :: "nat \<Rightarrow> bytes" where
  "encode_point c =
     (if c < 128 then [c]
      else if c < 2048 then [192 + c div 64, 128 + c mod 64]
      else if c < 65536 then [224 + c div 64 div 64, 128 + c div 64 mod 64, 128 + c mod 64]
      else [240 + c div 64 div 64 div 64, 128 + c div 64 div 64 mod 64,
            128 + c div 64 mod 64, 128 + c mod 64])"

definition utf8 :: "units \<Rightarrow> bytes" where
  "utf8 us = concat (map encode_point (code_points us))"

definition byteLength :: "units \<Rightarrow> nat" where
  "byteLength us = length (utf8 us)"

definition point_units :: "nat \<Rightarrow> units" where
  "point_units c =
     (if c < 65536 then [c] else [55296 + (c - 65536) div 1024, 56320 + (c - 65536) mod 1024])"

definition continuation :: "nat \<Rightarrow> bool" where
  "continuation b \<longleftrightarrow> 128 \<le> b \<and> b < 192"

text \<open>Reading a file as UTF-8: a byte that starts no sequence becomes U+FFFD.\<close>

fun utf8_decode :: "bytes \<Rightarrow> units" where
  "utf8_decode [] = []"
| "utf8_decode (b # bs) =
     (if b < 128 then b # utf8_decode bs
      else case bs of
        [] \<Rightarrow> [replacement]
      | c # cs \<Rightarrow>
          (if 192 \<le> b \<and> b < 224 \<and> continuation c
           then point_units ((b - 192) * 64 + (c - 128)) @ utf8_decode cs
           else case cs of
             [] \<Rightarrow> replacement # utf8_decode bs
           | d # ds \<Rightarrow>
               (if 224 \<le> b \<and> b < 240 \<and> continuation c \<and> continuation d
                then point_units (((b - 224) * 64 + (c - 128)) * 64 + (d - 128)) @ utf8_decode ds
                else case ds of
                  [] \<Rightarrow> replacement # utf8_decode bs
                | e # es \<Rightarrow>
                    (if 240 \<le> b \<and> continuation c \<and> continuation d \<and> continuation e
                     then point_units ((((b - 240) * 64 + (c - 128)) * 64 + (d - 128)) * 64 + (e - 128))
                            @ utf8_decode es
                     else replacement # utf8_decode bs))))"

subsection \<open>Writing in chunks\<close>

text \<open>
  The loop of \<open>_streamWriteSync\<close>: \<open>slice(offset, min(offset + n, length))\<close>, encoded one by one;
  \<open>STREAM_CHUNK_BYTES\<close> counts code units here.
\<close>

definition STREAM_CHUNK_BYTES :: nat where
  "STREAM_CHUNK_BYTES = 65536"

function stream_chunks :: "nat \<Rightarrow> 'a list \<Rightarrow> 'a list list" where
  "stream_chunks n us =
     (if us = [] \<or> n = 0 then [] else take n us # stream_chunks n (drop n us))"
  by auto
termination by (relation "measure (\<lambda>(n, us). length us)") auto

declare stream_chunks.simps [simp del]

datatype payload = Text units | Binary bytes

definition streamWrite :: "nat \<Rightarrow> payload \<Rightarrow> bytes" where
  "streamWrite n v = (case v of
     Text us \<Rightarrow> concat (map utf8 (stream_chunks n us))
   | Binary bs \<Rightarrow> concat (stream_chunks n bs))"

subsection \<open>Paths\<close>

definition safe_char :: "char \<Rightarrow> bool" where
  "safe_char c = (let n = of_char c :: nat in
     (65 \<le> n \<and> n \<le> 90) \<or> (97 \<le> n \<and> n \<le> 122) \<or> (48 \<le> n \<and> n \<le> 57) \<or> c = CHR ''_'' \<or> c = CHR ''-'')"

definition safeSegment :: "string \<Rightarrow> string" where
  "safeSegment s = (if s = [] then ''_'' else map (\<lambda>c. if safe_char c then c else CHR ''_'') s)"

text \<open>\<open>libPath.resolve(base, p)\<close> with POSIX separators and an absolute base.\<close>

definition path_segments :: "string \<Rightarrow> string list" where
  "path_segments p = filter (\<lambda>s. s \<noteq> []) (split_on (CHR ''/'') p)"

definition push_segment :: "string list \<Rightarrow> string \<Rightarrow> string list" where
  "push_segment acc s = (if s = ''.'' then acc else if s = ''..'' then butlast acc else acc @ [s])"

definition normal_path :: "string list \<Rightarrow> string" where
  "normal_path segs = CHR ''/'' # join_with (CHR ''/'') (foldl push_segment [] segs)"

definition is_absolute :: "string \<Rightarrow> bool" where
  "is_absolute p \<longleftrightarrow> (case p of [] \<Rightarrow> False | c # _ \<Rightarrow> c = CHR ''/'')"

definition path_resolve :: "string \<Rightarrow> string \<Rightarrow> string" where
  "path_resolve base p =
     normal_path (if is_absolute p then path_segments p else path_segments base @ path_segments p)"

definition REF_DIR :: string where
  "REF_DIR = ''outputs''"

definition output_path :: "string \<Rightarrow> string \<Rightarrow> string" where
  "output_path n port = REF_DIR @ ''/'' @ safeSegment n @ ''/'' @ safeSegment port @ ''.json''"

subsection \<open>References\<close>

definition REF_KEY :: string where
  "REF_KEY = ''$$ref''"

fun is_string :: "json \<Rightarrow> bool" where
  "is_string (JStr s) = True"
| "is_string (JTime t) = True"
| "is_string _ = False"

fun isOutputRef :: "json \<Rightarrow> bool" where
  "isOutputRef (JObj kvs) = is_string (jget kvs REF_KEY)"
| "isOutputRef _ = False"

fun ref_path :: "json \<Rightarrow> string" where
  "ref_path (JObj kvs) = (case jget kvs REF_KEY of JStr p \<Rightarrow> p | _ \<Rightarrow> [])"
| "ref_path _ = []"

definition string_units :: "string \<Rightarrow> units" where
  "string_units s = map of_char s"

definition units_string :: "units \<Rightarrow> string" where
  "units_string us = map char_of us"

text \<open>\<open>getThresholdBytes\<close>: the environment variable, the configuration, 1 MiB.\<close>

definition DEFAULT_THRESHOLD_BYTES :: int where
  "DEFAULT_THRESHOLD_BYTES = 1048576"

definition getThresholdBytes :: "string \<Rightarrow> int option \<Rightarrow> int" where
  "getThresholdBytes env_value config =
     (let from_config = (case config of Some n \<Rightarrow> (if 0 < n then n else DEFAULT_THRESHOLD_BYTES)
                         | None \<Rightarrow> DEFAULT_THRESHOLD_BYTES)
      in if env_value = [] then from_config
         else case parse_int_str env_value of
           Some n \<Rightarrow> (if 0 < n then n else from_config)
         | None \<Rightarrow> from_config)"

fun shouldLift :: "json \<Rightarrow> int \<Rightarrow> bool" where
  "shouldLift (JStr s) threshold \<longleftrightarrow> threshold \<le> int (byteLength (string_units s))"
| "shouldLift _ _ \<longleftrightarrow> False"

type_synonym disk = "bytes obj"

text \<open>
  \<open>liftValue\<close>: the new disk and the reference; \<open>None\<close> where creating the folder or writing the
  file throws.
\<close>

definition liftValue ::
    "(string \<Rightarrow> bool) \<Rightarrow> string \<Rightarrow> string \<Rightarrow> string \<Rightarrow> string \<Rightarrow> disk \<Rightarrow> (disk \<times> json) option" where
  "liftValue writable staging n port s d =
     (let rel = output_path n port; file = path_resolve staging rel
      in if writable file
         then Some (oset file (streamWrite STREAM_CHUNK_BYTES (Text (string_units s))) d,
                    JObj [(REF_KEY, JStr rel), (''Bytes'', JInt (int (byteLength (string_units s))))])
         else None)"

definition materializeRefValue :: "disk \<Rightarrow> string \<Rightarrow> json \<Rightarrow> json" where
  "materializeRefValue d staging v =
     (if \<not> isOutputRef v then v
      else if staging = [] then JUndef
      else case oget d (path_resolve staging (ref_path v)) of
        None \<Rightarrow> JUndef
      | Some bs \<Rightarrow> JStr (units_string (utf8_decode bs)))"

text \<open>
  \<open>mergeAndLift\<close>: field by field into the outputs of the node. A write to a field of a value that
  is not an object is dropped.
\<close>

fun put_field :: "string \<Rightarrow> json \<Rightarrow> json \<Rightarrow> json" where
  "put_field k v (JObj kvs) = JObj (oset k v kvs)"
| "put_field k v x = x"

definition output_or_new :: "json obj \<Rightarrow> string \<Rightarrow> json" where
  "output_or_new outs n = (let cur = jget outs n in if truthy cur then cur else JObj [])"

definition mergeField ::
    "(string \<Rightarrow> bool) \<Rightarrow> int \<Rightarrow> string \<Rightarrow> string \<Rightarrow> string \<times> json \<Rightarrow> json \<times> disk \<Rightarrow> json \<times> disk" where
  "mergeField writable threshold staging n kv td =
     (let (k, v) = kv; (target, d) = td
      in if staging \<noteq> [] \<and> shouldLift v threshold
         then case v of
             JStr s \<Rightarrow> (case liftValue writable staging n k s d of
                 Some (d', ref) \<Rightarrow> (put_field k ref target, d')
               | None \<Rightarrow> (put_field k v target, d))
           | _ \<Rightarrow> (put_field k v target, d)
         else (put_field k v target, d))"

fun mergeFields ::
    "(string \<Rightarrow> bool) \<Rightarrow> int \<Rightarrow> string \<Rightarrow> string \<Rightarrow> json obj \<Rightarrow> json \<times> disk \<Rightarrow> json \<times> disk" where
  "mergeFields writable threshold staging n [] td = td"
| "mergeFields writable threshold staging n (kv # kvs) td =
     mergeFields writable threshold staging n kvs (mergeField writable threshold staging n kv td)"

definition mergeAndLift ::
    "(string \<Rightarrow> bool) \<Rightarrow> int \<Rightarrow> string \<Rightarrow> string \<Rightarrow> json obj \<Rightarrow> json obj \<Rightarrow> disk \<Rightarrow> json obj \<times> disk" where
  "mergeAndLift writable threshold staging n fields outs d =
     (let (target, d') = mergeFields writable threshold staging n fields (output_or_new outs n, d)
      in (oset n target outs, d'))"

text \<open>\<open>inlineAllRefs\<close>: every reference of every node replaced by its content.\<close>

fun inline_entry :: "disk \<Rightarrow> string \<Rightarrow> json \<Rightarrow> json" where
  "inline_entry d staging (JObj kvs) = JObj (map (\<lambda>(k, v). (k, materializeRefValue d staging v)) kvs)"
| "inline_entry d staging x = x"

definition inlineAllRefs :: "disk \<Rightarrow> string \<Rightarrow> json obj \<Rightarrow> json obj" where
  "inlineAllRefs d staging outs = map (\<lambda>(n, entry). (n, inline_entry d staging entry)) outs"


subsection \<open>Encoding and decoding\<close>

lemma surrogates_disjoint: "high_surrogate u \<Longrightarrow> \<not> low_surrogate u"
  by (simp add: high_surrogate_def low_surrogate_def)

lemma utf8_Nil [simp]: "utf8 [] = []"
  by (simp add: utf8_def)

lemma utf8_append:
  "\<not> (xs \<noteq> [] \<and> ys \<noteq> [] \<and> high_surrogate (last xs) \<and> low_surrogate (hd ys)) \<Longrightarrow>
    utf8 (xs @ ys) = utf8 xs @ utf8 ys"
proof (induction xs rule: code_points.induct)
  case 1
  then show ?case by simp
next
  case (2 u)
  then show ?case by (cases ys) (auto simp: utf8_def)
next
  case (3 u v us)
  then show ?case
    by (cases "high_surrogate u \<and> low_surrogate v") (auto simp: utf8_def split: if_splits)
qed

text \<open>A boundary inside a surrogate pair costs two bytes: 3 + 3 for the halves, 4 for the pair.\<close>

lemma length_replacement: "length (encode_point replacement) = 3"
  by (simp add: encode_point_def replacement_def)

lemma length_pair:
  assumes "high_surrogate h" "low_surrogate l"
  shows "length (encode_point (pair_point h l)) = 4"
proof -
  have "65536 \<le> pair_point h l" by (simp add: pair_point_def)
  then show ?thesis by (simp add: encode_point_def)
qed

lemma utf8_low_first:
  "low_surrogate l \<Longrightarrow> utf8 (l # ys) = encode_point replacement @ utf8 ys"
  by (cases ys) (auto simp: utf8_def dest: surrogates_disjoint)

lemma utf8_split_pair:
  "xs \<noteq> [] \<Longrightarrow> high_surrogate (last xs) \<Longrightarrow> low_surrogate l \<Longrightarrow>
    length (utf8 xs @ utf8 (l # ys)) = length (utf8 (xs @ l # ys)) + 2"
proof (induction xs rule: code_points.induct)
  case 1
  then show ?case by simp
next
  case (2 u)
  then have "utf8 ([u] @ l # ys) = encode_point (pair_point u l) @ utf8 ys"
    and "utf8 [u] = encode_point replacement"
    by (simp_all add: utf8_def)
  with 2 show ?case by (simp add: utf8_low_first length_replacement length_pair)
next
  case (3 u v us)
  show ?case
  proof (cases "high_surrogate u \<and> low_surrogate v")
    case True
    have ne: "us \<noteq> []" using 3(4) True surrogates_disjoint [of v] by auto
    have IH: "length (utf8 us @ utf8 (l # ys)) = length (utf8 (us @ l # ys)) + 2"
      using 3(1) [OF True ne] 3(4,5) ne by simp
    have "utf8 ((u # v # us) @ zs) = encode_point (pair_point u v) @ utf8 (us @ zs)" for zs
      using True by (simp add: utf8_def)
    from this [of "[]"] this [of "l # ys"] IH show ?thesis by simp
  next
    case False
    then have "utf8 (u # v # us) = utf8 [u] @ utf8 (v # us)"
      and "utf8 ((u # v # us) @ l # ys) = utf8 [u] @ utf8 ((v # us) @ l # ys)"
      using utf8_append [of "[u]" "v # us"] utf8_append [of "[u]" "(v # us) @ l # ys"] by auto
    moreover have "length (utf8 (v # us) @ utf8 (l # ys)) = length (utf8 ((v # us) @ l # ys)) + 2"
      using False 3 by auto
    ultimately show ?thesis by simp
  qed
qed

text \<open>The reader undoes the encoder.\<close>

lemma digits64:
  "c = c div 64 * 64 + c mod 64"
  "c div 64 = c div 64 div 64 * 64 + c div 64 mod 64"
  "c div 64 div 64 = c div 64 div 64 div 64 * 64 + c div 64 div 64 mod 64"
  for c :: nat
  by (rule div_mult_mod_eq [symmetric])+

lemma continuation_mod: "continuation (128 + c mod 64)"
  by (simp add: continuation_def)

lemma decode_point:
  assumes "c < 1114112"
  shows "utf8_decode (encode_point c @ bs) = point_units c @ utf8_decode bs"
proof -
  note d = digits64 [of c]
  consider "c < 128" | "128 \<le> c" "c < 2048" | "2048 \<le> c" "c < 65536" | "65536 \<le> c" by linarith
  then show ?thesis
  proof cases
    case 1
    then show ?thesis by (simp add: encode_point_def point_units_def)
  next
    case 2
    then have hi: "c div 64 < 32" by (simp add: div_less_iff_less_mult)
    have e: "encode_point c = [192 + c div 64, 128 + c mod 64]"
      using 2 by (simp add: encode_point_def)
    show ?thesis
      unfolding e using hi continuation_mod [of c] d(1) by simp
  next
    case 3
    then have hi: "c div 64 div 64 < 16" by (simp add: div_less_iff_less_mult)
    have e: "encode_point c = [224 + c div 64 div 64, 128 + c div 64 mod 64, 128 + c mod 64]"
      using 3 by (simp add: encode_point_def)
    have "(c div 64 div 64 * 64 + c div 64 mod 64) * 64 + c mod 64 = c"
      by (simp only: div_mult_mod_eq)
    then show ?thesis
      unfolding e using hi continuation_mod [of c] continuation_mod [of "c div 64"] by simp
  next
    case 4
    have e: "encode_point c = [240 + c div 64 div 64 div 64, 128 + c div 64 div 64 mod 64,
        128 + c div 64 mod 64, 128 + c mod 64]"
      using 4 by (simp add: encode_point_def)
    have "((c div 64 div 64 div 64 * 64 + c div 64 div 64 mod 64) * 64 + c div 64 mod 64) * 64
        + c mod 64 = c"
      by (simp only: div_mult_mod_eq)
    then show ?thesis
      unfolding e
      using continuation_mod [of c] continuation_mod [of "c div 64"] continuation_mod [of "c div 64 div 64"]
      by simp
  qed
qed

lemma point_units_pair:
  assumes "high_surrogate h" "low_surrogate l"
  shows "point_units (pair_point h l) = [h, l]" and "pair_point h l < 1114112"
proof -
  have hl: "55296 \<le> h" "h < 56320" "56320 \<le> l" "l < 57344"
    using assms by (simp_all add: high_surrogate_def low_surrogate_def)
  obtain a b where ab: "h = 55296 + a" "l = 56320 + b"
    using hl by (metis le_iff_add)
  have "b < 1024" using hl ab by simp
  then have "(a * 1024 + b) div 1024 = a" and "(a * 1024 + b) mod 1024 = b"
    by simp_all
  then show "point_units (pair_point h l) = [h, l]"
    by (simp add: point_units_def pair_point_def ab)
  show "pair_point h l < 1114112"
    using hl by (simp add: pair_point_def)
qed

text \<open>A string whose surrogates come in pairs.\<close>

fun well_formed :: "units \<Rightarrow> bool" where
  "well_formed [] = True"
| "well_formed [u] = (u < 65536 \<and> \<not> high_surrogate u \<and> \<not> low_surrogate u)"
| "well_formed (u # v # us) =
     (if high_surrogate u then low_surrogate v \<and> well_formed us
      else u < 65536 \<and> \<not> low_surrogate u \<and> well_formed (v # us))"

lemma decode_utf8: "well_formed us \<Longrightarrow> utf8_decode (utf8 us) = us"
proof (induction us rule: well_formed.induct)
  case 1
  then show ?case by simp
next
  case (2 u)
  then show ?case using decode_point [of u "[]"] by (simp add: utf8_def point_units_def)
next
  case (3 u v us)
  show ?case
  proof (cases "high_surrogate u")
    case True
    with 3 show ?thesis
      using decode_point [of "pair_point u v" "utf8 us"] point_units_pair [of u v]
      by (simp add: utf8_def)
  next
    case False
    then have "utf8 (u # v # us) = encode_point u @ utf8 (v # us)"
      using 3(3) by (simp add: utf8_def)
    with False 3 show ?thesis
      using decode_point [of u "utf8 (v # us)"] by (simp add: point_units_def)
  qed
qed

lemma well_formed_small: "\<forall>u \<in> set us. u < 55296 \<Longrightarrow> well_formed us"
  by (induction us rule: well_formed.induct) (auto simp: high_surrogate_def low_surrogate_def)

lemma string_units_small: "u \<in> set (string_units s) \<Longrightarrow> u < 256"
  by (auto simp: string_units_def)

lemma units_string_units [simp]: "units_string (string_units s) = s"
  by (induction s) (auto simp: units_string_def string_units_def)

subsection \<open>Chunks and surrogate pairs\<close>

text \<open>A surrogate pair lies across position \<open>i\<close> of a string.\<close>

definition cut_pair :: "units \<Rightarrow> nat \<Rightarrow> bool" where
  "cut_pair us i \<longleftrightarrow>
     0 < i \<and> i < length us \<and> high_surrogate (us ! (i - 1)) \<and> low_surrogate (us ! i)"

lemma cut_pair_drop: "0 < j \<Longrightarrow> cut_pair (drop n us) j \<longleftrightarrow> cut_pair us (n + j)"
  by (auto simp: cut_pair_def nth_append less_diff_conv add.commute)

lemma cut_pair_front:
  assumes "0 < n" "n < length us"
  shows "cut_pair us n \<longleftrightarrow> high_surrogate (last (take n us)) \<and> low_surrogate (hd (drop n us))"
proof -
  have "last (take n us) = us ! (n - 1)"
    using assms by (subst last_conv_nth) auto
  moreover have "hd (drop n us) = us ! n" using assms by (simp add: hd_drop_conv_nth)
  ultimately show ?thesis using assms by (simp add: cut_pair_def)
qed

lemma stream_chunks_step:
  "us \<noteq> [] \<Longrightarrow> 0 < n \<Longrightarrow> stream_chunks n us = take n us # stream_chunks n (drop n us)"
  by (subst stream_chunks.simps) simp

lemma concat_stream_chunks: "0 < n \<Longrightarrow> concat (stream_chunks n us) = us"
proof (induction n us rule: stream_chunks.induct)
  case (1 n us)
  then show ?case
    by (cases "us = []") (simp_all add: stream_chunks.simps [of n us] stream_chunks.simps [of n "[]"])
qed

lemma stream_text_length:
  "0 < n \<Longrightarrow>
    length (utf8 us) + 2 * length (filter (\<lambda>i. n dvd i \<and> cut_pair us i) [0..<length us]) =
    length (concat (map utf8 (stream_chunks n us)))"
proof (induction n us rule: stream_chunks.induct)
  case (1 n us)
  show ?case
  proof (cases "length us \<le> n")
    case True
    then have "filter (\<lambda>i. n dvd i \<and> cut_pair us i) [0..<length us] = []"
      using 1(2) by (auto simp: filter_empty_conv cut_pair_def dest: dvd_imp_le)
    moreover have "us = [] \<or> stream_chunks n us = [us]"
      using True 1(2) by (cases "us = []") (simp_all add: stream_chunks_step stream_chunks.simps [of n "[]"])
    ultimately show ?thesis by (auto simp: stream_chunks.simps [of n "[]"])
  next
    case False
    let ?P = "\<lambda>us i. n dvd i \<and> cut_pair us i"
    let ?cut = "if cut_pair us n then 1 else 0 :: nat"
    let ?rest = "drop n us"
    have ne: "us \<noteq> []" "?rest \<noteq> []" using False by auto
    have "length us = n + length ?rest" using False by simp
    then have "[0..<length us] = [0..<n] @ [n..<n + length ?rest]"
      using upt_add_eq_append [of 0 n "length ?rest"] by (simp only: le0)
    then have split: "length (filter (?P us) [0..<length us]) =
        length (filter (?P us) [0..<n]) + length (filter (?P us) [n..<n + length ?rest])"
      by simp
    have low: "filter (?P us) [0..<n] = []"
      by (auto simp: filter_empty_conv cut_pair_def dest: dvd_imp_le)
    have shift: "[n..<n + length ?rest] = map ((+) n) [0..<length ?rest]"
    proof -
      have "map (\<lambda>i. i + n) [0..<length ?rest] = [n..<length ?rest + n]" by (rule map_add_upt)
      moreover have "(\<lambda>i. i + n) = (+) n" by (simp add: fun_eq_iff)
      ultimately show ?thesis by (metis add.commute)
    qed
    have "[0..<length ?rest] = 0 # [1..<length ?rest]"
      using ne(2) by (metis One_nat_def length_greater_0_conv upt_conv_Cons)
    then have high: "length (filter (?P us) [n..<n + length ?rest]) =
        ?cut + length (filter (?P us \<circ> (+) n) [1..<length ?rest])"
      and high': "length (filter (?P ?rest) [0..<length ?rest]) =
        length (filter (?P ?rest) [1..<length ?rest])"
      by (simp_all add: shift filter_map cut_pair_def o_def del: length_drop)
    have "filter (?P us \<circ> (+) n) [1..<length ?rest] = filter (?P ?rest) [1..<length ?rest]"
      by (rule filter_cong) (auto simp: cut_pair_drop)
    with split low high high' have count: "length (filter (?P us) [0..<length us]) =
        ?cut + length (filter (?P ?rest) [0..<length ?rest])"
      by simp
    have IH: "length (utf8 ?rest) + 2 * length (filter (?P ?rest) [0..<length ?rest]) =
        length (concat (map utf8 (stream_chunks n ?rest)))"
      using 1 ne by simp
    have bytes: "length (utf8 us) + 2 * ?cut = length (utf8 (take n us)) + length (utf8 ?rest)"
    proof (cases "cut_pair us n")
      case True
      then have "high_surrogate (last (take n us))" "low_surrogate (hd ?rest)"
        using cut_pair_front [of n us] 1(2) False by auto
      then show ?thesis
        using utf8_split_pair [of "take n us" "hd ?rest" "tl ?rest"] ne 1(2) True by simp
    next
      case no: False
      then show ?thesis
        using utf8_append [of "take n us" ?rest] cut_pair_front [of n us] 1(2) False by auto
    qed
    show ?thesis
      using count IH bytes stream_chunks_step [OF ne(1) 1(2)] by simp
  qed
qed

lemma stream_text_whole:
  "0 < n \<Longrightarrow> (\<And>i. n dvd i \<Longrightarrow> \<not> cut_pair us i) \<Longrightarrow>
    concat (map utf8 (stream_chunks n us)) = utf8 us"
proof (induction n us rule: stream_chunks.induct)
  case (1 n us)
  show ?case
  proof (cases "us = []")
    case True
    then show ?thesis by (simp add: stream_chunks.simps)
  next
    case False
    have rest: "\<not> cut_pair (drop n us) i" if "n dvd i" for i
    proof (cases "i = 0")
      case True
      then show ?thesis by (simp add: cut_pair_def)
    next
      case False
      then show ?thesis using cut_pair_drop [of i n us] 1(3) [of "n + i"] that by simp
    qed
    have "concat (map utf8 (stream_chunks n (drop n us))) = utf8 (drop n us)"
      using 1 False rest by simp
    moreover have "utf8 (take n us) @ utf8 (drop n us) = utf8 us"
      using utf8_append [of "take n us" "drop n us"] cut_pair_front [of n us] 1(2) 1(3) [of n]
      by (metis append_take_drop_id drop_eq_Nil dvd_refl not_le)
    ultimately show ?thesis using stream_chunks_step [OF False 1(2)] by simp
  qed
qed

text \<open>
  The chunked writer produces the UTF-8 encoding of the string exactly when no surrogate pair
  lies across a chunk boundary; every pair that does makes the file two bytes longer than
  \<open>Bytes\<close> says. A buffer is always written as it is.
\<close>

theorem stream_write_faithful:
  assumes "0 < n"
  shows "(streamWrite n (Text us) = utf8 us) = (\<forall>i. n dvd i \<longrightarrow> \<not> cut_pair us i) \<and>
    length (streamWrite n (Text us)) =
      byteLength us + 2 * length (filter (\<lambda>i. n dvd i \<and> cut_pair us i) [0..<length us]) \<and>
    streamWrite n (Binary bs) = bs"
proof (intro conjI)
  show len: "length (streamWrite n (Text us)) =
      byteLength us + 2 * length (filter (\<lambda>i. n dvd i \<and> cut_pair us i) [0..<length us])"
    using stream_text_length [OF assms, of us] by (simp add: streamWrite_def byteLength_def)
  show "streamWrite n (Binary bs) = bs"
    using assms by (simp add: streamWrite_def concat_stream_chunks)
  show "(streamWrite n (Text us) = utf8 us) = (\<forall>i. n dvd i \<longrightarrow> \<not> cut_pair us i)"
  proof
    assume "streamWrite n (Text us) = utf8 us"
    with len have "filter (\<lambda>i. n dvd i \<and> cut_pair us i) [0..<length us] = []"
      by (simp add: byteLength_def)
    then show "\<forall>i. n dvd i \<longrightarrow> \<not> cut_pair us i"
      by (auto simp: filter_empty_conv cut_pair_def)
  next
    assume "\<forall>i. n dvd i \<longrightarrow> \<not> cut_pair us i"
    then show "streamWrite n (Text us) = utf8 us"
      using stream_text_whole [OF assms] by (simp add: streamWrite_def)
  qed
qed

lemma cut_pair_at: "high_surrogate h \<Longrightarrow> low_surrogate l \<Longrightarrow> cut_pair (replicate m u @ [h, l]) (Suc m)"
  by (simp add: cut_pair_def nth_append)

lemma stream_write_faithful_witness:
  "streamWrite STREAM_CHUNK_BYTES (Text (replicate 65535 97 @ [55357, 56832])) \<noteq>
    utf8 (replicate 65535 97 @ [55357, 56832])"
proof -
  define us where "us = replicate 65535 (97 :: nat) @ [55357, 56832]"
  have "cut_pair us (Suc 65535)"
    unfolding us_def by (rule cut_pair_at) (simp_all add: high_surrogate_def low_surrogate_def)
  moreover have "STREAM_CHUNK_BYTES dvd Suc 65535" by (simp add: STREAM_CHUNK_BYTES_def)
  ultimately show ?thesis
    using stream_write_faithful [of STREAM_CHUNK_BYTES us "[]"]
    unfolding us_def by (metis STREAM_CHUNK_BYTES_def zero_less_numeral)
qed

subsection \<open>The files of a run\<close>

lemma safeSegment_safe: "c \<in> set (safeSegment s) \<Longrightarrow> safe_char c"
  by (auto simp: safeSegment_def safe_char_def split: if_splits)

lemma safeSegment_nonempty: "safeSegment s \<noteq> []"
  by (simp add: safeSegment_def)

lemma safeSegment_plain:
  "CHR ''/'' \<notin> set (safeSegment s)" "CHR ''.'' \<notin> set (safeSegment s)"
  using safeSegment_safe [of "CHR ''/''" s] safeSegment_safe [of "CHR ''.''" s]
  by (auto simp: safe_char_def)

lemma output_path_segments:
  "path_segments (output_path n port) = [REF_DIR, safeSegment n, safeSegment port @ ''.json'']"
proof -
  have "output_path n port = join_with (CHR ''/'') [REF_DIR, safeSegment n, safeSegment port @ ''.json'']"
    by (simp add: output_path_def)
  moreover have "split_on (CHR ''/'') (join_with (CHR ''/'') [REF_DIR, safeSegment n, safeSegment port @ ''.json''])
      = [REF_DIR, safeSegment n, safeSegment port @ ''.json'']"
    by (rule split_join) (auto simp: safeSegment_plain REF_DIR_def)
  ultimately show ?thesis
    by (simp add: path_segments_def safeSegment_nonempty REF_DIR_def del: split_on.simps join_with.simps)
qed

lemma not_dots: "CHR ''.'' \<notin> set s \<Longrightarrow> s \<noteq> [] \<Longrightarrow> push_segment acc s = acc @ [s]"
  by (auto simp: push_segment_def)

lemma not_dots_json: "s \<noteq> [] \<Longrightarrow> CHR ''.'' \<notin> set s \<Longrightarrow>
    push_segment acc (s @ ''.json'') = acc @ [s @ ''.json'']"
  by (cases s) (auto simp: push_segment_def)

definition base_segments :: "string \<Rightarrow> string list" where
  "base_segments base = foldl push_segment [] (path_segments base)"

lemma output_file:
  "path_resolve base (output_path n port) =
    CHR ''/'' # join_with (CHR ''/'')
      (base_segments base @ [REF_DIR, safeSegment n, safeSegment port @ ''.json''])"
proof -
  have "\<not> is_absolute (output_path n port)"
    by (simp add: is_absolute_def output_path_def REF_DIR_def)
  moreover have "CHR ''.'' \<notin> set REF_DIR" "REF_DIR \<noteq> []" by (simp_all add: REF_DIR_def)
  ultimately show ?thesis
    by (simp add: path_resolve_def normal_path_def output_path_segments base_segments_def
        not_dots not_dots_json safeSegment_plain safeSegment_nonempty)
qed

lemma push_segment_set: "set (foldl push_segment acc segs) \<subseteq> set acc \<union> set segs"
proof (induction segs arbitrary: acc)
  case Nil
  then show ?case by simp
next
  case (Cons s segs)
  have "set (push_segment acc s) \<subseteq> set acc \<union> {s}"
    by (auto simp: push_segment_def dest: in_set_butlastD)
  with Cons [of "push_segment acc s"] show ?case by auto
qed

lemma base_segments_plain: "s \<in> set (base_segments base) \<Longrightarrow> CHR ''/'' \<notin> set s"
  using push_segment_set [of "[]" "path_segments base"] split_on_no_sep [of s "CHR ''/''" base]
  by (auto simp: base_segments_def path_segments_def)

lemma output_file_inj:
  "path_resolve base (output_path n p) = path_resolve base (output_path n' p') \<longleftrightarrow>
    safeSegment n = safeSegment n' \<and> safeSegment p = safeSegment p'"
proof
  let ?segs = "\<lambda>n p. base_segments base @ [REF_DIR, safeSegment n, safeSegment p @ ''.json'']"
  have split: "split_on (CHR ''/'') (join_with (CHR ''/'') (?segs n p)) = ?segs n p" for n p
    by (rule split_join) (auto simp: safeSegment_plain REF_DIR_def dest: base_segments_plain)
  assume "path_resolve base (output_path n p) = path_resolve base (output_path n' p')"
  then have "join_with (CHR ''/'') (?segs n p) = join_with (CHR ''/'') (?segs n' p')"
    by (simp add: output_file)
  then have "?segs n p = ?segs n' p'" using split by metis
  then show "safeSegment n = safeSegment n' \<and> safeSegment p = safeSegment p'" by simp
qed (simp add: output_file)

subsection \<open>Reading back what was merged\<close>

fun jfield :: "json \<Rightarrow> string \<Rightarrow> json" where
  "jfield (JObj kvs) k = jget kvs k"
| "jfield _ k = JUndef"

definition is_obj :: "json \<Rightarrow> bool" where
  "is_obj v = (case v of JObj kvs \<Rightarrow> True | _ \<Rightarrow> False)"

lemma jfield_put: "is_obj x \<Longrightarrow> jfield (put_field k v x) k' = (if k' = k then v else jfield x k')"
  by (cases x) (simp_all add: is_obj_def)

lemma is_obj_put [simp]: "is_obj (put_field k v x) = is_obj x"
  by (cases x) (simp_all add: is_obj_def)

lemma JStr_read: "utf8_decode (streamWrite STREAM_CHUNK_BYTES (Text (string_units s))) = string_units s"
proof -
  have small: "u \<in> set (string_units s) \<Longrightarrow> u < 55296" for u
    using string_units_small [of u s] by simp
  have "\<not> cut_pair (string_units s) i" for i
    using small [of "string_units s ! (i - 1)"] by (auto simp: cut_pair_def high_surrogate_def)
  then have "streamWrite STREAM_CHUNK_BYTES (Text (string_units s)) = utf8 (string_units s)"
    by (simp add: streamWrite_def STREAM_CHUNK_BYTES_def stream_text_whole)
  then show ?thesis using small by (simp add: decode_utf8 well_formed_small)
qed

lemma lifted_ref:
  assumes "liftValue w st n k s d = Some (d', ref)" "st \<noteq> []"
  shows "isOutputRef ref" and "ref_path ref = output_path n k"
    and "d' = oset (path_resolve st (output_path n k)) (streamWrite STREAM_CHUNK_BYTES (Text (string_units s))) d"
    and "materializeRefValue d' st ref = JStr s"
proof -
  show r: "isOutputRef ref" "ref_path ref = output_path n k"
    "d' = oset (path_resolve st (output_path n k)) (streamWrite STREAM_CHUNK_BYTES (Text (string_units s))) d"
    using assms(1) by (auto simp: liftValue_def Let_def REF_KEY_def jget_def split: if_splits)
  show "materializeRefValue d' st ref = JStr s"
    using assms(2) r by (simp add: materializeRefValue_def obj_simps JStr_read)
qed

lemma materialize_other_file:
  "oget d' (path_resolve st (ref_path v)) = oget d (path_resolve st (ref_path v)) \<Longrightarrow>
    materializeRefValue d' st v = materializeRefValue d st v"
  by (simp add: materializeRefValue_def)

text \<open>One field: what is stored reads back, and what else the step leaves alone.\<close>

definition stored_at :: "string \<Rightarrow> string \<Rightarrow> string \<Rightarrow> json \<Rightarrow> bool" where
  "stored_at st n k x \<longleftrightarrow> (isOutputRef x \<longrightarrow> ref_path x = output_path n k)"

lemma mergeField_spec:
  assumes "mergeField w th st n (k, v) (t, d) = (t', d')" "is_obj t" "\<not> isOutputRef v"
  shows "is_obj t' \<and> materializeRefValue d' st (jfield t' k) = v \<and> stored_at st n k (jfield t' k) \<and>
    (\<forall>k'. k' \<noteq> k \<longrightarrow> jfield t' k' = jfield t k') \<and>
    (\<forall>f. f \<noteq> path_resolve st (output_path n k) \<longrightarrow> oget d' f = oget d f)"
proof -
  consider (inline) "t' = put_field k v t" "d' = d"
    | (lifted) s ref where "v = JStr s" "liftValue w st n k s d = Some (d', ref)" "st \<noteq> []"
        "t' = put_field k ref t"
    using assms(1) by (auto simp: mergeField_def split: if_splits json.splits option.splits)
  then show ?thesis
  proof cases
    case inline
    with assms show ?thesis by (simp add: jfield_put stored_at_def materializeRefValue_def)
  next
    case lifted
    note r = lifted_ref [OF lifted(2,3)]
    from lifted(1,4) r assms(2) show ?thesis
      by (auto simp: jfield_put stored_at_def obj_simps)
  qed
qed

lemma mergeFields_spec:
  assumes "mergeFields w th st n fields (t, d) = (t', d')" "is_obj t"
    and "distinct (map (safeSegment \<circ> fst) fields)" "\<forall>(k, v) \<in> set fields. \<not> isOutputRef v"
  shows "is_obj t' \<and> (\<forall>(k, v) \<in> set fields. materializeRefValue d' st (jfield t' k) = v) \<and>
    (\<forall>k'. k' \<notin> set (okeys fields) \<longrightarrow> jfield t' k' = jfield t k') \<and>
    (\<forall>f. (\<forall>k \<in> set (okeys fields). f \<noteq> path_resolve st (output_path n k)) \<longrightarrow> oget d' f = oget d f)"
  using assms
proof (induction fields arbitrary: t d)
  case Nil
  then show ?case by simp
next
  case (Cons kv fields)
  obtain k v where kv: "kv = (k, v)" by (cases kv)
  obtain t1 d1 where step: "mergeField w th st n (k, v) (t, d) = (t1, d1)"
    by (cases "mergeField w th st n (k, v) (t, d)")
  have one: "is_obj t1 \<and> materializeRefValue d1 st (jfield t1 k) = v \<and> stored_at st n k (jfield t1 k) \<and>
      (\<forall>k'. k' \<noteq> k \<longrightarrow> jfield t1 k' = jfield t k') \<and>
      (\<forall>f. f \<noteq> path_resolve st (output_path n k) \<longrightarrow> oget d1 f = oget d f)"
    using mergeField_spec [OF step] Cons.prems kv by auto
  have rest: "is_obj t' \<and> (\<forall>(k, v) \<in> set fields. materializeRefValue d' st (jfield t' k) = v) \<and>
      (\<forall>k'. k' \<notin> set (okeys fields) \<longrightarrow> jfield t' k' = jfield t1 k') \<and>
      (\<forall>f. (\<forall>k \<in> set (okeys fields). f \<noteq> path_resolve st (output_path n k)) \<longrightarrow> oget d' f = oget d1 f)"
    by (rule Cons.IH) (use Cons.prems kv step one in auto)
  have fresh: "safeSegment k' \<noteq> safeSegment k" if "k' \<in> set (okeys fields)" for k'
    using Cons.prems(3) kv that by force
  then have "k \<notin> set (okeys fields)" by blast
  then have "jfield t' k = jfield t1 k" using rest by blast
  moreover have "oget d' (path_resolve st (output_path n k)) = oget d1 (path_resolve st (output_path n k))"
    using rest fresh output_file_inj by metis
  ultimately have "materializeRefValue d' st (jfield t' k) = v"
    using one materialize_other_file [of d' st "jfield t1 k" d1]
    by (cases "isOutputRef (jfield t1 k)") (auto simp: stored_at_def materializeRefValue_def)
  with one rest kv show ?case by auto
qed

lemma mergeAndLift_spec:
  assumes "mergeAndLift w th st n fields outs d = (outs', d')" "is_obj (output_or_new outs n)"
    and "distinct (map (safeSegment \<circ> fst) fields)" "\<forall>(k, v) \<in> set fields. \<not> isOutputRef v"
  shows "\<forall>(k, v) \<in> set fields. materializeRefValue d' st (jfield (jget outs' n) k) = v"
    and "n' \<noteq> n \<Longrightarrow> jget outs' n' = jget outs n'"
    and "safeSegment n' \<noteq> safeSegment n \<Longrightarrow>
      oget d' (path_resolve st (output_path n' k)) = oget d (path_resolve st (output_path n' k))"
proof -
  obtain t where m: "mergeFields w th st n fields (output_or_new outs n, d) = (t, d')"
    and outs': "outs' = oset n t outs"
    using assms(1) by (auto simp: mergeAndLift_def split: prod.splits)
  note spec = mergeFields_spec [OF m assms(2-4)]
  show "\<forall>(k, v) \<in> set fields. materializeRefValue d' st (jfield (jget outs' n) k) = v"
    using spec outs' by simp
  show "n' \<noteq> n \<Longrightarrow> jget outs' n' = jget outs n'" using outs' by simp
  show "safeSegment n' \<noteq> safeSegment n \<Longrightarrow>
      oget d' (path_resolve st (output_path n' k)) = oget d (path_resolve st (output_path n' k))"
    using spec output_file_inj by metis
qed

text \<open>
  Whatever the threshold and whichever files can be written, every field merged into the
  outputs of a node reads back as it was returned, as long as no two of its ports map to the same
  file; the outputs of the other nodes and the files of nodes with another segment stay as they
  were.
\<close>

theorem merged_fields_read_back:
  assumes "mergeAndLift writable threshold staging n fields outs d = (outs', d')"
    and "is_obj (output_or_new outs n)"
    and "distinct (map (safeSegment \<circ> fst) fields)"
    and "\<forall>(k, v) \<in> set fields. \<not> isOutputRef v"
  shows "(\<forall>(k, v) \<in> set fields. materializeRefValue d' staging (jfield (jget outs' n) k) = v) \<and>
    (\<forall>n'. n' \<noteq> n \<longrightarrow> jget outs' n' = jget outs n') \<and>
    (\<forall>n' k. safeSegment n' \<noteq> safeSegment n \<longrightarrow>
      oget d' (path_resolve staging (output_path n' k)) = oget d (path_resolve staging (output_path n' k)))"
  using mergeAndLift_spec [OF assms] by blast

lemma merged_fields_read_back_witness:
  "materializeRefValue (snd (mergeAndLift (\<lambda>_. True) 3 ''/s'' ''n'' [(''a'', JStr ''long''), (''b'', JNum 2)] [] []))
     ''/s'' (jfield (jget (fst (mergeAndLift (\<lambda>_. True) 3 ''/s'' ''n'' [(''a'', JStr ''long''), (''b'', JNum 2)] [] [])) ''n'') ''a'')
   = JStr ''long''"
  using merged_fields_read_back
    [of "\<lambda>_. True" 3 "''/s''" "''n''" "[(''a'', JStr ''long''), (''b'', JNum 2)]" "[]" "[]"]
  by (simp add: prod_eq_iff output_or_new_def jget_def is_obj_def safeSegment_def safe_char_def)

text \<open>
  Two ports whose names differ only in characters that are not letters, digits, \<open>_\<close> or \<open>-\<close>
  share a file: when both values are lifted, both read back as the second one.
\<close>

theorem ports_share_a_file:
  assumes "p \<noteq> q" "safeSegment p = safeSegment q" "staging \<noteq> []"
    and "threshold \<le> int (byteLength (string_units a))" "threshold \<le> int (byteLength (string_units b))"
    and "mergeAndLift (\<lambda>_. True) threshold staging n [(p, JStr a), (q, JStr b)] [] d = (outs, d')"
  shows "materializeRefValue d' staging (jfield (jget outs n) p) = JStr b \<and>
    materializeRefValue d' staging (jfield (jget outs n) q) = JStr b"
proof -
  let ?lift = "\<lambda>k s d. oset (path_resolve staging (output_path n k))
    (streamWrite STREAM_CHUNK_BYTES (Text (string_units s))) d"
  obtain ra da where a: "liftValue (\<lambda>_. True) staging n p a d = Some (da, ra)"
    by (simp add: liftValue_def Let_def)
  obtain rb where b: "liftValue (\<lambda>_. True) staging n q b da = Some (?lift q b da, rb)"
    by (simp add: liftValue_def Let_def)
  have same: "output_path n p = output_path n q" using assms(2) by (simp add: output_path_def)
  have "mergeAndLift (\<lambda>_. True) threshold staging n [(p, JStr a), (q, JStr b)] [] d =
      ([(n, put_field q rb (put_field p ra (JObj [])))], ?lift q b da)"
    using assms(3-5) a b by (simp add: mergeAndLift_def mergeField_def output_or_new_def jget_def)
  then have outs: "jfield (jget outs n) p = ra" "jfield (jget outs n) q = rb" "d' = ?lift q b da"
    using assms(1,6) by (auto simp: jget_def)
  show ?thesis
    using outs same lifted_ref [OF a assms(3)] lifted_ref [OF b assms(3)] assms(3)
    by (simp add: materializeRefValue_def obj_simps JStr_read)
qed

lemma ports_share_a_file_witness:
  "materializeRefValue
     (snd (mergeAndLift (\<lambda>_. True) 1 ''/s'' ''n'' [(''a.b'', JStr ''first''), (''a_b'', JStr ''second'')] [] []))
     ''/s''
     (jfield (jget (fst (mergeAndLift (\<lambda>_. True) 1 ''/s'' ''n'' [(''a.b'', JStr ''first''), (''a_b'', JStr ''second'')] [] []))
       ''n'') ''a.b'') = JStr ''second''"
  using ports_share_a_file [of "''a.b''" "''a_b''" "''/s''" 1 "''first''" "''second''" "''n''" "[]"]
  by (simp add: prod_eq_iff safeSegment_def safe_char_def byteLength_def utf8_def string_units_def
      encode_point_def high_surrogate_def low_surrogate_def)

text \<open>
  A reference that a task returns itself is kept and followed wherever it points: the next
  task reads the content of any absolute path. The files that the store writes itself lie in the
  folder of their node under \<open>outputs\<close> in the staging folder, whatever the names of node and port.
\<close>

theorem foreign_reference_is_read:
  assumes "staging \<noteq> []" "is_absolute p"
    and "oget d (normal_path (path_segments p)) = Some content"
    and "mergeAndLift writable threshold staging n [(port, JObj [(REF_KEY, JStr p)])] [] d = (outs, d')"
  shows "materializeRefValue d' staging (jfield (jget outs n) port) = JStr (units_string (utf8_decode content)) \<and>
    path_resolve staging (output_path n port) = CHR ''/'' # join_with (CHR ''/'')
      (base_segments staging @ [REF_DIR, safeSegment n, safeSegment port @ ''.json''])"
proof
  have "outs = [(n, JObj [(port, JObj [(REF_KEY, JStr p)])])]" and "d' = d"
    using assms(4) by (auto simp: mergeAndLift_def mergeField_def output_or_new_def jget_def)
  then show "materializeRefValue d' staging (jfield (jget outs n) port) =
      JStr (units_string (utf8_decode content))"
    using assms(1-3) by (simp add: jget_def materializeRefValue_def path_resolve_def)
qed (rule output_file)

lemma foreign_reference_is_read_witness:
  "materializeRefValue [(''/etc/key'', [65, 66])] ''/s''
     (jfield (jget (fst (mergeAndLift (\<lambda>_. True) 9 ''/s'' ''n''
       [(''Result'', JObj [(REF_KEY, JStr ''/etc/key'')])] [] [(''/etc/key'', [65, 66])])) ''n'') ''Result'')
   = JStr (units_string [65, 66])"
proof -
  have m: "mergeAndLift (\<lambda>_. True) 9 ''/s'' ''n'' [(''Result'', JObj [(REF_KEY, JStr ''/etc/key'')])] []
      [(''/etc/key'', [65, 66])] =
    ([(''n'', JObj [(''Result'', JObj [(REF_KEY, JStr ''/etc/key'')])])], [(''/etc/key'', [65, 66])])"
    by (simp add: mergeAndLift_def mergeField_def output_or_new_def jget_def)
  have "materializeRefValue [(''/etc/key'', [65, 66])] ''/s''
     (jfield (jget [(''n'', JObj [(''Result'', JObj [(REF_KEY, JStr ''/etc/key'')])])] ''n'') ''Result'')
    = JStr (units_string (utf8_decode [65, 66]))"
    using foreign_reference_is_read [OF _ _ _ m, of "[65, 66]"]
    by (simp add: is_absolute_def normal_path_def path_segments_def push_segment_def)
  then show ?thesis by (simp add: m units_string_def)
qed

end
