(* ===== verification/EngineTypes.thy ===== *)
theory EngineTypes
  imports OutputStore
begin

section \<open>Graphs, task types and runs of the execution engine\<close>

text \<open>
  The data of the graph executor: operation statuses (\<open>Ultravisor-Status.cjs\<close>), the graph of an
  operation with its nodes, ports and connections, the registered task types
  (\<open>Ultravisor-TaskTypeRegistry.cjs\<close>), the behaviour of a task as the engine sees it, and the
  execution context of a run (\<open>createExecutionContext\<close> of \<open>Ultravisor-ExecutionManifest.cjs\<close>).
  Fields have the source's names behind a letter for their record. An absent string is \<open>''''\<close> and
  an absent object is \<open>[]\<close> where the code treats both alike.
\<close>

subsection \<open>Statuses\<close>

definition STATUS_QUEUED :: string where "STATUS_QUEUED = ''Queued''"
definition STATUS_IN_PROGRESS :: string where "STATUS_IN_PROGRESS = ''In Progress''"
definition STATUS_WAITING :: string where "STATUS_WAITING = ''Waiting''"
definition STATUS_ERROR :: string where "STATUS_ERROR = ''Error''"
definition STATUS_COMPLETE :: string where "STATUS_COMPLETE = ''Complete''"
definition STATUS_STALLED :: string where "STATUS_STALLED = ''Stalled''"
definition STATUS_FAILED :: string where "STATUS_FAILED = ''Failed''"
definition STATUS_ABANDONED :: string where "STATUS_ABANDONED = ''Abandoned''"
definition STATUS_RETRYING :: string where "STATUS_RETRYING = ''Retrying''"

lemmas status_defs = STATUS_QUEUED_def STATUS_IN_PROGRESS_def STATUS_WAITING_def STATUS_ERROR_def
  STATUS_COMPLETE_def STATUS_STALLED_def STATUS_FAILED_def STATUS_ABANDONED_def STATUS_RETRYING_def

definition STATUS_LEGACY_TO_CANONICAL :: "string obj" where
  "STATUS_LEGACY_TO_CANONICAL =
     [(''Pending'', STATUS_QUEUED), (''Queued'', STATUS_QUEUED),
      (''Running'', STATUS_IN_PROGRESS), (''In Progress'', STATUS_IN_PROGRESS),
      (''WaitingForInput'', STATUS_WAITING), (''Waiting'', STATUS_WAITING),
      (''Error'', STATUS_ERROR), (''Complete'', STATUS_COMPLETE), (''Completed'', STATUS_COMPLETE),
      (''Stalled'', STATUS_STALLED), (''Failed'', STATUS_FAILED),
      (''Abandoned'', STATUS_ABANDONED), (''Retrying'', STATUS_RETRYING)]"

definition TERMINAL_STATUSES :: "string list" where
  "TERMINAL_STATUSES = [STATUS_COMPLETE, STATUS_ERROR, STATUS_FAILED, STATUS_STALLED, STATUS_ABANDONED]"

definition status_normalize :: "string \<Rightarrow> string" where
  "status_normalize s = (case oget STATUS_LEGACY_TO_CANONICAL s of None \<Rightarrow> s | Some c \<Rightarrow> c)"

definition status_equals :: "string \<Rightarrow> string \<Rightarrow> bool" where
  "status_equals a b \<longleftrightarrow> status_normalize a = status_normalize b"

definition isTerminal :: "string \<Rightarrow> bool" where
  "isTerminal s \<longleftrightarrow> status_normalize s \<in> set TERMINAL_STATUSES"

definition isWaiting :: "string \<Rightarrow> bool" where
  "isWaiting s \<longleftrightarrow> status_normalize s = STATUS_WAITING"

definition isInProgress :: "string \<Rightarrow> bool" where
  "isInProgress s \<longleftrightarrow> status_normalize s = STATUS_IN_PROGRESS"

definition isQueued :: "string \<Rightarrow> bool" where
  "isQueued s \<longleftrightarrow> status_normalize s = STATUS_QUEUED"

subsection \<open>Graphs\<close>

record port =
  pHash :: string
  pLabel :: string

record node =
  nHash :: string
  nType :: string
  nDefinitionHash :: string
  nSettings :: "json obj option"
  nData :: "json obj option"
  nPorts :: "port list"
  nCapability :: string
  nAction :: string
  nTimeoutMs :: int

record connection =
  cSourceNodeHash :: string
  cSourcePortHash :: string
  cTargetNodeHash :: string
  cTargetPortHash :: string
  cConnectionType :: string
  cTemplate :: string
  cStateKey :: string

record graph =
  gNodes :: "node list"
  gConnections :: "connection list"

record operation =
  oHash :: string
  oName :: string
  oGraph :: "graph option"
  oInitialGlobalState :: "json obj"
  oInitialOperationState :: "json obj"

record connection_map =
  eventSources :: "connection list obj"
  stateTargets :: "connection list obj"

subsection \<open>Task types\<close>

record task_definition =
  dHash :: string
  dName :: string
  dCategory :: string
  dCapability :: string
  dAction :: string
  dTier :: string
  dEventInputs :: "string list"
  dEventOutputs :: "(string \<times> bool) list"
  dSettingsInputs :: "(string \<times> string) list"
  dStateOutputs :: "string list"

text \<open>
  What a task sees of its run, and the files as it finds them when it is called; and what it reports
  back.
\<close>

record task_context =
  tGlobalState :: "json obj"
  tOperationState :: "json obj"
  tTaskOutputs :: "json obj"
  tStagingPath :: string
  tOperationHash :: string
  tNodeHash :: string
  tRunHash :: string
  tRunMode :: string
  tTriggeringEventName :: string
  tDisk :: disk

record task_result =
  sWaitingForInput :: bool
  sPromptMessage :: string
  sOutputAddress :: string
  sResumeEventName :: string
  sEventToFire :: string
  sOutputs :: "json obj option"
  sStateWrites :: "json obj"
  sLog :: "string list"

datatype task_reply = TaskError string | NoResult | TaskResult task_result

text \<open>
  The behaviour of a task after \<open>execute\<close> is called: it calls back once with an error or a result
  (a synchronous throw is handled like the error), after firing any number of intermediate events
  and writing any number of state addresses, each time going on with the context it then sees.
  The first component is the time of the call. What a task does besides (files, requests to
  beacons) is not part of the engine.
\<close>

datatype task_run =
    Reply jstime task_reply
  | Fire jstime string "json obj" "task_context \<Rightarrow> task_run"
  | SetState jstime string json "task_context \<Rightarrow> task_run"

type_synonym executor = "json obj \<Rightarrow> task_context \<Rightarrow> task_run"

text \<open>
  A task type, registered as a config object or as a class: its definition, and its executor if
  it has one. The base class answers for one that has none.
\<close>

record task_type =
  yDefinition :: task_definition
  yExecute :: "executor option"

record task_registry =
  TaskTypes :: "task_type obj"
  TaskTypeConfigs :: "task_type obj"
  Definitions :: "task_definition obj"

definition empty_registry :: task_registry where
  "empty_registry = \<lparr>TaskTypes = [], TaskTypeConfigs = [], Definitions = []\<rparr>"

definition registerTaskType :: "task_type \<Rightarrow> task_registry \<Rightarrow> task_registry \<times> bool" where
  "registerTaskType ty reg =
     (let h = dHash (yDefinition ty)
      in if h = [] then (reg, False)
         else (reg\<lparr>TaskTypes := oset h ty (TaskTypes reg),
                    Definitions := oset h (yDefinition ty) (Definitions reg)\<rparr>, True))"

definition registerTaskTypeFromConfig :: "task_type \<Rightarrow> task_registry \<Rightarrow> task_registry \<times> bool" where
  "registerTaskTypeFromConfig ty reg =
     (let h = dHash (yDefinition ty)
      in if h = [] then (reg, False)
         else (reg\<lparr>TaskTypeConfigs := oset h ty (TaskTypeConfigs reg),
                    Definitions := oset h (yDefinition ty) (Definitions reg)\<rparr>, True))"

fun registerTaskTypesFromConfigArray :: "task_type list \<Rightarrow> task_registry \<Rightarrow> task_registry \<times> nat" where
  "registerTaskTypesFromConfigArray [] reg = (reg, 0)"
| "registerTaskTypesFromConfigArray (ty # tys) reg =
     (let (reg1, ok) = registerTaskTypeFromConfig ty reg;
          (reg2, n) = registerTaskTypesFromConfigArray tys reg1
      in (reg2, if ok then Suc n else n))"

definition getDefinition :: "task_registry \<Rightarrow> string \<Rightarrow> task_definition option" where
  "getDefinition reg h = oget (Definitions reg) h"

definition instantiateTaskType :: "task_registry \<Rightarrow> string \<Rightarrow> task_type option" where
  "instantiateTaskType reg h = opt_or (oget (TaskTypeConfigs reg) h) (oget (TaskTypes reg) h)"

definition listDefinitions :: "task_registry \<Rightarrow> task_definition list" where
  "listDefinitions reg = ovals (Definitions reg)"

definition hasTaskType :: "task_registry \<Rightarrow> string \<Rightarrow> bool" where
  "hasTaskType reg h \<longleftrightarrow> oget (TaskTypes reg) h \<noteq> None \<or> oget (TaskTypeConfigs reg) h \<noteq> None"

text \<open>\<open>execute\<close> of the base class: the executor of the config, or an error.\<close>

definition task_execute :: "jstime \<Rightarrow> task_type \<Rightarrow> json obj \<Rightarrow> task_context \<Rightarrow> task_run" where
  "task_execute t ty settings tc = (case yExecute ty of
     Some ex \<Rightarrow> ex settings tc
   | None \<Rightarrow> Reply t (TaskError (''Task type \"'' @ dHash (yDefinition ty) @
       ''\" has not implemented execute().'')))"

subsection \<open>Runs\<close>

record pending_event =
  TargetNodeHash :: string
  EventName :: string

record waiting_task =
  wPromptMessage :: string
  wOutputAddress :: string
  wResumeEventName :: string
  wTimestamp :: jstime

record execution =
  xTriggerEvent :: string
  xStartTimeMs :: jstime
  xStopTimeMs :: "jstime option"
  xElapsedMs :: "int option"
  xStatus :: string
  xEventFired :: string
  xLog :: "string list"
  xAttemptNumber :: "nat option"

record task_manifest =
  mNodeHash :: string
  mDefinitionHash :: string
  mTaskTypeName :: string
  mCategory :: string
  mCapability :: string
  mAction :: string
  mTier :: string
  mExecutions :: "execution list"

record event_entry =
  eTimestampMs :: jstime
  eNodeHash :: "string option"
  eEventName :: string
  eMessage :: string
  eVerbosity :: nat

record run_error =
  rrNodeHash :: "string option"
  rrMessage :: string
  rrTimestamp :: jstime

record timing_bucket =
  bName :: string
  bCategory :: string
  bCapability :: string
  bCount :: nat
  bTotalMs :: int
  bMinMs :: "int option"
  bMaxMs :: int
  bAvgMs :: rat

record timeline_entry =
  lNodeHash :: string
  lDefinitionHash :: string
  lName :: string
  lCategory :: string
  lCapability :: string
  lStartTimeMs :: jstime
  lElapsedMs :: int
  lStatus :: string

record timing_summary =
  ByCategory :: "timing_bucket obj"
  ByCapability :: "timing_bucket obj"
  ByTaskType :: "timing_bucket obj"
  Timeline :: "timeline_entry list"

text \<open>The manifest as it is written to disk or sent to the manifest store.\<close>

record manifest =
  fHash :: string
  fOperationHash :: string
  fOperationName :: string
  fStatus :: string
  fRunMode :: string
  fStartTime :: "jstime option"
  fStopTime :: "jstime option"
  fElapsedMs :: "int option"
  fOutput :: "json obj"
  fTaskManifests :: "task_manifest obj"
  fTimingSummary :: "timing_summary option"
  fEventLog :: "event_entry list"
  fErrors :: "run_error list"
  fLog :: "(jstime \<times> string) list"
  fGlobalState :: "json obj"
  fOperationState :: "json obj"
  fTaskOutputs :: "json obj"
  fWaitingTasks :: "waiting_task obj option"

datatype run_effect =
    WriteManifest string manifest
  | UpsertManifest string manifest
  | WriteRunLog string "(jstime \<times> string) list"
  | WriteSnapshots string
  | EmitTaskStart string string
  | EmitTaskComplete string string
  | EmitTaskError string string
  | EmitExecutionComplete string string nat

text \<open>
  The execution context. Its last three fields are not fields of the source's object: the time on
  the clock, the files as the run sees them, and the calls made for it to the outside, in order.
  A log line is its time and its text.
\<close>

record run =
  rHash :: string
  rOperationHash :: string
  rOperationName :: string
  rStatus :: string
  rRunMode :: string
  rStagingPath :: string
  rLive :: bool
  rGlobalState :: "json obj"
  rOperationState :: "json obj"
  rTaskOutputs :: "json obj"
  rOutput :: "json obj"
  rPendingEvents :: "pending_event list"
  rWaitingTasks :: "waiting_task obj"
  rTaskManifests :: "task_manifest obj"
  rEventLog :: "event_entry list"
  rLog :: "(jstime \<times> string) list"
  rErrors :: "run_error list"
  rStartTime :: "jstime option"
  rStopTime :: "jstime option"
  rElapsedMs :: "int option"
  rTimingSummary :: "timing_summary option"
  rGraph :: graph
  rNodeMap :: "node obj"
  rPortLabelMap :: "string obj"
  rConnectionMap :: connection_map
  rClock :: jstime
  rDisk :: disk
  rEffects :: "run_effect list"

text \<open>
  What the engine takes from its surroundings: the registered task types, the address library
  \<open>manyfest\<close>, the template parser of pict, whether a manifest store bridge is installed, the
  threshold of the output store, and which paths can be written.
\<close>

record engine_env =
  vRegistry :: task_registry
  vManyfestGet :: "json \<Rightarrow> string \<Rightarrow> json"
  vManyfestSet :: "json \<Rightarrow> string \<Rightarrow> json \<Rightarrow> json"
  vParseTemplate :: "string \<Rightarrow> json \<Rightarrow> string"
  vBridge :: bool
  vThreshold :: int
  vWritable :: "string \<Rightarrow> bool"

definition at_time :: "jstime \<Rightarrow> run \<Rightarrow> run" where
  "at_time t c = c\<lparr>rClock := t\<rparr>"

text \<open>\<open>_log\<close>\<close>

definition run_log :: "string \<Rightarrow> run \<Rightarrow> run" where
  "run_log msg c = c\<lparr>rLog := rLog c @ [(rClock c, msg)]\<rparr>"

definition add_effect :: "run_effect \<Rightarrow> run \<Rightarrow> run" where
  "add_effect e c = c\<lparr>rEffects := rEffects c @ [e]\<rparr>"

definition add_error :: "string option \<Rightarrow> string \<Rightarrow> run \<Rightarrow> run" where
  "add_error n msg c = c\<lparr>rErrors := rErrors c @
     [\<lparr>rrNodeHash = n, rrMessage = msg, rrTimestamp = rClock c\<rparr>]\<rparr>"

subsection \<open>Facts about statuses\<close>

lemma status_normalize_idem: "status_normalize (status_normalize s) = status_normalize s"
proof (cases "oget STATUS_LEGACY_TO_CANONICAL s")
  case None
  then show ?thesis by (simp add: status_normalize_def)
next
  case (Some c)
  then have "(s, c) \<in> set STATUS_LEGACY_TO_CANONICAL" by (rule oget_in)
  moreover have "list_all (\<lambda>(k, c). status_normalize c = c) STATUS_LEGACY_TO_CANONICAL" by code_simp
  ultimately have "status_normalize c = c" by (auto simp: list_all_iff)
  with Some show ?thesis by (simp add: status_normalize_def)
qed

lemma status_normalize_canonical:
  "status_normalize STATUS_WAITING = STATUS_WAITING"
  "status_normalize STATUS_IN_PROGRESS = STATUS_IN_PROGRESS"
  "status_normalize STATUS_COMPLETE = STATUS_COMPLETE"
  "status_normalize STATUS_FAILED = STATUS_FAILED"
  "status_normalize STATUS_STALLED = STATUS_STALLED"
  "status_normalize STATUS_ERROR = STATUS_ERROR"
  "status_normalize STATUS_ABANDONED = STATUS_ABANDONED"
  by code_simp+

lemma status_distinct [simp]:
  "distinct [STATUS_QUEUED, STATUS_IN_PROGRESS, STATUS_WAITING, STATUS_ERROR, STATUS_COMPLETE,
     STATUS_STALLED, STATUS_FAILED, STATUS_ABANDONED, STATUS_RETRYING]"
  by code_simp

lemma status_kinds [simp]:
  "isWaiting STATUS_WAITING" "\<not> isWaiting STATUS_IN_PROGRESS" "\<not> isWaiting STATUS_COMPLETE"
  "\<not> isWaiting STATUS_FAILED" "\<not> isWaiting STATUS_STALLED" "\<not> isWaiting STATUS_ERROR"
  "\<not> isWaiting STATUS_ABANDONED" "isInProgress STATUS_IN_PROGRESS" "\<not> isInProgress STATUS_WAITING"
  "\<not> isTerminal STATUS_WAITING" "\<not> isTerminal STATUS_IN_PROGRESS"
  "isTerminal STATUS_COMPLETE" "isTerminal STATUS_FAILED" "isTerminal STATUS_STALLED"
  "isTerminal STATUS_ERROR" "isTerminal STATUS_ABANDONED"
  using status_distinct
  by (auto simp: isWaiting_def isInProgress_def isTerminal_def status_normalize_canonical
      TERMINAL_STATUSES_def simp del: status_distinct)

lemma status_exclusive:
  "isWaiting s \<Longrightarrow> \<not> isTerminal s" "isWaiting s \<Longrightarrow> \<not> isInProgress s"
  "isInProgress s \<Longrightarrow> \<not> isTerminal s"
  using status_distinct
  by (auto simp: isWaiting_def isTerminal_def isInProgress_def TERMINAL_STATUSES_def
      simp del: status_distinct)

end
