(* ===== verification/StateManager.thy ===== *)
theory StateManager
  imports EngineTypes
begin

section \<open>State addresses\<close>

text \<open>
  \<open>src/source/services/Ultravisor-StateManager.cjs\<close>: the three levels of state of a run and the
  task outputs, read and written by address. Paths inside an object are resolved by the library
  \<open>manyfest\<close>, a parameter (\<open>vManyfestGet\<close>, \<open>vManyfestSet\<close>; the library writes in place, the model
  returns the new object).
\<close>

definition has_dot :: "string \<Rightarrow> bool" where
  "has_dot a \<longleftrightarrow> CHR ''.'' \<in> set a"

text \<open>\<open>substring(0, indexOf('.'))\<close> and \<open>substring(indexOf('.') + 1)\<close>\<close>

definition before_dot :: "string \<Rightarrow> string" where
  "before_dot a = takeWhile (\<lambda>c. c \<noteq> CHR ''.'') a"

definition after_dot :: "string \<Rightarrow> string" where
  "after_dot a = tl (dropWhile (\<lambda>c. c \<noteq> CHR ''.'') a)"

fun is_object :: "json \<Rightarrow> bool" where
  "is_object (JObj kvs) = True"
| "is_object (JArr xs) = True"
| "is_object _ = False"

definition resolveFromObject :: "engine_env \<Rightarrow> json \<Rightarrow> string \<Rightarrow> json" where
  "resolveFromObject env ob path =
     (if \<not> is_object ob then JUndef
      else if path = [] then ob
      else vManyfestGet env ob path)"

text \<open>\<open>_setOnObject\<close>: \<open>None\<close> where it returns false.\<close>

definition setOnObject :: "engine_env \<Rightarrow> json \<Rightarrow> string \<Rightarrow> json \<Rightarrow> json option" where
  "setOnObject env ob path v =
     (if \<not> is_object ob \<or> path = [] then None
      else Some (vManyfestSet env ob path v))"

definition fields_of :: "json \<Rightarrow> json obj" where
  "fields_of v = (case v of JObj kvs \<Rightarrow> kvs | _ \<Rightarrow> [])"

definition materializeIfRef :: "run \<Rightarrow> json \<Rightarrow> json" where
  "materializeIfRef c v = materializeRefValue (rDisk c) (rStagingPath c) v"

definition resolveAddress :: "engine_env \<Rightarrow> string \<Rightarrow> run \<Rightarrow> string \<Rightarrow> json" where
  "resolveAddress env a c n =
     (if a = [] then JUndef
      else
        let prefix = before_dot a; rest = after_dot a
        in if prefix = ''Global'' then resolveFromObject env (JObj (rGlobalState c)) rest
           else if prefix = ''Operation'' then resolveFromObject env (JObj (rOperationState c)) rest
           else if prefix = ''Task'' then
             (if n = [] then JUndef
              else materializeIfRef c (resolveFromObject env (output_or_new (rTaskOutputs c) n) rest))
           else if prefix = ''TaskOutput'' then
             (if \<not> has_dot rest then output_or_new (rTaskOutputs c) rest
              else materializeIfRef c
                (resolveFromObject env (output_or_new (rTaskOutputs c) (before_dot rest)) (after_dot rest)))
           else if prefix = ''Output'' then resolveFromObject env (JObj (rOutput c)) rest
           else if prefix = ''Staging'' then
             (if rest = ''Path'' \<or> rest = [] then JStr (rStagingPath c) else JUndef)
           else
             let v = resolveFromObject env (JObj (rOperationState c)) a
             in if v \<noteq> JUndef then v else resolveFromObject env (JObj (rGlobalState c)) a)"

text \<open>\<open>setAddress\<close>: the run and whether the value was written.\<close>

definition setTaskField :: "engine_env \<Rightarrow> string \<Rightarrow> string \<Rightarrow> json \<Rightarrow> run \<Rightarrow> run \<times> bool" where
  "setTaskField env n path v c =
     (let entry = output_or_new (rTaskOutputs c) n;
          c1 = c\<lparr>rTaskOutputs := oset n entry (rTaskOutputs c)\<rparr>
      in case setOnObject env entry path v of
          None \<Rightarrow> (c1, False)
        | Some entry' \<Rightarrow> (c\<lparr>rTaskOutputs := oset n entry' (rTaskOutputs c)\<rparr>, True))"

definition setAddress :: "engine_env \<Rightarrow> string \<Rightarrow> json \<Rightarrow> run \<Rightarrow> string \<Rightarrow> run \<times> bool" where
  "setAddress env a v c n =
     (if a = [] then (c, False)
      else
        let prefix = before_dot a; rest = after_dot a
        in if prefix = ''Global'' then
             (case setOnObject env (JObj (rGlobalState c)) rest v of
                None \<Rightarrow> (c, False) | Some x \<Rightarrow> (c\<lparr>rGlobalState := fields_of x\<rparr>, True))
           else if prefix = ''Operation'' then
             (case setOnObject env (JObj (rOperationState c)) rest v of
                None \<Rightarrow> (c, False) | Some x \<Rightarrow> (c\<lparr>rOperationState := fields_of x\<rparr>, True))
           else if prefix = ''Task'' then
             (if n = [] then (c, False) else setTaskField env n rest v c)
           else if prefix = ''TaskOutput'' then
             (if \<not> has_dot rest then (c\<lparr>rTaskOutputs := oset rest v (rTaskOutputs c)\<rparr>, True)
              else setTaskField env (before_dot rest) (after_dot rest) v c)
           else if prefix = ''Output'' then
             (case setOnObject env (JObj (rOutput c)) rest v of
                None \<Rightarrow> (c, False) | Some x \<Rightarrow> (c\<lparr>rOutput := fields_of x\<rparr>, True))
           else
             (case setOnObject env (JObj (rOperationState c)) a v of
                None \<Rightarrow> (c, False) | Some x \<Rightarrow> (c\<lparr>rOperationState := fields_of x\<rparr>, True)))"

definition buildTemplateContext :: "run \<Rightarrow> json \<Rightarrow> json" where
  "buildTemplateContext c v = JObj
     [(''Value'', v),
      (''Global'', JObj (rGlobalState c)),
      (''Operation'', JObj (rOperationState c)),
      (''TaskOutput'', JObj (rTaskOutputs c)),
      (''Output'', JObj (rOutput c)),
      (''Staging'', JObj [(''Path'', JStr (rStagingPath c))])]"

subsection \<open>Reading after writing\<close>

text \<open>
  What the components rely on of \<open>manyfest\<close>: a write into an object leaves an object, and a read at
  the path that was written returns the value.
\<close>

definition manyfest_laws :: "engine_env \<Rightarrow> bool" where
  "manyfest_laws env \<longleftrightarrow>
     (\<forall>kvs path v. path \<noteq> [] \<longrightarrow>
        is_obj (vManyfestSet env (JObj kvs) path v) \<and>
        vManyfestGet env (vManyfestSet env (JObj kvs) path v) path = v)"

lemma manyfest_get_set:
  "manyfest_laws env \<Longrightarrow> is_obj ob \<Longrightarrow> path \<noteq> [] \<Longrightarrow>
    is_obj (vManyfestSet env ob path v) \<and> vManyfestGet env (vManyfestSet env ob path v) path = v"
  by (cases ob) (auto simp: manyfest_laws_def is_obj_def)

lemma is_obj_object: "is_obj v \<Longrightarrow> is_object v"
  by (cases v) (simp_all add: is_obj_def)

lemma fields_of_obj: "is_obj v \<Longrightarrow> JObj (fields_of v) = v"
  by (cases v) (simp_all add: is_obj_def fields_of_def)

lemma is_obj_truthy: "is_obj v \<Longrightarrow> truthy v"
  by (cases v) (simp_all add: is_obj_def)

lemma setOnObject_resolve:
  assumes "manyfest_laws env" "is_obj ob" "setOnObject env ob path v = Some x"
  shows "is_obj x" and "resolveFromObject env x path = v"
  using assms manyfest_get_set [OF assms(1,2), of path v]
  by (auto simp: setOnObject_def resolveFromObject_def is_obj_object split: if_splits)

lemma output_or_new_oset: "is_obj x \<Longrightarrow> output_or_new (oset n x outs) n = x"
  by (simp add: output_or_new_def is_obj_truthy)

text \<open>Writing a field of the outputs of a node, and reading it back.\<close>

lemma setTaskField_resolve:
  assumes "manyfest_laws env" "is_obj (output_or_new (rTaskOutputs c) n)" "\<not> isOutputRef v"
    and "setTaskField env n path v c = (c', True)"
  shows "materializeIfRef c' (resolveFromObject env (output_or_new (rTaskOutputs c') n) path) = v"
proof -
  obtain x where x: "setOnObject env (output_or_new (rTaskOutputs c) n) path v = Some x"
    and c': "c' = c\<lparr>rTaskOutputs := oset n x (rTaskOutputs c)\<rparr>"
    using assms(4) by (auto simp: setTaskField_def Let_def split: option.splits)
  note r = setOnObject_resolve [OF assms(1,2) x]
  show ?thesis
    using r assms(3) by (simp add: c' output_or_new_oset materializeIfRef_def materializeRefValue_def)
qed

text \<open>\<open>Task.X\<close> on a node is \<open>TaskOutput.<node>.X\<close>.\<close>

lemma before_after_dot: "has_dot a \<Longrightarrow> before_dot a @ CHR ''.'' # after_dot a = a"
  by (induction a) (auto simp: has_dot_def before_dot_def after_dot_def)

lemma dot_append: "CHR ''.'' \<notin> set p \<Longrightarrow>
    before_dot (p @ CHR ''.'' # a) = p \<and> after_dot (p @ CHR ''.'' # a) = a \<and> has_dot (p @ CHR ''.'' # a)"
  by (induction p) (auto simp: has_dot_def before_dot_def after_dot_def)

lemma task_address:
  assumes "n \<noteq> []" "CHR ''.'' \<notin> set n"
  shows "setAddress env (''Task.'' @ p) v c n = setAddress env (''TaskOutput.'' @ n @ ''.'' @ p) v c n'"
    and "resolveAddress env (''Task.'' @ p) c n = resolveAddress env (''TaskOutput.'' @ n @ ''.'' @ p) c n'"
  using assms dot_append [of "''Task''" p] dot_append [of "''TaskOutput''" "n @ CHR ''.'' # p"]
    dot_append [of n p]
  by (simp_all add: setAddress_def resolveAddress_def)

lemmas dot_defs = has_dot_def before_dot_def after_dot_def


subsection \<open>A concrete run\<close>

text \<open>An address library for objects without nesting, and the empty run.\<close>

fun flat_set :: "json \<Rightarrow> string \<Rightarrow> json \<Rightarrow> json" where
  "flat_set (JObj kvs) path v = JObj (oset path v kvs)"
| "flat_set x path v = x"

definition flat_env :: engine_env where
  "flat_env = \<lparr>vRegistry = empty_registry, vManyfestGet = jfield, vManyfestSet = flat_set,
     vParseTemplate = (\<lambda>s ctx. s), vBridge = False, vThreshold = 1048576, vWritable = (\<lambda>_. True)\<rparr>"

definition blank_run :: run where
  "blank_run = \<lparr>rHash = ''run-op-1'', rOperationHash = ''op'', rOperationName = ''op'',
     rStatus = STATUS_QUEUED, rRunMode = ''standard'', rStagingPath = ''/s'', rLive = True,
     rGlobalState = [], rOperationState = [], rTaskOutputs = [], rOutput = [],
     rPendingEvents = [], rWaitingTasks = [], rTaskManifests = [], rEventLog = [], rLog = [],
     rErrors = [], rStartTime = None, rStopTime = None, rElapsedMs = None, rTimingSummary = None,
     rGraph = \<lparr>gNodes = [], gConnections = []\<rparr>, rNodeMap = [], rPortLabelMap = [],
     rConnectionMap = \<lparr>eventSources = [], stateTargets = []\<rparr>,
     rClock = 0, rDisk = [], rEffects = []\<rparr>"

lemma flat_env_laws: "manyfest_laws flat_env"
  by (simp add: manyfest_laws_def flat_env_def is_obj_def)


end
