(* ===== verification/EngineGraph.thy ===== *)
theory EngineGraph
  imports StateManager
begin

section \<open>The graph of an operation\<close>

text \<open>
  The graph helpers of \<open>src/source/services/Ultravisor-ExecutionEngine.cjs\<close>: the node, port label
  and connection maps of a run, port names, the type of a connection that does not state it, and
  the events that a node's output event leads to.
\<close>

subsection \<open>Port names\<close>

text \<open>What follows the last occurrence of a non-empty pattern (\<open>lastIndexOf\<close> and \<open>substring\<close>).\<close>

fun after_last :: "string \<Rightarrow> string \<Rightarrow> string option" where
  "after_last p [] = None"
| "after_last p (c # cs) =
     (case after_last p cs of
        Some r \<Rightarrow> Some r
      | None \<Rightarrow> (if take (length p) (c # cs) = p then Some (drop (length p) (c # cs)) else None))"

definition str_includes :: "string \<Rightarrow> string \<Rightarrow> bool" where
  "str_includes s p \<longleftrightarrow> after_last p s \<noteq> None"

definition port_prefixes :: "string list" where
  "port_prefixes = [''-ei-'', ''-eo-'', ''-si-'', ''-so-'']"

fun first_after :: "string list \<Rightarrow> string \<Rightarrow> string option" where
  "first_after [] s = None"
| "first_after (p # ps) s =
     (case after_last p s of Some r \<Rightarrow> Some r | None \<Rightarrow> first_after ps s)"

definition extractPortName :: "string \<Rightarrow> string obj \<Rightarrow> string" where
  "extractPortName h labels =
     (if h = [] then []
      else case first_after port_prefixes h of
          Some name \<Rightarrow> name
        | None \<Rightarrow> (case oget labels h of
            Some label \<Rightarrow> (if label = [] then h else label)
          | None \<Rightarrow> h))"

subsection \<open>Maps of a graph\<close>

text \<open>\<open>_buildNodeMap\<close>: a node of the flow editor keeps its settings in \<open>Data\<close>.\<close>

definition normalizeNode :: "node \<Rightarrow> node" where
  "normalizeNode nd = (case nSettings nd of
     Some s \<Rightarrow> nd
   | None \<Rightarrow> nd\<lparr>nSettings := nData nd\<rparr>)"

definition buildNodeMap :: "graph \<Rightarrow> node obj" where
  "buildNodeMap g = foldl (\<lambda>m nd. oset (nHash nd) (normalizeNode nd) m) [] (gNodes g)"

definition buildPortLabelMap :: "graph \<Rightarrow> string obj" where
  "buildPortLabelMap g =
     foldl (\<lambda>m p. oset (pHash p) (str_or (pLabel p) (pHash p)) m) []
       (concat (map nPorts (gNodes g)))"

text \<open>
  \<open>_inferConnectionType\<close>: by the port hashes, by start and end nodes, by the definition of the
  source's and then of the target's task type; an event if nothing decides.
\<close>

definition definition_hash :: "node \<Rightarrow> string" where
  "definition_hash nd = str_or (nDefinitionHash nd) (nType nd)"

definition terminal_node :: "node option \<Rightarrow> bool" where
  "terminal_node x = (case x of None \<Rightarrow> False | Some nd \<Rightarrow> nType nd = ''start'' \<or> nType nd = ''end'')"

definition label_of :: "string obj \<Rightarrow> string \<Rightarrow> string" where
  "label_of labels h = (case oget labels h of None \<Rightarrow> [] | Some l \<Rightarrow> l)"

definition type_by_source :: "task_definition option \<Rightarrow> string \<Rightarrow> string option" where
  "type_by_source d label = (case d of
     None \<Rightarrow> None
   | Some d \<Rightarrow>
       (if label \<in> set (map fst (dEventOutputs d)) then Some ''Event''
        else if label \<in> set (dStateOutputs d) then Some ''State'' else None))"

definition type_by_target :: "task_definition option \<Rightarrow> string \<Rightarrow> string option" where
  "type_by_target d label = (case d of
     None \<Rightarrow> None
   | Some d \<Rightarrow>
       (if label \<in> set (dEventInputs d) then Some ''Event''
        else if label \<in> set (map fst (dSettingsInputs d)) then Some ''State'' else None))"

definition inferConnectionType ::
    "task_registry \<Rightarrow> connection \<Rightarrow> node obj \<Rightarrow> string obj \<Rightarrow> string" where
  "inferConnectionType reg cn nodes labels =
     (let source = oget nodes (cSourceNodeHash cn); target = oget nodes (cTargetNodeHash cn);
          sp = cSourcePortHash cn; tp = cTargetPortHash cn
      in if str_includes sp ''-eo-'' \<or> str_includes tp ''-ei-'' then ''Event''
         else if str_includes sp ''-so-'' \<or> str_includes tp ''-si-'' then ''State''
         else if terminal_node source \<or> terminal_node target then ''Event''
         else case Option.bind source (\<lambda>nd. type_by_source (getDefinition reg (definition_hash nd)) (label_of labels sp)) of
             Some ty \<Rightarrow> ty
           | None \<Rightarrow>
               (case Option.bind target (\<lambda>nd. type_by_target (getDefinition reg (definition_hash nd)) (label_of labels tp)) of
                  Some ty \<Rightarrow> ty
                | None \<Rightarrow> ''Event''))"

definition connection_type :: "task_registry \<Rightarrow> node obj \<Rightarrow> string obj \<Rightarrow> connection \<Rightarrow> string" where
  "connection_type reg nodes labels cn =
     map lower_char (str_or (cConnectionType cn) (inferConnectionType reg cn nodes labels))"

definition push_at :: "string \<Rightarrow> 'a \<Rightarrow> 'a list obj \<Rightarrow> 'a list obj" where
  "push_at k x m = oset k ((case oget m k of None \<Rightarrow> [] | Some xs \<Rightarrow> xs) @ [x]) m"

definition addConnection ::
    "task_registry \<Rightarrow> node obj \<Rightarrow> string obj \<Rightarrow> connection_map \<Rightarrow> connection \<Rightarrow> connection_map" where
  "addConnection reg nodes labels m cn =
     (let ty = connection_type reg nodes labels cn
      in if ty = ''event'' then m\<lparr>eventSources := push_at (cSourceNodeHash cn) cn (eventSources m)\<rparr>
         else if ty = ''state'' then m\<lparr>stateTargets := push_at (cTargetNodeHash cn) cn (stateTargets m)\<rparr>
         else m)"

definition buildConnectionMap :: "task_registry \<Rightarrow> graph \<Rightarrow> node obj \<Rightarrow> string obj \<Rightarrow> connection_map" where
  "buildConnectionMap reg g nodes labels =
     foldl (addConnection reg nodes labels) \<lparr>eventSources = [], stateTargets = []\<rparr> (gConnections g)"

text \<open>The graph of a run: \<open>_Graph\<close>, \<open>_NodeMap\<close>, \<open>_PortLabelMap\<close> and \<open>_ConnectionMap\<close>.\<close>

definition setGraph :: "task_registry \<Rightarrow> graph \<Rightarrow> run \<Rightarrow> run" where
  "setGraph reg g c =
     (let nodes = buildNodeMap g; labels = buildPortLabelMap g
      in c\<lparr>rGraph := g, rNodeMap := nodes, rPortLabelMap := labels,
           rConnectionMap := buildConnectionMap reg g nodes labels\<rparr>)"

definition rebuildGraphContext :: "task_registry \<Rightarrow> graph \<Rightarrow> run \<Rightarrow> run" where
  "rebuildGraphContext reg g c = (setGraph reg g c)\<lparr>rLive := True\<rparr>"

definition findStartNode :: "run \<Rightarrow> node option" where
  "findStartNode c = find (\<lambda>nd. nType nd = ''start'') (gNodes (rGraph c))"

subsection \<open>Downstream events\<close>

definition connections_from :: "run \<Rightarrow> string \<Rightarrow> connection list" where
  "connections_from c n =
     (case oget (eventSources (rConnectionMap c)) n of None \<Rightarrow> [] | Some cns \<Rightarrow> cns)"

definition state_connections :: "run \<Rightarrow> string \<Rightarrow> connection list" where
  "state_connections c n =
     (case oget (stateTargets (rConnectionMap c)) n of None \<Rightarrow> [] | Some cns \<Rightarrow> cns)"

definition target_event :: "run \<Rightarrow> connection \<Rightarrow> pending_event" where
  "target_event c cn =
     \<lparr>TargetNodeHash = cTargetNodeHash cn,
      EventName = extractPortName (cTargetPortHash cn) (rPortLabelMap c)\<rparr>"

definition enqueueAllDownstreamEvents :: "string \<Rightarrow> run \<Rightarrow> run" where
  "enqueueAllDownstreamEvents n c =
     c\<lparr>rPendingEvents := rPendingEvents c @ map (target_event c) (connections_from c n)\<rparr>"

definition getDownstreamEvents :: "string \<Rightarrow> string \<Rightarrow> run \<Rightarrow> pending_event list" where
  "getDownstreamEvents n e c =
     map (target_event c)
       (filter (\<lambda>cn. extractPortName (cSourcePortHash cn) (rPortLabelMap c) = e) (connections_from c n))"

definition enqueueDownstreamEvents :: "string \<Rightarrow> string \<Rightarrow> run \<Rightarrow> run" where
  "enqueueDownstreamEvents n e c =
     (let conns = connections_from c n;
          matched = filter (\<lambda>cn. extractPortName (cSourcePortHash cn) (rPortLabelMap c) = e) conns;
          c1 = c\<lparr>rPendingEvents := rPendingEvents c @ map (target_event c) matched\<rparr>
      in if conns \<noteq> [] \<and> matched = []
         then run_log (''Node ['' @ n @ ''] fired event ['' @ e @ ''] but none of its '' @
           show_nat (length conns) @ '' outgoing event connection(s) match that name'') c1
         else c1)"

lemma enqueueDownstream_pending:
  "rPendingEvents (enqueueDownstreamEvents n e c) = rPendingEvents c @ getDownstreamEvents n e c"
  by (simp add: enqueueDownstreamEvents_def getDownstreamEvents_def run_log_def Let_def)

subsection \<open>What the maps hold\<close>

lemma oget_push_at:
  "(case oget (push_at k x m) k' of None \<Rightarrow> [] | Some xs \<Rightarrow> xs) =
    (case oget m k' of None \<Rightarrow> [] | Some xs \<Rightarrow> xs) @ (if k' = k then [x] else [])"
  by (simp add: push_at_def obj_simps)

lemma foldl_addConnection:
  "(case oget (eventSources (foldl (addConnection reg nodes labels) m cns)) n of None \<Rightarrow> [] | Some xs \<Rightarrow> xs) =
     (case oget (eventSources m) n of None \<Rightarrow> [] | Some xs \<Rightarrow> xs) @
     filter (\<lambda>cn. cSourceNodeHash cn = n \<and> connection_type reg nodes labels cn = ''event'') cns"
  "(case oget (stateTargets (foldl (addConnection reg nodes labels) m cns)) n of None \<Rightarrow> [] | Some xs \<Rightarrow> xs) =
     (case oget (stateTargets m) n of None \<Rightarrow> [] | Some xs \<Rightarrow> xs) @
     filter (\<lambda>cn. cTargetNodeHash cn = n \<and> connection_type reg nodes labels cn = ''state'') cns"
  by (induction cns arbitrary: m) (auto simp: addConnection_def Let_def oget_push_at)

text \<open>
  The connection map lists, for every node, its outgoing event connections and its incoming
  state connections in the order of the graph, and nothing else; a connection is never in both.
\<close>

theorem connection_map_correct:
  "connections_from (setGraph reg g c) n =
     filter (\<lambda>cn. cSourceNodeHash cn = n \<and>
       connection_type reg (buildNodeMap g) (buildPortLabelMap g) cn = ''event'') (gConnections g) \<and>
   state_connections (setGraph reg g c) n =
     filter (\<lambda>cn. cTargetNodeHash cn = n \<and>
       connection_type reg (buildNodeMap g) (buildPortLabelMap g) cn = ''state'') (gConnections g)"
  by (simp add: connections_from_def state_connections_def setGraph_def buildConnectionMap_def
      foldl_addConnection Let_def)

subsection \<open>Port names read back\<close>

lemma after_last_append: "after_last p s = Some r \<Longrightarrow> after_last p (x @ s) = Some r"
  by (induction x) auto

lemma after_last_at:
  assumes "p \<noteq> []" "after_last p (tl p @ name) = None"
  shows "after_last p (h @ p @ name) = Some name"
proof -
  obtain c cs where p: "p = c # cs" using assms(1) by (cases p) auto
  then have "after_last p (p @ name) = Some name" using assms(2) by simp
  then show ?thesis by (rule after_last_append)
qed

lemma first_after_skip:
  "(\<And>p. p \<in> set ps \<Longrightarrow> after_last p s = None) \<Longrightarrow> first_after (ps @ qs) s = first_after qs s"
  by (induction ps) auto

text \<open>
  The name of a port whose hash is built by the naming convention is read back from the hash
  if no marker that is tried earlier occurs anywhere in the hash and its own does not occur again;
  an earlier marker in the node's hash hides the name, whatever the label map says.
\<close>

theorem port_name_roundtrip:
  assumes "port_prefixes = before @ p # after"
    and "after_last p (tl p @ name) = None"
  shows "extractPortName (h @ p @ name) labels =
    (case first_after before (h @ p @ name) of None \<Rightarrow> name | Some rest \<Rightarrow> rest)"
proof -
  have p: "p \<noteq> []" using assms(1) by (auto simp: port_prefixes_def Cons_eq_append_conv)
  have "first_after port_prefixes (h @ p @ name) =
      (case first_after before (h @ p @ name) of None \<Rightarrow> Some name | Some rest \<Rightarrow> Some rest)"
    unfolding assms(1)
    by (induction before) (auto simp: after_last_at [OF p assms(2)] split: option.splits)
  then show ?thesis
    using p by (simp add: extractPortName_def split: option.splits)
qed

lemma port_name_roundtrip_witness:
  "extractPortName (''TSK-ei-1'' @ ''-eo-'' @ ''Done'') [] = ''1-eo-Done'' \<and>
   extractPortName (''TSK-1'' @ ''-eo-'' @ ''Done'') [] = ''Done''"
  using port_name_roundtrip [of "[''-ei-'']" "''-eo-''" "[''-si-'', ''-so-'']" "''Done''" "''TSK-ei-1''" "[]"]
    port_name_roundtrip [of "[''-ei-'']" "''-eo-''" "[''-si-'', ''-so-'']" "''Done''" "''TSK-1''" "[]"]
  by (simp add: port_prefixes_def)

end
