(* ===== verification/RunManifest.thy ===== *)
theory RunManifest
  imports EngineGraph
begin

section \<open>Runs and their manifests\<close>

text \<open>
  \<open>src/source/services/Ultravisor-ExecutionManifest.cjs\<close>: creating the context of a run, recording
  what its tasks do, finalizing it, its manifest on disk, and the table of runs with its listing,
  abandoning and reloading. The salted name of a new staging folder and the outcome of the file
  system (\<open>vWritable\<close>) are parameters. The time stamps the source keeps twice (as text and as
  milliseconds) are kept once.
\<close>

subsection \<open>Creating and recording\<close>

definition run_hash :: "string \<Rightarrow> jstime \<Rightarrow> string" where
  "run_hash op t = ''run-'' @ op @ ''-'' @ show_int t"

definition createExecutionContext :: "jstime \<Rightarrow> string \<Rightarrow> operation \<Rightarrow> string \<Rightarrow> disk \<Rightarrow> run" where
  "createExecutionContext t staging op mode d =
     \<lparr>rHash = run_hash (oHash op) t, rOperationHash = oHash op,
      rOperationName = str_or (oName op) (oHash op), rStatus = STATUS_QUEUED,
      rRunMode = str_or mode ''standard'', rStagingPath = staging, rLive = True,
      rGlobalState = [], rOperationState = [], rTaskOutputs = [], rOutput = [],
      rPendingEvents = [], rWaitingTasks = [], rTaskManifests = [], rEventLog = [], rLog = [],
      rErrors = [], rStartTime = None, rStopTime = None, rElapsedMs = None, rTimingSummary = None,
      rGraph = \<lparr>gNodes = [], gConnections = []\<rparr>, rNodeMap = [], rPortLabelMap = [],
      rConnectionMap = \<lparr>eventSources = [], stateTargets = []\<rparr>,
      rClock = t, rDisk = d, rEffects = []\<rparr>"

text \<open>\<open>recordTaskStart\<close>, with the metadata the engine passes.\<close>

definition new_task_manifest :: "string \<Rightarrow> string \<Rightarrow> task_definition \<Rightarrow> task_manifest" where
  "new_task_manifest n dh def =
     \<lparr>mNodeHash = n, mDefinitionHash = dh, mTaskTypeName = dName def, mCategory = dCategory def,
      mCapability = dCapability def, mAction = dAction def, mTier = dTier def, mExecutions = []\<rparr>"

definition fill_task_manifest :: "string \<Rightarrow> task_definition \<Rightarrow> task_manifest \<Rightarrow> task_manifest" where
  "fill_task_manifest dh def tm =
     (if dh = [] then tm
      else tm\<lparr>mDefinitionHash := str_or (mDefinitionHash tm) dh,
              mTaskTypeName := str_or (mTaskTypeName tm) (dName def),
              mCategory := str_or (mCategory tm) (dCategory def),
              mCapability := str_or (mCapability tm) (dCapability def),
              mAction := str_or (mAction tm) (dAction def),
              mTier := str_or (mTier tm) (dTier def)\<rparr>)"

definition new_execution :: "string \<Rightarrow> jstime \<Rightarrow> execution" where
  "new_execution ev t =
     \<lparr>xTriggerEvent = ev, xStartTimeMs = t, xStopTimeMs = None, xElapsedMs = None,
      xStatus = STATUS_IN_PROGRESS, xEventFired = [], xLog = [], xAttemptNumber = None\<rparr>"

definition recordTaskStart :: "string \<Rightarrow> string \<Rightarrow> string \<Rightarrow> task_definition \<Rightarrow> run \<Rightarrow> run" where
  "recordTaskStart n ev dh def c =
     (let tm = (case oget (rTaskManifests c) n of
                  None \<Rightarrow> new_task_manifest n dh def
                | Some tm \<Rightarrow> fill_task_manifest dh def tm)
      in add_effect (EmitTaskStart (rHash c) n)
           (c\<lparr>rTaskManifests :=
              oset n (tm\<lparr>mExecutions := mExecutions tm @ [new_execution ev (rClock c)]\<rparr>)
                (rTaskManifests c)\<rparr>))"

text \<open>A change of the last execution of a node, if it has one.\<close>

definition on_last_execution :: "string \<Rightarrow> (execution \<Rightarrow> execution) \<Rightarrow> run \<Rightarrow> run" where
  "on_last_execution n f c = (case oget (rTaskManifests c) n of
     None \<Rightarrow> c
   | Some tm \<Rightarrow>
       (if mExecutions tm = [] then c
        else c\<lparr>rTaskManifests :=
          oset n (tm\<lparr>mExecutions := butlast (mExecutions tm) @ [f (last (mExecutions tm))]\<rparr>)
            (rTaskManifests c)\<rparr>))"

definition has_execution :: "string \<Rightarrow> run \<Rightarrow> bool" where
  "has_execution n c = (case oget (rTaskManifests c) n of
     None \<Rightarrow> False | Some tm \<Rightarrow> mExecutions tm \<noteq> [])"

definition stop_execution :: "jstime \<Rightarrow> execution \<Rightarrow> execution" where
  "stop_execution t x =
     x\<lparr>xStopTimeMs := Some t,
       xElapsedMs := Some (if xStartTimeMs x = 0 then 0 else t - xStartTimeMs x)\<rparr>"

definition recordTaskComplete :: "string \<Rightarrow> task_result \<Rightarrow> run \<Rightarrow> run" where
  "recordTaskComplete n res c =
     (if \<not> has_execution n c then c
      else add_effect (EmitTaskComplete (rHash c) n)
        (on_last_execution n (\<lambda>x. (stop_execution (rClock c) x)
           \<lparr>xStatus := STATUS_COMPLETE, xEventFired := sEventToFire res, xLog := xLog x @ sLog res\<rparr>) c))"

definition recordTaskError :: "string \<Rightarrow> string \<Rightarrow> run \<Rightarrow> run" where
  "recordTaskError n msg c =
     (if \<not> has_execution n c then c
      else add_effect (EmitTaskError (rHash c) n)
        (add_error (Some n) msg
          (on_last_execution n (\<lambda>x. (stop_execution (rClock c) x)
             \<lparr>xStatus := STATUS_ERROR, xLog := xLog x @ [''Error: '' @ msg]\<rparr>) c)))"

definition recordEvent :: "string \<Rightarrow> string \<Rightarrow> string \<Rightarrow> nat \<Rightarrow> run \<Rightarrow> run" where
  "recordEvent n name msg verbosity c =
     c\<lparr>rEventLog := rEventLog c @
        [\<lparr>eTimestampMs = rClock c, eNodeHash = (if n = [] then None else Some n), eEventName = name,
          eMessage = msg, eVerbosity = verbosity\<rparr>]\<rparr>"

subsection \<open>The manifest\<close>

definition serializableManifest :: "run \<Rightarrow> manifest" where
  "serializableManifest c =
     \<lparr>fHash = rHash c, fOperationHash = rOperationHash c, fOperationName = rOperationName c,
      fStatus = rStatus c, fRunMode = rRunMode c, fStartTime = rStartTime c, fStopTime = rStopTime c,
      fElapsedMs = rElapsedMs c, fOutput = rOutput c, fTaskManifests = rTaskManifests c,
      fTimingSummary = rTimingSummary c, fEventLog = rEventLog c, fErrors = rErrors c, fLog = rLog c,
      fGlobalState = rGlobalState c, fOperationState = rOperationState c,
      fTaskOutputs = rTaskOutputs c,
      fWaitingTasks =
        (if isWaiting (rStatus c) \<and> rWaitingTasks c \<noteq> [] then Some (rWaitingTasks c) else None)\<rparr>"

definition manifest_path :: "run \<Rightarrow> string" where
  "manifest_path c =
     path_resolve (rStagingPath c) (''Manifest_'' @ rOperationHash c @ ''.json'')"

definition writeManifest :: "engine_env \<Rightarrow> run \<Rightarrow> run" where
  "writeManifest env c =
     (if vWritable env (manifest_path c)
      then run_log (''Manifest written to '' @ manifest_path c)
             (add_effect (WriteManifest (manifest_path c) (serializableManifest c)) c)
      else c)"

definition checkpoint :: "engine_env \<Rightarrow> run \<Rightarrow> run" where
  "checkpoint env c = (if rStagingPath c = [] then c else writeManifest env c)"

definition persistManifestViaBridge :: "engine_env \<Rightarrow> run \<Rightarrow> run" where
  "persistManifestViaBridge env c =
     (if vBridge env then add_effect (UpsertManifest (rStagingPath c) (serializableManifest c)) c
      else writeManifest env c)"

definition writeLogFile :: "engine_env \<Rightarrow> run \<Rightarrow> run" where
  "writeLogFile env c =
     (let p = path_resolve (rStagingPath c) ''run.log''
      in if vWritable env p then add_effect (WriteRunLog p (rLog c)) c else c)"

definition writeStateSnapshots :: "engine_env \<Rightarrow> run \<Rightarrow> run" where
  "writeStateSnapshots env c =
     (let p = path_resolve (rStagingPath c) ''state''
      in if vWritable env p
         then run_log (''State snapshots written to '' @ p) (add_effect (WriteSnapshots p) c)
         else c)"

text \<open>
  \<open>_cleanupWorkingFiles\<close>: every entry of the staging folder goes, except the manifest and the log.
\<close>

definition kept_entry :: "string \<Rightarrow> bool" where
  "kept_entry e \<longleftrightarrow> take 9 e = ''Manifest_'' \<or> e = ''run.log''"

definition working_file :: "string \<Rightarrow> string \<Rightarrow> bool" where
  "working_file staging f \<longleftrightarrow>
     (let base = base_segments staging; segs = path_segments f
      in length base < length segs \<and> take (length base) segs = base \<and>
         \<not> kept_entry (segs ! length base))"

definition cleanupWorkingFiles :: "run \<Rightarrow> run" where
  "cleanupWorkingFiles c =
     run_log (''Working files cleaned up from '' @ rStagingPath c)
       (c\<lparr>rDisk := filter (\<lambda>(f, bs). \<not> working_file (rStagingPath c) f) (rDisk c)\<rparr>)"

subsection \<open>Timing summary\<close>

definition new_bucket :: "string \<Rightarrow> string \<Rightarrow> string \<Rightarrow> timing_bucket" where
  "new_bucket name cat cap =
     \<lparr>bName = name, bCategory = cat, bCapability = cap,
      bCount = 0, bTotalMs = 0, bMinMs = None, bMaxMs = 0, bAvgMs = 0\<rparr>"

definition add_elapsed :: "int \<Rightarrow> timing_bucket \<Rightarrow> timing_bucket" where
  "add_elapsed e b =
     b\<lparr>bCount := Suc (bCount b), bTotalMs := bTotalMs b + e,
       bMinMs := (case bMinMs b of None \<Rightarrow> Some e | Some m \<Rightarrow> if e < m then Some e else Some m),
       bMaxMs := (if bMaxMs b < e then e else bMaxMs b)\<rparr>"

definition bump :: "string \<Rightarrow> timing_bucket \<Rightarrow> int \<Rightarrow> timing_bucket obj \<Rightarrow> timing_bucket obj" where
  "bump k fresh e m =
     oset k (add_elapsed e (case oget m k of None \<Rightarrow> fresh | Some b \<Rightarrow> b)) m"

definition close_bucket :: "timing_bucket \<Rightarrow> timing_bucket" where
  "close_bucket b =
     b\<lparr>bAvgMs := (if 0 < bCount b then of_int (bTotalMs b) / of_nat (bCount b) else 0),
       bMinMs := (case bMinMs b of None \<Rightarrow> Some 0 | Some m \<Rightarrow> Some m)\<rparr>"

definition close_buckets :: "timing_bucket obj \<Rightarrow> timing_bucket obj" where
  "close_buckets m = map (\<lambda>(k, b). (k, close_bucket b)) m"

definition execution_elapsed :: "execution \<Rightarrow> int" where
  "execution_elapsed x = (case xElapsedMs x of None \<Rightarrow> 0 | Some e \<Rightarrow> e)"

definition timeline_of :: "string \<Rightarrow> task_manifest \<Rightarrow> execution \<Rightarrow> timeline_entry" where
  "timeline_of n tm x =
     \<lparr>lNodeHash = n, lDefinitionHash = mDefinitionHash tm,
      lName = str_or (mTaskTypeName tm) (str_or (mDefinitionHash tm) n),
      lCategory = str_or (mCategory tm) ''Uncategorized'',
      lCapability = str_or (mCapability tm) ''Uncategorized'',
      lStartTimeMs = xStartTimeMs x, lElapsedMs = execution_elapsed x, lStatus = xStatus x\<rparr>"

definition addTiming :: "timing_summary \<Rightarrow> timeline_entry \<Rightarrow> timing_summary" where
  "addTiming s e =
     s\<lparr>Timeline := Timeline s @ [e],
       ByCategory := bump (lCategory e) (new_bucket [] [] []) (lElapsedMs e) (ByCategory s),
       ByCapability := bump (lCapability e) (new_bucket [] [] []) (lElapsedMs e) (ByCapability s),
       ByTaskType :=
         (if lDefinitionHash e = [] then ByTaskType s
          else bump (lDefinitionHash e) (new_bucket (lName e) (lCategory e) (lCapability e))
            (lElapsedMs e) (ByTaskType s))\<rparr>"

definition all_executions :: "task_manifest obj \<Rightarrow> timeline_entry list" where
  "all_executions tms = concat (map (\<lambda>(n, tm). map (timeline_of n tm) (mExecutions tm)) tms)"

definition computeTimingSummary :: "run \<Rightarrow> timing_summary" where
  "computeTimingSummary c =
     (let s = foldl addTiming \<lparr>ByCategory = [], ByCapability = [], ByTaskType = [], Timeline = []\<rparr>
                (all_executions (rTaskManifests c))
      in \<lparr>ByCategory = close_buckets (ByCategory s), ByCapability = close_buckets (ByCapability s),
          ByTaskType = close_buckets (ByTaskType s),
          Timeline = sort_by (\<lambda>a b. lStartTimeMs a - lStartTimeMs b) (Timeline s)\<rparr>)"

subsection \<open>Finalizing\<close>

definition has_stalled :: "run \<Rightarrow> bool" where
  "has_stalled c \<longleftrightarrow> (\<exists>out \<in> set (ovals (rTaskOutputs c)). truthy (jfield out ''_Stalled''))"

definition has_unhandled_error :: "run \<Rightarrow> bool" where
  "has_unhandled_error c \<longleftrightarrow> rErrors c \<noteq> [] \<or>
     (\<exists>out \<in> set (ovals (rTaskOutputs c)). truthy (jfield out ''_BeaconError''))"

definition final_status :: "run \<Rightarrow> string" where
  "final_status c =
     (if has_stalled c then STATUS_STALLED
      else if has_unhandled_error c then STATUS_FAILED
      else if \<not> isWaiting (rStatus c) then STATUS_COMPLETE
      else rStatus c)"

definition finalizeExecution :: "engine_env \<Rightarrow> run \<Rightarrow> run" where
  "finalizeExecution env c =
     (let start = (case rStartTime c of None \<Rightarrow> 0 | Some t \<Rightarrow> t);
          c1 = c\<lparr>rStopTime := Some (rClock c), rElapsedMs := Some (rClock c - start),
                 rStatus := final_status c\<rparr>;
          c2 = c1\<lparr>rLive := rLive c1 \<and> isWaiting (rStatus c1)\<rparr>;
          c3 = c2\<lparr>rTimingSummary := Some (computeTimingSummary c2)\<rparr>;
          c4 = writeLogFile env (persistManifestViaBridge env c3);
          c5 = (if rRunMode c4 = ''debug'' then writeStateSnapshots env c4 else c4);
          c6 = (if rRunMode c5 = ''production'' then cleanupWorkingFiles c5 else c5)
      in add_effect (EmitExecutionComplete (rHash c6) (rStatus c6) (length (rErrors c6))) c6)"

subsection \<open>The table of runs\<close>

definition getRun :: "run obj \<Rightarrow> string \<Rightarrow> run option" where
  "getRun runs h = oget runs h"

record run_summary =
  uHash :: string
  uOperationHash :: string
  uOperationName :: string
  uStatus :: string
  uRunMode :: string
  uStartTime :: "jstime option"
  uStopTime :: "jstime option"
  uElapsedMs :: "int option"
  uErrorCount :: nat
  uStagingPath :: string
  uLive :: bool
  uWaitingTasks :: "waiting_task obj option"

definition summarize_run :: "run \<Rightarrow> run_summary" where
  "summarize_run c =
     \<lparr>uHash = rHash c, uOperationHash = rOperationHash c, uOperationName = rOperationName c,
      uStatus = rStatus c, uRunMode = rRunMode c, uStartTime = rStartTime c, uStopTime = rStopTime c,
      uElapsedMs = rElapsedMs c, uErrorCount = length (rErrors c), uStagingPath = rStagingPath c,
      uLive = rLive c,
      uWaitingTasks = (if isWaiting (rStatus c) then Some (rWaitingTasks c) else None)\<rparr>"

definition listRuns :: "run obj \<Rightarrow> run_summary list" where
  "listRuns runs = map summarize_run (ovals runs)"

text \<open>One tick of the poll of \<open>waitForCompletion\<close>; \<open>None\<close> goes on polling.\<close>

definition waitForCompletion :: "jstime \<Rightarrow> jstime \<Rightarrow> int \<Rightarrow> run obj \<Rightarrow> string \<Rightarrow> (string + run) option" where
  "waitForCompletion t started timeout runs h = (case oget runs h of
     None \<Rightarrow> Some (Inl (''Run not found: '' @ h))
   | Some c \<Rightarrow>
       (if isTerminal (rStatus c) then Some (Inr c)
        else if timeout < t - started then
          Some (Inl (''Trigger timed out after '' @ show_int timeout @ ''ms (run '' @ h @
            '' status: '' @ rStatus c @ '')''))
        else None))"

definition abandonContext :: "engine_env \<Rightarrow> jstime \<Rightarrow> run \<Rightarrow> run" where
  "abandonContext env t c =
     (if isTerminal (rStatus c) then c
      else
        let stop = (case rStopTime c of None \<Rightarrow> t | Some s \<Rightarrow> s);
            elapsed = (case rElapsedMs c of
                Some e \<Rightarrow> (if e \<noteq> 0 then Some e
                            else case rStartTime c of None \<Rightarrow> Some e | Some st \<Rightarrow> Some (stop - st))
              | None \<Rightarrow> (case rStartTime c of None \<Rightarrow> None | Some st \<Rightarrow> Some (stop - st)));
            c1 = run_log ''Run abandoned by user.''
              (c\<lparr>rClock := t, rStatus := STATUS_ABANDONED, rWaitingTasks := [], rPendingEvents := [],
                 rLive := False, rStopTime := Some stop, rElapsedMs := elapsed\<rparr>)
        in if rStagingPath c = [] then c1 else persistManifestViaBridge env c1)"

definition abandonRun :: "engine_env \<Rightarrow> jstime \<Rightarrow> string \<Rightarrow> run obj \<Rightarrow> run obj \<times> run option" where
  "abandonRun env t h runs = (case oget runs h of
     None \<Rightarrow> (runs, None)
   | Some c \<Rightarrow> (let c' = abandonContext env t c in (oset h c' runs, Some c')))"

definition stale_run :: "run \<Rightarrow> bool" where
  "stale_run c \<longleftrightarrow> \<not> rLive c \<and> (isWaiting (rStatus c) \<or> isInProgress (rStatus c))"

text \<open>The loop goes over the keys and abandons by the run's own hash.\<close>

fun abandonLoop :: "engine_env \<Rightarrow> jstime \<Rightarrow> string list \<Rightarrow> run obj \<Rightarrow> nat \<Rightarrow> run obj \<times> nat" where
  "abandonLoop env t [] runs k = (runs, k)"
| "abandonLoop env t (h # hs) runs k = (case oget runs h of
     None \<Rightarrow> abandonLoop env t hs runs k
   | Some c \<Rightarrow>
       (if stale_run c then abandonLoop env t hs (fst (abandonRun env t (rHash c) runs)) (Suc k)
        else abandonLoop env t hs runs k))"

definition abandonStaleRuns :: "engine_env \<Rightarrow> jstime \<Rightarrow> run obj \<Rightarrow> run obj \<times> nat" where
  "abandonStaleRuns env t runs = abandonLoop env t (okeys runs) runs 0"

text \<open>
  \<open>loadRecentManifests\<close>: the manifest files found under the staging root, newest first, up to a
  limit; a file that does not parse is skipped, a run that is in memory is not replaced.
\<close>

record manifest_file =
  zStagingPath :: string
  zModifiedTime :: jstime
  zContent :: "manifest option"

definition restored_run :: "string \<Rightarrow> disk \<Rightarrow> jstime \<Rightarrow> manifest \<Rightarrow> run" where
  "restored_run staging d t m =
     \<lparr>rHash = fHash m, rOperationHash = fOperationHash m, rOperationName = fOperationName m,
      rStatus = fStatus m, rRunMode = fRunMode m, rStagingPath = staging, rLive = False,
      rGlobalState = fGlobalState m, rOperationState = fOperationState m,
      rTaskOutputs = fTaskOutputs m, rOutput = fOutput m,
      rPendingEvents = [],
      rWaitingTasks = (case fWaitingTasks m of None \<Rightarrow> [] | Some w \<Rightarrow> w),
      rTaskManifests = fTaskManifests m, rEventLog = fEventLog m, rLog = fLog m, rErrors = fErrors m,
      rStartTime = fStartTime m, rStopTime = fStopTime m, rElapsedMs = fElapsedMs m,
      rTimingSummary = fTimingSummary m,
      rGraph = \<lparr>gNodes = [], gConnections = []\<rparr>, rNodeMap = [], rPortLabelMap = [],
      rConnectionMap = \<lparr>eventSources = [], stateTargets = []\<rparr>,
      rClock = t, rDisk = d, rEffects = []\<rparr>"

fun loadFiles :: "disk \<Rightarrow> jstime \<Rightarrow> nat \<Rightarrow> manifest_file list \<Rightarrow> run obj \<Rightarrow> run obj" where
  "loadFiles d t limit [] runs = runs"
| "loadFiles d t limit (f # fs) runs =
     (if limit = 0 then runs
      else case zContent f of
          None \<Rightarrow> loadFiles d t limit fs runs
        | Some m \<Rightarrow>
            (if oget runs (fHash m) \<noteq> None then loadFiles d t limit fs runs
             else loadFiles d t (limit - 1) fs
               (oset (fHash m) (restored_run (zStagingPath f) d t m) runs)))"

definition newest_first :: "manifest_file \<Rightarrow> manifest_file \<Rightarrow> int" where
  "newest_first a b = zModifiedTime b - zModifiedTime a"

definition loadRecentManifests :: "disk \<Rightarrow> jstime \<Rightarrow> nat \<Rightarrow> manifest_file list \<Rightarrow> run obj \<Rightarrow> run obj" where
  "loadRecentManifests d t limit files runs =
     loadFiles d t (num_or limit 100) (sort_by newest_first files) runs"

end
