(* ===== verification/Engine.thy ===== *)
theory Engine
  imports RunManifest "HOL-Library.While_Combinator"
begin

section \<open>The execution engine\<close>

text \<open>
  \<open>src/source/services/Ultravisor-ExecutionEngine.cjs\<close>. The engine walks the graph of a run by
  callbacks: \<open>_processEventQueue\<close> takes an event, \<open>_executeTaskForEvent\<close> runs the node's task and
  goes on when the task calls back. The stack of pending callbacks is explicit here: a
  configuration is a list of frames and the run, \<open>engineStep\<close> does the next thing the top frame
  waits for, and \<open>engineRun\<close> repeats it until no frame is left, which an operation with a cycle
  may never reach.
\<close>

subsection \<open>Settings of a task\<close>

definition merged_settings :: "node \<Rightarrow> json obj" where
  "merged_settings nd =
     (let base = (case nData nd of None \<Rightarrow> [] | Some d \<Rightarrow> d)
      in case nSettings nd of
          None \<Rightarrow> base
        | Some s \<Rightarrow> foldl (\<lambda>m (k, v). oset k v m) base s)"

text \<open>The value that one state connection delivers.\<close>

definition source_value :: "engine_env \<Rightarrow> run \<Rightarrow> connection \<Rightarrow> json" where
  "source_value env c cn =
     (let raw = jfield (output_or_new (rTaskOutputs c) (cSourceNodeHash cn))
                  (extractPortName (cSourcePortHash cn) (rPortLabelMap c));
          v = materializeIfRef c raw
      in if cTemplate cn = [] then v
         else JStr (vParseTemplate env (cTemplate cn) (buildTemplateContext c v)))"

definition settings_key :: "run \<Rightarrow> connection \<Rightarrow> string" where
  "settings_key c cn = str_or (cStateKey cn) (extractPortName (cTargetPortHash cn) (rPortLabelMap c))"

definition applyConnection :: "engine_env \<Rightarrow> run \<Rightarrow> json obj \<Rightarrow> connection \<Rightarrow> json obj" where
  "applyConnection env c settings cn =
     (let v = source_value env c cn; k = settings_key c cn
      in if k \<noteq> [] \<and> v \<noteq> JUndef then oset k v settings else settings)"

definition starts_with :: "string \<Rightarrow> string \<Rightarrow> bool" where
  "starts_with p s \<longleftrightarrow> take (length p) s = p"

definition line_end :: "char \<Rightarrow> bool" where
  "line_end c \<longleftrightarrow> c = CHR 0x0A \<or> c = CHR 0x0D"

text \<open>The address in a value that is one expression \<open>{~D:Record.address~}\<close>.\<close>

definition whole_reference :: "string \<Rightarrow> string option" where
  "whole_reference s =
     (let body = drop 11 s; a = take (length body - 2) body
      in if starts_with ''{~D:Record.'' s \<and> 2 < length body \<and> drop (length body - 2) body = ''~}'' \<and>
            \<not> list_ex line_end a
         then Some a else None)"

definition declared_type :: "task_definition \<Rightarrow> string \<Rightarrow> string option" where
  "declared_type def k =
     map_option (\<lambda>ty. str_or ty ''String'') (map_of (rev (dSettingsInputs def)) k)"

definition resolveSetting :: "engine_env \<Rightarrow> run \<Rightarrow> task_definition \<Rightarrow> string \<Rightarrow> json \<Rightarrow> json" where
  "resolveSetting env c def k v = (case v of
     JStr s \<Rightarrow>
       (if \<not> str_includes s ''{~'' then v
        else
          let resolved = (case whole_reference s of
                None \<Rightarrow> JUndef | Some a \<Rightarrow> resolveAddress env a c [])
          in if resolved \<noteq> JUndef then resolved
             else if declared_type def k \<in> {Some ''Object'', Some ''Array''} then v
             else JStr (vParseTemplate env s (buildTemplateContext c JUndef)))
   | _ \<Rightarrow> v)"

definition resolveStateConnections :: "engine_env \<Rightarrow> string \<Rightarrow> node \<Rightarrow> task_definition \<Rightarrow> run \<Rightarrow> json obj" where
  "resolveStateConnections env n nd def c =
     map (\<lambda>(k, v). (k, resolveSetting env c def k v))
       (foldl (applyConnection env c) (merged_settings nd) (state_connections c n))"

subsection \<open>One task\<close>

definition taskContext :: "string \<Rightarrow> string \<Rightarrow> run \<Rightarrow> task_context" where
  "taskContext n ev c =
     \<lparr>tGlobalState = rGlobalState c, tOperationState = rOperationState c,
      tTaskOutputs = rTaskOutputs c, tStagingPath = rStagingPath c,
      tOperationHash = rOperationHash c, tNodeHash = n, tRunHash = rHash c, tRunMode = rRunMode c,
      tTriggeringEventName = ev, tDisk = rDisk c\<rparr>"

definition merge_outputs :: "engine_env \<Rightarrow> string \<Rightarrow> json obj \<Rightarrow> run \<Rightarrow> run" where
  "merge_outputs env n new c =
     (let (outs, d) = mergeAndLift (vWritable env) (vThreshold env) (rStagingPath c) n new
                        (rTaskOutputs c) (rDisk c)
      in c\<lparr>rTaskOutputs := outs, rDisk := d\<rparr>)"

text \<open>
  The part of \<open>_executeTaskForEvent\<close> up to the call of \<open>execute\<close>: the run, and the behaviour of the
  task if there is one.
\<close>

definition startTask :: "engine_env \<Rightarrow> string \<Rightarrow> string \<Rightarrow> run \<Rightarrow> run \<times> task_run option" where
  "startTask env n ev c = (case oget (rNodeMap c) n of
     None \<Rightarrow> (run_log (''Node ['' @ n @ ''] not found in graph.'') c, None)
   | Some nd \<Rightarrow>
       (if nType nd = ''end'' then (run_log (''Reached End node ['' @ n @ ''].'') c, None)
        else if nType nd = ''start'' then (c, None)
        else
          let dh = definition_hash nd
          in case getDefinition (vRegistry env) dh of
              None \<Rightarrow> (run_log (''Unknown task type ['' @ dh @ ''] for node ['' @ n @ ''].'') c, None)
            | Some def \<Rightarrow>
                let settings = resolveStateConnections env n nd def c;
                    c1 = recordEvent n ''TaskStart''
                      (''Executing ['' @ n @ ''] ('' @ str_or (dName def) dh @ '') triggered by ['' @ ev @ '']'') 0
                      (recordTaskStart n ev dh def c);
                    c2 = run_log (''Executing node ['' @ n @ ''] ('' @ dName def @ '') triggered by ['' @ ev @ '']'') c1
                in case instantiateTaskType (vRegistry env) dh of
                    None \<Rightarrow> (run_log (''Failed to instantiate task type ['' @ dh @ ''].'') c2, None)
                  | Some ty \<Rightarrow> (c2, Some (task_execute (rClock c2) ty settings (taskContext n ev c2)))))"

text \<open>\<open>fHandleTaskError\<close>\<close>

definition taskFailed :: "string \<Rightarrow> string \<Rightarrow> run \<Rightarrow> run" where
  "taskFailed n msg c =
     enqueueDownstreamEvents n ''Error''
       (recordEvent n ''TaskError'' (''Error in ['' @ n @ '']: '' @ msg) 0
         (recordTaskError n msg
           (run_log (''Task ['' @ n @ ''] error: '' @ msg) c)))"

definition taskWaits :: "engine_env \<Rightarrow> string \<Rightarrow> task_result \<Rightarrow> run \<Rightarrow> run" where
  "taskWaits env n res c =
     checkpoint env
       (recordTaskComplete n res
         (run_log (''Task ['' @ n @ ''] is waiting for input (resume event: '' @
             str_or (sResumeEventName res) ''ValueInputComplete'' @ '').'')
           (c\<lparr>rWaitingTasks := oset n
               \<lparr>wPromptMessage = sPromptMessage res, wOutputAddress = sOutputAddress res,
                wResumeEventName = sResumeEventName res, wTimestamp = rClock c\<rparr> (rWaitingTasks c)\<rparr>)))"

fun writeStates :: "engine_env \<Rightarrow> string \<Rightarrow> json obj \<Rightarrow> run \<Rightarrow> run" where
  "writeStates env n [] c = c"
| "writeStates env n ((a, v) # ws) c = writeStates env n ws (fst (setAddress env a v c n))"

definition join_lines :: "string \<Rightarrow> string list \<Rightarrow> string" where
  "join_lines sep ls = (case ls of [] \<Rightarrow> [] | l # ls \<Rightarrow> l @ concat (map ((@) sep) ls))"

definition is_error_event :: "task_definition option \<Rightarrow> string \<Rightarrow> bool" where
  "is_error_event def e = (case def of
     None \<Rightarrow> False
   | Some def \<Rightarrow> e \<noteq> [] \<and> (e, True) \<in> set (dEventOutputs def))"

text \<open>The definition the engine looked up when it started the task of a node.\<close>

definition node_definition :: "engine_env \<Rightarrow> run \<Rightarrow> string \<Rightarrow> task_definition option" where
  "node_definition env c n =
     Option.bind (oget (rNodeMap c) n) (\<lambda>nd. getDefinition (vRegistry env) (definition_hash nd))"

definition fireResult :: "engine_env \<Rightarrow> string \<Rightarrow> task_result \<Rightarrow> run \<Rightarrow> run" where
  "fireResult env n res c =
     (let e = sEventToFire res
      in if e = [] then c
         else
           let c1 = enqueueDownstreamEvents n e c;
               handled = length (rPendingEvents c) < length (rPendingEvents c1)
           in if is_error_event (node_definition env c n) e \<and> \<not> handled
              then add_error (Some n)
                (if sLog res \<noteq> [] then join_lines ''; '' (sLog res)
                 else ''Task ['' @ n @ ''] fired error event.'') c1
              else c1)"

text \<open>What a completed task leaves in the run, up to the checkpoint; then its event is fired.\<close>

definition storeResult :: "engine_env \<Rightarrow> string \<Rightarrow> task_result \<Rightarrow> run \<Rightarrow> run" where
  "storeResult env n res c =
     (let c1 = (case sOutputs res of None \<Rightarrow> c | Some outs \<Rightarrow> merge_outputs env n outs c);
          c2 = writeStates env n (sStateWrites res) c1;
          c3 = foldl (\<lambda>c l. run_log (''  ['' @ n @ ''] '' @ l) c) c2 (sLog res);
          c4 = recordEvent n ''TaskComplete''
            (''Completed ['' @ n @ ''] -> '' @ str_or (sEventToFire res) ''no event'') 0
            (recordTaskComplete n res c3)
      in checkpoint env c4)"

definition taskCompletes :: "engine_env \<Rightarrow> string \<Rightarrow> task_result \<Rightarrow> run \<Rightarrow> run" where
  "taskCompletes env n res c = fireResult env n res (storeResult env n res c)"

definition finishTask :: "engine_env \<Rightarrow> string \<Rightarrow> task_reply \<Rightarrow> run \<Rightarrow> run" where
  "finishTask env n r c = (case r of
     TaskError msg \<Rightarrow> taskFailed n msg c
   | NoResult \<Rightarrow> run_log (''Task ['' @ n @ ''] returned no result.'') c
   | TaskResult res \<Rightarrow>
       (if sWaitingForInput res then taskWaits env n res c else taskCompletes env n res c))"

subsection \<open>Callbacks as frames\<close>

text \<open>
  \<^item> \<open>Queue\<close>: \<open>_processEventQueue\<close> is called next;
  \<^item> \<open>Exec e\<close>: \<open>_executeTaskForEvent\<close> is called for an event;
  \<^item> \<open>Running n ev r\<close>: the task of node \<open>n\<close> goes on with \<open>r\<close>;
  \<^item> \<open>Resume n ev k\<close>: the resume callback of an intermediate event of \<open>n\<close>;
  \<^item> \<open>Sub es\<close>: \<open>fProcessNextDownstream\<close> for the remaining events of an intermediate event;
  \<^item> \<open>Drain\<close>: \<open>_drainEventsForSubgraph\<close> is called next.
\<close>

datatype frame =
    Queue
  | Exec pending_event
  | TaskFrame string string task_run
  | ResumeFrame string string "task_context \<Rightarrow> task_run"
  | Sub "pending_event list"
  | Drain

type_synonym config = "frame list \<times> run"

text \<open>The end of \<open>_processEventQueue\<close>: a run with waiting tasks is paused.\<close>

definition pauseIfWaiting :: "run \<Rightarrow> run" where
  "pauseIfWaiting c =
     (if rWaitingTasks c = [] then c
      else
        let reasons = filter (\<lambda>m. m \<noteq> []) (map wPromptMessage (ovals (rWaitingTasks c)))
        in run_log (''Operation paused: '' @
             (if reasons = [] then ''waiting for input'' else join_lines ''; '' reasons) @ ''.'')
             (c\<lparr>rStatus := STATUS_WAITING\<rparr>))"

definition dequeueEvent :: "pending_event \<Rightarrow> pending_event list \<Rightarrow> run \<Rightarrow> run" where
  "dequeueEvent e es c =
     recordEvent (TargetNodeHash e) ''EventDequeued''
       (''Dequeued ['' @ EventName e @ ''] for ['' @ TargetNodeHash e @ '']'') 1
       (c\<lparr>rPendingEvents := es\<rparr>)"

definition taskStep :: "engine_env \<Rightarrow> string \<Rightarrow> string \<Rightarrow> task_run \<Rightarrow> frame list \<Rightarrow> run \<Rightarrow> config" where
  "taskStep env n ev r fs c = (case r of
     Reply t reply \<Rightarrow> (fs, finishTask env n reply (at_time t c))
   | Fire t e outs k \<Rightarrow>
       let c1 = merge_outputs env n outs
                  (recordEvent n ''IntermediateEvent''
                    (''Intermediate event ['' @ e @ ''] from ['' @ n @ '']'') 1 (at_time t c))
       in (Sub (getDownstreamEvents n e c1) # ResumeFrame n ev k # fs, c1)
   | SetState t a v k \<Rightarrow>
       let c1 = fst (setAddress env a v (at_time t c) n)
       in (TaskFrame n ev (k (taskContext n ev c1)) # fs, c1))"

fun engineStep :: "engine_env \<Rightarrow> config \<Rightarrow> config" where
  "engineStep env ([], c) = ([], c)"
| "engineStep env (Queue # fs, c) = (case rPendingEvents c of
     [] \<Rightarrow> (fs, pauseIfWaiting c)
   | e # es \<Rightarrow> (Exec e # Queue # fs, dequeueEvent e es c))"
| "engineStep env (Exec e # fs, c) =
     (case startTask env (TargetNodeHash e) (EventName e) c of
        (c', None) \<Rightarrow> (fs, c')
      | (c', Some r) \<Rightarrow> (TaskFrame (TargetNodeHash e) (EventName e) r # fs, c'))"
| "engineStep env (TaskFrame n ev r # fs, c) = taskStep env n ev r fs c"
| "engineStep env (ResumeFrame n ev k # fs, c) = (TaskFrame n ev (k (taskContext n ev c)) # fs, c)"
| "engineStep env (Sub [] # fs, c) = (fs, c)"
| "engineStep env (Sub (e # es) # fs, c) = (Exec e # Drain # Sub es # fs, c)"
| "engineStep env (Drain # fs, c) = (case rPendingEvents c of
     [] \<Rightarrow> (fs, c)
   | e # es \<Rightarrow> (Exec e # Drain # fs, c\<lparr>rPendingEvents := es\<rparr>))"

definition engineRun :: "engine_env \<Rightarrow> config \<Rightarrow> config option" where
  "engineRun env cf = while_option (\<lambda>(fs, c). fs \<noteq> []) (engineStep env) cf"

text \<open>\<open>_processEventQueue\<close> up to its callback, and the finalization all callers do there.\<close>

definition processEventQueue :: "engine_env \<Rightarrow> run \<Rightarrow> run option" where
  "processEventQueue env c = map_option snd (engineRun env ([Queue], c))"

definition runToEnd :: "engine_env \<Rightarrow> run \<Rightarrow> run option" where
  "runToEnd env c = map_option (finalizeExecution env) (processEventQueue env c)"

subsection \<open>Operations\<close>

text \<open>What an operation of the engine answers: an error, or the run; and the table of runs.\<close>

datatype engine_reply = EngineError string | EngineRun run | EngineThrow string

definition seed :: "json obj \<Rightarrow> json obj \<Rightarrow> json obj" where
  "seed overrides st = foldl (\<lambda>m (k, v). oset k v m) st overrides"

definition seed_missing :: "json obj \<Rightarrow> json obj \<Rightarrow> json obj" where
  "seed_missing defaults st =
     foldl (\<lambda>m (k, v). if oget m k = None then oset k v m else m) st defaults"

text \<open>The common part of \<open>executeOperation\<close> and \<open>startOperationAsync\<close>.\<close>

record initial_state =
  iGlobalState :: "json obj"
  iOperationState :: "json obj"
  iRunMode :: string

definition seedRun :: "operation \<Rightarrow> initial_state \<Rightarrow> run \<Rightarrow> run" where
  "seedRun op init c =
     c\<lparr>rGlobalState := seed_missing (oInitialGlobalState op) (seed (iGlobalState init) (rGlobalState c)),
       rOperationState :=
         seed_missing (oInitialOperationState op) (seed (iOperationState init) (rOperationState c))\<rparr>"

definition prepareRun ::
    "engine_env \<Rightarrow> jstime \<Rightarrow> string \<Rightarrow> disk \<Rightarrow> operation \<Rightarrow> graph \<Rightarrow> initial_state \<Rightarrow> string \<Rightarrow> run" where
  "prepareRun env t staging d op g init suffix =
     (let c = seedRun op init (createExecutionContext t staging op (iRunMode init) d);
          c1 = setGraph (vRegistry env) g c
      in run_log (''Operation ['' @ oHash op @ ''] started'' @ suffix)
           (c1\<lparr>rStatus := STATUS_IN_PROGRESS, rStartTime := Some t\<rparr>))"

definition noStart :: "engine_env \<Rightarrow> run \<Rightarrow> run" where
  "noStart env c =
     finalizeExecution env (run_log ''No Start node found in the graph.'' (c\<lparr>rStatus := STATUS_ERROR\<rparr>))"

definition graph_missing :: string where
  "graph_missing = ''ExecutionEngine: operation definition must have a Graph.''"

text \<open>\<open>executeOperation\<close>: \<open>None\<close> where the queue is never emptied.\<close>

definition executeOperation ::
    "engine_env \<Rightarrow> jstime \<Rightarrow> string \<Rightarrow> disk \<Rightarrow> operation \<Rightarrow> initial_state \<Rightarrow> run obj \<Rightarrow>
      (run obj \<times> engine_reply) option" where
  "executeOperation env t staging d op init runs = (case oGraph op of
     None \<Rightarrow> Some (runs, EngineError graph_missing)
   | Some g \<Rightarrow>
       let c = prepareRun env t staging d op g init ''.''
       in case findStartNode c of
           None \<Rightarrow> let c' = noStart env c
             in Some (oset (rHash c) c' runs, EngineError ''No Start node found in the graph.'')
         | Some start \<Rightarrow>
             map_option (\<lambda>c'. (oset (rHash c) c' runs, EngineRun c'))
               (runToEnd env (enqueueAllDownstreamEvents (nHash start) c)))"

text \<open>
  \<open>startOperationAsync\<close> answers with the run before any task has executed; the queue is processed
  at the next tick, which is \<open>runToEnd\<close> on the run it stored.
\<close>

definition startOperationAsync ::
    "engine_env \<Rightarrow> jstime \<Rightarrow> string \<Rightarrow> disk \<Rightarrow> operation \<Rightarrow> initial_state \<Rightarrow> run obj \<Rightarrow>
      run obj \<times> engine_reply" where
  "startOperationAsync env t staging d op init runs = (case oGraph op of
     None \<Rightarrow> (runs, EngineError graph_missing)
   | Some g \<Rightarrow>
       let c = prepareRun env t staging d op g init '' (async).''
       in case findStartNode c of
           None \<Rightarrow> let c' = noStart env c
             in (oset (rHash c) c' runs, EngineError ''No Start node found in the graph.'')
         | Some start \<Rightarrow>
             let c' = enqueueAllDownstreamEvents (nHash start) c
             in (oset (rHash c) c' runs, EngineRun c'))"

definition run_not_found :: "string \<Rightarrow> string" where
  "run_not_found h = ''ExecutionEngine: run ['' @ h @ ''] not found.''"

definition run_not_waiting :: "string \<Rightarrow> string \<Rightarrow> string" where
  "run_not_waiting h st =
     ''ExecutionEngine: run ['' @ h @ ''] is not waiting for input (status: '' @ st @ '').''"

definition node_not_waiting :: "string \<Rightarrow> string" where
  "node_not_waiting n = ''ExecutionEngine: node ['' @ n @ ''] is not waiting for input.''"

text \<open>
  What \<open>resumeOperation\<close> and \<open>forceErrorOnWaitingTask\<close> do with the last execution of the node: its
  elapsed time now includes the wait.
\<close>

definition touch_execution :: "jstime \<Rightarrow> execution \<Rightarrow> execution" where
  "touch_execution t x =
     (if xStartTimeMs x = 0 then x
      else x\<lparr>xStopTimeMs := Some t, xElapsedMs := Some (t - xStartTimeMs x)\<rparr>)"

definition close_execution :: "jstime \<Rightarrow> string \<Rightarrow> execution \<Rightarrow> execution" where
  "close_execution t st x =
     (touch_execution t x)\<lparr>xStatus := st, xStopTimeMs := Some t\<rparr>"

definition resume_fields :: "json \<Rightarrow> json obj" where
  "resume_fields v = (case v of JObj kvs \<Rightarrow> kvs | _ \<Rightarrow> [(''InputValue'', v)])"

definition resumeContext :: "engine_env \<Rightarrow> jstime \<Rightarrow> string \<Rightarrow> json \<Rightarrow> waiting_task \<Rightarrow> run \<Rightarrow> run" where
  "resumeContext env t n v w c =
     (let c0 = at_time t c;
          c1 = (if wOutputAddress w = [] then c0 else fst (setAddress env (wOutputAddress w) v c0 n));
          c2 = merge_outputs env n (resume_fields v) c1;
          c3 = on_last_execution n (touch_execution t) c2;
          e = str_or (wResumeEventName w) ''ValueInputComplete'';
          c4 = run_log (''Input received for node ['' @ n @ ''], resuming execution (event: '' @ e @ '').'')
            (c3\<lparr>rWaitingTasks := odel n (rWaitingTasks c3), rStatus := STATUS_IN_PROGRESS\<rparr>)
      in enqueueDownstreamEvents n e c4)"

definition resumeOperation ::
    "engine_env \<Rightarrow> jstime \<Rightarrow> string \<Rightarrow> string \<Rightarrow> json \<Rightarrow> run obj \<Rightarrow> (run obj \<times> engine_reply) option" where
  "resumeOperation env t h n v runs = (case getRun runs h of
     None \<Rightarrow> Some (runs, EngineError (run_not_found h))
   | Some c \<Rightarrow>
       (if \<not> isWaiting (rStatus c) then Some (runs, EngineError (run_not_waiting h (rStatus c)))
        else case oget (rWaitingTasks c) n of
            None \<Rightarrow> Some (runs, EngineError (node_not_waiting n))
          | Some w \<Rightarrow>
              map_option (\<lambda>c'. (oset h c' runs, EngineRun c'))
                (runToEnd env (resumeContext env t n v w c))))"

text \<open>
  Writing fields into the outputs of a node in place; on a value that is not an object the class
  body, which is strict code, throws.
\<close>

definition put_output_fields :: "string \<Rightarrow> (string \<times> json) list \<Rightarrow> run \<Rightarrow> run option" where
  "put_output_fields n kvs c =
     (let entry = output_or_new (rTaskOutputs c) n
      in if is_object entry
         then Some (c\<lparr>rTaskOutputs := oset n (foldl (\<lambda>x (k, v). put_field k v x) entry kvs)
                (rTaskOutputs c)\<rparr>)
         else None)"

record stall_info =
  aBeaconID :: string
  aStalledAt :: "jstime option"

definition stall_fields :: "jstime \<Rightarrow> stall_info \<Rightarrow> (string \<times> json) list" where
  "stall_fields t info =
     [(''_Stalled'', JBool True),
      (''_StalledAt'', JTime (case aStalledAt info of None \<Rightarrow> t | Some s \<Rightarrow> s))] @
     (if aBeaconID info = [] then [] else [(''BeaconID'', JStr (aBeaconID info))])"

definition stall_log :: "string \<Rightarrow> string" where
  "stall_log n = ''Task ['' @ n @ ''] stalled (beacon heartbeat timeout). Operation will finalize as Stalled.''"

definition stallContext :: "engine_env \<Rightarrow> jstime \<Rightarrow> string \<Rightarrow> run \<Rightarrow> run" where
  "stallContext env t n c =
     (let c1 = on_last_execution n (close_execution t STATUS_STALLED) c
      in finalizeExecution env
           (c1\<lparr>rWaitingTasks := odel n (rWaitingTasks c1),
               rPendingEvents := filter (\<lambda>e. TargetNodeHash e \<noteq> n) (rPendingEvents c1)\<rparr>))"

definition stallOperation ::
    "engine_env \<Rightarrow> jstime \<Rightarrow> string \<Rightarrow> string \<Rightarrow> stall_info \<Rightarrow> run obj \<Rightarrow> run obj \<times> engine_reply" where
  "stallOperation env t h n info runs = (case getRun runs h of
     None \<Rightarrow> (runs, EngineError (run_not_found h))
   | Some c \<Rightarrow>
       (if isTerminal (rStatus c) then (runs, EngineRun c)
        else
          let c0 = run_log (stall_log n) (at_time t c)
          in case put_output_fields n (stall_fields t info) c0 of
              None \<Rightarrow> (oset h c0 runs, EngineThrow ''TypeError'')
            | Some c1 \<Rightarrow> let c' = stallContext env t n c1 in (oset h c' runs, EngineRun c')))"

definition forceErrorContext :: "jstime \<Rightarrow> string \<Rightarrow> run \<Rightarrow> run" where
  "forceErrorContext t n c =
     (let c1 = on_last_execution n (close_execution t STATUS_ERROR) c
      in enqueueDownstreamEvents n ''Error''
           (c1\<lparr>rWaitingTasks := odel n (rWaitingTasks c1), rStatus := STATUS_IN_PROGRESS\<rparr>))"

definition forceErrorOnWaitingTask ::
    "engine_env \<Rightarrow> jstime \<Rightarrow> string \<Rightarrow> string \<Rightarrow> run obj \<Rightarrow> (run obj \<times> engine_reply) option" where
  "forceErrorOnWaitingTask env t h n runs = (case getRun runs h of
     None \<Rightarrow> Some (runs, EngineError (run_not_found h))
   | Some c \<Rightarrow>
       (if \<not> isWaiting (rStatus c) then Some (runs, EngineError (run_not_waiting h (rStatus c)))
        else case oget (rWaitingTasks c) n of
            None \<Rightarrow> Some (runs, EngineError (node_not_waiting n))
          | Some w \<Rightarrow>
              let c0 = run_log (''Task ['' @ n @ ''] force-errored by user while waiting.'') (at_time t c)
              in case put_output_fields n
                     [(''Error'', JStr ''Force-errored while waiting''), (''ForceErrored'', JBool True)] c0 of
                  None \<Rightarrow> Some (oset h c0 runs, EngineThrow ''TypeError'')
                | Some c1 \<Rightarrow>
                    map_option (\<lambda>c'. (oset h c' runs, EngineRun c'))
                      (runToEnd env (forceErrorContext t n c1))))"

end
