(* ===== verification/EngineRecovery.thy ===== *)
theory EngineRecovery
  imports Engine HubTypes
begin

section \<open>Retrying a run and picking runs up after a restart\<close>

text \<open>
  \<open>retryFromCheckpoint\<close> and \<open>resumeWaitingRuns\<close> of
  \<open>src/source/services/Ultravisor-ExecutionEngine.cjs\<close>. The stored operations are a lookup
  function. A retry answers with the work item it enqueues at the coordinator, if any.
\<close>

type_synonym operations = "string \<Rightarrow> operation option"

subsection \<open>Retrying from the failed node\<close>

definition last_status :: "task_manifest \<Rightarrow> string" where
  "last_status tm = (case rev (mExecutions tm) of [] \<Rightarrow> [] | x # _ \<Rightarrow> xStatus x)"

definition failed_manifest :: "string \<times> task_manifest \<Rightarrow> bool" where
  "failed_manifest p \<longleftrightarrow> last_status (snd p) = STATUS_ERROR \<or> last_status (snd p) = STATUS_STALLED"

definition failed_output :: "string \<times> json \<Rightarrow> bool" where
  "failed_output p \<longleftrightarrow>
     truthy (jfield (snd p) ''_BeaconError'') \<or> truthy (jfield (snd p) ''_Stalled'')"

definition retryTarget :: "string \<Rightarrow> run \<Rightarrow> string option" where
  "retryTarget requested c =
     (if requested \<noteq> [] then Some requested
      else opt_or (map_option fst (List.find failed_manifest (rTaskManifests c)))
                  (map_option fst (List.find failed_output (rTaskOutputs c))))"

definition retry_execution :: "jstime \<Rightarrow> nat \<Rightarrow> execution" where
  "retry_execution t k =
     \<lparr>xTriggerEvent = [], xStartTimeMs = t, xStopTimeMs = None, xElapsedMs = None,
      xStatus = STATUS_RETRYING, xEventFired = [], xLog = [], xAttemptNumber = Some k\<rparr>"

definition add_retry :: "jstime \<Rightarrow> string \<Rightarrow> run \<Rightarrow> run" where
  "add_retry t n c = (case oget (rTaskManifests c) n of
     None \<Rightarrow> c
   | Some tm \<Rightarrow> c\<lparr>rTaskManifests :=
       oset n (tm\<lparr>mExecutions := mExecutions tm @ [retry_execution t (length (mExecutions tm))]\<rparr>)
         (rTaskManifests c)\<rparr>)"

text \<open>The run is reset to wait at the node; its other outputs stay.\<close>

definition retryContext :: "engine_env \<Rightarrow> jstime \<Rightarrow> string \<Rightarrow> graph \<Rightarrow> run \<Rightarrow> run" where
  "retryContext env t n g c =
     (let c1 = rebuildGraphContext (vRegistry env) g
                 (run_log (''Retrying from checkpoint: re-dispatching node ['' @ n @ '']'') (at_time t c));
          c2 = add_retry t n (c1\<lparr>rTaskOutputs := odel n (rTaskOutputs c1)\<rparr>);
          c3 = c2\<lparr>rWaitingTasks := oset n
                   \<lparr>wPromptMessage = [], wOutputAddress = [], wResumeEventName = ''Complete'', wTimestamp = t\<rparr>
                   (rWaitingTasks c2),
                  rStatus := STATUS_WAITING, rStopTime := None, rLive := True,
                  rErrors := filter (\<lambda>e. rrNodeHash e \<noteq> Some n) (rErrors c2)\<rparr>
      in checkpoint env c3)"

text \<open>
  The settings of the node with the overrides. The loop then calls \<open>getAddress\<close> for every string
  that contains a dot; the state manager has no such method.
\<close>

definition retry_settings :: "node \<Rightarrow> json obj \<Rightarrow> json obj" where
  "retry_settings nd overrides =
     seed overrides (case nSettings nd of None \<Rightarrow> [] | Some s \<Rightarrow> s)"

definition dotted_string :: "json \<Rightarrow> bool" where
  "dotted_string v = (case v of JStr s \<Rightarrow> has_dot s | JTime t \<Rightarrow> True | _ \<Rightarrow> False)"

definition json_text :: "json \<Rightarrow> string" where
  "json_text v = (case v of JStr s \<Rightarrow> s | _ \<Rightarrow> [])"

definition retry_work_info :: "engine_env \<Rightarrow> string \<Rightarrow> string \<Rightarrow> run \<Rightarrow> node \<Rightarrow> json obj \<Rightarrow> work_info" where
  "retry_work_info env h n c nd settings =
     (let def = getDefinition (vRegistry env) (definition_hash nd);
          cap = str_or (nCapability nd) (str_or (json_text (jget settings ''Capability''))
                  (case def of None \<Rightarrow> [] | Some d \<Rightarrow> dCapability d));
          act = str_or (nAction nd) (str_or (json_text (jget settings ''Action''))
                  (case def of None \<Rightarrow> [] | Some d \<Rightarrow> EngineTypes.dAction d))
      in \<lparr>qRunHash = h, qRunID = [], qNodeHash = n, qOperationHash = rOperationHash c,
          qCapability = cap, qAction = act, qSettings = settings, qAffinityKey = [],
          qRequireAffinityMatch = False, qTimeoutMs = num_or (nTimeoutMs nd) 600000,
          qEnqueuedAt = None, qPriority = None\<rparr>)"

record retry_options =
  kNodeHash :: string
  kSettingsOverrides :: "json obj"

definition still_active :: "string \<Rightarrow> string \<Rightarrow> string" where
  "still_active h st = ''ExecutionEngine: run ['' @ h @ ''] is still active ('' @ st @ ''). Cannot retry.''"

definition operation_not_found :: "string \<Rightarrow> string" where
  "operation_not_found h = ''ExecutionEngine: operation ['' @ h @ ''] not found.''"

definition stored_graph :: "operations \<Rightarrow> string \<Rightarrow> graph option" where
  "stored_graph ops h = Option.bind (ops h) oGraph"

definition retryFromCheckpoint ::
    "engine_env \<Rightarrow> jstime \<Rightarrow> operations \<Rightarrow> bool \<Rightarrow> string \<Rightarrow> retry_options \<Rightarrow> run obj \<Rightarrow>
      run obj \<times> engine_reply \<times> work_info option" where
  "retryFromCheckpoint env t ops coordinator h opts runs = (case getRun runs h of
     None \<Rightarrow> (runs, EngineError (run_not_found h), None)
   | Some c \<Rightarrow>
       (if isInProgress (rStatus c) \<or> isWaiting (rStatus c)
        then (runs, EngineError (still_active h (rStatus c)), None)
        else case retryTarget (kNodeHash opts) c of
            None \<Rightarrow> (runs, EngineError (''ExecutionEngine: no failed node found in run ['' @ h @ ''].''), None)
          | Some n \<Rightarrow>
              (case stored_graph ops (rOperationHash c) of
                 None \<Rightarrow>
                   (let c0 = run_log (''Retrying from checkpoint: re-dispatching node ['' @ n @ '']'') (at_time t c)
                    in (oset h c0 runs, EngineError (operation_not_found (rOperationHash c)), None))
               | Some g \<Rightarrow>
                   let c' = retryContext env t n g c; runs' = oset h c' runs
                   in case (if coordinator then oget (rNodeMap c') n else None) of
                       None \<Rightarrow> (runs', EngineRun c', None)
                     | Some nd \<Rightarrow>
                         let settings = retry_settings nd (kSettingsOverrides opts)
                         in if list_ex dotted_string (ovals settings)
                            then (runs', EngineThrow ''tmpStateManager.getAddress is not a function'', None)
                            else (runs', EngineRun c', Some (retry_work_info env h n c' nd settings)))))"

subsection \<open>After a restart\<close>

definition resumable :: "run_summary \<Rightarrow> bool" where
  "resumable s \<longleftrightarrow> isWaiting (uStatus s) \<and> \<not> uLive s \<and>
     (case uWaitingTasks s of None \<Rightarrow> False | Some w \<Rightarrow> w \<noteq> [])"

definition stale_error :: "engine_env \<Rightarrow> jstime \<Rightarrow> run \<Rightarrow> run" where
  "stale_error env t c =
     (let c1 = add_error None
            ''Operation was running when server stopped. Execution cannot be resumed.''
            ((at_time t c)\<lparr>rStatus := STATUS_ERROR\<rparr>)
      in checkpoint env (c1\<lparr>rStopTime := Some t\<rparr>))"

definition resumeOne :: "engine_env \<Rightarrow> jstime \<Rightarrow> operations \<Rightarrow> run_summary \<Rightarrow> run obj \<Rightarrow> run obj" where
  "resumeOne env t ops s runs = (case getRun runs (uHash s) of
     None \<Rightarrow> runs
   | Some c \<Rightarrow>
       (if isWaiting (uStatus s) \<and> \<not> uLive s then
          (if resumable s then
             (case stored_graph ops (uOperationHash s) of
                None \<Rightarrow> runs
              | Some g \<Rightarrow> oset (uHash s) (rebuildGraphContext (vRegistry env) g c) runs)
           else runs)
        else if isInProgress (uStatus s) \<and> \<not> uLive s then oset (uHash s) (stale_error env t c) runs
        else runs))"

definition resumeWaitingRuns :: "engine_env \<Rightarrow> jstime \<Rightarrow> operations \<Rightarrow> run obj \<Rightarrow> run obj" where
  "resumeWaitingRuns env t ops runs =
     foldl (\<lambda>rs s. resumeOne env t ops s rs) runs (listRuns runs)"

end
