(* ===== verification/EngineSteps.thy ===== *)
theory EngineSteps
  imports EngineRecovery "HOL-Library.Multiset"
begin

section \<open>What a step of the engine changes\<close>

text \<open>
  What every operation of a run leaves alone (its identity, its graph, its status, the errors
  recorded so far), which ones touch the queue of events, and the two facts that follow for whole
  runs: the queue is first in first out, and an acyclic graph is always worked off.
\<close>

named_theorems keeps_intros \<open>operations that keep the frame of a run\<close>
named_theorems queue_simps \<open>operations that leave the queue of events and the waiting tasks\<close>

subsection \<open>The frame of a run\<close>

definition keeps :: "run \<Rightarrow> run \<Rightarrow> bool" where
  "keeps c c' \<longleftrightarrow>
     rHash c' = rHash c \<and> rOperationHash c' = rOperationHash c \<and> rStagingPath c' = rStagingPath c \<and>
     rRunMode c' = rRunMode c \<and> rLive c' = rLive c \<and> rStatus c' = rStatus c \<and>
     rNodeMap c' = rNodeMap c \<and> rPortLabelMap c' = rPortLabelMap c \<and>
     rConnectionMap c' = rConnectionMap c \<and> (\<exists>es. rErrors c' = rErrors c @ es)"

lemma keeps_refl [keeps_intros]: "keeps c c"
  by (simp add: keeps_def)

lemma keeps_trans: "keeps a b \<Longrightarrow> keeps b c \<Longrightarrow> keeps a c"
  by (auto simp: keeps_def)

lemma keeps_status: "keeps c c' \<Longrightarrow> rStatus c' = rStatus c"
  by (simp add: keeps_def)

lemma keeps_map: "keeps c c' \<Longrightarrow> rConnectionMap c' = rConnectionMap c"
  by (simp add: keeps_def)

lemma keeps_errors: "keeps c c' \<Longrightarrow> rErrors c \<noteq> [] \<Longrightarrow> rErrors c' \<noteq> []"
  by (auto simp: keeps_def)

lemma keeps_run_log [keeps_intros]: "keeps a c \<Longrightarrow> keeps a (run_log m c)"
  by (simp add: keeps_def run_log_def)

lemma keeps_add_effect [keeps_intros]: "keeps a c \<Longrightarrow> keeps a (add_effect e c)"
  by (simp add: keeps_def add_effect_def)

lemma keeps_add_error [keeps_intros]: "keeps a c \<Longrightarrow> keeps a (add_error n m c)"
  by (auto simp: keeps_def add_error_def)

lemma keeps_at_time [keeps_intros]: "keeps a c \<Longrightarrow> keeps a (at_time t c)"
  by (simp add: keeps_def at_time_def)

lemma keeps_recordEvent [keeps_intros]: "keeps a c \<Longrightarrow> keeps a (recordEvent n e m v c)"
  by (simp add: keeps_def recordEvent_def)

lemma keeps_last_execution [keeps_intros]: "keeps a c \<Longrightarrow> keeps a (on_last_execution n f c)"
  by (simp add: keeps_def on_last_execution_def split: option.split)

lemma keeps_pending [keeps_intros]: "keeps a c \<Longrightarrow> keeps a (c\<lparr>rPendingEvents := es\<rparr>)"
  by (simp add: keeps_def)

lemma keeps_waiting [keeps_intros]: "keeps a c \<Longrightarrow> keeps a (c\<lparr>rWaitingTasks := w\<rparr>)"
  by (simp add: keeps_def)

lemma keeps_recordTaskStart [keeps_intros]: "keeps a c \<Longrightarrow> keeps a (recordTaskStart n ev dh def c)"
  by (simp add: keeps_def recordTaskStart_def add_effect_def Let_def)

lemma keeps_recordTaskComplete [keeps_intros]: "keeps a c \<Longrightarrow> keeps a (recordTaskComplete n res c)"
  by (simp add: recordTaskComplete_def keeps_intros)

lemma keeps_recordTaskError [keeps_intros]: "keeps a c \<Longrightarrow> keeps a (recordTaskError n m c)"
  by (simp add: recordTaskError_def keeps_intros)

lemma keeps_writeManifest [keeps_intros]: "keeps a c \<Longrightarrow> keeps a (writeManifest env c)"
  by (simp add: writeManifest_def keeps_intros)

lemma keeps_checkpoint [keeps_intros]: "keeps a c \<Longrightarrow> keeps a (checkpoint env c)"
  by (simp add: checkpoint_def keeps_intros)

lemma keeps_merge [keeps_intros]: "keeps a c \<Longrightarrow> keeps a (merge_outputs env n outs c)"
  by (simp add: keeps_def merge_outputs_def split: prod.split)

lemma setTaskField_fields:
  "rPendingEvents (fst (setTaskField env n p v c)) = rPendingEvents c"
  "rWaitingTasks (fst (setTaskField env n p v c)) = rWaitingTasks c"
  "keeps a c \<Longrightarrow> keeps a (fst (setTaskField env n p v c))"
  by (simp_all add: setTaskField_def Let_def keeps_def split: option.split)

lemma keeps_setAddress [keeps_intros]: "keeps a c \<Longrightarrow> keeps a (fst (setAddress env ad v c n))"
  by (simp add: setAddress_def Let_def setTaskField_fields split: option.split)
    (simp add: keeps_def)

lemma keeps_writeStates [keeps_intros]: "keeps a c \<Longrightarrow> keeps a (writeStates env n ws c)"
  by (induction env n ws c rule: writeStates.induct) (auto intro: keeps_intros)

lemma keeps_enqueue [keeps_intros]: "keeps a c \<Longrightarrow> keeps a (enqueueDownstreamEvents n e c)"
  by (simp add: enqueueDownstreamEvents_def Let_def keeps_intros)

lemma keeps_log_lines [keeps_intros]: "keeps a c \<Longrightarrow> keeps a (foldl (\<lambda>c l. run_log (f l) c) c ls)"
  by (induction ls arbitrary: c) (auto intro: keeps_intros)

subsection \<open>The queue of events\<close>

lemma queue_basic [queue_simps]:
  "rPendingEvents (run_log m c) = rPendingEvents c" "rWaitingTasks (run_log m c) = rWaitingTasks c"
  "rPendingEvents (add_effect ef c) = rPendingEvents c"
  "rWaitingTasks (add_effect ef c) = rWaitingTasks c"
  "rPendingEvents (add_error x m c) = rPendingEvents c"
  "rWaitingTasks (add_error x m c) = rWaitingTasks c"
  "rPendingEvents (at_time t c) = rPendingEvents c" "rWaitingTasks (at_time t c) = rWaitingTasks c"
  "rPendingEvents (recordEvent n e m v c) = rPendingEvents c"
  "rWaitingTasks (recordEvent n e m v c) = rWaitingTasks c"
  by (simp_all add: run_log_def add_effect_def add_error_def at_time_def recordEvent_def)

lemma queue_last_execution [queue_simps]:
  "rPendingEvents (on_last_execution n f c) = rPendingEvents c"
  "rWaitingTasks (on_last_execution n f c) = rWaitingTasks c"
  by (simp_all add: on_last_execution_def split: option.split)

lemma queue_recordTaskStart [queue_simps]:
  "rPendingEvents (recordTaskStart n ev dh def c) = rPendingEvents c"
  "rWaitingTasks (recordTaskStart n ev dh def c) = rWaitingTasks c"
  by (simp_all add: recordTaskStart_def add_effect_def Let_def)

lemma queue_recordTaskComplete [queue_simps]:
  "rPendingEvents (recordTaskComplete n res c) = rPendingEvents c"
  "rWaitingTasks (recordTaskComplete n res c) = rWaitingTasks c"
  by (simp_all add: recordTaskComplete_def queue_simps)

lemma queue_recordTaskError [queue_simps]:
  "rPendingEvents (recordTaskError n m c) = rPendingEvents c"
  "rWaitingTasks (recordTaskError n m c) = rWaitingTasks c"
  by (simp_all add: recordTaskError_def queue_simps)

lemma queue_writes [queue_simps]:
  "rPendingEvents (writeManifest env c) = rPendingEvents c"
  "rWaitingTasks (writeManifest env c) = rWaitingTasks c"
  "rPendingEvents (checkpoint env c) = rPendingEvents c"
  "rWaitingTasks (checkpoint env c) = rWaitingTasks c"
  by (simp_all add: writeManifest_def checkpoint_def queue_simps)

lemma queue_merge [queue_simps]:
  "rPendingEvents (merge_outputs env n outs c) = rPendingEvents c"
  "rWaitingTasks (merge_outputs env n outs c) = rWaitingTasks c"
  by (simp_all add: merge_outputs_def split: prod.split)

lemma queue_setAddress [queue_simps]:
  "rPendingEvents (fst (setAddress env a v c n)) = rPendingEvents c"
  "rWaitingTasks (fst (setAddress env a v c n)) = rWaitingTasks c"
  by (simp_all add: setAddress_def Let_def setTaskField_fields split: option.split)

lemma queue_writeStates [queue_simps]:
  "rPendingEvents (writeStates env n ws c) = rPendingEvents c"
  "rWaitingTasks (writeStates env n ws c) = rWaitingTasks c"
  by (induction env n ws c rule: writeStates.induct) (simp_all add: queue_simps)

lemma queue_log_lines [queue_simps]:
  "rPendingEvents (foldl (\<lambda>c l. run_log (f l) c) c ls) = rPendingEvents c"
  "rWaitingTasks (foldl (\<lambda>c l. run_log (f l) c) c ls) = rWaitingTasks c"
  by (induction ls arbitrary: c) (simp_all add: queue_simps)

lemma waiting_enqueue [queue_simps]:
  "rWaitingTasks (enqueueDownstreamEvents n e c) = rWaitingTasks c"
  by (simp add: enqueueDownstreamEvents_def Let_def queue_simps)

subsection \<open>One step\<close>

text \<open>Only events of a node's own outgoing connections enter the queue when its task ends.\<close>

lemma downstream_keeps:
  "keeps c c' \<Longrightarrow> getDownstreamEvents n e c' = getDownstreamEvents n e c"
  by (simp add: keeps_def getDownstreamEvents_def connections_from_def target_event_def [abs_def])

lemma keeps_storeResult [keeps_intros]: "keeps a c \<Longrightarrow> keeps a (storeResult env n res c)"
  by (auto simp: storeResult_def Let_def intro!: keeps_intros split: option.split)

lemma queue_storeResult [queue_simps]:
  "rPendingEvents (storeResult env n res c) = rPendingEvents c"
  "rWaitingTasks (storeResult env n res c) = rWaitingTasks c"
  by (simp_all add: storeResult_def Let_def queue_simps split: option.split)

lemma finishTask_keeps: "keeps a c \<Longrightarrow> keeps a (finishTask env n r c)"
  by (auto simp: finishTask_def taskFailed_def taskWaits_def taskCompletes_def fireResult_def Let_def
      intro!: keeps_intros split: task_reply.split option.split)

lemma fireResult_pending:
  "\<exists>e. rPendingEvents (fireResult env n res c) = rPendingEvents c \<or>
    rPendingEvents (fireResult env n res c) = rPendingEvents c @ getDownstreamEvents n e c"
  by (auto simp: fireResult_def Let_def queue_simps enqueueDownstream_pending)

lemma finishTask_pending:
  "\<exists>new. rPendingEvents (finishTask env n r c) = rPendingEvents c @ new \<and>
    (\<exists>e. set new \<subseteq> set (getDownstreamEvents n e c))"
proof (cases r)
  case (TaskError msg)
  have "keeps c (recordEvent n ''TaskError'' (''Error in ['' @ n @ '']: '' @ msg) 0
      (recordTaskError n msg (run_log (''Task ['' @ n @ ''] error: '' @ msg) c)))"
    by (intro keeps_intros)
  then show ?thesis
    using TaskError
    by (auto simp: finishTask_def taskFailed_def enqueueDownstream_pending queue_simps downstream_keeps)
next
  case NoResult
  then show ?thesis by (simp add: finishTask_def queue_simps)
next
  case (TaskResult res)
  show ?thesis
  proof (cases "sWaitingForInput res")
    case True
    with TaskResult show ?thesis by (simp add: finishTask_def taskWaits_def queue_simps)
  next
    case False
    let ?c5 = "storeResult env n res c"
    have c5: "keeps c ?c5" by (intro keeps_intros)
    from fireResult_pending [of env n res ?c5] obtain e where
      "rPendingEvents (fireResult env n res ?c5) = rPendingEvents ?c5 \<or>
       rPendingEvents (fireResult env n res ?c5) = rPendingEvents ?c5 @ getDownstreamEvents n e ?c5"
      by blast
    with TaskResult False show ?thesis
      by (auto simp: finishTask_def taskCompletes_def queue_simps downstream_keeps [OF c5])
  qed
qed

lemma startTask_keeps: "startTask env n ev c = (c', r) \<Longrightarrow> keeps a c \<Longrightarrow> keeps a c'"
  by (auto simp: startTask_def Let_def intro!: keeps_intros split: option.splits if_splits)

lemma startTask_pending: "startTask env n ev c = (c', r) \<Longrightarrow> rPendingEvents c' = rPendingEvents c"
  by (auto simp: startTask_def Let_def queue_simps split: option.splits if_splits)


text \<open>A step keeps the frame of the run, except that an empty queue may pause it.\<close>

lemma taskStep_keeps: "taskStep env n ev r fs c = (fs', c') \<Longrightarrow> keeps a c \<Longrightarrow> keeps a c'"
  by (auto simp: taskStep_def Let_def intro!: keeps_intros finishTask_keeps split: task_run.splits)

lemma step_keeps:
  assumes "engineStep env (f # fs, c) = (fs', c')"
  shows "keeps c c' \<or> f = Queue \<and> rPendingEvents c = [] \<and> c' = pauseIfWaiting c"
proof (cases f)
  case Queue
  with assms show ?thesis
    by (auto simp: dequeueEvent_def intro!: keeps_intros split: list.splits)
next
  case (Exec e)
  with assms show ?thesis
    by (auto intro: startTask_keeps keeps_refl split: prod.splits option.splits)
next
  case (TaskFrame n ev r)
  with assms show ?thesis by (auto intro: taskStep_keeps keeps_refl)
next
  case (ResumeFrame n ev k)
  with assms show ?thesis by (auto intro: keeps_refl)
next
  case (Sub es)
  with assms show ?thesis by (cases es) (auto intro: keeps_refl)
next
  case Drain
  with assms show ?thesis by (auto intro!: keeps_intros split: list.splits)
qed

lemma pause_frame:
  "rConnectionMap (pauseIfWaiting c) = rConnectionMap c"
  "rPendingEvents (pauseIfWaiting c) = rPendingEvents c"
  "rWaitingTasks (pauseIfWaiting c) = rWaitingTasks c" "rErrors (pauseIfWaiting c) = rErrors c"
  "rStatus (pauseIfWaiting c) = (if rWaitingTasks c = [] then rStatus c else STATUS_WAITING)"
  by (simp_all add: pauseIfWaiting_def run_log_def Let_def)

lemma step_map: "engineStep env (f # fs, c) = (fs', c') \<Longrightarrow> rConnectionMap c' = rConnectionMap c"
  by (drule step_keeps) (auto simp: keeps_map pause_frame)

lemma step_errors:
  "engineStep env (f # fs, c) = (fs', c') \<Longrightarrow> rErrors c \<noteq> [] \<Longrightarrow> rErrors c' \<noteq> []"
  by (drule step_keeps) (auto simp: pause_frame dest: keeps_errors)

text \<open>The event a frame takes from the queue.\<close>

definition taken :: "frame \<Rightarrow> run \<Rightarrow> pending_event list" where
  "taken f c = (if f = Queue \<or> f = Drain then take 1 (rPendingEvents c) else [])"

lemma step_queue:
  assumes "engineStep env (f # fs, c) = (fs', c')"
  shows "\<exists>new. rPendingEvents c = taken f c @ drop (length (taken f c)) (rPendingEvents c) \<and>
    rPendingEvents c' = drop (length (taken f c)) (rPendingEvents c) @ new \<and>
    (new \<noteq> [] \<longrightarrow> (\<exists>n ev r e. f = TaskFrame n ev r \<and> set new \<subseteq> set (getDownstreamEvents n e c)))"
proof (cases f)
  case Queue
  with assms show ?thesis
    by (auto simp: taken_def dequeueEvent_def queue_simps pause_frame split: list.splits)
next
  case (Exec e)
  with assms show ?thesis
    by (auto simp: taken_def dest: startTask_pending split: prod.splits option.splits)
next
  case (TaskFrame n ev r)
  have at: "keeps c (at_time t c)" for t by (intro keeps_intros)
  show ?thesis
  proof (cases r)
    case (Reply t reply)
    obtain new e where "rPendingEvents (finishTask env n reply (at_time t c)) = rPendingEvents (at_time t c) @ new"
      "set new \<subseteq> set (getDownstreamEvents n e (at_time t c))"
      using finishTask_pending by blast
    with assms TaskFrame Reply show ?thesis
      by (auto simp: taken_def taskStep_def queue_simps downstream_keeps [OF at])
  next
    case Fire
    with assms TaskFrame show ?thesis by (auto simp: taken_def taskStep_def Let_def queue_simps)
  next
    case SetState
    with assms TaskFrame show ?thesis by (auto simp: taken_def taskStep_def Let_def queue_simps)
  qed
next
  case (ResumeFrame n ev k)
  with assms show ?thesis by (auto simp: taken_def)
next
  case (Sub es)
  with assms show ?thesis by (cases es) (auto simp: taken_def)
next
  case Drain
  with assms show ?thesis by (auto simp: taken_def split: list.splits)
qed

subsection \<open>Acyclic graphs\<close>

text \<open>
  A rank that every event connection lowers. The work left in a configuration is a multiset: an
  event in the queue, an event about to be executed, a task with what it still does, each at the
  rank of its node. Every step replaces one item by smaller ones or removes a control frame.
\<close>

definition ranked :: "(string \<Rightarrow> nat) \<Rightarrow> connection_map \<Rightarrow> bool" where
  "ranked rank m \<longleftrightarrow> (\<forall>n cns cn. oget (eventSources m) n = Some cns \<longrightarrow> cn \<in> set cns \<longrightarrow>
     rank (cTargetNodeHash cn) < rank n)"

type_synonym work_left = "nat \<times> nat \<times> (task_run + (task_context \<Rightarrow> task_run))"

inductive_set task_less :: "((task_run + (task_context \<Rightarrow> task_run)) \<times> (task_run + (task_context \<Rightarrow> task_run))) set" where
  fire: "(Inr k, Inl (Fire t e outs k)) \<in> task_less"
| resumed: "(Inl (k tc), Inr k) \<in> task_less"
| set_state: "(Inl (k tc), Inl (SetState t a v k)) \<in> task_less"

inductive_cases task_less_Reply: "(x, Inl (Reply t r)) \<in> task_less"
inductive_cases task_less_Fire: "(x, Inl (Fire t e outs k)) \<in> task_less"
inductive_cases task_less_SetState: "(x, Inl (SetState t a v k)) \<in> task_less"
inductive_cases task_less_Inr: "(x, Inr k) \<in> task_less"


lemma acc_continuation:
  assumes "\<And>tc. Inl (k tc) \<in> Wellfounded.acc task_less"
  shows "Inr k \<in> Wellfounded.acc task_less"
proof (rule accI)
  fix y
  assume "(y, Inr k) \<in> task_less"
  then show "y \<in> Wellfounded.acc task_less" by (rule task_less_Inr) (simp add: assms)
qed

lemma acc_task_less: "Inl r \<in> Wellfounded.acc task_less"
proof (induction r)
  case (Reply t r)
  show ?case
  proof (rule accI)
    fix y
    assume "(y, Inl (Reply t r)) \<in> task_less"
    then show "y \<in> Wellfounded.acc task_less" by (rule task_less_Reply)
  qed
next
  case (Fire t e outs k)
  have "Inr k \<in> Wellfounded.acc task_less" by (rule acc_continuation) (rule Fire, simp)
  show ?case
  proof (rule accI)
    fix y
    assume "(y, Inl (Fire t e outs k)) \<in> task_less"
    then show "y \<in> Wellfounded.acc task_less"
      by (rule task_less_Fire) (simp add: \<open>Inr k \<in> _\<close>)
  qed
next
  case (SetState t a v k)
  show ?case
  proof (rule accI)
    fix y
    assume "(y, Inl (SetState t a v k)) \<in> task_less"
    then show "y \<in> Wellfounded.acc task_less"
    proof (rule task_less_SetState)
      fix tc
      assume "y = Inl (k tc)"
      moreover have "Inl (k tc) \<in> Wellfounded.acc task_less" by (rule SetState) simp
      ultimately show ?thesis by simp
    qed
  qed
qed

lemma wf_task_less: "wf task_less"
proof (rule acc_wfI, rule allI)
  fix x :: "task_run + (task_context \<Rightarrow> task_run)"
  show "x \<in> Wellfounded.acc task_less"
  proof (cases x)
    case (Inl r)
    then show ?thesis by (simp add: acc_task_less)
  next
    case (Inr k)
    show ?thesis unfolding Inr by (rule acc_continuation) (rule acc_task_less)
  qed
qed

definition work_less :: "(work_left \<times> work_left) set" where
  "work_less = less_than <*lex*> less_than <*lex*> task_less"

abbreviation idle :: "task_run + (task_context \<Rightarrow> task_run)" where
  "idle \<equiv> Inl (Reply 0 NoResult)"

definition event_work :: "(string \<Rightarrow> nat) \<Rightarrow> pending_event \<Rightarrow> work_left" where
  "event_work rank e = (rank (TargetNodeHash e), 3, idle)"

fun frame_work :: "(string \<Rightarrow> nat) \<Rightarrow> frame \<Rightarrow> work_left multiset" where
  "frame_work rank (Exec e) = {#(rank (TargetNodeHash e), 2, idle)#}"
| "frame_work rank (TaskFrame n ev r) = {#(rank n, 1, Inl r)#}"
| "frame_work rank (ResumeFrame n ev k) = {#(rank n, 1, Inr k)#}"
| "frame_work rank (Sub es) = mset (map (event_work rank) es)"
| "frame_work rank _ = {#}"

definition frames_work :: "(string \<Rightarrow> nat) \<Rightarrow> frame list \<Rightarrow> work_left multiset" where
  "frames_work rank fs = sum_list (map (frame_work rank) fs)"

definition config_work :: "(string \<Rightarrow> nat) \<Rightarrow> config \<Rightarrow> work_left multiset" where
  "config_work rank cf = frames_work rank (fst cf) + mset (map (event_work rank) (rPendingEvents (snd cf)))"

definition control_frame :: "frame \<Rightarrow> bool" where
  "control_frame f = (case f of Queue \<Rightarrow> True | Drain \<Rightarrow> True | Sub es \<Rightarrow> True | _ \<Rightarrow> False)"

definition config_less :: "(string \<Rightarrow> nat) \<Rightarrow> (config \<times> config) set" where
  "config_less rank = inv_image (mult work_less <*lex*> less_than)
     (\<lambda>cf. (config_work rank cf, length (filter control_frame (fst cf))))"

lemma wf_config_less: "wf (config_less rank)"
  by (simp add: config_less_def work_less_def wf_inv_image wf_mult wf_task_less wf_lex_prod wf_less_than)

lemma frames_work_simps [simp]:
  "frames_work rank [] = {#}" "frames_work rank (f # fs) = frame_work rank f + frames_work rank fs"
  by (simp_all add: frames_work_def)

lemma less_by_item:
  assumes "config_work rank cf = I + {#a#}" "config_work rank cf' = I + K"
    and "\<And>b. b \<in># K \<Longrightarrow> (b, a) \<in> work_less"
  shows "(cf', cf) \<in> config_less rank"
  using assms one_step_implies_mult [of "{#a#}" K work_less I]
  by (simp add: config_less_def)

lemma less_by_control:
  assumes "config_work rank cf' = config_work rank cf"
    and "length (filter control_frame (fst cf')) < length (filter control_frame (fst cf))"
  shows "(cf', cf) \<in> config_less rank"
  using assms by (simp add: config_less_def)

lemma downstream_ranked:
  assumes "ranked rank (rConnectionMap c)" "e \<in> set (getDownstreamEvents n ev c)"
  shows "rank (TargetNodeHash e) < rank n"
proof -
  obtain cn where "cn \<in> set (connections_from c n)" "e = target_event c cn"
    using assms(2) by (auto simp: getDownstreamEvents_def)
  then show ?thesis
    using assms(1) unfolding ranked_def connections_from_def target_event_def
    by (cases "oget (eventSources (rConnectionMap c)) n") auto
qed

lemma step_decreases:
  assumes ranked: "ranked rank (rConnectionMap c)"
    and step: "engineStep env (f # fs, c) = (fs', c')"
  shows "((fs', c'), (f # fs, c)) \<in> config_less rank"
proof (cases f)
  case Queue
  show ?thesis
  proof (cases "rPendingEvents c")
    case Nil
    with Queue step show ?thesis
      by (intro less_by_control) (auto simp: config_work_def pause_frame control_frame_def)
  next
    case (Cons e es)
    show ?thesis
      by (rule less_by_item [where I = "frames_work rank fs + mset (map (event_work rank) es)"
            and a = "event_work rank e" and K = "{#(rank (TargetNodeHash e), 2, idle)#}"])
        (use Queue Cons step in \<open>auto simp: config_work_def dequeueEvent_def queue_simps work_less_def
          event_work_def\<close>)
  qed
next
  case (Exec e)
  obtain c1 r where start: "startTask env (TargetNodeHash e) (EventName e) c = (c1, r)" by fastforce
  let ?K = "case r of None \<Rightarrow> {#} | Some r \<Rightarrow> {#(rank (TargetNodeHash e), 1, Inl r)#}"
  show ?thesis
    by (rule less_by_item [where I = "frames_work rank fs + mset (map (event_work rank) (rPendingEvents c))"
          and a = "(rank (TargetNodeHash e), 2, idle)" and K = ?K])
      (use Exec step start startTask_pending [OF start] in
        \<open>auto simp: config_work_def work_less_def split: option.splits\<close>)
next
  case (TaskFrame n ev r)
  let ?I = "frames_work rank fs + mset (map (event_work rank) (rPendingEvents c))"
  let ?a = "(rank n, 1, Inl r) :: work_left"
  have old: "config_work rank (f # fs, c) = ?I + {#?a#}" by (simp add: TaskFrame config_work_def)
  have at: "keeps c (at_time t c)" for t by (intro keeps_intros)
  show ?thesis
  proof (cases r)
    case (Reply t reply)
    obtain new e where new: "rPendingEvents (finishTask env n reply (at_time t c)) = rPendingEvents (at_time t c) @ new"
      "set new \<subseteq> set (getDownstreamEvents n e (at_time t c))"
      using finishTask_pending by blast
    then have "rank (TargetNodeHash x) < rank n" if "x \<in> set new" for x
      using that downstream_ranked [OF ranked, of x n e] by (auto simp: downstream_keeps [OF at])
    then show ?thesis
      by (intro less_by_item [OF old, where K = "mset (map (event_work rank) new)"])
        (use TaskFrame Reply step new in
          \<open>auto simp: config_work_def taskStep_def queue_simps event_work_def work_less_def\<close>)
  next
    case (Fire t e outs k)
    let ?c1 = "merge_outputs env n outs (recordEvent n ''IntermediateEvent''
      (''Intermediate event ['' @ e @ ''] from ['' @ n @ '']'') 1 (at_time t c))"
    have "keeps c ?c1" by (intro keeps_intros)
    then have evs: "getDownstreamEvents n e ?c1 = getDownstreamEvents n e c" by (rule downstream_keeps)
    show ?thesis
      by (rule less_by_item [OF old, where
            K = "{#(rank n, 1, Inr k)#} + mset (map (event_work rank) (getDownstreamEvents n e c))"])
        (use TaskFrame Fire step evs downstream_ranked [OF ranked, of _ n e] in
          \<open>auto simp: config_work_def taskStep_def Let_def queue_simps event_work_def work_less_def
            intro: task_less.intros\<close>)
  next
    case (SetState t a v k)
    let ?c1 = "fst (setAddress env a v (at_time t c) n)"
    show ?thesis
      by (rule less_by_item [OF old, where K = "{#(rank n, 1, Inl (k (taskContext n ev ?c1)))#}"])
        (use TaskFrame SetState step in
          \<open>auto simp: config_work_def taskStep_def Let_def queue_simps work_less_def
            intro: task_less.intros\<close>)
  qed
next
  case (ResumeFrame n ev k)
  show ?thesis
    by (rule less_by_item [where I = "frames_work rank fs + mset (map (event_work rank) (rPendingEvents c))"
          and a = "(rank n, 1, Inr k)" and K = "{#(rank n, 1, Inl (k (taskContext n ev c)))#}"])
      (use ResumeFrame step in \<open>auto simp: config_work_def work_less_def intro: task_less.intros\<close>)
next
  case (Sub es)
  show ?thesis
  proof (cases es)
    case Nil
    with Sub step show ?thesis
      by (intro less_by_control) (auto simp: config_work_def control_frame_def)
  next
    case (Cons e es')
    show ?thesis
      by (rule less_by_item [where I = "frames_work rank fs + mset (map (event_work rank) es') +
              mset (map (event_work rank) (rPendingEvents c))"
            and a = "event_work rank e" and K = "{#(rank (TargetNodeHash e), 2, idle)#}"])
        (use Sub Cons step in \<open>auto simp: config_work_def event_work_def work_less_def\<close>)
  qed
next
  case Drain
  show ?thesis
  proof (cases "rPendingEvents c")
    case Nil
    with Drain step show ?thesis
      by (intro less_by_control) (auto simp: config_work_def control_frame_def)
  next
    case (Cons e es)
    show ?thesis
      by (rule less_by_item [where I = "frames_work rank fs + mset (map (event_work rank) es)"
            and a = "event_work rank e" and K = "{#(rank (TargetNodeHash e), 2, idle)#}"])
        (use Drain Cons step in \<open>auto simp: config_work_def event_work_def work_less_def\<close>)
  qed
qed

lemma engineRun_ends:
  assumes "ranked rank (rConnectionMap c)"
  shows "\<exists>c'. engineRun env (fs, c) = Some ([], c')"
proof -
  let ?P = "\<lambda>cf :: config. ranked rank (rConnectionMap (snd cf))"
  let ?b = "\<lambda>(fs, c :: run). (fs :: frame list) \<noteq> []"
  have step: "?P (engineStep env cf) \<and> (engineStep env cf, cf) \<in> config_less rank"
    if P: "?P cf" and b: "?b cf" for cf
  proof -
    obtain f fs1 c1 where cf: "cf = (f # fs1, c1)" using b by (cases cf) (auto simp: neq_Nil_conv)
    obtain fs2 c2 where s: "engineStep env (f # fs1, c1) = (fs2, c2)" by fastforce
    show ?thesis using step_decreases [of rank c1 env f fs1 fs2 c2] step_map [OF s] P s cf by simp
  qed
  have "wf {(t, cf). (?P cf \<and> ?b cf) \<and> t = engineStep env cf}"
    by (rule wf_subset [OF wf_config_less [of rank]]) (use step in auto)
  then have "\<exists>t. engineRun env (fs, c) = Some t"
    unfolding engineRun_def
    by (rule wf_while_option_Some [where P = ?P]) (use assms step in auto)
  then obtain fs' c' where t: "engineRun env (fs, c) = Some (fs', c')" by auto
  then have "fs' = []" unfolding engineRun_def by (drule_tac while_option_stop) simp
  with t show ?thesis by blast
qed

end
