(* ===== verification/EngineProperties.thy ===== *)
theory EngineProperties
  imports EngineSteps
begin

section \<open>Properties of the execution engine\<close>

text \<open>
  Whole operations: they end on acyclic graphs, the queue of events is first in first out, what
  status a run ends with, what an answer to a waiting task does and when it is refused, what a
  stall and a retry leave behind.
\<close>

subsection \<open>Ending\<close>

lemma ranked_setGraph:
  assumes "\<forall>cn \<in> set (gConnections g).
      connection_type reg (buildNodeMap g) (buildPortLabelMap g) cn = ''event'' \<longrightarrow>
      rank (cTargetNodeHash cn) < rank (cSourceNodeHash cn)"
  shows "ranked rank (buildConnectionMap reg g (buildNodeMap g) (buildPortLabelMap g))"
  unfolding ranked_def
proof (intro allI impI)
  fix n cns cn
  let ?m = "buildConnectionMap reg g (buildNodeMap g) (buildPortLabelMap g)"
  assume "oget (eventSources ?m) n = Some cns" "cn \<in> set cns"
  then have "cn \<in> set (filter (\<lambda>cn. cSourceNodeHash cn = n \<and>
      connection_type reg (buildNodeMap g) (buildPortLabelMap g) cn = ''event'') (gConnections g))"
    using foldl_addConnection(1) [of reg "buildNodeMap g" "buildPortLabelMap g"
        "\<lparr>eventSources = [], stateTargets = []\<rparr>" "gConnections g" n]
    by (simp add: buildConnectionMap_def)
  with assms show "rank (cTargetNodeHash cn) < rank n" by auto
qed

lemma processEventQueue_ends:
  "ranked rank (rConnectionMap c) \<Longrightarrow> \<exists>c'. processEventQueue env c = Some c'"
  using engineRun_ends [of rank c env "[Queue]"] by (auto simp: processEventQueue_def)

lemma prepareRun_map:
  "rConnectionMap (prepareRun env t staging d op g init suffix) =
    buildConnectionMap (vRegistry env) g (buildNodeMap g) (buildPortLabelMap g)"
  by (simp add: prepareRun_def setGraph_def run_log_def Let_def)

lemma resumeContext_result:
  "rConnectionMap (resumeContext env t n v w c) = rConnectionMap c"
  "rStatus (resumeContext env t n v w c) = STATUS_IN_PROGRESS"
  "rWaitingTasks (resumeContext env t n v w c) = odel n (rWaitingTasks c)"
  "rPendingEvents (resumeContext env t n v w c) = rPendingEvents c @
     getDownstreamEvents n (str_or (wResumeEventName w) ''ValueInputComplete'') c"
  "rErrors c \<noteq> [] \<Longrightarrow> rErrors (resumeContext env t n v w c) \<noteq> []"
proof -
  let ?e = "str_or (wResumeEventName w) ''ValueInputComplete''"
  let ?c1 = "if wOutputAddress w = [] then at_time t c
    else fst (setAddress env (wOutputAddress w) v (at_time t c) n)"
  let ?x = "on_last_execution n (touch_execution t) (merge_outputs env n (resume_fields v) ?c1)"
  let ?y = "run_log (''Input received for node ['' @ n @ ''], resuming execution (event: '' @ ?e @ '').'')
    (?x\<lparr>rWaitingTasks := odel n (rWaitingTasks ?x), rStatus := STATUS_IN_PROGRESS\<rparr>)"
  have y: "resumeContext env t n v w c = enqueueDownstreamEvents n ?e ?y"
    by (simp add: resumeContext_def Let_def)
  have x: "keeps c ?x" "rWaitingTasks ?x = rWaitingTasks c" "rPendingEvents ?x = rPendingEvents c"
    by (auto intro!: keeps_intros simp: queue_simps)
  have "getDownstreamEvents n ?e ?y = getDownstreamEvents n ?e ?x"
    by (simp add: getDownstreamEvents_def connections_from_def target_event_def [abs_def] run_log_def)
  then have down: "getDownstreamEvents n ?e ?y = getDownstreamEvents n ?e c"
    by (simp add: downstream_keeps [OF x(1)])
  show "rConnectionMap (resumeContext env t n v w c) = rConnectionMap c"
    using keeps_map [OF x(1)] by (simp add: y enqueueDownstreamEvents_def run_log_def Let_def)
  show "rStatus (resumeContext env t n v w c) = STATUS_IN_PROGRESS"
    by (simp add: y enqueueDownstreamEvents_def run_log_def Let_def)
  show "rWaitingTasks (resumeContext env t n v w c) = odel n (rWaitingTasks c)"
    by (simp add: y queue_simps x(2) run_log_def)
  show "rPendingEvents (resumeContext env t n v w c) = rPendingEvents c @ getDownstreamEvents n ?e c"
    by (simp only: y enqueueDownstream_pending down) (simp add: x(3) run_log_def)
  show "rErrors c \<noteq> [] \<Longrightarrow> rErrors (resumeContext env t n v w c) \<noteq> []"
    using keeps_errors [OF x(1)] by (simp add: y enqueueDownstreamEvents_def run_log_def Let_def)
qed

text \<open>
  C7. On a graph whose event connections form no cycle every operation ends, whatever its tasks
  return and however they use intermediate events; so does the rest of a run that is resumed.
\<close>

theorem acyclic_operation_ends:
  fixes rank :: "string \<Rightarrow> nat"
  assumes "oGraph op = Some g"
    and "\<forall>cn \<in> set (gConnections g).
      connection_type (vRegistry env) (buildNodeMap g) (buildPortLabelMap g) cn = ''event'' \<longrightarrow>
      rank (cTargetNodeHash cn) < rank (cSourceNodeHash cn)"
  shows "(\<exists>r. executeOperation env t staging d op init runs = Some r) \<and>
    (\<forall>c. getRun runs h = Some c \<longrightarrow>
      rConnectionMap c = buildConnectionMap (vRegistry env) g (buildNodeMap g) (buildPortLabelMap g) \<longrightarrow>
      (\<exists>r. resumeOperation env t h n v runs = Some r))"
proof
  note ranked = ranked_setGraph [OF assms(2)]
  have "\<exists>c'. runToEnd env (enqueueAllDownstreamEvents h (prepareRun env t staging d op g init s)) = Some c'"
    for h s
    using processEventQueue_ends [of rank "enqueueAllDownstreamEvents h (prepareRun env t staging d op g init s)" env]
      ranked by (auto simp: runToEnd_def enqueueAllDownstreamEvents_def prepareRun_map)
  then show "\<exists>r. executeOperation env t staging d op init runs = Some r"
    by (auto simp: executeOperation_def assms(1) Let_def split: option.split)
  show "\<forall>c. getRun runs h = Some c \<longrightarrow>
      rConnectionMap c = buildConnectionMap (vRegistry env) g (buildNodeMap g) (buildPortLabelMap g) \<longrightarrow>
      (\<exists>r. resumeOperation env t h n v runs = Some r)"
  proof (intro allI impI)
    fix c
    assume c: "getRun runs h = Some c"
      "rConnectionMap c = buildConnectionMap (vRegistry env) g (buildNodeMap g) (buildPortLabelMap g)"
    have "\<exists>c'. runToEnd env (resumeContext env t n v w c) = Some c'" for w
      using processEventQueue_ends [of rank "resumeContext env t n v w c" env] ranked c
      by (auto simp: runToEnd_def resumeContext_result(1))
    with c show "\<exists>r. resumeOperation env t h n v runs = Some r"
      by (auto simp: resumeOperation_def split: option.split)
  qed
qed

subsection \<open>The queue\<close>

text \<open>
  The queue of events is first in first out: a step takes at most the first event and executes
  it next, and only a task that has ended appends events, all for targets of its own node.
\<close>

theorem events_are_fifo:
  assumes "engineStep env (f # fs, c) = (fs', c')"
  shows "\<exists>new. rPendingEvents c' = drop (length (taken f c)) (rPendingEvents c) @ new \<and>
    rPendingEvents c = taken f c @ drop (length (taken f c)) (rPendingEvents c) \<and>
    map Exec (taken f c) = take (length (taken f c)) fs' \<and>
    (new \<noteq> [] \<longrightarrow> (\<exists>n ev r e. f = TaskFrame n ev r \<and> set new \<subseteq> set (getDownstreamEvents n e c)))"
proof -
  have "map Exec (taken f c) = take (length (taken f c)) fs'"
    using assms by (cases "rPendingEvents c") (auto simp: taken_def)
  then show ?thesis using step_queue [OF assms] by blast
qed

subsection \<open>How a run ends\<close>

lemma step_frames:
  assumes "engineStep env (f # fs, c) = (fs', c')"
  shows "\<exists>gs. fs' = gs @ fs \<and> (f \<noteq> Queue \<longrightarrow> Queue \<notin> set gs) \<and>
    (f = Queue \<longrightarrow> (case rPendingEvents c of
        [] \<Rightarrow> gs = [] \<and> c' = pauseIfWaiting c | e # es \<Rightarrow> gs = [Exec e, Queue]))"
proof (cases f)
  case Queue
  with assms show ?thesis by (auto split: list.splits)
next
  case (Exec e)
  with assms show ?thesis by (auto split: prod.splits option.splits)
next
  case (TaskFrame n ev r)
  with assms show ?thesis by (auto simp: taskStep_def Let_def split: task_run.splits)
next
  case (ResumeFrame n ev k)
  with assms show ?thesis by auto
next
  case (Sub es)
  with assms show ?thesis by (cases es) auto
next
  case Drain
  with assms show ?thesis by (auto split: list.splits)
qed

text \<open>A configuration of \<open>_processEventQueue\<close> started on the run \<open>c0\<close>.\<close>

definition under_way :: "run \<Rightarrow> config \<Rightarrow> bool" where
  "under_way c0 cf \<longleftrightarrow> (case cf of (fs, c) \<Rightarrow>
     rLive c = rLive c0 \<and> rRunMode c = rRunMode c0 \<and> rStagingPath c = rStagingPath c0 \<and>
     (rErrors c0 \<noteq> [] \<longrightarrow> rErrors c \<noteq> []) \<and>
     (if fs = [] then rPendingEvents c = [] \<and>
        rStatus c = (if rWaitingTasks c = [] then rStatus c0 else STATUS_WAITING)
      else (\<exists>gs. fs = gs @ [Queue] \<and> Queue \<notin> set gs) \<and> rStatus c = rStatus c0))"

lemma pause_keeps:
  "rLive (pauseIfWaiting c) = rLive c" "rRunMode (pauseIfWaiting c) = rRunMode c"
  "rStagingPath (pauseIfWaiting c) = rStagingPath c"
  by (simp_all add: pauseIfWaiting_def run_log_def Let_def)

lemma under_way_step:
  assumes "under_way c0 cf" "fst cf \<noteq> []"
  shows "under_way c0 (engineStep env cf)"
proof -
  obtain f fs c where cf: "cf = (f # fs, c)" using assms(2) by (cases cf) (auto simp: neq_Nil_conv)
  obtain fs' c' where s: "engineStep env (f # fs, c) = (fs', c')" by fastforce
  obtain new where new: "fs' = new @ fs" "f \<noteq> Queue \<Longrightarrow> Queue \<notin> set new"
    "f = Queue \<Longrightarrow> (case rPendingEvents c of
        [] \<Rightarrow> new = [] \<and> c' = pauseIfWaiting c | e # es \<Rightarrow> new = [Exec e, Queue])"
    using step_frames [OF s] by blast
  obtain gs where gs: "f # fs = gs @ [Queue]" "Queue \<notin> set gs"
    using assms(1) cf by (auto simp: under_way_def)
  show ?thesis
  proof (cases "f = Queue")
    case True
    then have fs: "fs = []" using gs by (cases gs) auto
    show ?thesis
    proof (cases "rPendingEvents c")
      case Nil
      with True new fs assms(1) s cf show ?thesis
        by (simp add: under_way_def pause_keeps pause_frame)
    next
      case (Cons e es)
      then have "keeps c c'" using step_keeps [OF s] by auto
      moreover have "fs' = [Exec e] @ [Queue]" using new True fs Cons by simp
      moreover have "Queue \<notin> set [Exec e]" by simp
      ultimately show ?thesis
        using assms(1) s cf by (fastforce simp: under_way_def keeps_def)
    qed
  next
    case False
    then obtain gs' where "gs = f # gs'" "fs = gs' @ [Queue]" using gs by (cases gs) auto
    then have "fs' = (new @ gs') @ [Queue]" "Queue \<notin> set (new @ gs')" using new gs False by auto
    moreover have "keeps c c'" using step_keeps [OF s] False by auto
    ultimately show ?thesis
      using assms(1) s cf by (fastforce simp: under_way_def keeps_def)
  qed
qed

lemma processEventQueue_result:
  assumes "processEventQueue env c = Some c'"
  shows "under_way c ([], c')"
proof -
  obtain fs where run: "engineRun env ([Queue], c) = Some (fs, c')"
    using assms by (auto simp: processEventQueue_def)
  have init: "under_way c ([Queue], c)" by (simp add: under_way_def)
  have "under_way c (fs, c')"
    using while_option_rule [where P = "under_way c" and b = "\<lambda>(fs, c). fs \<noteq> []" and c = "engineStep env"]
      run init unfolding engineRun_def by (force intro: under_way_step)
  moreover have "fs = []"
    using while_option_stop [OF run [unfolded engineRun_def]] by simp
  ultimately show ?thesis by simp
qed

lemma frame_log [simp]:
  "rPendingEvents (run_log m c) = rPendingEvents c"
  "rWaitingTasks (run_log m c) = rWaitingTasks c"
  "rErrors (run_log m c) = rErrors c"
  "rTaskOutputs (run_log m c) = rTaskOutputs c"
  "rStatus (run_log m c) = rStatus c"
  "rLive (run_log m c) = rLive c"
  "rRunMode (run_log m c) = rRunMode c"
  "rStagingPath (run_log m c) = rStagingPath c"
  "rTaskManifests (run_log m c) = rTaskManifests c"
  by (simp_all add: run_log_def)

lemma frame_effect [simp]:
  "rPendingEvents (add_effect e c) = rPendingEvents c"
  "rWaitingTasks (add_effect e c) = rWaitingTasks c"
  "rErrors (add_effect e c) = rErrors c"
  "rTaskOutputs (add_effect e c) = rTaskOutputs c"
  "rStatus (add_effect e c) = rStatus c"
  "rLive (add_effect e c) = rLive c"
  "rRunMode (add_effect e c) = rRunMode c"
  "rStagingPath (add_effect e c) = rStagingPath c"
  "rTaskManifests (add_effect e c) = rTaskManifests c"
  by (simp_all add: add_effect_def)

lemma frame_manifest [simp]:
  "rPendingEvents (writeManifest env c) = rPendingEvents c"
  "rWaitingTasks (writeManifest env c) = rWaitingTasks c"
  "rErrors (writeManifest env c) = rErrors c"
  "rTaskOutputs (writeManifest env c) = rTaskOutputs c"
  "rStatus (writeManifest env c) = rStatus c"
  "rLive (writeManifest env c) = rLive c"
  "rRunMode (writeManifest env c) = rRunMode c"
  "rStagingPath (writeManifest env c) = rStagingPath c"
  "rTaskManifests (writeManifest env c) = rTaskManifests c"
  by (simp_all add: writeManifest_def)

lemma frame_persist [simp]:
  "rPendingEvents (persistManifestViaBridge env c) = rPendingEvents c"
  "rWaitingTasks (persistManifestViaBridge env c) = rWaitingTasks c"
  "rErrors (persistManifestViaBridge env c) = rErrors c"
  "rTaskOutputs (persistManifestViaBridge env c) = rTaskOutputs c"
  "rStatus (persistManifestViaBridge env c) = rStatus c"
  "rLive (persistManifestViaBridge env c) = rLive c"
  "rRunMode (persistManifestViaBridge env c) = rRunMode c"
  "rStagingPath (persistManifestViaBridge env c) = rStagingPath c"
  "rTaskManifests (persistManifestViaBridge env c) = rTaskManifests c"
  by (simp_all add: persistManifestViaBridge_def)

lemma frame_log_file [simp]:
  "rPendingEvents (writeLogFile env c) = rPendingEvents c"
  "rWaitingTasks (writeLogFile env c) = rWaitingTasks c"
  "rErrors (writeLogFile env c) = rErrors c"
  "rTaskOutputs (writeLogFile env c) = rTaskOutputs c"
  "rStatus (writeLogFile env c) = rStatus c"
  "rLive (writeLogFile env c) = rLive c"
  "rRunMode (writeLogFile env c) = rRunMode c"
  "rStagingPath (writeLogFile env c) = rStagingPath c"
  "rTaskManifests (writeLogFile env c) = rTaskManifests c"
  by (simp_all add: writeLogFile_def Let_def)

lemma frame_snapshots [simp]:
  "rPendingEvents (writeStateSnapshots env c) = rPendingEvents c"
  "rWaitingTasks (writeStateSnapshots env c) = rWaitingTasks c"
  "rErrors (writeStateSnapshots env c) = rErrors c"
  "rTaskOutputs (writeStateSnapshots env c) = rTaskOutputs c"
  "rStatus (writeStateSnapshots env c) = rStatus c"
  "rLive (writeStateSnapshots env c) = rLive c"
  "rRunMode (writeStateSnapshots env c) = rRunMode c"
  "rStagingPath (writeStateSnapshots env c) = rStagingPath c"
  "rTaskManifests (writeStateSnapshots env c) = rTaskManifests c"
  by (simp_all add: writeStateSnapshots_def Let_def)

lemma frame_cleanup [simp]:
  "rPendingEvents (cleanupWorkingFiles c) = rPendingEvents c"
  "rWaitingTasks (cleanupWorkingFiles c) = rWaitingTasks c"
  "rErrors (cleanupWorkingFiles c) = rErrors c"
  "rTaskOutputs (cleanupWorkingFiles c) = rTaskOutputs c"
  "rStatus (cleanupWorkingFiles c) = rStatus c"
  "rLive (cleanupWorkingFiles c) = rLive c"
  "rRunMode (cleanupWorkingFiles c) = rRunMode c"
  "rStagingPath (cleanupWorkingFiles c) = rStagingPath c"
  "rTaskManifests (cleanupWorkingFiles c) = rTaskManifests c"
  by (simp_all add: cleanupWorkingFiles_def)

lemma finalize_frame:
  "rPendingEvents (finalizeExecution env c) = rPendingEvents c"
  "rWaitingTasks (finalizeExecution env c) = rWaitingTasks c"
  "rErrors (finalizeExecution env c) = rErrors c"
  "rTaskOutputs (finalizeExecution env c) = rTaskOutputs c"
  "rStatus (finalizeExecution env c) = final_status c"
  "rLive (finalizeExecution env c) = (rLive c \<and> isWaiting (final_status c))"
  "rStagingPath (finalizeExecution env c) = rStagingPath c"
  "rTaskManifests (finalizeExecution env c) = rTaskManifests c"
  by (simp_all add: finalizeExecution_def Let_def)

lemma final_status_frame:
  "rErrors c = rErrors d \<Longrightarrow> rTaskOutputs c = rTaskOutputs d \<Longrightarrow>
    has_stalled c = has_stalled d \<and> has_unhandled_error c = has_unhandled_error d"
  by (simp add: has_stalled_def has_unhandled_error_def)

text \<open>
  C20. A run whose queue has been worked off has no event left and ends as Stalled if a node is
  marked so, else as Failed if an error was recorded, else as Waiting if a task waits, else as
  Complete. It stays live only while it waits. No other status is ever the outcome: in particular
  a run that is abandoned while one of its tasks is under way ends as one of these.
\<close>

theorem run_outcome:
  assumes "runToEnd env c = Some c'" "\<not> isWaiting (rStatus c)"
  shows "rPendingEvents c' = [] \<and>
    rStatus c' = (if has_stalled c' then STATUS_STALLED
      else if has_unhandled_error c' then STATUS_FAILED
      else if rWaitingTasks c' \<noteq> [] then STATUS_WAITING else STATUS_COMPLETE) \<and>
    rLive c' = (rLive c \<and> rStatus c' = STATUS_WAITING)"
proof -
  obtain d where d: "processEventQueue env c = Some d" and c': "c' = finalizeExecution env d"
    using assms(1) by (auto simp: runToEnd_def)
  note r = processEventQueue_result [OF d]
  have status: "rStatus c' = (if has_stalled c' then STATUS_STALLED
      else if has_unhandled_error c' then STATUS_FAILED
      else if rWaitingTasks c' \<noteq> [] then STATUS_WAITING else STATUS_COMPLETE)"
    using r assms(2) final_status_frame [of c' d]
    by (simp add: c' finalize_frame final_status_def under_way_def)
  have "isWaiting (rStatus c') \<longleftrightarrow> rStatus c' = STATUS_WAITING"
    unfolding status using status_distinct by (auto simp del: status_distinct)
  then show ?thesis
    using r status by (simp add: c' finalize_frame under_way_def)
qed

lemma errors_end_failed:
  assumes "runToEnd env c = Some c'" "rErrors c \<noteq> []"
  shows "rStatus c' \<in> {STATUS_FAILED, STATUS_STALLED} \<and> \<not> rLive c'"
proof -
  obtain d where d: "processEventQueue env c = Some d" "c' = finalizeExecution env d"
    using assms(1) by (auto simp: runToEnd_def)
  then have "rErrors d \<noteq> []"
    using processEventQueue_result [OF d(1)] assms(2) by (simp add: under_way_def)
  then have st: "rStatus c' \<in> {STATUS_FAILED, STATUS_STALLED}"
    by (simp add: d finalize_frame final_status_def has_unhandled_error_def)
  then have "\<not> isWaiting (rStatus c')" by auto
  with st show ?thesis by (simp add: d finalize_frame)
qed

lemma taskFailed_errors:
  "has_execution n c \<Longrightarrow> rErrors (taskFailed n msg c) \<noteq> []"
proof -
  assume "has_execution n c"
  then have "has_execution n (run_log (''Task ['' @ n @ ''] error: '' @ msg) c)"
    by (simp add: has_execution_def run_log_def)
  then have "rErrors (recordTaskError n msg (run_log (''Task ['' @ n @ ''] error: '' @ msg) c)) \<noteq> []"
    by (simp add: recordTaskError_def add_effect_def add_error_def)
  then show ?thesis
    unfolding taskFailed_def by (rule keeps_errors [rotated]) (intro keeps_intros)
qed

text \<open>
  Errors are final. A task that calls back with an error is recorded as an error of the run
  even where its Error port is connected, and a run with an error ends Failed (or Stalled) and not
  live; an answer to a task that still waits in it is refused and changes nothing.
\<close>

theorem errors_are_final:
  assumes "has_execution m c" "runToEnd env (taskFailed m msg c) = Some c'"
  shows "rStatus c' \<in> {STATUS_FAILED, STATUS_STALLED} \<and> \<not> rLive c' \<and>
    (\<exists>e. resumeOperation env t h n v (oset h c' runs) = Some (oset h c' runs, EngineError e)) \<and>
    (\<exists>e. forceErrorOnWaitingTask env t h n (oset h c' runs) = Some (oset h c' runs, EngineError e))"
proof -
  note ended = errors_end_failed [OF assms(2) taskFailed_errors [OF assms(1)]]
  then have "\<not> isWaiting (rStatus c')" by auto
  with ended show ?thesis
    by (simp add: resumeOperation_def forceErrorOnWaitingTask_def getRun_def obj_simps)
qed

subsection \<open>Starting\<close>

lemma has_none_fresh: "rErrors c = [] \<Longrightarrow> rTaskOutputs c = [] \<Longrightarrow>
    \<not> isWaiting (rStatus c) \<Longrightarrow> final_status c = STATUS_COMPLETE"
  by (simp add: final_status_def has_stalled_def has_unhandled_error_def)

text \<open>
  An operation whose graph has no start node is refused, but its run is stored as Complete and
  not live: finalizing overwrites the status Error that was set just before.
\<close>

theorem run_without_start:
  assumes "oGraph op = Some g" "\<forall>nd \<in> set (gNodes g). nType nd \<noteq> ''start''"
  shows "\<exists>c. executeOperation env t staging d op init runs =
      Some (oset (run_hash (oHash op) t) c runs, EngineError ''No Start node found in the graph.'') \<and>
    rStatus c = STATUS_COMPLETE \<and> \<not> rLive c"
proof -
  let ?c = "prepareRun env t staging d op g init ''.''"
  have none: "findStartNode ?c = None"
    using assms(2)
    by (auto simp: findStartNode_def prepareRun_def setGraph_def seedRun_def run_log_def Let_def find_None_iff)
  have hash: "rHash ?c = run_hash (oHash op) t"
    by (simp add: prepareRun_def setGraph_def seedRun_def createExecutionContext_def run_log_def Let_def)
  have fresh: "rErrors ?c = []" "rTaskOutputs ?c = []"
    by (simp_all add: prepareRun_def setGraph_def seedRun_def createExecutionContext_def run_log_def Let_def)
  have "final_status (run_log ''No Start node found in the graph.'' (?c\<lparr>rStatus := STATUS_ERROR\<rparr>)) = STATUS_COMPLETE"
    using fresh by (intro has_none_fresh) simp_all
  then have "rStatus (noStart env ?c) = STATUS_COMPLETE" "\<not> rLive (noStart env ?c)"
    by (simp_all add: noStart_def finalize_frame)
  then show ?thesis
    using assms(1) none hash by (auto simp: executeOperation_def Let_def)
qed

lemma prepareRun_fields:
  "rHash (prepareRun env t staging d op g init s) = run_hash (oHash op) t"
  "rStagingPath (prepareRun env t staging d op g init s) = staging"
  "rStatus (prepareRun env t staging d op g init s) = STATUS_IN_PROGRESS"
  by (simp_all add: prepareRun_def setGraph_def seedRun_def createExecutionContext_def run_log_def Let_def)

lemma startOperationAsync_run:
  assumes "startOperationAsync env t staging d op init runs = (runs', EngineRun c)"
  shows "rHash c = run_hash (oHash op) t \<and> runs' = oset (run_hash (oHash op) t) c runs \<and>
    rStagingPath c = staging \<and> rStatus c = STATUS_IN_PROGRESS"
  using assms
  by (auto simp: startOperationAsync_def prepareRun_fields enqueueAllDownstreamEvents_def Let_def
      split: option.splits)

text \<open>
  Two runs of one operation that are started within the same millisecond have the same hash:
  the table keeps the second only, and an answer to a task of the first goes to the second.
\<close>

theorem runs_share_hash:
  assumes "startOperationAsync env t s1 d op i1 runs = (runs1, EngineRun c1)"
    and "startOperationAsync env t s2 d op i2 runs1 = (runs2, EngineRun c2)"
  shows "rHash c1 = rHash c2 \<and> getRun runs2 (rHash c1) = Some c2 \<and> length runs2 = length runs1"
proof -
  note a = startOperationAsync_run [OF assms(1)]
  note b = startOperationAsync_run [OF assms(2)]
  have "run_hash (oHash op) t \<in> set (okeys runs1)" using a by (metis okeys_oset_set insertI1)
  with a b show ?thesis by (simp add: getRun_def obj_simps length_oset)
qed

subsection \<open>Stalling\<close>

lemma put_field_other: "is_object x \<Longrightarrow> is_object (put_field k v x)"
  by (cases x) auto

lemma jfield_put_obj: "is_obj x \<Longrightarrow> jfield (foldl (\<lambda>x (k, v). put_field k v x) x kvs) k =
    (case map_of (rev kvs) k of Some v \<Rightarrow> v | None \<Rightarrow> jfield x k)"
  by (induction kvs arbitrary: x) (auto simp: jfield_put map_add_def split: option.split)

lemma stall_marks:
  assumes "is_obj (output_or_new (rTaskOutputs c) n)" "put_output_fields n (stall_fields t info) c = Some c'"
  shows "c' = c\<lparr>rTaskOutputs := rTaskOutputs c'\<rparr> \<and> truthy (jfield (jget (rTaskOutputs c') n) ''_Stalled'') \<and>
    (\<forall>m. m \<noteq> n \<longrightarrow> jget (rTaskOutputs c') m = jget (rTaskOutputs c) m)"
proof -
  have "c' = c\<lparr>rTaskOutputs := oset n (foldl (\<lambda>x (k, v). put_field k v x)
      (output_or_new (rTaskOutputs c) n) (stall_fields t info)) (rTaskOutputs c)\<rparr>"
    using assms(2) by (auto simp: put_output_fields_def Let_def split: if_splits)
  moreover have "jfield (foldl (\<lambda>x (k, v). put_field k v x) (output_or_new (rTaskOutputs c) n)
      (stall_fields t info)) ''_Stalled'' = JBool True"
    unfolding jfield_put_obj [OF assms(1)] by (simp add: stall_fields_def)
  ultimately show ?thesis by auto
qed

lemma jget_stalled: "truthy (jfield (jget outs n) ''_Stalled'') \<Longrightarrow>
    \<exists>out \<in> set (ovals outs). truthy (jfield out ''_Stalled'')"
proof -
  assume a: "truthy (jfield (jget outs n) ''_Stalled'')"
  then obtain v where "oget outs n = Some v" by (cases "oget outs n") (simp_all add: jget_def)
  moreover from this have "v \<in> set (ovals outs)" by (force dest: oget_in)
  ultimately show ?thesis using a by (auto simp: jget_def)
qed

lemma stallOperation_result:
  assumes "getRun runs h = Some c" "\<not> isTerminal (rStatus c)"
    and "is_obj (output_or_new (rTaskOutputs c) n)"
  shows "\<exists>c'. stallOperation env t h n info runs = (oset h c' runs, EngineRun c') \<and>
    rStatus c' = STATUS_STALLED \<and> \<not> rLive c' \<and>
    rWaitingTasks c' = odel n (rWaitingTasks c) \<and>
    rPendingEvents c' = filter (\<lambda>e. TargetNodeHash e \<noteq> n) (rPendingEvents c) \<and>
    (\<forall>m. m \<noteq> n \<longrightarrow> jget (rTaskOutputs c') m = jget (rTaskOutputs c) m)"
proof -
  let ?c0 = "run_log (stall_log n) (at_time t c)"
  have c0: "is_obj (output_or_new (rTaskOutputs ?c0) n)"
    using assms(3) by (simp add: at_time_def)
  then obtain c1 where c1: "put_output_fields n (stall_fields t info) ?c0 = Some c1"
    by (auto simp: put_output_fields_def Let_def is_obj_object)
  note marks = stall_marks [OF c0 c1]
  let ?c' = "stallContext env t n c1"
  let ?exec = "on_last_execution n (close_execution t STATUS_STALLED) c1"
  have exec: "rWaitingTasks ?exec = rWaitingTasks c1" "rPendingEvents ?exec = rPendingEvents c1"
    "rTaskOutputs ?exec = rTaskOutputs c1"
    by (simp_all add: on_last_execution_def split: option.split)
  have c1_frame: "rWaitingTasks c1 = rWaitingTasks c" "rPendingEvents c1 = rPendingEvents c"
    using arg_cong [OF conjunct1 [OF marks], of rWaitingTasks]
      arg_cong [OF conjunct1 [OF marks], of rPendingEvents]
    by (simp_all add: at_time_def)
  have "has_stalled (?exec\<lparr>rWaitingTasks := w, rPendingEvents := es\<rparr>)" for w es
    using marks jget_stalled [of "rTaskOutputs c1" n] by (simp add: has_stalled_def exec)
  then have "rStatus ?c' = STATUS_STALLED"
    by (simp add: stallContext_def Let_def finalize_frame final_status_def)
  moreover from this have "\<not> rLive ?c'"
    by (simp add: stallContext_def Let_def finalize_frame)
  ultimately show ?thesis
    using assms c1 marks c1_frame exec
    by (auto simp: stallOperation_def Let_def stallContext_def finalize_frame at_time_def)
qed

text \<open>
  A stall ends a run that is not over: it is Stalled and not live, the node waits no more and
  has no event left, the outputs of other nodes and the other waiting tasks stay, and no event is
  fired. On a run that is over, and so when it is repeated, it changes nothing.
\<close>

theorem stall_ends_run:
  assumes "getRun runs h = Some c" "\<not> isTerminal (rStatus c)"
    and "is_obj (output_or_new (rTaskOutputs c) n)"
    and "stallOperation env t h n info runs = (runs', reply)"
  shows "\<exists>c'. reply = EngineRun c' \<and> runs' = oset h c' runs \<and>
    rStatus c' = STATUS_STALLED \<and> \<not> rLive c' \<and>
    rWaitingTasks c' = odel n (rWaitingTasks c) \<and>
    rPendingEvents c' = filter (\<lambda>e. TargetNodeHash e \<noteq> n) (rPendingEvents c) \<and>
    (\<forall>m. m \<noteq> n \<longrightarrow> jget (rTaskOutputs c') m = jget (rTaskOutputs c) m) \<and>
    stallOperation env t' h n' info' runs' = (runs', EngineRun c')"
proof -
  obtain c' where c': "stallOperation env t h n info runs = (oset h c' runs, EngineRun c')"
    "rStatus c' = STATUS_STALLED" and more: "\<not> rLive c' \<and>
      rWaitingTasks c' = odel n (rWaitingTasks c) \<and>
      rPendingEvents c' = filter (\<lambda>e. TargetNodeHash e \<noteq> n) (rPendingEvents c) \<and>
      (\<forall>m. m \<noteq> n \<longrightarrow> jget (rTaskOutputs c') m = jget (rTaskOutputs c) m)"
    using stallOperation_result [OF assms(1-3)] by blast
  moreover from c' have "stallOperation env t' h n' info' (oset h c' runs) = (oset h c' runs, EngineRun c')"
    by (simp add: stallOperation_def getRun_def obj_simps)
  ultimately show ?thesis using assms(4) by auto
qed

subsection \<open>Answering a waiting task\<close>

lemma touch_frame:
  "rTaskOutputs (on_last_execution n f c) = rTaskOutputs c" "rDisk (on_last_execution n f c) = rDisk c"
  "rStagingPath (on_last_execution n f c) = rStagingPath c"
  by (simp_all add: on_last_execution_def split: option.split)

lemma enqueue_frame:
  "rTaskOutputs (enqueueDownstreamEvents n e c) = rTaskOutputs c" "rDisk (enqueueDownstreamEvents n e c) = rDisk c"
  "rStagingPath (enqueueDownstreamEvents n e c) = rStagingPath c" "rStatus (enqueueDownstreamEvents n e c) = rStatus c"
  by (simp_all add: enqueueDownstreamEvents_def run_log_def Let_def)

lemma merge_outputs_read_back:
  assumes "is_obj (output_or_new (rTaskOutputs c) n)"
    and "distinct (map (safeSegment \<circ> fst) kvs)" "\<forall>(k, v) \<in> set kvs. \<not> isOutputRef v"
    and "c' = merge_outputs env n kvs c"
  shows "\<forall>(k, v) \<in> set kvs.
      materializeRefValue (rDisk c') (rStagingPath c') (jfield (jget (rTaskOutputs c') n) k) = v"
    and "m \<noteq> n \<Longrightarrow> jget (rTaskOutputs c') m = jget (rTaskOutputs c) m"
    and "rStagingPath c' = rStagingPath c"
proof -
  obtain outs d where m: "mergeAndLift (vWritable env) (vThreshold env) (rStagingPath c) n kvs
      (rTaskOutputs c) (rDisk c) = (outs, d)" by fastforce
  have c': "c' = c\<lparr>rTaskOutputs := outs, rDisk := d\<rparr>"
    by (simp add: assms(4) merge_outputs_def m)
  from mergeAndLift_spec [OF m assms(1-3)] c'
  show "\<forall>(k, v) \<in> set kvs.
      materializeRefValue (rDisk c') (rStagingPath c') (jfield (jget (rTaskOutputs c') n) k) = v"
    and "m \<noteq> n \<Longrightarrow> jget (rTaskOutputs c') m = jget (rTaskOutputs c) m"
    and "rStagingPath c' = rStagingPath c"
    by simp_all
qed


end
