(* ===== verification/HubEngine.thy ===== *)
theory HubEngine
  imports OutcomeProperties EngineProperties
begin

section \<open>The coordinator and the engine together\<close>

text \<open>
  When the outcome of a work item belongs to a run, the coordinator calls the engine and waits for
  its answer before it drops the item. In \<open>WorkOutcome\<close> the calls are effects and the answer is an
  operation of its own; here the calls are carried out on the table of runs, and the answer goes
  back to the coordinator: \<open>completeForRun\<close>, \<open>failForRun\<close> and \<open>stallForRun\<close> are the handlers of the
  coordinator with the engine behind them. The theorems say what the two sides then agree on.
\<close>

subsection \<open>Calls to the engine\<close>

definition on_run :: "string \<Rightarrow> (run \<Rightarrow> run) \<Rightarrow> run obj \<Rightarrow> run obj" where
  "on_run h f runs = (case getRun runs h of None \<Rightarrow> runs | Some c \<Rightarrow> oset h (f c) runs)"

definition set_resume_event :: "string \<Rightarrow> string \<Rightarrow> run \<Rightarrow> run" where
  "set_resume_event n e c = (case oget (rWaitingTasks c) n of
     None \<Rightarrow> c
   | Some w \<Rightarrow> c\<lparr>rWaitingTasks := oset n (w\<lparr>wResumeEventName := e\<rparr>) (rWaitingTasks c)\<rparr>)"

definition stall_info_of :: "json obj \<Rightarrow> stall_info" where
  "stall_info_of info =
     \<lparr>aBeaconID = (case jget info ''BeaconID'' of JStr b \<Rightarrow> b | _ \<Rightarrow> []),
      aStalledAt = (case jget info ''StalledAt'' of JTime t \<Rightarrow> Some t | _ \<Rightarrow> None)\<rparr>"

text \<open>What one call does to the runs, with the answer where the coordinator waits for one.\<close>

fun callEngine :: "engine_env \<Rightarrow> jstime \<Rightarrow> effect \<Rightarrow> run obj \<Rightarrow> (run obj \<times> engine_reply option) option" where
  "callEngine env t (ManifestResumeEvent h n e) runs = Some (on_run h (set_resume_event n e) runs, None)"
| "callEngine env t (ManifestTaskError h n msg) runs =
     Some (on_run h (\<lambda>c. recordTaskError n msg (at_time t c)) runs, None)"
| "callEngine env t (EngineResume h n outs) runs =
     map_option (\<lambda>(runs', a). (runs', Some a)) (resumeOperation env t h n (JObj outs) runs)"
| "callEngine env t (EngineStall h n info) runs =
     (let (runs', a) = stallOperation env t h n (stall_info_of info) runs in Some (runs', Some a))"
| "callEngine env t _ runs = Some (runs, None)"

fun engine_call :: "effect \<Rightarrow> bool" where
  "engine_call (ManifestResumeEvent h n e) = True"
| "engine_call (ManifestTaskError h n msg) = True"
| "engine_call (EngineResume h n outs) = True"
| "engine_call (EngineStall h n info) = True"
| "engine_call _ = False"

fun callEngineAll :: "engine_env \<Rightarrow> jstime \<Rightarrow> effect list \<Rightarrow> run obj \<Rightarrow> (run obj \<times> engine_reply option) option" where
  "callEngineAll env t [] runs = Some (runs, None)"
| "callEngineAll env t (e # es) runs = (case callEngine env t e runs of
     None \<Rightarrow> None
   | Some (runs', a) \<Rightarrow> if es = [] then Some (runs', a) else callEngineAll env t es runs')"

text \<open>The calls a handler has made, between two states of the coordinator.\<close>

definition engine_calls :: "coord \<Rightarrow> coord \<Rightarrow> effect list" where
  "engine_calls s s' = filter engine_call (drop (length (Effects s)) (Effects s'))"

definition reply_error :: "engine_reply \<Rightarrow> string option" where
  "reply_error a = (case a of EngineRun c \<Rightarrow> None | EngineError e \<Rightarrow> Some e | EngineThrow e \<Rightarrow> Some e)"

text \<open>What the coordinator sees of the runs while it handles an outcome.\<close>

definition with_runs :: "run obj \<Rightarrow> hub_env \<Rightarrow> hub_env" where
  "with_runs runs env = env\<lparr>EngineOn := True,
     WaitingNodes := \<lambda>h. map_option (\<lambda>c. okeys (rWaitingTasks c)) (getRun runs h)\<rparr>"

definition with_engine :: "engine_env \<Rightarrow> jstime \<Rightarrow> (string option \<Rightarrow> coord \<Rightarrow> callback \<times> coord) \<Rightarrow>
    coord \<Rightarrow> callback \<times> coord \<Rightarrow> run obj \<Rightarrow> (callback \<times> coord \<times> run obj) option" where
  "with_engine eenv t finish s res runs = (case res of (cb, s') \<Rightarrow>
     (case callEngineAll eenv t (engine_calls s s') runs of
        None \<Rightarrow> None
      | Some (runs', None) \<Rightarrow> Some (cb, s', runs')
      | Some (runs', Some a) \<Rightarrow> let (cb', s'') = finish (reply_error a) s' in Some (cb', s'', runs')))"

definition completeForRun ::
    "hub_env \<Rightarrow> engine_env \<Rightarrow> string \<Rightarrow> work_result \<Rightarrow> coord \<Rightarrow> run obj \<Rightarrow> (callback \<times> coord \<times> run obj) option" where
  "completeForRun env eenv h r s runs =
     with_engine eenv (Now env) (resumeFinished h) s (completeWorkItem (with_runs runs env) h r s) runs"

definition failForRun ::
    "hub_env \<Rightarrow> engine_env \<Rightarrow> string \<Rightarrow> string \<Rightarrow> json list \<Rightarrow> coord \<Rightarrow> run obj \<Rightarrow>
      (callback \<times> coord \<times> run obj) option" where
  "failForRun env eenv h msg lg s runs =
     with_engine eenv (Now env) (resumeFinished h) s (failWorkItem (with_runs runs env) h msg lg s) runs"

definition stallForRun ::
    "hub_env \<Rightarrow> engine_env \<Rightarrow> string \<Rightarrow> coord \<Rightarrow> run obj \<Rightarrow> (callback \<times> coord \<times> run obj) option" where
  "stallForRun env eenv h s runs =
     with_engine eenv (Now env) (stallFinished h) s (stallWorkItem (with_runs runs env) h s) runs"

subsection \<open>A freed slot makes no call to the engine\<close>

definition quiet :: "coord \<Rightarrow> coord \<Rightarrow> bool" where
  "quiet s s' \<longleftrightarrow> (\<exists>es. Effects s' = Effects s @ es \<and> filter engine_call es = [])"

named_theorems quiet_intros \<open>handlers that make no call to the engine\<close>

lemma quiet_refl [simp, quiet_intros]: "quiet s s"
  by (simp add: quiet_def)

lemma quiet_trans: "quiet s s' \<Longrightarrow> quiet s' s'' \<Longrightarrow> quiet s s''"
  by (auto simp: quiet_def)

lemma quiet_same: "Effects s'' = Effects s' \<Longrightarrow> quiet s s' \<Longrightarrow> quiet s s''"
  by (simp add: quiet_def)

lemma quiet_push_to: "push_to env ph b h w s = (ok, w', s') \<Longrightarrow> quiet s s'"
  by (auto simp: push_to_def quiet_def emit_def Let_def split: prod.splits)

lemma quiet_emit: "filter engine_call es = [] \<Longrightarrow> quiet s (emit_when b es s)"
  unfolding quiet_def emit_when_def by (rule exI [of _ "if b then es else []"]) simp

lemma calls_if: "filter engine_call (JournalAppend a b # (if x then es else [])) = [] \<longleftrightarrow>
    (x \<longrightarrow> filter engine_call es = [])"
  by simp

lemma calls_option: "filter engine_call (case x of None \<Rightarrow> [] | Some bd \<Rightarrow> [JournalAppend a (f bd)]) = []"
  by (cases x) simp_all

lemma quiet_claim: "quiet s (journal_claim env w b s)"
  unfolding journal_claim_def by (rule quiet_emit) (simp only: calls_if calls_option simp_thms)

lemma Effects_bind [simp]: "Effects (bind_affinity env w b s) = Effects s"
  by (simp add: bind_affinity_def)

lemma quiet_pushAssigned: "quiet s (snd (pushAssignedWorkItem env h s))"
proof -
  have "quiet s (snd (let (ok, w', s') = push_to env ph b h w s
      in if ok then (True, s') else (False, set_item h (w'\<lparr>Status := Assigned\<rparr>) s')))" for ph b w
    by (cases "push_to env ph b h w s") (auto dest: quiet_push_to intro: quiet_same)
  then show ?thesis by (auto simp: pushAssignedWorkItem_def split: option.split)
qed

lemma quiet_tryPushOne: "quiet s (snd (tryPushOne env ph h k bcn w s))"
proof -
  let ?w1 = "push_claim env bcn w"
  let ?s2 = "bind_affinity env ?w1 (BeaconID bcn)
    (set_beacon k (bcn\<lparr>CurrentWorkItems := CurrentWorkItems bcn @ [WorkItemHash w]\<rparr>) (set_item h ?w1 s))"
  obtain ok w2 s3 where p: "push_to env ph (BeaconID bcn) h ?w1 ?s2 = (ok, w2, s3)" by (rule prod_cases3)
  have "quiet s ?s2" by (rule quiet_same [OF _ quiet_refl]) simp
  then have s3: "quiet s s3" using quiet_push_to [OF p] by (rule quiet_trans)
  then have "quiet s (journal_claim env w2 (BeaconID bcn) s3)" using quiet_claim by (rule quiet_trans)
  with s3 p show ?thesis by (auto simp: tryPushOne_def Let_def intro: quiet_same)
qed

lemma quiet_tryPushLoop: "quiet s (snd (tryPushLoop env ph h ks s))"
proof (induction ks arbitrary: s)
  case (Cons k ks)
  have "quiet s (snd (case tryPushOne env ph h k bcn w s of
      (True, s') \<Rightarrow> (True, s') | (False, s') \<Rightarrow> tryPushLoop env ph h ks s'))" for bcn w
    using quiet_tryPushOne [of s env ph h k bcn w] Cons.IH
    by (auto split: prod.split bool.split intro: quiet_trans)
  with Cons.IH show ?case by (auto split: option.split)
qed simp

lemma quiet_dispatchLoop: "quiet s (dispatchLoop env hs s)"
proof (induction hs arbitrary: s)
  case (Cons h hs)
  have "quiet s (snd (tryPushToWebSocketBeacon env h s))" for s
    by (simp add: tryPushToWebSocketBeacon_def quiet_tryPushLoop split: option.split)
  then have "quiet s (case oget (WorkQueue s) h of None \<Rightarrow> s
      | Some w \<Rightarrow>
          (if Status w = Assigned \<and> AssignedBeaconID w \<noteq> None then snd (pushAssignedWorkItem env h s)
           else if Status w \<noteq> Pending \<or> AssignedBeaconID w \<noteq> None then s
           else snd (tryPushToWebSocketBeacon env h s)))"
    by (simp add: quiet_pushAssigned split: option.split)
  from quiet_trans [OF this Cons.IH] show ?case by simp
qed simp

lemma quiet_remove: "quiet s (removeWorkItemFromBeacon env bo h s)"
proof -
  have "quiet s (dispatchPendingWorkItems env (set_beacon b bcn s))" for b bcn
    by (rule quiet_trans [OF quiet_same [OF _ quiet_refl, of "set_beacon b bcn s"]])
      (simp_all add: dispatchPendingWorkItems_def quiet_dispatchLoop split: option.split)
  then show ?thesis by (simp add: removeWorkItemFromBeacon_def split: option.split)
qed

lemma quiet_calls: "quiet s s' \<Longrightarrow> engine_calls s (emit_when True es s') = filter engine_call es"
  by (auto simp: quiet_def engine_calls_def emit_when_def)


lemma quiet_calls_emit: "quiet s s' \<Longrightarrow> engine_call e \<Longrightarrow> engine_calls s (emit e s') = [e]"
  by (auto simp: quiet_def engine_calls_def emit_def)

text \<open>The calls of the three handlers on a live item of a run.\<close>

definition beacon_of :: "work_item \<Rightarrow> string" where
  "beacon_of w = (case AssignedBeaconID w of None \<Rightarrow> [] | Some b \<Rightarrow> b)"

definition result_fields :: "work_result \<Rightarrow> work_item \<Rightarrow> json obj" where
  "result_fields r w = oset ''BeaconID'' (JStr (beacon_of w)) (Outputs r)"

definition no_caller :: "string \<Rightarrow> coord \<Rightarrow> bool" where
  "no_caller h s \<longleftrightarrow> oget (StreamDispatchHandlers s) h = None \<and> oget (DirectDispatchCallbacks s) h = None"

lemma with_runs_simps [simp]:
  "EngineOn (with_runs runs env)" "Now (with_runs runs env) = Now env"
  "WaitingNodes (with_runs runs env) h = map_option (\<lambda>c. okeys (rWaitingTasks c)) (getRun runs h)"
  by (simp_all add: with_runs_def)

lemma settle_engine: "RunHash w \<noteq> [] \<Longrightarrow> EngineOn env \<Longrightarrow> no_caller h s \<Longrightarrow>
    settle env h res w f s = (CbDeferred, f s)"
  by (simp add: settle_def resolveStreamDispatch_def resolveDirectDispatch_def no_caller_def)

lemma quiet_outcome: "filter engine_call es = [] \<Longrightarrow>
    quiet s (removeWorkItemFromBeacon env bo h (emit_when b es (set_item h w s)))"
  by (rule quiet_trans [OF quiet_trans [OF quiet_same [OF _ quiet_refl] quiet_emit] quiet_remove]) simp_all

lemma complete_calls:
  assumes "oget (WorkQueue s) h = Some w" "\<not> finalized (Status w)" "RunHash w \<noteq> []" "EngineOn env"
    and "no_caller h s"
  obtains s' where "completeWorkItem env h r s = (CbDeferred, s')"
    "engine_calls s s' = [EngineResume (RunHash w) (NodeHash w) (result_fields r w)]"
    "oget (WorkQueue s') h = Some (completeRecord env r w)"
proof
  let ?e = "EngineResume (RunHash w) (NodeHash w) (result_fields r w)"
  have "filter engine_call (completeEffects env h r w) = []" by (simp add: completeEffects_def)
  then have q: "quiet s (freed env h r w s)" unfolding freed_def by (rule quiet_outcome)
  show "completeWorkItem env h r s = (CbDeferred, emit ?e (freed env h r w s))"
    unfolding complete_live [OF assms(1,2)] result_fields_def beacon_of_def
    using assms(3-5) by (intro settle_engine) (simp_all add: no_caller_def freed_keeps)
  show "engine_calls s (emit ?e (freed env h r w s)) = [?e]" using q by (rule quiet_calls_emit) simp
  show "oget (WorkQueue (emit ?e (freed env h r w s))) h = Some (completeRecord env r w)"
    by (simp add: freed_keeps)
qed

lemma finalized_refused:
  assumes "oget (WorkQueue s) h = Some w" "finalized (Status w)"
  shows "completeForRun env eenv h r s runs = Some (CbError (alreadyFinalized h (Status w)), s, runs)"
    "failForRun env eenv h msg lg s runs = Some (CbError (alreadyFinalized h (Status w)), s, runs)"
  using assms by (simp_all add: completeForRun_def failForRun_def with_engine_def completeWorkItem_def
      failWorkItem_def engine_calls_def)

lemma with_engine_resume:
  assumes "callEngineAll eenv t (engine_calls s s1) runs =
      map_option (\<lambda>(runs', a). (runs', Some a)) (resumeOperation eenv t rh n v runs0)"
  shows "with_engine eenv t (resumeFinished h) s (cb0, s1) runs =
    map_option (\<lambda>(runs', a). case reply_error a of
      None \<Rightarrow> (CbOk, delete_item h s1, runs') | Some e \<Rightarrow> (CbError e, s1, runs'))
    (resumeOperation eenv t rh n v runs0)"
  using assms
  by (simp add: with_engine_def resumeFinished_def Let_def split: option.split prod.split)

lemma with_engine_answer:
  assumes "callEngineAll eenv t (engine_calls s s1) runs =
      map_option (\<lambda>(runs', a). (runs', Some a)) (resumeOperation eenv t rh n v runs0)"
    and "with_engine eenv t (resumeFinished h) s (cb0, s1) runs = Some (cb, s', runs')"
  obtains a where "resumeOperation eenv t rh n v runs0 = Some (runs', a)"
    "case reply_error a of None \<Rightarrow> cb = CbOk \<and> s' = delete_item h s1 | Some e \<Rightarrow> cb = CbError e \<and> s' = s1"
  using assms(2) unfolding with_engine_resume [OF assms(1)] by (auto split: option.splits)

lemma callEngine_one:
  "callEngineAll eenv t [EngineResume rh n outs] runs =
    map_option (\<lambda>(runs', a). (runs', Some a)) (resumeOperation eenv t rh n (JObj outs) runs)"
  by (simp split: option.split)

text \<open>An answer is taken by the engine exactly when the run is Waiting and the node waits.\<close>

lemma resume_taken:
  assumes "resumeOperation env t h n v runs = Some (runs', a)" "getRun runs h = Some c"
    and "isWaiting (rStatus c)" "oget (rWaitingTasks c) n = Some w"
  obtains c' where "runToEnd env (resumeContext env t n v w c) = Some c'" "runs' = oset h c' runs"
    "a = EngineRun c'"
  using assms by (auto simp: resumeOperation_def)

lemma resume_refused:
  assumes "getRun runs h = Some c" "\<not> (isWaiting (rStatus c) \<and> oget (rWaitingTasks c) n \<noteq> None)"
  obtains e where "resumeOperation env t h n v runs = Some (runs, EngineError e)"
proof -
  have "\<exists>e. resumeOperation env t h n v runs = Some (runs, EngineError e)"
    using assms by (auto simp: resumeOperation_def split: option.split)
  with that show thesis by blast
qed

text \<open>
  C9. An answer of a beacon reaches the run or is lost. If the run is Waiting and the node waits in
  it, the run goes on with the outputs and the item is gone. Otherwise (another branch of the run is
  executing, so its status is In Progress) the engine refuses: the run is as it was, the node still
  waits, the item stays Complete in the queue, and every later answer for it is refused.
\<close>

theorem answer_reaches_run_or_is_lost:
  assumes "oget (WorkQueue s) h = Some w" "\<not> finalized (Status w)" "RunHash w \<noteq> []" "no_caller h s"
    and "getRun runs (RunHash w) = Some c"
    and "completeForRun env eenv h r s runs = Some (cb, s', runs')"
  shows "if isWaiting (rStatus c) \<and> oget (rWaitingTasks c) (NodeHash w) \<noteq> None
    then cb = CbOk \<and> oget (WorkQueue s') h = None \<and>
      (\<exists>c'. runs' = oset (RunHash w) c' runs \<and>
        runToEnd eenv (resumeContext eenv (Now env) (NodeHash w) (JObj (result_fields r w))
          (the (oget (rWaitingTasks c) (NodeHash w))) c) = Some c')
    else runs' = runs \<and> (\<exists>e. cb = CbError e) \<and>
      (\<exists>w'. oget (WorkQueue s') h = Some w' \<and> Status w' = Complete) \<and>
      (\<forall>env' r' msg lg rs. completeForRun env' eenv h r' s' rs = Some (CbError (alreadyFinalized h Complete), s', rs) \<and>
        failForRun env' eenv h msg lg s' rs = Some (CbError (alreadyFinalized h Complete), s', rs))"
proof -
  obtain s1 where s1: "completeWorkItem (with_runs runs env) h r s = (CbDeferred, s1)"
    "engine_calls s s1 = [EngineResume (RunHash w) (NodeHash w) (result_fields r w)]"
    "oget (WorkQueue s1) h = Some (completeRecord (with_runs runs env) r w)"
    by (rule complete_calls [OF assms(1-3) with_runs_simps(1) assms(4)])
  note calls = callEngine_one [where eenv = eenv and t = "Now env" and runs = runs, of "RunHash w" "NodeHash w"
      "result_fields r w", folded s1(2)]
  obtain a where
    a: "resumeOperation eenv (Now env) (RunHash w) (NodeHash w) (JObj (result_fields r w)) runs = Some (runs', a)"
    "case reply_error a of None \<Rightarrow> cb = CbOk \<and> s' = delete_item h s1 | Some e \<Rightarrow> cb = CbError e \<and> s' = s1"
    by (rule with_engine_answer [OF calls assms(6) [unfolded completeForRun_def s1(1)]])
  show ?thesis
  proof (cases "isWaiting (rStatus c) \<and> oget (rWaitingTasks c) (NodeHash w) \<noteq> None")
    case True
    then obtain wt where wt: "oget (rWaitingTasks c) (NodeHash w) = Some wt" by auto
    from resume_taken [OF a(1) assms(5) _ wt] True obtain c' where
      "runToEnd eenv (resumeContext eenv (Now env) (NodeHash w) (JObj (result_fields r w)) wt c) = Some c'"
      "runs' = oset (RunHash w) c' runs" "a = EngineRun c'" by blast
    with a(2) wt True show ?thesis by (simp add: reply_error_def obj_simps)
  next
    case False
    from resume_refused [OF assms(5) False] a(1) obtain e where "runs' = runs" "a = EngineError e"
      by (metis Pair_inject option.inject)
    with a(2) have "runs' = runs" "cb = CbError e" "s' = s1" by (simp_all add: reply_error_def)
    moreover have "Status (completeRecord (with_runs runs env) r w) = Complete" "finalized Complete"
      by (simp_all add: completeRecord_def finalized_def)
    ultimately show ?thesis using False s1(3) finalized_refused [OF s1(3)] by auto
  qed
qed

subsection \<open>Failures\<close>

lemma fail_calls:
  assumes "oget (WorkQueue s) h = Some w" "\<not> finalized (Status w)" "\<not> retriesLeft w"
    and "RunHash w \<noteq> []" "EngineOn env" "no_caller h s"
  obtains s' where "failWorkItem env h msg lg s = (CbDeferred, s')"
    "engine_calls s s' = failToEngine env msg w"
    "oget (WorkQueue s') h = Some (failRecord env msg lg w)"
proof
  let ?t = "removeWorkItemFromBeacon env (AssignedBeaconID w) h
    (emit_when True (failEffects env h w (failRecord env msg lg w)) (set_item h (failRecord env msg lg w) s))"
  let ?s' = "emit_when True (failToEngine env msg w) ?t"
  have "filter engine_call (failEffects env h w (failRecord env msg lg w)) = []"
    by (simp add: failEffects_def)
  then have q: "quiet s ?t" by (rule quiet_outcome)
  have "no_caller h ?t"
    using assms(6) calmD(3,4) [OF removeFromBeacon_calm] by (simp add: no_caller_def)
  then show "failWorkItem env h msg lg s = (CbDeferred, ?s')"
    using assms(1-5) settle_engine by (simp add: failWorkItem_def Let_def)
  show "engine_calls s ?s' = failToEngine env msg w"
    unfolding quiet_calls [OF q] by (simp add: failToEngine_def split: option.split)
  show "oget (WorkQueue ?s') h = Some (failRecord env msg lg w)"
    by (simp, rule removeFromBeacon_keeps) (simp_all add: obj_simps failRecord_def placed_def)
qed

text \<open>The run as \<open>failWorkItem\<close> prepares it before it resumes it.\<close>

definition failed_context :: "jstime \<Rightarrow> string \<Rightarrow> string \<Rightarrow> run \<Rightarrow> run" where
  "failed_context t n msg c = recordTaskError n (failMessage msg) (at_time t (set_resume_event n ''Error'' c))"

lemma failed_context_fields:
  "rStatus (failed_context t n msg c) = rStatus c"
  "rPendingEvents (failed_context t n msg c) = rPendingEvents c"
  "rWaitingTasks (failed_context t n msg c) = rWaitingTasks (set_resume_event n ''Error'' c)"
  "getDownstreamEvents m e (failed_context t n msg c) = getDownstreamEvents m e c"
proof -
  let ?c = "set_resume_event n ''Error'' c"
  have "keeps c ?c" by (auto simp: set_resume_event_def intro!: keeps_intros split: option.split)
  then have k: "keeps c (failed_context t n msg c)"
    unfolding failed_context_def by (intro keeps_intros)
  show "rStatus (failed_context t n msg c) = rStatus c" by (rule keeps_status [OF k])
  show "getDownstreamEvents m e (failed_context t n msg c) = getDownstreamEvents m e c"
    by (rule downstream_keeps [OF k])
  show "rPendingEvents (failed_context t n msg c) = rPendingEvents c"
    by (simp add: failed_context_def queue_simps set_resume_event_def split: option.split)
  show "rWaitingTasks (failed_context t n msg c) = rWaitingTasks ?c"
    by (simp add: failed_context_def queue_simps)
qed

lemma failed_context_errors:
  assumes "has_execution n c"
  shows "rErrors (failed_context t n msg c) \<noteq> []"
proof -
  have "has_execution n (at_time t (set_resume_event n ''Error'' c))"
    using assms by (auto simp: has_execution_def set_resume_event_def at_time_def split: option.splits)
  then show ?thesis
    by (simp add: failed_context_def recordTaskError_def add_effect_def add_error_def)
qed

lemma callEngine_failure:
  assumes "getRun runs (RunHash w) = Some c" "oget (rWaitingTasks c) (NodeHash w) \<noteq> None"
  shows "callEngineAll eenv t (failToEngine (with_runs runs env) msg w) runs =
    map_option (\<lambda>(runs', a). (runs', Some a))
      (resumeOperation eenv t (RunHash w) (NodeHash w)
        (JObj [(''StdOut'', JStr (failMessage msg)), (''ExitCode'', JInt (- 1)),
          (''BeaconID'', JStr (beacon_of w)), (''_BeaconError'', JBool True)])
        (oset (RunHash w) (failed_context t (NodeHash w) msg c)
          (oset (RunHash w) (set_resume_event (NodeHash w) ''Error'' c) runs)))"
proof -
  have "NodeHash w \<in> set (okeys (rWaitingTasks c))"
    using assms(2) by (meson jo.keys_get)
  then have calls: "failToEngine (with_runs runs env) msg w =
      [ManifestResumeEvent (RunHash w) (NodeHash w) ''Error'',
       ManifestTaskError (RunHash w) (NodeHash w) (failMessage msg),
       EngineResume (RunHash w) (NodeHash w)
        [(''StdOut'', JStr (failMessage msg)), (''ExitCode'', JInt (- 1)),
          (''BeaconID'', JStr (beacon_of w)), (''_BeaconError'', JBool True)]]"
    using assms(1) by (simp add: failToEngine_def beacon_of_def)
  show ?thesis
    unfolding calls using assms(1)
    by (simp add: on_run_def getRun_def obj_simps failed_context_def split: option.split)
qed

text \<open>
  C10. The last failure of a beacon ends a waiting run as failed: the engine takes the failure, the
  item is gone, the Error events of the node follow those already in the queue, and when the queue
  is worked off the run is Failed (or Stalled) and not live, even if its Error port was connected.
\<close>

theorem last_failure_fails_run:
  assumes "oget (WorkQueue s) h = Some w" "\<not> finalized (Status w)" "\<not> retriesLeft w"
    and "RunHash w \<noteq> []" "no_caller h s"
    and "getRun runs (RunHash w) = Some c" "isWaiting (rStatus c)"
    and "oget (rWaitingTasks c) (NodeHash w) \<noteq> None" "has_execution (NodeHash w) c"
    and "failForRun env eenv h msg lg s runs = Some (cb, s', runs')"
  shows "cb = CbOk \<and> oget (WorkQueue s') h = None \<and>
    (\<exists>c1 c'. getRun runs' (RunHash w) = Some c' \<and> runToEnd eenv c1 = Some c' \<and>
      rWaitingTasks c1 = odel (NodeHash w) (rWaitingTasks (set_resume_event (NodeHash w) ''Error'' c)) \<and>
      rPendingEvents c1 = rPendingEvents c @ getDownstreamEvents (NodeHash w) ''Error'' c \<and>
      rStatus c' \<in> {STATUS_FAILED, STATUS_STALLED} \<and> \<not> rLive c') \<and>
    (\<forall>r. r \<noteq> RunHash w \<longrightarrow> getRun runs' r = getRun runs r)"
proof -
  obtain s1 where s1: "failWorkItem (with_runs runs env) h msg lg s = (CbDeferred, s1)"
    "engine_calls s s1 = failToEngine (with_runs runs env) msg w"
    by (rule fail_calls [OF assms(1-4) with_runs_simps(1) assms(5)])
  let ?c = "failed_context (Now env) (NodeHash w) msg c"
  let ?runs = "oset (RunHash w) ?c (oset (RunHash w) (set_resume_event (NodeHash w) ''Error'' c) runs)"
  have get: "getRun ?runs (RunHash w) = Some ?c" by (simp add: getRun_def obj_simps)
  obtain wt where wt: "oget (rWaitingTasks ?c) (NodeHash w) = Some wt" "wResumeEventName wt = ''Error''"
    using assms(8) by (auto simp: failed_context_fields set_resume_event_def obj_simps)
  note calls = callEngine_failure [OF assms(6,8), where env = env and msg = msg, folded s1(2)]
  obtain a v where a: "resumeOperation eenv (Now env) (RunHash w) (NodeHash w) v ?runs = Some (runs', a)"
    "case reply_error a of None \<Rightarrow> cb = CbOk \<and> s' = delete_item h s1 | Some e \<Rightarrow> cb = CbError e \<and> s' = s1"
    using with_engine_answer [OF calls assms(10) [unfolded failForRun_def s1(1)]] by blast
  let ?c1 = "resumeContext eenv (Now env) (NodeHash w) v wt ?c"
  obtain c' where c': "runToEnd eenv ?c1 = Some c'" "runs' = oset (RunHash w) c' ?runs" "a = EngineRun c'"
    using resume_taken [OF a(1) get _ wt(1)] assms(7) by (auto simp: failed_context_fields)
  have "rErrors ?c1 \<noteq> []" by (intro resumeContext_result(5) failed_context_errors assms(9))
  note ended = errors_end_failed [OF c'(1) this]
  have "rPendingEvents ?c1 = rPendingEvents c @ getDownstreamEvents (NodeHash w) ''Error'' c"
    "rWaitingTasks ?c1 = odel (NodeHash w) (rWaitingTasks (set_resume_event (NodeHash w) ''Error'' c))"
    by (simp_all add: resumeContext_result failed_context_fields wt(2) str_or_def)
  with a(2) c' ended show ?thesis
    by (auto simp: reply_error_def obj_simps getRun_def)
qed

subsection \<open>Stalls\<close>

text \<open>
  C11. A stall ends the item and its run together: the item is gone, and the run is Stalled and not
  live, has no event left for the node and waits for it no more. A run that is over already stays as
  it is, and the item goes as well.
\<close>

theorem stalled_item_ends_run:
  assumes "oget (WorkQueue s) h = Some w" "\<not> StallFinalized w" "RunHash w \<noteq> []"
    and "getRun runs (RunHash w) = Some c" "is_obj (output_or_new (rTaskOutputs c) (NodeHash w))"
  shows "\<exists>s' c'. stallForRun env eenv h s runs = Some (CbOk, s', oset (RunHash w) c' runs) \<and>
    oget (WorkQueue s') h = None \<and>
    (if isTerminal (rStatus c) then c' = c
     else rStatus c' = STATUS_STALLED \<and> \<not> rLive c' \<and>
       rWaitingTasks c' = odel (NodeHash w) (rWaitingTasks c) \<and>
       (\<forall>e \<in> set (rPendingEvents c'). TargetNodeHash e \<noteq> NodeHash w))"
proof -
  let ?env = "with_runs runs env"
  let ?t = "removeWorkItemFromBeacon ?env (AssignedBeaconID w) h
    (emit_when (persists ?env w)
       [PersistUpdate h [(''Status'', JStr ''Stalled''), (''CompletedAt'', JTime (Now env)), (''LastEventAt'', JTime (Now env))]]
       (emit_when (JournalOn ?env) [JournalAppend ''stalled'' [(''WorkItemHash'', JStr h)]]
         (set_item h (w\<lparr>StallFinalized := True\<rparr>) s)))"
  let ?info = "[(''BeaconID'', JStr (beacon_of w)), (''StalledAt'', JTime (Now env))]"
  let ?s' = "emit (EngineStall (RunHash w) (NodeHash w) ?info) ?t"
  have stall: "stallWorkItem ?env h s = (CbDeferred, ?s')"
    using assms(1-3) by (simp add: stallWorkItem_def Let_def beacon_of_def)
  have "quiet s (emit_when (JournalOn ?env) [JournalAppend ''stalled'' [(''WorkItemHash'', JStr h)]]
      (set_item h (w\<lparr>StallFinalized := True\<rparr>) s))"
    by (rule quiet_trans [OF quiet_same [OF _ quiet_refl] quiet_emit]) simp_all
  then have "quiet s ?t"
    by (rule quiet_trans [OF quiet_trans [OF _ quiet_emit] quiet_remove]) simp
  then have calls: "engine_calls s ?s' = [EngineStall (RunHash w) (NodeHash w) ?info]"
    by (rule quiet_calls_emit) simp
  have gone: "oget (WorkQueue (delete_item h ?s')) h = None" by (simp add: obj_simps)
  show ?thesis
  proof (cases "isTerminal (rStatus c)")
    case True
    then have "stallOperation eenv (Now env) (RunHash w) (NodeHash w) (stall_info_of ?info) runs =
        (oset (RunHash w) c runs, EngineRun c)"
      using assms(4) by (simp add: stallOperation_def getRun_def AList.update_triv)
    with stall calls gone True show ?thesis
      by (auto simp: stallForRun_def with_engine_def stallFinished_def reply_error_def)
  next
    case False
    from stallOperation_result [OF assms(4) False assms(5), of eenv "Now env" "stall_info_of ?info"]
    obtain c' where c': "stallOperation eenv (Now env) (RunHash w) (NodeHash w) (stall_info_of ?info) runs =
        (oset (RunHash w) c' runs, EngineRun c')" "rStatus c' = STATUS_STALLED" "\<not> rLive c'"
      "rWaitingTasks c' = odel (NodeHash w) (rWaitingTasks c)"
      "rPendingEvents c' = filter (\<lambda>e. TargetNodeHash e \<noteq> NodeHash w) (rPendingEvents c)" by blast
    then have "stallForRun env eenv h s runs = Some (CbOk, delete_item h ?s', oset (RunHash w) c' runs)"
      using stall calls by (simp add: stallForRun_def with_engine_def stallFinished_def reply_error_def)
    with gone False c' show ?thesis by auto
  qed
qed

end
