(* ===== verification/Scenarios.thy ===== *)
theory Scenarios
  imports OutcomeProperties TimeoutProperties SchedulerProperties
begin

section \<open>Concrete runs of the hub\<close>

text \<open>
  Short runs from an empty hub, evaluated, and the properties of the queue applied to the states
  they end in: a beacon with two slots and two items of engine runs, before and after its first
  poll; a caller that waits for a single dispatch.
\<close>

definition run_hub_env :: "jstime \<Rightarrow> hub_env" where
  "run_hub_env t = (plain_env t)\<lparr>EngineOn := True\<rparr>"

lemma later_engine [simp]: "later (run_hub_env a) (run_hub_env b) \<longleftrightarrow> a \<le> b"
  by (simp add: later_def run_hub_env_def plain_env_def)

lemma Now_engine [simp]: "Now (run_hub_env t) = t" "EngineOn (run_hub_env t)"
  by (simp_all add: run_hub_env_def plain_env_def)

definition run_work :: "string \<Rightarrow> int \<Rightarrow> work_info" where
  "run_work r p = (shell_work [])\<lparr>qRunHash := r, qNodeHash := ''n'', qPriority := Some p\<rparr>"

abbreviation engine_boot :: hub_state where
  "engine_boot \<equiv> (run_hub_env 0, initial_coord)"

definition queued_events :: "(hub_env \<times> hub_event) list" where
  "queued_events =
     [(run_hub_env 5, Register (shell_info 2) None),
      (run_hub_env 6, Enqueue (run_work ''r'' 0)),
      (run_hub_env 7, Enqueue (run_work ''q'' 1))]"

definition queued_state :: coord where
  "queued_state = snd (hub_run queued_events engine_boot)"

definition running_events :: "(hub_env \<times> hub_event) list" where
  "running_events =
     [(run_hub_env 5, Register (shell_info 2) None),
      (run_hub_env 6, Enqueue (run_work ''r'' 0)),
      (run_hub_env 7, Enqueue (run_work ''q'' 1)),
      (run_hub_env 8, Poll ''bcn-b-5'')]"

definition running_state :: coord where
  "running_state = snd (hub_run running_events engine_boot)"

definition waiting_events :: "(hub_env \<times> hub_event) list" where
  "waiting_events =
     [(plain_env 5, Register (shell_info 2) None),
      (plain_env 6, DispatchAndWait (shell_work [])),
      (plain_env 7, Poll ''bcn-b-5'')]"

definition waiting_state :: coord where
  "waiting_state = snd (hub_run waiting_events boot)"

lemma queued_reach: "hub_reach (run_hub_env 7) queued_state"
proof -
  have "register_ok (run_hub_env 5) (shell_info 2) initial_coord" by code_simp
  then have "run_ok queued_events engine_boot" by (simp add: queued_events_def)
  then have "reach hub_init hub_step (hub_run queued_events engine_boot)" by (rule run_initial)
  then show ?thesis by (simp add: queued_state_def queued_events_def)
qed

lemma running_reach: "hub_reach (run_hub_env 8) running_state"
proof -
  have "register_ok (run_hub_env 5) (shell_info 2) initial_coord" by code_simp
  then have "run_ok running_events engine_boot" by (simp add: running_events_def)
  then have "reach hub_init hub_step (hub_run running_events engine_boot)" by (rule run_initial)
  then show ?thesis by (simp add: running_state_def running_events_def)
qed

lemma waiting_reach: "hub_reach (plain_env 7) waiting_state"
proof -
  have "register_ok (plain_env 5) (shell_info 2) initial_coord" by code_simp
  then have "run_ok waiting_events boot" by (simp add: waiting_events_def)
  then have "reach hub_init hub_step (hub_run waiting_events boot)" by (rule run_initial)
  then show ?thesis by (simp add: waiting_state_def waiting_events_def)
qed

text \<open>The items of these states, and what the properties ask of them.\<close>

definition item_at :: "string \<Rightarrow> coord \<Rightarrow> work_item" where
  "item_at h s = the (oget (WorkQueue s) h)"

lemma item_atI: "oget (WorkQueue s) h \<noteq> None \<Longrightarrow> oget (WorkQueue s) h = Some (item_at h s)"
  by (auto simp: item_at_def)

abbreviation hash_r :: string where "hash_r \<equiv> ''wi-r-n-6-1''"
abbreviation hash_q :: string where "hash_q \<equiv> ''wi-q-n-7-2''"
abbreviation hash_w :: string where "hash_w \<equiv> ''wi-unknown-unknown-6-1''"

lemma running_r: "oget (WorkQueue running_state) hash_r = Some (item_at hash_r running_state)"
  by (rule item_atI) code_simp

lemma running_r_fields:
  "Status (item_at hash_r running_state) = Running \<and> AccumulatedLog (item_at hash_r running_state) = [] \<and>
   RunHash (item_at hash_r running_state) = ''r'' \<and> NodeHash (item_at hash_r running_state) = ''n'' \<and>
   MaxAttempts (item_at hash_r running_state) = Some 1 \<and> AttemptNumber (item_at hash_r running_state) = 1 \<and>
   AssignedBeaconID (item_at hash_r running_state) = Some ''bcn-b-5'' \<and>
   TimeoutMs (item_at hash_r running_state) = 300000 \<and>
   LastEventAt (item_at hash_r running_state) = Some 8 \<and>
   \<not> StallFinalized (item_at hash_r running_state) \<and> \<not> retriesLeft (item_at hash_r running_state) \<and>
   lastEvent (item_at hash_r running_state) = Some 8"
  by code_simp

lemma running_r_handlers:
  "oget (StreamDispatchHandlers running_state) hash_r = None"
  "oget (DirectDispatchCallbacks running_state) hash_r = None"
  by code_simp+

lemma waiting_w: "oget (WorkQueue waiting_state) hash_w = Some (item_at hash_w waiting_state)"
  by (rule item_atI) code_simp

lemma waiting_w_fields:
  "Status (item_at hash_w waiting_state) = Running \<and> RunHash (item_at hash_w waiting_state) = [] \<and>
   AccumulatedLog (item_at hash_w waiting_state) = [] \<and> TimeoutMs (item_at hash_w waiting_state) = 300000"
  by code_simp

lemma waiting_w_handlers:
  "oget (StreamDispatchHandlers waiting_state) hash_w = None"
  "oget (DirectDispatchCallbacks waiting_state) hash_w = Some ()"
  by code_simp+

lemma queued_q: "oget (WorkQueue queued_state) hash_q = Some (item_at hash_q queued_state)"
  by (rule item_atI) code_simp

lemma queued_r: "oget (WorkQueue queued_state) hash_r = Some (item_at hash_r queued_state)"
  by (rule item_atI) code_simp

lemma queued_fields:
  "Status (item_at hash_q queued_state) = Pending \<and> Status (item_at hash_r queued_state) = Pending \<and>
   \<not> CancelRequested (item_at hash_q queued_state) \<and> \<not> CancelRequested (item_at hash_r queued_state) \<and>
   length (WorkQueue queued_state) = 2"
  by code_simp

definition ok_result :: work_result where
  "ok_result = \<lparr>Outputs = [(''X'', JInt 1)], Log = [JStr ''done'']\<rparr>"

definition half_way :: progress_data where
  "half_way = \<lparr>pPercent = JInt 50, pMessage = JUndef, pStep = JUndef, pTotalSteps = JUndef,
     pLog = [JStr ''half''], pBinaryData = JUndef\<rparr>"

lemmas running_facts = running_r running_r_fields running_r_handlers
lemmas waiting_facts = waiting_w waiting_w_fields waiting_w_handlers

subsection \<open>Outcomes\<close>

theorem waiting_caller_answered_once_witness:
  "fst (completeWorkItem (plain_env 8) hash_w ok_result waiting_state) = CbOk \<and>
   completeWorkItem (plain_env 9) hash_w ok_result
     (snd (completeWorkItem (plain_env 8) hash_w ok_result waiting_state)) =
     (CbError (notFound hash_w), snd (completeWorkItem (plain_env 8) hash_w ok_result waiting_state))"
  using waiting_caller_answered_once [OF waiting_w _ waiting_w_handlers prod.collapse [symmetric],
      of "plain_env 8" ok_result "plain_env 9" ok_result] waiting_w_fields
  by (simp add: finalized_def)

theorem finalized_once_witness:
  "fst (completeWorkItem (run_hub_env 9) hash_r ok_result running_state) = CbDeferred \<and>
   failWorkItem (run_hub_env 10) hash_r ''late'' []
     (snd (completeWorkItem (run_hub_env 9) hash_r ok_result running_state)) =
     (CbError (alreadyFinalized hash_r Complete),
      snd (completeWorkItem (run_hub_env 9) hash_r ok_result running_state))"
  using finalized_once [OF running_r _ _ _ running_r_handlers prod.collapse [symmetric],
      of "run_hub_env 9" ok_result "run_hub_env 10" ok_result "''late''" "[]"] running_r_fields
  by (simp add: finalized_def)

theorem last_failure_reported_once_witness:
  "fst (failWorkItem (run_hub_env 9) hash_r ''boom'' [] running_state) = CbDeferred \<and>
   completeWorkItem (run_hub_env 10) hash_r ok_result
     (snd (failWorkItem (run_hub_env 9) hash_r ''boom'' [] running_state)) =
     (CbError (alreadyFinalized hash_r Errored),
      snd (failWorkItem (run_hub_env 9) hash_r ''boom'' [] running_state))"
  using last_failure_reported_once [OF running_r _ _ _ _ running_r_handlers prod.collapse [symmetric],
      of "run_hub_env 9" "''boom''" "[]" "run_hub_env 10" "[]" "[]" ok_result] running_r_fields
  by (simp add: finalized_def)

theorem result_log_is_complete_witness:
  "\<exists>w. oget (WorkQueue (snd (completeWorkItem (run_hub_env 10) hash_r ok_result
       (report_all (run_hub_env 9) hash_r [half_way, half_way] running_state)))) hash_r = Some w \<and>
     ItemResult w = JObj [(''Outputs'', JObj [(''X'', JInt 1)]),
       (''Log'', JArr [JStr ''half'', JStr ''half'', JStr ''done''])]"
proof -
  from running_r_fields have "Status (item_at hash_r running_state) = Running"
    "AccumulatedLog (item_at hash_r running_state) = []" "RunHash (item_at hash_r running_state) \<noteq> []"
    by simp_all
  from result_log_is_complete [OF running_r this Now_engine(2) [of 10] running_r_handlers,
      of ok_result "run_hub_env 9" "[half_way, half_way]"]
  have "\<exists>w. oget (WorkQueue (snd (completeWorkItem (run_hub_env 10) hash_r ok_result
       (report_all (run_hub_env 9) hash_r [half_way, half_way] running_state)))) hash_r = Some w \<and>
     ItemResult w = JObj [(''Outputs'', JObj (Outputs ok_result)),
       (''Log'', JArr (concat (map pLog [half_way, half_way]) @ Log ok_result))]"
    by blast
  then show ?thesis by (simp add: half_way_def ok_result_def del: report_all.simps)
qed

theorem failure_with_attempts_left_witness:
  "let s = set_item hash_r ((item_at hash_r running_state)\<lparr>MaxAttempts := Some 3\<rparr>) running_state;
       s' = snd (failWorkItem (run_hub_env 9) hash_r ''boom'' [] s)
   in (\<exists>w. oget (WorkQueue s') hash_r = Some w \<and> Status w = RetryScheduled \<and> AttemptNumber w = 2) \<and>
      Beacons s' = Beacons running_state"
proof -
  let ?w = "(item_at hash_r running_state)\<lparr>MaxAttempts := Some 3\<rparr>"
  have "oget (WorkQueue (set_item hash_r ?w running_state)) hash_r = Some ?w" by (simp add: obj_simps)
  from failure_with_attempts_left [OF this _ _ _ prod.collapse [symmetric], of 3 "run_hub_env 9" "''boom''" "[]"]
  show ?thesis using running_r_fields by (simp add: finalized_def Let_def)
qed

theorem progress_merges_witness:
  "\<exists>w' q. oget (WorkQueue (snd (updateProgress (run_hub_env 9) hash_r half_way running_state))) hash_r = Some w' \<and>
     ItemProgress w' = Some q \<and> Percent q = JInt 50 \<and> AccumulatedLog w' = [JStr ''half''] \<and>
     LastEventAt w' = Some 9"
  using progress_merges [OF running_r, of "run_hub_env 9" half_way] running_r_fields
  by (auto simp: half_way_def JInt_def)

subsection \<open>Timeouts\<close>

theorem timeout_check_throws_witness:
  "\<exists>s'. checkTimeouts (plain_env 400000) waiting_state = TypeErr s'"
proof (rule timeout_check_throws [OF waiting_reach])
  have "timed_out (plain_env 400000) (item_at hash_w waiting_state)"
    "\<not> retriesLeft (item_at hash_w waiting_state)" by code_simp+
  with waiting_facts show "dropped_by_timeout (plain_env 400000) waiting_state hash_w"
    unfolding dropped_by_timeout_def by blast
qed simp

theorem timeout_check_completes_witness:
  "\<exists>s'. checkTimeouts (plain_env 60000) waiting_state = Done s'"
proof -
  have "\<forall>e \<in> set (WorkQueue waiting_state). \<not> timed_out (plain_env 60000) (snd e)"
    "owf (WorkQueue waiting_state)" by code_simp+
  then have "\<not> timed_out (plain_env 60000) w" if "oget (WorkQueue waiting_state) h = Some w" for h w
    using that by (metis map_of_SomeD snd_conv)
  moreover have "owf (AffinityBindings waiting_state)" by code_simp
  ultimately show ?thesis using timeout_check_completes [of waiting_state "plain_env 60000"] by blast
qed

theorem health_tick_completes_witness:
  "\<exists>s'. healthTick (run_hub_env 400000) running_state = Done s'"
  by (rule health_tick_completes [OF running_reach]) simp

subsection \<open>Scheduling\<close>

theorem dispatch_tick_correct_witness:
  "tick_result (run_hub_env 9) hash_q (item_at hash_q queued_state) (dispatchTick (run_hub_env 9) queued_state)"
  using dispatch_tick_correct [OF queued_reach _ queued_q, of "run_hub_env 9"] queued_fields
  by simp

theorem silent_item_stalls_witness:
  "\<exists>w'. oget (WorkQueue (healthStep (run_hub_env 4000000) hash_r (item_at hash_r running_state) running_state)) hash_r
     = Some w' \<and> Status w' = Stalled"
proof -
  have "stallThreshold (run_hub_env 4000000) (item_at hash_r running_state) < 4000000 - 8" by code_simp
  with silent_item_stalls [OF running_reach _ running_r, of "run_hub_env 4000000" 8] running_r_fields
  show ?thesis by auto
qed

theorem health_decays_witness:
  "\<exists>x y. Score (computeHealth (run_hub_env 100) (item_at hash_r running_state)) = Some x \<and>
     Score (computeHealth (run_hub_env 200000) (item_at hash_r running_state)) = Some y \<and> y \<le> x"
proof -
  have "0 < heartbeatExpected (run_hub_env 100) (item_at hash_r running_state)" by code_simp
  with health_decays [of "item_at hash_r running_state" 8 "run_hub_env 100" "run_hub_env 200000"] running_r_fields
  show ?thesis by simp
qed

theorem pickBeacon_correct_witness:
  "\<exists>k b. pickBeacon (item_at hash_q queued_state) queued_state = Some (k, b) \<and>
     oget (Beacons queued_state) k = Some b \<and> beaconCanTake b (item_at hash_q queued_state)"
proof -
  have "owf (Beacons queued_state)" by code_simp
  note pick = pickBeacon_correct [OF this, of "item_at hash_q queued_state"]
  have "pickBeacon (item_at hash_q queued_state) queued_state \<noteq> None" by code_simp
  with pick show ?thesis by (auto split: option.splits)
qed

theorem cancel_by_status_witness:
  "fst (requestCancel (run_hub_env 9) hash_q ''stop'' queued_state) = CancelDone \<and>
   fst (requestCancel (run_hub_env 9) hash_r ''stop'' running_state) = CancelAsked Running"
  using cancel_by_status [OF queued_q prod.collapse [symmetric], of "run_hub_env 9" "''stop''"]
    cancel_by_status [OF running_r prod.collapse [symmetric], of "run_hub_env 9" "''stop''"]
    queued_fields running_r_fields
  by simp

theorem dispatch_order_fair_witness:
  "map fst (dispatchable queued_state) = [hash_q, hash_r] \<and>
   mset (dispatchable queued_state) =
     mset (filter (\<lambda>(h, w). Status w = Queued \<or> Status w = Pending) (WorkQueue queued_state))"
proof
  show "map fst (dispatchable queued_state) = [hash_q, hash_r]" by code_simp
  show "mset (dispatchable queued_state) =
      mset (filter (\<lambda>(h, w). Status w = Queued \<or> Status w = Pending) (WorkQueue queued_state))"
    using dispatch_order_fair [of queued_state] by blast
qed

definition stalled_state :: coord where
  "stalled_state = state_of (healthTick (run_hub_env 4000000) running_state)"

lemma stalled_reach: "hub_reach (run_hub_env 4000000) stalled_state"
  using reach_step [OF running_reach, of HealthTimer "(run_hub_env 4000000, stalled_state)"]
  by (simp add: hub_step_iff stalled_state_def)


theorem strict_item_dispatched_elsewhere_witness:
  "\<exists>k b. pickBeacon ((item_at hash_q queued_state)\<lparr>AffinityKey := ''z''\<rparr>) queued_state = Some (k, b) \<and>
     \<not> beaconSatisfiesAffinity ((item_at hash_q queued_state)\<lparr>AffinityKey := ''z''\<rparr>) b"
proof -
  let ?w = "(item_at hash_q queued_state)\<lparr>AffinityKey := ''z''\<rparr>" and ?b = "the (oget (Beacons queued_state) ''bcn-b-5'')"
  have w: "RequireAffinityMatch ?w" "AffinityKey ?w \<noteq> []" "AssignedBeaconID ?w = None" by code_simp+
  have none: "findBeaconByName (AffinityKey ?w) queued_state = None" by code_simp
  have owf: "owf (Beacons queued_state)" by code_simp
  have "oget (Beacons queued_state) ''bcn-b-5'' \<noteq> None" by code_simp
  then have b: "(''bcn-b-5'', ?b) \<in> set (Beacons queued_state)" by (auto dest: map_of_SomeD)
  have "beaconCanTake ?b ?w" by code_simp
  from strict_item_dispatched_elsewhere [OF w none b this owf] show ?thesis by blast
qed

theorem reorder_passes_neighbor_witness:
  "\<exists>as bs cs. upcomingOrder (snd (reorderWorkItem (run_hub_env 9) hash_r MoveUp queued_state)) =
     as @ (item_at hash_r queued_state)\<lparr>Priority := 2\<rparr> # bs @ item_at hash_q queued_state # cs"
proof -
  have res: "fst (reorderWorkItem (run_hub_env 9) hash_r MoveUp queued_state) = Inr (0, 2)" by code_simp
  have idx: "index_of (\<lambda>v. WorkItemHash v = hash_r) (upcomingOrder queued_state) = Some 1" by code_simp
  have nb: "item_at hash_q queued_state = upcomingOrder queued_state ! (if MoveUp = MoveUp then 1 - 1 else 1 + 1)"
    by code_simp
  have len: "length (WorkQueue queued_state) \<le> 5000" using queued_fields by simp
  have rank: "assigned_rank (item_at hash_q queued_state) = assigned_rank (item_at hash_r queued_state)"
    using queued_fields by (simp add: assigned_rank_def)
  have run: "reorderWorkItem (run_hub_env 9) hash_r MoveUp queued_state =
      (Inr (0, 2), snd (reorderWorkItem (run_hub_env 9) hash_r MoveUp queued_state))"
    using res by (metis prod.collapse)
  from reorder_passes_neighbor [OF queued_reach len queued_r run idx nb rank] show ?thesis by simp
qed

end
