(* ===== verification/RunProperties.thy ===== *)
theory RunProperties
  imports EngineProperties
begin

section \<open>Properties of manifests, restarts and retries\<close>

subsection \<open>Reading a manifest back\<close>

text \<open>
  A run that is loaded from its own manifest is the run it was written from, without its
  queue of events, its graph and its liveness, and with its waiting tasks only if its status was
  Waiting when it was written.
\<close>

theorem manifest_roundtrip:
  "restored_run (rStagingPath c) d t (serializableManifest c) =
    c\<lparr>rLive := False, rPendingEvents := [],
      rWaitingTasks := (if isWaiting (rStatus c) then rWaitingTasks c else []),
      rGraph := \<lparr>gNodes = [], gConnections = []\<rparr>, rNodeMap := [], rPortLabelMap := [],
      rConnectionMap := \<lparr>eventSources = [], stateTargets = []\<rparr>,
      rClock := t, rDisk := d, rEffects := []\<rparr>"
  by (simp add: restored_run_def serializableManifest_def)

lemma taskWaits_saved:
  assumes "rStagingPath c \<noteq> []" "\<forall>p. vWritable env p"
  shows "\<exists>c1. rEffects (taskWaits env n res c) = rEffects c1 @ [WriteManifest (manifest_path c1) (serializableManifest c1)] \<and>
    rStatus c1 = rStatus c \<and> rHash c1 = rHash c \<and> rOperationHash c1 = rOperationHash c \<and>
    rStagingPath c1 = rStagingPath c \<and> oget (rWaitingTasks c1) n \<noteq> None"
proof -
  let ?w = "\<lparr>wPromptMessage = sPromptMessage res, wOutputAddress = sOutputAddress res,
    wResumeEventName = sResumeEventName res, wTimestamp = rClock c\<rparr>"
  let ?c1 = "recordTaskComplete n res
    (run_log (''Task ['' @ n @ ''] is waiting for input (resume event: '' @
        str_or (sResumeEventName res) ''ValueInputComplete'' @ '').'')
      (c\<lparr>rWaitingTasks := oset n ?w (rWaitingTasks c)\<rparr>))"
  have "keeps c ?c1" by (intro keeps_intros)
  moreover have "rWaitingTasks ?c1 = oset n ?w (rWaitingTasks c)" by (simp add: queue_simps)
  ultimately show ?thesis
    using assms
    by (intro exI [of _ ?c1])
      (simp add: taskWaits_def checkpoint_def writeManifest_def add_effect_def run_log_def keeps_def obj_simps)
qed

lemma resumeOne_stale:
  assumes "getRun runs h = Some c" "rHash c = h" "isInProgress (rStatus c)" "\<not> rLive c"
  shows "resumeOne env t ops (summarize_run c) runs = oset h (stale_error env t c) runs"
proof -
  have "\<not> isWaiting (rStatus c)" using assms(3) status_exclusive by blast
  with assms show ?thesis by (simp add: resumeOne_def summarize_run_def)
qed

lemma stale_error_status: "rStatus (stale_error env t c) = STATUS_ERROR"
  by (simp add: stale_error_def checkpoint_def Let_def writeManifest_def add_error_def run_log_def add_effect_def)

text \<open>
  The checkpoint that is written when a task starts to wait does not hold the waiting task: the
  status is still In Progress then. A server that stops before the queue is empty loses it; after
  the restart the run is marked as an error and an answer to the task is refused.
\<close>

theorem checkpoint_loses_waiting_task:
  assumes "isInProgress (rStatus c)" "rStagingPath c \<noteq> []" "\<forall>p. vWritable env p" "rHash c = h"
  shows "\<exists>m p es. rEffects (taskWaits env n res c) = es @ [WriteManifest p m] \<and>
    oget (rWaitingTasks (taskWaits env n res c)) n \<noteq> None \<and> fWaitingTasks m = None \<and>
    (\<exists>c'. resumeWaitingRuns env t ops [(h, restored_run (rStagingPath c) d t m)] = [(h, c')] \<and>
      rStatus c' = STATUS_ERROR \<and>
      (\<exists>e. resumeOperation env t h n v [(h, c')] = Some ([(h, c')], EngineError e)))"
proof -
  obtain c1 where c1: "rEffects (taskWaits env n res c) =
      rEffects c1 @ [WriteManifest (manifest_path c1) (serializableManifest c1)]"
    "rStatus c1 = rStatus c" "rHash c1 = rHash c" "rOperationHash c1 = rOperationHash c"
    "rStagingPath c1 = rStagingPath c"
    using taskWaits_saved [OF assms(2,3)] by metis
  let ?m = "serializableManifest c1"
  let ?r = "restored_run (rStagingPath c) d t ?m"
  have nw: "\<not> isWaiting (rStatus c1)" using assms(1) c1 status_exclusive by metis
  have r: "rHash ?r = h" "rStatus ?r = rStatus c" "\<not> rLive ?r"
    using c1 assms(4) by (simp_all add: restored_run_def serializableManifest_def)
  have "resumeWaitingRuns env t ops [(h, ?r)] = [(h, stale_error env t ?r)]"
    using resumeOne_stale [of "[(h, ?r)]" h ?r env t ops] r assms(1)
    by (simp add: resumeWaitingRuns_def listRuns_def getRun_def)
  moreover have "\<exists>e. resumeOperation env t h n v [(h, stale_error env t ?r)] =
      Some ([(h, stale_error env t ?r)], EngineError e)"
    by (simp add: resumeOperation_def getRun_def stale_error_status)
  moreover have "fWaitingTasks ?m = None" using nw by (simp add: serializableManifest_def)
  moreover have "oget (rWaitingTasks (taskWaits env n res c)) n \<noteq> None"
    by (simp add: taskWaits_def queue_simps obj_simps)
  ultimately show ?thesis using c1(1) stale_error_status by blast
qed

subsection \<open>Picking up runs after a restart\<close>

lemma resumeOne_other: "uHash s \<noteq> h \<Longrightarrow> oget (resumeOne env t ops s runs) h = oget runs h"
  by (simp add: resumeOne_def obj_simps getRun_def split: option.split)

lemma resumeOne_unknown: "oget runs (uHash s) = None \<Longrightarrow> resumeOne env t ops s runs = runs"
  by (simp add: resumeOne_def getRun_def)

definition picked_up :: "engine_env \<Rightarrow> jstime \<Rightarrow> operations \<Rightarrow> run \<Rightarrow> run" where
  "picked_up env t ops c =
     (if rLive c then c
      else if isInProgress (rStatus c) then stale_error env t c
      else if isWaiting (rStatus c) \<and> rWaitingTasks c \<noteq> [] then
        (case stored_graph ops (rOperationHash c) of
           None \<Rightarrow> c | Some g \<Rightarrow> rebuildGraphContext (vRegistry env) g c)
      else c)"

lemma resumeOne_self:
  assumes "oget runs (rHash c) = Some c"
  shows "oget (resumeOne env t ops (summarize_run c) runs) (rHash c) = Some (picked_up env t ops c)"
  using assms status_exclusive(2) [of "rStatus c"]
  by (auto simp: resumeOne_def picked_up_def summarize_run_def resumable_def getRun_def obj_simps split: option.split)

lemma resume_loop:
  assumes "distinct (map rHash cs)" "\<forall>c \<in> set cs. oget runs (rHash c) = Some c"
  shows "oget (foldl (\<lambda>rs s. resumeOne env t ops s rs) runs (map summarize_run cs)) h =
    (case List.find (\<lambda>c. rHash c = h) cs of
       None \<Rightarrow> oget runs h | Some c \<Rightarrow> Some (picked_up env t ops c))"
  using assms
proof (induction cs arbitrary: runs)
  case Nil
  then show ?case by simp
next
  case (Cons c cs)
  let ?runs = "resumeOne env t ops (summarize_run c) runs"
  have summary: "uHash (summarize_run c) = rHash c" by (simp add: summarize_run_def)
  have present: "\<forall>c' \<in> set cs. oget ?runs (rHash c') = Some c'"
  proof
    fix c'
    assume "c' \<in> set cs"
    with Cons.prems have "rHash c \<noteq> rHash c'" "oget runs (rHash c') = Some c'" by force+
    then show "oget ?runs (rHash c') = Some c'" by (simp add: resumeOne_other summary)
  qed
  have IH: "oget (foldl (\<lambda>rs s. resumeOne env t ops s rs) ?runs (map summarize_run cs)) h =
      (case List.find (\<lambda>c. rHash c = h) cs of
         None \<Rightarrow> oget ?runs h | Some c \<Rightarrow> Some (picked_up env t ops c))"
    by (rule Cons.IH [OF _ present]) (use Cons.prems(1) in simp)
  show ?case
  proof (cases "rHash c = h")
    case True
    have "rHash c \<notin> set (map rHash cs)" using Cons.prems(1) by simp
    then have "rHash x \<noteq> h" if "x \<in> set cs" for x
      using True that by (metis list.set_map imageI)
    then have "List.find (\<lambda>c. rHash c = h) cs = None" by (auto simp: find_None_iff)
    moreover have "oget ?runs h = Some (picked_up env t ops c)"
      using resumeOne_self [of runs c env t ops] Cons.prems(2) True by auto
    ultimately show ?thesis using IH True by simp
  next
    case False
    then have "oget ?runs h = oget runs h" by (simp add: resumeOne_other summary)
    with IH False show ?thesis by (simp cong: option.case_cong)
  qed
qed

text \<open>
  C15. After a restart every run that was in progress is an error, every waiting run whose operation
  is known is live again with the graph of that operation, its state and its waiting tasks, and
  all other runs are as they were loaded.
\<close>

theorem restart_picks_up_runs:
  assumes "owf runs" "\<forall>(h, c) \<in> set runs. rHash c = h" "oget runs h = Some c"
  shows "oget (resumeWaitingRuns env t ops runs) h = Some (picked_up env t ops c) \<and>
    (isInProgress (rStatus c) \<and> \<not> rLive c \<longrightarrow> rStatus (picked_up env t ops c) = STATUS_ERROR) \<and>
    (isWaiting (rStatus c) \<longrightarrow>
      rStatus (picked_up env t ops c) = rStatus c \<and>
      rWaitingTasks (picked_up env t ops c) = rWaitingTasks c \<and>
      rTaskOutputs (picked_up env t ops c) = rTaskOutputs c)"
proof -
  have keys: "map rHash (ovals runs) = okeys runs"
    using assms(2) by (induction runs) auto
  have "\<forall>c \<in> set (ovals runs). oget runs (rHash c) = Some c"
    using assms(1,2) by (auto intro: in_oget)
  moreover have "distinct (map rHash (ovals runs))" by (simp only: keys assms(1))
  moreover have find: "List.find (\<lambda>c. rHash c = h) (ovals runs) = Some c"
    using assms(1,2,3)
  proof (induction runs)
    case Nil
    then show ?case by simp
  next
    case (Cons kv runs)
    then show ?case by (cases kv) (auto split: if_splits)
  qed
  ultimately have "oget (resumeWaitingRuns env t ops runs) h = Some (picked_up env t ops c)"
    using resume_loop [of "ovals runs" runs env t ops h]
    by (simp add: resumeWaitingRuns_def listRuns_def del: List.find.simps)
  moreover have "isWaiting (rStatus c) \<Longrightarrow> \<not> isInProgress (rStatus c)" by (rule status_exclusive)
  ultimately show ?thesis
    by (auto simp: picked_up_def stale_error_status rebuildGraphContext_def setGraph_def Let_def split: option.split)
qed

subsection \<open>Working files of a production run\<close>

lemma path_segments_join:
  assumes "segs \<noteq> []" "\<forall>s \<in> set segs. s \<noteq> [] \<and> CHR ''/'' \<notin> set s"
  shows "path_segments (CHR ''/'' # join_with (CHR ''/'') segs) = segs"
proof -
  have "split_on (CHR ''/'') (join_with (CHR ''/'') segs) = segs"
    using assms by (intro split_join) auto
  then show ?thesis using assms(2) by (simp add: path_segments_def filter_id_conv)
qed

lemma path_segments_nonempty: "s \<in> set (path_segments p) \<Longrightarrow> s \<noteq> []"
  by (simp add: path_segments_def)

lemma base_segments_nonempty: "s \<in> set (base_segments p) \<Longrightarrow> s \<noteq> []"
  using push_segment_set [of "[]" "path_segments p"] path_segments_nonempty
  by (auto simp: base_segments_def)

lemma output_is_working_file: "working_file staging (path_resolve staging (output_path n port))"
proof -
  let ?segs = "base_segments staging @ [REF_DIR, safeSegment n, safeSegment port @ ''.json'']"
  have "path_segments (path_resolve staging (output_path n port)) = ?segs"
    unfolding output_file
    by (rule path_segments_join)
      (auto simp: REF_DIR_def safeSegment_plain safeSegment_nonempty
        dest: base_segments_plain base_segments_nonempty)
  then show ?thesis by (simp add: working_file_def Let_def kept_entry_def REF_DIR_def)
qed

lemma finalize_production_disk:
  assumes "rRunMode c = ''production''"
  shows "rDisk (finalizeExecution env c) = filter (\<lambda>(f, bs). \<not> working_file (rStagingPath c) f) (rDisk c)"
proof -
  have d: "rDisk (persistManifestViaBridge env c) = rDisk c" "rDisk (writeLogFile env c) = rDisk c"
    "rDisk (add_effect e c) = rDisk c" for c e
    by (simp_all add: persistManifestViaBridge_def writeManifest_def writeLogFile_def add_effect_def
        run_log_def Let_def)
  have "rDisk (cleanupWorkingFiles c) = filter (\<lambda>(f, bs). \<not> working_file (rStagingPath c) f) (rDisk c)" for c
    by (simp add: cleanupWorkingFiles_def run_log_def)
  then show ?thesis
    using assms by (simp add: finalizeExecution_def Let_def d)
qed

text \<open>
  Finalizing a run in production mode removes the files of its lifted outputs even when the run
  only pauses: after that every reference to one of them reads as undefined, so the tasks that run
  when it is resumed do not get these values.
\<close>

theorem production_pause_loses_outputs:
  assumes "rRunMode c = ''production''" "isWaiting (rStatus c)" "\<not> has_stalled c"
    and "\<not> has_unhandled_error c"
    and "isOutputRef v" "ref_path v = output_path n port"
  shows "isWaiting (rStatus (finalizeExecution env c)) \<and>
    rTaskOutputs (finalizeExecution env c) = rTaskOutputs c \<and>
    materializeIfRef (finalizeExecution env c) v = JUndef"
proof -
  have "oget (rDisk (finalizeExecution env c)) (path_resolve (rStagingPath c) (ref_path v)) = None"
    unfolding finalize_production_disk [OF assms(1)] assms(6)
    using output_is_working_file by (auto simp: map_of_eq_None_iff)
  then show ?thesis
    using assms
    by (simp add: finalize_frame final_status_def materializeIfRef_def materializeRefValue_def)
qed

subsection \<open>Timing\<close>

definition bucket_total :: "timing_bucket obj \<Rightarrow> nat \<times> int" where
  "bucket_total m = (sum_list (map bCount (ovals m)), sum_list (map bTotalMs (ovals m)))"

lemma sum_oset:
  assumes "owf m"
  shows "sum_list (map f (ovals (oset k v m))) + (case oget m k of None \<Rightarrow> 0 | Some w \<Rightarrow> f w) =
    sum_list (map f (ovals m)) + (f v :: 'a :: comm_monoid_add)"
  using assms
proof (induction m)
  case Nil
  then show ?case by simp
next
  case (Cons kv m)
  obtain k' v' where kv: "kv = (k', v')" by (cases kv)
  show ?case
  proof (cases "k = k'")
    case True
    with kv show ?thesis by (simp add: ac_simps)
  next
    case False
    with kv Cons show ?thesis by (simp add: add.assoc)
  qed
qed

lemma add_elapsed_fields [simp]:
  "bCount (add_elapsed e b) = Suc (bCount b)" "bTotalMs (add_elapsed e b) = bTotalMs b + e"
  by (simp_all add: add_elapsed_def)

lemma bump_sums:
  assumes "owf m" "bCount fresh = 0" "bTotalMs fresh = 0"
  shows "sum_list (map bCount (ovals (bump k fresh e m))) = Suc (sum_list (map bCount (ovals m)))"
    and "sum_list (map bTotalMs (ovals (bump k fresh e m))) = sum_list (map bTotalMs (ovals m)) + e"
    and "owf (bump k fresh e m)"
proof -
  let ?b = "add_elapsed e (case oget m k of None \<Rightarrow> fresh | Some b \<Rightarrow> b)"
  show "sum_list (map bCount (ovals (bump k fresh e m))) = Suc (sum_list (map bCount (ovals m)))"
    using sum_oset [OF assms(1), of bCount k ?b] assms(2)
    by (cases "oget m k") (simp_all add: bump_def del: map_map)
  show "sum_list (map bTotalMs (ovals (bump k fresh e m))) = sum_list (map bTotalMs (ovals m)) + e"
    using sum_oset [OF assms(1), of bTotalMs k ?b] assms(3)
    by (cases "oget m k") (simp_all add: bump_def del: map_map)
  show "owf (bump k fresh e m)"
    unfolding bump_def by (rule jo.wf_set) (rule assms(1))
qed

lemma addTiming_loop:
  assumes "owf (ByCategory s)" "owf (ByCapability s)"
  shows "Timeline (foldl addTiming s es) = Timeline s @ es \<and>
    owf (ByCategory (foldl addTiming s es)) \<and> owf (ByCapability (foldl addTiming s es)) \<and>
    bucket_total (ByCategory (foldl addTiming s es)) =
      (fst (bucket_total (ByCategory s)) + length es, snd (bucket_total (ByCategory s)) + sum_list (map lElapsedMs es)) \<and>
    bucket_total (ByCapability (foldl addTiming s es)) =
      (fst (bucket_total (ByCapability s)) + length es, snd (bucket_total (ByCapability s)) + sum_list (map lElapsedMs es))"
  using assms
proof (induction es arbitrary: s)
  case Nil
  then show ?case by simp
next
  case (Cons e es)
  note cat = bump_sums [OF Cons.prems(1), of "new_bucket [] [] []" "lCategory e" "lElapsedMs e"]
  note cap = bump_sums [OF Cons.prems(2), of "new_bucket [] [] []" "lCapability e" "lElapsedMs e"]
  show ?case
    using Cons.IH [of "addTiming s e"] cat cap
    by (simp add: addTiming_def new_bucket_def bucket_total_def)
qed

lemma close_total: "bucket_total (close_buckets m) = bucket_total m"
  by (induction m) (auto simp: close_buckets_def bucket_total_def close_bucket_def)

lemma comparator_start: "comparator (\<lambda>a b. lStartTimeMs a - lStartTimeMs b)"
  by standard auto

text \<open>
  The timing summary accounts for every execution: its timeline lists all executions of all
  tasks, ordered by start time, and the buckets by category and by capability add up to their
  number and to their total time.
\<close>

theorem timing_adds_up:
  "mset (Timeline (computeTimingSummary c)) = mset (all_executions (rTaskManifests c)) \<and>
    sorted_wrt (\<lambda>a b. lStartTimeMs a \<le> lStartTimeMs b) (Timeline (computeTimingSummary c)) \<and>
    bucket_total (ByCategory (computeTimingSummary c)) =
      (length (all_executions (rTaskManifests c)), sum_list (map lElapsedMs (all_executions (rTaskManifests c)))) \<and>
    bucket_total (ByCapability (computeTimingSummary c)) =
      (length (all_executions (rTaskManifests c)), sum_list (map lElapsedMs (all_executions (rTaskManifests c))))"
proof -
  define es where "es = all_executions (rTaskManifests c)"
  define s where "s = computeTimingSummary c"
  let ?s0 = "\<lparr>ByCategory = [], ByCapability = [], ByTaskType = [], Timeline = []\<rparr>"
  note loop = addTiming_loop [of ?s0 es]
  have s: "s = \<lparr>ByCategory = close_buckets (ByCategory (foldl addTiming ?s0 es)),
      ByCapability = close_buckets (ByCapability (foldl addTiming ?s0 es)),
      ByTaskType = close_buckets (ByTaskType (foldl addTiming ?s0 es)),
      Timeline = sort_by (\<lambda>a b. lStartTimeMs a - lStartTimeMs b) (Timeline (foldl addTiming ?s0 es))\<rparr>"
    by (simp add: s_def computeTimingSummary_def es_def Let_def)
  have "sorted_wrt (\<lambda>a b. lStartTimeMs a - lStartTimeMs b \<le> 0) (Timeline s)"
    unfolding s timing_summary.select_convs by (rule comparator.sorted_sort_by [OF comparator_start])
  then have "sorted_wrt (\<lambda>a b. lStartTimeMs a \<le> lStartTimeMs b) (Timeline s)"
    by (rule sorted_wrt_mono_rel [rotated]) simp
  moreover have "mset (Timeline s) = mset es \<and>
      bucket_total (ByCategory s) = (length es, sum_list (map lElapsedMs es)) \<and>
      bucket_total (ByCapability s) = (length es, sum_list (map lElapsedMs es))"
    using loop by (simp add: s mset_sort_by close_total) (simp add: bucket_total_def)
  ultimately show ?thesis unfolding es_def s_def by blast
qed

subsection \<open>Retrying\<close>

lemma checkpoint_fields:
  "rStatus (checkpoint env c) = rStatus c"
  "rLive (checkpoint env c) = rLive c"
  "rTaskOutputs (checkpoint env c) = rTaskOutputs c"
  "rWaitingTasks (checkpoint env c) = rWaitingTasks c"
  "rErrors (checkpoint env c) = rErrors c"
  "rNodeMap (checkpoint env c) = rNodeMap c"
  by (simp_all add: checkpoint_def) (simp add: writeManifest_def add_effect_def run_log_def)

lemma add_retry_fields:
  "rStatus (add_retry t n c) = rStatus c"
  "rLive (add_retry t n c) = rLive c"
  "rTaskOutputs (add_retry t n c) = rTaskOutputs c"
  "rWaitingTasks (add_retry t n c) = rWaitingTasks c"
  "rErrors (add_retry t n c) = rErrors c"
  "rNodeMap (add_retry t n c) = rNodeMap c"
  by (simp_all add: add_retry_def split: option.split)

lemma rebuild_fields:
  "rTaskOutputs (rebuildGraphContext reg g c) = rTaskOutputs c"
  "rErrors (rebuildGraphContext reg g c) = rErrors c"
  "rNodeMap (rebuildGraphContext reg g c) = buildNodeMap g"
  by (simp_all add: rebuildGraphContext_def setGraph_def Let_def)

lemma retryContext_fields:
  "rStatus (retryContext env t n g c) = STATUS_WAITING" "rLive (retryContext env t n g c)"
  "rTaskOutputs (retryContext env t n g c) = odel n (rTaskOutputs c)"
  "\<exists>w. oget (rWaitingTasks (retryContext env t n g c)) n = Some w"
  "rErrors (retryContext env t n g c) = filter (\<lambda>e. rrNodeHash e \<noteq> Some n) (rErrors c)"
  "rNodeMap (retryContext env t n g c) = buildNodeMap g"
  by (simp_all add: retryContext_def checkpoint_fields add_retry_fields rebuild_fields at_time_def
      Let_def obj_simps)

lemma retry_work_info_fields [simp]:
  "qRunHash (retry_work_info env h n c nd settings) = h"
  "qNodeHash (retry_work_info env h n c nd settings) = n"
  "qSettings (retry_work_info env h n c nd settings) = settings"
  by (simp_all add: retry_work_info_def Let_def)

text \<open>
  A retry is refused while the run is active. Otherwise the failed node loses its outputs and
  its errors and waits again in a live, waiting run whose other outputs are kept, and its work item
  is enqueued with the settings of the node, unless one of the settings is a string with a dot:
  then the call of \<open>getAddress\<close> throws, and the run waits for a work item that was never enqueued.
\<close>

theorem retry_resets_failed_node:
  assumes "getRun runs h = Some c" "retryTarget (kNodeHash opts) c = Some n"
    and "stored_graph ops (rOperationHash c) = Some g" "oget (buildNodeMap g) n = Some nd"
    and "retryFromCheckpoint env t ops True h opts runs = (runs', reply, item)"
  shows "if isInProgress (rStatus c) \<or> isWaiting (rStatus c)
    then runs' = runs \<and> item = None \<and> (\<exists>e. reply = EngineError e)
    else \<exists>c'. runs' = oset h c' runs \<and> rStatus c' = STATUS_WAITING \<and> rLive c' \<and>
      rTaskOutputs c' = odel n (rTaskOutputs c) \<and> (\<exists>w. oget (rWaitingTasks c') n = Some w) \<and>
      rErrors c' = filter (\<lambda>e. rrNodeHash e \<noteq> Some n) (rErrors c) \<and>
      (if list_ex dotted_string (ovals (retry_settings nd (kSettingsOverrides opts)))
       then item = None \<and> (\<exists>e. reply = EngineThrow e)
       else reply = EngineRun c' \<and>
         (\<exists>q. item = Some q \<and> qRunHash q = h \<and> qNodeHash q = n \<and>
            qSettings q = retry_settings nd (kSettingsOverrides opts)))"
proof (cases "isInProgress (rStatus c) \<or> isWaiting (rStatus c)")
  case True
  with assms(1,5) show ?thesis by (auto simp: retryFromCheckpoint_def)
next
  case False
  have "retryFromCheckpoint env t ops True h opts runs =
    (let c' = retryContext env t n g c; settings = retry_settings nd (kSettingsOverrides opts)
     in if list_ex dotted_string (ovals settings)
        then (oset h c' runs, EngineThrow ''tmpStateManager.getAddress is not a function'', None)
        else (oset h c' runs, EngineRun c', Some (retry_work_info env h n c' nd settings)))"
    using False assms(1-4) by (simp add: retryFromCheckpoint_def retryContext_fields Let_def)
  with assms(5) have answer: "(runs', reply, item) =
    (let c' = retryContext env t n g c; settings = retry_settings nd (kSettingsOverrides opts)
     in if list_ex dotted_string (ovals settings)
        then (oset h c' runs, EngineThrow ''tmpStateManager.getAddress is not a function'', None)
        else (oset h c' runs, EngineRun c', Some (retry_work_info env h n c' nd settings)))"
    by simp
  show ?thesis
    using False answer
    by (cases "list_ex dotted_string (ovals (retry_settings nd (kSettingsOverrides opts)))")
      (auto simp: Let_def retryContext_fields intro!: exI [of _ "retryContext env t n g c"])
qed

end
