(* ===== verification/EngineScenarios.thy ===== *)
theory EngineScenarios
  imports RunProperties
begin

section \<open>Concrete runs of the engine\<close>

text \<open>
  Small operations and runs at which the properties of the engine apply, and the witnesses of
  these properties.
\<close>

subsection \<open>Runs\<close>

lemma idle_queue:
  "rPendingEvents c = [] \<Longrightarrow> processEventQueue env c = Some (pauseIfWaiting c)"
  by (simp add: processEventQueue_def engineRun_def while_option_unfold)

lemma idle_runToEnd:
  "rPendingEvents c = [] \<Longrightarrow> runToEnd env c = Some (finalizeExecution env (pauseIfWaiting c))"
  by (simp add: runToEnd_def idle_queue)

definition demo_node :: "string \<Rightarrow> string \<Rightarrow> node" where
  "demo_node h ty = \<lparr>nHash = h, nType = ty, nDefinitionHash = [], nSettings = None, nData = None,
     nPorts = [], nCapability = [], nAction = [], nTimeoutMs = 0\<rparr>"

definition demo_connection :: connection where
  "demo_connection = \<lparr>cSourceNodeHash = ''s'', cSourcePortHash = ''s-eo-Start'',
     cTargetNodeHash = ''e'', cTargetPortHash = ''e-ei-In'', cConnectionType = ''Event'',
     cTemplate = [], cStateKey = []\<rparr>"

definition demo_graph :: graph where
  "demo_graph = \<lparr>gNodes = [demo_node ''s'' ''start'', demo_node ''e'' ''end''],
     gConnections = [demo_connection]\<rparr>"

definition demo_operation :: "graph \<Rightarrow> operation" where
  "demo_operation g = \<lparr>oHash = ''op'', oName = ''Demo'', oGraph = Some g,
     oInitialGlobalState = [], oInitialOperationState = []\<rparr>"

definition demo_init :: initial_state where
  "demo_init = \<lparr>iGlobalState = [], iOperationState = [], iRunMode = []\<rparr>"

definition demo_waiting :: waiting_task where
  "demo_waiting = \<lparr>wPromptMessage = [], wOutputAddress = [], wResumeEventName = ''Complete'', wTimestamp = 0\<rparr>"

definition demo_manifest :: "string \<Rightarrow> task_manifest" where
  "demo_manifest st = \<lparr>mNodeHash = ''n'', mDefinitionHash = [], mTaskTypeName = [], mCategory = [],
     mCapability = [], mAction = [], mTier = [],
     mExecutions = [\<lparr>xTriggerEvent = [], xStartTimeMs = 1, xStopTimeMs = None, xElapsedMs = None,
       xStatus = st, xEventFired = [], xLog = [], xAttemptNumber = None\<rparr>]\<rparr>"

definition paused_run :: run where
  "paused_run = blank_run\<lparr>rStatus := STATUS_WAITING, rWaitingTasks := [(''n'', demo_waiting)]\<rparr>"

definition busy_run :: run where
  "busy_run = blank_run\<lparr>rStatus := STATUS_IN_PROGRESS, rWaitingTasks := [(''n'', demo_waiting)],
     rTaskManifests := [(''n'', demo_manifest STATUS_IN_PROGRESS)]\<rparr>"

definition failed_run :: run where
  "failed_run = blank_run\<lparr>rStatus := STATUS_FAILED, rTaskManifests := [(''n'', demo_manifest STATUS_ERROR)]\<rparr>"

lemma demo_outputs: "is_obj (output_or_new (rTaskOutputs blank_run) m)"
  by (simp add: blank_run_def output_or_new_def jget_def is_obj_def)

lemma demo_rTaskOutputs:
  "rTaskOutputs paused_run = rTaskOutputs blank_run" "rTaskOutputs busy_run = rTaskOutputs blank_run"
  by (simp_all add: paused_run_def busy_run_def)

subsection \<open>Witnesses\<close>

lemma acyclic_operation_ends_witness:
  "\<exists>r. executeOperation flat_env 1 ''/s'' [] (demo_operation demo_graph) demo_init [] = Some r"
  using acyclic_operation_ends [of "demo_operation demo_graph" demo_graph flat_env
      "\<lambda>n. if n = ''s'' then 1 else 0" 1 "''/s''" "[]" demo_init "[]"]
  by (simp add: demo_operation_def demo_graph_def demo_connection_def)

definition demo_event :: "string \<Rightarrow> pending_event" where
  "demo_event n = \<lparr>TargetNodeHash = n, EventName = ''In''\<rparr>"

lemma events_are_fifo_witness:
  "\<exists>new. rPendingEvents (snd (engineStep flat_env ([Queue], blank_run\<lparr>rPendingEvents := [demo_event ''a'', demo_event ''b'']\<rparr>)))
    = [demo_event ''b''] @ new"
  using events_are_fifo [of flat_env Queue "[]" "blank_run\<lparr>rPendingEvents := [demo_event ''a'', demo_event ''b'']\<rparr>"]
  by (simp add: taken_def)

lemma run_outcome_witness:
  "rStatus (the (runToEnd flat_env busy_run)) = STATUS_WAITING"
proof -
  have run: "runToEnd flat_env busy_run = Some (finalizeExecution flat_env (pauseIfWaiting busy_run))"
    by (rule idle_runToEnd) (simp add: busy_run_def blank_run_def)
  have "rErrors (finalizeExecution flat_env (pauseIfWaiting busy_run)) = []"
    "rTaskOutputs (finalizeExecution flat_env (pauseIfWaiting busy_run)) = []"
    "rWaitingTasks (finalizeExecution flat_env (pauseIfWaiting busy_run)) \<noteq> []"
    by (simp_all add: finalize_frame pause_frame pauseIfWaiting_def Let_def)
      (simp_all add: busy_run_def blank_run_def)
  then show ?thesis
    using run_outcome [OF run] run
    by (simp add: has_stalled_def has_unhandled_error_def) (simp add: busy_run_def)
qed

lemma errors_are_final_witness:
  "\<not> rLive (the (runToEnd flat_env (taskFailed ''n'' ''boom'' busy_run)))"
proof -
  have "rPendingEvents (taskFailed ''n'' ''boom'' busy_run) = []"
    by (simp add: taskFailed_def enqueueDownstream_pending queue_simps)
      (simp add: getDownstreamEvents_def connections_from_def recordEvent_def recordTaskError_def
        has_execution_def on_last_execution_def add_error_def add_effect_def run_log_def busy_run_def
        blank_run_def)
  then have run: "runToEnd flat_env (taskFailed ''n'' ''boom'' busy_run) =
      Some (finalizeExecution flat_env (pauseIfWaiting (taskFailed ''n'' ''boom'' busy_run)))"
    by (rule idle_runToEnd)
  have "has_execution ''n'' busy_run" by (simp add: has_execution_def busy_run_def demo_manifest_def)
  from errors_are_final [OF this run] run show ?thesis by simp
qed

lemma run_without_start_witness:
  "\<exists>c. executeOperation flat_env 1 ''/s'' [] (demo_operation \<lparr>gNodes = [], gConnections = []\<rparr>) demo_init [] =
      Some (oset (run_hash ''op'' 1) c [], EngineError ''No Start node found in the graph.'') \<and>
    rStatus c = STATUS_COMPLETE"
  using run_without_start [of "demo_operation \<lparr>gNodes = [], gConnections = []\<rparr>" "\<lparr>gNodes = [], gConnections = []\<rparr>"
      flat_env 1 "''/s''" "[]" demo_init "[]"]
  by (auto simp: demo_operation_def)

lemma demo_start: "\<exists>runs c. startOperationAsync flat_env 1 staging [] (demo_operation demo_graph) demo_init runs0 =
    (runs, EngineRun c)"
proof -
  have "findStartNode (prepareRun flat_env 1 staging [] (demo_operation demo_graph) demo_graph demo_init s) =
      Some (demo_node ''s'' ''start'')" for s
    by (simp add: findStartNode_def prepareRun_def setGraph_def run_log_def Let_def)
      (simp add: demo_graph_def demo_node_def)
  moreover have "oGraph (demo_operation demo_graph) = Some demo_graph" by (simp add: demo_operation_def)
  ultimately show ?thesis by (simp add: startOperationAsync_def Let_def)
qed

lemma runs_share_hash_witness:
  "\<exists>runs1 c1 runs2 c2.
    startOperationAsync flat_env 1 ''/s1'' [] (demo_operation demo_graph) demo_init [] = (runs1, EngineRun c1) \<and>
    startOperationAsync flat_env 1 ''/s2'' [] (demo_operation demo_graph) demo_init runs1 = (runs2, EngineRun c2) \<and>
    getRun runs2 (rHash c1) = Some c2"
  using demo_start [of "''/s1''" "[]"] demo_start [of "''/s2''"] runs_share_hash by metis

lemma stall_ends_run_witness:
  "\<exists>c'. snd (stallOperation flat_env 5 ''r'' ''n'' \<lparr>aBeaconID = ''b'', aStalledAt = None\<rparr> [(''r'', paused_run)]) = EngineRun c' \<and>
    rStatus c' = STATUS_STALLED"
proof -
  obtain runs' reply where r: "stallOperation flat_env 5 ''r'' ''n'' \<lparr>aBeaconID = ''b'', aStalledAt = None\<rparr>
      [(''r'', paused_run)] = (runs', reply)" by fastforce
  have run: "getRun [(''r'', paused_run)] ''r'' = Some paused_run" by (simp add: getRun_def)
  have open_run: "\<not> isTerminal (rStatus paused_run)" by (simp add: paused_run_def)
  have obj: "is_obj (output_or_new (rTaskOutputs paused_run) ''n'')"
    by (simp add: demo_outputs demo_rTaskOutputs)
  from stall_ends_run [where t' = 0 and n' = "[]" and info' = "\<lparr>aBeaconID = [], aStalledAt = None\<rparr>",
      OF run open_run obj r]
  obtain c' where "reply = EngineRun c'" "rStatus c' = STATUS_STALLED" by (elim exE conjE)
  with r show ?thesis by simp
qed


definition demo_wait_result :: task_result where
  "demo_wait_result = \<lparr>sWaitingForInput = True, sPromptMessage = [], sOutputAddress = [],
     sResumeEventName = ''Complete'', sEventToFire = [], sOutputs = None, sStateWrites = [], sLog = []\<rparr>"

lemma checkpoint_loses_waiting_task_witness:
  "\<exists>m p es. rEffects (taskWaits flat_env ''n'' demo_wait_result busy_run) = es @ [WriteManifest p m] \<and>
    fWaitingTasks m = None"
  using checkpoint_loses_waiting_task [of busy_run flat_env "''run-op-1''" "''n''" demo_wait_result]
  by (fastforce simp: busy_run_def blank_run_def flat_env_def)

definition loaded_run :: run where
  "loaded_run = busy_run\<lparr>rLive := False\<rparr>"

lemma restart_picks_up_runs_witness:
  "rStatus (the (oget (resumeWaitingRuns flat_env 9 (\<lambda>_. None) [(''run-op-1'', loaded_run)]) ''run-op-1'')) = STATUS_ERROR"
proof -
  have "rHash loaded_run = ''run-op-1''" "isInProgress (rStatus loaded_run)" "\<not> rLive loaded_run"
    by (simp_all add: loaded_run_def busy_run_def blank_run_def)
  then show ?thesis
    using restart_picks_up_runs [of "[(''run-op-1'', loaded_run)]" "''run-op-1''" loaded_run flat_env 9 "\<lambda>_. None"]
    by simp
qed

definition production_run :: run where
  "production_run = paused_run\<lparr>rRunMode := ''production''\<rparr>"

lemma production_pause_loses_outputs_witness:
  "materializeIfRef (finalizeExecution flat_env production_run)
     (JObj [(REF_KEY, JStr (output_path ''n'' ''Out''))]) = JUndef"
proof -
  have "rRunMode production_run = ''production''" "isWaiting (rStatus production_run)"
    "\<not> has_stalled production_run" "\<not> has_unhandled_error production_run"
    by (simp_all add: production_run_def paused_run_def has_stalled_def has_unhandled_error_def)
      (simp_all add: blank_run_def)
  moreover have "isOutputRef (JObj [(REF_KEY, JStr (output_path ''n'' ''Out''))])"
    "ref_path (JObj [(REF_KEY, JStr (output_path ''n'' ''Out''))]) = output_path ''n'' ''Out''"
    by (simp_all add: jget_def)
  ultimately show ?thesis
    using production_pause_loses_outputs by blast
qed

definition retry_node :: node where
  "retry_node = (demo_node ''n'' ''beacon-shell-execute'')\<lparr>nSettings := Some [(''File'', JStr ''data.csv'')]\<rparr>"

definition retry_graph :: graph where
  "retry_graph = \<lparr>gNodes = [retry_node], gConnections = []\<rparr>"

lemma retry_resets_failed_node_witness:
  "\<exists>e c'. retryFromCheckpoint flat_env 9 (\<lambda>_. Some (demo_operation retry_graph)) True ''r''
      \<lparr>kNodeHash = [], kSettingsOverrides = []\<rparr> [(''r'', failed_run)] = ([(''r'', c')], EngineThrow e, None) \<and>
    rStatus c' = STATUS_WAITING"
proof -
  let ?opts = "\<lparr>kNodeHash = [], kSettingsOverrides = []\<rparr>"
  obtain runs' reply item where r: "retryFromCheckpoint flat_env 9 (\<lambda>_. Some (demo_operation retry_graph)) True ''r''
      ?opts [(''r'', failed_run)] = (runs', reply, item)" by (metis prod_cases3)
  have target: "retryTarget (kNodeHash ?opts) failed_run = Some ''n''"
    by (simp add: retryTarget_def failed_run_def failed_manifest_def last_status_def demo_manifest_def)
  have graph: "stored_graph (\<lambda>_. Some (demo_operation retry_graph)) (rOperationHash failed_run) = Some retry_graph"
    by (simp add: stored_graph_def demo_operation_def)
  have node: "oget (buildNodeMap retry_graph) ''n'' = Some retry_node"
    by (simp add: buildNodeMap_def retry_graph_def retry_node_def demo_node_def normalizeNode_def)
  have dotted: "list_ex dotted_string (ovals (retry_settings retry_node []))"
    by (simp add: retry_settings_def retry_node_def seed_def dotted_string_def has_dot_def)
  have "\<not> isTerminal s \<or> \<not> isInProgress s \<and> \<not> isWaiting s" for s
    using status_exclusive [of s] by blast
  then have inactive: "\<not> (isInProgress (rStatus failed_run) \<or> isWaiting (rStatus failed_run))"
    using status_kinds(13) by (auto simp: failed_run_def)
  have run: "getRun [(''r'', failed_run)] ''r'' = Some failed_run" by (simp add: getRun_def)
  from retry_resets_failed_node [OF run target graph node r] inactive dotted
  obtain c' e where "runs' = oset ''r'' c' [(''r'', failed_run)]" "rStatus c' = STATUS_WAITING"
      "item = None" "reply = EngineThrow e"
    by (auto split: if_splits)
  with r show ?thesis by auto
qed

end
