(* ===== verification/HubEngineScenarios.thy ===== *)
theory HubEngineScenarios
  imports HubEngine Scenarios EngineScenarios
begin

section \<open>Concrete outcomes that belong to a run\<close>

text \<open>
  The running item of \<open>Scenarios\<close>, with the run it belongs to: paused, executing another branch, or
  paused after an execution. The witnesses of the properties of \<open>HubEngine\<close>.
\<close>

definition started_run :: run where
  "started_run = busy_run\<lparr>rStatus := STATUS_WAITING\<rparr>"

definition demo_result :: work_result where
  "demo_result = \<lparr>Outputs = [(''Out'', JStr ''x'')], Log = []\<rparr>"

lemma running_item:
  "oget (WorkQueue running_state) hash_r = Some (item_at hash_r running_state)"
  "\<not> finalized (Status (item_at hash_r running_state))" "\<not> retriesLeft (item_at hash_r running_state)"
  "RunHash (item_at hash_r running_state) = ''r''" "NodeHash (item_at hash_r running_state) = ''n''"
  "RunHash (item_at hash_r running_state) \<noteq> []" "no_caller hash_r running_state"
  "\<not> StallFinalized (item_at hash_r running_state)"
  using running_r running_r_fields running_r_handlers by (simp_all add: finalized_def no_caller_def)

lemma answer_reaches_run_or_is_lost_witness:
  "\<exists>s' e. completeForRun (run_hub_env 9) flat_env hash_r demo_result running_state [(''r'', busy_run)] =
      Some (CbError e, s', [(''r'', busy_run)]) \<and> oget (rWaitingTasks busy_run) ''n'' \<noteq> None"
proof -
  have "\<not> isWaiting (rStatus busy_run)" by (simp add: busy_run_def)
  then have refused: "\<exists>e. resumeOperation flat_env t ''r'' n v [(''r'', busy_run)] = Some ([(''r'', busy_run)], EngineError e)"
    for t n v by (simp add: resumeOperation_def getRun_def)
  obtain cb s' runs' where r: "completeForRun (run_hub_env 9) flat_env hash_r demo_result running_state
      [(''r'', busy_run)] = Some (cb, s', runs')"
  proof -
    obtain s1 where "completeWorkItem (with_runs [(''r'', busy_run)] (run_hub_env 9)) hash_r demo_result running_state =
        (CbDeferred, s1)"
      "engine_calls running_state s1 = [EngineResume ''r'' ''n'' (result_fields demo_result (item_at hash_r running_state))]"
      using complete_calls [OF running_item(1,2,6) with_runs_simps(1) running_item(7)]
      by (metis running_item(4,5))
    then show thesis
      using that refused [of "Now (run_hub_env 9)" "''n''"] callEngine_one
      by (fastforce simp: completeForRun_def with_engine_resume reply_error_def)
  qed
  have run: "getRun [(''r'', busy_run)] (RunHash (item_at hash_r running_state)) = Some busy_run"
    by (simp add: getRun_def running_item(4))
  from answer_reaches_run_or_is_lost [OF running_item(1,2,6,7) run r]
  show ?thesis
    using r \<open>\<not> isWaiting (rStatus busy_run)\<close> by (auto simp: busy_run_def)
qed

lemma stalled_item_ends_run_witness:
  "\<exists>s' c'. stallForRun (run_hub_env 9) flat_env hash_r running_state [(''r'', paused_run)] =
      Some (CbOk, s', [(''r'', c')]) \<and> rStatus c' = STATUS_STALLED"
proof -
  have run: "getRun [(''r'', paused_run)] (RunHash (item_at hash_r running_state)) = Some paused_run"
    by (simp add: getRun_def running_item(4))
  have obj: "is_obj (output_or_new (rTaskOutputs paused_run) (NodeHash (item_at hash_r running_state)))"
    by (simp add: demo_outputs demo_rTaskOutputs)
  have "\<not> isTerminal (rStatus paused_run)" by (simp add: paused_run_def)
  with stalled_item_ends_run [OF running_item(1,8,6) run obj, of "run_hub_env 9" flat_env]
  show ?thesis by (auto simp: running_item(4))
qed

lemma last_failure_fails_run_witness:
  "\<exists>s' runs' c'. failForRun (run_hub_env 9) flat_env hash_r ''broken'' [] running_state [(''r'', started_run)] =
      Some (CbOk, s', runs') \<and> getRun runs' ''r'' = Some c' \<and> rStatus c' \<in> {STATUS_FAILED, STATUS_STALLED}"
proof -
  let ?runs = "[(''r'', started_run)]"
  let ?w = "item_at hash_r running_state"
  have run: "getRun ?runs (RunHash ?w) = Some started_run" by (simp add: getRun_def running_item(4))
  have waits: "isWaiting (rStatus started_run)" "oget (rWaitingTasks started_run) (NodeHash ?w) \<noteq> None"
    "has_execution (NodeHash ?w) started_run"
    by (simp_all add: started_run_def busy_run_def running_item(5) has_execution_def demo_manifest_def)
  obtain cb s' runs' where r: "failForRun (run_hub_env 9) flat_env hash_r ''broken'' [] running_state ?runs =
      Some (cb, s', runs')"
  proof -
    obtain s1 where s1: "failWorkItem (with_runs ?runs (run_hub_env 9)) hash_r ''broken'' [] running_state = (CbDeferred, s1)"
      "engine_calls running_state s1 = failToEngine (with_runs ?runs (run_hub_env 9)) ''broken'' ?w"
      by (rule fail_calls [OF running_item(1,2,3,6) with_runs_simps(1) running_item(7)])
    have "rPendingEvents (resumeContext flat_env t ''n'' v wt (failed_context t' ''n'' m started_run)) = []" for t t' v wt m
      by (simp add: resumeContext_result failed_context_fields)
        (simp add: started_run_def busy_run_def blank_run_def getDownstreamEvents_def connections_from_def)
    then have "\<exists>x. runToEnd flat_env (resumeContext flat_env t ''n'' v wt (failed_context t' ''n'' m started_run)) = Some x"
      for t t' v wt m by (simp add: idle_runToEnd)
    then have "\<exists>x a. resumeOperation flat_env t ''r'' ''n'' v
        (oset ''r'' (failed_context t' ''n'' m started_run) rs) = Some (x, a)" for t t' v m rs
      by (auto simp: resumeOperation_def getRun_def obj_simps split: option.split)
    then obtain x a where "resumeOperation flat_env (Now (run_hub_env 9)) (RunHash ?w) (NodeHash ?w)
        (JObj [(''StdOut'', JStr (failMessage ''broken'')), (''ExitCode'', JInt (- 1)),
          (''BeaconID'', JStr (beacon_of ?w)), (''_BeaconError'', JBool True)])
        (oset (RunHash ?w) (failed_context (Now (run_hub_env 9)) (NodeHash ?w) ''broken'' started_run)
          (oset (RunHash ?w) (set_resume_event (NodeHash ?w) ''Error'' started_run) ?runs)) = Some (x, a)"
      by (metis running_item(4,5))
    moreover note calls = callEngine_failure [OF run waits(2), of flat_env "Now (run_hub_env 9)" "run_hub_env 9"
        "''broken''", folded s1(2)]
    ultimately have "\<exists>r. failForRun (run_hub_env 9) flat_env hash_r ''broken'' [] running_state ?runs = Some r"
      unfolding failForRun_def s1(1) with_engine_resume [OF calls]
      by (simp split: option.split)
    then show thesis using that by (metis prod_cases3)
  qed
  from last_failure_fails_run [OF running_item(1,2,3,6,7) run waits r] r
  show ?thesis by (auto simp: running_item(4))
qed

end
