(* ===== verification/EventStream.thy ===== *)
theory EventStream
  imports Prelude
begin

section \<open>The event streams of the API server\<close>

text \<open>
  The API server (\<open>web_server/Ultravisor-API-Server.cjs\<close>) fans the events of the queue and of the runs
  out to web sockets and to HTTP long polls (\<open>Ultravisor-LongPollManager.cjs\<close>). It keeps the last
  events in ring buffers, one for the queue and one per run, so that a client can name the last event
  it has seen and be sent the rest. This theory has the buffers, the subscriptions, the waiting polls
  and their handlers.

  A set of objects in the source is a list of their names here, in insertion order; an object that a
  closure still holds after it has left its set stays in the table of objects. The GUIDs drawn by
  \<open>randomUUID\<close> are a parameter, and the frames a socket was sent and the answers of the polls are lists.
\<close>

subsection \<open>Sets of objects\<close>

text \<open>\<open>Set.add\<close> is \<open>push_new\<close> of the prelude.\<close>

definition set_delete :: "'a \<Rightarrow> 'a list \<Rightarrow> 'a list" where
  "set_delete x xs = filter (\<lambda>y. y \<noteq> x) xs"

subsection \<open>State\<close>

record envelope =
  evTopic :: string
  evPayload :: json
  evGUID :: string
  evSeq :: nat
  evAt :: jstime

record run_envelope =
  reType :: string
  reRunHash :: string
  reData :: json
  reGUID :: string
  reSeq :: nat
  reAt :: jstime

datatype ws_frame = QueueFrame envelope | RunFrame run_envelope | AuthRequired string

record web_socket =
  wsOpen :: bool
  wsAuthenticated :: bool
  wsSubscribedRun :: string
  wsFrames :: "ws_frame list"

record poll_waiter =
  pwBucket :: string
  pwSince :: string
  pwLimit :: nat
  pwPrefix :: "string option"
  pwSettled :: bool
  pwTimer :: bool

datatype poll_answer = PollPage "envelope list" string bool | PollGone | PollBusy

record api =
  QueueEventBuffer :: "envelope list"
  QueueEventCap :: nat
  QueueEventSeq :: nat
  QueueSubscribers :: "string list"
  RunSubscriptions :: "string list obj"
  RunEventBuffers :: "run_envelope list obj"
  RunEventSeqs :: "nat obj"
  RunCleanups :: "jstime obj"
  RunEventCap :: nat
  GracePeriodMs :: int
  Sockets :: "web_socket obj"
  PollBuckets :: "string list obj"
  PollWaiters :: "poll_waiter obj"
  MaxPollWaiters :: nat
  PollAnswers :: "(string \<times> poll_answer) list"
  BroadcastTaps :: "string list"
  TapCalls :: "(string \<times> envelope) list"
  TimelineWaiters :: "string list"
  TimelineAnswers :: "string list"
  GUIDsDrawn :: nat

definition initial_api :: api where
  "initial_api = \<lparr>QueueEventBuffer = [], QueueEventCap = 5000, QueueEventSeq = 0, QueueSubscribers = [],
     RunSubscriptions = [], RunEventBuffers = [], RunEventSeqs = [], RunCleanups = [], RunEventCap = 5000,
     GracePeriodMs = 5 * 60 * 1000, Sockets = [], PollBuckets = [(''queue'', []), (''observer'', [])],
     PollWaiters = [], MaxPollWaiters = 1024, PollAnswers = [], BroadcastTaps = [], TapCalls = [],
     TimelineWaiters = [], TimelineAnswers = [], GUIDsDrawn = 0\<rparr>"

text \<open>The surroundings: the GUIDs, the clock, and the services the server finds.\<close>

record api_env =
  RandomUUID :: "nat \<Rightarrow> string"
  ApiNow :: jstime
  SecuredMode :: bool
  PollManagerOn :: bool
  SchedulerSummary :: "json option"

subsection \<open>Ring buffers\<close>

definition push_capped :: "nat \<Rightarrow> 'e \<Rightarrow> 'e list \<Rightarrow> 'e list" where
  "push_capped cap e buf = (let buf' = buf @ [e] in
     if cap < length buf' then drop (length buf' - cap) buf' else buf')"

text \<open>The scan from the newest event backwards; \<open>None\<close> is the index -1.\<close>

primrec scan_back :: "('e \<Rightarrow> string) \<Rightarrow> string \<Rightarrow> 'e list \<Rightarrow> nat \<Rightarrow> nat option" where
  "scan_back key g buf 0 = None"
| "scan_back key g buf (Suc i) = (if key (buf ! i) = g then Some i else scan_back key g buf i)"

definition find_guid :: "('e \<Rightarrow> string) \<Rightarrow> string \<Rightarrow> 'e list \<Rightarrow> nat option" where
  "find_guid key g buf = (if g = [] then None else scan_back key g buf (length buf))"

definition findQueueEventIndex :: "string \<Rightarrow> api \<Rightarrow> nat option" where
  "findQueueEventIndex g a = find_guid evGUID g (QueueEventBuffer a)"

definition run_buffer :: "string \<Rightarrow> api \<Rightarrow> run_envelope list" where
  "run_buffer r a = (case oget (RunEventBuffers a) r of None \<Rightarrow> [] | Some buf \<Rightarrow> buf)"

definition findManifestEventIndex :: "string \<Rightarrow> string \<Rightarrow> api \<Rightarrow> nat option" where
  "findManifestEventIndex r g a =
     (if r = [] \<or> g = [] then None
      else case oget (RunEventBuffers a) r of None \<Rightarrow> None | Some buf \<Rightarrow> find_guid reGUID g buf)"

definition isReplayableQueueTopic :: "string \<Rightarrow> bool" where
  "isReplayableQueueTopic t \<longleftrightarrow>
     \<not> (t = ''queue.summary'' \<or> t = ''queue.replay_begin'' \<or> t = ''queue.replay_complete'' \<or> t = ''queue.reset'')"

definition isReplayableExecutionEventType :: "string \<Rightarrow> bool" where
  "isReplayableExecutionEventType t \<longleftrightarrow>
     \<not> (t = ''execution.replay_begin'' \<or> t = ''execution.replay_complete'' \<or> t = ''execution.reset'')"

definition stampQueueEvent :: "api_env \<Rightarrow> string \<Rightarrow> json \<Rightarrow> api \<Rightarrow> envelope \<times> api" where
  "stampQueueEvent env t p a =
     (let e = \<lparr>evTopic = t, evPayload = p, evGUID = RandomUUID env (GUIDsDrawn a),
               evSeq = Suc (QueueEventSeq a), evAt = ApiNow env\<rparr>;
          a' = a\<lparr>QueueEventSeq := Suc (QueueEventSeq a), GUIDsDrawn := Suc (GUIDsDrawn a)\<rparr>
      in (e, if isReplayableQueueTopic t
             then a'\<lparr>QueueEventBuffer := push_capped (QueueEventCap a) e (QueueEventBuffer a)\<rparr> else a'))"

definition stampManifestEvent :: "api_env \<Rightarrow> string \<Rightarrow> string \<Rightarrow> json \<Rightarrow> api \<Rightarrow> run_envelope \<times> api" where
  "stampManifestEvent env t r d a =
     (let n = Suc (case oget (RunEventSeqs a) r of None \<Rightarrow> 0 | Some k \<Rightarrow> k);
          e = \<lparr>reType = t, reRunHash = r, reData = d, reGUID = RandomUUID env (GUIDsDrawn a), reSeq = n,
               reAt = ApiNow env\<rparr>;
          a' = a\<lparr>RunEventSeqs := oset r n (RunEventSeqs a), GUIDsDrawn := Suc (GUIDsDrawn a)\<rparr>
      in (e, if isReplayableExecutionEventType t
             then a'\<lparr>RunEventBuffers := oset r (push_capped (RunEventCap a) e (run_buffer r a)) (RunEventBuffers a)\<rparr>
             else a'))"

subsection \<open>Sockets\<close>

definition send_frame :: "string \<Rightarrow> ws_frame \<Rightarrow> api \<Rightarrow> api" where
  "send_frame c f a = (case oget (Sockets a) c of
     None \<Rightarrow> a
   | Some w \<Rightarrow> if wsOpen w then a\<lparr>Sockets := oset c (w\<lparr>wsFrames := wsFrames w @ [f]\<rparr>) (Sockets a)\<rparr> else a)"

abbreviation sendQueueEnvelope :: "string \<Rightarrow> envelope \<Rightarrow> api \<Rightarrow> api" where
  "sendQueueEnvelope c e \<equiv> send_frame c (QueueFrame e)"

abbreviation sendManifestEnvelope :: "string \<Rightarrow> run_envelope \<Rightarrow> api \<Rightarrow> api" where
  "sendManifestEnvelope c e \<equiv> send_frame c (RunFrame e)"

definition sendQueueControlFrame :: "api_env \<Rightarrow> string \<Rightarrow> string \<Rightarrow> json \<Rightarrow> api \<Rightarrow> api" where
  "sendQueueControlFrame env c t p a = (let (e, a') = stampQueueEvent env t p a in sendQueueEnvelope c e a')"

definition sendManifestControlFrame :: "api_env \<Rightarrow> string \<Rightarrow> string \<Rightarrow> string \<Rightarrow> json \<Rightarrow> api \<Rightarrow> api" where
  "sendManifestControlFrame env c t r d a =
     (let (e, a') = stampManifestEvent env t r d a in sendManifestEnvelope c e a')"

definition unsubscribeClient :: "string \<Rightarrow> api \<Rightarrow> api" where
  "unsubscribeClient c a = (case oget (Sockets a) c of
     None \<Rightarrow> a
   | Some w \<Rightarrow>
       (let r = wsSubscribedRun w;
            subs = (case oget (RunSubscriptions a) r of
              None \<Rightarrow> RunSubscriptions a
            | Some cs \<Rightarrow> if r = [] then RunSubscriptions a
                else if set_delete c cs = [] then odel r (RunSubscriptions a)
                else oset r (set_delete c cs) (RunSubscriptions a))
        in a\<lparr>RunSubscriptions := subs, Sockets := oset c (w\<lparr>wsSubscribedRun := []\<rparr>) (Sockets a)\<rparr>))"

definition wsConsumerAuthorized :: "api_env \<Rightarrow> string \<Rightarrow> api \<Rightarrow> bool" where
  "wsConsumerAuthorized env c a \<longleftrightarrow> (if \<not> SecuredMode env then True
     else case oget (Sockets a) c of None \<Rightarrow> False | Some w \<Rightarrow> wsAuthenticated w)"

text \<open>A socket that the server closes goes through its close handler, as one closed by the client.\<close>

definition closeSocket :: "string \<Rightarrow> api \<Rightarrow> api" where
  "closeSocket c a =
     (let a1 = unsubscribeClient c a
      in (case oget (Sockets a1) c of None \<Rightarrow> a1
          | Some w \<Rightarrow> a1\<lparr>Sockets := oset c (w\<lparr>wsOpen := False\<rparr>) (Sockets a1)\<rparr>)
         \<lparr>QueueSubscribers := set_delete c (QueueSubscribers a1)\<rparr>)"

definition rejectUnauthenticated :: "string \<Rightarrow> string \<Rightarrow> api \<Rightarrow> api" where
  "rejectUnauthenticated c stream a = closeSocket c (send_frame c
     (AuthRequired (if stream = ''queue'' then ''queue.auth_required'' else ''execution.auth_required'')) a)"

text \<open>\<open>QueueSubscribe\<close>: the replay after the cursor, or a reset, then the summary.\<close>

definition replayQueue :: "api_env \<Rightarrow> string \<Rightarrow> string \<Rightarrow> api \<Rightarrow> api" where
  "replayQueue env c g a = (case findQueueEventIndex g a of
     None \<Rightarrow> sendQueueControlFrame env c ''queue.reset''
       (JObj [(''Reason'', JStr ''history-too-old''), (''LastEventGUID'', JStr g)]) a
   | Some i \<Rightarrow>
       (let es = drop (Suc i) (QueueEventBuffer a);
            a1 = sendQueueControlFrame env c ''queue.replay_begin''
              (JObj [(''FromGUID'', JStr g), (''Count'', JInt (int (length es)))]) a;
            a2 = fold (sendQueueEnvelope c) es a1
        in sendQueueControlFrame env c ''queue.replay_complete''
             (JObj [(''ThroughGUID'', JStr (if es = [] then g else evGUID (last es))),
                    (''Count'', JInt (int (length es)))]) a2))"

definition queueSubscribe :: "api_env \<Rightarrow> string \<Rightarrow> string \<Rightarrow> api \<Rightarrow> api" where
  "queueSubscribe env c g a =
     (if \<not> wsConsumerAuthorized env c a then rejectUnauthenticated c ''queue'' a
      else
        (let a1 = a\<lparr>QueueSubscribers := push_new c (QueueSubscribers a)\<rparr>;
             a2 = if g = [] then a1 else replayQueue env c g a1
         in case SchedulerSummary env of None \<Rightarrow> a2
            | Some p \<Rightarrow> sendQueueControlFrame env c ''queue.summary'' p a2))"

definition queueUnsubscribe :: "string \<Rightarrow> api \<Rightarrow> api" where
  "queueUnsubscribe c a = a\<lparr>QueueSubscribers := set_delete c (QueueSubscribers a)\<rparr>"

text \<open>\<open>Subscribe\<close> to the events of one run.\<close>

definition replayRun :: "api_env \<Rightarrow> string \<Rightarrow> string \<Rightarrow> string \<Rightarrow> api \<Rightarrow> api" where
  "replayRun env c r g a = (case findManifestEventIndex r g a of
     None \<Rightarrow> sendManifestControlFrame env c ''execution.reset'' r
       (JObj [(''Reason'', JStr ''history-too-old''), (''LastEventGUID'', JStr g)]) a
   | Some i \<Rightarrow>
       (let es = drop (Suc i) (run_buffer r a);
            a1 = sendManifestControlFrame env c ''execution.replay_begin'' r
              (JObj [(''FromGUID'', JStr g), (''Count'', JInt (int (length es)))]) a;
            a2 = fold (sendManifestEnvelope c) es a1
        in sendManifestControlFrame env c ''execution.replay_complete'' r
             (JObj [(''ThroughGUID'', JStr (if es = [] then g else reGUID (last es))),
                    (''Count'', JInt (int (length es)))]) a2))"

definition runSubscribe :: "api_env \<Rightarrow> string \<Rightarrow> string \<Rightarrow> string \<Rightarrow> api \<Rightarrow> api" where
  "runSubscribe env c r g a =
     (if \<not> wsConsumerAuthorized env c a then rejectUnauthenticated c ''execution'' a
      else
        (let a1 = unsubscribeClient c a;
             a2 = (case oget (Sockets a1) c of None \<Rightarrow> a1
               | Some w \<Rightarrow> a1\<lparr>Sockets := oset c (w\<lparr>wsSubscribedRun := r\<rparr>) (Sockets a1)\<rparr>);
             cs = (case oget (RunSubscriptions a2) r of None \<Rightarrow> [] | Some cs \<Rightarrow> cs);
             a3 = a2\<lparr>RunSubscriptions := oset r (push_new c cs) (RunSubscriptions a2)\<rparr>
         in if g = [] then a3 else replayRun env c r g a3))"

subsection \<open>Events of a run\<close>

definition scheduleManifestBufferCleanup :: "api_env \<Rightarrow> string \<Rightarrow> api \<Rightarrow> api" where
  "scheduleManifestBufferCleanup env r a =
     (if r = [] then a else a\<lparr>RunCleanups := oset r (ApiNow env + GracePeriodMs a) (RunCleanups a)\<rparr>)"

text \<open>The timer of the cleanup, which fires when its time has come.\<close>

definition manifestCleanupTimer :: "api_env \<Rightarrow> string \<Rightarrow> api \<Rightarrow> api" where
  "manifestCleanupTimer env r a = (case oget (RunCleanups a) r of
     None \<Rightarrow> a
   | Some due \<Rightarrow> if ApiNow env < due then a
       else a\<lparr>RunEventBuffers := odel r (RunEventBuffers a), RunEventSeqs := odel r (RunEventSeqs a),
              RunCleanups := odel r (RunCleanups a)\<rparr>)"

definition onExecutionEvent :: "api_env \<Rightarrow> string \<Rightarrow> string \<Rightarrow> json \<Rightarrow> api \<Rightarrow> api" where
  "onExecutionEvent env t r d a =
     (let (e, a1) = stampManifestEvent env t r d a;
          a2 = (case oget (RunSubscriptions a1) r of None \<Rightarrow> a1
            | Some cs \<Rightarrow> fold (\<lambda>c. sendManifestEnvelope c e) cs a1)
      in if t = ''ExecutionComplete''
         then (scheduleManifestBufferCleanup env r a2)\<lparr>RunSubscriptions := odel r (RunSubscriptions a2)\<rparr>
         else a2)"

subsection \<open>Waiting polls\<close>

definition totalWaiters :: "api \<Rightarrow> nat" where
  "totalWaiters a = sum_list (map length (ovals (PollBuckets a)))"

text \<open>\<open>register\<close> of the poll manager: the answer and the state.\<close>

definition registerWaiter :: "string \<Rightarrow> poll_waiter \<Rightarrow> api \<Rightarrow> bool \<times> api" where
  "registerWaiter h w a = (case oget (PollBuckets a) (pwBucket w) of
     None \<Rightarrow> (False, a)
   | Some ws \<Rightarrow>
       if MaxPollWaiters a \<le> totalWaiters a then (False, a)
       else (True, a\<lparr>PollWaiters := oset h (w\<lparr>pwSettled := False\<rparr>) (PollWaiters a),
                     PollBuckets := oset (pwBucket w) (push_new h ws) (PollBuckets a)\<rparr>))"

definition settleWaiter :: "string \<Rightarrow> api \<Rightarrow> bool \<times> api" where
  "settleWaiter h a = (case oget (PollWaiters a) h of
     None \<Rightarrow> (False, a)
   | Some w \<Rightarrow>
       if pwSettled w then (False, a)
       else (True, a\<lparr>PollWaiters := oset h (w\<lparr>pwSettled := True, pwTimer := False\<rparr>) (PollWaiters a),
              PollBuckets := (case oget (PollBuckets a) (pwBucket w) of
                 None \<Rightarrow> PollBuckets a
               | Some ws \<Rightarrow> oset (pwBucket w) (set_delete h ws) (PollBuckets a))\<rparr>))"

definition cancelWaiter :: "string \<Rightarrow> api \<Rightarrow> api" where
  "cancelWaiter h a = snd (settleWaiter h a)"

definition answerPoll :: "string \<Rightarrow> poll_answer \<Rightarrow> api \<Rightarrow> api" where
  "answerPoll h x a = a\<lparr>PollAnswers := PollAnswers a @ [(h, x)]\<rparr>"

definition poll_filter :: "string option \<Rightarrow> envelope list \<Rightarrow> envelope list" where
  "poll_filter pre es = (case pre of None \<Rightarrow> es
     | Some p \<Rightarrow> filter (\<lambda>e. evTopic e \<noteq> [] \<and> take (length p) (evTopic e) = p) es)"

definition poll_page :: "nat \<Rightarrow> string \<Rightarrow> envelope list \<Rightarrow> bool \<Rightarrow> poll_answer" where
  "poll_page limit since es rest =
     (let out = take limit es
      in PollPage out (if out = [] then since else evGUID (last out)) (rest \<or> limit < length es))"

text \<open>\<open>fTimeout\<close> and \<open>fSatisfy\<close> of a waiting poll; with nothing left after the filter it waits again.\<close>

definition pollTimeoutAnswer :: "string \<Rightarrow> poll_waiter \<Rightarrow> api \<Rightarrow> api" where
  "pollTimeoutAnswer h w = answerPoll h (PollPage [] (pwSince w) False)"

definition satisfyPoll :: "string \<Rightarrow> envelope list \<Rightarrow> bool \<Rightarrow> api \<Rightarrow> api" where
  "satisfyPoll h es rest a = (case oget (PollWaiters a) h of
     None \<Rightarrow> a
   | Some w \<Rightarrow>
       (let es' = poll_filter (pwPrefix w) es
        in if es' = [] then
             (case registerWaiter h w a of
                (True, a') \<Rightarrow> a'
              | (False, a') \<Rightarrow> pollTimeoutAnswer h w a')
           else answerPoll h (poll_page (pwLimit w) (pwSince w) es' rest) a))"

definition drainWaiter :: "string \<Rightarrow> api \<Rightarrow> api" where
  "drainWaiter h a = (case oget (PollWaiters a) h of
     None \<Rightarrow> a
   | Some w \<Rightarrow>
       if pwSettled w then a
       else (case findQueueEventIndex (pwSince w) a of
          None \<Rightarrow> a
        | Some i \<Rightarrow>
            (let avail = drop (Suc i) (QueueEventBuffer a)
             in if avail = [] then a
                else (let n = if 0 < pwLimit w then min (pwLimit w) (length avail) else length avail
                      in satisfyPoll h (take n avail) (n < length avail) (snd (settleWaiter h a))))))"

definition drainOnBroadcast :: "string \<Rightarrow> api \<Rightarrow> api" where
  "drainOnBroadcast b a = (case oget (PollBuckets a) b of
     None \<Rightarrow> a
   | Some ws \<Rightarrow> fold drainWaiter ws a)"

definition drainAllWaiter :: "string \<Rightarrow> api \<Rightarrow> api" where
  "drainAllWaiter h a = (case oget (PollWaiters a) h of
     None \<Rightarrow> a
   | Some w \<Rightarrow> if pwSettled w then a else pollTimeoutAnswer h w (snd (settleWaiter h a)))"

definition drainBucket :: "string \<Rightarrow> api \<Rightarrow> api" where
  "drainBucket b a = (case oget (PollBuckets a) b of
     None \<Rightarrow> a
   | Some ws \<Rightarrow> (let a' = fold drainAllWaiter ws a in a'\<lparr>PollBuckets := oset b [] (PollBuckets a')\<rparr>))"

definition drainAll :: "api \<Rightarrow> api" where
  "drainAll a = fold drainBucket (okeys (PollBuckets a)) a"

text \<open>The request for events: \<open>limit\<close> and \<open>waitMs\<close> are what \<open>parseInt\<close> makes of the query.\<close>

definition poll_limit :: "int option \<Rightarrow> nat" where
  "poll_limit n = (case n of None \<Rightarrow> 500 | Some k \<Rightarrow> if k \<le> 0 then 500 else if 5000 < k then 5000 else nat k)"

definition poll_wait :: "int option \<Rightarrow> int" where
  "poll_wait n = (case n of None \<Rightarrow> 0 | Some k \<Rightarrow> if k < 0 then 0 else if 60000 < k then 60000 else k)"

definition handleLongPollRequest ::
    "api_env \<Rightarrow> string \<Rightarrow> string \<Rightarrow> string option \<Rightarrow> string \<Rightarrow> int option \<Rightarrow> int option \<Rightarrow> api \<Rightarrow> api" where
  "handleLongPollRequest env h b pre since lmt wait a =
     (let limit = poll_limit lmt;
          start = findQueueEventIndex since a
      in if since \<noteq> [] \<and> start = None then answerPoll h PollGone a
         else
           (let avail = poll_filter pre (case start of None \<Rightarrow> QueueEventBuffer a
                  | Some i \<Rightarrow> drop (Suc i) (QueueEventBuffer a))
            in if avail \<noteq> [] \<or> poll_wait wait = 0 then answerPoll h (poll_page limit since avail False) a
               else if \<not> PollManagerOn env then answerPoll h (poll_page limit since [] False) a
               else (let w = \<lparr>pwBucket = b, pwSince = since, pwLimit = limit, pwPrefix = pre,
                              pwSettled = False, pwTimer = False\<rparr>
                     in case registerWaiter h w a of
                          (False, a') \<Rightarrow> answerPoll h PollBusy a'
                        | (True, a') \<Rightarrow> a'\<lparr>PollWaiters := oset h (w\<lparr>pwTimer := True\<rparr>) (PollWaiters a')\<rparr>)))"

abbreviation pollQueue :: "api_env \<Rightarrow> string \<Rightarrow> string \<Rightarrow> int option \<Rightarrow> int option \<Rightarrow> api \<Rightarrow> api" where
  "pollQueue env h \<equiv> handleLongPollRequest env h ''queue'' None"

abbreviation pollObserver :: "api_env \<Rightarrow> string \<Rightarrow> string \<Rightarrow> int option \<Rightarrow> int option \<Rightarrow> api \<Rightarrow> api" where
  "pollObserver env h \<equiv> handleLongPollRequest env h ''observer'' (Some ''observer.'')"

text \<open>The timer of a waiting poll, and the end of its connection.\<close>

definition pollTimer :: "string \<Rightarrow> api \<Rightarrow> api" where
  "pollTimer h a = (case oget (PollWaiters a) h of
     None \<Rightarrow> a
   | Some w \<Rightarrow> if pwTimer w then pollTimeoutAnswer h w (cancelWaiter h a) else a)"

subsection \<open>Taps and requests for the timeline\<close>

text \<open>
  A tap is called with every event that may be replayed; a request for the timeline that has nothing to
  show waits for the next of them. The body of its answer is left out.
\<close>

definition addBroadcastTap :: "string \<Rightarrow> api \<Rightarrow> api" where
  "addBroadcastTap t a = a\<lparr>BroadcastTaps := push_new t (BroadcastTaps a)\<rparr>"

definition removeBroadcastTap :: "string \<Rightarrow> api \<Rightarrow> api" where
  "removeBroadcastTap t a = a\<lparr>BroadcastTaps := set_delete t (BroadcastTaps a)\<rparr>"

definition callTaps :: "envelope \<Rightarrow> api \<Rightarrow> api" where
  "callTaps e a = a\<lparr>TapCalls := TapCalls a @ map (\<lambda>t. (t, e)) (BroadcastTaps a)\<rparr>"

definition drainTimelineWaiters :: "api \<Rightarrow> api" where
  "drainTimelineWaiters a = a\<lparr>TimelineWaiters := [], TimelineAnswers := TimelineAnswers a @ TimelineWaiters a\<rparr>"

definition timelineRequest :: "string \<Rightarrow> bool \<Rightarrow> int option \<Rightarrow> api \<Rightarrow> api" where
  "timelineRequest h content wait a =
     (if poll_wait wait = 0 \<or> content then a\<lparr>TimelineAnswers := TimelineAnswers a @ [h]\<rparr>
      else a\<lparr>TimelineWaiters := push_new h (TimelineWaiters a)\<rparr>)"

definition timelineTimer :: "string \<Rightarrow> api \<Rightarrow> api" where
  "timelineTimer h a = (if h \<notin> set (TimelineWaiters a) then a
     else a\<lparr>TimelineWaiters := set_delete h (TimelineWaiters a), TimelineAnswers := TimelineAnswers a @ [h]\<rparr>)"

definition timelineClosed :: "string \<Rightarrow> api \<Rightarrow> api" where
  "timelineClosed h a = a\<lparr>TimelineWaiters := set_delete h (TimelineWaiters a)\<rparr>"

subsection \<open>Broadcasts of the queue\<close>

definition notifyPolls :: "api_env \<Rightarrow> string \<Rightarrow> api \<Rightarrow> api" where
  "notifyPolls env t a =
     (if isReplayableQueueTopic t \<and> PollManagerOn env then
        (let a' = drainOnBroadcast ''queue'' a
         in if take (length ''observer.'') t = ''observer.'' then drainOnBroadcast ''observer'' a' else a')
      else a)"

definition notifyTaps :: "string \<Rightarrow> envelope \<Rightarrow> api \<Rightarrow> api" where
  "notifyTaps t e a = (if isReplayableQueueTopic t then drainTimelineWaiters (callTaps e a) else a)"

definition broadcastQueueTopic :: "api_env \<Rightarrow> string \<Rightarrow> json \<Rightarrow> api \<Rightarrow> api" where
  "broadcastQueueTopic env t p a =
     (let (e, a1) = stampQueueEvent env t p a;
          a2 = notifyTaps t e (notifyPolls env t a1)
      in fold (\<lambda>c. sendQueueEnvelope c e) (QueueSubscribers a2) a2)"

end
