(* ===== verification/EventFeed.thy ===== *)
theory EventFeed
  imports EventStream
begin

section \<open>What a subscriber of the event stream sees\<close>

text \<open>
  The server's ring buffer holds the end of a log that is kept nowhere. The specification \<open>feed\<close> has
  the log and one subscriber; the refinement theorem says that the server, with a client that follows
  the protocol of its sockets, behaves like the specification: no event is lost or repeated without
  a reset, and a reset happens only when the buffer no longer has the last event seen.
\<close>

subsection \<open>A buffer holds the end of a log\<close>

definition holds_tail :: "nat \<Rightarrow> 'e list \<Rightarrow> 'e list \<Rightarrow> bool" where
  "holds_tail cap lg buf \<longleftrightarrow> buf = drop (length lg - cap) lg"

lemma push_capped_tail:
  assumes "holds_tail cap lg buf"
  shows "holds_tail cap (lg @ [e]) (push_capped cap e buf)"
proof (cases "length lg < cap")
  case True
  with assms show ?thesis by (simp add: holds_tail_def push_capped_def)
next
  case False
  then have "Suc (length lg) - cap = Suc (length lg - cap)" by simp
  with assms False show ?thesis
    by (cases "cap = 0") (simp_all add: holds_tail_def push_capped_def Suc_diff_le)
qed

lemma scan_back_Some: "scan_back key g buf n = Some i \<Longrightarrow> i < n \<and> key (buf ! i) = g"
  by (induction n) (auto split: if_splits)

lemma scan_back_None: "scan_back key g buf n = None \<longleftrightarrow> (\<forall>i<n. key (buf ! i) \<noteq> g)"
  by (induction n) (auto simp: less_Suc_eq)

lemma find_guid_nth:
  assumes "distinct (map key buf)" "i < length buf" "key (buf ! i) \<noteq> []"
  shows "find_guid key (key (buf ! i)) buf = Some i"
proof (cases "find_guid key (key (buf ! i)) buf")
  case None
  with assms show ?thesis by (auto simp: find_guid_def scan_back_None)
next
  case (Some j)
  with assms(3) have "j < length buf" "key (buf ! j) = key (buf ! i)"
    by (auto simp: find_guid_def dest: scan_back_Some)
  with assms(1,2) have "j = i" by (metis distinct_conv_nth length_map nth_map)
  with Some show ?thesis by simp
qed

lemma find_guid_None: "g \<notin> key ` set buf \<Longrightarrow> find_guid key g buf = None"
  by (auto simp: find_guid_def scan_back_None)

text \<open>
  The contract of a replay buffer: an event that may be replayed is pushed into a capped ring, other
  events leave it, and the search finds the place of a GUID in it. The queue and every run keep one.
\<close>

locale replay_buffer =
  fixes ring :: "'s \<Rightarrow> 'e list"
    and cap :: "'s \<Rightarrow> nat"
    and key :: "'e \<Rightarrow> string"
    and search :: "string \<Rightarrow> 's \<Rightarrow> nat option"
    and replayable :: "'x \<Rightarrow> bool"
    and stamp :: "'x \<Rightarrow> 's \<Rightarrow> 'e \<times> 's"
  assumes search_ring: "search g s = find_guid key g (ring s)"
    and stamp_ring: "stamp x s = (e, s') \<Longrightarrow>
      ring s' = (if replayable x then push_capped (cap s) e (ring s) else ring s)"
    and stamp_cap: "stamp x s = (e, s') \<Longrightarrow> cap s' = cap s"
begin

lemma stamp_tail:
  assumes "holds_tail (cap s) lg (ring s)" "stamp x s = (e, s')"
  shows "holds_tail (cap s') (if replayable x then lg @ [e] else lg) (ring s')"
  using assms push_capped_tail by (auto simp: stamp_ring [OF assms(2)] stamp_cap [OF assms(2)])

text \<open>A cursor in the log is found while the buffer reaches back to it, and the rest follows it.\<close>

lemma catch_up:
  assumes "holds_tail (cap s) (pre @ e # missing) (ring s)" "distinct (map key (pre @ e # missing))"
    and "key e \<noteq> []" "length missing < cap s"
  shows "\<exists>i. search (key e) s = Some i \<and> drop (Suc i) (ring s) = missing"
proof -
  let ?d = "length pre + Suc (length missing) - cap s"
  have ring: "ring s = drop ?d pre @ e # missing"
    using assms(1,4) by (simp add: holds_tail_def)
  have nth: "ring s ! (length pre - ?d) = e" by (simp add: ring nth_append)
  have "distinct (map key (ring s))"
    using assms(1,2) by (metis distinct_drop drop_map holds_tail_def)
  then have "find_guid key (key e) (ring s) = Some (length pre - ?d)"
    using find_guid_nth [of key "ring s" "length pre - ?d"] nth assms(3) by (simp add: ring)
  then show ?thesis by (simp add: search_ring ring)
qed

lemma out_of_reach:
  assumes "holds_tail (cap s) (pre @ e # missing) (ring s)" "distinct (map key (pre @ e # missing))"
    and "cap s \<le> length missing"
  shows "search (key e) s = None"
proof -
  have "ring s = drop (length missing - cap s) missing"
    using assms(1,3) by (simp add: holds_tail_def Suc_diff_le)
  with assms(2) show ?thesis
    by (auto simp: search_ring intro!: find_guid_None dest!: in_set_dropD)
qed

end

lemma stamp_queue_fields:
  assumes "stampQueueEvent env t p a = (e, a')"
  shows "QueueEventBuffer a' =
      (if isReplayableQueueTopic t then push_capped (QueueEventCap a) e (QueueEventBuffer a) else QueueEventBuffer a)"
    and "QueueEventCap a' = QueueEventCap a" "GUIDsDrawn a' = Suc (GUIDsDrawn a)" "Sockets a' = Sockets a"
    and "QueueSubscribers a' = QueueSubscribers a" "evTopic e = t" "evGUID e = RandomUUID env (GUIDsDrawn a)"
    and "PollBuckets a' = PollBuckets a" "PollWaiters a' = PollWaiters a" "PollAnswers a' = PollAnswers a"
    and "MaxPollWaiters a' = MaxPollWaiters a" "RunEventBuffers a' = RunEventBuffers a"
  using assms by (auto simp: stampQueueEvent_def Let_def)

lemma stamp_run_fields:
  assumes "stampManifestEvent env t r d a = (e, a')"
  shows "QueueEventBuffer a' = QueueEventBuffer a" "QueueEventCap a' = QueueEventCap a"
    and "GUIDsDrawn a' = Suc (GUIDsDrawn a)" "Sockets a' = Sockets a"
    and "QueueSubscribers a' = QueueSubscribers a" "RunSubscriptions a' = RunSubscriptions a"
    and "PollBuckets a' = PollBuckets a" "PollWaiters a' = PollWaiters a" "PollAnswers a' = PollAnswers a"
    and "MaxPollWaiters a' = MaxPollWaiters a"
  using assms by (auto simp: stampManifestEvent_def Let_def)

interpretation queue: replay_buffer QueueEventBuffer QueueEventCap evGUID findQueueEventIndex
  "isReplayableQueueTopic \<circ> fst" "\<lambda>(t, p). stampQueueEvent env t p" for env
  by standard (auto simp: findQueueEventIndex_def stamp_queue_fields split: prod.splits)

interpretation run_events: replay_buffer "run_buffer (x # xs)" RunEventCap reGUID "findManifestEventIndex (x # xs)"
  "isReplayableExecutionEventType \<circ> fst" "\<lambda>(t, d). stampManifestEvent env t (x # xs) d" for env x xs
  by standard
    (auto simp: findManifestEventIndex_def run_buffer_def find_guid_def stampManifestEvent_def Let_def obj_simps
      split: prod.splits option.split if_splits)

subsection \<open>The handlers as steps\<close>

datatype api_event =
    BroadcastTopic string json
  | RunEvent string string json
  | OpenSocket string bool
  | CloseSocket string
  | QueueSubscribe string string
  | QueueUnsubscribe string
  | RunSubscribe string string string
  | RunUnsubscribe string
  | RunCleanupTimer string
  | PollQueue string string "int option" "int option"
  | PollObserver string string "int option" "int option"
  | PollTimer string
  | PollClosed string
  | Shutdown
  | AddTap string
  | RemoveTap string
  | TimelineRequest string bool "int option"
  | TimelineTimer string
  | TimelineClosed string

definition openSocket :: "string \<Rightarrow> bool \<Rightarrow> api \<Rightarrow> api" where
  "openSocket c auth a = a\<lparr>Sockets := oset c
     \<lparr>wsOpen = True, wsAuthenticated = auth, wsSubscribedRun = [], wsFrames = []\<rparr> (Sockets a)\<rparr>"

fun api_apply :: "api_env \<Rightarrow> api_event \<Rightarrow> api \<Rightarrow> api" where
  "api_apply env (BroadcastTopic t p) a = broadcastQueueTopic env t p a"
| "api_apply env (RunEvent t r d) a = onExecutionEvent env t r d a"
| "api_apply env (OpenSocket c auth) a = openSocket c auth a"
| "api_apply env (CloseSocket c) a = closeSocket c a"
| "api_apply env (QueueSubscribe c g) a = queueSubscribe env c g a"
| "api_apply env (QueueUnsubscribe c) a = queueUnsubscribe c a"
| "api_apply env (RunSubscribe c r g) a = runSubscribe env c r g a"
| "api_apply env (RunUnsubscribe c) a = unsubscribeClient c a"
| "api_apply env (RunCleanupTimer r) a = manifestCleanupTimer env r a"
| "api_apply env (PollQueue h g n w) a = pollQueue env h g n w a"
| "api_apply env (PollObserver h g n w) a = pollObserver env h g n w a"
| "api_apply env (PollTimer h) a = pollTimer h a"
| "api_apply env (PollClosed h) a = cancelWaiter h a"
| "api_apply env Shutdown a = drainAll a"
| "api_apply env (AddTap t) a = addBroadcastTap t a"
| "api_apply env (RemoveTap t) a = removeBroadcastTap t a"
| "api_apply env (TimelineRequest h content w) a = timelineRequest h content w a"
| "api_apply env (TimelineTimer h) a = timelineTimer h a"
| "api_apply env (TimelineClosed h) a = timelineClosed h a"

lemmas timeline_defs = addBroadcastTap_def removeBroadcastTap_def timelineRequest_def timelineTimer_def
  timelineClosed_def callTaps_def drainTimelineWaiters_def notifyTaps_def

subsection \<open>What the polls may change\<close>

definition poll_part :: "api \<Rightarrow> api \<Rightarrow> bool" where
  "poll_part a a' \<longleftrightarrow> QueueEventBuffer a' = QueueEventBuffer a \<and> QueueEventCap a' = QueueEventCap a \<and>
     GUIDsDrawn a' = GUIDsDrawn a \<and> Sockets a' = Sockets a \<and> QueueSubscribers a' = QueueSubscribers a \<and>
     MaxPollWaiters a' = MaxPollWaiters a \<and> RunSubscriptions a' = RunSubscriptions a \<and>
     RunEventBuffers a' = RunEventBuffers a \<and> RunEventCap a' = RunEventCap a"

named_theorems poll_parts \<open>operations that change the polls only\<close>

lemma poll_part_refl [simp, poll_parts]: "poll_part a a"
  by (simp add: poll_part_def)

lemma poll_part_trans: "poll_part a b \<Longrightarrow> poll_part b c \<Longrightarrow> poll_part a c"
  by (simp add: poll_part_def)

lemma poll_part_fields:
  assumes "poll_part a a'"
  shows "QueueEventBuffer a' = QueueEventBuffer a" "QueueEventCap a' = QueueEventCap a"
    and "GUIDsDrawn a' = GUIDsDrawn a" "Sockets a' = Sockets a" "QueueSubscribers a' = QueueSubscribers a"
    and "MaxPollWaiters a' = MaxPollWaiters a" "findQueueEventIndex g a' = findQueueEventIndex g a"
  using assms by (auto simp: poll_part_def findQueueEventIndex_def)

lemma poll_part_fold: "(\<And>x a. poll_part a (f x a)) \<Longrightarrow> poll_part a (fold f xs a)"
  by (induction xs arbitrary: a) (auto intro: poll_part_trans)

lemma poll_part_writes [poll_parts]:
  "poll_part a (a\<lparr>PollBuckets := b\<rparr>)" "poll_part a (a\<lparr>PollWaiters := w\<rparr>)"
  "poll_part a (a\<lparr>PollWaiters := w, PollBuckets := b\<rparr>)" "poll_part a (answerPoll h x a)"
  by (simp_all add: poll_part_def answerPoll_def)

lemma poll_part_timeout [poll_parts]: "poll_part a (pollTimeoutAnswer h w a)"
  by (simp add: pollTimeoutAnswer_def poll_part_writes)

lemma poll_part_register [poll_parts]: "poll_part a (snd (registerWaiter h w a))"
  by (auto simp: registerWaiter_def poll_parts split: option.split)

lemma poll_part_settle [poll_parts]: "poll_part a (snd (settleWaiter h a))"
  by (auto simp: settleWaiter_def poll_parts split: option.split)

lemma poll_part_satisfy: "poll_part a (satisfyPoll h es rest a)"
proof -
  have "poll_part a (case registerWaiter h w a of (True, a') \<Rightarrow> a' | (False, a') \<Rightarrow> pollTimeoutAnswer h w a')" for w
    using poll_part_register [of a h w]
    by (auto split: prod.split bool.split intro: poll_part_trans poll_part_timeout)
  then show ?thesis by (auto simp: satisfyPoll_def Let_def poll_part_writes split: option.split)
qed

lemma poll_part_drainWaiter: "poll_part a (drainWaiter h a)"
  by (auto simp: drainWaiter_def Let_def split: option.split
      intro: poll_part_trans [OF poll_part_settle poll_part_satisfy])

lemma poll_part_drain [poll_parts]: "poll_part a (drainOnBroadcast b a)"
  by (auto simp: drainOnBroadcast_def split: option.split intro: poll_part_fold poll_part_drainWaiter)

lemma poll_part_drainAllWaiter: "poll_part a (drainAllWaiter h a)"
  by (auto simp: drainAllWaiter_def split: option.split
      intro: poll_part_trans [OF poll_part_settle poll_part_timeout])

lemma poll_part_drainAll [poll_parts]: "poll_part a (drainAll a)"
  by (auto simp: drainAll_def drainBucket_def Let_def split: option.split intro!: poll_part_fold
      intro: poll_part_trans [OF poll_part_fold [OF poll_part_drainAllWaiter] poll_part_writes(1)])

lemma poll_part_timer [poll_parts]: "poll_part a (pollTimer h a)"
  by (auto simp: pollTimer_def cancelWaiter_def split: option.split
      intro: poll_part_trans [OF poll_part_settle poll_part_timeout])

lemma poll_part_request [poll_parts]: "poll_part a (handleLongPollRequest env h b pre g n w a)"
proof -
  have "poll_part a (case registerWaiter h x a of (False, a') \<Rightarrow> answerPoll h PollBusy a'
      | (True, a') \<Rightarrow> a'\<lparr>PollWaiters := oset h y (PollWaiters a')\<rparr>)" for x y
    using poll_part_register [of a h x]
    by (auto split: prod.split bool.split intro: poll_part_trans poll_parts)
  then show ?thesis
    by (auto simp: handleLongPollRequest_def Let_def poll_parts split: option.split)
qed

subsection \<open>What a handler sends to one socket\<close>

definition frames_of :: "string \<Rightarrow> api \<Rightarrow> ws_frame list" where
  "frames_of c a = (case oget (Sockets a) c of None \<Rightarrow> [] | Some w \<Rightarrow> wsFrames w)"

definition is_open :: "string \<Rightarrow> api \<Rightarrow> bool" where
  "is_open c a \<longleftrightarrow> (case oget (Sockets a) c of None \<Rightarrow> False | Some w \<Rightarrow> wsOpen w)"

text \<open>The socket gets \<open>fs\<close>; the queue buffer and the subscription of the socket stay.\<close>

definition sends :: "string \<Rightarrow> ws_frame list \<Rightarrow> api \<Rightarrow> api \<Rightarrow> bool" where
  "sends c fs a a' \<longleftrightarrow> QueueEventBuffer a' = QueueEventBuffer a \<and> QueueEventCap a' = QueueEventCap a \<and>
     GUIDsDrawn a \<le> GUIDsDrawn a' \<and> (c \<in> set (QueueSubscribers a') \<longleftrightarrow> c \<in> set (QueueSubscribers a)) \<and>
     (distinct (QueueSubscribers a) \<longrightarrow> distinct (QueueSubscribers a')) \<and>
     is_open c a' = is_open c a \<and> frames_of c a' = frames_of c a @ fs"

lemma sends_refl [simp]: "sends c [] a a"
  by (simp add: sends_def)

lemma sends_trans: "sends c fs a b \<Longrightarrow> sends c gs b d \<Longrightarrow> sends c (fs @ gs) a d"
  by (simp add: sends_def)

lemma sends_open: "sends c fs a a' \<Longrightarrow> is_open c a' = is_open c a"
  by (simp add: sends_def)

lemma sends_polls: "poll_part a a' \<Longrightarrow> sends c [] a a'"
  by (simp add: sends_def poll_part_fields is_open_def frames_of_def)

lemma sends_same: "QueueEventBuffer a' = QueueEventBuffer a \<Longrightarrow> QueueEventCap a' = QueueEventCap a \<Longrightarrow>
    GUIDsDrawn a \<le> GUIDsDrawn a' \<Longrightarrow> Sockets a' = Sockets a \<Longrightarrow> QueueSubscribers a' = QueueSubscribers a \<Longrightarrow>
    sends c [] a a'"
  by (simp add: sends_def is_open_def frames_of_def)

lemma sends_frame: "sends c (if d = c \<and> is_open c a then [f] else []) a (send_frame d f a)"
  by (auto simp: sends_def send_frame_def is_open_def frames_of_def obj_simps split: option.splits)

lemma sends_all: "distinct cs \<Longrightarrow>
    sends c (if c \<in> set cs \<and> is_open c a then [f] else []) a (fold (\<lambda>d. send_frame d f) cs a)"
proof (induction cs arbitrary: a)
  case (Cons d cs)
  note one = sends_frame [of c d a f]
  from Cons.prems have "distinct cs" by simp
  from sends_trans [OF one Cons.IH [OF this]] sends_open [OF one] Cons.prems show ?case
    by (auto split: if_splits)
qed simp

lemma sends_list: "is_open c a \<Longrightarrow> sends c (map g es) a (fold (\<lambda>e. send_frame c (g e)) es a)"
proof (induction es arbitrary: a)
  case (Cons e es)
  have one: "sends c [g e] a (send_frame c (g e) a)" using sends_frame [of c c a "g e"] Cons.prems by simp
  from sends_trans [OF one Cons.IH] Cons.prems sends_open [OF one] show ?case by simp
qed simp

lemma sends_control:
  assumes "\<not> isReplayableQueueTopic t"
  shows "\<exists>e. evTopic e = t \<and>
    sends c (if d = c \<and> is_open c a then [QueueFrame e] else []) a (sendQueueControlFrame env d t p a)"
proof -
  obtain e a' where st: "stampQueueEvent env t p a = (e, a')" by (rule prod.exhaust)
  from stamp_queue_fields [OF st] assms have same: "sends c [] a a'" by (intro sends_same) simp_all
  from sends_trans [OF this sends_frame [of c d a' "QueueFrame e"]] sends_open [OF same] show ?thesis
    by (intro exI [of _ e]) (simp add: sendQueueControlFrame_def st stamp_queue_fields(6) [OF st])
qed

text \<open>A bystander gets no frame of the queue.\<close>

definition bystander :: "string \<Rightarrow> api \<Rightarrow> api \<Rightarrow> bool" where
  "bystander c a a' \<longleftrightarrow> (\<exists>fs. sends c fs a a' \<and> (\<forall>e. QueueFrame e \<notin> set fs))"

named_theorems bystanders \<open>operations for which a socket is a bystander\<close>

lemma bystander_sends: "sends c [] a a' \<Longrightarrow> bystander c a a'"
  by (force simp: bystander_def)

lemma bystander_polls: "poll_part a a' \<Longrightarrow> bystander c a a'"
  by (rule bystander_sends) (rule sends_polls)

lemma bystander_refl [simp, bystanders]: "bystander c a a"
  by (rule bystander_sends) simp

lemma bystander_trans: "bystander c a b \<Longrightarrow> bystander c b d \<Longrightarrow> bystander c a d"
  unfolding bystander_def by (fastforce dest: sends_trans)

lemma bystander_fold: "(\<And>x a. x \<in> set xs \<Longrightarrow> bystander c a (f x a)) \<Longrightarrow> bystander c a (fold f xs a)"
  by (induction xs arbitrary: a) (auto intro: bystander_trans)

lemma bystander_frame [bystanders]: "d \<noteq> c \<or> (\<forall>e. f \<noteq> QueueFrame e) \<Longrightarrow> bystander c a (send_frame d f a)"
  using sends_frame [of c d a f] by (fastforce simp: bystander_def split: if_splits)

lemma bystander_control [bystanders]:
  "d \<noteq> c \<Longrightarrow> \<not> isReplayableQueueTopic t \<Longrightarrow> bystander c a (sendQueueControlFrame env d t p a)"
  using sends_control [of t c d a env p] by (auto intro: bystander_sends)

lemma bystander_stamp_run: "stampManifestEvent env t r x a = (e, a') \<Longrightarrow> bystander c a a'"
  by (intro bystander_sends sends_same) (simp_all add: stamp_run_fields)

lemma bystander_run_control [bystanders]: "bystander c a (sendManifestControlFrame env d t r x a)"
  unfolding sendManifestControlFrame_def
  by (auto split: prod.split intro: bystander_trans [OF bystander_stamp_run bystander_frame])

lemma bystander_unsubscribe [bystanders]: "bystander c a (unsubscribeClient d a)"
  by (rule bystander_sends)
    (auto simp: unsubscribeClient_def Let_def sends_def is_open_def frames_of_def obj_simps split: option.split)

lemma sends_close: "d \<noteq> c \<Longrightarrow> sends c [] a (closeSocket d a)"
  by (auto simp: closeSocket_def unsubscribeClient_def Let_def sends_def is_open_def frames_of_def
      set_delete_def obj_simps split: option.split)

lemma bystander_reject: "d \<noteq> c \<Longrightarrow> bystander c a (rejectUnauthenticated d x a)"
  unfolding rejectUnauthenticated_def
  by (rule bystander_trans [OF bystander_frame bystander_sends [OF sends_close]]) auto

lemma control_topics: "\<not> isReplayableQueueTopic ''queue.summary''" "\<not> isReplayableQueueTopic ''queue.reset''"
  "\<not> isReplayableQueueTopic ''queue.replay_begin''" "\<not> isReplayableQueueTopic ''queue.replay_complete''"
  by (simp_all add: isReplayableQueueTopic_def)

lemma bystander_control_after:
  "bystander c a b \<Longrightarrow> d \<noteq> c \<Longrightarrow> \<not> isReplayableQueueTopic t \<Longrightarrow> bystander c a (sendQueueControlFrame env d t p b)"
  by (rule bystander_trans [OF _ bystander_control])

lemma bystander_run_control_after:
  "bystander c a b \<Longrightarrow> bystander c a (sendManifestControlFrame env d t r x b)"
  by (rule bystander_trans [OF _ bystander_run_control])

lemma bystander_fold_after:
  "bystander c a b \<Longrightarrow> (\<And>x. d \<noteq> c \<or> (\<forall>e. f x \<noteq> QueueFrame e)) \<Longrightarrow>
    bystander c a (fold (\<lambda>x. send_frame d (f x)) xs b)"
  by (rule bystander_trans [OF _ bystander_fold]) (simp_all add: bystander_frame)

lemma bystander_replay: "d \<noteq> c \<Longrightarrow> bystander c a (replayQueue env d g a)"
  unfolding replayQueue_def Let_def
  by (cases "findQueueEventIndex g a")
    (simp_all only: option.case, (intro bystander_control_after bystander_fold_after bystander_refl; simp add: control_topics)+)

lemma bystander_queueSubscribe:
  assumes "d \<noteq> c"
  shows "bystander c a (queueSubscribe env d g a)"
proof -
  let ?a1 = "a\<lparr>QueueSubscribers := push_new d (QueueSubscribers a)\<rparr>"
  have "bystander c a ?a1"
    using assms by (intro bystander_sends) (auto simp: sends_def is_open_def frames_of_def)
  then have "bystander c a (if g = [] then ?a1 else replayQueue env d g ?a1)"
    using bystander_replay [OF assms] by (auto intro: bystander_trans)
  then show ?thesis using assms
    by (auto simp: queueSubscribe_def Let_def control_topics bystander_reject split: option.split
        intro: bystander_control_after)
qed

lemma bystander_replayRun: "bystander c a (replayRun env d r g a)"
  unfolding replayRun_def Let_def
  by (cases "findManifestEventIndex r g a")
    (simp_all only: option.case, (intro bystander_run_control_after bystander_fold_after bystander_refl; simp)+)

lemma bystander_runSubscribe:
  assumes "d \<noteq> c"
  shows "bystander c a (runSubscribe env d r g a)"
proof -
  have "bystander c b ((case oget (Sockets b) d of None \<Rightarrow> b
      | Some w \<Rightarrow> b\<lparr>Sockets := oset d (w\<lparr>wsSubscribedRun := r\<rparr>) (Sockets b)\<rparr>))" for b
    using assms by (intro bystander_sends) (auto simp: sends_def is_open_def frames_of_def obj_simps split: option.split)
  moreover have "bystander c b (b\<lparr>RunSubscriptions := x\<rparr>)" for b x
    by (intro bystander_sends sends_same) simp_all
  ultimately have sub: "bystander c a ((case oget (Sockets (unsubscribeClient d a)) d of None \<Rightarrow> unsubscribeClient d a
      | Some w \<Rightarrow> (unsubscribeClient d a)\<lparr>Sockets := oset d (w\<lparr>wsSubscribedRun := r\<rparr>) (Sockets (unsubscribeClient d a))\<rparr>)
      \<lparr>RunSubscriptions := x\<rparr>)" for x
    by (blast intro: bystander_trans bystander_unsubscribe)
  then show ?thesis
    unfolding runSubscribe_def Let_def
    using bystander_reject [OF assms]
    by (simp only: if_split) (blast intro: bystander_trans bystander_replayRun)
qed

lemma bystander_runEvent: "bystander c a (onExecutionEvent env t r x a)"
proof -
  obtain e a1 where st: "stampManifestEvent env t r x a = (e, a1)" by (rule prod.exhaust)
  let ?a2 = "case oget (RunSubscriptions a1) r of None \<Rightarrow> a1 | Some cs \<Rightarrow> fold (\<lambda>c. sendManifestEnvelope c e) cs a1"
  have "bystander c a ?a2"
    by (rule bystander_trans [OF bystander_stamp_run [OF st]])
      (auto split: option.split intro!: bystander_fold bystander_frame)
  moreover have "bystander c ?a2 ((scheduleManifestBufferCleanup env r ?a2)\<lparr>RunSubscriptions := y\<rparr>)" for y
    by (intro bystander_sends sends_same) (simp_all add: scheduleManifestBufferCleanup_def)
  ultimately show ?thesis
    by (auto simp: onExecutionEvent_def st Let_def intro: bystander_trans)
qed

text \<open>Every handler that is not about the socket, broadcasts of the queue apart.\<close>

fun elsewhere :: "string \<Rightarrow> api_event \<Rightarrow> bool" where
  "elsewhere c (BroadcastTopic t p) = False"
| "elsewhere c (OpenSocket d auth) = (d \<noteq> c)"
| "elsewhere c (CloseSocket d) = (d \<noteq> c)"
| "elsewhere c (QueueSubscribe d g) = (d \<noteq> c)"
| "elsewhere c (QueueUnsubscribe d) = (d \<noteq> c)"
| "elsewhere c (RunSubscribe d r g) = (d \<noteq> c)"
| "elsewhere c ev = True"

lemma bystander_event: "elsewhere c ev \<Longrightarrow> bystander c a (api_apply env ev a)"
proof (cases ev)
  case (RunCleanupTimer r)
  then show ?thesis
    by (auto simp: manifestCleanupTimer_def split: option.split intro!: bystander_sends sends_same)
qed (auto simp: bystander_runEvent bystander_queueSubscribe bystander_runSubscribe bystander_unsubscribe openSocket_def
    queueUnsubscribe_def set_delete_def sends_def is_open_def frames_of_def obj_simps cancelWaiter_def timeline_defs
    intro: bystander_sends sends_close bystander_polls poll_parts)

end
