(* ===== verification/EventRefinement.thy ===== *)
theory EventRefinement
  imports EventFeed
begin

section \<open>The event stream refines an append-only log\<close>

text \<open>
  The specification \<open>feed\<close>: a log of every event that may be replayed, and one subscriber with the
  events it has seen since its last reset. The implementation: the server with any number of other
  sockets and polls, and a client that follows the protocol of the source's comments. It subscribes on a
  fresh socket with the GUID of the last event it has seen, appends the events it is sent, ignores the
  frames of control, and forgets what it has seen at \<open>queue.reset\<close>.
\<close>

subsection \<open>Specification\<close>

record feed =
  fdLog :: "envelope list"
  fdSeen :: "envelope list"
  fdOnline :: bool

datatype feed_event = Appended envelope | Joined | CaughtUp | WasReset | Left

inductive feed_spec :: "nat \<Rightarrow> feed \<Rightarrow> feed_event \<Rightarrow> feed \<Rightarrow> bool" for cap where
  appended: "feed_spec cap s (Appended e)
    (s\<lparr>fdLog := fdLog s @ [e], fdSeen := (if fdOnline s then fdSeen s @ [e] else fdSeen s)\<rparr>)"
| joined: "\<not> fdOnline s \<Longrightarrow> fdSeen s = [] \<Longrightarrow> feed_spec cap s Joined (s\<lparr>fdOnline := True\<rparr>)"
| caught_up: "\<not> fdOnline s \<Longrightarrow> fdSeen s \<noteq> [] \<Longrightarrow> fdLog s = pre @ fdSeen s @ missing \<Longrightarrow>
    length missing < cap \<Longrightarrow> feed_spec cap s CaughtUp (s\<lparr>fdSeen := fdSeen s @ missing, fdOnline := True\<rparr>)"
| was_reset: "\<not> fdOnline s \<Longrightarrow> fdSeen s \<noteq> [] \<Longrightarrow> fdLog s = pre @ fdSeen s @ missing \<Longrightarrow>
    cap \<le> length missing \<Longrightarrow> feed_spec cap s WasReset (s\<lparr>fdSeen := [], fdOnline := True\<rparr>)"
| left: "fdOnline s \<Longrightarrow> feed_spec cap s Left (s\<lparr>fdOnline := False\<rparr>)"

definition feed_init :: "feed \<Rightarrow> bool" where
  "feed_init s \<longleftrightarrow> s = \<lparr>fdLog = [], fdSeen = [], fdOnline = False\<rparr>"

text \<open>What the subscriber has seen is one stretch of the log, up to its end while it is online.\<close>

definition feed_inv :: "feed \<Rightarrow> bool" where
  "feed_inv s \<longleftrightarrow> (\<exists>pre missing. fdLog s = pre @ fdSeen s @ missing \<and> (fdOnline s \<longrightarrow> missing = []))"

lemma feed_invI: "fdLog s = pre @ fdSeen s @ missing \<Longrightarrow> (fdOnline s \<Longrightarrow> missing = []) \<Longrightarrow> feed_inv s"
  unfolding feed_inv_def by blast

interpretation feed: invariant_machine feed_init "feed_spec cap" feed_inv for cap
proof
  show "feed_init s \<Longrightarrow> feed_inv s" for s by (simp add: feed_init_def feed_inv_def)
next
  fix s e s'
  assume "feed_inv s" "feed_spec cap s e s'"
  then obtain pre missing where inv: "fdLog s = pre @ fdSeen s @ missing" "fdOnline s \<Longrightarrow> missing = []"
    by (auto simp: feed_inv_def)
  from \<open>feed_spec cap s e s'\<close> show "feed_inv s'"
  proof cases
    case (appended e)
    with inv show ?thesis by (intro feed_invI [of _ pre "if fdOnline s then [] else missing @ [e]"]) auto
  next
    case joined
    then show ?thesis by (intro feed_invI [of _ "fdLog s" "[]"]) auto
  next
    case (caught_up pre' missing')
    then show ?thesis by (intro feed_invI [of _ pre' "[]"]) auto
  next
    case (was_reset pre' missing')
    then show ?thesis by (intro feed_invI [of _ "fdLog s" "[]"]) auto
  next
    case left
    with inv show ?thesis by (intro feed_invI [of _ pre missing]) auto
  qed
qed

subsection \<open>The server with a client\<close>

record follower =
  foSocket :: "string option"
  foSeen :: "envelope list"

definition cursor :: "follower \<Rightarrow> string" where
  "cursor f = (if foSeen f = [] then [] else evGUID (last (foSeen f)))"

fun receive :: "ws_frame \<Rightarrow> envelope list \<Rightarrow> envelope list" where
  "receive (QueueFrame e) seen =
     (if evTopic e = ''queue.reset'' then [] else if isReplayableQueueTopic (evTopic e) then seen @ [e] else seen)"
| "receive (RunFrame e) seen = seen"
| "receive (AuthRequired t) seen = seen"

definition receive_new :: "string \<Rightarrow> api \<Rightarrow> api \<Rightarrow> follower \<Rightarrow> follower" where
  "receive_new c a a' f = f\<lparr>foSeen := fold receive (drop (length (frames_of c a)) (frames_of c a')) (foSeen f)\<rparr>"

datatype follow_event = Serve api_env api_event | Connect api_env string bool | Disconnect

text \<open>The server never broadcasts a reset; it sends one to a socket that asks for a replay.\<close>

fun broadcast :: "api_event \<Rightarrow> bool" where
  "broadcast (BroadcastTopic t p) = (t \<noteq> ''queue.reset'')"
| "broadcast ev = False"

inductive follow_step :: "(nat \<Rightarrow> string) \<Rightarrow> api \<times> follower \<Rightarrow> follow_event \<Rightarrow> api \<times> follower \<Rightarrow> bool" for uuid where
  serve_online: "RandomUUID env = uuid \<Longrightarrow> foSocket f = Some c \<Longrightarrow> elsewhere c ev \<or> broadcast ev \<Longrightarrow>
    a' = api_apply env ev a \<Longrightarrow> follow_step uuid (a, f) (Serve env ev) (a', receive_new c a a' f)"
| serve_offline: "RandomUUID env = uuid \<Longrightarrow> foSocket f = None \<Longrightarrow>
    follow_step uuid (a, f) (Serve env ev) (api_apply env ev a, f)"
| connect: "RandomUUID env = uuid \<Longrightarrow> foSocket f = None \<Longrightarrow> SecuredMode env \<longrightarrow> auth \<Longrightarrow>
    a0 = openSocket c auth a \<Longrightarrow> a' = queueSubscribe env c (cursor f) a0 \<Longrightarrow>
    follow_step uuid (a, f) (Connect env c auth) (a', receive_new c a0 a' (f\<lparr>foSocket := Some c\<rparr>))"
| disconnect: "foSocket f = Some c \<Longrightarrow>
    follow_step uuid (a, f) Disconnect (closeSocket c a, f\<lparr>foSocket := None\<rparr>)"

definition follow_init :: "nat \<Rightarrow> api \<times> follower \<Rightarrow> bool" where
  "follow_init cap x \<longleftrightarrow> x = (initial_api\<lparr>QueueEventCap := cap\<rparr>, \<lparr>foSocket = None, foSeen = []\<rparr>)"

subsection \<open>The simulation\<close>

definition fresh_guids :: "(nat \<Rightarrow> string) \<Rightarrow> bool" where
  "fresh_guids uuid \<longleftrightarrow> inj uuid \<and> (\<forall>n. uuid n \<noteq> [])"

definition logged :: "(nat \<Rightarrow> string) \<Rightarrow> nat \<Rightarrow> envelope list \<Rightarrow> bool" where
  "logged uuid n lg \<longleftrightarrow> distinct (map evGUID lg) \<and>
     (\<forall>e \<in> set lg. isReplayableQueueTopic (evTopic e) \<and> evGUID e \<in> uuid ` {..<n})"

lemma logged_mono: "logged uuid n lg \<Longrightarrow> n \<le> m \<Longrightarrow> logged uuid m lg"
  by (force simp: logged_def)

lemma logged_push:
  assumes "logged uuid n lg" "fresh_guids uuid" "evGUID e = uuid n" "isReplayableQueueTopic (evTopic e)"
  shows "logged uuid (Suc n) (lg @ [e])"
proof -
  have "uuid n \<notin> uuid ` {..<n}" using assms(2) by (auto simp: fresh_guids_def inj_on_def)
  with assms show ?thesis by (force simp: logged_def lessThan_Suc)
qed

definition follows :: "(nat \<Rightarrow> string) \<Rightarrow> nat \<Rightarrow> api \<times> follower \<Rightarrow> feed \<Rightarrow> bool" where
  "follows uuid cap x s \<longleftrightarrow> (case x of (a, f) \<Rightarrow>
     QueueEventCap a = cap \<and> holds_tail cap (fdLog s) (QueueEventBuffer a) \<and>
     logged uuid (GUIDsDrawn a) (fdLog s) \<and> distinct (QueueSubscribers a) \<and>
     fdSeen s = foSeen f \<and> (fdOnline s \<longleftrightarrow> foSocket f \<noteq> None) \<and>
     (\<forall>c. foSocket f = Some c \<longrightarrow> c \<in> set (QueueSubscribers a) \<and> is_open c a))"

lemma receive_other: "(\<forall>e. QueueFrame e \<notin> set fs) \<Longrightarrow> fold receive fs seen = seen"
proof (induction fs arbitrary: seen)
  case (Cons f fs)
  then show ?case by (cases f) auto
qed simp

lemma receive_events: "\<forall>e \<in> set es. isReplayableQueueTopic (evTopic e) \<Longrightarrow>
    fold receive (map QueueFrame es) seen = seen @ es"
proof (induction es arbitrary: seen)
  case (Cons e es)
  then have "evTopic e \<noteq> ''queue.reset''" by (auto simp: control_topics)
  with Cons show ?case by simp
qed simp

lemma receive_control: "\<not> isReplayableQueueTopic (evTopic e) \<Longrightarrow> evTopic e \<noteq> ''queue.reset'' \<Longrightarrow>
    receive (QueueFrame e) seen = seen"
  by simp

lemma receive_sent: "sends c fs a a' \<Longrightarrow> receive_new c a a' f = f\<lparr>foSeen := fold receive fs (foSeen f)\<rparr>"
  by (simp add: receive_new_def sends_def)

lemma follows_sends:
  assumes "follows uuid cap (a, f) s" "sends c fs a a'" "foSocket f = None \<or> foSocket f = Some c"
    "fold receive fs (foSeen f) = foSeen f"
  shows "follows uuid cap (a', receive_new c a a' f) s" "foSocket f = None \<Longrightarrow> follows uuid cap (a', f) s"
  using assms logged_mono [of uuid "GUIDsDrawn a" "fdLog s" "GUIDsDrawn a'"]
  by (auto simp: follows_def receive_sent [OF assms(2)] sends_def)

text \<open>A broadcast is appended to the log, and sent to the client if it is online.\<close>

lemma broadcast_sends:
  assumes "distinct (QueueSubscribers a)"
  shows "\<exists>e. evTopic e = t \<and> evGUID e = RandomUUID env (GUIDsDrawn a) \<and>
    (let a' = broadcastQueueTopic env t p a; fs = (if c \<in> set (QueueSubscribers a) \<and> is_open c a then [QueueFrame e] else [])
     in QueueEventBuffer a' = (if isReplayableQueueTopic t then push_capped (QueueEventCap a) e (QueueEventBuffer a)
          else QueueEventBuffer a) \<and>
       QueueEventCap a' = QueueEventCap a \<and> GUIDsDrawn a' = Suc (GUIDsDrawn a) \<and>
       QueueSubscribers a' = QueueSubscribers a \<and> is_open c a' = is_open c a \<and>
       frames_of c a' = frames_of c a @ fs)"
proof -
  obtain e a1 where st: "stampQueueEvent env t p a = (e, a1)" by (rule prod.exhaust)
  note f = stamp_queue_fields [OF st]
  let ?a2 = "notifyTaps t e (notifyPolls env t a1)"
  have "poll_part a1 (notifyPolls env t a1)" by (auto simp: notifyPolls_def Let_def intro: poll_part_trans poll_parts)
  then have "poll_part a1 ?a2" by (simp add: poll_part_def timeline_defs)
  note p = poll_part_fields [OF this]
  have "GUIDsDrawn (fold (\<lambda>d. send_frame d x) cs b) = GUIDsDrawn b \<and>
      QueueSubscribers (fold (\<lambda>d. send_frame d x) cs b) = QueueSubscribers b" for cs x b
    by (induction cs arbitrary: b) (simp_all add: send_frame_def split: option.split)
  with sends_all [of "QueueSubscribers ?a2" c ?a2 "QueueFrame e"] assms show ?thesis
    by (intro exI [of _ e])
      (simp add: broadcastQueueTopic_def st Let_def p f sends_def is_open_def frames_of_def)
qed

definition simulated :: "(nat \<Rightarrow> string) \<Rightarrow> nat \<Rightarrow> feed \<Rightarrow> api \<times> follower \<Rightarrow> bool" where
  "simulated uuid cap s x \<longleftrightarrow> (\<exists>s'. (s' = s \<or> (\<exists>e. feed_spec cap s e s')) \<and> follows uuid cap x s')"

lemma simulated_stutter: "follows uuid cap x s \<Longrightarrow> simulated uuid cap s x"
  by (auto simp: simulated_def)

lemma simulated_step: "feed_spec cap s e s' \<Longrightarrow> follows uuid cap x s' \<Longrightarrow> simulated uuid cap s x"
  by (auto simp: simulated_def)

lemma simulate_broadcast:
  assumes "follows uuid cap (a, f) s" "fresh_guids uuid" "RandomUUID env = uuid" "t \<noteq> ''queue.reset''"
    and "foSocket f = None \<or> foSocket f = Some c"
    and "a' = broadcastQueueTopic env t p a"
  shows "simulated uuid cap s (a', if foSocket f = None then f else receive_new c a a' f)"
proof -
  note fol = assms(1) [unfolded follows_def prod.case]
  obtain e where e: "evTopic e = t" "evGUID e = uuid (GUIDsDrawn a)"
    and buf: "QueueEventBuffer a' = (if isReplayableQueueTopic t then push_capped (QueueEventCap a) e (QueueEventBuffer a)
          else QueueEventBuffer a)" "QueueEventCap a' = QueueEventCap a" "GUIDsDrawn a' = Suc (GUIDsDrawn a)"
      "QueueSubscribers a' = QueueSubscribers a" "is_open c a' = is_open c a"
      "frames_of c a' = frames_of c a @ (if c \<in> set (QueueSubscribers a) \<and> is_open c a then [QueueFrame e] else [])"
    using broadcast_sends [of a t env p c] fol assms(3,6) unfolding Let_def by blast
  let ?s = "if isReplayableQueueTopic t then s\<lparr>fdLog := fdLog s @ [e],
      fdSeen := (if fdOnline s then fdSeen s @ [e] else fdSeen s)\<rparr> else s"
  have "follows uuid cap (a', if foSocket f = None then f else receive_new c a a' f) ?s"
    using fol assms(4,5) e buf push_capped_tail [of cap "fdLog s" "QueueEventBuffer a" e]
      logged_push [of uuid "GUIDsDrawn a" "fdLog s" e, OF _ assms(2)]
      logged_mono [of uuid "GUIDsDrawn a" "fdLog s" "Suc (GUIDsDrawn a)"]
    by (auto simp: follows_def receive_new_def)
  then show ?thesis
    by (cases "isReplayableQueueTopic t") (auto intro: simulated_stutter simulated_step appended)
qed

lemma simulate_bystander:
  assumes "follows uuid cap (a, f) s" "bystander c a a'" "foSocket f = None \<or> foSocket f = Some c"
  shows "follows uuid cap (a', if foSocket f = None then f else receive_new c a a' f) s"
proof -
  obtain fs where "sends c fs a a'" "\<forall>e. QueueFrame e \<notin> set fs" using assms(2) by (auto simp: bystander_def)
  with follows_sends [OF assms(1) _ assms(3)] receive_other show ?thesis by (metis (full_types))
qed

lemma ex_elsewhere: "(\<And>t p. ev \<noteq> BroadcastTopic t p) \<Longrightarrow> \<exists>c. elsewhere c ev"
  by (cases ev) (auto intro: exI [of _ "x # xs" for x xs])

text \<open>The subscription of a client with a cursor: a replay of what it has missed, or a reset.\<close>

lemma subscribe_sends:
  assumes "is_open c a" "\<not> SecuredMode env \<or> wsConsumerAuthorized env c a"
  defines "a1 \<equiv> a\<lparr>QueueSubscribers := push_new c (QueueSubscribers a)\<rparr>"
  assumes "sends c fs a1 (if g = [] then a1 else replayQueue env c g a1)"
  shows "\<exists>fs'. sends c (fs @ fs') a1 (queueSubscribe env c g a) \<and> (\<forall>seen. fold receive fs' seen = seen)"
proof (cases "SchedulerSummary env")
  case None
  with assms show ?thesis by (intro exI [of _ "[]"]) (auto simp: queueSubscribe_def wsConsumerAuthorized_def Let_def)
next
  case (Some p)
  let ?a2 = "if g = [] then a1 else replayQueue env c g a1"
  have "is_open c ?a2" using sends_open [OF assms(4)] assms(1) by (simp add: a1_def is_open_def)
  then obtain e where "evTopic e = ''queue.summary''"
    "sends c [QueueFrame e] ?a2 (sendQueueControlFrame env c ''queue.summary'' p ?a2)"
    using sends_control [OF control_topics(1), of c c ?a2 env p] by auto
  with sends_trans [OF assms(4)] Some assms(2) show ?thesis
    by (intro exI [of _ "[QueueFrame e]"]) (auto simp: queueSubscribe_def wsConsumerAuthorized_def Let_def a1_def control_topics)
qed

lemma replay_sends:
  assumes "is_open c a" "findQueueEventIndex g a = Some i"
  shows "\<exists>e1 e2. evTopic e1 = ''queue.replay_begin'' \<and> evTopic e2 = ''queue.replay_complete'' \<and>
    sends c (([QueueFrame e1] @ map QueueFrame (drop (Suc i) (QueueEventBuffer a))) @ [QueueFrame e2]) a (replayQueue env c g a)"
proof -
  let ?es = "drop (Suc i) (QueueEventBuffer a)"
  let ?p = "JObj [(''FromGUID'', JStr g), (''Count'', JInt (int (length ?es)))]"
  let ?a1 = "sendQueueControlFrame env c ''queue.replay_begin'' ?p a"
  let ?a2 = "fold (sendQueueEnvelope c) ?es ?a1"
  obtain e1 where e1: "evTopic e1 = ''queue.replay_begin''" "sends c [QueueFrame e1] a ?a1"
    using sends_control [OF control_topics(3), of c c a env ?p] assms(1) by auto
  have es: "sends c (map QueueFrame ?es) ?a1 ?a2"
    using sends_list [of c ?a1 QueueFrame ?es] sends_open [OF e1(2)] assms(1) by simp
  obtain e2 where e2: "evTopic e2 = ''queue.replay_complete''" "sends c [QueueFrame e2] ?a2 (replayQueue env c g a)"
    using sends_control [OF control_topics(4), of c c ?a2 env] sends_open [OF es] sends_open [OF e1(2)] assms(1,2)
    by (auto simp: replayQueue_def Let_def)
  from sends_trans [OF sends_trans [OF e1(2) es] e2(2)] e1(1) e2(1) show ?thesis by blast
qed

lemma replay_found:
  assumes "is_open c a" "findQueueEventIndex g a = Some i" "\<forall>e \<in> set (drop (Suc i) (QueueEventBuffer a)). isReplayableQueueTopic (evTopic e)"
  shows "\<exists>fs. sends c fs a (replayQueue env c g a) \<and> (\<forall>seen. fold receive fs seen = seen @ drop (Suc i) (QueueEventBuffer a))"
proof -
  let ?es = "drop (Suc i) (QueueEventBuffer a)"
  obtain e1 e2 where e: "evTopic e1 = ''queue.replay_begin''" "evTopic e2 = ''queue.replay_complete''"
    "sends c (([QueueFrame e1] @ map QueueFrame ?es) @ [QueueFrame e2]) a (replayQueue env c g a)"
    using replay_sends [OF assms(1,2)] by blast
  then show ?thesis
    using receive_events [OF assms(3)]
    by (intro exI [of _ "([QueueFrame e1] @ map QueueFrame ?es) @ [QueueFrame e2]"]) (simp add: control_topics)
qed

lemma replay_missing:
  assumes "is_open c a" "findQueueEventIndex g a = None"
  shows "\<exists>fs. sends c fs a (replayQueue env c g a) \<and> (\<forall>seen. fold receive fs seen = [])"
proof -
  obtain e where "evTopic e = ''queue.reset''" "sends c [QueueFrame e] a (replayQueue env c g a)"
    using sends_control [OF control_topics(2), of c c a env] assms by (auto simp: replayQueue_def)
  then show ?thesis by (intro exI [of _ "[QueueFrame e]"]) simp
qed

lemma simulate_connect:
  assumes "follows uuid cap (a, f) s" "feed_inv s" "fresh_guids uuid" "foSocket f = None" "SecuredMode env \<longrightarrow> auth"
    and a0_def: "a0 = openSocket c auth a" and a'_def: "a' = queueSubscribe env c (cursor f) a0"
  shows "simulated uuid cap s (a', receive_new c a0 a' (f\<lparr>foSocket := Some c\<rparr>))"
proof -
  note fol = assms(1) [unfolded follows_def prod.case]
  let ?a1 = "a0\<lparr>QueueSubscribers := push_new c (QueueSubscribers a0)\<rparr>"
  have op: "is_open c a0" "is_open c ?a1" "\<not> SecuredMode env \<or> wsConsumerAuthorized env c a0"
    using assms(5) by (auto simp: a0_def openSocket_def is_open_def wsConsumerAuthorized_def obj_simps)
  have a0: "QueueEventBuffer a0 = QueueEventBuffer a" "QueueEventCap a0 = QueueEventCap a"
    "GUIDsDrawn a0 = GUIDsDrawn a" "QueueSubscribers a0 = QueueSubscribers a"
    by (simp_all add: a0_def openSocket_def)
  obtain pre missing where lg: "fdLog s = pre @ foSeen f @ missing"
    using assms(2) fol by (auto simp: feed_inv_def)
  have result: "follows uuid cap (a', receive_new c a0 a' (f\<lparr>foSocket := Some c\<rparr>)) (s\<lparr>fdSeen := seen', fdOnline := True\<rparr>)"
    if fs: "sends c fs ?a1 (if cursor f = [] then ?a1 else replayQueue env c (cursor f) ?a1)"
      "fold receive fs (foSeen f) = seen'" for fs seen'
  proof -
    obtain fs' where s': "sends c (fs @ fs') ?a1 a'" "\<And>seen. fold receive fs' seen = seen"
      using subscribe_sends [OF op(1,3) fs(1)] unfolding a'_def by blast
    have "receive_new c a0 a' (f\<lparr>foSocket := Some c\<rparr>) = receive_new c ?a1 a' (f\<lparr>foSocket := Some c\<rparr>)"
      by (simp add: receive_new_def frames_of_def)
    with receive_sent [OF s'(1)] s'(2) fs(2)
    have "receive_new c a0 a' (f\<lparr>foSocket := Some c\<rparr>) = f\<lparr>foSocket := Some c, foSeen := seen'\<rparr>" by simp
    moreover have "logged uuid (GUIDsDrawn a') (fdLog s)"
      using fol s'(1) logged_mono by (auto simp: sends_def a0)
    ultimately show ?thesis
      using fol s'(1) op(2) by (auto simp: follows_def sends_def a0)
  qed
  show ?thesis
  proof (cases "foSeen f = []")
    case True
    from result [of "[]" "[]"] True have
      "follows uuid cap (a', receive_new c a0 a' (f\<lparr>foSocket := Some c\<rparr>)) (s\<lparr>fdSeen := [], fdOnline := True\<rparr>)"
      by (auto simp: cursor_def)
    moreover have "s\<lparr>fdSeen := [], fdOnline := True\<rparr> = s\<lparr>fdOnline := True\<rparr>" using fol True by (cases s) simp
    moreover have "feed_spec cap s Joined (s\<lparr>fdOnline := True\<rparr>)" using fol True assms(4) by (intro joined) auto
    ultimately show ?thesis by (metis simulated_step)
  next
    case False
    then obtain seen0 e where seen: "foSeen f = seen0 @ [e]" by (metis rev_exhaust)
    have "evGUID e \<in> uuid ` {..<GUIDsDrawn a}" using fol by (simp add: logged_def lg seen)
    then have e: "evGUID e \<noteq> []" using assms(3) by (metis fresh_guids_def imageE)
    have all: "\<forall>e \<in> set (fdLog s). isReplayableQueueTopic (evTopic e)" "distinct (map evGUID (fdLog s))"
      using fol by (auto simp: logged_def)
    have tail: "holds_tail (QueueEventCap ?a1) ((pre @ seen0) @ e # missing) (QueueEventBuffer ?a1)"
      and dist: "distinct (map evGUID ((pre @ seen0) @ e # missing))"
      using fol all(2) by (simp_all add: a0 lg seen)
    have cur: "cursor f = evGUID e" "cursor f \<noteq> []" using e by (simp_all add: cursor_def seen)
    show ?thesis
    proof (cases "length missing < cap")
      case True
      then have "length missing < QueueEventCap ?a1" using fol by (simp add: a0)
      from queue.catch_up [OF tail dist e this] obtain i where
        i: "findQueueEventIndex (evGUID e) ?a1 = Some i" "drop (Suc i) (QueueEventBuffer ?a1) = missing" by blast
      have "\<forall>e \<in> set (drop (Suc i) (QueueEventBuffer ?a1)). isReplayableQueueTopic (evTopic e)"
        unfolding i(2) using all(1) by (simp add: lg)
      from replay_found [OF op(2) i(1) this, of env] obtain fs where
        "sends c fs ?a1 (replayQueue env c (evGUID e) ?a1)" "\<And>seen. fold receive fs seen = seen @ missing"
        unfolding i(2) by blast
      with result [of fs "foSeen f @ missing"] cur have
        "follows uuid cap (a', receive_new c a0 a' (f\<lparr>foSocket := Some c\<rparr>)) (s\<lparr>fdSeen := foSeen f @ missing, fdOnline := True\<rparr>)"
        by auto
      moreover have "feed_spec cap s CaughtUp (s\<lparr>fdSeen := fdSeen s @ missing, fdOnline := True\<rparr>)"
        using fol False lg True assms(4) by (intro caught_up) auto
      ultimately show ?thesis using fol by (metis simulated_step)
    next
      case False
      then have "QueueEventCap ?a1 \<le> length missing" using fol by (simp add: a0)
      from queue.out_of_reach [OF tail dist this] have "findQueueEventIndex (evGUID e) ?a1 = None" .
      from replay_missing [OF op(2) this, of env] obtain fs where
        "sends c fs ?a1 (replayQueue env c (evGUID e) ?a1)" "\<And>seen. fold receive fs seen = []" by blast
      with result [of fs "[]"] cur have
        "follows uuid cap (a', receive_new c a0 a' (f\<lparr>foSocket := Some c\<rparr>)) (s\<lparr>fdSeen := [], fdOnline := True\<rparr>)"
        by auto
      moreover have "feed_spec cap s WasReset (s\<lparr>fdSeen := [], fdOnline := True\<rparr>)"
        using fol \<open>foSeen f \<noteq> []\<close> lg False assms(4) by (intro was_reset) auto
      ultimately show ?thesis by (metis simulated_step)
    qed
  qed
qed

lemma simulate_serve:
  assumes "follows uuid cap (a, f) s" "fresh_guids uuid" "RandomUUID env = uuid"
    and "foSocket f = None \<or> (\<exists>c. foSocket f = Some c \<and> (elsewhere c ev \<or> broadcast ev))"
  shows "simulated uuid cap s (api_apply env ev a,
    case foSocket f of None \<Rightarrow> f | Some c \<Rightarrow> receive_new c a (api_apply env ev a) f)"
proof (cases "\<exists>t p. ev = BroadcastTopic t p")
  case True
  then obtain t p where ev: "ev = BroadcastTopic t p" by blast
  show ?thesis
  proof (cases "t = ''queue.reset''")
    case False
    then show ?thesis
      using simulate_broadcast [OF assms(1-3) False _ refl, of "case foSocket f of None \<Rightarrow> [] | Some c \<Rightarrow> c"] ev
      by (cases "foSocket f") simp_all
  next
    case True
    with assms(4) ev have off: "foSocket f = None" by auto
    note fol = assms(1) [unfolded follows_def prod.case]
    obtain e where "QueueEventBuffer (api_apply env ev a) = QueueEventBuffer a" "QueueEventCap (api_apply env ev a) = QueueEventCap a"
      "GUIDsDrawn (api_apply env ev a) = Suc (GUIDsDrawn a)" "QueueSubscribers (api_apply env ev a) = QueueSubscribers a"
      using broadcast_sends [of a t env p] fol True ev by (auto simp: control_topics Let_def)
    with off fol logged_mono [of uuid "GUIDsDrawn a" "fdLog s" "Suc (GUIDsDrawn a)"] show ?thesis
      by (intro simulated_stutter) (simp add: follows_def)
  qed
next
  case False
  then obtain d where "elsewhere d ev" using ex_elsewhere [of ev] by blast
  then obtain c where c: "elsewhere c ev" "foSocket f = None \<or> foSocket f = Some c"
    using assms(4) False by (cases "foSocket f"; cases ev) auto
  from simulate_bystander [OF assms(1) bystander_event [OF c(1), of a env] c(2)] c(2) show ?thesis
    by (intro simulated_stutter) (auto split: option.split)
qed

lemma simulate_disconnect:
  assumes "follows uuid cap (a, f) s" "foSocket f = Some c"
  shows "simulated uuid cap s (closeSocket c a, f\<lparr>foSocket := None\<rparr>)"
proof -
  have "sends (CHR ''x'' # c) [] a (closeSocket c a)" by (rule sends_close) simp
  with assms have "follows uuid cap (closeSocket c a, f\<lparr>foSocket := None\<rparr>) (s\<lparr>fdOnline := False\<rparr>)"
    using logged_mono [of uuid "GUIDsDrawn a" "fdLog s" "GUIDsDrawn (closeSocket c a)"]
    by (auto simp: follows_def sends_def)
  then show ?thesis using assms by (intro simulated_step [OF left]) (simp add: follows_def)
qed

lemma simulate_step:
  assumes "follow_step uuid x ev x'" "follows uuid cap x s" "feed_inv s" "fresh_guids uuid"
  shows "simulated uuid cap s x'"
  using assms(1)
proof cases
  case (serve_online env f c e a' a)
  with simulate_serve [of uuid cap a f s env e] assms show ?thesis by auto
next
  case (serve_offline env f a e)
  with simulate_serve [of uuid cap a f s env e] assms show ?thesis by simp
next
  case connect
  with simulate_connect assms show ?thesis by simp
next
  case (disconnect f c a)
  with simulate_disconnect assms show ?thesis by simp
qed

lemma follow_refines:
  assumes "reach (follow_init cap) (follow_step uuid) x" "fresh_guids uuid"
  shows "\<exists>s. reach feed_init (feed_spec cap) s \<and> follows uuid cap x s"
  using assms(1)
proof (induction rule: reach.induct)
  case (reach_init x)
  let ?s = "\<lparr>fdLog = [], fdSeen = [], fdOnline = False\<rparr>"
  have "follows uuid cap x ?s"
    using reach_init by (simp add: follow_init_def follows_def initial_api_def holds_tail_def logged_def)
  moreover have "reach feed_init (feed_spec cap) ?s" by (rule reach.reach_init) (simp add: feed_init_def)
  ultimately show ?case by blast
next
  case (reach_step x e x')
  then obtain s where s: "reach feed_init (feed_spec cap) s" "follows uuid cap x s" by blast
  from simulate_step [OF reach_step.hyps(2) s(2) feed.reach_inv [OF s(1)] assms(2)] s(1) show ?case
    by (auto simp: simulated_def intro: reach.reach_step)
qed


subsection \<open>A client that comes back\<close>

definition demo_uuid :: "nat \<Rightarrow> string" where
  "demo_uuid n = CHR ''e'' # show_nat n"

lemma fresh_demo: "fresh_guids demo_uuid"
  by (auto simp: fresh_guids_def demo_uuid_def inj_on_def dest: show_nat_inj)

definition demo_api_env :: api_env where
  "demo_api_env = \<lparr>RandomUUID = demo_uuid, ApiNow = 0, SecuredMode = False, PollManagerOn = True,
     SchedulerSummary = Some JNull\<rparr>"

fun follow_next :: "follow_event \<Rightarrow> api \<times> follower \<Rightarrow> api \<times> follower" where
  "follow_next (Serve env ev) (a, f) = (case foSocket f of
     None \<Rightarrow> (api_apply env ev a, f)
   | Some c \<Rightarrow> (let a' = api_apply env ev a in (a', receive_new c a a' f)))"
| "follow_next (Connect env c auth) (a, f) =
     (let a0 = openSocket c auth a; a' = queueSubscribe env c (cursor f) a0
      in (a', receive_new c a0 a' (f\<lparr>foSocket := Some c\<rparr>)))"
| "follow_next Disconnect (a, f) = (case foSocket f of
     None \<Rightarrow> (a, f) | Some c \<Rightarrow> (closeSocket c a, f\<lparr>foSocket := None\<rparr>))"

fun follow_ok :: "follow_event \<Rightarrow> follower \<Rightarrow> bool" where
  "follow_ok (Serve env ev) f \<longleftrightarrow> (case foSocket f of None \<Rightarrow> True | Some c \<Rightarrow> elsewhere c ev \<or> broadcast ev)"
| "follow_ok (Connect env c auth) f \<longleftrightarrow> foSocket f = None \<and> (SecuredMode env \<longrightarrow> auth)"
| "follow_ok Disconnect f \<longleftrightarrow> foSocket f \<noteq> None"

fun draws :: "(nat \<Rightarrow> string) \<Rightarrow> follow_event \<Rightarrow> bool" where
  "draws uuid (Serve env ev) = (RandomUUID env = uuid)"
| "draws uuid (Connect env c auth) = (RandomUUID env = uuid)"
| "draws uuid Disconnect = True"

fun follow_run :: "follow_event list \<Rightarrow> api \<times> follower \<Rightarrow> (api \<times> follower) option" where
  "follow_run [] x = Some x"
| "follow_run (ev # evs) x = (if follow_ok ev (snd x) then follow_run evs (follow_next ev x) else None)"

lemma follow_next_step: "follow_ok ev (snd x) \<Longrightarrow> draws uuid ev \<Longrightarrow> follow_step uuid x ev (follow_next ev x)"
  by (cases x; cases ev)
    (auto simp: Let_def split: option.splits
      intro: serve_online serve_offline connect [OF _ _ _ refl refl] disconnect)

lemma follow_run_reach: "follow_run evs x = Some y \<Longrightarrow> list_all (draws uuid) evs \<Longrightarrow>
    reach (follow_init cap) (follow_step uuid) x \<Longrightarrow> reach (follow_init cap) (follow_step uuid) y"
proof (induction evs arbitrary: x)
  case (Cons ev evs)
  then have ok: "follow_ok ev (snd x)" "follow_run evs (follow_next ev x) = Some y" by (auto split: if_splits)
  from ok(1) Cons.prems(2) have "follow_step uuid x ev (follow_next ev x)" by (intro follow_next_step) auto
  from Cons.IH [OF ok(2) _ reach.reach_step [OF Cons.prems(3) this]] Cons.prems(2) show ?case by simp
qed simp

definition demo_event :: "string \<Rightarrow> follow_event" where
  "demo_event t = Serve demo_api_env (BroadcastTopic t JNull)"

text \<open>A client sees one event, is away for two and comes back before a fourth.\<close>

definition demo_story :: "follow_event list" where
  "demo_story = [Connect demo_api_env ''s1'' True, demo_event ''queue.enqueued'', Disconnect,
     demo_event ''queue.dispatched'', demo_event ''queue.running'', Connect demo_api_env ''s2'' True,
     demo_event ''queue.completed'']"

definition demo_server :: "api \<times> follower" where
  "demo_server = (initial_api\<lparr>QueueEventCap := 3\<rparr>, \<lparr>foSocket = None, foSeen = []\<rparr>)"

definition returned :: "api \<times> follower" where
  "returned = the (follow_run demo_story demo_server)"

lemma returned_run: "follow_run demo_story demo_server = Some returned"
  and returned_fields: "map evTopic (foSeen (snd returned)) =
      [''queue.enqueued'', ''queue.dispatched'', ''queue.running'', ''queue.completed'']"
    "foSocket (snd returned) = Some ''s2''"
proof -
  have "map_option (\<lambda>x. (map evTopic (foSeen (snd x)), foSocket (snd x))) (follow_run demo_story demo_server) =
    Some ([''queue.enqueued'', ''queue.dispatched'', ''queue.running'', ''queue.completed''], Some ''s2'')" by code_simp
  then show "follow_run demo_story demo_server = Some returned" "map evTopic (foSeen (snd returned)) =
      [''queue.enqueued'', ''queue.dispatched'', ''queue.running'', ''queue.completed'']"
    "foSocket (snd returned) = Some ''s2''" by (auto simp: returned_def)
qed

lemma returned_reach: "reach (follow_init 3) (follow_step demo_uuid) returned"
proof (rule follow_run_reach [OF returned_run])
  show "list_all (draws demo_uuid) demo_story" by (simp add: demo_story_def demo_event_def demo_api_env_def)
  show "reach (follow_init 3) (follow_step demo_uuid) demo_server"
    by (rule reach.reach_init) (simp add: follow_init_def demo_server_def)
qed


end
