(* ===== verification/PollProperties.thy ===== *)
theory PollProperties
  imports EventRefinement
begin

section \<open>Polls for events\<close>

text \<open>
  The long polls of the event stream: the invariant between the table of waiting polls, the buckets and
  the answers, and what follows for one request; the pages a polling client reads; and the polls that
  the code leaves without an answer. A request is named by its number, and numbers are not reused.
\<close>

subsection \<open>The invariant of the polls\<close>

lemma sum_write:
  assumes "owf ob" "oget ob k = Some v"
  shows "sum_list (map f (ovals (oset k v' ob))) + f v = sum_list (map f (ovals ob)) + (f v' :: nat)"
  using assms by (induction ob) (auto split: if_splits)

definition answered :: "api \<Rightarrow> string set" where
  "answered a = fst ` set (PollAnswers a)"

definition waiting :: "string \<Rightarrow> string \<Rightarrow> api \<Rightarrow> bool" where
  "waiting h b a \<longleftrightarrow> (\<exists>w. oget (PollWaiters a) h = Some w \<and> \<not> pwSettled w \<and> pwBucket w = b)"

text \<open>A request is idle when it does not wait and has no answer.\<close>

definition idle :: "string \<Rightarrow> api \<Rightarrow> bool" where
  "idle h a \<longleftrightarrow> h \<notin> answered a \<and> (\<forall>w. oget (PollWaiters a) h = Some w \<longrightarrow> pwSettled w)"

definition waiter_ok :: "api \<Rightarrow> string \<Rightarrow> poll_waiter \<Rightarrow> bool" where
  "waiter_ok a h w \<longleftrightarrow> (if pwSettled w then \<not> pwTimer w else h \<notin> answered a) \<and>
     oget (PollBuckets a) (pwBucket w) \<noteq> None"

definition bucket_ok :: "api \<Rightarrow> string \<Rightarrow> string list \<Rightarrow> bool" where
  "bucket_ok a b ws \<longleftrightarrow> distinct ws \<and> (\<forall>h. h \<in> set ws \<longleftrightarrow> waiting h b a)"

definition polls_ok :: "api \<Rightarrow> bool" where
  "polls_ok a \<longleftrightarrow> owf (PollBuckets a) \<and>
     (\<forall>b ws. oget (PollBuckets a) b = Some ws \<longrightarrow> bucket_ok a b ws) \<and>
     (\<forall>h w. oget (PollWaiters a) h = Some w \<longrightarrow> waiter_ok a h w) \<and>
     distinct (map fst (PollAnswers a)) \<and> totalWaiters a \<le> MaxPollWaiters a"

lemma answered_simps [simp]: "answered (answerPoll h x a) = insert h (answered a)"
  "answered (a\<lparr>PollWaiters := w\<rparr>) = answered a" "answered (a\<lparr>PollBuckets := b\<rparr>) = answered a"
  by (simp_all add: answered_def answerPoll_def)

lemma answer_frame [simp]: "PollBuckets (answerPoll h x a) = PollBuckets a"
  "PollWaiters (answerPoll h x a) = PollWaiters a" "MaxPollWaiters (answerPoll h x a) = MaxPollWaiters a"
  "totalWaiters (answerPoll h x a) = totalWaiters a" "waiting k b (answerPoll h x a) = waiting k b a"
  by (simp_all add: answerPoll_def totalWaiters_def waiting_def)

lemma polls_okI:
  assumes "owf (PollBuckets a)" "\<And>b ws. oget (PollBuckets a) b = Some ws \<Longrightarrow> bucket_ok a b ws"
    and "\<And>h w. oget (PollWaiters a) h = Some w \<Longrightarrow> waiter_ok a h w"
    and "distinct (map fst (PollAnswers a))" "totalWaiters a \<le> MaxPollWaiters a"
  shows "polls_ok a"
  unfolding polls_ok_def using assms by blast

lemma polls_okD:
  assumes "polls_ok a"
  shows "owf (PollBuckets a)" "oget (PollBuckets a) b = Some ws \<Longrightarrow> bucket_ok a b ws"
    and "oget (PollWaiters a) h = Some w \<Longrightarrow> waiter_ok a h w"
    and "distinct (map fst (PollAnswers a))" "totalWaiters a \<le> MaxPollWaiters a"
  using assms unfolding polls_ok_def by blast+

lemma has_bucket: "waiter_ok a h w \<Longrightarrow> \<exists>ws. oget (PollBuckets a) (pwBucket w) = Some ws"
  unfolding waiter_ok_def by blast

lemma idle_not_waiting: "idle h a \<Longrightarrow> \<not> waiting h b a"
  by (auto simp: idle_def waiting_def)

lemma answer_ok:
  assumes ok: "polls_ok a" and "idle h a"
  shows "polls_ok (answerPoll h x a)"
proof (rule polls_okI)
  show "bucket_ok (answerPoll h x a) b ws" if "oget (PollBuckets (answerPoll h x a)) b = Some ws" for b ws
    using polls_okD(2) [OF ok, of b ws] that by (simp add: bucket_ok_def)
  show "waiter_ok (answerPoll h x a) k w" if "oget (PollWaiters (answerPoll h x a)) k = Some w" for k w
  proof -
    have w: "oget (PollWaiters a) k = Some w" using that by simp
    have "k = h \<Longrightarrow> pwSettled w" using w assms(2) unfolding idle_def by blast
    with polls_okD(3) [OF ok w] show ?thesis by (auto simp: waiter_ok_def)
  qed
  show "distinct (map fst (PollAnswers (answerPoll h x a)))"
    using polls_okD(4) [OF ok] assms(2) by (simp add: answerPoll_def idle_def answered_def)
qed (use polls_okD(1,5) [OF ok] in simp_all)

lemma settle_waiting:
  assumes "oget (PollWaiters a) h = Some w" "\<not> pwSettled w" "oget (PollBuckets a) (pwBucket w) = Some ws"
  shows "snd (settleWaiter h a) =
    a\<lparr>PollWaiters := oset h (w\<lparr>pwSettled := True, pwTimer := False\<rparr>) (PollWaiters a),
      PollBuckets := oset (pwBucket w) (set_delete h ws) (PollBuckets a)\<rparr>"
  using assms by (simp add: settleWaiter_def)

lemma settle_other: "\<nexists>w. oget (PollWaiters a) h = Some w \<and> \<not> pwSettled w \<Longrightarrow> snd (settleWaiter h a) = a"
  by (auto simp: settleWaiter_def split: option.split)

lemma settle_ok:
  assumes ok: "polls_ok a"
  shows "polls_ok (snd (settleWaiter h a))"
proof (cases "\<exists>w. oget (PollWaiters a) h = Some w \<and> \<not> pwSettled w")
  case True
  then obtain w ws where w: "oget (PollWaiters a) h = Some w" "\<not> pwSettled w"
    "oget (PollBuckets a) (pwBucket w) = Some ws"
    using has_bucket polls_okD(3) [OF ok] by blast
  let ?a = "a\<lparr>PollWaiters := oset h (w\<lparr>pwSettled := True, pwTimer := False\<rparr>) (PollWaiters a),
      PollBuckets := oset (pwBucket w) (set_delete h ws) (PollBuckets a)\<rparr>"
  have wait: "waiting k b ?a \<longleftrightarrow> waiting k b a \<and> k \<noteq> h" for k b by (simp add: waiting_def obj_simps)
  have only: "waiting h b a \<Longrightarrow> b = pwBucket w" for b using w(1) by (simp add: waiting_def)
  have "polls_ok ?a"
  proof (rule polls_okI)
    show "owf (PollBuckets ?a)" using polls_okD(1) [OF ok] by (simp add: jo.wf_set)
    show "distinct (map fst (PollAnswers ?a))" using polls_okD(4) [OF ok] by simp
    have "length (set_delete h ws) \<le> length ws" by (simp add: set_delete_def)
    then show "totalWaiters ?a \<le> MaxPollWaiters ?a"
      using sum_write [OF polls_okD(1) [OF ok] w(3), of length "set_delete h ws"] polls_okD(5) [OF ok]
      by (simp add: totalWaiters_def)
    show "bucket_ok ?a b vs" if "oget (PollBuckets ?a) b = Some vs" for b vs
    proof (cases "b = pwBucket w")
      case True
      with that have "vs = set_delete h ws" by (simp add: obj_simps)
      with polls_okD(2) [OF ok w(3)] True show ?thesis
        unfolding bucket_ok_def wait by (simp add: set_delete_def)
    next
      case False
      with that have "oget (PollBuckets a) b = Some vs" by (simp add: obj_simps)
      with polls_okD(2) [OF ok] only False show ?thesis unfolding bucket_ok_def wait by blast
    qed
    show "waiter_ok ?a k v" if "oget (PollWaiters ?a) k = Some v" for k v
    proof (cases "k = h")
      case True
      with that have "v = w\<lparr>pwSettled := True, pwTimer := False\<rparr>" by (simp add: oget_oset)
      then show ?thesis by (simp add: waiter_ok_def oget_oset)
    next
      case False
      with that have "oget (PollWaiters a) k = Some v" by (simp add: oget_oset)
      from polls_okD(3) [OF ok this] show ?thesis by (auto simp: waiter_ok_def oget_oset)
    qed
  qed
  with settle_waiting [OF w] show ?thesis by simp
next
  case False
  with ok settle_other show ?thesis by metis
qed

lemma settle_idle:
  assumes "polls_ok a" "oget (PollWaiters a) h = Some w" "\<not> pwSettled w"
  shows "idle h (snd (settleWaiter h a))" "oget (PollWaiters (snd (settleWaiter h a))) h = Some (w\<lparr>pwSettled := True, pwTimer := False\<rparr>)"
  using polls_okD(3) [OF assms(1,2)] assms(2,3) by (simp_all add: settleWaiter_def waiter_ok_def idle_def answered_def obj_simps)

lemma register_cases:
  obtains (busy) "registerWaiter h w a = (False, a)"
  | (added) ws where "oget (PollBuckets a) (pwBucket w) = Some ws" "totalWaiters a < MaxPollWaiters a"
      "registerWaiter h w a = (True, a\<lparr>PollWaiters := oset h (w\<lparr>pwSettled := False\<rparr>) (PollWaiters a),
         PollBuckets := oset (pwBucket w) (push_new h ws) (PollBuckets a)\<rparr>)"
  by (cases "oget (PollBuckets a) (pwBucket w)"; cases "MaxPollWaiters a \<le> totalWaiters a")
    (auto simp: registerWaiter_def)

lemma register_ok:
  assumes ok: "polls_ok a" and "idle h a"
  shows "polls_ok (snd (registerWaiter h w a))"
proof (cases rule: register_cases [of h w a])
  case busy
  with ok show ?thesis by simp
next
  case (added ws)
  let ?a = "a\<lparr>PollWaiters := oset h (w\<lparr>pwSettled := False\<rparr>) (PollWaiters a),
      PollBuckets := oset (pwBucket w) (push_new h ws) (PollBuckets a)\<rparr>"
  have bucket: "bucket_ok a (pwBucket w) ws" by (rule polls_okD(2) [OF ok added(1)])
  then have new: "h \<notin> set ws" using idle_not_waiting [OF assms(2)] by (simp add: bucket_ok_def)
  have wait: "waiting k b ?a \<longleftrightarrow> (if k = h then b = pwBucket w else waiting k b a)" for k b
    by (auto simp: waiting_def obj_simps)
  have "polls_ok ?a"
  proof (rule polls_okI)
    show "owf (PollBuckets ?a)" using polls_okD(1) [OF ok] by (simp add: jo.wf_set)
    show "distinct (map fst (PollAnswers ?a))" using polls_okD(4) [OF ok] by simp
    show "totalWaiters ?a \<le> MaxPollWaiters ?a"
      using sum_write [OF polls_okD(1) [OF ok] added(1), of length "push_new h ws"] added(2) new
      by (simp add: totalWaiters_def push_new_def)
    show "bucket_ok ?a b vs" if "oget (PollBuckets ?a) b = Some vs" for b vs
    proof (cases "b = pwBucket w")
      case True
      with that have "vs = push_new h ws" by (simp add: obj_simps)
      with bucket True show ?thesis unfolding bucket_ok_def wait by simp
    next
      case False
      with that have "oget (PollBuckets a) b = Some vs" by (simp add: obj_simps)
      from polls_okD(2) [OF ok this] idle_not_waiting [OF assms(2)] False show ?thesis
        unfolding bucket_ok_def wait by auto
    qed
    show "waiter_ok ?a k v" if "oget (PollWaiters ?a) k = Some v" for k v
    proof (cases "k = h")
      case True
      with that have "v = w\<lparr>pwSettled := False\<rparr>" by (simp add: oget_oset)
      with True assms(2) show ?thesis by (simp add: waiter_ok_def oget_oset idle_def)
    next
      case False
      with that have "oget (PollWaiters a) k = Some v" by (simp add: oget_oset)
      from polls_okD(3) [OF ok this] show ?thesis by (auto simp: waiter_ok_def oget_oset)
    qed
  qed
  with added show ?thesis by simp
qed

lemma settle_wait:
  assumes "polls_ok a"
  shows "waiting k b (snd (settleWaiter h a)) \<longleftrightarrow> waiting k b a \<and> k \<noteq> h"
    and "oget (PollBuckets (snd (settleWaiter h a))) b = None \<longleftrightarrow> oget (PollBuckets a) b = None"
proof -
  have "(waiting k b (snd (settleWaiter h a)) \<longleftrightarrow> waiting k b a \<and> k \<noteq> h) \<and>
    (oget (PollBuckets (snd (settleWaiter h a))) b = None \<longleftrightarrow> oget (PollBuckets a) b = None)"
  proof (cases "\<exists>w. oget (PollWaiters a) h = Some w \<and> \<not> pwSettled w")
    case True
    then obtain w ws where w: "oget (PollWaiters a) h = Some w" "\<not> pwSettled w"
      "oget (PollBuckets a) (pwBucket w) = Some ws"
      using has_bucket polls_okD(3) [OF assms] by blast
    then show ?thesis unfolding settle_waiting [OF w] by (auto simp: waiting_def oget_oset)
  next
    case False
    then have "\<not> waiting h b a" by (auto simp: waiting_def)
    with settle_other [OF False] show ?thesis by auto
  qed
  then show "waiting k b (snd (settleWaiter h a)) \<longleftrightarrow> waiting k b a \<and> k \<noteq> h"
    "oget (PollBuckets (snd (settleWaiter h a))) b = None \<longleftrightarrow> oget (PollBuckets a) b = None" by auto
qed

subsection \<open>Every handler keeps the invariant\<close>

lemma satisfy_ok:
  assumes "polls_ok a" "idle h a"
  shows "polls_ok (satisfyPoll h es x a)"
proof (cases "oget (PollWaiters a) h")
  case (Some w)
  have "polls_ok (case registerWaiter h w a of (True, a') \<Rightarrow> a' | (False, a') \<Rightarrow> pollTimeoutAnswer h w a')"
    using register_ok [OF assms, of w] answer_ok [OF assms]
    by (cases rule: register_cases [of h w a]) (simp_all add: pollTimeoutAnswer_def)
  with Some answer_ok [OF assms] show ?thesis by (simp add: satisfyPoll_def Let_def)
qed (simp add: satisfyPoll_def assms)

lemma drainWaiter_ok:
  assumes "polls_ok a"
  shows "polls_ok (drainWaiter h a)"
proof (cases "oget (PollWaiters a) h")
  case (Some w)
  have "\<not> pwSettled w \<Longrightarrow> polls_ok (satisfyPoll h es x (snd (settleWaiter h a)))" for es x
    using satisfy_ok [OF settle_ok [OF assms] settle_idle(1) [OF assms Some]] .
  with Some assms show ?thesis by (auto simp: drainWaiter_def Let_def split: option.split)
qed (simp add: drainWaiter_def assms)

lemma fold_ok: "(\<And>x a. polls_ok a \<Longrightarrow> polls_ok (f x a)) \<Longrightarrow> polls_ok a \<Longrightarrow> polls_ok (fold f xs a)"
  by (induction xs arbitrary: a) auto

lemma drain_ok: "polls_ok a \<Longrightarrow> polls_ok (drainOnBroadcast b a)"
  by (auto simp: drainOnBroadcast_def split: option.split intro: fold_ok drainWaiter_ok)

lemma drainAllWaiter_ok:
  assumes "polls_ok a"
  shows "polls_ok (drainAllWaiter h a)" "waiting k b (drainAllWaiter h a) \<longleftrightarrow> waiting k b a \<and> k \<noteq> h"
    "oget (PollBuckets (drainAllWaiter h a)) b = None \<longleftrightarrow> oget (PollBuckets a) b = None"
proof -
  have "polls_ok (drainAllWaiter h a) \<and> (waiting k b (drainAllWaiter h a) \<longleftrightarrow> waiting k b a \<and> k \<noteq> h) \<and>
    (oget (PollBuckets (drainAllWaiter h a)) b = None \<longleftrightarrow> oget (PollBuckets a) b = None)"
  proof (cases "\<exists>w. oget (PollWaiters a) h = Some w \<and> \<not> pwSettled w")
    case True
    then obtain w where w: "oget (PollWaiters a) h = Some w" "\<not> pwSettled w" by blast
    then have eq: "drainAllWaiter h a = pollTimeoutAnswer h w (snd (settleWaiter h a))" by (simp add: drainAllWaiter_def)
    with answer_ok [OF settle_ok [OF assms] settle_idle(1) [OF assms w]] settle_wait [OF assms]
    show ?thesis by (simp add: pollTimeoutAnswer_def)
  next
    case False
    then have "drainAllWaiter h a = a" by (auto simp: drainAllWaiter_def split: option.split)
    moreover have "\<not> waiting h b a" using False by (auto simp: waiting_def)
    ultimately show ?thesis using assms by auto
  qed
  then show "polls_ok (drainAllWaiter h a)" "waiting k b (drainAllWaiter h a) \<longleftrightarrow> waiting k b a \<and> k \<noteq> h"
    "oget (PollBuckets (drainAllWaiter h a)) b = None \<longleftrightarrow> oget (PollBuckets a) b = None" by auto
qed

lemma drainAllWaiters_ok:
  "polls_ok a \<Longrightarrow> polls_ok (fold drainAllWaiter ws a) \<and>
    (waiting k b (fold drainAllWaiter ws a) \<longleftrightarrow> waiting k b a \<and> k \<notin> set ws) \<and>
    (oget (PollBuckets (fold drainAllWaiter ws a)) b = None \<longleftrightarrow> oget (PollBuckets a) b = None)"
proof (induction ws arbitrary: a)
  case (Cons h ws)
  from Cons.IH [OF drainAllWaiter_ok(1) [OF Cons.prems]] show ?case
    by (auto simp: drainAllWaiter_ok [OF Cons.prems])
qed simp

lemma drainBucket_ok:
  assumes "polls_ok a"
  shows "polls_ok (drainBucket b a)"
proof (cases "oget (PollBuckets a) b")
  case (Some ws)
  let ?a = "fold drainAllWaiter ws a"
  have ok: "polls_ok ?a" using drainAllWaiters_ok [OF assms] by blast
  obtain vs where vs: "oget (PollBuckets ?a) b = Some vs"
    using drainAllWaiters_ok [OF assms, of ws] Some by (cases "oget (PollBuckets ?a) b") auto
  have "h \<notin> set vs" for h
    using polls_okD(2) [OF ok vs] polls_okD(2) [OF assms Some] drainAllWaiters_ok [OF assms, of ws h b]
    unfolding bucket_ok_def by blast
  then have "vs = []" by (cases vs) auto
  with vs have "?a\<lparr>PollBuckets := oset b [] (PollBuckets ?a)\<rparr> = ?a" by (simp add: AList.update_triv)
  with ok Some show ?thesis by (simp add: drainBucket_def Let_def)
qed (simp add: drainBucket_def assms)

lemma timer_ok:
  assumes ok: "polls_ok a" and w: "oget (PollWaiters a) h = Some w" "\<not> pwSettled w"
  shows "polls_ok (a\<lparr>PollWaiters := oset h (w\<lparr>pwTimer := True\<rparr>) (PollWaiters a)\<rparr>)"
proof (rule polls_okI)
  let ?a = "a\<lparr>PollWaiters := oset h (w\<lparr>pwTimer := True\<rparr>) (PollWaiters a)\<rparr>"
  have "waiting k b ?a \<longleftrightarrow> waiting k b a" for k b using w by (auto simp: waiting_def oget_oset)
  then show "bucket_ok ?a b ws" if "oget (PollBuckets ?a) b = Some ws" for b ws
    using polls_okD(2) [OF ok, of b ws] that by (simp add: bucket_ok_def)
  show "waiter_ok ?a k v" if "oget (PollWaiters ?a) k = Some v" for k v
  proof (cases "k = h")
    case True
    with that have "v = w\<lparr>pwTimer := True\<rparr>" by (simp add: oget_oset)
    with True polls_okD(3) [OF ok w(1)] w(2) show ?thesis by (simp add: waiter_ok_def)
  next
    case False
    with that have "oget (PollWaiters a) k = Some v" by (simp add: oget_oset)
    from polls_okD(3) [OF ok this] show ?thesis by (simp add: waiter_ok_def)
  qed
qed (use polls_okD(1,4,5) [OF ok] in \<open>simp_all add: totalWaiters_def\<close>)

definition new_request :: "string \<Rightarrow> api \<Rightarrow> bool" where
  "new_request h a \<longleftrightarrow> h \<notin> answered a \<and> oget (PollWaiters a) h = None"

lemma request_ok:
  assumes ok: "polls_ok a" and "new_request h a"
  shows "polls_ok (handleLongPollRequest env h b pre g n x a)"
proof -
  have idle: "idle h a" using assms(2) by (simp add: new_request_def idle_def)
  have "polls_ok (let w = \<lparr>pwBucket = b, pwSince = g, pwLimit = poll_limit n, pwPrefix = pre, pwSettled = False, pwTimer = False\<rparr>
      in case registerWaiter h w a of (False, a') \<Rightarrow> answerPoll h PollBusy a'
      | (True, a') \<Rightarrow> a'\<lparr>PollWaiters := oset h (w\<lparr>pwTimer := True\<rparr>) (PollWaiters a')\<rparr>)" for g
    unfolding Let_def
  proof -
    let ?w = "\<lparr>pwBucket = b, pwSince = g, pwLimit = poll_limit n, pwPrefix = pre, pwSettled = False, pwTimer = False\<rparr>"
    show "polls_ok (case registerWaiter h ?w a of (False, a') \<Rightarrow> answerPoll h PollBusy a'
      | (True, a') \<Rightarrow> a'\<lparr>PollWaiters := oset h (?w\<lparr>pwTimer := True\<rparr>) (PollWaiters a')\<rparr>)"
  proof (cases rule: register_cases [of h ?w a])
    case busy
    with answer_ok [OF ok idle] show ?thesis by simp
  next
    case (added ws)
    have "oget (PollWaiters (snd (registerWaiter h ?w a))) h = Some ?w" using added by (simp add: oget_oset)
    from timer_ok [OF register_ok [OF ok idle] this] added show ?thesis by simp
  qed
  qed
  with answer_ok [OF ok idle] show ?thesis by (simp add: handleLongPollRequest_def Let_def)
qed

definition polls_same :: "api \<Rightarrow> api \<Rightarrow> bool" where
  "polls_same a a' \<longleftrightarrow> PollBuckets a' = PollBuckets a \<and> PollWaiters a' = PollWaiters a \<and>
     PollAnswers a' = PollAnswers a \<and> MaxPollWaiters a' = MaxPollWaiters a"

lemma polls_same_refl [simp]: "polls_same a a"
  by (simp add: polls_same_def)

lemma polls_same_trans: "polls_same a b \<Longrightarrow> polls_same b c \<Longrightarrow> polls_same a c"
  by (simp add: polls_same_def)

lemma polls_same_fold: "(\<And>x a. polls_same a (f x a)) \<Longrightarrow> polls_same b a \<Longrightarrow> polls_same b (fold f xs a)"
proof (induction xs arbitrary: a)
  case (Cons x xs)
  from Cons.IH [OF Cons.prems(1) polls_same_trans [OF Cons.prems(2,1)]] show ?case by simp
qed simp

lemma polls_same_ok:
  assumes "polls_same a a'" "polls_ok a"
  shows "polls_ok a'"
proof -
  have "waiting h b a' = waiting h b a" "answered a' = answered a" "totalWaiters a' = totalWaiters a" for h b
    using assms(1) by (simp_all add: polls_same_def waiting_def answered_def totalWaiters_def)
  then have "bucket_ok a' = bucket_ok a" "waiter_ok a' = waiter_ok a"
    using assms(1) by (simp_all add: fun_eq_iff bucket_ok_def waiter_ok_def polls_same_def)
  with assms \<open>totalWaiters a' = totalWaiters a\<close> show ?thesis by (simp add: polls_ok_def polls_same_def)
qed

lemma polls_same_send: "polls_same b a \<Longrightarrow> polls_same b (send_frame c f a)"
  by (simp add: polls_same_def send_frame_def split: option.split)

lemma polls_same_sends: "polls_same b a \<Longrightarrow> polls_same b (fold (\<lambda>x. send_frame (c x) (f x)) xs a)"
  by (rule polls_same_fold) (simp_all add: polls_same_send)

lemma polls_same_control: "polls_same b a \<Longrightarrow> polls_same b (sendQueueControlFrame env c t p a)"
  unfolding sendQueueControlFrame_def
  by (auto simp: stamp_queue_fields polls_same_def send_frame_def split: prod.split option.split)

lemma polls_same_run_control: "polls_same b a \<Longrightarrow> polls_same b (sendManifestControlFrame env c t r p a)"
  unfolding sendManifestControlFrame_def
  by (auto simp: stamp_run_fields polls_same_def send_frame_def split: prod.split option.split)

lemma polls_same_unsubscribe: "polls_same b a \<Longrightarrow> polls_same b (unsubscribeClient c a)"
  by (simp add: polls_same_def unsubscribeClient_def Let_def split: option.split)

lemma polls_same_close: "polls_same b a \<Longrightarrow> polls_same b (closeSocket c a)"
  using polls_same_unsubscribe [of b a c]
  by (simp add: polls_same_def closeSocket_def Let_def split: option.split)

lemma polls_same_reject: "polls_same b a \<Longrightarrow> polls_same b (rejectUnauthenticated c x a)"
  by (simp add: rejectUnauthenticated_def polls_same_close polls_same_send)

lemma polls_same_subscribe: "polls_same a (queueSubscribe env c g a)"
proof -
  let ?a1 = "a\<lparr>QueueSubscribers := push_new c (QueueSubscribers a)\<rparr>"
  have a1: "polls_same a ?a1" by (simp add: polls_same_def)
  then have "polls_same a (replayQueue env c g ?a1)"
    unfolding replayQueue_def Let_def
    by (cases "findQueueEventIndex g ?a1")
      (simp_all only: option.case, (intro polls_same_control polls_same_sends; simp)+)
  with a1 show ?thesis
    by (auto simp: queueSubscribe_def Let_def split: option.split intro: polls_same_control polls_same_reject)
qed

lemma polls_same_runSubscribe: "polls_same a (runSubscribe env c r g a)"
proof -
  let ?u = "unsubscribeClient c a"
  let ?a2 = "case oget (Sockets ?u) c of None \<Rightarrow> ?u
    | Some w \<Rightarrow> ?u\<lparr>Sockets := oset c (w\<lparr>wsSubscribedRun := r\<rparr>) (Sockets ?u)\<rparr>"
  have "polls_same a ?u" by (simp add: polls_same_unsubscribe)
  then have a3: "polls_same a (?a2\<lparr>RunSubscriptions := x\<rparr>)" for x
    by (simp add: polls_same_def split: option.split)
  then have "polls_same a (replayRun env c r g (?a2\<lparr>RunSubscriptions := x\<rparr>))" for x
    by (auto simp: replayRun_def Let_def split: option.split intro!: polls_same_run_control polls_same_sends)
  with a3 show ?thesis by (simp add: runSubscribe_def Let_def polls_same_reject)
qed

lemma polls_same_runEvent: "polls_same a (onExecutionEvent env t r x a)"
proof -
  obtain e a1 where st: "stampManifestEvent env t r x a = (e, a1)" by (rule prod.exhaust)
  have "polls_same a a1" using stamp_run_fields [OF st] by (simp add: polls_same_def)
  then have "polls_same a (case oget (RunSubscriptions a1) r of None \<Rightarrow> a1
      | Some cs \<Rightarrow> fold (\<lambda>c. sendManifestEnvelope c e) cs a1)"
    by (auto split: option.split intro: polls_same_sends)
  moreover have "polls_same a b \<Longrightarrow> polls_same a ((scheduleManifestBufferCleanup env r b)\<lparr>RunSubscriptions := y\<rparr>)" for b y
    by (simp add: polls_same_def scheduleManifestBufferCleanup_def)
  ultimately show ?thesis
    unfolding onExecutionEvent_def st Let_def prod.case by (simp only: split: if_split) blast
qed

lemma broadcast_ok:
  assumes "polls_ok a"
  shows "polls_ok (broadcastQueueTopic env t p a)"
proof -
  obtain e a1 where st: "stampQueueEvent env t p a = (e, a1)" by (rule prod.exhaust)
  have "polls_ok a1" using stamp_queue_fields [OF st] assms by (auto intro: polls_same_ok simp: polls_same_def)
  then have "polls_ok (notifyPolls env t a1)" by (auto simp: notifyPolls_def Let_def intro: drain_ok)
  then have "polls_ok (notifyTaps t e (notifyPolls env t a1))"
    by (rule polls_same_ok [rotated]) (simp add: polls_same_def timeline_defs)
  from polls_same_ok [OF polls_same_sends [OF polls_same_refl] this] show ?thesis
    by (simp add: broadcastQueueTopic_def st Let_def)
qed

fun poll_new :: "api_event \<Rightarrow> api \<Rightarrow> bool" where
  "poll_new (PollQueue h g n w) a = new_request h a"
| "poll_new (PollObserver h g n w) a = new_request h a"
| "poll_new ev a = True"

lemma event_ok:
  assumes "polls_ok a" "poll_new ev a"
  shows "polls_ok (api_apply env ev a)"
proof (cases ev)
  case (PollTimer h)
  have "polls_ok (pollTimeoutAnswer h w (cancelWaiter h a))" if "oget (PollWaiters a) h = Some w" "pwTimer w" for w
  proof -
    from polls_okD(3) [OF assms(1) that(1)] that(2) have "\<not> pwSettled w" by (auto simp: waiter_ok_def split: if_splits)
    from answer_ok [OF settle_ok [OF assms(1)] settle_idle(1) [OF assms(1) that(1) this]] show ?thesis
      by (simp add: pollTimeoutAnswer_def cancelWaiter_def)
  qed
  with PollTimer assms show ?thesis by (simp add: pollTimer_def split: option.split)
next
  case (OpenSocket c auth)
  with polls_same_ok [OF _ assms(1), of "openSocket c auth a"] show ?thesis by (simp add: polls_same_def openSocket_def)
next
  case (QueueUnsubscribe c)
  with polls_same_ok [OF _ assms(1), of "queueUnsubscribe c a"] show ?thesis by (simp add: polls_same_def queueUnsubscribe_def)
next
  case (RunCleanupTimer r)
  with polls_same_ok [OF _ assms(1), of "manifestCleanupTimer env r a"] show ?thesis
    by (simp add: polls_same_def manifestCleanupTimer_def split: option.split)
next
  case (AddTap t)
  with polls_same_ok [OF _ assms(1), of "addBroadcastTap t a"] show ?thesis by (simp add: polls_same_def timeline_defs)
next
  case (RemoveTap t)
  with polls_same_ok [OF _ assms(1), of "removeBroadcastTap t a"] show ?thesis by (simp add: polls_same_def timeline_defs)
next
  case (TimelineRequest h b w)
  with polls_same_ok [OF _ assms(1), of "timelineRequest h b w a"] show ?thesis by (simp add: polls_same_def timeline_defs)
next
  case (TimelineTimer h)
  with polls_same_ok [OF _ assms(1), of "timelineTimer h a"] show ?thesis by (simp add: polls_same_def timeline_defs)
next
  case (TimelineClosed h)
  with polls_same_ok [OF _ assms(1), of "timelineClosed h a"] show ?thesis by (simp add: polls_same_def timeline_defs)
next
  case Shutdown
  with assms show ?thesis by (auto simp: drainAll_def intro: fold_ok drainBucket_ok)
qed (use assms in \<open>simp_all add: broadcast_ok request_ok settle_ok cancelWaiter_def
    polls_same_ok [OF polls_same_subscribe] polls_same_ok [OF polls_same_runSubscribe] polls_same_ok [OF polls_same_runEvent]
    polls_same_ok [OF polls_same_close [OF polls_same_refl]] polls_same_ok [OF polls_same_unsubscribe [OF polls_same_refl]]\<close>)

subsection \<open>The server as a machine\<close>

inductive serve_step :: "(nat \<Rightarrow> string) \<Rightarrow> api \<Rightarrow> api_env \<times> api_event \<Rightarrow> api \<Rightarrow> bool" for uuid where
  serve_step: "RandomUUID env = uuid \<Longrightarrow> poll_new ev a \<Longrightarrow> serve_step uuid a (env, ev) (api_apply env ev a)"

inductive_cases serve_stepE: "serve_step uuid a ev a'"

definition serve_init :: "nat \<Rightarrow> api \<Rightarrow> bool" where
  "serve_init cap a \<longleftrightarrow> a = initial_api\<lparr>QueueEventCap := cap\<rparr>"

interpretation polls: invariant_machine "serve_init cap" "serve_step uuid" polls_ok for cap uuid
proof
  show "polls_ok a" if "serve_init cap a" for a
    using that by (simp add: serve_init_def polls_ok_def initial_api_def totalWaiters_def bucket_ok_def waiting_def)
qed (auto elim!: serve_stepE intro: event_ok)

lemma serve_follow: "reach (serve_init cap) (serve_step uuid) a \<Longrightarrow>
    reach (follow_init cap) (follow_step uuid) (a, \<lparr>foSocket = None, foSeen = []\<rparr>)"
proof (induction rule: reach.induct)
  case (reach_init a)
  then show ?case by (intro reach.reach_init) (simp add: serve_init_def follow_init_def)
next
  case (reach_step a ev a')
  from reach_step.hyps(2) obtain env e where "RandomUUID env = uuid" "a' = api_apply env e a" by (auto elim: serve_stepE)
  with reach.reach_step [OF reach_step.IH serve_offline [of env uuid "\<lparr>foSocket = None, foSeen = []\<rparr>" a e]]
  show ?case by simp
qed

lemma serve_buffer:
  assumes "reach (serve_init cap) (serve_step uuid) a" "fresh_guids uuid"
  shows "logged uuid (GUIDsDrawn a) (QueueEventBuffer a)" "length (QueueEventBuffer a) \<le> QueueEventCap a"
    "QueueEventCap a = cap" "distinct (QueueSubscribers a)"
proof -
  obtain s where "follows uuid cap (a, \<lparr>foSocket = None, foSeen = []\<rparr>) s"
    using follow_refines [OF serve_follow [OF assms(1)] assms(2)] by blast
  then have s: "holds_tail cap (fdLog s) (QueueEventBuffer a)" "logged uuid (GUIDsDrawn a) (fdLog s)"
    "QueueEventCap a = cap" "distinct (QueueSubscribers a)" by (auto simp: follows_def)
  then show "QueueEventCap a = cap" "distinct (QueueSubscribers a)" "length (QueueEventBuffer a) \<le> QueueEventCap a"
    by (simp_all add: holds_tail_def)
  from s(1,2) show "logged uuid (GUIDsDrawn a) (QueueEventBuffer a)"
    by (auto simp: logged_def holds_tail_def drop_map [symmetric] dest!: in_set_dropD)
qed

text \<open>
  C22. A request for events is answered at most once, and not while it still waits: in every reachable
  state of the server the answered requests are distinct, none of them is in a bucket, a bucket holds
  a request at most once, and no more requests wait than \<open>MaxConcurrentPollWaiters\<close> allows.
\<close>

theorem polls_answered_once:
  assumes "reach (serve_init cap) (serve_step uuid) a"
  shows "distinct (map fst (PollAnswers a)) \<and> totalWaiters a \<le> MaxPollWaiters a \<and>
    (\<forall>b ws. oget (PollBuckets a) b = Some ws \<longrightarrow> distinct ws \<and> set ws \<inter> fst ` set (PollAnswers a) = {})"
proof -
  note ok = polls.reach_inv [OF assms]
  have "distinct ws \<and> set ws \<inter> answered a = {}" if "oget (PollBuckets a) b = Some ws" for b ws
  proof -
    have bucket: "distinct ws" "\<And>h. h \<in> set ws \<Longrightarrow> waiting h b a"
      using polls_okD(2) [OF ok that] unfolding bucket_ok_def by blast+
    have "h \<notin> answered a" if "waiting h b a" for h
      using that polls_okD(3) [OF ok] unfolding waiting_def waiter_ok_def by metis
    with bucket show ?thesis by blast
  qed
  with polls_okD(4,5) [OF ok] show ?thesis unfolding answered_def by blast
qed

end
