(* ===== verification/EventProperties.thy ===== *)
theory EventProperties
  imports PollProperties
begin

section \<open>Properties of the event streams\<close>

text \<open>
  What a client of the event streams can rely on and what it cannot: the pages of a poll, the polls that
  are left without an answer, the cursor of the web page that follows the queue, and the feed of a run
  that pauses.
\<close>

subsection \<open>Pages\<close>

text \<open>A client that asks for the next page until there is no more.\<close>

fun read_pages :: "api_env \<Rightarrow> string option \<Rightarrow> int option \<Rightarrow> nat \<Rightarrow> string \<Rightarrow> api \<Rightarrow> envelope list option" where
  "read_pages env pre lmt 0 g a = None"
| "read_pages env pre lmt (Suc n) g a =
     (case snd (last (PollAnswers (handleLongPollRequest env [] ''queue'' pre g lmt (Some 0) a))) of
        PollPage es g' rest \<Rightarrow>
          if rest then map_option (\<lambda>fs. es @ fs) (read_pages env pre lmt n g' a) else Some es
      | _ \<Rightarrow> None)"

lemma poll_limit_pos: "0 < poll_limit lmt"
  by (simp add: poll_limit_def split: option.split)

lemma filter_split: "filter P xs = us @ v # vs \<Longrightarrow> \<exists>xs1 xs2. xs = xs1 @ v # xs2 \<and> filter P xs2 = vs"
proof (induction xs arbitrary: us)
  case (Cons x xs)
  show ?case
  proof (cases "P x \<and> us = []")
    case True
    with Cons.prems show ?thesis by (intro exI [of _ "[]"] exI [of _ xs]) simp
  next
    case False
    with Cons.prems have "\<exists>us'. filter P xs = us' @ v # vs" by (cases us) (auto split: if_splits)
    then obtain xs1 xs2 where "xs = xs1 @ v # xs2" "filter P xs2 = vs" using Cons.IH by blast
    then show ?thesis by (intro exI [of _ "x # xs1"] exI [of _ xs2]) simp
  qed
qed simp

lemma poll_filter_split:
  "poll_filter pre xs = us @ v # vs \<Longrightarrow> \<exists>xs1 xs2. xs = xs1 @ v # xs2 \<and> poll_filter pre xs2 = vs"
  by (cases pre) (auto simp: poll_filter_def dest: filter_split)

text \<open>Where a cursor stands in the buffer.\<close>

definition stands :: "string \<Rightarrow> envelope list \<Rightarrow> api \<Rightarrow> bool" where
  "stands g es a \<longleftrightarrow> (if g = [] then es = QueueEventBuffer a
     else \<exists>before e. QueueEventBuffer a = before @ e # es \<and> evGUID e = g)"

lemma stands_found:
  assumes "stands g es a" "distinct (map evGUID (QueueEventBuffer a))"
  shows "if g = [] then findQueueEventIndex g a = None \<and> QueueEventBuffer a = es
    else \<exists>i. findQueueEventIndex g a = Some i \<and> drop (Suc i) (QueueEventBuffer a) = es"
proof (cases "g = []")
  case True
  with assms show ?thesis by (simp add: stands_def findQueueEventIndex_def find_guid_def)
next
  case False
  then obtain before e where b: "QueueEventBuffer a = before @ e # es" "evGUID e = g"
    using assms(1) by (auto simp: stands_def)
  with find_guid_nth [OF assms(2), of "length before"] False show ?thesis
    by (simp add: findQueueEventIndex_def)
qed

lemma poll_now:
  assumes "stands g es a" "distinct (map evGUID (QueueEventBuffer a))"
  shows "last (PollAnswers (handleLongPollRequest env h b pre g lmt (Some 0) a)) =
    (h, poll_page (poll_limit lmt) g (poll_filter pre es) False)"
  using stands_found [OF assms]
  by (auto simp: handleLongPollRequest_def Let_def answerPoll_def poll_wait_def split: if_splits)

lemma read_pages_all:
  assumes "distinct (map evGUID (QueueEventBuffer a))" "[] \<notin> evGUID ` set (QueueEventBuffer a)"
  shows "stands g es a \<Longrightarrow> length es < n \<Longrightarrow> read_pages env pre lmt n g a = Some (poll_filter pre es)"
proof (induction n arbitrary: g es)
  case (Suc n)
  let ?l = "poll_limit lmt" and ?es = "poll_filter pre es"
  note page = poll_now [OF Suc.prems(1) assms(1), of env "[]" "''queue''" pre lmt]
  show ?case
  proof (cases "?l < length ?es")
    case False
    with page show ?thesis by (simp add: poll_page_def Let_def)
  next
    case True
    then have out: "take ?l ?es \<noteq> []" using poll_limit_pos [of lmt] by auto
    then have "?es = butlast (take ?l ?es) @ last (take ?l ?es) # drop ?l ?es"
      by (metis append.assoc append_Cons append_Nil append_butlast_last_id append_take_drop_id)
    then obtain xs1 xs2 where xs: "es = xs1 @ last (take ?l ?es) # xs2" "poll_filter pre xs2 = drop ?l ?es"
      using poll_filter_split by metis
    let ?e = "last (take ?l ?es)"
    have "?e \<in> set es" using xs(1) by (metis in_set_conv_decomp)
    moreover have "set es \<subseteq> set (QueueEventBuffer a)"
      using Suc.prems(1) by (auto simp: stands_def split: if_splits)
    ultimately have "evGUID ?e \<noteq> []" using assms(2) by (metis image_eqI subsetD)
    moreover obtain before where "QueueEventBuffer a = before @ es"
      using Suc.prems(1) unfolding stands_def by (metis append.assoc append_Cons append_Nil)
    ultimately have "stands (evGUID ?e) xs2 a"
      using xs(1) unfolding stands_def by (metis append.assoc)
    moreover have "length xs2 < n" using xs(1) Suc.prems(2) by (metis Suc_less_eq length_append length_Cons
          le_add2 add_Suc_right less_le_trans not_less)
    ultimately have "read_pages env pre lmt n (evGUID ?e) a = Some (drop ?l ?es)" using Suc.IH xs(2) by simp
    with page out True show ?thesis by (simp add: poll_page_def Let_def)
  qed
qed simp

text \<open>
  Polling page by page is complete: a client that asks for the next page with the cursor of the last
  one until \<open>More\<close> is false has read, in order and without repetition, every event of its stream after
  the cursor it started from, whatever the page size.
\<close>

theorem pages_are_complete:
  assumes "fresh_guids uuid" "reach (serve_init cap) (serve_step uuid) a" "stands g es a" "length es < n"
  shows "read_pages env pre lmt n g a = Some (poll_filter pre es)"
proof -
  have "logged uuid (GUIDsDrawn a) (QueueEventBuffer a)" by (rule serve_buffer [OF assms(2,1)])
  with assms(1) have "distinct (map evGUID (QueueEventBuffer a))" "[] \<notin> evGUID ` set (QueueEventBuffer a)"
    unfolding logged_def fresh_guids_def by (blast, metis imageE)
  from read_pages_all [OF this assms(3,4)] show ?thesis .
qed

subsection \<open>Polls without an answer\<close>

text \<open>A request that waits, whatever has become of its timer.\<close>

definition hungry :: "string \<Rightarrow> poll_waiter \<Rightarrow> api \<Rightarrow> bool" where
  "hungry h w a \<longleftrightarrow> (\<exists>x. oget (PollWaiters a) h = Some (w\<lparr>pwSettled := False, pwTimer := x\<rparr>) \<and> (x \<longrightarrow> pwTimer w))"

lemma hungry_waiting: "hungry h w a \<Longrightarrow> waiting h (pwBucket w) a"
  by (auto simp: hungry_def waiting_def)

lemma settle_gives_room:
  assumes ok: "polls_ok a" and w: "oget (PollWaiters a) h = Some w" "\<not> pwSettled w"
  shows "totalWaiters (snd (settleWaiter h a)) < MaxPollWaiters (snd (settleWaiter h a))"
proof -
  obtain ws where ws: "oget (PollBuckets a) (pwBucket w) = Some ws" using has_bucket polls_okD(3) [OF ok w(1)] by blast
  have "waiting h (pwBucket w) a" using w by (simp add: waiting_def)
  then have "h \<in> set ws" "distinct ws" using polls_okD(2) [OF ok ws] unfolding bucket_ok_def by blast+
  then have "length (set_delete h ws) < length ws"
    unfolding set_delete_def by (intro length_filter_less [of h]) simp_all
  then show ?thesis
    using sum_write [OF polls_okD(1) [OF ok] ws, of length "set_delete h ws"] polls_okD(5) [OF ok]
    by (simp add: settle_waiting [OF w ws] totalWaiters_def)
qed

text \<open>Draining another request leaves it; draining it with nothing for it puts it back, without timer.\<close>

lemma drainWaiter_other:
  assumes "k \<noteq> h"
  shows "oget (PollWaiters (drainWaiter k a)) h = oget (PollWaiters a) h"
proof -
  have settle: "oget (PollWaiters (snd (settleWaiter k b))) h = oget (PollWaiters b) h" for b
    using assms by (simp add: settleWaiter_def oget_oset split: option.split)
  have "oget (PollWaiters (case registerWaiter k w b of (True, a') \<Rightarrow> a' | (False, a') \<Rightarrow> pollTimeoutAnswer k w a')) h =
      oget (PollWaiters b) h" for w b
    using assms by (cases rule: register_cases [of k w b]) (simp_all add: pollTimeoutAnswer_def oget_oset)
  then have "oget (PollWaiters (satisfyPoll k es x b)) h = oget (PollWaiters b) h" for es x b
    by (simp add: satisfyPoll_def Let_def split: option.split)
  with settle show ?thesis by (simp add: drainWaiter_def Let_def split: option.split)
qed

definition nothing_for :: "poll_waiter \<Rightarrow> api \<Rightarrow> bool" where
  "nothing_for w a \<longleftrightarrow> 0 < pwLimit w \<and> (\<forall>i. findQueueEventIndex (pwSince w) a = Some i \<longrightarrow>
     pwLimit w \<le> length (drop (Suc i) (QueueEventBuffer a)) \<and>
     poll_filter (pwPrefix w) (take (pwLimit w) (drop (Suc i) (QueueEventBuffer a))) = [])"

lemma nothing_polls: "poll_part a a' \<Longrightarrow> nothing_for w a' = nothing_for w a"
  by (simp add: nothing_for_def poll_part_fields)

lemma drain_hungry:
  assumes ok: "polls_ok a" and "hungry h w a" "nothing_for w a"
  shows "hungry h w (drainWaiter h a)"
    and "findQueueEventIndex (pwSince w) a \<noteq> None \<Longrightarrow>
      oget (PollWaiters (drainWaiter h a)) h = Some (w\<lparr>pwSettled := False, pwTimer := False\<rparr>)"
proof -
  obtain x where x: "oget (PollWaiters a) h = Some (w\<lparr>pwSettled := False, pwTimer := x\<rparr>)" "x \<longrightarrow> pwTimer w"
    using assms(2) by (auto simp: hungry_def)
  let ?w = "w\<lparr>pwSettled := False, pwTimer := x\<rparr>" and ?a = "snd (settleWaiter h a)"
  have put_back: "oget (PollWaiters (drainWaiter h a)) h = Some (w\<lparr>pwSettled := False, pwTimer := False\<rparr>)"
    if i: "findQueueEventIndex (pwSince w) a = Some i" for i
  proof -
    have w: "oget (PollWaiters ?a) h = Some (?w\<lparr>pwSettled := True, pwTimer := False\<rparr>)"
      by (rule settle_idle(2) [OF ok x(1)]) simp
    have room: "totalWaiters ?a < MaxPollWaiters ?a" by (rule settle_gives_room [OF ok x(1)]) simp
    obtain ws where "oget (PollBuckets ?a) (pwBucket w) = Some ws"
      using has_bucket [OF polls_okD(3) [OF settle_ok [OF ok] w]] by auto
    then have "registerWaiter h (?w\<lparr>pwSettled := True, pwTimer := False\<rparr>) ?a = (True, ?a\<lparr>
        PollWaiters := oset h (w\<lparr>pwTimer := False, pwSettled := False\<rparr>) (PollWaiters ?a),
        PollBuckets := oset (pwBucket w) (push_new h ws) (PollBuckets ?a)\<rparr>)"
      using room by (simp add: registerWaiter_def)
    with w have "oget (PollWaiters (satisfyPoll h es z ?a)) h = Some (w\<lparr>pwSettled := False, pwTimer := False\<rparr>)"
      if "poll_filter (pwPrefix w) es = []" for es z
      using that by (simp add: satisfyPoll_def Let_def oget_oset)
    with assms(3) i x(1) show ?thesis
      by (auto simp: nothing_for_def drainWaiter_def Let_def min_def split: if_splits)
  qed
  show "hungry h w (drainWaiter h a)"
  proof (cases "findQueueEventIndex (pwSince w) a")
    case None
    with x assms(2) show ?thesis by (simp add: drainWaiter_def)
  next
    case (Some i)
    from put_back [OF Some] show ?thesis unfolding hungry_def by blast
  qed
  show "oget (PollWaiters (drainWaiter h a)) h = Some (w\<lparr>pwSettled := False, pwTimer := False\<rparr>)"
    if "findQueueEventIndex (pwSince w) a \<noteq> None" using that put_back by blast
qed

lemma drains_hungry:
  "polls_ok a \<Longrightarrow> hungry h w a \<Longrightarrow> nothing_for w a \<Longrightarrow> hungry h w (fold drainWaiter ks a) \<and>
    (h \<in> set ks \<longrightarrow> findQueueEventIndex (pwSince w) a \<noteq> None \<longrightarrow> hungry h (w\<lparr>pwTimer := False\<rparr>) (fold drainWaiter ks a))"
proof (induction ks arbitrary: a w)
  case (Cons k ks)
  have h: "hungry h w (drainWaiter k a)"
    using Cons.prems drain_hungry(1) drainWaiter_other [of k h a] by (cases "k = h") (auto simp: hungry_def)
  have n: "nothing_for w (drainWaiter k a)" using nothing_polls [OF poll_part_drainWaiter] Cons.prems(3) by blast
  note IH = Cons.IH [OF drainWaiter_ok [OF Cons.prems(1)] h n]
  show ?case
  proof (cases "k = h \<and> findQueueEventIndex (pwSince w) a \<noteq> None")
    case True
    let ?w = "w\<lparr>pwTimer := False\<rparr>"
    have "hungry h ?w (drainWaiter k a)" using drain_hungry(2) [OF Cons.prems] True
      unfolding hungry_def by (intro exI [of _ False]) auto
    moreover have "nothing_for ?w (drainWaiter k a)" using n by (simp add: nothing_for_def)
    ultimately have "hungry h ?w (fold drainWaiter ks (drainWaiter k a))"
      using Cons.IH [OF drainWaiter_ok [OF Cons.prems(1)]] by blast
    with IH show ?thesis by simp
  next
    case False
    with IH show ?thesis by (auto simp: poll_part_fields [OF poll_part_drainWaiter])
  qed
qed simp

text \<open>The events after the cursor of the request, while the buffer has them.\<close>

definition starved :: "(nat \<Rightarrow> string) \<Rightarrow> poll_waiter \<Rightarrow> api \<Rightarrow> bool" where
  "starved uuid w a \<longleftrightarrow> (\<exists>pre e first rest.
     holds_tail (QueueEventCap a) (pre @ e # first @ rest) (QueueEventBuffer a) \<and>
     logged uuid (GUIDsDrawn a) (pre @ e # first @ rest) \<and> pwSince w = evGUID e \<and> evGUID e \<noteq> [] \<and>
     0 < pwLimit w \<and> length first = pwLimit w \<and> poll_filter (pwPrefix w) first = [])"

lemma starved_nothing: "starved uuid w a \<Longrightarrow> nothing_for w a"
proof -
  assume "starved uuid w a"
  then obtain pre e first rest where s: "holds_tail (QueueEventCap a) (pre @ e # first @ rest) (QueueEventBuffer a)"
    "logged uuid (GUIDsDrawn a) (pre @ e # first @ rest)" "pwSince w = evGUID e" "evGUID e \<noteq> []"
    "0 < pwLimit w" "length first = pwLimit w" "poll_filter (pwPrefix w) first = []"
    by (auto simp: starved_def)
  from s(2) have dist: "distinct (map evGUID (pre @ e # first @ rest))" by (simp add: logged_def)
  show "nothing_for w a"
  proof (cases "length (first @ rest) < QueueEventCap a")
    case True
    from queue.catch_up [OF s(1) dist s(4) True] obtain i where
      "findQueueEventIndex (evGUID e) a = Some i" "drop (Suc i) (QueueEventBuffer a) = first @ rest" by blast
    with s(3,5,6,7) show ?thesis by (simp add: nothing_for_def del: length_drop)
  next
    case False
    then have "QueueEventCap a \<le> length (first @ rest)" by simp
    from queue.out_of_reach [OF s(1) dist this] s(3,5) show ?thesis by (simp add: nothing_for_def)
  qed
qed

lemma starved_broadcast:
  assumes "starved uuid w a" "fresh_guids uuid" "RandomUUID env = uuid" "stampQueueEvent env t p a = (x, a')"
  shows "starved uuid w a'"
proof -
  note f = stamp_queue_fields [OF assms(4)]
  obtain pre e first rest where s: "holds_tail (QueueEventCap a) (pre @ e # first @ rest) (QueueEventBuffer a)"
    "logged uuid (GUIDsDrawn a) (pre @ e # first @ rest)" "pwSince w = evGUID e" "evGUID e \<noteq> []"
    "0 < pwLimit w" "length first = pwLimit w" "poll_filter (pwPrefix w) first = []"
    using assms(1) by (auto simp: starved_def)
  show ?thesis
  proof (cases "isReplayableQueueTopic t")
    case True
    with push_capped_tail [OF s(1), of x] logged_push [OF s(2) assms(2), of x] s assms(3) show ?thesis
      unfolding starved_def by (intro exI [of _ pre] exI [of _ e] exI [of _ first] exI [of _ "rest @ [x]"]) (simp add: f)
  next
    case False
    with s logged_mono [OF s(2), of "Suc (GUIDsDrawn a)"] show ?thesis
      unfolding starved_def by (intro exI [of _ pre] exI [of _ e] exI [of _ first] exI [of _ rest]) (simp add: f)
  qed
qed

lemma hungry_same: "polls_same a a' \<Longrightarrow> hungry h w a' = hungry h w a"
  by (simp add: hungry_def polls_same_def)

lemma broadcast_hungry:
  assumes "polls_ok a" "hungry h w a" "starved uuid w a" "fresh_guids uuid" "RandomUUID env = uuid"
  shows "hungry h w (broadcastQueueTopic env t p a)" "starved uuid w (broadcastQueueTopic env t p a)"
    and "pwBucket w = ''observer'' \<Longrightarrow> PollManagerOn env \<Longrightarrow> isReplayableQueueTopic t \<Longrightarrow> take 9 t = ''observer.'' \<Longrightarrow>
      findQueueEventIndex (pwSince w) (snd (stampQueueEvent env t p a)) \<noteq> None \<Longrightarrow>
      hungry h (w\<lparr>pwTimer := False\<rparr>) (broadcastQueueTopic env t p a)"
proof -
  obtain x a1 where st: "stampQueueEvent env t p a = (x, a1)" by (rule prod.exhaust)
  have same: "polls_same a a1" using stamp_queue_fields [OF st] by (simp add: polls_same_def)
  have a1: "polls_ok a1" "hungry h w a1" "starved uuid w a1"
    using polls_same_ok [OF same assms(1)] hungry_same [OF same] starved_broadcast [OF assms(3,4,5) st] assms(2) by auto
  have drain: "hungry h w' (drainOnBroadcast b a') \<and>
      (b = pwBucket w' \<longrightarrow> findQueueEventIndex (pwSince w') a' \<noteq> None \<longrightarrow> hungry h (w'\<lparr>pwTimer := False\<rparr>) (drainOnBroadcast b a'))"
    if "polls_ok a'" "hungry h w' a'" "nothing_for w' a'" for a' b w'
  proof (cases "oget (PollBuckets a') b")
    case None
    have "b \<noteq> pwBucket w'" using that(1,2) None polls_okD(3) [OF that(1)] has_bucket unfolding hungry_def by fastforce
    with None that(2) show ?thesis by (simp add: drainOnBroadcast_def)
  next
    case (Some ws)
    have "b = pwBucket w' \<Longrightarrow> h \<in> set ws"
      using polls_okD(2) [OF that(1) Some] hungry_waiting [OF that(2)] unfolding bucket_ok_def by blast
    with drains_hungry [OF that, of ws] Some show ?thesis by (auto simp: drainOnBroadcast_def)
  qed
  have q: "hungry h w (drainOnBroadcast ''queue'' a1)" "polls_ok (drainOnBroadcast ''queue'' a1)"
    "nothing_for w (drainOnBroadcast ''queue'' a1)"
    using drain [OF a1(1,2) starved_nothing [OF a1(3)]] drain_ok [OF a1(1)]
      nothing_polls [OF poll_part_drain] starved_nothing [OF a1(3)] by auto
  have told: "hungry h w (notifyPolls env t a1)"
    using q(1) drain [OF q(2,1,3)] a1(2) by (simp add: notifyPolls_def Let_def)
  let ?n = "notifyTaps t x (notifyPolls env t a1)"
  have "poll_part a1 (notifyPolls env t a1)"
    by (auto simp: notifyPolls_def Let_def intro: poll_part_trans poll_parts)
  then have part: "poll_part a1 ?n" by (simp add: poll_part_def timeline_defs)
  have taps: "polls_same (notifyPolls env t a1) ?n" by (simp add: polls_same_def timeline_defs)
  let ?a = "broadcastQueueTopic env t p a"
  have eq: "?a = fold (\<lambda>c. sendQueueEnvelope c x) (QueueSubscribers ?n) ?n"
    by (simp add: broadcastQueueTopic_def st Let_def)
  have sent: "polls_same (notifyPolls env t a1) ?a" unfolding eq by (rule polls_same_sends [OF taps])
  with told show "hungry h w ?a" by (simp add: hungry_same)
  have frame: "QueueEventBuffer (fold (\<lambda>c. send_frame c f) cs b) = QueueEventBuffer b \<and>
      QueueEventCap (fold (\<lambda>c. send_frame c f) cs b) = QueueEventCap b \<and>
      GUIDsDrawn (fold (\<lambda>c. send_frame c f) cs b) = GUIDsDrawn b" for f cs b
    by (induction cs arbitrary: b) (simp_all add: send_frame_def split: option.split)
  then show "starved uuid w ?a"
    using a1(3) unfolding starved_def eq by (simp add: poll_part_fields [OF part])
  assume obs: "pwBucket w = ''observer''" "PollManagerOn env" "isReplayableQueueTopic t" "take 9 t = ''observer.''"
    "findQueueEventIndex (pwSince w) (snd (stampQueueEvent env t p a)) \<noteq> None"
  then have "hungry h (w\<lparr>pwTimer := False\<rparr>) (notifyPolls env t a1)"
    using drain [OF q(2,1,3), of "''observer''"]
    by (simp add: notifyPolls_def Let_def st poll_part_fields [OF poll_part_drain] eval_nat_numeral)
  with sent show "hungry h (w\<lparr>pwTimer := False\<rparr>) ?a" by (simp add: hungry_same)
qed

lemma broadcasts_hungry:
  "polls_ok a \<Longrightarrow> hungry h w a \<Longrightarrow> starved uuid w a \<Longrightarrow> fresh_guids uuid \<Longrightarrow>
    \<forall>(env, t, p) \<in> set bs. RandomUUID env = uuid \<Longrightarrow>
    hungry h w (fold (\<lambda>(env, t, p). broadcastQueueTopic env t p) bs a) \<and>
    polls_ok (fold (\<lambda>(env, t, p). broadcastQueueTopic env t p) bs a)"
proof (induction bs arbitrary: a)
  case (Cons b bs)
  obtain env t p where b: "b = (env, t, p)" by (rule prod_cases3)
  with Cons.prems(5) have "RandomUUID env = uuid" by simp
  note one = broadcast_hungry [OF Cons.prems(1-4) this]
  from Cons.IH [OF broadcast_ok [OF Cons.prems(1)] one(1,2) Cons.prems(4)] Cons.prems(5) b show ?case by simp
qed simp

text \<open>
  A poll of the observer's events can starve: when the first \<open>limit\<close> events after its cursor are not
  the observer's, the slice is cut before it is filtered. The next observer event takes its timer and
  puts it back to sleep, and no later broadcast answers it, however many observer events there are; its
  own timeout no longer does anything.
\<close>

theorem observer_poll_starves:
  assumes "fresh_guids uuid" "reach (serve_init cap) (serve_step uuid) a"
    and "oget (PollWaiters a) h = Some w" "\<not> pwSettled w" "pwBucket w = ''observer''"
    and "QueueEventBuffer a = pre @ e # first @ rest" "pwSince w = evGUID e"
    and "length first = pwLimit w" "0 < pwLimit w" "poll_filter (pwPrefix w) first = []"
    and "length (first @ rest) + 1 < cap" "RandomUUID env = uuid" "PollManagerOn env"
    and "\<forall>(env, t, p) \<in> set bs. RandomUUID env = uuid"
  shows "let a' = fold (\<lambda>(env, t, p). broadcastQueueTopic env t p) bs (broadcastQueueTopic env (''observer.'' @ t) p a)
    in waiting h ''observer'' a' \<and> h \<notin> fst ` set (PollAnswers a') \<and> pollTimer h a' = a'"
proof -
  let ?t = "''observer.'' @ t" and ?w = "w\<lparr>pwTimer := False\<rparr>"
  let ?a1 = "broadcastQueueTopic env ?t p a"
  let ?a' = "fold (\<lambda>(env, t, p). broadcastQueueTopic env t p) bs ?a1"
  note ok = polls.reach_inv [OF assms(2)]
  note buf = serve_buffer [OF assms(2,1)]
  have lg: "holds_tail (QueueEventCap a) (pre @ e # first @ rest) (QueueEventBuffer a)"
    "logged uuid (GUIDsDrawn a) (pre @ e # first @ rest)"
    using buf assms(6) by (simp_all add: holds_tail_def)
  then have "evGUID e \<in> uuid ` {..<GUIDsDrawn a}" by (simp add: logged_def)
  then have e: "evGUID e \<noteq> []" using assms(1) by (metis fresh_guids_def imageE)
  have starved: "starved uuid w a"
    unfolding starved_def using lg assms(7-10) e by blast
  have hungry: "hungry h w a" using assms(3,4) by (auto simp: hungry_def intro!: exI [of _ "pwTimer w"])
  have rep: "isReplayableQueueTopic ?t" by (simp add: isReplayableQueueTopic_def)
  obtain x s1 where st: "stampQueueEvent env ?t p a = (x, s1)" by (rule prod.exhaust)
  note f = stamp_queue_fields [OF st]
  have tail: "holds_tail (QueueEventCap s1) (pre @ e # (first @ rest @ [x])) (QueueEventBuffer s1)"
    using push_capped_tail [OF lg(1), of x] rep by (simp add: f)
  have "logged uuid (Suc (GUIDsDrawn a)) ((pre @ e # first @ rest) @ [x])"
    by (rule logged_push [OF lg(2) assms(1)]) (use f assms(12) rep in simp_all)
  then have "distinct (map evGUID (pre @ e # (first @ rest @ [x])))" by (simp add: logged_def)
  from queue.catch_up [OF tail this e] assms(11) buf(3) have "findQueueEventIndex (pwSince w) s1 \<noteq> None"
    by (auto simp: f assms(7))
  then have h1: "hungry h ?w ?a1"
    using broadcast_hungry(3) [OF ok hungry starved assms(1,12) assms(5,13) rep] st by simp
  have "starved uuid ?w ?a1"
    using broadcast_hungry(2) [OF ok hungry starved assms(1,12), of ?t p] by (simp add: starved_def)
  from broadcasts_hungry [OF broadcast_ok [OF ok] h1 this assms(1,14)]
  have h2: "hungry h ?w ?a'" "polls_ok ?a'" by auto
  then have wait: "waiting h ''observer'' ?a'" using hungry_waiting [OF h2(1)] assms(5) by simp
  moreover have "h \<notin> answered ?a'"
    using wait polls_okD(3) [OF h2(2)] unfolding waiting_def waiter_ok_def by metis
  moreover have "pollTimer h ?a' = ?a'" using h2(1) by (auto simp: hungry_def pollTimer_def)
  ultimately show ?thesis by (simp add: answered_def Let_def)
qed

subsection \<open>The cursor of the web page\<close>

text \<open>
  The page that lists the beacons (\<open>PictView-Ultravisor-BeaconList.js\<close>) takes the GUID of every frame it
  gets as its cursor.
\<close>

fun onmessage :: "ws_frame \<Rightarrow> string \<Rightarrow> string" where
  "onmessage (QueueFrame e) g = (if evGUID e \<noteq> [] then evGUID e else g)"
| "onmessage (RunFrame e) g = (if reGUID e \<noteq> [] then reGUID e else g)"
| "onmessage (AuthRequired t) g = g"

definition page_cursor :: "string \<Rightarrow> api \<Rightarrow> string" where
  "page_cursor c a = fold onmessage (frames_of c a) []"

lemma subscribe_ends_with_summary:
  assumes "SchedulerSummary env = Some p" "\<not> SecuredMode env" "is_open c a"
  shows "\<exists>fs e n. frames_of c (queueSubscribe env c g a) = fs @ [QueueFrame e] \<and> evGUID e = RandomUUID env n \<and>
    GUIDsDrawn a \<le> n \<and> QueueEventBuffer (queueSubscribe env c g a) = QueueEventBuffer a"
proof -
  let ?a1 = "a\<lparr>QueueSubscribers := push_new c (QueueSubscribers a)\<rparr>"
  have op: "is_open c ?a1" using assms(3) by (simp add: is_open_def)
  let ?b = "if g = [] then ?a1 else replayQueue env c g ?a1"
  have "\<exists>fs. sends c fs ?a1 ?b"
  proof (cases "findQueueEventIndex g ?a1")
    case None
    from replay_missing [OF op None, of env] show ?thesis by (auto intro: exI [of _ "[]"])
  next
    case (Some i)
    from replay_sends [OF op Some, of env] show ?thesis by (auto intro: exI [of _ "[]"])
  qed
  then obtain fs where fs: "sends c fs ?a1 ?b" by blast
  obtain e b' where st: "stampQueueEvent env ''queue.summary'' p ?b = (e, b')" by (rule prod.exhaust)
  note f = stamp_queue_fields [OF st]
  have b: "is_open c ?b" "QueueEventBuffer ?b = QueueEventBuffer a" "GUIDsDrawn a \<le> GUIDsDrawn ?b"
    using fs op by (simp_all add: sends_def)
  have q: "queueSubscribe env c g a = sendQueueEnvelope c e b'"
    using assms(1,2) by (simp add: queueSubscribe_def wsConsumerAuthorized_def Let_def sendQueueControlFrame_def st)
  have s: "frames_of c (sendQueueEnvelope c e b') = frames_of c b' @ [QueueFrame e]"
    using sends_frame [of c c b' "QueueFrame e"] b(1) f(4) by (simp add: sends_def is_open_def)
  have g: "GUIDsDrawn (sendQueueEnvelope c e b') = GUIDsDrawn b'" "QueueEventBuffer (sendQueueEnvelope c e b') = QueueEventBuffer b'"
    by (simp_all add: send_frame_def split: option.split)
  show ?thesis
    unfolding q using s g(2) b(2,3) f(1,7) by (metis control_topics(1))
qed

text \<open>
  The page loses its place although it has missed nothing: a subscription ends with a summary, whose
  GUID is never in the buffer, so a page whose socket closes before the next event comes back with that
  GUID and is sent a reset, while the events it has seen are all still in the buffer.
\<close>

theorem page_cursor_is_reset:
  assumes "fresh_guids uuid" "reach (serve_init cap) (serve_step uuid) a"
    and "SchedulerSummary env = Some p" "\<not> SecuredMode env" "RandomUUID env = uuid" "c \<noteq> c'"
    and a1_def: "a1 = queueSubscribe env c g (openSocket c True a)"
    and a2_def: "a2 = queueSubscribe env c' (page_cursor c a1) (openSocket c' True (closeSocket c a1))"
  shows "QueueEventBuffer a2 = QueueEventBuffer a \<and> page_cursor c a1 \<noteq> [] \<and>
    (\<exists>e. QueueFrame e \<in> set (frames_of c' a2) \<and> evTopic e = ''queue.reset'')"
proof -
  let ?a0 = "openSocket c True a"
  have a0: "is_open c ?a0" "QueueEventBuffer ?a0 = QueueEventBuffer a" "GUIDsDrawn ?a0 = GUIDsDrawn a"
    by (simp_all add: openSocket_def is_open_def obj_simps)
  obtain fs e n where fs: "frames_of c a1 = fs @ [QueueFrame e]" "evGUID e = uuid n"
    "GUIDsDrawn a \<le> n" "QueueEventBuffer a1 = QueueEventBuffer a"
    using subscribe_ends_with_summary [OF assms(3,4) a0(1), of g] a0 assms(5) unfolding a1_def by auto
  have e: "evGUID e \<noteq> []" using fs(2) assms(1) by (simp add: fresh_guids_def)
  then have cur: "page_cursor c a1 = evGUID e" by (simp add: page_cursor_def fs(1))
  let ?a3 = "openSocket c' True (closeSocket c a1)"
  let ?a4 = "?a3\<lparr>QueueSubscribers := push_new c' (QueueSubscribers ?a3)\<rparr>"
  have "sends c' [] a1 (closeSocket c a1)" by (rule sends_close) (use assms(6) in simp)
  then have buf: "QueueEventBuffer ?a4 = QueueEventBuffer a" using fs(4) by (simp add: sends_def openSocket_def)
  have op: "is_open c' ?a3" "is_open c' ?a4" "frames_of c' ?a4 = []"
    by (simp_all add: openSocket_def is_open_def frames_of_def obj_simps)
  have "logged uuid (GUIDsDrawn a) (QueueEventBuffer a)" by (rule serve_buffer [OF assms(2,1)])
  moreover have "uuid n \<notin> uuid ` {..<GUIDsDrawn a}"
    using assms(1) fs(3) by (metis fresh_guids_def imageE inj_eq lessThan_iff not_less)
  ultimately have "evGUID e \<notin> evGUID ` set (QueueEventBuffer a)" using fs(2) by (auto simp: logged_def)
  then have "findQueueEventIndex (evGUID e) ?a4 = None"
    unfolding findQueueEventIndex_def buf by (rule find_guid_None)
  then have "\<exists>x. evTopic x = ''queue.reset'' \<and> sends c' [QueueFrame x] ?a4 (replayQueue env c' (evGUID e) ?a4)"
    using sends_control [OF control_topics(2), of c' c' ?a4 env] op(2) by (auto simp: replayQueue_def)
  then obtain x where x: "evTopic x = ''queue.reset''" "sends c' [QueueFrame x] ?a4 (replayQueue env c' (evGUID e) ?a4)" by blast
  have "\<not> SecuredMode env \<or> wsConsumerAuthorized env c' ?a3" using assms(4) by simp
  from subscribe_sends [OF op(1) this, of "[QueueFrame x]" "evGUID e"] x(2) e obtain fs' where
    "sends c' ([QueueFrame x] @ fs') ?a4 a2" unfolding a2_def cur by auto
  then show ?thesis using op(3) buf x(1) e cur by (auto simp: sends_def)
qed

subsection \<open>The feed of a run that pauses\<close>

definition run_frames :: "string \<Rightarrow> string \<Rightarrow> api \<Rightarrow> ws_frame list" where
  "run_frames r c a = filter (\<lambda>f. case f of RunFrame e \<Rightarrow> reRunHash e = r | _ \<Rightarrow> False) (frames_of c a)"

lemma run_frames_send:
  "(\<forall>e. f \<noteq> RunFrame e \<or> reRunHash e \<noteq> r) \<Longrightarrow> run_frames r c (send_frame d f a) = run_frames r c a"
  by (auto simp: run_frames_def frames_of_def send_frame_def obj_simps split: option.split ws_frame.split)

lemma send_all_frame:
  "RunSubscriptions (fold (\<lambda>c. send_frame c f) cs a) = RunSubscriptions a"
  "RunCleanups (fold (\<lambda>c. send_frame c f) cs a) = RunCleanups a"
  by (induction cs arbitrary: a) (simp_all add: send_frame_def split: option.split)

lemma run_frames_sends: "reRunHash e \<noteq> r \<Longrightarrow> run_frames r c (fold (\<lambda>d. sendManifestEnvelope d e) cs a) = run_frames r c a"
  by (induction cs arbitrary: a) (simp_all add: run_frames_send)

lemma run_event_silent:
  assumes "oget (RunSubscriptions a) r = None"
  shows "run_frames r c (onExecutionEvent env t q d a) = run_frames r c a"
    and "oget (RunSubscriptions (onExecutionEvent env t q d a)) r = None"
    and "\<not> (q = r \<and> t = ''ExecutionComplete'') \<Longrightarrow>
      oget (RunCleanups (onExecutionEvent env t q d a)) r = oget (RunCleanups a) r"
proof -
  obtain e a1 where st: "stampManifestEvent env t q d a = (e, a1)" by (rule prod.exhaust)
  have e: "reRunHash e = q" "RunCleanups a1 = RunCleanups a" using st by (auto simp: stampManifestEvent_def Let_def)
  have a1: "run_frames r c a1 = run_frames r c a" "RunSubscriptions a1 = RunSubscriptions a"
    using stamp_run_fields [OF st] by (simp_all add: run_frames_def frames_of_def)
  let ?a2 = "case oget (RunSubscriptions a1) q of None \<Rightarrow> a1 | Some cs \<Rightarrow> fold (\<lambda>c. sendManifestEnvelope c e) cs a1"
  have a2: "run_frames r c ?a2 = run_frames r c a" "RunSubscriptions ?a2 = RunSubscriptions a" "RunCleanups ?a2 = RunCleanups a"
    using assms a1 e by (cases "q = r"; simp add: send_all_frame run_frames_sends split: option.split)+
  have eq: "onExecutionEvent env t q d a = (if t = ''ExecutionComplete''
      then (scheduleManifestBufferCleanup env q ?a2)\<lparr>RunSubscriptions := odel q (RunSubscriptions ?a2)\<rparr> else ?a2)"
    by (simp add: onExecutionEvent_def st Let_def)
  have keep: "run_frames r c (b\<lparr>RunSubscriptions := x\<rparr>) = run_frames r c b"
    "run_frames r c (scheduleManifestBufferCleanup env q b) = run_frames r c b" for b x
    by (simp_all add: run_frames_def frames_of_def scheduleManifestBufferCleanup_def)
  show "run_frames r c (onExecutionEvent env t q d a) = run_frames r c a"
    unfolding eq using a2(1) keep by (simp split: if_split)
  show "oget (RunSubscriptions (onExecutionEvent env t q d a)) r = None"
    unfolding eq using a2(2) assms by (simp add: oget_odel split: if_split)
  show "oget (RunCleanups (onExecutionEvent env t q d a)) r = oget (RunCleanups a) r"
    if "\<not> (q = r \<and> t = ''ExecutionComplete'')"
    unfolding eq using a2(3) that by (auto simp: scheduleManifestBufferCleanup_def oget_oset split: if_split)
qed

lemma complete_unsubscribes:
  "oget (RunSubscriptions (onExecutionEvent env ''ExecutionComplete'' r d a)) r = None"
  "r \<noteq> [] \<Longrightarrow> GracePeriodMs a = g \<Longrightarrow>
    oget (RunCleanups (onExecutionEvent env ''ExecutionComplete'' r d a)) r = Some (ApiNow env + g)"
proof -
  obtain e a1 where st: "stampManifestEvent env ''ExecutionComplete'' r d a = (e, a1)" by (rule prod.exhaust)
  have g: "GracePeriodMs a1 = GracePeriodMs a" using st by (auto simp: stampManifestEvent_def Let_def)
  have "GracePeriodMs (fold (\<lambda>c. send_frame c f) cs b) = GracePeriodMs b" for f cs b
    by (induction cs arbitrary: b) (simp_all add: send_frame_def split: option.split)
  then have "GracePeriodMs (case oget (RunSubscriptions a1) r of None \<Rightarrow> a1
      | Some cs \<Rightarrow> fold (\<lambda>c. sendManifestEnvelope c e) cs a1) = GracePeriodMs a"
    using g by (simp split: option.split)
  then show "oget (RunSubscriptions (onExecutionEvent env ''ExecutionComplete'' r d a)) r = None"
    "r \<noteq> [] \<Longrightarrow> GracePeriodMs a = g \<Longrightarrow>
      oget (RunCleanups (onExecutionEvent env ''ExecutionComplete'' r d a)) r = Some (ApiNow env + g)"
    by (simp_all add: onExecutionEvent_def st Let_def scheduleManifestBufferCleanup_def oget_oset oget_odel)
qed

text \<open>
  The feed of a run is cut when the run pauses: the manifest emits \<open>ExecutionComplete\<close> whenever a
  run is finalized, also for a run that only waits, and the server then drops all its subscribers. The
  events after the pause reach no socket until it subscribes again, and when the grace period of the
  pause ends the buffer is dropped with the events of the resumed run, which can no longer be replayed.
\<close>

theorem pause_cuts_run_feed:
  assumes "r \<noteq> []" "\<forall>(env, t, q, d) \<in> set evs. \<not> (q = r \<and> t = ''ExecutionComplete'')"
    and "ApiNow env + GracePeriodMs a \<le> ApiNow env'"
  shows "let a1 = onExecutionEvent env ''ExecutionComplete'' r d a;
      a2 = fold (\<lambda>(env, t, q, d). onExecutionEvent env t q d) evs a1
    in (\<forall>c. run_frames r c a2 = run_frames r c a1) \<and>
      (\<forall>g. findManifestEventIndex r g (manifestCleanupTimer env' r a2) = None)"
proof -
  let ?a1 = "onExecutionEvent env ''ExecutionComplete'' r d a"
  have run: "oget (RunSubscriptions b) r = None \<Longrightarrow> oget (RunCleanups b) r = Some due \<Longrightarrow>
      run_frames r c (fold (\<lambda>(env, t, q, d). onExecutionEvent env t q d) evs b) = run_frames r c b \<and>
      oget (RunCleanups (fold (\<lambda>(env, t, q, d). onExecutionEvent env t q d) evs b)) r = Some due" for b due c
    using assms(2)
  proof (induction evs arbitrary: b)
    case (Cons ev evs)
    obtain env t q d where ev: "ev = (env, t, q, d)" by (rule prod_cases4)
    with Cons.prems(3) have ok: "\<not> (q = r \<and> t = ''ExecutionComplete'')" by simp
    note one = run_event_silent(1) [OF Cons.prems(1), of c env t q d] run_event_silent(2) [OF Cons.prems(1), of env t q d]
      run_event_silent(3) [OF Cons.prems(1) ok, of env d]
    from Cons.IH [of "onExecutionEvent env t q d b"] one Cons.prems ev show ?case by simp
  qed simp
  from run [OF complete_unsubscribes(1) complete_unsubscribes(2) [OF assms(1) refl]] assms(3)
  show ?thesis by (simp add: Let_def manifestCleanupTimer_def findManifestEventIndex_def oget_odel)
qed

end
