(* ===== verification/EventScenarios.thy ===== *)
theory EventScenarios
  imports EventProperties
begin

section \<open>Small runs of the event streams\<close>

text \<open>A server that has seen a few broadcasts and polls, on which the properties are applied.\<close>

fun serve_run :: "api_event list \<Rightarrow> api \<Rightarrow> api option" where
  "serve_run [] a = Some a"
| "serve_run (ev # evs) a = (if poll_new ev a then serve_run evs (api_apply demo_api_env ev a) else None)"

lemma serve_run_reach: "serve_run evs a = Some b \<Longrightarrow> reach (serve_init cap) (serve_step demo_uuid) a \<Longrightarrow>
    reach (serve_init cap) (serve_step demo_uuid) b"
proof (induction evs arbitrary: a)
  case (Cons ev evs)
  then have ok: "poll_new ev a" "serve_run evs (api_apply demo_api_env ev a) = Some b" by (auto split: if_splits)
  have "serve_step demo_uuid a (demo_api_env, ev) (api_apply demo_api_env ev a)"
    by (rule serve_step [OF _ ok(1)]) (simp add: demo_api_env_def)
  from Cons.IH [OF ok(2) reach.reach_step [OF Cons.prems(2) this]] show ?case .
qed simp

definition demo_api :: api where
  "demo_api = initial_api\<lparr>QueueEventCap := 10\<rparr>"

text \<open>Two events of the queue; a poll of the observer's events with limit 1 after the first, which waits.\<close>

definition demo_requests :: "api_event list" where
  "demo_requests = [BroadcastTopic ''queue.enqueued'' JNull, BroadcastTopic ''queue.running'' JNull,
     PollObserver ''r1'' ''e0'' (Some 1) (Some 1000), PollQueue ''r2'' ''e0'' None (Some 0)]"

definition polled :: api where
  "polled = the (serve_run demo_requests demo_api)"

lemma polled_reach: "reach (serve_init 10) (serve_step demo_uuid) polled"
proof (rule serve_run_reach)
  have "serve_run demo_requests demo_api \<noteq> None" by code_simp
  then show "serve_run demo_requests demo_api = Some polled" by (simp add: polled_def)
  show "reach (serve_init 10) (serve_step demo_uuid) demo_api"
    by (rule reach.reach_init) (simp add: serve_init_def demo_api_def)
qed

theorem polls_answered_once_witness:
  "map fst (PollAnswers polled) = [''r2''] \<and> oget (PollBuckets polled) ''observer'' = Some [''r1''] \<and>
     totalWaiters polled \<le> MaxPollWaiters polled"
proof -
  have "map fst (PollAnswers polled) = [''r2'']" "oget (PollBuckets polled) ''observer'' = Some [''r1'']" by code_simp+
  with polls_answered_once [OF polled_reach] show ?thesis by blast
qed

theorem pages_are_complete_witness:
  "\<exists>e. QueueEventBuffer polled = [hd (QueueEventBuffer polled), e] \<and>
     read_pages demo_api_env None (Some 1) 2 ''e0'' polled = Some [e]"
proof -
  have "map evGUID (QueueEventBuffer polled) = [''e0'', ''e1'']" by code_simp
  then obtain d e where de: "QueueEventBuffer polled = [d, e]" "evGUID d = ''e0''" by auto
  then have "stands ''e0'' [e] polled" by (auto simp: stands_def intro: exI [of _ "[]"])
  from pages_are_complete [OF fresh_demo polled_reach this, of 2 demo_api_env None "Some 1"] de show ?thesis
    by (simp add: poll_filter_def)
qed

theorem observer_poll_starves_witness:
  "\<exists>a. a = broadcastQueueTopic demo_api_env ''observer.snapshot'' JNull polled \<and> waiting ''r1'' ''observer'' a \<and>
     ''r1'' \<notin> fst ` set (PollAnswers a) \<and> pollTimer ''r1'' a = a"
proof -
  have "map evGUID (QueueEventBuffer polled) = [''e0'', ''e1'']"
    "map evTopic (QueueEventBuffer polled) = [''queue.enqueued'', ''queue.running'']" by code_simp+
  then obtain d e where de: "QueueEventBuffer polled = [d, e]" "evGUID d = ''e0''" "evTopic e = ''queue.running''" by auto
  have "map_option (\<lambda>w. (pwSettled w, pwBucket w, pwSince w, pwLimit w, pwPrefix w)) (oget (PollWaiters polled) ''r1'') =
    Some (False, ''observer'', ''e0'', 1, Some ''observer.'')" by code_simp
  then obtain w where w: "oget (PollWaiters polled) ''r1'' = Some w" "\<not> pwSettled w" "pwBucket w = ''observer''"
    "pwSince w = ''e0''" "pwLimit w = 1" "pwPrefix w = Some ''observer.''" by auto
  have "poll_filter (pwPrefix w) [e] = []" using w(6) de(3) by (simp add: poll_filter_def)
  with observer_poll_starves [OF fresh_demo polled_reach w(1-3), of "[]" d "[e]" "[]" demo_api_env "[]" "''snapshot''" JNull]
    de w(4,5) show ?thesis by (simp add: demo_api_env_def Let_def)
qed

theorem page_cursor_is_reset_witness:
  "\<exists>a2 e. a2 = queueSubscribe demo_api_env ''s2''
       (page_cursor ''s1'' (queueSubscribe demo_api_env ''s1'' ''e1'' (openSocket ''s1'' True polled)))
       (openSocket ''s2'' True (closeSocket ''s1'' (queueSubscribe demo_api_env ''s1'' ''e1'' (openSocket ''s1'' True polled)))) \<and>
     QueueEventBuffer a2 = QueueEventBuffer polled \<and> QueueFrame e \<in> set (frames_of ''s2'' a2) \<and> evTopic e = ''queue.reset''"
  using page_cursor_is_reset [OF fresh_demo polled_reach, of demo_api_env JNull "''s1''" "''s2''" _ "''e1''"]
  by (auto simp: demo_api_env_def)

text \<open>A run with a subscriber that pauses and goes on.\<close>

definition paused_feed :: api where
  "paused_feed = onExecutionEvent demo_api_env ''TaskStart'' ''run-1'' JNull
     (runSubscribe demo_api_env ''s1'' ''run-1'' [] (openSocket ''s1'' True demo_api))"

theorem pause_cuts_run_feed_witness:
  "\<exists>a1 a2. a1 = onExecutionEvent demo_api_env ''ExecutionComplete'' ''run-1'' JNull paused_feed \<and>
     a2 = onExecutionEvent demo_api_env ''TaskStart'' ''run-1'' JNull a1 \<and>
     length (run_frames ''run-1'' ''s1'' a1) = 2 \<and> run_frames ''run-1'' ''s1'' a2 = run_frames ''run-1'' ''s1'' a1 \<and>
     findManifestEventIndex ''run-1'' ''e2'' a2 = Some 2 \<and>
     findManifestEventIndex ''run-1'' ''e2'' (manifestCleanupTimer (demo_api_env\<lparr>ApiNow := 300000\<rparr>) ''run-1'' a2) = None"
proof -
  let ?a1 = "onExecutionEvent demo_api_env ''ExecutionComplete'' ''run-1'' JNull paused_feed"
  let ?a2 = "onExecutionEvent demo_api_env ''TaskStart'' ''run-1'' JNull ?a1"
  have "length (run_frames ''run-1'' ''s1'' ?a1) = 2" "findManifestEventIndex ''run-1'' ''e2'' ?a2 = Some 2"
    "ApiNow demo_api_env + GracePeriodMs paused_feed = 300000" by code_simp+
  with pause_cuts_run_feed [of "''run-1''" "[(demo_api_env, ''TaskStart'', ''run-1'', JNull)]" demo_api_env paused_feed
      "demo_api_env\<lparr>ApiNow := 300000\<rparr>" JNull] show ?thesis by (simp add: Let_def)
qed

end
