(* ===== verification/OperationAuditor.thy ===== *)
theory OperationAuditor
  imports BeaconRegistry EngineProperties
begin

section \<open>The auditor of operations\<close>

text \<open>
  \<open>Ultravisor-OperationAuditor.cjs\<close>: it compares the nodes of an operation that dispatch to a beacon, and
  the state connections of its graph, with the settings that the actions of the beacons declare, to find
  values that a worker would ignore. The names in an issue are those the report is about; titles, the
  hash of a connection and the sentences of the report are left out. A capability or action in the data
  of a node that is not a string is not modelled.
\<close>

subsection \<open>The catalog and the ports\<close>

definition catalog_key :: "string \<Rightarrow> string \<Rightarrow> string" where
  "catalog_key cap act = cap @ ''/'' @ act"

text \<open>The fields an action reads, by capability and action; a later entry replaces an earlier one.\<close>

definition action_reads :: "catalog_view \<Rightarrow> string list" where
  "action_reads v = foldl (\<lambda>names x. if FieldName x = [] then names else push_new (FieldName x) names) [] (vSettingsSchema v)"

definition buildActionSchemaIndex :: "coord option \<Rightarrow> string list obj" where
  "buildActionSchemaIndex s = (case s of
     None \<Rightarrow> []
   | Some s \<Rightarrow> foldl (\<lambda>m v. oset (catalog_key (vCapability v) (vAction v)) (action_reads v) m) [] (getActionCatalog s))"

text \<open>The auditor has its own copy of the engine's search for the name of a port.\<close>

fun auditPortLoop :: "string list \<Rightarrow> string \<Rightarrow> string obj \<Rightarrow> string" where
  "auditPortLoop [] h labels = (case oget labels h of None \<Rightarrow> h | Some l \<Rightarrow> if l = [] then h else l)"
| "auditPortLoop (p # ps) h labels =
     (case after_last p h of Some name \<Rightarrow> name | None \<Rightarrow> auditPortLoop ps h labels)"

definition auditPortName :: "string \<Rightarrow> string obj \<Rightarrow> string" where
  "auditPortName h labels = (if h = [] then [] else auditPortLoop port_prefixes h labels)"

definition auditPortLabels :: "graph \<Rightarrow> string obj" where
  "auditPortLabels g = fold (\<lambda>nd m. fold (\<lambda>p. oset (pHash p) (str_or (pLabel p) (pHash p))) (nPorts nd) m) (gNodes g) []"

definition dispatchMetaKeys :: "string list" where
  "dispatchMetaKeys = [''RemoteCapability'', ''RemoteAction'', ''AffinityKey'', ''TimeoutMs'', ''PromptMessage'',
     ''OutputAddress'', ''InputSchema'', ''venv_path'']"

subsection \<open>One operation\<close>

datatype issue =
    ActionNotInCatalog string string
  | UnknownDataKey string string string
  | TargetPortNotInSchema connection string string
  | ValueInputMismatch connection string

record dispatch_node =
  dnKey :: string
  dnReads :: "string list option"

definition node_data :: "node \<Rightarrow> json obj" where
  "node_data nd = (case nData nd of None \<Rightarrow> [] | Some d \<Rightarrow> d)"

definition data_string :: "json obj \<Rightarrow> string \<Rightarrow> string" where
  "data_string d k = (case jget d k of JStr s \<Rightarrow> s | _ \<Rightarrow> [])"

definition dispatch_node_of :: "string list obj \<Rightarrow> node \<Rightarrow> dispatch_node" where
  "dispatch_node_of index nd =
     (let key = catalog_key (data_string (node_data nd) ''RemoteCapability'') (data_string (node_data nd) ''RemoteAction'')
      in \<lparr>dnKey = key, dnReads = oget index key\<rparr>)"

definition audit_node :: "string list obj \<Rightarrow> node \<Rightarrow> issue list" where
  "audit_node index nd =
     (if nType nd \<noteq> ''beacon-dispatch'' then []
      else let dn = dispatch_node_of index nd
        in case dnReads dn of
             None \<Rightarrow> [ActionNotInCatalog (nHash nd) (dnKey dn)]
           | Some reads \<Rightarrow> map (UnknownDataKey (nHash nd) (dnKey dn))
               (filter (\<lambda>k. k \<notin> set dispatchMetaKeys \<and> k \<notin> set reads) (okeys (node_data nd))))"

definition dispatch_nodes :: "string list obj \<Rightarrow> node list \<Rightarrow> dispatch_node obj" where
  "dispatch_nodes index nodes =
     foldl (\<lambda>m nd. if nType nd = ''beacon-dispatch'' then oset (nHash nd) (dispatch_node_of index nd) m else m) [] nodes"

definition nodes_by_hash :: "node list \<Rightarrow> node obj" where
  "nodes_by_hash nodes = foldl (\<lambda>m nd. oset (nHash nd) nd m) [] nodes"

definition audit_connection ::
    "dispatch_node obj \<Rightarrow> node obj \<Rightarrow> string obj \<Rightarrow> connection \<Rightarrow> issue list" where
  "audit_connection dispatch nodes labels cn =
     (if cConnectionType cn \<noteq> ''state'' then []
      else
        let source = auditPortName (cSourcePortHash cn) labels; target = auditPortName (cTargetPortHash cn) labels
        in (case oget dispatch (cTargetNodeHash cn) of
              None \<Rightarrow> []
            | Some dn \<Rightarrow> (case dnReads dn of
                None \<Rightarrow> []
              | Some reads \<Rightarrow> if target \<in> set reads then [] else [TargetPortNotInSchema cn (dnKey dn) target])) @
           (case oget nodes (cSourceNodeHash cn) of
              None \<Rightarrow> []
            | Some nd \<Rightarrow> if nType nd = ''value-input'' \<and> source \<noteq> ''InputValue'' then [ValueInputMismatch cn source] else []))"

definition auditOperation :: "operation option \<Rightarrow> string list obj \<Rightarrow> issue list" where
  "auditOperation op index = (case Option.bind op oGraph of
     None \<Rightarrow> []
   | Some g \<Rightarrow> concat (map (audit_node index) (gNodes g)) @
       concat (map (audit_connection (dispatch_nodes index (gNodes g)) (nodes_by_hash (gNodes g)) (auditPortLabels g))
         (gConnections g)))"

subsection \<open>All operations\<close>

datatype audit_kind = ACTION_NOT_IN_CATALOG | UNKNOWN_DATA_KEY | TGT_PORT_NOT_IN_SCHEMA | VALUE_INPUT_SRC_MISMATCH

fun issue_kind :: "issue \<Rightarrow> audit_kind" where
  "issue_kind (ActionNotInCatalog n k) = ACTION_NOT_IN_CATALOG"
| "issue_kind (UnknownDataKey n k d) = UNKNOWN_DATA_KEY"
| "issue_kind (TargetPortNotInSchema c k t) = TGT_PORT_NOT_IN_SCHEMA"
| "issue_kind (ValueInputMismatch c s) = VALUE_INPUT_SRC_MISMATCH"

record audited_operation =
  auHash :: string
  auName :: string
  auIssues :: "issue list"

record audit_report =
  arOperationCount :: nat
  arIssueCount :: nat
  arActionCatalogSize :: nat
  arWorstByKind :: "(audit_kind \<times> nat) list"
  arOperations :: "audited_operation list"

definition count_kind :: "audit_kind \<Rightarrow> (audit_kind \<times> nat) list \<Rightarrow> (audit_kind \<times> nat) list" where
  "count_kind k m = AList.update k (Suc (case map_of m k of None \<Rightarrow> 0 | Some n \<Rightarrow> n)) m"

definition audited :: "string list obj \<Rightarrow> operation \<Rightarrow> audited_operation" where
  "audited index op = \<lparr>auHash = oHash op, auName = oName op, auIssues = auditOperation (Some op) index\<rparr>"

text \<open>The worst operation first, then by name; \<open>localeCompare\<close> is a parameter.\<close>

definition compare_audited :: "(string \<Rightarrow> string \<Rightarrow> int) \<Rightarrow> audited_operation \<Rightarrow> audited_operation \<Rightarrow> int" where
  "compare_audited localeCompare a b =
     (if length (auIssues b) \<noteq> length (auIssues a) then int (length (auIssues b)) - int (length (auIssues a))
      else localeCompare (str_or (auName a) (auHash a)) (str_or (auName b) (auHash b)))"

definition auditAll ::
    "(string \<Rightarrow> string \<Rightarrow> int) \<Rightarrow> coord option \<Rightarrow> operation obj option \<Rightarrow> string + audit_report" where
  "auditAll localeCompare s ops = (case ops of
     None \<Rightarrow> Inl ''UltravisorHypervisorState service not available.''
   | Some ops \<Rightarrow>
       (let index = buildActionSchemaIndex s; rows = map (audited index) (ovals ops)
        in Inr \<lparr>arOperationCount = length (ovals ops),
                arIssueCount = sum_list (map (length \<circ> auIssues) rows),
                arActionCatalogSize = length index,
                arWorstByKind = fold (\<lambda>x. count_kind (issue_kind x)) (concat (map auIssues rows)) [],
                arOperations = sort_by (compare_audited localeCompare) rows\<rparr>))"

definition auditByHash :: "string \<Rightarrow> coord option \<Rightarrow> operation obj option \<Rightarrow> string + audited_operation" where
  "auditByHash h s ops = (case ops of
     None \<Rightarrow> Inl ''UltravisorHypervisorState service not available.''
   | Some ops \<Rightarrow> (case oget ops h of
       None \<Rightarrow> Inl (''Operation ['' @ h @ ''] not found.'')
     | Some op \<Rightarrow> Inr (audited (buildActionSchemaIndex s) op)))"

subsection \<open>The auditor reads a graph as the engine does\<close>

lemma auditPortName_engine: "auditPortName h labels = extractPortName h labels"
proof -
  have "auditPortLoop ps h labels = (case first_after ps h of Some name \<Rightarrow> name
    | None \<Rightarrow> (case oget labels h of Some l \<Rightarrow> if l = [] then h else l | None \<Rightarrow> h))" for ps
    by (induction ps) (auto split: option.split)
  then show ?thesis by (simp add: auditPortName_def extractPortName_def)
qed

lemma auditPortLabels_engine: "auditPortLabels g = buildPortLabelMap g"
proof -
  have "fold (\<lambda>nd m. fold (\<lambda>p. oset (pHash p) (str_or (pLabel p) (pHash p))) (nPorts nd) m) nds m =
      foldl (\<lambda>m p. oset (pHash p) (str_or (pLabel p) (pHash p)) m) m (concat (map nPorts nds))" for nds m
    by (induction nds arbitrary: m) (simp_all add: foldl_conv_fold)
  then show ?thesis by (simp add: auditPortLabels_def buildPortLabelMap_def)
qed

lemma foldl_table:
  assumes "distinct (map nHash nodes)" "nd \<in> set nodes" "P nd"
  shows "oget (foldl (\<lambda>m nd. if P nd then oset (nHash nd) (f nd) m else m) m nodes) (nHash nd) = Some (f nd)"
proof -
  have skip: "nHash nd \<notin> nHash ` set nds \<Longrightarrow>
      oget (foldl (\<lambda>m nd. if P nd then oset (nHash nd) (f nd) m else m) m nds) (nHash nd) = oget m (nHash nd)" for nds m
    by (induction nds arbitrary: m) (auto simp: obj_simps)
  from assms(2) obtain xs ys where xs: "nodes = xs @ nd # ys" by (meson split_list)
  with assms(1) have "nHash nd \<notin> nHash ` set ys" by simp
  with xs assms(3) show ?thesis by (simp add: skip obj_simps)
qed

lemma dispatch_entry:
  assumes "distinct (map nHash nodes)" "nd \<in> set nodes" "nType nd = ''beacon-dispatch''"
  shows "oget (dispatch_nodes index nodes) (nHash nd) = Some (dispatch_node_of index nd)"
  unfolding dispatch_nodes_def
  using foldl_table [OF assms(1,2), of "\<lambda>nd. nType nd = ''beacon-dispatch''" "dispatch_node_of index"] assms(3) by blast

lemma issue_about_connection:
  assumes "oGraph op = Some g" "cn \<in> set (gConnections g)"
  shows "TargetPortNotInSchema cn k t \<in> set (auditOperation (Some op) index) \<longleftrightarrow>
    TargetPortNotInSchema cn k t \<in> set (audit_connection (dispatch_nodes index (gNodes g)) (nodes_by_hash (gNodes g))
      (auditPortLabels g) cn)"
proof -
  have "TargetPortNotInSchema cn k t \<notin> set (audit_node index nd)" for nd
    by (auto simp: audit_node_def Let_def split: option.split if_splits)
  moreover have only: "TargetPortNotInSchema cn k t \<in> set (audit_connection d n l cn') \<Longrightarrow> cn' = cn" for d n l cn'
    by (auto simp: audit_connection_def Let_def split: option.splits if_splits)
  ultimately show ?thesis using assms by (auto simp: auditOperation_def) (metis only)
qed



subsection \<open>A connection into a dispatch node\<close>

definition audit_demo_node :: node where
  "audit_demo_node = \<lparr>nHash = ''d'', nType = ''beacon-dispatch'', nDefinitionHash = [], nSettings = None,
     nData = Some [(''RemoteCapability'', JStr ''Media''), (''RemoteAction'', JStr ''Resize'')],
     nPorts = [], nCapability = [], nAction = [], nTimeoutMs = 0\<rparr>"

definition audit_demo_connection :: "string \<Rightarrow> connection" where
  "audit_demo_connection ty = \<lparr>cSourceNodeHash = ''s'', cSourcePortHash = ''s-so-Value'',
     cTargetNodeHash = ''d'', cTargetPortHash = ''d-si-Width'', cConnectionType = ty, cTemplate = [], cStateKey = []\<rparr>"

definition audit_demo_graph :: "string \<Rightarrow> graph" where
  "audit_demo_graph ty = \<lparr>gNodes = [audit_demo_node], gConnections = [audit_demo_connection ty]\<rparr>"

definition audit_demo_operation :: "string \<Rightarrow> operation" where
  "audit_demo_operation ty = \<lparr>oHash = ''op'', oName = ''Demo'', oGraph = Some (audit_demo_graph ty),
     oInitialGlobalState = [], oInitialOperationState = []\<rparr>"

definition audit_demo_index :: "string list obj" where
  "audit_demo_index = [(''Media/Resize'', [''Height''])]"

lemma audit_demo_dispatch:
  "dispatch_node_of audit_demo_index audit_demo_node = \<lparr>dnKey = ''Media/Resize'', dnReads = Some [''Height'']\<rparr>"
  by code_simp


end
