(* ===== verification/ObserverPolicy.thy ===== *)
theory ObserverPolicy
  imports Scheduler
begin

section \<open>The policy of the observer\<close>

text \<open>
  \<open>observer/ObserverPolicy.cjs\<close>: functions without state that classify beacons, work items, parked items
  and runs from what the observer has seen. The clock is an argument. A record that may be missing is an
  option. No work item of the hub carries \<open>HeartbeatExpectedMs\<close> or \<open>StalledReason\<close>, so these reads
  fall through to their defaults.
\<close>

subsection \<open>Records\<close>

datatype liveness = Alive | Suspect | Dead

fun liveness_name :: "liveness \<Rightarrow> string" where
  "liveness_name Alive = ''Alive''"
| "liveness_name Suspect = ''Suspect''"
| "liveness_name Dead = ''Dead''"

record observer_policy =
  HeartbeatExpectedMsPolicy :: int
  BeaconSuspectMultiplier :: rat
  BeaconDeadMultiplier :: rat
  WSCloseImmediatelyDead :: bool
  StallHeartbeatMultiplier :: rat
  StalledTimeoutMs :: int
  StrandedAfterMs :: int
  RecentTerminalWorkItemsMax :: nat
  RecentTerminalOperationsMax :: nat
  HistoryEventsMax :: nat
  RecentDurationsPerActionMax :: nat

definition default_policy :: observer_policy where
  "default_policy = \<lparr>HeartbeatExpectedMsPolicy = 60000, BeaconSuspectMultiplier = 3 / 2, BeaconDeadMultiplier = 3,
     WSCloseImmediatelyDead = True, StallHeartbeatMultiplier = 2, StalledTimeoutMs = 300000, StrandedAfterMs = 0,
     RecentTerminalWorkItemsMax = 100, RecentTerminalOperationsMax = 100, HistoryEventsMax = 1000,
     RecentDurationsPerActionMax = 25\<rparr>"

text \<open>The record the observer keeps of a beacon.\<close>

record watched_beacon =
  obBeaconID :: string
  obName :: string
  obCapabilities :: "capability list"
  obMaxConcurrent :: int
  obManualOverrideLiveness :: "liveness option"
  obLiveness :: liveness
  obLivenessReason :: string
  obLivenessTransitionAt :: jstime
  obLastHeartbeatAt :: "jstime option"
  obRegisteredAt :: "jstime option"
  obWSConnected :: bool
  obLastWSCloseAt :: "jstime option"
  obDeregisteredAt :: "jstime option"
  obCurrentWorkItems :: "string list"
  obRecentDurations :: "rat list obj"

text \<open>What the observer keeps of a run.\<close>

record observed_run =
  rsHash :: string
  rsOperationHash :: string
  rsOperationName :: string
  rsStatus :: string
  rsRunMode :: string
  rsStartTime :: "jstime option"
  rsStopTime :: "jstime option"
  rsElapsedMs :: int
  rsErrorCount :: nat
  rsLive :: bool

subsection \<open>Beacons\<close>

definition heartbeat_expected :: "observer_policy \<Rightarrow> int" where
  "heartbeat_expected p = num_or (HeartbeatExpectedMsPolicy p) (HeartbeatExpectedMsPolicy default_policy)"

definition classifyBeacon :: "jstime \<Rightarrow> observer_policy \<Rightarrow> watched_beacon option \<Rightarrow> liveness \<times> string" where
  "classifyBeacon now p ob = (case ob of
     None \<Rightarrow> (Dead, ''beacon_missing'')
   | Some b \<Rightarrow> (case obManualOverrideLiveness b of
       Some l \<Rightarrow> (l, ''manual_override'')
     | None \<Rightarrow>
        (if WSCloseImmediatelyDead p \<and> \<not> obWSConnected b then (Dead, ''ws_closed'')
         else (case opt_or (obLastHeartbeatAt b) (obRegisteredAt b) of
             None \<Rightarrow> (Alive, ''just_registered'')
           | Some t \<Rightarrow>
              (if t = 0 then (Alive, ''just_registered'')
               else let age = of_int (now - t); expected = of_int (heartbeat_expected p) in
                 if expected * num_or (BeaconDeadMultiplier p) (BeaconDeadMultiplier default_policy) < age
                 then (Dead, ''heartbeat_timeout'')
                 else if expected * num_or (BeaconSuspectMultiplier p) (BeaconSuspectMultiplier default_policy) < age
                 then (Suspect, ''heartbeat_late'')
                 else (Alive, ''nominal''))))))"

subsection \<open>Work items\<close>

datatype work_label = LabelHealthy | LabelStalled

definition terminal_work_statuses :: "status list" where
  "terminal_work_statuses = [Completed, Complete, Failed, Errored, TimedOut, Canceled, Stalled]"

definition classifyWorkItem ::
    "jstime \<Rightarrow> work_item option \<Rightarrow> watched_beacon option \<Rightarrow> observer_policy \<Rightarrow> work_label \<times> string" where
  "classifyWorkItem now ow ob p = (case ow of
     None \<Rightarrow> (LabelHealthy, ''noop'')
   | Some w \<Rightarrow>
      (if Status w \<in> set terminal_work_statuses then (LabelHealthy, ''terminal'')
       else if Status w = Stalled then (LabelStalled, ''previously_stalled'')
       else if (case ob of None \<Rightarrow> False | Some b \<Rightarrow> obLiveness b = Dead) \<and> (Status w = Dispatched \<or> Status w = Running)
       then (LabelStalled, ''beacon_dead'')
       else if Status w \<notin> {Dispatched, Running, Pending, Assigned} then (LabelHealthy, ''inactive'')
       else if (Status w = Pending \<or> Status w = Assigned) \<and> DispatchedAt w = None then (LabelHealthy, ''queued'')
       else (case opt_or (LastEventAt w) (DispatchedAt w) of
           None \<Rightarrow> (LabelHealthy, ''no_signal'')
         | Some t \<Rightarrow>
            (if of_int (heartbeat_expected p) * num_or (StallHeartbeatMultiplier p) (StallHeartbeatMultiplier default_policy)
                  < (of_int (now - t) :: rat)
             then (LabelStalled, ''heartbeat_timeout'') else (LabelHealthy, ''nominal'')))))"

subsection \<open>Parked items\<close>

definition advertises :: "capability list \<Rightarrow> string \<Rightarrow> bool" where
  "advertises caps c \<longleftrightarrow> CapName c \<in> set caps \<or> CapObj c \<in> set caps"

definition is_up :: "watched_beacon \<Rightarrow> bool" where
  "is_up b \<longleftrightarrow> obLiveness b = Alive \<or> obLiveness b = Suspect"

definition affinity_target :: "work_item \<Rightarrow> string option" where
  "affinity_target w = opt_or (AssignedBeaconID w) (if AffinityKey w = [] then None else Some (AffinityKey w))"

definition is_target :: "string \<Rightarrow> watched_beacon \<Rightarrow> bool" where
  "is_target t b \<longleftrightarrow> obBeaconID b = t \<or> obName b = t"

definition is_busy :: "watched_beacon \<Rightarrow> bool" where
  "is_busy b \<longleftrightarrow> num_or (obMaxConcurrent b) 1 \<le> int (length (obCurrentWorkItems b))"

text \<open>The reason why an item is parked, if there is one, and the beacons that could take it.\<close>

definition classifyUpcoming :: "work_item option \<Rightarrow> watched_beacon list \<Rightarrow> string option \<times> string list" where
  "classifyUpcoming ow beacons = (case ow of
     None \<Rightarrow> (None, [])
   | Some w \<Rightarrow>
      (if Status w \<in> set terminal_work_statuses then (None, [])
       else
         let eligible = filter (\<lambda>b. advertises (obCapabilities b) (str_or (Capability w) ''Shell'') \<and> is_up b) beacons;
             free = filter (\<lambda>b. \<not> is_busy b) eligible
         in if eligible = [] then (Some ''no_eligible_beacon'', [])
            else if (case affinity_target w of
                None \<Rightarrow> False
              | Some t \<Rightarrow> \<not> list_ex (is_target t) free \<and> \<not> list_ex (\<lambda>b. is_target t b \<and> is_up b) beacons)
            then (Some ''affinity_pinned_to_offline'', map obBeaconID eligible)
            else if free = [] then (Some ''all_eligible_busy'', map obBeaconID eligible)
            else (None, map obBeaconID eligible)))"

subsection \<open>Runs and retries\<close>

text \<open>The items of the run are those of \<open>getWorkItemsForRun\<close>, when there is an observer to ask.\<close>

definition classifyOperation :: "observed_run option \<Rightarrow> (string \<Rightarrow> work_item list) option \<Rightarrow> string \<times> string" where
  "classifyOperation orun items_of = (case orun of
     None \<Rightarrow> (''Unknown'', ''no_run'')
   | Some r \<Rightarrow>
      (let st = str_or (rsStatus r) ''Unknown''
       in if st \<in> {''Stalled'', ''Failed'', ''Complete'', ''Completed'', ''Abandoned'', ''Canceled''} then (st, ''terminal'')
          else (case items_of of
              None \<Rightarrow> (st, ''in_flight'')
            | Some items \<Rightarrow> if list_ex (\<lambda>w. Status w = Stalled) (items (rsHash r)) then (''Stalled'', ''stalled_workitem'')
                else (st, ''in_flight''))))"

definition isRetryEligible :: "work_item option \<Rightarrow> bool" where
  "isRetryEligible ow = (case ow of
     None \<Rightarrow> False
   | Some w \<Rightarrow> (Status w = Stalled \<or> Status w = Failed \<or> Status w = Errored) \<and>
       AttemptNumber w < (case MaxAttempts w of None \<Rightarrow> 1 | Some m \<Rightarrow> num_or m 1))"

subsection \<open>What the classification means\<close>

text \<open>A beacon that is silent only gets worse.\<close>

definition rank :: "liveness \<Rightarrow> nat" where
  "rank l = (case l of Alive \<Rightarrow> 0 | Suspect \<Rightarrow> 1 | Dead \<Rightarrow> 2)"

lemma liveness_degrades:
  assumes "now \<le> later"
  shows "rank (fst (classifyBeacon now default_policy b)) \<le> rank (fst (classifyBeacon later default_policy b))"
  using assms
  by (auto simp: classifyBeacon_def heartbeat_expected_def default_policy_def rank_def num_or_def Let_def
      split: option.splits)

text \<open>The observer and the scheduler use the same rule for silence, with thresholds of their own.\<close>

lemma scheduler_stall_is_observed:
  assumes "stallSilence env w = Some since" "60000 \<le> heartbeatExpected env w"
  shows "fst (classifyWorkItem (Now env) (Some w) b default_policy) = LabelStalled"
proof -
  have "of_int (heartbeatExpected env w) * 2 < (of_int t :: rat) \<Longrightarrow> 120000 < (of_int t :: rat)" for t
  proof -
    assume "of_int (heartbeatExpected env w) * 2 < (of_int t :: rat)"
    then have "heartbeatExpected env w * 2 < t" by (metis of_int_less_iff of_int_mult of_int_numeral)
    with assms(2) have "120000 < t" by simp
    then show ?thesis by (metis of_int_less_iff of_int_numeral)
  qed
  with assms show ?thesis
    by (auto simp: stallSilence_def classifyWorkItem_def lastEvent_def stallThreshold_def default_policy_def
        heartbeat_expected_def num_or_def terminal_work_statuses_def split: option.splits if_splits)
qed

end
