(* ===== verification/Observer.thy ===== *)
theory Observer
  imports ObserverPolicy RunManifest
begin

section \<open>The observer of the hub\<close>

text \<open>
  \<open>Ultravisor-Observer.cjs\<close>: a service beside the scheduler that hears every queue event, socket event and
  run event, classifies beacons and work items by the policy, and announces what changes. The table of work
  items it reads is the coordinator's own (\<open>_hydrateFromCoordinator\<close> takes the reference), so an operation gets
  the coordinator as it is at that moment; before the first hydration the table is empty. The list of the
  current work of a beacon is shared as well: the record holds the list as of the last operation that took it
  over. The throttle map \<open>_LastBeaconLiveness\<close> is written and never read.
\<close>

subsection \<open>Announcements and state\<close>

datatype notice =
    LivenessChanged string string liveness liveness string jstime
  | WorkItemStalled work_item string jstime
  | RunStalled work_item string jstime
  | WorkItemStranded work_item string nat jstime
  | SnapshotTick jstime

fun notice_topic :: "notice \<Rightarrow> string" where
  "notice_topic (LivenessChanged b n from to r t) = ''observer.beacon.liveness_changed''"
| "notice_topic (WorkItemStalled w r t) = ''observer.workitem.stalled''"
| "notice_topic (RunStalled w r t) = ''observer.run.stalled''"
| "notice_topic (WorkItemStranded w r n t) = ''observer.workitem.stranded''"
| "notice_topic (SnapshotTick t) = ''observer.snapshot.tick''"

definition JStrOr :: "string \<Rightarrow> json" where
  "JStrOr x = (if x = [] then JNull else JStr x)"

fun notice_payload :: "notice \<Rightarrow> json obj" where
  "notice_payload (LivenessChanged b n from to r t) =
     [(''BeaconID'', JStr b), (''Name'', JStr n), (''From'', JStr (liveness_name from)), (''To'', JStr (liveness_name to)),
      (''Reason'', JStr r), (''At'', JTime t)]"
| "notice_payload (WorkItemStalled w r t) =
     [(''WorkItemHash'', JStr (WorkItemHash w)), (''RunHash'', JStrOr (RunHash w)), (''NodeHash'', JStrOr (NodeHash w)),
      (''Capability'', JStrOr (Capability w)), (''Action'', JStrOr (Action w)), (''BeaconID'', JOptStr (AssignedBeaconID w)),
      (''Reason'', JStr r), (''At'', JTime t)]"
| "notice_payload (RunStalled w r t) =
     [(''RunHash'', JStr (RunHash w)), (''NodeHash'', JStrOr (NodeHash w)), (''Reason'', JStr r), (''At'', JTime t)]"
| "notice_payload (WorkItemStranded w r n t) =
     [(''WorkItemHash'', JStr (WorkItemHash w)), (''RunHash'', JStrOr (RunHash w)), (''Capability'', JStrOr (Capability w)),
      (''Action'', JStrOr (Action w)), (''Reason'', JStr r), (''EligibleBeaconCount'', JInt (int n)), (''At'', JTime t)]"
| "notice_payload (SnapshotTick t) = [(''GeneratedAt'', JTime t)]"

record terminal_item =
  tiWorkItemHash :: string
  tiRunHash :: string
  tiNodeHash :: string
  tiCapability :: string
  tiAction :: string
  tiBeaconID :: "string option"
  tiBeaconLastLiveness :: "liveness option"
  tiStatus :: status
  tiTerminatedAt :: jstime
  tiTerminalReason :: json
  tiRetryEligible :: bool

record terminal_operation =
  toRunHash :: string
  toOperationName :: string
  toOperationHash :: string
  toStatus :: string
  toTerminatedAt :: jstime
  toTerminalReason :: string

datatype terminal_entry = TerminalWorkItem terminal_item | TerminalOperation terminal_operation

record observer =
  ObsBeacons :: "watched_beacon obj"
  ObsMirrors :: bool
  ObsOperations :: "observed_run obj"
  ObsRecentTerminal :: "terminal_entry list"
  ObsHistory :: "(jstime \<times> notice) list"
  ObsPolicy :: observer_policy
  ObsRunning :: bool
  ObsUpstream :: bool
  ObsHandler :: bool
  ObsLastBeaconLiveness :: "liveness obj"
  ObsLastWorkItemLabel :: "string obj"
  ObsSent :: "(string \<times> json obj) list"

definition initial_observer :: observer where
  "initial_observer = \<lparr>ObsBeacons = [], ObsMirrors = False, ObsOperations = [], ObsRecentTerminal = [], ObsHistory = [],
     ObsPolicy = default_policy, ObsRunning = False, ObsUpstream = False, ObsHandler = False, ObsLastBeaconLiveness = [],
     ObsLastWorkItemLabel = [], ObsSent = []\<rparr>"

text \<open>The table of work items, and the items of a run.\<close>

definition mirror_queue :: "coord option \<Rightarrow> observer \<Rightarrow> work_item obj" where
  "mirror_queue s os = (case s of None \<Rightarrow> [] | Some s \<Rightarrow> if ObsMirrors os then WorkQueue s else [])"

definition getWorkItemsForRun :: "string \<Rightarrow> coord option \<Rightarrow> observer \<Rightarrow> work_item list" where
  "getWorkItemsForRun run s os = (if run = [] then [] else filter (\<lambda>w. RunHash w = run) (ovals (mirror_queue s os)))"

definition setUpstreamBroadcast :: "bool \<Rightarrow> observer \<Rightarrow> observer" where
  "setUpstreamBroadcast on os = os\<lparr>ObsUpstream := on\<rparr>"

definition setObserverBroadcastHandler :: "bool \<Rightarrow> observer \<Rightarrow> observer" where
  "setObserverBroadcastHandler on os = os\<lparr>ObsHandler := on\<rparr>"

subsection \<open>Announcing\<close>

text \<open>Drop the oldest entries beyond the cap.\<close>

definition keep_last :: "nat \<Rightarrow> 'a list \<Rightarrow> 'a list" where
  "keep_last n xs = (if n < length xs then drop (length xs - n) xs else xs)"

definition announceObserver :: "hub_env \<Rightarrow> bool \<Rightarrow> notice \<Rightarrow> observer \<Rightarrow> observer" where
  "announceObserver env keep nt os = os\<lparr>
     ObsHistory := (if keep then keep_last (num_or (HistoryEventsMax (ObsPolicy os)) 1000) (ObsHistory os @ [(Now env, nt)])
       else ObsHistory os),
     ObsSent := ObsSent os @ (if ObsHandler os then [(notice_topic nt, notice_payload nt)] else [])\<rparr>"

subsection \<open>Beacon records\<close>

definition newObserved :: "hub_env \<Rightarrow> string \<Rightarrow> beacon option \<Rightarrow> watched_beacon" where
  "newObserved env b orec = \<lparr>obBeaconID = b,
     obName = str_or (case orec of None \<Rightarrow> [] | Some r \<Rightarrow> Name r) b,
     obCapabilities = (case orec of None \<Rightarrow> [] | Some r \<Rightarrow> Capabilities r),
     obMaxConcurrent = num_or (case orec of None \<Rightarrow> 0 | Some r \<Rightarrow> MaxConcurrent r) 1,
     obManualOverrideLiveness = None, obLiveness = Alive, obLivenessReason = ''just_registered'',
     obLivenessTransitionAt = Now env, obLastHeartbeatAt = map_option LastHeartbeat orec,
     obRegisteredAt = Some (case orec of None \<Rightarrow> Now env | Some r \<Rightarrow> RegisteredAt r),
     obWSConnected = True, obLastWSCloseAt = None, obDeregisteredAt = None,
     obCurrentWorkItems = (case orec of None \<Rightarrow> [] | Some r \<Rightarrow> CurrentWorkItems r), obRecentDurations = []\<rparr>"

definition refreshObserved :: "beacon option \<Rightarrow> watched_beacon \<Rightarrow> watched_beacon" where
  "refreshObserved orec b = (case orec of None \<Rightarrow> b
     | Some r \<Rightarrow> b\<lparr>obName := str_or (Name r) (obName b), obCapabilities := Capabilities r,
         obMaxConcurrent := num_or (MaxConcurrent r) (obMaxConcurrent b), obLastHeartbeatAt := Some (LastHeartbeat r),
         obCurrentWorkItems := CurrentWorkItems r\<rparr>)"

definition put_observed :: "string \<Rightarrow> watched_beacon \<Rightarrow> observer \<Rightarrow> observer" where
  "put_observed b r os = os\<lparr>ObsBeacons := oset b r (ObsBeacons os)\<rparr>"

text \<open>\<open>_beaconUpsert\<close>: the record, written into the table; the caller goes on to write fields of it.\<close>

definition beaconUpsert :: "hub_env \<Rightarrow> string \<Rightarrow> beacon option \<Rightarrow> observer \<Rightarrow> watched_beacon" where
  "beaconUpsert env b orec os = (case oget (ObsBeacons os) b of
     None \<Rightarrow> newObserved env b orec | Some r \<Rightarrow> refreshObserved orec r)"

definition classifyAndAnnounceBeacon :: "hub_env \<Rightarrow> string \<Rightarrow> observer \<Rightarrow> observer" where
  "classifyAndAnnounceBeacon env b os = (case oget (ObsBeacons os) b of
     None \<Rightarrow> os
   | Some r \<Rightarrow> (case classifyBeacon (Now env) (ObsPolicy os) (Some r) of (to, reason) \<Rightarrow>
       let r1 = r\<lparr>obLiveness := to, obLivenessReason := reason\<rparr>;
           os1 = (if obLiveness r \<noteq> to
             then announceObserver env True (LivenessChanged (obBeaconID r) (obName r) (obLiveness r) to reason (Now env))
               (put_observed b (r1\<lparr>obLivenessTransitionAt := Now env\<rparr>) os)
             else put_observed b r1 os)
       in os1\<lparr>ObsLastBeaconLiveness := oset (obBeaconID r) to (ObsLastBeaconLiveness os1)\<rparr>))"

subsection \<open>Work items\<close>

definition observed_of :: "work_item \<Rightarrow> observer \<Rightarrow> watched_beacon option" where
  "observed_of w os = Option.bind (AssignedBeaconID w) (oget (ObsBeacons os))"

definition work_label_name :: "work_label \<Rightarrow> string" where
  "work_label_name l = (case l of LabelHealthy \<Rightarrow> ''Healthy'' | LabelStalled \<Rightarrow> ''Stalled'')"

definition set_label :: "string \<Rightarrow> string \<Rightarrow> observer \<Rightarrow> observer" where
  "set_label k l os = os\<lparr>ObsLastWorkItemLabel := oset k l (ObsLastWorkItemLabel os)\<rparr>"

definition classifyAndAnnounceWorkItem :: "hub_env \<Rightarrow> work_item \<Rightarrow> observer \<Rightarrow> observer" where
  "classifyAndAnnounceWorkItem env w os =
     (if WorkItemHash w = [] then os
      else (case classifyWorkItem (Now env) (Some w) (observed_of w os) (ObsPolicy os) of (label, reason) \<Rightarrow>
        if oget (ObsLastWorkItemLabel os) (WorkItemHash w) = Some (work_label_name label) then os
        else let os1 = set_label (WorkItemHash w) (work_label_name label) os
          in if label \<noteq> LabelStalled then os1
             else let os2 = announceObserver env True (WorkItemStalled w reason (Now env)) os1
               in if RunHash w = [] then os2 else announceObserver env True (RunStalled w reason (Now env)) os2))"

definition maybeAnnounceUpcoming :: "hub_env \<Rightarrow> work_item \<Rightarrow> observer \<Rightarrow> observer" where
  "maybeAnnounceUpcoming env w os =
     (if WorkItemHash w = [] then os
      else (case classifyUpcoming (Some w) (ovals (ObsBeacons os)) of (blocked, eligible) \<Rightarrow>
        let k = ''upcoming:'' @ WorkItemHash w; label = (case blocked of None \<Rightarrow> ''eligible'' | Some r \<Rightarrow> r)
        in if oget (ObsLastWorkItemLabel os) k = Some label then os
           else let os1 = set_label k label os
             in (case blocked of None \<Rightarrow> os1
                 | Some r \<Rightarrow> announceObserver env True (WorkItemStranded w r (length eligible) (Now env)) os1)))"

subsection \<open>Recent terminal items and runs\<close>

definition appendRecentTerminal :: "terminal_entry \<Rightarrow> observer \<Rightarrow> observer" where
  "appendRecentTerminal e os = os\<lparr>ObsRecentTerminal :=
     keep_last (num_or (RecentTerminalWorkItemsMax (ObsPolicy os)) 100 + num_or (RecentTerminalOperationsMax (ObsPolicy os)) 100)
       (ObsRecentTerminal os @ [e])\<rparr>"

definition appendTerminalOperation :: "hub_env \<Rightarrow> run \<Rightarrow> string \<Rightarrow> observer \<Rightarrow> observer" where
  "appendTerminalOperation env c st os = appendRecentTerminal (TerminalOperation
     \<lparr>toRunHash = rHash c, toOperationName = rOperationName c, toOperationHash = rOperationHash c,
      toStatus = str_or st (rStatus c), toTerminatedAt = (case rStopTime c of None \<Rightarrow> Now env | Some t \<Rightarrow> t),
      toTerminalReason = str_or st ''unknown''\<rparr>) os"

definition appendTerminalWorkItem :: "hub_env \<Rightarrow> work_item \<Rightarrow> json \<Rightarrow> observer \<Rightarrow> observer" where
  "appendTerminalWorkItem env w reason os = appendRecentTerminal (TerminalWorkItem
     \<lparr>tiWorkItemHash = WorkItemHash w, tiRunHash = RunHash w, tiNodeHash = NodeHash w, tiCapability = Capability w,
      tiAction = Action w, tiBeaconID = AssignedBeaconID w, tiBeaconLastLiveness = map_option obLiveness (observed_of w os),
      tiStatus = Status w,
      tiTerminatedAt = (case opt_or (CompletedAt w) (StalledAt w) of None \<Rightarrow> Now env | Some t \<Rightarrow> t),
      tiTerminalReason = (if truthy reason then reason
        else JStr (str_or (case LastError w of None \<Rightarrow> [] | Some e \<Rightarrow> e) (str_or (status_name (Status w)) ''unknown''))),
      tiRetryEligible = isRetryEligible (Some w)\<rparr>) os"

definition sampleDuration :: "work_item \<Rightarrow> json \<Rightarrow> observer \<Rightarrow> observer" where
  "sampleDuration w d os = (case AssignedBeaconID w of None \<Rightarrow> os
     | Some b \<Rightarrow> (case oget (ObsBeacons os) b of None \<Rightarrow> os
       | Some r \<Rightarrow>
          let k = str_or (Capability w) ''Shell'' @ ''/'' @ Action w;
              old = (case oget (obRecentDurations r) k of None \<Rightarrow> [] | Some ds \<Rightarrow> ds);
              new = (case d of JNum q \<Rightarrow> if 0 \<le> q then old @ [q] else old | _ \<Rightarrow> old)
          in put_observed b (r\<lparr>obRecentDurations :=
               oset k (keep_last (num_or (RecentDurationsPerActionMax (ObsPolicy os)) 25) new) (obRecentDurations r)\<rparr>) os))"

subsection \<open>Queue events\<close>

definition payload_or :: "json \<Rightarrow> string \<Rightarrow> json" where
  "payload_or v d = (if truthy v then v else JStr d)"

definition ingestQueueTopic :: "hub_env \<Rightarrow> string \<Rightarrow> json obj \<Rightarrow> coord option \<Rightarrow> observer \<Rightarrow> observer" where
  "ingestQueueTopic env topic payload s os =
     (case (case jget payload ''WorkItemHash'' of JStr h \<Rightarrow> if h = [] then None else oget (mirror_queue s os) h | _ \<Rightarrow> None) of
        None \<Rightarrow> os
      | Some w \<Rightarrow>
         (if topic = ''queue.enqueued'' then maybeAnnounceUpcoming env w os
          else if topic = ''queue.dispatched'' \<or> topic = ''queue.health'' then classifyAndAnnounceWorkItem env w os
          else if topic = ''queue.completed'' then classifyAndAnnounceWorkItem env w
            (appendTerminalWorkItem env w (JStr ''completed'') (sampleDuration w (jget payload ''DurationMs'') os))
          else if topic = ''queue.failed'' then classifyAndAnnounceWorkItem env w
            (appendTerminalWorkItem env w (payload_or (jget payload ''Error'') ''failed'') os)
          else if topic = ''queue.canceled'' then
            appendTerminalWorkItem env w (payload_or (jget payload ''Reason'') ''canceled'') os
          else if topic = ''queue.stalled'' then classifyAndAnnounceWorkItem env w
            (appendTerminalWorkItem env w (JStr ''stalled'') os)
          else os))"

text \<open>The handler the scheduler calls for every topic: it goes on to the API server as it is.\<close>

definition handleQueueBroadcast :: "hub_env \<Rightarrow> string \<Rightarrow> json obj \<Rightarrow> coord option \<Rightarrow> observer \<Rightarrow> observer" where
  "handleQueueBroadcast env topic payload s os =
     (let os1 = ingestQueueTopic env topic payload s os
      in if ObsUpstream os1 then os1\<lparr>ObsSent := ObsSent os1 @ [(topic, payload)]\<rparr> else os1)"

subsection \<open>Events of beacons\<close>

definition onBeaconWSOpen :: "hub_env \<Rightarrow> string \<Rightarrow> beacon option \<Rightarrow> observer \<Rightarrow> observer" where
  "onBeaconWSOpen env b orec os =
     (if b = [] then os
      else classifyAndAnnounceBeacon env b (put_observed b ((beaconUpsert env b orec os)\<lparr>obWSConnected := True\<rparr>) os))"

definition onBeaconWSClose :: "hub_env \<Rightarrow> string \<Rightarrow> coord option \<Rightarrow> observer \<Rightarrow> observer" where
  "onBeaconWSClose env b s os = (case (if b = [] then None else oget (ObsBeacons os) b) of
     None \<Rightarrow> os
   | Some r \<Rightarrow>
       fold (\<lambda>w. if AssignedBeaconID w = Some b \<and> (Status w = Dispatched \<or> Status w = Running)
               then classifyAndAnnounceWorkItem env w else id)
         (ovals (mirror_queue s os))
         (classifyAndAnnounceBeacon env b (put_observed b (r\<lparr>obWSConnected := False, obLastWSCloseAt := Some (Now env)\<rparr>) os)))"

definition onBeaconRegistered :: "hub_env \<Rightarrow> beacon option \<Rightarrow> coord option \<Rightarrow> observer \<Rightarrow> observer" where
  "onBeaconRegistered env orec s os = (case orec of
     None \<Rightarrow> os
   | Some r \<Rightarrow>
      (if BeaconID r = [] then os
       else fold (\<lambda>w. if upcoming (Status w) then maybeAnnounceUpcoming env w else id) (ovals (mirror_queue s os))
         (classifyAndAnnounceBeacon env (BeaconID r)
           (put_observed (BeaconID r)
             ((beaconUpsert env (BeaconID r) orec os)\<lparr>obRegisteredAt := Some (RegisteredAt r), obWSConnected := True\<rparr>) os))))"

definition onBeaconHeartbeat :: "hub_env \<Rightarrow> string \<Rightarrow> observer \<Rightarrow> observer" where
  "onBeaconHeartbeat env b os = (case (if b = [] then None else oget (ObsBeacons os) b) of
     None \<Rightarrow> os
   | Some r \<Rightarrow> classifyAndAnnounceBeacon env b (put_observed b (r\<lparr>obLastHeartbeatAt := Some (Now env)\<rparr>) os))"

definition onBeaconDeregistered :: "hub_env \<Rightarrow> string \<Rightarrow> observer \<Rightarrow> observer" where
  "onBeaconDeregistered env b os = (case (if b = [] then None else oget (ObsBeacons os) b) of
     None \<Rightarrow> os
   | Some r \<Rightarrow> classifyAndAnnounceBeacon env b
       (put_observed b (r\<lparr>obWSConnected := False, obDeregisteredAt := Some (Now env)\<rparr>) os))"

subsection \<open>Run events\<close>

text \<open>
  \<open>_cloneRunSummary\<close>. A run as \<open>getRun\<close> gives it has no \<open>ErrorCount\<close>, which is then 0; the summaries
  of \<open>listRuns\<close> have one.
\<close>

definition cloneRunSummary :: "run_summary \<Rightarrow> observed_run" where
  "cloneRunSummary u = \<lparr>rsHash = uHash u, rsOperationHash = uOperationHash u, rsOperationName = uOperationName u,
     rsStatus = uStatus u, rsRunMode = uRunMode u, rsStartTime = uStartTime u, rsStopTime = uStopTime u,
     rsElapsedMs = (case uElapsedMs u of None \<Rightarrow> 0 | Some e \<Rightarrow> e), rsErrorCount = uErrorCount u, rsLive = uLive u\<rparr>"

definition handleExecutionEvent ::
    "hub_env \<Rightarrow> string \<Rightarrow> string \<Rightarrow> json obj \<Rightarrow> run obj option \<Rightarrow> observer \<Rightarrow> observer" where
  "handleExecutionEvent env event h data runs os =
     (if h = [] then os
      else (case Option.bind runs (\<lambda>rs. oget rs h) of
          None \<Rightarrow> os
        | Some c \<Rightarrow>
            let os1 = os\<lparr>ObsOperations := oset h (cloneRunSummary ((summarize_run c)\<lparr>uErrorCount := 0\<rparr>)) (ObsOperations os)\<rparr>;
                st = (case jget data ''Status'' of JStr x \<Rightarrow> str_or x (rStatus c) | _ \<Rightarrow> rStatus c)
            in if event = ''ExecutionComplete'' \<and> st \<in> {''Stalled'', ''Failed'', ''Error''}
               then appendTerminalOperation env c st os1 else os1))"

subsection \<open>Hydration and the tick\<close>

definition ended_run_statuses :: "string list" where
  "ended_run_statuses = [''Complete'', ''Completed'', ''Failed'', ''Error'', ''Stalled'', ''Abandoned'', ''Canceled'']"

definition hydrateBeacon :: "hub_env \<Rightarrow> beacon \<Rightarrow> observer \<Rightarrow> observer" where
  "hydrateBeacon env r os = put_observed (BeaconID r)
     ((beaconUpsert env (BeaconID r) (Some r) os)\<lparr>obLastHeartbeatAt := Some (LastHeartbeat r)\<rparr>) os"

definition markDropped :: "hub_env \<Rightarrow> coord \<Rightarrow> string \<Rightarrow> watched_beacon \<Rightarrow> watched_beacon" where
  "markDropped env s b r = (if oget (Beacons s) b \<noteq> None then r
     else r\<lparr>obWSConnected := False, obDeregisteredAt := opt_or (obDeregisteredAt r) (Some (Now env))\<rparr>)"

definition openRuns :: "run obj \<Rightarrow> observed_run obj" where
  "openRuns runs = fold (\<lambda>u m. if uHash u = [] \<or> uStatus u \<in> set ended_run_statuses then m
     else oset (uHash u) (cloneRunSummary u) m) (listRuns runs) []"

text \<open>
  The socket state of a record is kept by the hydration of its beacon: the coordinator's records do not
  have one.
\<close>

definition hydrateFromCoordinator :: "hub_env \<Rightarrow> coord option \<Rightarrow> run obj option \<Rightarrow> observer \<Rightarrow> observer" where
  "hydrateFromCoordinator env s runs os = (case s of
     None \<Rightarrow> os
   | Some s \<Rightarrow>
      (let os1 = fold (hydrateBeacon env) (ovals (Beacons s)) os;
           os2 = os1\<lparr>ObsBeacons := map (\<lambda>(b, r). (b, markDropped env s b r)) (ObsBeacons os1), ObsMirrors := True\<rparr>
       in (case runs of None \<Rightarrow> os2 | Some rs \<Rightarrow> os2\<lparr>ObsOperations := openRuns rs\<rparr>)))"

definition tickItem :: "hub_env \<Rightarrow> work_item \<Rightarrow> observer \<Rightarrow> observer" where
  "tickItem env w = (if upcoming (Status w) then maybeAnnounceUpcoming env w else classifyAndAnnounceWorkItem env w)"

definition observerTick :: "hub_env \<Rightarrow> coord option \<Rightarrow> run obj option \<Rightarrow> observer \<Rightarrow> observer" where
  "observerTick env s runs os =
     (let os1 = hydrateFromCoordinator env s runs os;
          os2 = fold (classifyAndAnnounceBeacon env) (okeys (ObsBeacons os1)) os1;
          os3 = fold (tickItem env) (ovals (mirror_queue s os2)) os2
      in announceObserver env False (SnapshotTick (Now env)) os3)"

definition observerStart :: "hub_env \<Rightarrow> coord option \<Rightarrow> run obj option \<Rightarrow> observer \<Rightarrow> observer" where
  "observerStart env s runs os =
     (if ObsRunning os then os else hydrateFromCoordinator env s runs (os\<lparr>ObsRunning := True\<rparr>))"

definition observerStop :: "observer \<Rightarrow> observer" where
  "observerStop os = os\<lparr>ObsRunning := False\<rparr>"

subsection \<open>Readings\<close>

definition getHistorySince :: "jstime option \<Rightarrow> observer \<Rightarrow> (jstime \<times> notice) list" where
  "getHistorySince since os = (case since of
     None \<Rightarrow> ObsHistory os | Some t \<Rightarrow> filter (\<lambda>e. t < fst e) (ObsHistory os))"

text \<open>\<open>indexOf(pCapability + '/') === 0\<close> is a prefix test.\<close>

definition capability_samples :: "string \<Rightarrow> observer \<Rightarrow> rat list" where
  "capability_samples c os = filter (\<lambda>q. 0 \<le> q) (concat (map (\<lambda>r. concat (map snd
     (filter (\<lambda>kd. take (Suc (length c)) (fst kd) = c @ ''/'') (obRecentDurations r)))) (ovals (ObsBeacons os))))"

record duration_stats =
  dsSamples :: nat
  dsMedianMs :: rat
  dsP95Ms :: rat

definition getCapabilityDurationStats :: "string \<Rightarrow> observer \<Rightarrow> duration_stats" where
  "getCapabilityDurationStats c os =
     (let xs = sort (capability_samples c os); n = length xs
      in if c = [] \<or> xs = [] then \<lparr>dsSamples = 0, dsMedianMs = 0, dsP95Ms = 0\<rparr>
         else \<lparr>dsSamples = n, dsMedianMs = xs ! (n div 2), dsP95Ms = xs ! min (n - 1) (n * 95 div 100)\<rparr>)"

end
