(* ===== verification/ObserverProperties.thy ===== *)
theory ObserverProperties
  imports Observer SchedulerProperties
begin

section \<open>Properties of the observer\<close>

text \<open>
  The operations of the observer as one step function, its runs, the invariant of the announcements it has
  kept, and what its labels say about the scheduler.
\<close>

subsection \<open>Runs of the observer\<close>

datatype obs_op =
    QueueTopic string "json obj"
  | SocketOpen string "beacon option"
  | SocketClose string
  | BeaconRegistered "beacon option"
  | BeaconHeartbeat string
  | BeaconDeregistered string
  | RunEvent string string "json obj"
  | ObsStart
  | ObsStop
  | ObsTick
  | ObsHydrate
  | ObsSetUpstream bool
  | ObsSetHandler bool

text \<open>The world at an operation: the environment, the coordinator and the runs, each if it is there.\<close>

type_synonym obs_world = "hub_env \<times> coord option \<times> run obj option"

fun obs_apply :: "obs_world \<Rightarrow> obs_op \<Rightarrow> observer \<Rightarrow> observer" where
  "obs_apply (env, s, rs) (QueueTopic t p) os = handleQueueBroadcast env t p s os"
| "obs_apply (env, s, rs) (SocketOpen b r) os = onBeaconWSOpen env b r os"
| "obs_apply (env, s, rs) (SocketClose b) os = onBeaconWSClose env b s os"
| "obs_apply (env, s, rs) (BeaconRegistered r) os = onBeaconRegistered env r s os"
| "obs_apply (env, s, rs) (BeaconHeartbeat b) os = onBeaconHeartbeat env b os"
| "obs_apply (env, s, rs) (BeaconDeregistered b) os = onBeaconDeregistered env b os"
| "obs_apply (env, s, rs) (RunEvent e h d) os = handleExecutionEvent env e h d rs os"
| "obs_apply (env, s, rs) ObsStart os = observerStart env s rs os"
| "obs_apply (env, s, rs) ObsStop os = observerStop os"
| "obs_apply (env, s, rs) ObsTick os = observerTick env s rs os"
| "obs_apply (env, s, rs) ObsHydrate os = hydrateFromCoordinator env s rs os"
| "obs_apply (env, s, rs) (ObsSetUpstream on) os = setUpstreamBroadcast on os"
| "obs_apply (env, s, rs) (ObsSetHandler on) os = setObserverBroadcastHandler on os"

definition obs_run :: "(obs_world \<times> obs_op) list \<Rightarrow> observer \<Rightarrow> observer" where
  "obs_run evs os = fold (\<lambda>(world, act). obs_apply world act) evs os"

lemma obs_run_simps [simp]:
  "obs_run [] os = os" "obs_run (e # evs) os = obs_run evs (obs_apply (fst e) (snd e) os)"
  "obs_run (evs @ evs') os = obs_run evs' (obs_run evs os)"
  by (simp_all add: obs_run_def case_prod_beta)

subsection \<open>The liveness feed\<close>

text \<open>The changes of a beacon in the history, and when they form a chain that ends in its present state.\<close>

fun change_of :: "string \<Rightarrow> notice \<Rightarrow> (liveness \<times> liveness) list" where
  "change_of b (LivenessChanged b' n from to r t) = (if b' = b then [(from, to)] else [])"
| "change_of b nt = []"

definition changes :: "string \<Rightarrow> (jstime \<times> notice) list \<Rightarrow> (liveness \<times> liveness) list" where
  "changes b h = concat (map (change_of b \<circ> snd) h)"

fun liveness_chain :: "(liveness \<times> liveness) list \<Rightarrow> liveness \<Rightarrow> bool" where
  "liveness_chain [] l = True"
| "liveness_chain ((from, to) # cs) l =
     (from \<noteq> to \<and> to = (case cs of [] \<Rightarrow> l | c # _ \<Rightarrow> fst c) \<and> liveness_chain cs l)"

lemma changes_simps [simp]: "changes b [] = []" "changes b (h @ h') = changes b h @ changes b h'"
  "changes b [(t, nt)] = change_of b nt"
  by (simp_all add: changes_def)

lemma chain_append: "liveness_chain cs l \<Longrightarrow> l \<noteq> l' \<Longrightarrow> liveness_chain (cs @ [(l, l')]) l'"
  by (induction cs) (auto split: list.splits)

lemma chain_suffix: "liveness_chain (cs @ cs') l \<Longrightarrow> liveness_chain cs' l"
  by (induction cs) auto

lemma keep_last_suffix: "\<exists>pre. xs = pre @ keep_last n xs"
  by (rule exI [of _ "if n < length xs then take (length xs - n) xs else []"]) (simp add: keep_last_def)

lemma keep_last_length: "length (keep_last n xs) \<le> n"
  by (simp add: keep_last_def)

lemma changes_keep_last:
  "liveness_chain (changes b h) l \<Longrightarrow> liveness_chain (changes b (keep_last n h)) l"
  "changes b h = [] \<Longrightarrow> changes b (keep_last n h) = []"
  by (metis keep_last_suffix changes_simps(2) chain_suffix)
    (metis keep_last_suffix changes_simps(2) append_is_Nil_conv)

subsection \<open>The invariant\<close>

definition durations_ok :: "rat list obj \<Rightarrow> bool" where
  "durations_ok m \<longleftrightarrow> (\<forall>ds \<in> set (ovals m). length ds \<le> 25)"

definition record_ok :: "(jstime \<times> notice) list \<Rightarrow> string \<Rightarrow> watched_beacon \<Rightarrow> bool" where
  "record_ok h b r \<longleftrightarrow> obBeaconID r = b \<and> obManualOverrideLiveness r = None \<and>
     liveness_chain (changes b h) (obLiveness r) \<and> durations_ok (obRecentDurations r)"

definition feed_ok :: "observer \<Rightarrow> bool" where
  "feed_ok os \<longleftrightarrow> ObsPolicy os = default_policy \<and> owf (ObsBeacons os) \<and>
     (\<forall>b r. oget (ObsBeacons os) b = Some r \<longrightarrow> record_ok (ObsHistory os) b r) \<and>
     (\<forall>b. oget (ObsBeacons os) b = None \<longrightarrow> changes b (ObsHistory os) = []) \<and>
     length (ObsHistory os) \<le> 1000 \<and> length (ObsRecentTerminal os) \<le> 200"

named_theorems feed_intros \<open>operations that keep the feed in order\<close>

lemma feed_ok_initial: "feed_ok initial_observer"
  by (simp add: feed_ok_def initial_observer_def)

lemma feed_okD:
  assumes "feed_ok os"
  shows "ObsPolicy os = default_policy" "owf (ObsBeacons os)"
    "oget (ObsBeacons os) b = Some r \<Longrightarrow> record_ok (ObsHistory os) b r"
    "oget (ObsBeacons os) b = None \<Longrightarrow> changes b (ObsHistory os) = []"
    "length (ObsHistory os) \<le> 1000" "length (ObsRecentTerminal os) \<le> 200"
  using assms by (simp_all add: feed_ok_def)

text \<open>Nothing but these four fields matters.\<close>

lemma feed_ok_cong:
  assumes "feed_ok os" "ObsBeacons os' = ObsBeacons os" "ObsHistory os' = ObsHistory os" "ObsPolicy os' = ObsPolicy os"
    "length (ObsRecentTerminal os') \<le> 200"
  shows "feed_ok os'"
  using assms by (simp add: feed_ok_def)

lemma feed_ok_put:
  assumes "feed_ok os" "record_ok (ObsHistory os) b r"
  shows "feed_ok (put_observed b r os)"
  using assms by (auto simp: feed_ok_def put_observed_def obj_simps jo.wf_set split: if_splits)

text \<open>A record whose liveness and identity are kept stays in order.\<close>

lemma feed_ok_touch [feed_intros]:
  assumes "feed_ok os" "obBeaconID r = b" "obManualOverrideLiveness r = None"
    "\<And>r0. oget (ObsBeacons os) b = Some r0 \<Longrightarrow> obLiveness r = obLiveness r0"
    "durations_ok (obRecentDurations r)"
  shows "feed_ok (put_observed b r os)"
proof (rule feed_ok_put [OF assms(1)])
  show "record_ok (ObsHistory os) b r"
  proof (cases "oget (ObsBeacons os) b")
    case None
    with feed_okD(4) [OF assms(1)] assms show ?thesis by (simp add: record_ok_def)
  next
    case (Some r0)
    with feed_okD(3) [OF assms(1) Some] assms show ?thesis by (simp add: record_ok_def)
  qed
qed

lemma feed_ok_announce:
  assumes "feed_ok os" "\<And>b. change_of b nt = []"
  shows "feed_ok (announceObserver env k nt os)"
proof -
  have grow: "liveness_chain (changes b (ObsHistory os @ [(t, nt)])) l = liveness_chain (changes b (ObsHistory os)) l"
    and same: "changes b (ObsHistory os @ [(t, nt)]) = changes b (ObsHistory os)" for b l t
    using assms(2) by simp_all
  have "liveness_chain (changes b (keep_last n (ObsHistory os @ [(t, nt)]))) l"
    if "liveness_chain (changes b (ObsHistory os)) l" for b l t n
    using that by (intro changes_keep_last(1)) (simp add: assms(2))
  moreover have "changes b (keep_last n (ObsHistory os @ [(t, nt)])) = []" if "changes b (ObsHistory os) = []" for b t n
    using that by (intro changes_keep_last(2)) (simp add: assms(2))
  ultimately show ?thesis
    using assms(1) keep_last_length [of 1000]
    by (auto simp: feed_ok_def announceObserver_def record_ok_def default_policy_def num_or_def)
qed

lemma feed_ok_notices [feed_intros]:
  "feed_ok os \<Longrightarrow> feed_ok (announceObserver env k (WorkItemStalled w r t) os)"
  "feed_ok os \<Longrightarrow> feed_ok (announceObserver env k (RunStalled w r t) os)"
  "feed_ok os \<Longrightarrow> feed_ok (announceObserver env k (WorkItemStranded w r n t) os)"
  "feed_ok os \<Longrightarrow> feed_ok (announceObserver env k (SnapshotTick t) os)"
  by (simp_all add: feed_ok_announce)


lemma feed_ok_beacon [feed_intros]:
  assumes "feed_ok os"
  shows "feed_ok (classifyAndAnnounceBeacon env b os)"
proof (cases "oget (ObsBeacons os) b")
  case None
  with assms show ?thesis by (simp add: classifyAndAnnounceBeacon_def)
next
  case (Some r)
  obtain to reason where cl: "classifyBeacon (Now env) (ObsPolicy os) (Some r) = (to, reason)" by fastforce
  note ok = feed_okD(3) [OF assms Some]
  let ?r1 = "r\<lparr>obLiveness := to, obLivenessReason := reason\<rparr>"
  show ?thesis
  proof (cases "obLiveness r = to")
    case True
    with ok have "feed_ok (put_observed b ?r1 os)"
      by (intro feed_ok_put [OF assms]) (simp add: record_ok_def)
    with True show ?thesis
      by (simp add: classifyAndAnnounceBeacon_def Some cl Let_def feed_ok_def)
  next
    case False
    let ?r2 = "?r1\<lparr>obLivenessTransitionAt := Now env\<rparr>"
    let ?h = "ObsHistory os @ [(Now env, LivenessChanged (obBeaconID r) (obName r) (obLiveness r) to reason (Now env))]"
    have id: "obBeaconID r = b" using ok by (simp add: record_ok_def)
    have "liveness_chain (changes b ?h) to"
      using ok False id by (simp add: record_ok_def chain_append)
    then have "record_ok (keep_last 1000 ?h) b ?r2"
      using ok changes_keep_last(1) by (simp add: record_ok_def)
    moreover have "record_ok (keep_last 1000 ?h) b' r'" if "oget (ObsBeacons os) b' = Some r'" "b' \<noteq> b" for b' r'
      using feed_okD(3) [OF assms that(1)] that(2) id changes_keep_last(1) [of b' ?h] by (simp add: record_ok_def)
    moreover have "changes b' (keep_last 1000 ?h) = []" if "oget (ObsBeacons os) b' = None" for b'
    proof (rule changes_keep_last(2))
      have "b' \<noteq> b" using that Some by auto
      with feed_okD(4) [OF assms that] id show "changes b' ?h = []" by simp
    qed
    ultimately have "feed_ok (announceObserver env True (LivenessChanged (obBeaconID r) (obName r) (obLiveness r) to reason (Now env))
        (put_observed b ?r2 os))"
      using assms by (auto simp: feed_ok_def announceObserver_def put_observed_def obj_simps jo.wf_set default_policy_def num_or_def
          keep_last_length split: if_splits)
    with False show ?thesis
      by (simp add: classifyAndAnnounceBeacon_def Some cl Let_def feed_ok_def)
  qed
qed

lemma feed_ok_label [feed_intros]: "feed_ok os \<Longrightarrow> feed_ok (set_label k l os)"
  by (simp add: feed_ok_def set_label_def)

lemma feed_ok_item [feed_intros]: "feed_ok os \<Longrightarrow> feed_ok (classifyAndAnnounceWorkItem env w os)"
  by (simp add: classifyAndAnnounceWorkItem_def feed_intros Let_def split: prod.split)

lemma feed_ok_upcoming [feed_intros]: "feed_ok os \<Longrightarrow> feed_ok (maybeAnnounceUpcoming env w os)"
  by (simp add: maybeAnnounceUpcoming_def feed_intros Let_def split: prod.split option.split)

lemma feed_ok_terminal [feed_intros]: "feed_ok os \<Longrightarrow> feed_ok (appendRecentTerminal e os)"
  using keep_last_length [of 200] by (simp add: feed_ok_def appendRecentTerminal_def default_policy_def num_or_def)

lemma feed_ok_terminals [feed_intros]:
  "feed_ok os \<Longrightarrow> feed_ok (appendTerminalWorkItem env w reason os)"
  "feed_ok os \<Longrightarrow> feed_ok (appendTerminalOperation env c st os)"
  by (simp_all add: appendTerminalWorkItem_def appendTerminalOperation_def feed_intros)

lemma feed_ok_sample [feed_intros]:
  assumes "feed_ok os"
  shows "feed_ok (sampleDuration w d os)"
proof -
  have "feed_ok (put_observed b (r\<lparr>obRecentDurations := oset k (keep_last 25 xs) (obRecentDurations r)\<rparr>) os)"
    if "oget (ObsBeacons os) b = Some r" for b r k xs
  proof (rule feed_ok_put [OF assms])
    have "set (ovals (oset k v m)) \<subseteq> insert v (set (ovals m))" for v :: "rat list" and m
      by (induction m) auto
    then show "record_ok (ObsHistory os) b (r\<lparr>obRecentDurations := oset k (keep_last 25 xs) (obRecentDurations r)\<rparr>)"
      using feed_okD(3) [OF assms that] keep_last_length [of 25 xs] by (fastforce simp: record_ok_def durations_ok_def)
  qed
  with feed_okD(1) [OF assms] assms show ?thesis
    by (simp add: sampleDuration_def Let_def default_policy_def num_or_def split: option.split)
qed

lemma feed_ok_fold:
  assumes "\<And>x os. feed_ok os \<Longrightarrow> feed_ok (f x os)" "feed_ok os"
  shows "feed_ok (fold f xs os)"
  using assms(2) by (induction xs arbitrary: os) (simp_all add: assms(1))

lemma feed_ok_ingest [feed_intros]: "feed_ok os \<Longrightarrow> feed_ok (ingestQueueTopic env t p s os)"
  by (simp add: ingestQueueTopic_def feed_intros split: option.split json.split)


lemma feed_ok_queue [feed_intros]: "feed_ok os \<Longrightarrow> feed_ok (handleQueueBroadcast env t p s os)"
  using feed_ok_ingest [of os env t p s] by (simp add: handleQueueBroadcast_def Let_def feed_ok_def)

lemma upsert_ok:
  assumes "feed_ok os"
  shows "obBeaconID (beaconUpsert env b orec os) = b" "obManualOverrideLiveness (beaconUpsert env b orec os) = None"
    "oget (ObsBeacons os) b = Some r \<Longrightarrow> obLiveness (beaconUpsert env b orec os) = obLiveness r"
    "durations_ok (obRecentDurations (beaconUpsert env b orec os))"
  using feed_okD(3) [OF assms, of b]
  by (auto simp: beaconUpsert_def newObserved_def refreshObserved_def record_ok_def durations_ok_def [of "[]"]
      split: option.splits)

lemma feed_ok_upsert [feed_intros]:
  assumes "feed_ok os"
  shows "feed_ok (put_observed b ((beaconUpsert env b orec os)\<lparr>obWSConnected := c\<rparr>) os)"
    "feed_ok (put_observed b ((beaconUpsert env b orec os)\<lparr>obRegisteredAt := t, obWSConnected := c\<rparr>) os)"
    "feed_ok (put_observed b ((beaconUpsert env b orec os)\<lparr>obLastHeartbeatAt := t\<rparr>) os)"
  using upsert_ok [OF assms] by (auto intro!: feed_ok_touch [OF assms])

lemma feed_ok_write [feed_intros]:
  assumes "feed_ok os" "oget (ObsBeacons os) b = Some r"
  shows "feed_ok (put_observed b (r\<lparr>obWSConnected := c, obLastWSCloseAt := t\<rparr>) os)"
    "feed_ok (put_observed b (r\<lparr>obLastHeartbeatAt := t\<rparr>) os)"
    "feed_ok (put_observed b (r\<lparr>obWSConnected := c, obDeregisteredAt := t\<rparr>) os)"
  using feed_okD(3) [OF assms] assms(2) by (auto simp: record_ok_def intro!: feed_ok_touch [OF assms(1)])

lemma feed_ok_hydrate [feed_intros]:
  assumes "feed_ok os"
  shows "feed_ok (hydrateFromCoordinator env s rs os)"
proof -
  have dropped: "record_ok h b (markDropped env s' b r) = record_ok h b r" for h b s' r
    by (simp add: markDropped_def record_ok_def)
  have marked: "oget (map (\<lambda>(b, r). (b, f b r)) m) b = map_option (f b) (oget m b)"
    for f :: "string \<Rightarrow> watched_beacon \<Rightarrow> watched_beacon" and m b
    by (induction m) auto
  have "feed_ok os \<Longrightarrow> feed_ok (os\<lparr>ObsBeacons := map (\<lambda>(b, r). (b, markDropped env s' b r)) (ObsBeacons os), ObsMirrors := True\<rparr>)"
    for os s'
    by (auto simp: feed_ok_def marked dropped case_prod_beta comp_def)
  moreover have "feed_ok os \<Longrightarrow> feed_ok (os\<lparr>ObsOperations := x\<rparr>)" for os x
    by (simp add: feed_ok_def)
  moreover have "feed_ok (fold (hydrateBeacon env) bs os)" for bs
    by (rule feed_ok_fold) (simp_all add: hydrateBeacon_def feed_intros assms)
  ultimately show ?thesis
    using assms by (simp add: hydrateFromCoordinator_def Let_def split: option.split)
qed

lemma feed_ok_apply: "feed_ok os \<Longrightarrow> feed_ok (obs_apply w act os)"
proof -
  assume ok: "feed_ok os"
  obtain env s rs where w: "w = (env, s, rs)" by (cases w)
  have items: "feed_ok os \<Longrightarrow> feed_ok (fold (\<lambda>w. if P w then classifyAndAnnounceWorkItem env w else id) ws os)"
      "feed_ok os \<Longrightarrow> feed_ok (fold (\<lambda>w. if P w then maybeAnnounceUpcoming env w else id) ws os)"
      "feed_ok os \<Longrightarrow> feed_ok (fold (tickItem env) ws os)"
      "feed_ok os \<Longrightarrow> feed_ok (fold (classifyAndAnnounceBeacon env) bs os)" for P ws bs os
    by (rule feed_ok_fold, simp_all add: feed_intros tickItem_def)+
  have events: "feed_ok (handleExecutionEvent env e h d rs os)" for e h d
    using ok by (simp add: handleExecutionEvent_def Let_def appendTerminalOperation_def feed_ok_terminal feed_ok_def
        split: option.split) (simp add: appendRecentTerminal_def default_policy_def num_or_def keep_last_length)
  show ?thesis
    using ok events unfolding w
    by (cases act) (simp_all add: feed_intros items onBeaconWSOpen_def onBeaconWSClose_def onBeaconRegistered_def
        onBeaconHeartbeat_def onBeaconDeregistered_def observerStart_def observerStop_def observerTick_def Let_def
        setUpstreamBroadcast_def setObserverBroadcastHandler_def feed_ok_def [of "_\<lparr>ObsRunning := _\<rparr>"]
        feed_ok_def [of "_\<lparr>ObsUpstream := _\<rparr>"] feed_ok_def [of "_\<lparr>ObsHandler := _\<rparr>"] feed_okD split: option.split)
qed

lemma feed_ok_run: "feed_ok os \<Longrightarrow> feed_ok (obs_run evs os)"
  by (induction evs arbitrary: os) (simp_all add: feed_ok_apply)


subsection \<open>A closed socket\<close>

text \<open>The operations that bring a beacon back.\<close>

fun revives :: "string \<Rightarrow> obs_op \<Rightarrow> bool" where
  "revives b (SocketOpen b' r) \<longleftrightarrow> b' = b"
| "revives b (BeaconRegistered r) \<longleftrightarrow> (case r of None \<Rightarrow> False | Some r \<Rightarrow> BeaconID r = b)"
| "revives b act \<longleftrightarrow> False"

definition beacon_closed :: "string \<Rightarrow> observer \<Rightarrow> bool" where
  "beacon_closed b os \<longleftrightarrow> WSCloseImmediatelyDead (ObsPolicy os) \<and> (\<exists>r. oget (ObsBeacons os) b = Some r \<and>
     \<not> obWSConnected r \<and> obLiveness r = Dead \<and> obManualOverrideLiveness r = None)"

named_theorems closed_intros \<open>operations that leave a closed beacon closed\<close>

lemma closed_cong: "ObsBeacons os' = ObsBeacons os \<Longrightarrow> ObsPolicy os' = ObsPolicy os \<Longrightarrow> beacon_closed b os' = beacon_closed b os"
  by (simp add: beacon_closed_def)

lemma work_frames [frame_simps]:
  "ObsBeacons (announceObserver env k nt os) = ObsBeacons os" "ObsPolicy (announceObserver env k nt os) = ObsPolicy os"
  "ObsBeacons (set_label h l os) = ObsBeacons os" "ObsPolicy (set_label h l os) = ObsPolicy os"
  "ObsBeacons (appendRecentTerminal e os) = ObsBeacons os" "ObsPolicy (appendRecentTerminal e os) = ObsPolicy os"
  "ObsHistory (set_label h l os) = ObsHistory os" "ObsHistory (appendRecentTerminal e os) = ObsHistory os"
  by (simp_all add: announceObserver_def set_label_def appendRecentTerminal_def)

lemma item_frames [frame_simps]:
  "ObsBeacons (classifyAndAnnounceWorkItem env w os) = ObsBeacons os" "ObsPolicy (classifyAndAnnounceWorkItem env w os) = ObsPolicy os"
  "ObsBeacons (maybeAnnounceUpcoming env w os) = ObsBeacons os" "ObsPolicy (maybeAnnounceUpcoming env w os) = ObsPolicy os"
  by (simp_all add: classifyAndAnnounceWorkItem_def maybeAnnounceUpcoming_def Let_def frame_simps split: prod.split option.split)

lemma closed_work [closed_intros]:
  "beacon_closed b (announceObserver env k nt os) = beacon_closed b os"
  "beacon_closed b (appendTerminalWorkItem env w reason os) = beacon_closed b os"
  "beacon_closed b (appendTerminalOperation env c st os) = beacon_closed b os"
  "beacon_closed b (classifyAndAnnounceWorkItem env w os) = beacon_closed b os"
  "beacon_closed b (maybeAnnounceUpcoming env w os) = beacon_closed b os"
  by (rule closed_cong; simp add: frame_simps appendTerminalWorkItem_def appendTerminalOperation_def)+

lemma closed_put_other [closed_intros]: "b' \<noteq> b \<Longrightarrow> beacon_closed b (put_observed b' r os) = beacon_closed b os"
  by (simp add: beacon_closed_def put_observed_def obj_simps)

lemma closed_put [closed_intros]:
  assumes "beacon_closed b os" "\<And>r0. oget (ObsBeacons os) b' = Some r0 \<Longrightarrow> obWSConnected r0 = obWSConnected r \<and>
    obLiveness r0 = obLiveness r \<and> obManualOverrideLiveness r0 = obManualOverrideLiveness r"
  shows "beacon_closed b (put_observed b' r os)"
  using assms by (auto simp: beacon_closed_def put_observed_def obj_simps)

lemma closed_beacon [closed_intros]:
  assumes "beacon_closed b os"
  shows "beacon_closed b (classifyAndAnnounceBeacon env b' os)"
proof (cases "oget (ObsBeacons os) b'")
  case None
  with assms show ?thesis by (simp add: classifyAndAnnounceBeacon_def)
next
  case (Some r)
  obtain to reason where cl: "classifyBeacon (Now env) (ObsPolicy os) (Some r) = (to, reason)" by fastforce
  have flag: "beacon_closed b (os'\<lparr>ObsLastBeaconLiveness := x\<rparr>) = beacon_closed b os'" for os' x
    by (simp add: beacon_closed_def)
  have stays: "to = Dead \<and> \<not> obWSConnected r \<and> obManualOverrideLiveness r = None" if "b' = b"
    using assms Some cl that by (auto simp: beacon_closed_def classifyBeacon_def)
  have put: "beacon_closed b (put_observed b' r' os)" if "obLiveness r' = to" "obWSConnected r' = obWSConnected r"
    "obManualOverrideLiveness r' = obManualOverrideLiveness r" for r'
  proof (cases "b' = b")
    case True
    with stays that assms show ?thesis by (auto simp: beacon_closed_def put_observed_def obj_simps)
  next
    case False
    with assms show ?thesis by (simp add: closed_put_other)
  qed
  show ?thesis by (simp add: classifyAndAnnounceBeacon_def Some cl Let_def flag closed_work put)
qed

lemma closed_fold: "(\<And>x os. beacon_closed b os \<Longrightarrow> beacon_closed b (f x os)) \<Longrightarrow> beacon_closed b os \<Longrightarrow> beacon_closed b (fold f xs os)"
  by (induction xs arbitrary: os) simp_all

lemma closed_fold_items [closed_intros]:
  "beacon_closed b (fold (\<lambda>w. if P w then classifyAndAnnounceWorkItem env w else id) ws os) = beacon_closed b os"
  "beacon_closed b (fold (\<lambda>w. if P w then maybeAnnounceUpcoming env w else id) ws os) = beacon_closed b os"
  "beacon_closed b (fold (tickItem env) ws os) = beacon_closed b os"
  by (induction ws arbitrary: os) (simp_all add: closed_intros tickItem_def)

lemma closed_hydrate:
  assumes "beacon_closed b os"
  shows "beacon_closed b (hydrateFromCoordinator env s rs os)"
proof -
  have one: "beacon_closed b os \<Longrightarrow> beacon_closed b (hydrateBeacon env r os)" for r os
    unfolding hydrateBeacon_def by (rule closed_put) (auto simp: beaconUpsert_def refreshObserved_def)
  have marked: "oget (map (\<lambda>(b, r). (b, f b r)) m) b = map_option (f b) (oget m b)"
    for f :: "string \<Rightarrow> watched_beacon \<Rightarrow> watched_beacon" and m
    by (induction m) auto
  have mark: "beacon_closed b os \<Longrightarrow> beacon_closed b (os\<lparr>ObsBeacons := map (\<lambda>(b, r). (b, markDropped env s' b r)) (ObsBeacons os), ObsMirrors := True\<rparr>)"
    for os s'
    by (cases "oget (Beacons s') b") (auto simp: beacon_closed_def marked markDropped_def)
  have "beacon_closed b (os\<lparr>ObsOperations := x\<rparr>) = beacon_closed b os" for os x
    by (simp add: beacon_closed_def)
  moreover have "beacon_closed b (fold (hydrateBeacon env) bs os)" for bs
    using assms by (induction bs arbitrary: os) (simp_all add: one)
  ultimately show ?thesis
    using assms mark by (simp add: hydrateFromCoordinator_def Let_def split: option.split)
qed

lemma closed_apply:
  assumes "beacon_closed b os" "\<not> revives b act"
  shows "beacon_closed b (obs_apply w act os)"
proof -
  obtain env s rs where w: "w = (env, s, rs)" by (cases w)
  have sample: "beacon_closed b (sampleDuration v d os)" for v d
    using assms(1) by (auto simp: sampleDuration_def Let_def intro!: closed_put split: option.split)
  have queue: "beacon_closed b (handleQueueBroadcast env t p s os)" for t p
  proof -
    have "beacon_closed b (ingestQueueTopic env t p s os)"
      using assms(1) sample by (simp add: ingestQueueTopic_def closed_intros split: option.split json.split)
    then show ?thesis by (simp add: handleQueueBroadcast_def Let_def beacon_closed_def)
  qed
  have wrote: "beacon_closed b (put_observed b' (r\<lparr>obWSConnected := False, obLastWSCloseAt := t\<rparr>) os)"
      "beacon_closed b (put_observed b' (r\<lparr>obLastHeartbeatAt := t\<rparr>) os)"
      "beacon_closed b (put_observed b' (r\<lparr>obWSConnected := False, obDeregisteredAt := t\<rparr>) os)"
    if "oget (ObsBeacons os) b' = Some r" for b' r t
    using assms(1) that by (auto simp: beacon_closed_def put_observed_def obj_simps)
  have run: "beacon_closed b (handleExecutionEvent env e h d rs os)" for e h d
  proof -
    have "beacon_closed b (os\<lparr>ObsOperations := x\<rparr>)" for x using assms(1) by (simp add: beacon_closed_def)
    then show ?thesis using assms(1) by (simp add: handleExecutionEvent_def Let_def closed_intros split: option.split)
  qed
  have flags: "beacon_closed b (os\<lparr>ObsRunning := x\<rparr>)" "beacon_closed b (os\<lparr>ObsUpstream := x\<rparr>)" "beacon_closed b (os\<lparr>ObsHandler := x\<rparr>)" for x
    using assms(1) by (simp_all add: beacon_closed_def)
  have tick: "beacon_closed b (fold (classifyAndAnnounceBeacon env) bs os)" if "beacon_closed b os" for bs os
    by (rule closed_fold [OF closed_beacon that])
  show ?thesis
    using assms queue wrote run flags tick unfolding w
    by (cases act) (auto simp: closed_intros closed_hydrate onBeaconWSOpen_def onBeaconWSClose_def onBeaconRegistered_def
        onBeaconHeartbeat_def onBeaconDeregistered_def observerStart_def observerStop_def observerTick_def Let_def
        setUpstreamBroadcast_def setObserverBroadcastHandler_def split: option.split)
qed

lemma closed_run: "beacon_closed b os \<Longrightarrow> \<forall>e \<in> set evs. \<not> revives b (snd e) \<Longrightarrow> beacon_closed b (obs_run evs os)"
  by (induction evs arbitrary: os) (simp_all add: closed_apply)


subsection \<open>Properties\<close>

text \<open>
  C23. What the observer tells of a beacon is a story without gaps: in every run, each change of liveness
  in its history starts where the one before ended, no change leads to the same state, and the last one
  leads to the state the record shows now; the history and the list of ended work stay within their caps.
\<close>

theorem observer_feed_consistent:
  assumes "oget (ObsBeacons (obs_run evs initial_observer)) b = Some r"
  shows "liveness_chain (changes b (ObsHistory (obs_run evs initial_observer))) (obLiveness r) \<and>
    length (ObsHistory (obs_run evs initial_observer)) \<le> 1000 \<and>
    length (ObsRecentTerminal (obs_run evs initial_observer)) \<le> 200"
proof -
  have "feed_ok (obs_run evs initial_observer)"
    by (rule feed_ok_run [OF feed_ok_initial])
  with feed_okD(3) [OF this assms] show ?thesis by (simp add: record_ok_def feed_okD)
qed

text \<open>
  A beacon whose socket closed is Dead at once and stays Dead: no heartbeat, no event, no tick and no
  hydration from the coordinator brings it back, only a registration or a socket of its own.
\<close>

theorem closed_socket_is_dead:
  assumes "b \<noteq> []" "oget (ObsBeacons (obs_run evs initial_observer)) b \<noteq> None"
    and "\<forall>e \<in> set tail. \<not> revives b (snd e)"
  shows "\<exists>r. oget (ObsBeacons (obs_run (evs @ (world, SocketClose b) # tail) initial_observer)) b = Some r \<and>
    obLiveness r = Dead \<and> \<not> obWSConnected r"
proof -
  let ?os = "obs_run evs initial_observer"
  have ok: "feed_ok ?os" by (rule feed_ok_run [OF feed_ok_initial])
  obtain env s rs where world: "world = (env, s, rs)" by (cases world)
  from assms(2) obtain r where r: "oget (ObsBeacons ?os) b = Some r" by blast
  let ?r = "r\<lparr>obWSConnected := False, obLastWSCloseAt := Some (Now env)\<rparr>"
  have override: "obManualOverrideLiveness r = None" using feed_okD(3) [OF ok r] by (simp add: record_ok_def)
  have "beacon_closed b (classifyAndAnnounceBeacon env b (put_observed b ?r ?os))"
    using override feed_okD(1) [OF ok]
    by (auto simp: beacon_closed_def classifyAndAnnounceBeacon_def put_observed_def obj_simps classifyBeacon_def default_policy_def
        Let_def announceObserver_def)
  then have "beacon_closed b (obs_apply world (SocketClose b) ?os)"
    using assms(1) r by (simp add: world onBeaconWSClose_def closed_fold_items)
  from closed_run [OF this assms(3)] show ?thesis by (auto simp: beacon_closed_def)
qed

end
