(* ===== verification/ObserverScheduler.thy ===== *)
theory ObserverScheduler
  imports ObserverProperties
begin

section \<open>The observer and the scheduler\<close>

text \<open>
  The labels of the observer beside the decisions of the scheduler: when a parked item is called blocked, and
  what becomes of a stall that the scheduler finds first.
\<close>

subsection \<open>After a hydration\<close>

lemma hydrate_fold:
  assumes "\<forall>(k, r) \<in> set bs. BeaconID r = k" "distinct (map fst bs)"
  shows "oget (ObsBeacons (fold (hydrateBeacon env) (ovals bs) os)) b =
    (case oget bs b of None \<Rightarrow> oget (ObsBeacons os) b
     | Some r \<Rightarrow> Some ((beaconUpsert env b (Some r) os)\<lparr>obLastHeartbeatAt := Some (LastHeartbeat r)\<rparr>))"
  using assms
proof (induction bs arbitrary: os)
  case (Cons kr bs)
  obtain k r where kr: "kr = (k, r)" by (cases kr)
  with Cons.prems have k: "BeaconID r = k" and fresh: "oget bs k = None" by (auto simp: map_of_eq_None_iff)
  have other: "beaconUpsert env b' x (hydrateBeacon env r os) = beaconUpsert env b' x os" if "b' \<noteq> k" for b' x
    using that by (simp add: beaconUpsert_def hydrateBeacon_def put_observed_def obj_simps k)
  show ?case
    using Cons fresh other k by (cases "b = k") (auto simp: kr hydrateBeacon_def put_observed_def obj_simps split: option.split)
qed simp

text \<open>What the observer needs of the coordinator: records under their own id, with a limit.\<close>

definition registry_ok :: "coord \<Rightarrow> bool" where
  "registry_ok s \<longleftrightarrow> owf (Beacons s) \<and> (\<forall>b r. oget (Beacons s) b = Some r \<longrightarrow> BeaconID r = b \<and> 0 < MaxConcurrent r)"

lemma hydrated_record:
  assumes "registry_ok s" "oget (Beacons s) b = Some r"
  obtains x where "oget (ObsBeacons (hydrateFromCoordinator env (Some s) rs os)) b = Some x"
    "obCapabilities x = Capabilities r" "obMaxConcurrent x = MaxConcurrent r" "obCurrentWorkItems x = CurrentWorkItems r"
proof -
  let ?x = "(beaconUpsert env b (Some r) os)\<lparr>obLastHeartbeatAt := Some (LastHeartbeat r)\<rparr>"
  have keys: "\<forall>(k, r) \<in> set (Beacons s). BeaconID r = k" "owf (Beacons s)"
    using assms(1) by (auto simp: registry_ok_def intro: in_oget)
  have marked: "oget (map (\<lambda>(b, r). (b, f b r)) m) b = map_option (f b) (oget m b)"
    for f :: "string \<Rightarrow> watched_beacon \<Rightarrow> watched_beacon" and m
    by (induction m) auto
  have max: "MaxConcurrent r \<noteq> 0"
    using assms(1) [unfolded registry_ok_def] assms(2) by (metis less_irrefl)
  have "oget (ObsBeacons (hydrateFromCoordinator env (Some s) rs os)) b = Some ?x"
    by (simp add: hydrateFromCoordinator_def Let_def marked hydrate_fold [OF keys] assms(2) markDropped_def split: option.split)
  moreover have "obCapabilities ?x = Capabilities r" "obMaxConcurrent ?x = MaxConcurrent r" "obCurrentWorkItems ?x = CurrentWorkItems r"
    using max by (simp_all add: beaconUpsert_def newObserved_def refreshObserved_def num_or_def split: option.split)
  ultimately show ?thesis using that by blast
qed

subsection \<open>Blocked items\<close>

text \<open>The beacons the observer counts as up are those the scheduler would use.\<close>

definition same_fleet :: "coord \<Rightarrow> observer \<Rightarrow> bool" where
  "same_fleet s os \<longleftrightarrow> owf (ObsBeacons os) \<and>
     (\<forall>b x. oget (ObsBeacons os) b = Some x \<longrightarrow>
        (is_up x \<longleftrightarrow> (\<exists>r. oget (Beacons s) b = Some r \<and> (BeaconStatus r = Online \<or> BeaconStatus r = Active))))"

lemma free_iff_can_take:
  assumes "registry_ok s" "same_fleet s (hydrateFromCoordinator env (Some s) rs os)"
  shows "(\<exists>x \<in> set (ovals (ObsBeacons (hydrateFromCoordinator env (Some s) rs os))).
      advertises (obCapabilities x) (str_or (Capability w) ''Shell'') \<and> is_up x \<and> \<not> is_busy x) \<longleftrightarrow>
    (\<exists>b r. oget (Beacons s) b = Some r \<and> beaconCanTake r w)" (is "?free \<longleftrightarrow> ?take")
proof -
  let ?os = "hydrateFromCoordinator env (Some s) rs os"
  have wf: "owf (ObsBeacons ?os)" using assms(2) by (simp add: same_fleet_def)
  have up: "is_up x \<longleftrightarrow> (\<exists>r. oget (Beacons s) b = Some r \<and> (BeaconStatus r = Online \<or> BeaconStatus r = Active))"
    if "oget (ObsBeacons ?os) b = Some x" for b x
    using assms(2) that by (simp add: same_fleet_def)
  have same: "advertises (obCapabilities x) (str_or (Capability w) ''Shell'') \<and> is_up x \<and> \<not> is_busy x \<longleftrightarrow> beaconCanTake r w"
    if x: "oget (ObsBeacons ?os) b = Some x" and r: "oget (Beacons s) b = Some r" for b x r
  proof -
    obtain x' where "oget (ObsBeacons ?os) b = Some x'" "obCapabilities x' = Capabilities r" "obMaxConcurrent x' = MaxConcurrent r"
      "obCurrentWorkItems x' = CurrentWorkItems r" by (rule hydrated_record [OF assms(1) r])
    with up [OF x] x r show ?thesis
      by (auto simp: beaconCanTake_def advertises_def is_busy_def Let_def)
  qed
  show ?thesis
  proof
    assume ?free
    then obtain b x where x: "oget (ObsBeacons ?os) b = Some x"
        "advertises (obCapabilities x) (str_or (Capability w) ''Shell'')" "is_up x" "\<not> is_busy x"
      using ovals_oget [OF wf] by blast
    with up [OF x(1)] obtain r where r: "oget (Beacons s) b = Some r" by blast
    with same [OF x(1) r] x show ?take by blast
  next
    assume ?take
    then obtain b r where r: "oget (Beacons s) b = Some r" "beaconCanTake r w" by blast
    obtain x where x: "oget (ObsBeacons ?os) b = Some x" by (rule hydrated_record [OF assms(1) r(1)])
    with same [OF x r(1)] r(2) ovals_oget [OF wf] show ?free by blast
  qed
qed

lemma unpinned_label:
  assumes "Status w \<notin> set terminal_work_statuses" "AssignedBeaconID w = None" "AffinityKey w = []"
  shows "fst (classifyUpcoming (Some w) bs) = None \<longleftrightarrow>
    (\<exists>x \<in> set bs. advertises (obCapabilities x) (str_or (Capability w) ''Shell'') \<and> is_up x \<and> \<not> is_busy x)"
  using assms by (auto simp: classifyUpcoming_def affinity_target_def Let_def filter_empty_conv opt_or_def)



subsection \<open>Stalls\<close>

text \<open>
  A stall that the scheduler finds first is never announced by the observer: the scheduler marks the
  item before it sends \<open>queue.stalled\<close>, \<open>Stalled\<close> is one of the terminal statuses of the policy, so the
  item is labelled healthy; it is listed among the ended work, and the history stays as it was, although
  the same item, looked at before, is stalled by the policy of the observer as well.
\<close>

theorem scheduler_stall_unannounced:
  assumes "stallSilence env w = Some since" "60000 \<le> heartbeatExpected env w"
    and "ObsMirrors os" "ObsPolicy os = default_policy"
    and "WorkItemHash w \<noteq> []" "jget payload ''WorkItemHash'' = JStr (WorkItemHash w)"
    and "os' = handleQueueBroadcast env ''queue.stalled'' payload (Some (set_item (WorkItemHash w) (stallRecord env since w) s)) os"
  shows "fst (classifyWorkItem (Now env) (Some w) (observed_of w os) (ObsPolicy os)) = LabelStalled \<and>
    ObsHistory os' = ObsHistory os \<and> oget (ObsLastWorkItemLabel os') (WorkItemHash w) = Some ''Healthy'' \<and>
    (\<exists>e. last (ObsRecentTerminal os') = TerminalWorkItem e \<and> tiWorkItemHash e = WorkItemHash w \<and> tiStatus e = Stalled)"
proof -
  let ?w = "stallRecord env since w"
  have w: "WorkItemHash ?w = WorkItemHash w" "Status ?w = Stalled" by (simp_all add: stallRecord_def)
  have label: "classifyWorkItem (Now env) (Some ?w) b p = (LabelHealthy, ''terminal'')" for b p
    by (simp add: classifyWorkItem_def w terminal_work_statuses_def)
  have item: "oget (mirror_queue (Some (set_item (WorkItemHash w) ?w s)) os) (WorkItemHash w) = Some ?w"
    using assms(3) by (simp add: mirror_queue_def set_item_def obj_simps)
  have announce: "ObsHistory (classifyAndAnnounceWorkItem env ?w o1) = ObsHistory o1 \<and>
      ObsRecentTerminal (classifyAndAnnounceWorkItem env ?w o1) = ObsRecentTerminal o1 \<and>
      oget (ObsLastWorkItemLabel (classifyAndAnnounceWorkItem env ?w o1)) (WorkItemHash w) = Some ''Healthy''" for o1
    using assms(5) by (simp add: classifyAndAnnounceWorkItem_def label w work_label_name_def set_label_def obj_simps)
  have last: "last (keep_last 200 (xs @ [e])) = e" for xs and e :: terminal_entry
    by (simp add: keep_last_def)
  have topic: "ingestQueueTopic env ''queue.stalled'' payload (Some (set_item (WorkItemHash w) ?w s)) os =
      classifyAndAnnounceWorkItem env ?w (appendTerminalWorkItem env ?w (JStr ''stalled'') os)"
    using assms(5,6) item by (simp add: ingestQueueTopic_def)
  have "fst (classifyWorkItem (Now env) (Some w) (observed_of w os) (ObsPolicy os)) = LabelStalled"
    using scheduler_stall_is_observed [OF assms(1,2)] assms(4) by simp
  then show ?thesis
    using announce [of "appendTerminalWorkItem env ?w (JStr ''stalled'') os"] assms(4)
    by (simp add: assms(7) handleQueueBroadcast_def topic Let_def appendTerminalWorkItem_def appendRecentTerminal_def
        default_policy_def num_or_def last w)
qed

end
