(* ===== verification/ObserverScenarios.thy ===== *)
theory ObserverScenarios
  imports ObserverScheduler Scenarios
begin

section \<open>Concrete runs of the observer\<close>

text \<open>
  The hub of \<open>Scenarios\<close> with an observer beside it, at which the properties of the observer apply.
\<close>

definition demo_world :: "jstime \<Rightarrow> coord \<Rightarrow> obs_world" where
  "demo_world t s = (run_hub_env t, Some s, None)"

definition demo_watch :: "(obs_world \<times> obs_op) list" where
  "demo_watch = [(demo_world 100 queued_state, ObsStart), (demo_world 200000 queued_state, ObsTick)]"

lemma demo_watch_beacon: "oget (ObsBeacons (obs_run demo_watch initial_observer)) ''bcn-b-5'' \<noteq> None"
  by code_simp

lemma demo_watch_changes:
  "changes ''bcn-b-5'' (ObsHistory (obs_run demo_watch initial_observer)) = [(Alive, Dead)]"
  by code_simp

theorem observer_feed_consistent_witness:
  "\<exists>r. oget (ObsBeacons (obs_run demo_watch initial_observer)) ''bcn-b-5'' = Some r \<and> obLiveness r = Dead \<and>
    length (ObsHistory (obs_run demo_watch initial_observer)) \<le> 1000"
proof -
  obtain r where r: "oget (ObsBeacons (obs_run demo_watch initial_observer)) ''bcn-b-5'' = Some r"
    using demo_watch_beacon by blast
  from observer_feed_consistent [OF r] r show ?thesis by (simp add: demo_watch_changes)
qed

theorem closed_socket_is_dead_witness:
  "\<exists>r. oget (ObsBeacons (obs_run (demo_watch @ [(demo_world 200001 queued_state, SocketClose ''bcn-b-5''),
      (demo_world 200002 queued_state, BeaconHeartbeat ''bcn-b-5''), (demo_world 200003 queued_state, ObsTick)])
      initial_observer)) ''bcn-b-5'' = Some r \<and> obLiveness r = Dead"
  using closed_socket_is_dead [of "''bcn-b-5''" demo_watch "[(demo_world 200002 queued_state, BeaconHeartbeat ''bcn-b-5''),
      (demo_world 200003 queued_state, ObsTick)]" "demo_world 200001 queued_state"] demo_watch_beacon
  by auto

abbreviation hydrated :: observer where
  "hydrated \<equiv> hydrateFromCoordinator (run_hub_env 100) (Some queued_state) None initial_observer"

lemma demo_fleet: "map (\<lambda>(b, r). (b, BeaconID r, MaxConcurrent r, BeaconStatus r)) (Beacons queued_state) =
    [(''bcn-b-5'', ''bcn-b-5'', 2, Online)]"
  by code_simp

lemma demo_hydrated: "map (\<lambda>(b, x). (b, is_up x)) (ObsBeacons hydrated) = [(''bcn-b-5'', True)]"
  by code_simp

lemma demo_parked: "Status (item_at hash_r queued_state) = Pending" "AssignedBeaconID (item_at hash_r queued_state) = None"
    "AffinityKey (item_at hash_r queued_state) = []" "pickBeacon (item_at hash_r queued_state) queued_state \<noteq> None"
  by code_simp+


theorem scheduler_stall_unannounced_witness:
  "ObsHistory (handleQueueBroadcast (run_hub_env 4000000) ''queue.stalled'' [(''WorkItemHash'', JStr hash_r)]
      (Some (set_item hash_r (stallRecord (run_hub_env 4000000) 3999992 (item_at hash_r running_state)) running_state))
      (initial_observer\<lparr>ObsMirrors := True\<rparr>)) = []"
proof -
  have "stallSilence (run_hub_env 4000000) (item_at hash_r running_state) = Some 3999992"
    "60000 \<le> heartbeatExpected (run_hub_env 4000000) (item_at hash_r running_state)"
    "WorkItemHash (item_at hash_r running_state) = hash_r"
    by code_simp+
  then show ?thesis
    using scheduler_stall_unannounced [of "run_hub_env 4000000" "item_at hash_r running_state" 3999992
        "initial_observer\<lparr>ObsMirrors := True\<rparr>" "[(''WorkItemHash'', JStr hash_r)]" _ running_state]
    by (simp add: initial_observer_def jget_def)
qed

end
