(* ===== verification/BeaconSockets.thy ===== *)
theory BeaconSockets
  imports HubSystem Observer
begin

section \<open>The sockets of the beacons\<close>

text \<open>
  The part of \<open>web_server/Ultravisor-API-Server.cjs\<close> between the beacons and the coordinator: the frames a
  beacon sends over its socket, the admission of a beacon to the mesh, the cleanup when a socket closes, the
  push channel, and the HTTP routes that register and deregister. The observer is told on the way. The
  answer of the auth beacon to a join is an event of its own, since it comes back as the result of a work
  item. The coordinator is there from the start. A push is an effect of the coordinator; of the frames a
  socket is sent, only those of this part are kept.
\<close>

subsection \<open>Records\<close>

datatype beacon_frame = FrameRegistered string | FrameRejected string | FrameDeregistered

record beacon_socket =
  bsOpen :: bool
  bsBeaconID :: "string option"
  bsUpgradeSessionID :: "string option"
  bsFrames :: "beacon_frame list"

text \<open>A \<open>BeaconRegister\<close> frame: what is handed to \<open>registerBeacon\<close>, and the secret.\<close>

record join_request =
  jrInfo :: beacon_info
  jrJoinSecret :: string

record mesh_config =
  NonPromiscuous :: bool
  BootstrapAuthSecret :: string
  AuthBridgeOn :: bool
  AuthTimeoutMs :: int

text \<open>What \<open>validateBeaconJoin\<close> resolves to; \<open>None\<close> is a rejection of the promise.\<close>

record bridge_answer =
  Available :: bool
  Allowed :: bool
  DenyReason :: string
  DenyError :: string

record mesh =
  MeshCoord :: coord
  MeshObserver :: "observer option"
  MeshSockets :: "beacon_socket obj"
  BeaconWebSockets :: "string obj"
  PendingJoins :: "(string \<times> join_request) list"

definition initial_mesh :: "observer option \<Rightarrow> coord \<Rightarrow> mesh" where
  "initial_mesh watch s = \<lparr>MeshCoord = s, MeshObserver = watch, MeshSockets = [], BeaconWebSockets = [], PendingJoins = []\<rparr>"

subsection \<open>The push channel\<close>

definition pushWorkItemToBeacon :: "mesh \<Rightarrow> string \<Rightarrow> json obj \<Rightarrow> bool" where
  "pushWorkItemToBeacon m b w = (case oget (BeaconWebSockets m) b of
     None \<Rightarrow> False
   | Some k \<Rightarrow> (case oget (MeshSockets m) k of None \<Rightarrow> False | Some sk \<Rightarrow> bsOpen sk))"

definition mesh_env :: "hub_env \<Rightarrow> mesh \<Rightarrow> hub_env" where
  "mesh_env env m = env\<lparr>PushHandler := Some (pushWorkItemToBeacon m)\<rparr>"

definition observe :: "(observer \<Rightarrow> observer) \<Rightarrow> mesh \<Rightarrow> mesh" where
  "observe f m = m\<lparr>MeshObserver := map_option f (MeshObserver m)\<rparr>"

definition set_socket :: "string \<Rightarrow> beacon_socket \<Rightarrow> mesh \<Rightarrow> mesh" where
  "set_socket k sk m = m\<lparr>MeshSockets := oset k sk (MeshSockets m)\<rparr>"

definition send_frame :: "string \<Rightarrow> beacon_frame \<Rightarrow> mesh \<Rightarrow> mesh" where
  "send_frame k f m = (case oget (MeshSockets m) k of
     None \<Rightarrow> m | Some sk \<Rightarrow> if bsOpen sk then set_socket k (sk\<lparr>bsFrames := bsFrames sk @ [f]\<rparr>) m else m)"

definition connectSocket :: "string \<Rightarrow> string option \<Rightarrow> mesh \<Rightarrow> mesh" where
  "connectSocket k session m = set_socket k \<lparr>bsOpen = True, bsBeaconID = None, bsUpgradeSessionID = session, bsFrames = []\<rparr> m"

subsection \<open>Registration\<close>

definition completeBeaconWSRegister :: "hub_env \<Rightarrow> string \<Rightarrow> join_request \<Rightarrow> mesh \<Rightarrow> mesh" where
  "completeBeaconWSRegister env k jr m = (case oget (MeshSockets m) k of
     None \<Rightarrow> m
   | Some sk \<Rightarrow>
      (case registerBeacon (mesh_env env m) (jrInfo jr) (bsUpgradeSessionID sk) (MeshCoord m) of (b, s1) \<Rightarrow>
        let bcn = oget (Beacons s1) b;
            m1 = set_socket k (sk\<lparr>bsBeaconID := Some b\<rparr>)
              (m\<lparr>MeshCoord := s1, BeaconWebSockets := oset b k (BeaconWebSockets m)\<rparr>);
            m2 = observe (\<lambda>os. onBeaconWSOpen env b bcn (onBeaconRegistered env bcn (Some s1) os)) m1
        in send_frame k (FrameRegistered b) m2))"

datatype admission = Admitted | Rejected string | AskAuthBeacon

definition authAvailable :: "mesh_config \<Rightarrow> coord \<Rightarrow> bool" where
  "authAvailable cfg s \<longleftrightarrow> AuthBridgeOn cfg \<and> list_ex (\<lambda>bcn. CapName ''Authentication'' \<in> set (Capabilities bcn)) (ovals (Beacons s))"

definition constantTimeEqual :: "string \<Rightarrow> string \<Rightarrow> bool" where
  "constantTimeEqual a b \<longleftrightarrow> a = b"

definition claimed_capabilities :: "join_request \<Rightarrow> capability list" where
  "claimed_capabilities jr = or_old (bCapabilities (jrInfo jr)) []"

text \<open>\<open>_admitBeaconForRegistration\<close> up to the question to the auth beacon.\<close>

definition admitBeaconForRegistration :: "mesh_config \<Rightarrow> coord \<Rightarrow> join_request \<Rightarrow> admission" where
  "admitBeaconForRegistration cfg s jr =
     (if \<not> NonPromiscuous cfg then Admitted
      else if CapName ''Authentication'' \<in> set (claimed_capabilities jr) \<and> \<not> authAvailable cfg s then
        (if BootstrapAuthSecret cfg = []
         then Rejected ''Non-promiscuous mode requires UltravisorBootstrapAuthSecret in config''
         else if \<not> constantTimeEqual (jrJoinSecret jr) (BootstrapAuthSecret cfg) then Rejected ''Bootstrap auth secret mismatch''
         else Admitted)
      else if \<not> authAvailable cfg s
      then Rejected ''No auth beacon connected; cannot validate beacon join in non-promiscuous mode''
      else AskAuthBeacon)"

definition bridge_admission :: "bridge_answer option \<Rightarrow> admission" where
  "bridge_admission ans = (case ans of
     None \<Rightarrow> Rejected ''Admission check failed''
   | Some a \<Rightarrow> if Available a \<and> Allowed a then Admitted
       else Rejected (str_or (str_or (DenyReason a) (DenyError a)) ''Auth beacon denied beacon join''))"

definition rejectBeaconJoin :: "string \<Rightarrow> string \<Rightarrow> mesh \<Rightarrow> mesh" where
  "rejectBeaconJoin k reason m = (case oget (MeshSockets m) k of
     None \<Rightarrow> m
   | Some sk \<Rightarrow> if bsOpen sk
       then set_socket k (sk\<lparr>bsFrames := bsFrames sk @ [FrameRejected (str_or reason ''Beacon admission denied'')], bsOpen := False\<rparr>) m
       else m)"

text \<open>The work item that asks the auth beacon (\<open>validateBeaconJoin\<close>, \<open>_dispatchAuthAction\<close>).\<close>

fun capability_json :: "capability \<Rightarrow> json" where
  "capability_json (CapName c) = JStr c"
| "capability_json (CapObj c) = JObj [(''Capability'', JStr c)]"

definition join_work :: "mesh_config \<Rightarrow> join_request \<Rightarrow> work_info" where
  "join_work cfg jr = \<lparr>qRunHash = [], qRunID = [], qNodeHash = [], qOperationHash = [],
     qCapability = ''Authentication'', qAction = ''AUTH_ValidateBeaconJoin'',
     qSettings = [(''BeaconName'', JStr (beacon_info.bName (jrInfo jr))), (''JoinSecret'', JStr (jrJoinSecret jr)),
       (''Capabilities'', JArr (map capability_json (claimed_capabilities jr)))],
     qAffinityKey = ''auth'', qRequireAffinityMatch = False, qTimeoutMs = num_or (AuthTimeoutMs cfg) 5000,
     qEnqueuedAt = None, qPriority = None\<rparr>"

definition handleBeaconWSRegister :: "mesh_config \<Rightarrow> hub_env \<Rightarrow> string \<Rightarrow> join_request \<Rightarrow> mesh \<Rightarrow> mesh" where
  "handleBeaconWSRegister cfg env k jr m = (case admitBeaconForRegistration cfg (MeshCoord m) jr of
     Admitted \<Rightarrow> completeBeaconWSRegister env k jr m
   | Rejected reason \<Rightarrow> rejectBeaconJoin k reason m
   | AskAuthBeacon \<Rightarrow> m\<lparr>MeshCoord := snd (dispatchAndWait (mesh_env env m) (join_work cfg jr) (MeshCoord m)),
       PendingJoins := PendingJoins m @ [(k, jr)]\<rparr>)"

text \<open>The answer comes when it comes: the socket may be closed by then, and is not looked at again.\<close>

definition handleJoinAnswer :: "hub_env \<Rightarrow> string \<Rightarrow> join_request \<Rightarrow> bridge_answer option \<Rightarrow> mesh \<Rightarrow> mesh" where
  "handleJoinAnswer env k jr ans m =
     (if (k, jr) \<notin> set (PendingJoins m) then m
      else let m1 = m\<lparr>PendingJoins := remove1 (k, jr) (PendingJoins m)\<rparr>
        in (case bridge_admission ans of
              Admitted \<Rightarrow> completeBeaconWSRegister env k jr m1
            | Rejected reason \<Rightarrow> rejectBeaconJoin k reason m1
            | AskAuthBeacon \<Rightarrow> m1))"

subsection \<open>Frames of a registered beacon\<close>

definition handleBeaconWSHeartbeat :: "hub_env \<Rightarrow> string \<Rightarrow> mesh \<Rightarrow> mesh" where
  "handleBeaconWSHeartbeat env b m =
     (if b = [] then m
      else observe (onBeaconHeartbeat env b) (m\<lparr>MeshCoord := snd (heartbeat (mesh_env env m) b (MeshCoord m))\<rparr>))"

definition handleBeaconWSWorkComplete :: "hub_env \<Rightarrow> string \<Rightarrow> work_result \<Rightarrow> mesh \<Rightarrow> mesh" where
  "handleBeaconWSWorkComplete env h r m =
     (if h = [] then m else m\<lparr>MeshCoord := snd (completeWorkItem (mesh_env env m) h r (MeshCoord m))\<rparr>)"

definition handleBeaconWSWorkError :: "hub_env \<Rightarrow> string \<Rightarrow> string \<Rightarrow> json list \<Rightarrow> mesh \<Rightarrow> mesh" where
  "handleBeaconWSWorkError env h msg lg m =
     (if h = [] then m
      else m\<lparr>MeshCoord := snd (failWorkItem (mesh_env env m) h (str_or msg ''Unknown error'') lg (MeshCoord m))\<rparr>)"

definition handleBeaconWSWorkProgress :: "hub_env \<Rightarrow> string \<Rightarrow> progress_data \<Rightarrow> mesh \<Rightarrow> mesh" where
  "handleBeaconWSWorkProgress env h p m =
     (if h = [] then m else m\<lparr>MeshCoord := snd (updateProgress (mesh_env env m) h p (MeshCoord m))\<rparr>)"

text \<open>The frame names the beacon; it need not be the one of the socket.\<close>

definition handleBeaconWSDeregister :: "hub_env \<Rightarrow> string \<Rightarrow> string \<Rightarrow> mesh \<Rightarrow> mesh" where
  "handleBeaconWSDeregister env k b m =
     (let m1 = (if b = [] then m
            else observe (onBeaconDeregistered env b)
              ((observe (onBeaconWSClose env b (Some (MeshCoord m))) m)\<lparr>MeshCoord := snd (deregisterBeacon b (MeshCoord m))\<rparr>));
          m2 = m1\<lparr>BeaconWebSockets := odel b (BeaconWebSockets m1)\<rparr>
      in (case oget (MeshSockets m2) k of
            None \<Rightarrow> m2
          | Some sk \<Rightarrow> send_frame k FrameDeregistered (set_socket k (sk\<lparr>bsBeaconID := None\<rparr>) m2)))"

definition cleanupBeaconWS :: "hub_env \<Rightarrow> string \<Rightarrow> mesh \<Rightarrow> mesh" where
  "cleanupBeaconWS env k m = (case oget (MeshSockets m) k of
     None \<Rightarrow> m
   | Some sk \<Rightarrow> (case bsBeaconID sk of
       None \<Rightarrow> m
     | Some b \<Rightarrow>
         (let m1 = set_socket k (sk\<lparr>bsBeaconID := None\<rparr>) (m\<lparr>BeaconWebSockets := odel b (BeaconWebSockets m)\<rparr>);
              m2 = observe (onBeaconWSClose env b (Some (MeshCoord m1))) m1
          in observe (onBeaconDeregistered env b) (m2\<lparr>MeshCoord := snd (deregisterBeacon b (MeshCoord m2))\<rparr>))))"

definition socketClosed :: "hub_env \<Rightarrow> string \<Rightarrow> mesh \<Rightarrow> mesh" where
  "socketClosed env k m = (case oget (MeshSockets m) k of
     None \<Rightarrow> m | Some sk \<Rightarrow> cleanupBeaconWS env k (set_socket k (sk\<lparr>bsOpen := False\<rparr>) m))"

subsection \<open>Routes\<close>

text \<open>
  \<open>POST /Beacon/Register\<close> and \<open>DELETE /Beacon/:BeaconID\<close>; the status of the answer is the first
  component. The session is what \<open>_requireSession\<close> gives.
\<close>

definition httpRegister :: "hub_env \<Rightarrow> string option \<Rightarrow> beacon_info \<Rightarrow> mesh \<Rightarrow> nat \<times> mesh" where
  "httpRegister env session bi m = (case session of
     None \<Rightarrow> (401, m)
   | Some sid \<Rightarrow>
      (if beacon_info.bName bi = [] \<or> bCapabilities bi = None then (400, m)
       else (case registerBeacon (mesh_env env m) bi (Some sid) (MeshCoord m) of (b, s1) \<Rightarrow>
         (200, observe (onBeaconRegistered env (oget (Beacons s1) b) (Some s1)) (m\<lparr>MeshCoord := s1\<rparr>)))))"

definition httpDeregister :: "hub_env \<Rightarrow> string \<Rightarrow> mesh \<Rightarrow> nat \<times> mesh" where
  "httpDeregister env b m = (case deregisterBeacon b (MeshCoord m) of (removed, s1) \<Rightarrow>
     if \<not> removed then (404, m) else (200, observe (onBeaconDeregistered env b) (m\<lparr>MeshCoord := s1\<rparr>)))"

end
