(* ===== verification/MeshProperties.thy ===== *)
theory MeshProperties
  imports BeaconSockets
begin

section \<open>The mesh: sockets, coordinator and observer together\<close>

text \<open>
  The frames, routes and timers of the hub as steps on the sockets, the coordinator and the observer. Each
  step moves the coordinator as a step of the hub does, or not at all, so what holds for the hub holds for
  the mesh. Then: who may join, and what the close of an old socket does.
\<close>

subsection \<open>Steps\<close>

datatype mesh_event =
    Connect string "string option"
  | RegisterFrame string join_request
  | JoinAnswer string join_request "bridge_answer option"
  | HeartbeatFrame string
  | CompleteFrame string work_result
  | ErrorFrame string string "json list"
  | ProgressFrame string progress_data
  | DeregisterFrame string string
  | SocketClosed string
  | HttpRegister "string option" beacon_info
  | HttpDeregister string
  | HubEvent hub_event

fun mesh_apply :: "mesh_config \<Rightarrow> hub_env \<Rightarrow> mesh_event \<Rightarrow> mesh \<Rightarrow> mesh" where
  "mesh_apply cfg env (Connect k session) m = connectSocket k session m"
| "mesh_apply cfg env (RegisterFrame k jr) m = handleBeaconWSRegister cfg env k jr m"
| "mesh_apply cfg env (JoinAnswer k jr ans) m = handleJoinAnswer env k jr ans m"
| "mesh_apply cfg env (HeartbeatFrame b) m = handleBeaconWSHeartbeat env b m"
| "mesh_apply cfg env (CompleteFrame h r) m = handleBeaconWSWorkComplete env h r m"
| "mesh_apply cfg env (ErrorFrame h msg lg) m = handleBeaconWSWorkError env h msg lg m"
| "mesh_apply cfg env (ProgressFrame h p) m = handleBeaconWSWorkProgress env h p m"
| "mesh_apply cfg env (DeregisterFrame k b) m = handleBeaconWSDeregister env k b m"
| "mesh_apply cfg env (SocketClosed k) m = socketClosed env k m"
| "mesh_apply cfg env (HttpRegister session bi) m = snd (httpRegister env session bi m)"
| "mesh_apply cfg env (HttpDeregister b) m = snd (httpDeregister env b m)"
| "mesh_apply cfg env (HubEvent ev) m = m\<lparr>MeshCoord := hub_apply (mesh_env env m) ev (MeshCoord m)\<rparr>"

text \<open>The guard of the hub on registrations, wherever one may happen.\<close>

fun mesh_admissible :: "hub_env \<Rightarrow> mesh_event \<Rightarrow> mesh \<Rightarrow> bool" where
  "mesh_admissible env (RegisterFrame k jr) m \<longleftrightarrow> register_ok env (jrInfo jr) (MeshCoord m)"
| "mesh_admissible env (JoinAnswer k jr ans) m \<longleftrightarrow> register_ok env (jrInfo jr) (MeshCoord m)"
| "mesh_admissible env (HttpRegister session bi) m \<longleftrightarrow> register_ok env bi (MeshCoord m)"
| "mesh_admissible env (HubEvent ev) m \<longleftrightarrow> admissible env ev (MeshCoord m)"
| "mesh_admissible env ev m \<longleftrightarrow> True"

inductive mesh_reach :: "mesh_config \<Rightarrow> hub_env \<Rightarrow> mesh \<Rightarrow> bool" for cfg where
  mesh_start: "hub_init (env, s) \<Longrightarrow> mesh_reach cfg env (initial_mesh watch s)"
| mesh_next: "mesh_reach cfg env m \<Longrightarrow> later env env' \<Longrightarrow> mesh_admissible env' ev m \<Longrightarrow>
    mesh_reach cfg env' (mesh_apply cfg env' ev m)"

subsection \<open>The coordinator under a step\<close>

text \<open>What a step of the mesh does to the coordinator: nothing, or one step of the hub.\<close>

definition hub_moves :: "hub_env \<Rightarrow> mesh \<Rightarrow> coord \<Rightarrow> bool" where
  "hub_moves env m s' \<longleftrightarrow> s' = MeshCoord m \<or>
     (\<exists>ev. admissible (mesh_env env m) ev (MeshCoord m) \<and> s' = hub_apply (mesh_env env m) ev (MeshCoord m))"

lemma hub_moves_id [intro]: "hub_moves env m (MeshCoord m)"
  by (simp add: hub_moves_def)

lemma hub_movesI: "admissible (mesh_env env m) ev (MeshCoord m) \<Longrightarrow> hub_moves env m (hub_apply (mesh_env env m) ev (MeshCoord m))"
  by (auto simp: hub_moves_def)

lemma mesh_frames [frame_simps]:
  "MeshCoord (observe f m) = MeshCoord m" "MeshCoord (set_socket k sk m) = MeshCoord m" "MeshCoord (send_frame k fr m) = MeshCoord m"
  "MeshCoord (rejectBeaconJoin k r m) = MeshCoord m" "MeshCoord (connectSocket k s m) = MeshCoord m"
  "BeaconWebSockets (observe f m) = BeaconWebSockets m" "BeaconWebSockets (set_socket k sk m) = BeaconWebSockets m"
  "BeaconWebSockets (send_frame k fr m) = BeaconWebSockets m" "BeaconWebSockets (rejectBeaconJoin k r m) = BeaconWebSockets m"
  "MeshSockets (observe f m) = MeshSockets m"
  by (simp_all add: observe_def set_socket_def send_frame_def rejectBeaconJoin_def connectSocket_def split: option.split)

lemma mesh_env_simps [simp]:
  "Now (mesh_env env m) = Now env" "ActionDefaults (mesh_env env m) = ActionDefaults env"
  "register_ok (mesh_env env m) bi s = register_ok env bi s" "admissible (mesh_env env m) ev s = admissible env ev s"
  by (simp_all add: mesh_env_def register_ok_def) (cases ev; simp add: register_ok_def)

lemma register_moves:
  assumes "register_ok env (jrInfo jr) (MeshCoord m)"
  shows "hub_moves env m (MeshCoord (completeBeaconWSRegister env k jr m))"
proof (cases "oget (MeshSockets m) k")
  case None
  then show ?thesis by (auto simp: completeBeaconWSRegister_def)
next
  case (Some sk)
  with assms hub_movesI [of env m "Register (jrInfo jr) (bsUpgradeSessionID sk)"] show ?thesis
    by (cases "registerBeacon (mesh_env env m) (jrInfo jr) (bsUpgradeSessionID sk) (MeshCoord m)")
      (simp add: completeBeaconWSRegister_def Let_def frame_simps)
qed

lemma pending_coord [frame_simps]:
  "MeshCoord (m\<lparr>PendingJoins := p\<rparr>) = MeshCoord m" "mesh_env env (m\<lparr>PendingJoins := p\<rparr>) = mesh_env env m"
  "mesh_env env (m\<lparr>BeaconWebSockets := x, PendingJoins := p\<rparr>) = mesh_env env (m\<lparr>BeaconWebSockets := x\<rparr>)"
  by (simp_all add: mesh_env_def pushWorkItemToBeacon_def fun_eq_iff cong: option.case_cong)

lemma deregister_env: "hub_apply env (Deregister b) s = snd (deregisterBeacon b s)"
  by simp

lemma mesh_apply_moves:
  assumes "mesh_admissible env ev m"
  shows "hub_moves env m (MeshCoord (mesh_apply cfg env ev m))"
proof -
  note event = hub_movesI [of env m]
  have joins: "hub_moves env (m\<lparr>PendingJoins := p\<rparr>) s' = hub_moves env m s'" for p s'
    by (simp add: hub_moves_def frame_simps)
  have dereg: "hub_moves env m (snd (deregisterBeacon b (MeshCoord m)))" for b
    using event [of "Deregister b"] by simp
  show ?thesis
  proof (cases ev)
    case (RegisterFrame k jr)
    with assms register_moves [of env jr m k] event [of "DispatchAndWait (join_work cfg jr)"] show ?thesis
      by (auto simp: handleBeaconWSRegister_def frame_simps split: admission.split)
  next
    case (JoinAnswer k jr ans)
    with assms register_moves [of env jr "m\<lparr>PendingJoins := remove1 (k, jr) (PendingJoins m)\<rparr>" k] show ?thesis
      by (auto simp: handleJoinAnswer_def frame_simps joins Let_def split: admission.split)
  next
    case (HttpRegister session bi)
    with assms event [of "Register bi session"] show ?thesis
      by (auto simp: httpRegister_def frame_simps split: option.split prod.split)
  next
    case (DeregisterFrame k b)
    with dereg [of b] show ?thesis
      by (auto simp: handleBeaconWSDeregister_def Let_def frame_simps split: option.split)
  next
    case (SocketClosed k)
    with dereg show ?thesis
      by (auto simp: socketClosed_def cleanupBeaconWS_def Let_def frame_simps split: option.split)
  next
    case (HttpDeregister b)
    with dereg [of b] show ?thesis
      by (auto simp: httpDeregister_def frame_simps split: prod.split)
  next
    case (HeartbeatFrame b)
    with event [of "Heartbeat b"] show ?thesis by (auto simp: handleBeaconWSHeartbeat_def frame_simps)
  next
    case (CompleteFrame h r)
    with event [of "CompleteItem h r"] show ?thesis by (auto simp: handleBeaconWSWorkComplete_def)
  next
    case (ErrorFrame h msg lg)
    with event [of "FailItem h (str_or msg ''Unknown error'') lg"] show ?thesis by (auto simp: handleBeaconWSWorkError_def)
  next
    case (ProgressFrame h p)
    with event [of "Progress h p"] show ?thesis by (auto simp: handleBeaconWSWorkProgress_def)
  next
    case (HubEvent hev)
    with assms event [of hev] show ?thesis by simp
  qed (simp add: frame_simps hub_moves_def)
qed

lemma mesh_hub:
  assumes "mesh_reach cfg env m"
  shows "\<exists>env0. later env0 env \<and> hub_reach env0 (MeshCoord m)"
  using assms
proof induction
  case (mesh_start env s watch)
  then have "hub_reach env s" by (rule reach_init)
  then show ?case by (auto simp: initial_mesh_def later_def)
next
  case (mesh_next env m env' ev)
  then obtain env0 where env0: "later env0 env" "hub_reach env0 (MeshCoord m)" by blast
  with mesh_next.hyps(2) have lat: "later env0 env'" by (auto simp: later_def)
  from mesh_apply_moves [OF mesh_next.hyps(3), of cfg] show ?case
    unfolding hub_moves_def
  proof
    assume "MeshCoord (mesh_apply cfg env' ev m) = MeshCoord m"
    with env0(2) lat show ?case by auto
  next
    assume "\<exists>hev. admissible (mesh_env env' m) hev (MeshCoord m) \<and>
      MeshCoord (mesh_apply cfg env' ev m) = hub_apply (mesh_env env' m) hev (MeshCoord m)"
    then obtain hev where hev: "admissible (mesh_env env' m) hev (MeshCoord m)"
      "MeshCoord (mesh_apply cfg env' ev m) = hub_apply (mesh_env env' m) hev (MeshCoord m)" by blast
    have "later env0 (mesh_env env' m)" using lat by (simp add: later_def)
    with hev have "hub_step (env0, MeshCoord m) hev (mesh_env env' m, MeshCoord (mesh_apply cfg env' ev m))"
      by (simp add: hub_step_iff)
    from reach_step [OF env0(2) this] have "hub_reach (mesh_env env' m) (MeshCoord (mesh_apply cfg env' ev m))" .
    moreover have "later (mesh_env env' m) env'" by (simp add: later_def)
    ultimately show ?case by blast
  qed
qed



subsection \<open>Admission\<close>

lemma complete_channel:
  "oget (BeaconWebSockets (completeBeaconWSRegister env k jr m)) b = Some k' \<Longrightarrow>
    oget (BeaconWebSockets m) b = Some k' \<or> k' = k"
  by (auto simp: completeBeaconWSRegister_def Let_def frame_simps obj_simps split: option.splits prod.splits if_splits)

text \<open>Events that are not about a join open no channel.\<close>

lemma other_channel:
  assumes "\<And>k jr. ev \<noteq> RegisterFrame k jr" "\<And>k jr ans. ev \<noteq> JoinAnswer k jr ans"
    "oget (BeaconWebSockets (mesh_apply cfg env ev m)) b = Some k"
  shows "oget (BeaconWebSockets m) b = Some k"
  using assms
  by (cases ev)
    (auto simp: connectSocket_def handleBeaconWSHeartbeat_def handleBeaconWSWorkComplete_def handleBeaconWSWorkError_def
      handleBeaconWSWorkProgress_def handleBeaconWSDeregister_def socketClosed_def cleanupBeaconWS_def httpRegister_def
      httpDeregister_def Let_def frame_simps obj_simps split: option.splits prod.splits if_splits)

text \<open>
  C4. A secured hub fails closed: a socket becomes the channel of a beacon only by a register frame of the
  first auth beacon with the bootstrap secret, which is not empty, or by a join that waited for the auth
  beacon and was allowed by it; no other event of the mesh does it, whatever it carries. The route
  \<open>/Beacon/Register\<close> has no such gate: with any session it registers what it is sent.
\<close>

theorem admission_fails_closed:
  assumes "NonPromiscuous cfg"
  shows "(oget (BeaconWebSockets (mesh_apply cfg env ev m)) b = Some k \<and> oget (BeaconWebSockets m) b \<noteq> Some k \<longrightarrow>
      (\<exists>jr. ev = RegisterFrame k jr \<and> CapName ''Authentication'' \<in> set (claimed_capabilities jr) \<and>
         \<not> authAvailable cfg (MeshCoord m) \<and> BootstrapAuthSecret cfg \<noteq> [] \<and> jrJoinSecret jr = BootstrapAuthSecret cfg) \<or>
      (\<exists>jr ans. ev = JoinAnswer k jr (Some ans) \<and> (k, jr) \<in> set (PendingJoins m) \<and> Available ans \<and> Allowed ans)) \<and>
    (beacon_info.bName bi \<noteq> [] \<and> bCapabilities bi \<noteq> None \<longrightarrow>
      MeshCoord (mesh_apply cfg env (HttpRegister (Some sid) bi) m) = snd (registerBeacon (mesh_env env m) bi (Some sid) (MeshCoord m)))"
proof -
  have join: "(\<exists>jr. ev = RegisterFrame k jr \<and> CapName ''Authentication'' \<in> set (claimed_capabilities jr) \<and>
         \<not> authAvailable cfg (MeshCoord m) \<and> BootstrapAuthSecret cfg \<noteq> [] \<and> jrJoinSecret jr = BootstrapAuthSecret cfg) \<or>
      (\<exists>jr ans. ev = JoinAnswer k jr (Some ans) \<and> (k, jr) \<in> set (PendingJoins m) \<and> Available ans \<and> Allowed ans)"
    if new: "oget (BeaconWebSockets (mesh_apply cfg env ev m)) b = Some k" "oget (BeaconWebSockets m) b \<noteq> Some k"
  proof (cases ev)
    case (RegisterFrame k' jr)
    have admitted: "admitBeaconForRegistration cfg (MeshCoord m) jr = Admitted"
      using new RegisterFrame by (auto simp: handleBeaconWSRegister_def frame_simps split: admission.splits)
    then have "k' = k"
      using new RegisterFrame complete_channel [of env k' jr m b k] by (auto simp: handleBeaconWSRegister_def)
    with admitted RegisterFrame assms show ?thesis
      by (auto simp: admitBeaconForRegistration_def constantTimeEqual_def split: if_splits)
  next
    case (JoinAnswer k' jr ans)
    have p: "(k', jr) \<in> set (PendingJoins m)" "bridge_admission ans = Admitted"
      using new JoinAnswer by (auto simp: handleJoinAnswer_def Let_def frame_simps split: admission.splits if_splits)
    then have "k' = k"
      using new JoinAnswer complete_channel [of env k' jr "m\<lparr>PendingJoins := remove1 (k', jr) (PendingJoins m)\<rparr>" b k]
      by (auto simp: handleJoinAnswer_def Let_def)
    with p JoinAnswer show ?thesis by (auto simp: bridge_admission_def split: option.splits if_splits)
  qed (use new other_channel [of ev cfg env m b k] in auto)
  have "MeshCoord (mesh_apply cfg env (HttpRegister (Some sid) bi) m) = snd (registerBeacon (mesh_env env m) bi (Some sid) (MeshCoord m))"
    if "beacon_info.bName bi \<noteq> []" "bCapabilities bi \<noteq> None"
    using that by (cases "registerBeacon (mesh_env env m) bi (Some sid) (MeshCoord m)") (auto simp: httpRegister_def frame_simps)
  with join show ?thesis by blast
qed

subsection \<open>Reconnection\<close>

text \<open>
  C6. The close of an old socket takes the beacon down that has already come back: a beacon that registers
  again under its name over a second socket keeps its id, and the channel goes to the new socket; when the
  close of the first socket arrives afterwards, the cleanup deletes the channel of the new socket and
  deregisters the beacon, while the new socket stays open and still believes to be that beacon.
\<close>

theorem late_close_drops_reconnected:
  assumes "\<not> NonPromiscuous cfg" "k1 \<noteq> k2" "oget (MeshSockets m) k1 = Some sk1" "bsBeaconID sk1 = Some b"
    and "oget (MeshSockets m) k2 = Some sk2" "bsOpen sk2"
    and "findBeaconByName (str_or (beacon_info.bName (jrInfo jr)) ''unnamed'') (MeshCoord m) = Some (b, bcn)"
    and "BeaconID bcn = b" "BeaconStatus bcn \<noteq> Active"
    and "m1 = mesh_apply cfg env (RegisterFrame k2 jr) m" "m2 = mesh_apply cfg env' (SocketClosed k1) m1"
  shows "oget (BeaconWebSockets m1) b = Some k2 \<and> oget (Beacons (MeshCoord m1)) b \<noteq> None \<and> pushWorkItemToBeacon m1 b w \<and>
    oget (BeaconWebSockets m2) b = None \<and> oget (Beacons (MeshCoord m2)) b = None \<and> \<not> pushWorkItemToBeacon m2 b w \<and>
    (\<exists>sk. oget (MeshSockets m2) k2 = Some sk \<and> bsOpen sk \<and> bsBeaconID sk = Some b)"
proof -
  obtain s1 where s1: "registerBeacon (mesh_env env m) (jrInfo jr) (bsUpgradeSessionID sk2) (MeshCoord m) = (b, s1)"
      "oget (Beacons s1) b \<noteq> None"
    using assms(7-9) by (cases "BeaconStatus bcn") (auto simp: registerBeacon_def Let_def set_beacon_def obj_simps)
  have m1: "m1 = completeBeaconWSRegister env k2 jr m"
    by (simp add: assms(1,10) handleBeaconWSRegister_def admitBeaconForRegistration_def)
  have channel: "oget (BeaconWebSockets m1) b = Some k2" "MeshCoord m1 = s1" "oget (MeshSockets m1) k1 = Some sk1"
    using assms(2,3,5) by (auto simp: m1 completeBeaconWSRegister_def s1(1) Let_def frame_simps obj_simps send_frame_def
        observe_def set_socket_def split: option.split)
  have socket: "\<exists>sk. oget (MeshSockets m1) k2 = Some sk \<and> bsOpen sk \<and> bsBeaconID sk = Some b"
    using assms(5,6) by (simp add: m1 completeBeaconWSRegister_def s1(1) Let_def obj_simps send_frame_def observe_def set_socket_def)
  have dropped: "oget (Beacons (snd (deregisterBeacon b s))) b = None" for s
    by (auto simp: deregisterBeacon_def Let_def obj_simps split: option.split)
  have "oget (BeaconWebSockets m2) b = None" "oget (Beacons (MeshCoord m2)) b = None" "oget (MeshSockets m2) k2 = oget (MeshSockets m1) k2"
    using assms(2,4) channel(3) dropped
    by (simp_all add: assms(11) socketClosed_def cleanupBeaconWS_def set_socket_def observe_def Let_def obj_simps)
  with channel socket s1(2) show ?thesis by (auto simp: pushWorkItemToBeacon_def)
qed


subsection \<open>A beacon that comes back\<close>

definition open_mesh :: mesh_config where
  "open_mesh = \<lparr>NonPromiscuous = False, BootstrapAuthSecret = [], AuthBridgeOn = False, AuthTimeoutMs = 0\<rparr>"

definition secured_mesh :: mesh_config where
  "secured_mesh = \<lparr>NonPromiscuous = True, BootstrapAuthSecret = ''secret'', AuthBridgeOn = True, AuthTimeoutMs = 0\<rparr>"

definition demo_join :: join_request where
  "demo_join = \<lparr>jrInfo = shell_info 2, jrJoinSecret = []\<rparr>"

definition auth_join :: join_request where
  "auth_join = \<lparr>jrInfo = (shell_info 2)\<lparr>bCapabilities := Some [CapName ''Authentication'']\<rparr>, jrJoinSecret = ''secret''\<rparr>"

abbreviation mesh_0 :: mesh where
  "mesh_0 \<equiv> mesh_apply open_mesh (plain_env 4) (Connect ''s1'' None) (initial_mesh (Some initial_observer) initial_coord)"

abbreviation mesh_1 :: mesh where
  "mesh_1 \<equiv> mesh_apply open_mesh (plain_env 5) (RegisterFrame ''s1'' demo_join) mesh_0"

abbreviation mesh_2 :: mesh where
  "mesh_2 \<equiv> mesh_apply open_mesh (plain_env 6) (Connect ''s2'' None) mesh_1"

lemma mesh_2_reach: "mesh_reach open_mesh (plain_env 6) mesh_2"
proof (rule mesh_next, rule mesh_next, rule mesh_next, rule mesh_start)
  show "hub_init (plain_env 3, initial_coord)" by (simp add: hub_init_def)
  show "mesh_admissible (plain_env 5) (RegisterFrame ''s1'' demo_join) mesh_0" by code_simp
qed simp_all

lemma mesh_2_beacon: "map (\<lambda>(b, r). (b, BeaconID r, Name r, BeaconStatus r = Active)) (Beacons (MeshCoord mesh_2)) = [(''bcn-b-5'', ''bcn-b-5'', ''b'', False)]"
  by code_simp

lemma mesh_2_sockets: "map (\<lambda>(k, sk). (k, bsOpen sk, bsBeaconID sk)) (MeshSockets mesh_2) =
    [(''s1'', True, Some ''bcn-b-5''), (''s2'', True, None)]"
  by code_simp


theorem admission_fails_closed_witness:
  "CapName ''Authentication'' \<in> set (claimed_capabilities auth_join) \<and> jrJoinSecret auth_join = BootstrapAuthSecret secured_mesh"
proof -
  have "oget (BeaconWebSockets (mesh_apply secured_mesh (plain_env 5) (RegisterFrame ''s1'' auth_join) mesh_0)) ''bcn-b-5'' = Some ''s1''"
    "oget (BeaconWebSockets mesh_0) ''bcn-b-5'' = None" by code_simp+
  with admission_fails_closed [of secured_mesh "plain_env 5" "RegisterFrame ''s1'' auth_join" mesh_0 "''bcn-b-5''" "''s1''"]
  show ?thesis by (auto simp: secured_mesh_def)
qed

theorem late_close_drops_reconnected_witness:
  "oget (Beacons (MeshCoord (mesh_apply open_mesh (plain_env 8) (SocketClosed ''s1'')
      (mesh_apply open_mesh (plain_env 7) (RegisterFrame ''s2'' demo_join) mesh_2)))) ''bcn-b-5'' = None"
proof -
  obtain sk1 sk2 where sk: "MeshSockets mesh_2 = [(''s1'', sk1), (''s2'', sk2)]" "bsBeaconID sk1 = Some ''bcn-b-5''" "bsOpen sk2"
    using mesh_2_sockets by auto
  obtain bcn where bcn: "Beacons (MeshCoord mesh_2) = [(''bcn-b-5'', bcn)]" "BeaconID bcn = ''bcn-b-5''" "Name bcn = ''b''"
      "BeaconStatus bcn \<noteq> Active"
    using mesh_2_beacon by auto
  have "str_or (beacon_info.bName (jrInfo demo_join)) ''unnamed'' = ''b''" by code_simp
  with sk bcn show ?thesis
    using late_close_drops_reconnected [of open_mesh "''s1''" "''s2''" mesh_2 sk1 "''bcn-b-5''" sk2 demo_join bcn _ "plain_env 7" _ "plain_env 8"]
    by (simp add: open_mesh_def findBeaconByName_def del: mesh_apply.simps)
qed

end
