(* ===== verification/BeaconClient.thy ===== *)
theory BeaconClient
  imports HubTypes
begin

section \<open>The beacon: client and providers\<close>

text \<open>
  \<open>beacon/Ultravisor-Beacon-Client.cjs\<close> and \<open>beacon/Ultravisor-Beacon-ProviderRegistry.cjs\<close>: the worker that
  registers at a hub, polls for work over HTTP, has it executed by a provider and reports the outcome. Node
  runs one callback at a time, so the client is a state with the requests that are on their way and the
  items that are being executed; an answer, the end of an execution or the tick of an interval is an event.
  Network, server and providers are outside: what they answer is part of the event. The initialization and
  the shutdown of the providers are not modelled; both are taken to succeed.
\<close>

subsection \<open>Providers\<close>

record provider =
  pvName :: string
  pvCapability :: string
  pvActions :: "string list"
  pvCapabilities :: "string list"

record provider_registry =
  ActionHandlers :: "provider obj"
  DefaultHandlers :: "(provider \<times> string) obj"
  Providers :: "provider obj"
  AggregateCapabilities :: "string list"

definition empty_providers :: provider_registry where
  "empty_providers = \<lparr>ActionHandlers = [], DefaultHandlers = [], Providers = [], AggregateCapabilities = []\<rparr>"

definition handler_key :: "string \<Rightarrow> string \<Rightarrow> string" where
  "handler_key cap act = cap @ '':'' @ act"

definition registerProvider :: "provider \<Rightarrow> provider_registry \<Rightarrow> bool \<times> provider_registry" where
  "registerProvider p reg =
     (if pvCapability p = [] then (False, reg)
      else (True, reg\<lparr>
        ActionHandlers := fold (\<lambda>act. oset (handler_key (pvCapability p) act) p) (pvActions p) (ActionHandlers reg),
        DefaultHandlers := (case pvActions p of [] \<Rightarrow> DefaultHandlers reg
          | act # _ \<Rightarrow> oset (pvCapability p) (p, act) (DefaultHandlers reg)),
        AggregateCapabilities := fold push_new (pvCapabilities p) (AggregateCapabilities reg),
        Providers := oset (pvName p) p (Providers reg)\<rparr>))"

definition loadProviders :: "provider list \<Rightarrow> provider_registry \<Rightarrow> nat \<times> provider_registry" where
  "loadProviders ps reg = fold (\<lambda>p (n, reg). case registerProvider p reg of (ok, reg') \<Rightarrow> (if ok then Suc n else n, reg'))
     ps (0, reg)"

definition resolve :: "string \<Rightarrow> string \<Rightarrow> provider_registry \<Rightarrow> (provider \<times> string) option" where
  "resolve cap act reg =
     (case (if act = [] then None else oget (ActionHandlers reg) (handler_key cap act)) of
        Some p \<Rightarrow> Some (p, act)
      | None \<Rightarrow> oget (DefaultHandlers reg) cap)"

definition getCapabilities :: "provider_registry \<Rightarrow> string list" where
  "getCapabilities reg = AggregateCapabilities reg"

text \<open>Descriptions and settings of the schemas are left out.\<close>

definition getActionSchemas :: "provider_registry \<Rightarrow> (string \<times> string) list" where
  "getActionSchemas reg = concat (map (\<lambda>p. map (\<lambda>act. (pvCapability p, act)) (pvActions p)) (ovals (Providers reg)))"

subsection \<open>Results of an execution\<close>

record execution_result =
  xrOutputs :: "json obj"
  xrLog :: "json list"

text \<open>What the executor answers for an item no provider takes; the file transfer around a provider is not modelled.\<close>

definition unknown_capability :: "string \<Rightarrow> string \<Rightarrow> execution_result" where
  "unknown_capability cap act =
     (let what = cap @ (if act = [] then [] else ''/'' @ act)
      in \<lparr>xrOutputs = [(''StdOut'', JStr (''Unknown capability: '' @ what)), (''ExitCode'', JInt (- 1)), (''Result'', JStr [])],
          xrLog = [JStr (''Beacon Executor: no provider for ['' @ what @ ''].'')]\<rparr>)"

definition item_string :: "string \<Rightarrow> json obj \<Rightarrow> string" where
  "item_string k it = (case jget it k of JStr x \<Rightarrow> x | _ \<Rightarrow> [])"

text \<open>The provider's own execution is the parameter.\<close>

definition executor :: "(provider \<Rightarrow> string \<Rightarrow> json obj \<Rightarrow> string + execution_result) \<Rightarrow> provider_registry \<Rightarrow> json obj \<Rightarrow>
    string + execution_result" where
  "executor execute reg it =
     (let cap = str_or (item_string ''Capability'' it) ''Shell''; act = item_string ''Action'' it
      in (case resolve cap act reg of None \<Rightarrow> Inr (unknown_capability cap act) | Some (p, a) \<Rightarrow> execute p a it))"

subsection \<open>Requests and answers\<close>

datatype purpose = ForStart | ForReconnect

datatype request =
    AuthRequest purpose
  | RegisterRequest purpose
  | DeregisterRequest string
  | PollRequest string
  | HeartbeatRequest string
  | CompleteRequest string "json obj" "json list"
  | ErrorRequest string string
  | ProgressRequest string "json obj"
  | UploadRequest string string "json obj" "json list"

text \<open>A network error, or a status with the body, \<open>None\<close> when it is not JSON, and the session cookie.\<close>

datatype reply = NetworkError string | Reply nat "json obj option" "string option"

record client_config =
  cfgMaxConcurrent :: int

record client =
  clConfig :: client_config
  clBeaconID :: "string option"
  clPollInterval :: bool
  clHeartbeatInterval :: bool
  clLivePolls :: nat
  clLiveHeartbeats :: nat
  clRunning :: bool
  clActiveWorkItems :: int
  clSessionCookie :: "string option"
  clAuthenticating :: bool
  clReconnectTimers :: nat
  clInFlight :: "(nat \<times> request) list"
  clNext :: nat
  clSent :: "request list"
  clExecuting :: "json obj list"
  clAccepted :: "string list"
  clStartResults :: "(string + string) list"

definition initial_client :: "client_config \<Rightarrow> client" where
  "initial_client cfg = \<lparr>clConfig = cfg, clBeaconID = None, clPollInterval = False, clHeartbeatInterval = False,
     clLivePolls = 0, clLiveHeartbeats = 0, clRunning = False, clActiveWorkItems = 0, clSessionCookie = None,
     clAuthenticating = False, clReconnectTimers = 0, clInFlight = [], clNext = 0, clSent = [], clExecuting = [],
     clAccepted = [], clStartResults = []\<rparr>"

definition send :: "request \<Rightarrow> client \<Rightarrow> client" where
  "send r c = c\<lparr>clInFlight := clInFlight c @ [(clNext c, r)], clNext := Suc (clNext c), clSent := clSent c @ [r]\<rparr>"

subsection \<open>Intervals\<close>

text \<open>
  \<open>clLivePolls\<close> counts the intervals that tick, \<open>clPollInterval\<close> says whether the client holds the handle of
  one: an interval whose handle is overwritten ticks on.
\<close>

definition set_intervals :: "client \<Rightarrow> client" where
  "set_intervals c = c\<lparr>clPollInterval := True, clLivePolls := Suc (clLivePolls c),
     clHeartbeatInterval := True, clLiveHeartbeats := Suc (clLiveHeartbeats c)\<rparr>"

definition clear_intervals :: "client \<Rightarrow> client" where
  "clear_intervals c = c\<lparr>clPollInterval := False, clLivePolls := clLivePolls c - (if clPollInterval c then 1 else 0),
     clHeartbeatInterval := False, clLiveHeartbeats := clLiveHeartbeats c - (if clHeartbeatInterval c then 1 else 0)\<rparr>"

subsection \<open>Polling and work\<close>

definition poll :: "client \<Rightarrow> client" where
  "poll c = (case clBeaconID c of
     None \<Rightarrow> c
   | Some b \<Rightarrow> if \<not> clRunning c then c else if cfgMaxConcurrent (clConfig c) \<le> clActiveWorkItems c then c
       else send (PollRequest b) c)"

definition executeWorkItem :: "json obj \<Rightarrow> client \<Rightarrow> client" where
  "executeWorkItem it c = c\<lparr>clActiveWorkItems := clActiveWorkItems c + 1, clExecuting := clExecuting c @ [it],
     clAccepted := clAccepted c @ [item_string ''WorkItemHash'' it]\<rparr>"

definition pollAnswered :: "string + json obj \<Rightarrow> client \<Rightarrow> client" where
  "pollAnswered ans c = (case ans of
     Inl err \<Rightarrow> c
   | Inr body \<Rightarrow> (case jget body ''WorkItem'' of JObj it \<Rightarrow> executeWorkItem it c | _ \<Rightarrow> c))"

definition reportComplete :: "string \<Rightarrow> json obj \<Rightarrow> json list \<Rightarrow> client \<Rightarrow> client" where
  "reportComplete h outs lg = send (CompleteRequest h outs lg)"

definition reportError :: "string \<Rightarrow> string \<Rightarrow> client \<Rightarrow> client" where
  "reportError h msg = send (ErrorRequest h msg)"

definition reportProgress :: "string \<Rightarrow> json obj option \<Rightarrow> client \<Rightarrow> client" where
  "reportProgress h data c = (case data of
     None \<Rightarrow> c | Some d \<Rightarrow> if clRunning c then send (ProgressRequest h d) c else c)"

text \<open>
  The callback of an execution. A file is uploaded before the report; \<open>exists\<close> says whether it is there.
\<close>

definition has_file :: "json obj \<Rightarrow> bool" where
  "has_file outs \<longleftrightarrow> truthy (jget outs ''Result'') \<and> (case jget outs ''OutputSize'' of JNum n \<Rightarrow> 0 < n | _ \<Rightarrow> False)"

definition executionDone :: "json obj \<Rightarrow> string + execution_result \<Rightarrow> bool \<Rightarrow> client \<Rightarrow> client" where
  "executionDone it res exists c0 =
     (let h = item_string ''WorkItemHash'' it;
          c = c0\<lparr>clActiveWorkItems := clActiveWorkItems c0 - 1, clExecuting := remove1 it (clExecuting c0)\<rparr>
      in (case res of
            Inl msg \<Rightarrow> reportError h msg c
          | Inr r \<Rightarrow>
              (if truthy (jget (xrOutputs r) ''ExitCode'') then reportComplete h (xrOutputs r) (xrLog r) c
               else if has_file (xrOutputs r) \<and> exists
               then send (UploadRequest h (case jget (xrOutputs r) ''Result'' of JStr x \<Rightarrow> x | _ \<Rightarrow> []) (xrOutputs r) (xrLog r)) c
               else reportComplete h (xrOutputs r) (xrLog r) c)))"

definition heartbeatTick :: "client \<Rightarrow> client" where
  "heartbeatTick c = (case clBeaconID c of
     None \<Rightarrow> c | Some b \<Rightarrow> if clRunning c then send (HeartbeatRequest b) c else c)"

subsection \<open>Start, stop, reconnect\<close>

definition clientStart :: "client \<Rightarrow> client" where
  "clientStart c = send (AuthRequest ForStart) c"

definition clientStop :: "client \<Rightarrow> client" where
  "clientStop c =
     (let c1 = clear_intervals (c\<lparr>clRunning := False\<rparr>)
      in (case clBeaconID c1 of None \<Rightarrow> c1 | Some b \<Rightarrow> send (DeregisterRequest b) c1))"

definition reconnect :: "client \<Rightarrow> client" where
  "reconnect c = (if clAuthenticating c then c
     else send (AuthRequest ForReconnect) ((clear_intervals (c\<lparr>clAuthenticating := True\<rparr>))\<lparr>clSessionCookie := None\<rparr>))"

definition retryLater :: "client \<Rightarrow> client" where
  "retryLater c = c\<lparr>clAuthenticating := False, clReconnectTimers := Suc (clReconnectTimers c)\<rparr>"

definition registered_id :: "json obj \<Rightarrow> string option" where
  "registered_id body = (case jget body ''BeaconID'' of JStr b \<Rightarrow> Some b | _ \<Rightarrow> None)"

definition startRegistered :: "string + json obj \<Rightarrow> client \<Rightarrow> client" where
  "startRegistered ans c = (case ans of
     Inl err \<Rightarrow> c\<lparr>clStartResults := clStartResults c @ [Inl err]\<rparr>
   | Inr body \<Rightarrow>
      (let c1 = poll (set_intervals (c\<lparr>clBeaconID := registered_id body, clRunning := True\<rparr>))
       in c1\<lparr>clStartResults := clStartResults c1 @ [Inr (case registered_id body of None \<Rightarrow> [] | Some b \<Rightarrow> b)]\<rparr>))"

definition reconnectRegistered :: "string + json obj \<Rightarrow> client \<Rightarrow> client" where
  "reconnectRegistered ans c = (case ans of
     Inl err \<Rightarrow> retryLater c
   | Inr body \<Rightarrow> poll (set_intervals (c\<lparr>clBeaconID := registered_id body, clAuthenticating := False\<rparr>)))"

definition authenticated :: "purpose \<Rightarrow> string + json obj \<Rightarrow> client \<Rightarrow> client" where
  "authenticated p ans c = (case (ans, p) of
     (Inl err, ForStart) \<Rightarrow> c\<lparr>clStartResults := clStartResults c @ [Inl err]\<rparr>
   | (Inl err, ForReconnect) \<Rightarrow> retryLater c
   | (Inr body, _) \<Rightarrow> send (RegisterRequest p) c)"

text \<open>The answer to \<open>_authenticate\<close>, which keeps the cookie of a good status even if the body is not JSON.\<close>

definition authAnswer :: "reply \<Rightarrow> client \<Rightarrow> (string + json obj) \<times> client" where
  "authAnswer rep c = (case rep of
     NetworkError e \<Rightarrow> (Inl e, c)
   | Reply st body cookie \<Rightarrow>
      (if 400 \<le> st then (Inl (''Authentication failed with HTTP '' @ show_nat st), c)
       else let c1 = (case cookie of None \<Rightarrow> c | Some k \<Rightarrow> c\<lparr>clSessionCookie := Some k\<rparr>)
         in (case body of None \<Rightarrow> (Inl ''Invalid JSON in auth response'', c1) | Some b \<Rightarrow> (Inr b, c1))))"

text \<open>\<open>_httpRequest\<close>: a 401 starts a reconnection before the callback sees the error.\<close>

definition httpAnswer :: "reply \<Rightarrow> client \<Rightarrow> (string + json obj) \<times> client" where
  "httpAnswer rep c = (case rep of
     NetworkError e \<Rightarrow> (Inl e, c)
   | Reply st body cookie \<Rightarrow>
      (if st = 401 then (Inl ''Unauthorized - reconnecting'', reconnect c)
       else (case body of
           None \<Rightarrow> (Inl ''Invalid JSON response'', c)
         | Some b \<Rightarrow> if 400 \<le> st
             then (Inl (case jget b ''Error'' of JStr e \<Rightarrow> str_or e (''HTTP '' @ show_nat st) | _ \<Rightarrow> ''HTTP '' @ show_nat st), c)
             else (Inr b, c))))"

definition answered :: "request \<Rightarrow> reply \<Rightarrow> client \<Rightarrow> client" where
  "answered r rep c = (case r of
     AuthRequest p \<Rightarrow> (case authAnswer rep c of (ans, c1) \<Rightarrow> authenticated p ans c1)
   | UploadRequest h path outs lg \<Rightarrow> reportComplete h outs lg c
   | RegisterRequest ForStart \<Rightarrow> (case httpAnswer rep c of (ans, c1) \<Rightarrow> startRegistered ans c1)
   | RegisterRequest ForReconnect \<Rightarrow> (case httpAnswer rep c of (ans, c1) \<Rightarrow> reconnectRegistered ans c1)
   | PollRequest b \<Rightarrow> (case httpAnswer rep c of (ans, c1) \<Rightarrow> pollAnswered ans c1)
   | _ \<Rightarrow> snd (httpAnswer rep c))"

subsection \<open>Events\<close>

datatype client_event =
    Start
  | Stop
  | PollTick
  | HeartbeatTick
  | ReconnectTick
  | Answer nat reply
  | Executed "json obj" "string + execution_result" bool
  | ProgressReported string "json obj option"

text \<open>An interval ticks while it lives, a request is answered once, an execution ends once.\<close>

fun client_apply :: "client_event \<Rightarrow> client \<Rightarrow> client" where
  "client_apply Start c = clientStart c"
| "client_apply Stop c = clientStop c"
| "client_apply PollTick c = (if 0 < clLivePolls c then poll c else c)"
| "client_apply HeartbeatTick c = (if 0 < clLiveHeartbeats c then heartbeatTick c else c)"
| "client_apply ReconnectTick c = (if 0 < clReconnectTimers c then reconnect (c\<lparr>clReconnectTimers := clReconnectTimers c - 1\<rparr>) else c)"
| "client_apply (Answer i rep) c = (case map_of (clInFlight c) i of
     None \<Rightarrow> c | Some r \<Rightarrow> answered r rep (c\<lparr>clInFlight := AList.delete i (clInFlight c)\<rparr>))"
| "client_apply (Executed it res exists) c = (if it \<in> set (clExecuting c) then executionDone it res exists c else c)"
| "client_apply (ProgressReported h d) c = reportProgress h d c"

definition client_run :: "client_event list \<Rightarrow> client \<Rightarrow> client" where
  "client_run evs c = fold client_apply evs c"

end
