(* ===== verification/BeaconClientProperties.thy ===== *)
theory BeaconClientProperties
  imports BeaconClient
begin

section \<open>Properties of the beacon client\<close>

text \<open>
  Every item a client takes is reported once, its intervals do not multiply, a stop that meets an expired
  session brings it back; and what its providers advertise is what they take.
\<close>

lemma client_run_simps [simp]:
  "client_run [] c = c" "client_run (e # evs) c = client_run evs (client_apply e c)"
  "client_run (evs @ evs') c = client_run evs' (client_run evs c)"
  by (simp_all add: client_run_def)

subsection \<open>Each item is reported once\<close>

fun report_of :: "request \<Rightarrow> string list" where
  "report_of (CompleteRequest h outs lg) = [h]"
| "report_of (ErrorRequest h msg) = [h]"
| "report_of r = []"

fun upload_of :: "request \<Rightarrow> string list" where
  "upload_of (UploadRequest h path outs lg) = [h]"
| "upload_of r = []"

definition reported :: "client \<Rightarrow> string multiset" where
  "reported c = mset (concat (map report_of (clSent c)))"

definition uploading :: "client \<Rightarrow> string multiset" where
  "uploading c = mset (concat (map (upload_of \<circ> snd) (clInFlight c)))"

definition executing :: "client \<Rightarrow> string multiset" where
  "executing c = mset (map (item_string ''WorkItemHash'') (clExecuting c))"

definition requests_ok :: "client \<Rightarrow> bool" where
  "requests_ok c \<longleftrightarrow> distinct (map fst (clInFlight c)) \<and> (\<forall>i \<in> fst ` set (clInFlight c). i < clNext c)"

definition conserved :: "client \<Rightarrow> bool" where
  "conserved c \<longleftrightarrow> requests_ok c \<and> mset (clAccepted c) = executing c + uploading c + reported c \<and>
     clActiveWorkItems c = int (length (clExecuting c))"

lemmas count_defs = conserved_def requests_ok_def executing_def uploading_def reported_def

text \<open>Fields that none of this depends on.\<close>

lemma conserved_cong:
  assumes "conserved c" "clInFlight c' = clInFlight c" "clNext c' = clNext c" "clSent c' = clSent c" "clExecuting c' = clExecuting c"
    "clAccepted c' = clAccepted c" "clActiveWorkItems c' = clActiveWorkItems c"
  shows "conserved c'"
  using assms by (simp add: count_defs)

lemma conserved_send: "report_of r = [] \<Longrightarrow> upload_of r = [] \<Longrightarrow> conserved c \<Longrightarrow> conserved (send r c)"
  by (auto simp: count_defs send_def)

lemma conserved_poll: "conserved c \<Longrightarrow> conserved (poll c)"
  by (simp add: poll_def conserved_send split: option.split)

lemma conserved_reconnect: "conserved c \<Longrightarrow> conserved (reconnect c)"
  unfolding reconnect_def
  by (auto intro!: conserved_send intro: conserved_cong simp: clear_intervals_def)

lemma conserved_http: "conserved c \<Longrightarrow> conserved (snd (httpAnswer rep c))"
  by (simp add: httpAnswer_def conserved_reconnect split: reply.split option.split)

lemma conserved_retry: "conserved c \<Longrightarrow> conserved (retryLater c)"
  by (erule conserved_cong) (simp_all add: retryLater_def)

lemma conserved_registered: "conserved c \<Longrightarrow> conserved (startRegistered ans c)" "conserved c \<Longrightarrow> conserved (reconnectRegistered ans c)"
proof -
  assume c: "conserved c"
  have polled: "conserved (poll (set_intervals (c\<lparr>clBeaconID := b, clRunning := True\<rparr>)))"
      "conserved (poll (set_intervals (c\<lparr>clBeaconID := b, clAuthenticating := False\<rparr>)))" for b
    by (rule conserved_poll, rule conserved_cong [OF c], simp_all add: set_intervals_def)+
  have result: "conserved c' \<Longrightarrow> conserved (c'\<lparr>clStartResults := xs\<rparr>)" for c' xs
    by (erule conserved_cong) simp_all
  show "conserved (startRegistered ans c)" "conserved (reconnectRegistered ans c)"
    using c polled result by (simp_all add: startRegistered_def reconnectRegistered_def Let_def conserved_retry split: sum.split)
qed

lemma conserved_auth: "conserved c \<Longrightarrow> conserved (authenticated p (fst (authAnswer rep c)) (snd (authAnswer rep c)))"
proof -
  assume c: "conserved c"
  have "conserved (snd (authAnswer rep c))"
    using c by (auto simp: authAnswer_def Let_def intro: conserved_cong split: reply.split option.split)
  moreover have "conserved c' \<Longrightarrow> conserved (c'\<lparr>clStartResults := xs\<rparr>)" for c' xs
    by (erule conserved_cong) simp_all
  ultimately show ?thesis
    by (simp add: authenticated_def conserved_retry conserved_send split: sum.split purpose.split)
qed

lemma conserved_accept: "conserved c \<Longrightarrow> conserved (executeWorkItem it c)"
  by (simp add: count_defs executeWorkItem_def)

lemma conserved_poll_answer: "conserved c \<Longrightarrow> conserved (pollAnswered ans c)"
  by (simp add: pollAnswered_def conserved_accept split: sum.split json.split)

text \<open>One report is due.\<close>

definition owing :: "string \<Rightarrow> client \<Rightarrow> bool" where
  "owing h c \<longleftrightarrow> requests_ok c \<and> mset (clAccepted c) = add_mset h (executing c + uploading c + reported c) \<and>
     clActiveWorkItems c = int (length (clExecuting c))"

lemma send_counts:
  "executing (send r c) = executing c" "reported (send r c) = reported c + mset (report_of r)"
  "uploading (send r c) = uploading c + mset (upload_of r)"
  "requests_ok c \<Longrightarrow> requests_ok (send r c)" "clAccepted (send r c) = clAccepted c"
  "clActiveWorkItems (send r c) = clActiveWorkItems c" "clExecuting (send r c) = clExecuting c"
  by (auto simp: executing_def reported_def uploading_def requests_ok_def send_def)

lemma owing_send:
  "owing h c \<Longrightarrow> report_of r = [h] \<Longrightarrow> upload_of r = [] \<Longrightarrow> conserved (send r c)"
  "owing h c \<Longrightarrow> report_of r = [] \<Longrightarrow> upload_of r = [h] \<Longrightarrow> conserved (send r c)"
  by (simp_all add: owing_def conserved_def send_counts)

lemma owing_executed:
  assumes "conserved c" "it \<in> set (clExecuting c)"
  shows "owing (item_string ''WorkItemHash'' it)
    (c\<lparr>clActiveWorkItems := clActiveWorkItems c - 1, clExecuting := remove1 it (clExecuting c)\<rparr>)" (is "owing _ ?c")
proof -
  have "executing c = image_mset (item_string ''WorkItemHash'') (mset (clExecuting c))" by (simp add: executing_def)
  also have "mset (clExecuting c) = add_mset it (mset (remove1 it (clExecuting c)))" using assms(2) by simp
  finally have e: "executing c = add_mset (item_string ''WorkItemHash'' it) (executing ?c)" by (simp add: executing_def)
  have len: "length (remove1 it (clExecuting c)) = length (clExecuting c) - 1" "0 < length (clExecuting c)"
    using assms(2) length_pos_if_in_set by (auto simp: length_remove1)
  then have "int (length (remove1 it (clExecuting c))) = int (length (clExecuting c)) - 1"
    by (simp add: int_ops(6) Suc_le_eq)
  with assms(1) e show ?thesis
    unfolding owing_def conserved_def by (simp add: uploading_def reported_def requests_ok_def)
qed

lemma conserved_done:
  assumes "conserved c" "it \<in> set (clExecuting c)"
  shows "conserved (executionDone it res exists c)"
  using owing_send [OF owing_executed [OF assms]]
  by (simp add: executionDone_def Let_def reportError_def reportComplete_def split: sum.split)

lemma answered_counts:
  assumes "conserved c" "map_of (clInFlight c) i = Some r"
  shows "uploading c = mset (upload_of r) + uploading (c\<lparr>clInFlight := AList.delete i (clInFlight c)\<rparr>)"
    "requests_ok (c\<lparr>clInFlight := AList.delete i (clInFlight c)\<rparr>)"
proof -
  have d: "distinct (map fst (clInFlight c))" using assms(1) by (simp add: conserved_def requests_ok_def)
  have "mset (concat (map (upload_of \<circ> snd) xs)) = mset (upload_of r) + mset (concat (map (upload_of \<circ> snd) (AList.delete i xs)))"
    if "distinct (map fst xs)" "map_of xs i = Some r" for xs
    using that
  proof (induction xs)
    case (Cons x xs)
    show ?case
    proof (cases "fst x = i")
      case True
      with Cons.prems have "AList.delete i xs = xs" by simp
      with True Cons.prems show ?thesis by (cases x) auto
    next
      case False
      with Cons show ?thesis by (cases x) auto
    qed
  qed simp
  from this [OF d assms(2)] show "uploading c = mset (upload_of r) + uploading (c\<lparr>clInFlight := AList.delete i (clInFlight c)\<rparr>)"
    by (simp add: uploading_def)
  have "set (AList.delete i xs) \<subseteq> set xs" for xs :: "(nat \<times> request) list"
    by (auto simp: AList.delete_eq)
  then show "requests_ok (c\<lparr>clInFlight := AList.delete i (clInFlight c)\<rparr>)"
    using assms(1) AList.distinct_delete [OF d] unfolding conserved_def requests_ok_def by (simp add: image_iff) (meson subsetD)
qed

lemma conserved_answer:
  assumes "conserved c" "map_of (clInFlight c) i = Some r"
  shows "conserved (answered r rep (c\<lparr>clInFlight := AList.delete i (clInFlight c)\<rparr>))" (is "conserved (answered r rep ?c)")
proof (cases "\<exists>h path outs lg. r = UploadRequest h path outs lg")
  case True
  then obtain h path outs lg where r: "r = UploadRequest h path outs lg" by blast
  have "owing h ?c"
    using assms(1) answered_counts [OF assms] unfolding r owing_def conserved_def
    by (simp add: executing_def reported_def)
  from owing_send(1) [OF this, of "CompleteRequest h outs lg"] show ?thesis
    by (simp add: r answered_def reportComplete_def)
next
  case False
  then have "upload_of r = []" by (cases r) auto
  with assms(1) answered_counts [OF assms] have "conserved ?c"
    unfolding conserved_def by (simp add: executing_def reported_def)
  moreover from this have "conserved (snd (httpAnswer rep ?c))" by (rule conserved_http)
  ultimately show ?thesis
    using False conserved_auth [of ?c]
    by (auto simp: answered_def conserved_registered conserved_poll_answer case_prod_beta split: request.split purpose.split)
qed

lemma conserved_clear: "conserved c \<Longrightarrow> conserved (clear_intervals c)"
  by (erule conserved_cong) (simp_all add: clear_intervals_def)

lemma conserved_apply: "conserved c \<Longrightarrow> conserved (client_apply ev c)"
proof -
  assume c: "conserved c"
  have "conserved (c\<lparr>clRunning := False\<rparr>)" "conserved (c\<lparr>clReconnectTimers := n\<rparr>)" for n
    by (rule conserved_cong [OF c]; simp)+
  with c show ?thesis
    by (cases ev) (simp_all add: clientStart_def clientStop_def Let_def conserved_send conserved_poll conserved_clear heartbeatTick_def
        conserved_reconnect conserved_answer conserved_done reportProgress_def split: option.split)
qed

lemma conserved_run: "conserved c \<Longrightarrow> conserved (client_run evs c)"
  by (induction evs arbitrary: c) (simp_all add: conserved_apply)

lemma conserved_initial: "conserved (initial_client cfg)"
  by (simp add: initial_client_def count_defs)



subsection \<open>A stopped client that comes back\<close>

lemma fresh_request:
  assumes "conserved c"
  shows "map_of (clInFlight c) (clNext c) = None" "map_of (clInFlight c) (Suc (clNext c)) = None"
    "map_of (clInFlight c) (Suc (Suc (clNext c))) = None"
proof -
  have bound: "i < clNext c" if "(i, r) \<in> set (clInFlight c)" for i r
    using assms that by (force simp: conserved_def requests_ok_def)
  show "map_of (clInFlight c) (clNext c) = None" "map_of (clInFlight c) (Suc (clNext c)) = None"
    "map_of (clInFlight c) (Suc (Suc (clNext c))) = None"
    using bound by (auto simp: map_of_eq_None_iff dest!: bound)
qed

lemma answer_latest:
  "map_of xs n = None \<Longrightarrow> map_of (xs @ [(n, r)]) n = Some r" "map_of xs n = None \<Longrightarrow> AList.delete n (xs @ [(n, r)]) = xs"
proof -
  assume none: "map_of xs n = None"
  then show "map_of (xs @ [(n, r)]) n = Some r" by (simp add: map_add_def)
  from none have "AList.delete n xs = xs" by (simp add: map_of_eq_None_iff)
  then show "AList.delete n (xs @ [(n, r)]) = xs" by (simp add: AList.delete_eq)
qed

definition was_sent :: "request \<Rightarrow> client \<Rightarrow> client" where
  "was_sent r c = c\<lparr>clNext := Suc (clNext c), clSent := clSent c @ [r]\<rparr>"

lemma answer_sent:
  "map_of (clInFlight c) (clNext c) = None \<Longrightarrow> n = clNext c \<Longrightarrow> client_apply (Answer n rep) (send r c) = answered r rep (was_sent r c)"
  by (simp add: send_def answer_latest was_sent_def del: map_of_append)

lemma stopped_polls: "\<not> clRunning c \<Longrightarrow> client_run (replicate n PollTick) c = c"
  by (induction n) (simp_all add: poll_def split: option.split)

text \<open>
  A client that is stopped while its session has expired comes back: the answer 401 to its
  deregistration starts a reconnection, which does not ask whether the client is running; it registers a
  beacon again and starts its intervals, but as it is not running it never polls, and the intervals keep the
  process alive.
\<close>

theorem stopped_client_comes_back:
  assumes "c = client_run evs (initial_client cfg)" "clBeaconID c = Some b" "\<not> clAuthenticating c"
    and "status < 400" "registered_id beacon = Some b'"
    and "c' = client_run [Stop, Answer (clNext c) (Reply 401 body cookie), Answer (Suc (clNext c)) (Reply status (Some session) cookie),
      Answer (Suc (Suc (clNext c))) (Reply status (Some beacon) None)] c"
  shows "clSent c' = clSent c @ [DeregisterRequest b, AuthRequest ForReconnect, RegisterRequest ForReconnect] \<and>
    clBeaconID c' = Some b' \<and> \<not> clRunning c' \<and> clPollInterval c' \<and> clHeartbeatInterval c' \<and>
    client_run (replicate n PollTick) c' = c'"
proof -
  note fresh = fresh_request [OF conserved_run [OF conserved_initial [of cfg], of evs], folded assms(1)]
  have status: "status \<noteq> 401" "\<not> 400 \<le> status" using assms(4) by simp_all
  define c1 where "c1 = clear_intervals (c\<lparr>clRunning := False\<rparr>)"
  have c1: "clInFlight c1 = clInFlight c" "clNext c1 = clNext c" "clSent c1 = clSent c" "clBeaconID c1 = Some b"
      "\<not> clRunning c1" "\<not> clAuthenticating c1"
    using assms(2,3) by (simp_all add: c1_def clear_intervals_def)
  have stop: "client_apply Stop c = send (DeregisterRequest b) c1"
    using c1(4) by (simp add: clientStop_def c1_def Let_def)
  define c2 where "c2 = (clear_intervals ((was_sent (DeregisterRequest b) c1)\<lparr>clAuthenticating := True\<rparr>))\<lparr>clSessionCookie := None\<rparr>"
  have c2: "clInFlight c2 = clInFlight c" "clNext c2 = Suc (clNext c)" "clSent c2 = clSent c @ [DeregisterRequest b]" "\<not> clRunning c2"
    using c1 by (simp_all add: c2_def clear_intervals_def was_sent_def)
  have rejected: "client_apply (Answer (clNext c) (Reply 401 body cookie)) (client_apply Stop c) = send (AuthRequest ForReconnect) c2"
    unfolding stop using c1 fresh(1)
    by (simp add: answer_sent answered_def httpAnswer_def reconnect_def c2_def was_sent_def del: client_apply.simps)
  obtain c3 where c3: "authAnswer (Reply status (Some session) cookie) (was_sent (AuthRequest ForReconnect) c2) = (Inr session, c3)"
      "clInFlight c3 = clInFlight c" "clNext c3 = Suc (Suc (clNext c))"
      "clSent c3 = clSent c @ [DeregisterRequest b, AuthRequest ForReconnect]" "\<not> clRunning c3"
    using status c2 by (cases cookie) (simp_all add: authAnswer_def was_sent_def Let_def)
  have accepted: "client_apply (Answer (Suc (clNext c)) (Reply status (Some session) cookie)) (send (AuthRequest ForReconnect) c2) =
      send (RegisterRequest ForReconnect) c3"
    using c2 c3(1) fresh(2) by (simp add: answer_sent answered_def authenticated_def del: client_apply.simps)
  have "c' = reconnectRegistered (Inr beacon) (was_sent (RegisterRequest ForReconnect) c3)"
    using c3 fresh(3) status by (simp add: assms(6) rejected accepted answer_sent answered_def httpAnswer_def del: client_apply.simps)
  then have "clSent c' = clSent c @ [DeregisterRequest b, AuthRequest ForReconnect, RegisterRequest ForReconnect] \<and>
    clBeaconID c' = Some b' \<and> \<not> clRunning c' \<and> clPollInterval c' \<and> clHeartbeatInterval c'"
    using c3 assms(5) by (simp add: reconnectRegistered_def poll_def set_intervals_def was_sent_def)
  with stopped_polls show ?thesis by blast
qed

subsection \<open>What the providers take\<close>

lemma loadProviders_snoc:
  "loadProviders (ps @ [p]) reg = (case loadProviders ps reg of (n, reg') \<Rightarrow>
     case registerProvider p reg' of (ok, reg'') \<Rightarrow> (if ok then Suc n else n, reg''))"
  by (simp add: loadProviders_def split: prod.split)

text \<open>
  An item that names only a capability goes to the first action of the provider that was registered last
  for it; a capability whose providers declare no action is advertised and taken by none.
\<close>

lemma default_provider:
  assumes "\<forall>p \<in> set ps. pvCapability p \<noteq> []"
  shows "oget (DefaultHandlers (snd (loadProviders ps empty_providers))) cap =
    (case filter (\<lambda>p. pvCapability p = cap \<and> pvActions p \<noteq> []) (rev ps) of
       [] \<Rightarrow> None | p # qs \<Rightarrow> Some (p, hd (pvActions p)))"
  using assms
proof (induction ps rule: rev_induct)
  case Nil
  show ?case by (simp add: loadProviders_def empty_providers_def)
next
  case (snoc p ps)
  obtain n reg where reg: "loadProviders ps empty_providers = (n, reg)" by fastforce
  with snoc show ?case
    by (auto simp: loadProviders_snoc registerProvider_def obj_simps split: list.split)
qed

lemma advertised_iff:
  assumes "\<forall>p \<in> set ps. pvCapability p \<noteq> [] \<and> pvCapabilities p = [pvCapability p]"
  shows "cap \<in> set (getCapabilities (snd (loadProviders ps empty_providers))) \<longleftrightarrow> (\<exists>p \<in> set ps. pvCapability p = cap)"
  using assms
proof (induction ps rule: rev_induct)
  case Nil
  show ?case by (simp add: loadProviders_def empty_providers_def getCapabilities_def)
next
  case (snoc p ps)
  obtain n reg where reg: "loadProviders ps empty_providers = (n, reg)" by fastforce
  with snoc show ?case
    by (auto simp: loadProviders_snoc registerProvider_def getCapabilities_def)
qed


subsection \<open>A concrete client\<close>

abbreviation demo_registered :: "json obj" where
  "demo_registered \<equiv> [(''BeaconID'', JStr ''bcn-1'')]"

definition demo_boot :: "client_event list" where
  "demo_boot = [Start, Answer 0 (Reply 200 (Some []) None), Answer 1 (Reply 200 (Some demo_registered) None)]"

abbreviation demo_client :: client where
  "demo_client \<equiv> client_run demo_boot (initial_client \<lparr>cfgMaxConcurrent = 1\<rparr>)"

lemma demo_client_facts: "clBeaconID demo_client = Some ''bcn-1''" "\<not> clAuthenticating demo_client" "clNext demo_client = 3"
  by code_simp+

theorem stopped_client_comes_back_witness:
  "\<not> clRunning (client_run [Stop, Answer 3 (Reply 401 None None), Answer 4 (Reply 200 (Some []) None),
      Answer 5 (Reply 200 (Some demo_registered) None)] demo_client) \<and>
   clPollInterval (client_run [Stop, Answer 3 (Reply 401 None None), Answer 4 (Reply 200 (Some []) None),
      Answer 5 (Reply 200 (Some demo_registered) None)] demo_client)"
proof -
  have "registered_id demo_registered = Some ''bcn-1''" by code_simp
  from stopped_client_comes_back [OF refl demo_client_facts(1,2) _ this refl, of 200 None None "[]"] show ?thesis
    by (simp add: demo_client_facts(3) numeral_eq_Suc del: client_run_simps)
qed

end
