(* ===== verification/JsonText.thy ===== *)
theory JsonText
  imports Prelude
begin

section \<open>Values as text\<close>

text \<open>
  What the tasks use of the language to turn values into text and back: \<open>String(v)\<close>, \<open>Number(v)\<close>,
  \<open>JSON.stringify\<close>, \<open>JSON.parse\<close> and the string methods. A string is a list of code units below 256 and a
  number is an exact rational, printed in decimal notation with at most 17 digits of fraction. A time
  stamp is a string whose text is the argument \<open>stamp\<close>.
\<close>

subsection \<open>Strings\<close>

definition quote_char :: char where "quote_char = CHR 0x22"
definition backslash :: char where "backslash = CHR 0x5C"
definition newline :: char where "newline = CHR 0x0A"

text \<open>\<open>s.trim()\<close>\<close>

definition js_trim :: "string \<Rightarrow> string" where
  "js_trim s = rev (dropWhile is_blank (rev (dropWhile is_blank s)))"

definition to_lower :: "string \<Rightarrow> string" where
  "to_lower s = map lower_char s"

text \<open>The rest of a string behind a prefix; and \<open>s.indexOf(p) > -1\<close>.\<close>

fun strip_prefix :: "string \<Rightarrow> string \<Rightarrow> string option" where
  "strip_prefix [] s = Some s"
| "strip_prefix (p # ps) [] = None"
| "strip_prefix (p # ps) (c # cs) = (if p = c then strip_prefix ps cs else None)"

definition str_starts :: "string \<Rightarrow> string \<Rightarrow> bool" where
  "str_starts s p \<longleftrightarrow> strip_prefix p s \<noteq> None"

definition str_ends :: "string \<Rightarrow> string \<Rightarrow> bool" where
  "str_ends s p \<longleftrightarrow> strip_prefix (rev p) (rev s) \<noteq> None"

fun str_contains :: "string \<Rightarrow> string \<Rightarrow> bool" where
  "str_contains [] p = (p = [])"
| "str_contains (c # cs) p = (str_starts (c # cs) p \<or> str_contains cs p)"

lemma strip_prefix_Some: "strip_prefix p s = Some r \<Longrightarrow> s = p @ r"
  by (induction p s rule: strip_prefix.induct) (auto split: if_splits)

lemma strip_prefix_append [simp]: "strip_prefix p (p @ r) = Some r"
  by (induction p) auto

lemma strip_prefix_length: "strip_prefix p s = Some r \<Longrightarrow> length s = length p + length r"
  by (auto dest: strip_prefix_Some)

text \<open>
  \<open>s.split(d)\<close> on a separator of any length: the leftmost occurrence ends a part; the empty separator
  gives the characters. \<open>parts.join(d)\<close>.
\<close>

function split_by :: "string \<Rightarrow> string \<Rightarrow> string \<Rightarrow> string list" where
  "split_by d w s =
     (if d = [] then map (\<lambda>c. [c]) s
      else case strip_prefix d s of
          Some r \<Rightarrow> rev w # split_by d [] r
        | None \<Rightarrow> (case s of [] \<Rightarrow> [rev w] | c # cs \<Rightarrow> split_by d (c # w) cs))"
  by auto
termination
  by (relation "measure (\<lambda>(d, w, s). length s)") (auto dest: strip_prefix_length)

declare split_by.simps [simp del]

definition js_split :: "string \<Rightarrow> string \<Rightarrow> string list" where
  "js_split s d = split_by d [] s"

fun join_by :: "string \<Rightarrow> string list \<Rightarrow> string" where
  "join_by d [] = []"
| "join_by d [w] = w"
| "join_by d (w # ws) = w @ d @ join_by d ws"

lemma join_by_Cons: "ws \<noteq> [] \<Longrightarrow> join_by d (w # ws) = w @ d @ join_by d ws"
  by (cases ws) auto

lemma split_by_nonempty: "d \<noteq> [] \<Longrightarrow> split_by d w s \<noteq> []"
  by (induction d w s rule: split_by.induct)
    (subst split_by.simps, auto split: option.split list.split)

lemma join_split_by: "d \<noteq> [] \<Longrightarrow> join_by d (split_by d w s) = rev w @ s"
proof (induction d w s rule: split_by.induct)
  case (1 d w s)
  show ?case
  proof (cases "strip_prefix d s")
    case None
    with 1 show ?thesis by (subst split_by.simps) (cases s, auto)
  next
    case (Some r)
    with 1 have "join_by d (split_by d [] r) = r" by simp
    with Some 1(3) show ?thesis
      by (subst split_by.simps) (auto simp: join_by_Cons split_by_nonempty dest: strip_prefix_Some)
  qed
qed

lemma join_split_chars: "join_by [] (map (\<lambda>c. [c]) s) = s"
proof (induction s)
  case (Cons c s)
  then show ?case by (cases s) auto
qed simp

lemma join_js_split: "join_by d (js_split s d) = s"
  by (cases "d = []")
    (simp_all add: js_split_def join_split_by split_by.simps [of "[]"] join_split_chars)

subsection \<open>Numbers\<close>

fun fraction_digits :: "nat \<Rightarrow> rat \<Rightarrow> string" where
  "fraction_digits 0 r = []"
| "fraction_digits (Suc n) r =
     (if r = 0 then [] else let d = \<lfloor>10 * r\<rfloor> in digit_char d # fraction_digits n (10 * r - of_int d))"

definition show_rat :: "rat \<Rightarrow> string" where
  "show_rat q =
     (let a = \<bar>q\<bar>; n = \<lfloor>a\<rfloor>; fs = fraction_digits 17 (a - of_int n)
      in (if q < 0 then ''-'' else []) @ show_digits n @ (if fs = [] then [] else CHR ''.'' # fs))"

lemma show_rat_int: "show_rat (of_int n) = show_int n"
proof (cases "n < 0")
  case True
  have "\<bar>of_int n :: rat\<bar> = of_int (- n)" using True by (simp flip: of_int_abs)
  with True show ?thesis
    by (simp add: show_rat_def show_int_def Let_def del: of_int_minus fraction_digits.simps(2))
      (simp add: numeral_eq_Suc)
next
  case False
  then have "\<bar>of_int n :: rat\<bar> = of_int n" by simp
  with False show ?thesis by (simp add: show_rat_def show_int_def Let_def numeral_eq_Suc)
qed

text \<open>
  A number of the language: not a number, an infinity, or finite. A comparison with NaN is false.
\<close>

datatype num_val = NaN | Infin bool | Fin rat

fun num_less :: "num_val \<Rightarrow> num_val \<Rightarrow> bool" where
  "num_less (Fin a) (Fin b) = (a < b)"
| "num_less (Fin a) (Infin p) = p"
| "num_less (Infin p) (Fin b) = (\<not> p)"
| "num_less (Infin p) (Infin q) = (\<not> p \<and> q)"
| "num_less _ _ = False"

fun num_le :: "num_val \<Rightarrow> num_val \<Rightarrow> bool" where
  "num_le (Fin a) (Fin b) = (a \<le> b)"
| "num_le (Fin a) (Infin p) = p"
| "num_le (Infin p) (Fin b) = (\<not> p)"
| "num_le (Infin p) (Infin q) = (p \<longrightarrow> q)"
| "num_le _ _ = False"

text \<open>A run of digits with its value and length, and the rest.\<close>

fun take_digits :: "int \<Rightarrow> string \<Rightarrow> int \<times> nat \<times> string" where
  "take_digits acc [] = (acc, 0, [])"
| "take_digits acc (c # cs) =
     (case digit_val c of
        None \<Rightarrow> (acc, 0, c # cs)
      | Some d \<Rightarrow> (case take_digits (10 * acc + d) cs of (a, n, r) \<Rightarrow> (a, Suc n, r)))"

lemma take_digits_append:
  "\<forall>c \<in> set ds. digit_val c \<noteq> None \<Longrightarrow>
    (case r of [] \<Rightarrow> True | c # _ \<Rightarrow> digit_val c = None) \<Longrightarrow>
    take_digits a (ds @ r) = (read_digits a ds, length ds, r)"
proof (induction ds arbitrary: a)
  case Nil
  then show ?case by (cases r) auto
next
  case (Cons d ds)
  then show ?case by auto
qed

lemma take_digits_length: "take_digits a s = (b, n, r) \<Longrightarrow> length s = n + length r"
  by (induction a s arbitrary: b n rule: take_digits.induct) (auto split: option.splits prod.splits)

text \<open>The optional fraction and exponent of a literal; \<open>None\<close> where a point or an \<open>e\<close> has no digit.\<close>

definition read_fraction :: "string \<Rightarrow> (rat \<times> string) option" where
  "read_fraction s = (case s of
     c # r \<Rightarrow>
       (if c = CHR ''.''
        then (case take_digits 0 r of (a, n, r') \<Rightarrow>
                if n = 0 then None else Some (of_int a / 10 ^ n, r'))
        else Some (0, s))
   | [] \<Rightarrow> Some (0, []))"

definition read_sign :: "string \<Rightarrow> bool \<times> string" where
  "read_sign s = (case s of
     c # r \<Rightarrow> (if c = CHR ''-'' then (True, r) else if c = CHR ''+'' then (False, r) else (False, s))
   | [] \<Rightarrow> (False, []))"

definition read_exponent :: "string \<Rightarrow> (rat \<times> string) option" where
  "read_exponent s = (case s of
     c # r \<Rightarrow>
       (if c = CHR ''e'' \<or> c = CHR ''E''
        then (let (neg, r1) = read_sign r; (a, n, r2) = take_digits 0 r1
              in if n = 0 then None
                 else Some (if neg then 1 / 10 ^ nat a else 10 ^ nat a, r2))
        else Some (1, s))
   | [] \<Rightarrow> Some (1, []))"

text \<open>
  \<open>Number(s)\<close> on a string without the blanks around it: empty is 0; a decimal literal, which may begin
  or end with its point; \<open>Infinity\<close>; a literal in base 16, 8 or 2 without sign.
\<close>

definition unsigned_decimal :: "string \<Rightarrow> num_val" where
  "unsigned_decimal s =
     (let (a, n, r) = take_digits 0 s;
          (b, m, r1) = (case r of c # r' \<Rightarrow> if c = CHR ''.'' then take_digits 0 r' else (0, 0, r)
                        | [] \<Rightarrow> (0, 0, []))
      in if n = 0 \<and> m = 0 then NaN
         else case read_exponent r1 of
             None \<Rightarrow> NaN
           | Some (e, r2) \<Rightarrow> if r2 = [] then Fin ((of_int a + of_int b / 10 ^ m) * e) else NaN)"

definition negate :: "num_val \<Rightarrow> num_val" where
  "negate v = (case v of NaN \<Rightarrow> NaN | Infin p \<Rightarrow> Infin (\<not> p) | Fin q \<Rightarrow> Fin (- q))"

definition hex_val :: "char \<Rightarrow> int option" where
  "hex_val c =
     (let n = of_char (lower_char c) :: int
      in if 48 \<le> n \<and> n \<le> 57 then Some (n - 48)
         else if 97 \<le> n \<and> n \<le> 102 then Some (n - 87) else None)"

fun read_base :: "int \<Rightarrow> int \<Rightarrow> string \<Rightarrow> num_val" where
  "read_base b acc [] = Fin (of_int acc)"
| "read_base b acc (c # cs) =
     (case hex_val c of
        None \<Rightarrow> NaN
      | Some d \<Rightarrow> if d < b then read_base b (b * acc + d) cs else NaN)"

definition base_of :: "char \<Rightarrow> int option" where
  "base_of c =
     (let l = lower_char c
      in if l = CHR ''x'' then Some 16 else if l = CHR ''o'' then Some 8
         else if l = CHR ''b'' then Some 2 else None)"

definition based_literal :: "string \<Rightarrow> (int \<times> string) option" where
  "based_literal s = (case s of
     z # x # d # ds \<Rightarrow> if z = CHR ''0'' then map_option (\<lambda>b. (b, d # ds)) (base_of x) else None
   | _ \<Rightarrow> None)"

definition number_of_text :: "string \<Rightarrow> num_val" where
  "number_of_text s =
     (if s = [] then Fin 0
      else case based_literal s of
          Some (b, ds) \<Rightarrow> read_base b 0 ds
        | None \<Rightarrow>
            let (neg, r) = read_sign s;
                v = (if r = ''Infinity'' then Infin True else unsigned_decimal r)
            in if neg then negate v else v)"

subsection \<open>\<open>String(v)\<close> and \<open>Number(v)\<close>\<close>

fun js_string :: "(jstime \<Rightarrow> string) \<Rightarrow> json \<Rightarrow> string" where
  "js_string stamp JUndef = ''undefined''"
| "js_string stamp JNull = ''null''"
| "js_string stamp (JBool b) = (if b then ''true'' else ''false'')"
| "js_string stamp (JNum q) = show_rat q"
| "js_string stamp (JStr s) = s"
| "js_string stamp (JTime t) = stamp t"
| "js_string stamp (JArr vs) =
     join_by '','' (map (\<lambda>v. if v = JUndef \<or> v = JNull then [] else js_string stamp v) vs)"
| "js_string stamp (JObj kvs) = ''[object Object]''"

definition js_number :: "(jstime \<Rightarrow> string) \<Rightarrow> json \<Rightarrow> num_val" where
  "js_number stamp v = (case v of
     JUndef \<Rightarrow> NaN
   | JNull \<Rightarrow> Fin 0
   | JBool b \<Rightarrow> Fin (if b then 1 else 0)
   | JNum q \<Rightarrow> Fin q
   | _ \<Rightarrow> number_of_text (js_trim (js_string stamp v)))"

subsection \<open>\<open>JSON.stringify\<close>\<close>

definition hex_digit :: "int \<Rightarrow> char" where
  "hex_digit d = (if d < 10 then digit_char d else char_of (87 + d))"

definition escape_char :: "char \<Rightarrow> string" where
  "escape_char c =
     (let n = of_char c :: int
      in if c = quote_char then [backslash, quote_char]
         else if c = backslash then [backslash, backslash]
         else if n = 8 then [backslash, CHR ''b'']
         else if n = 9 then [backslash, CHR ''t'']
         else if n = 10 then [backslash, CHR ''n'']
         else if n = 12 then [backslash, CHR ''f'']
         else if n = 13 then [backslash, CHR ''r'']
         else if n < 32 then [backslash, CHR ''u'', CHR ''0'', CHR ''0'', hex_digit (n div 16), hex_digit (n mod 16)]
         else [c])"

definition quote_text :: "string \<Rightarrow> string" where
  "quote_text s = quote_char # concat (map escape_char s) @ [quote_char]"

text \<open>\<open>None\<close> is the value \<open>undefined\<close>, which an array prints as null and an object leaves out.\<close>

fun member_texts :: "(string \<times> string option) list \<Rightarrow> string list" where
  "member_texts [] = []"
| "member_texts ((k, None) # kts) = member_texts kts"
| "member_texts ((k, Some t) # kts) = (quote_text k @ '':'' @ t) # member_texts kts"

fun stringify :: "(jstime \<Rightarrow> string) \<Rightarrow> json \<Rightarrow> string option" where
  "stringify stamp JUndef = None"
| "stringify stamp JNull = Some ''null''"
| "stringify stamp (JBool b) = Some (if b then ''true'' else ''false'')"
| "stringify stamp (JNum q) = Some (show_rat q)"
| "stringify stamp (JStr s) = Some (quote_text s)"
| "stringify stamp (JTime t) = Some (quote_text (stamp t))"
| "stringify stamp (JArr vs) =
     Some (''['' @ join_by '','' (map (\<lambda>v. case stringify stamp v of None \<Rightarrow> ''null'' | Some t \<Rightarrow> t) vs) @ '']'')"
| "stringify stamp (JObj kvs) =
     Some (''{'' @ join_by '','' (member_texts (map (\<lambda>(k, v). (k, stringify stamp v)) kvs)) @ ''}'')"

text \<open>A value in a template literal: what \<open>JSON.stringify\<close> gives, or \<open>undefined\<close>.\<close>

definition stringify_text :: "(jstime \<Rightarrow> string) \<Rightarrow> json \<Rightarrow> string" where
  "stringify_text stamp v = (case stringify stamp v of None \<Rightarrow> ''undefined'' | Some t \<Rightarrow> t)"

subsection \<open>\<open>JSON.parse\<close>\<close>

type_synonym 'a reader = "string \<Rightarrow> ('a \<times> string) option"

definition is_json_blank :: "char \<Rightarrow> bool" where
  "is_json_blank c = (of_char c \<in> {9, 10, 13, 32 :: int})"

definition skip_blank :: "string \<Rightarrow> string" where
  "skip_blank s = dropWhile is_json_blank s"

definition plain_char :: "char \<Rightarrow> bool" where
  "plain_char c \<longleftrightarrow> c \<noteq> quote_char \<and> c \<noteq> backslash \<and> 32 \<le> (of_char c :: int)"

definition simple_escape :: "char \<Rightarrow> char option" where
  "simple_escape e =
     (if e = quote_char \<or> e = backslash \<or> e = CHR ''/'' then Some e
      else if e = CHR ''b'' then Some (char_of (8 :: int))
      else if e = CHR ''t'' then Some (char_of (9 :: int))
      else if e = CHR ''n'' then Some (char_of (10 :: int))
      else if e = CHR ''f'' then Some (char_of (12 :: int))
      else if e = CHR ''r'' then Some (char_of (13 :: int)) else None)"

definition hex_code :: "char \<Rightarrow> char \<Rightarrow> char \<Rightarrow> char \<Rightarrow> char option" where
  "hex_code a b c d = (case (hex_val a, hex_val b, hex_val c, hex_val d) of
     (Some a, Some b, Some c, Some d) \<Rightarrow>
       let n = 4096 * a + 256 * b + 16 * c + d in if n < 256 then Some (char_of n) else None
   | _ \<Rightarrow> None)"

text \<open>The characters of a string behind its opening quote.\<close>

fun read_chars :: "string reader" where
  "read_chars [] = None"
| "read_chars (c # cs) =
     (if c = quote_char then Some ([], cs)
      else if c = backslash then (case cs of
          [] \<Rightarrow> None
        | e # r \<Rightarrow>
            if e = CHR ''u'' then (case r of
                h1 # h2 # h3 # h4 # r' \<Rightarrow>
                  (case hex_code h1 h2 h3 h4 of
                     None \<Rightarrow> None
                   | Some x \<Rightarrow> map_option (\<lambda>(t, r''). (x # t, r'')) (read_chars r'))
              | _ \<Rightarrow> None)
            else (case simple_escape e of
                None \<Rightarrow> None
              | Some x \<Rightarrow> map_option (\<lambda>(t, r'). (x # t, r')) (read_chars r)))
      else if plain_char c then map_option (\<lambda>(t, r). (c # t, r)) (read_chars cs)
      else None)"

definition read_string :: "string reader" where
  "read_string s = (case s of c # r \<Rightarrow> if c = quote_char then read_chars r else None | [] \<Rightarrow> None)"

text \<open>A number: no leading zero, no plus sign, digits on both sides of the point.\<close>

definition read_number :: "json reader" where
  "read_number s =
     (let neg = (take 1 s = ''-''); r = (if neg then tl s else s);
          (a, n, r1) = take_digits 0 r
      in if n = 0 \<or> 1 < n \<and> hd r = CHR ''0'' then None
         else case read_fraction r1 of
             None \<Rightarrow> None
           | Some (f, r2) \<Rightarrow> (case read_exponent r2 of
                 None \<Rightarrow> None
               | Some (e, r3) \<Rightarrow>
                   let q = (of_int a + f) * e in Some (JNum (if neg then - q else q), r3)))"

text \<open>
  Values, the elements of an array behind its first bracket or a comma, and the members of an object.
  Every call has less fuel than its caller; a text of \<open>n\<close> characters needs at most \<open>n\<close> nested calls.
\<close>

definition expect :: "char \<Rightarrow> string \<Rightarrow> string option" where
  "expect c s = (case skip_blank s of x # r \<Rightarrow> if x = c then Some r else None | [] \<Rightarrow> None)"

fun read_value :: "nat \<Rightarrow> json reader"
  and read_elements :: "nat \<Rightarrow> json list reader"
  and read_members :: "nat \<Rightarrow> json obj \<Rightarrow> json obj reader"
where
  "read_value 0 s = None"
| "read_value (Suc n) s = (case skip_blank s of
     [] \<Rightarrow> None
   | c # r \<Rightarrow>
       if c = CHR ''n'' then map_option (\<lambda>r. (JNull, r)) (strip_prefix ''ull'' r)
       else if c = CHR ''t'' then map_option (\<lambda>r. (JBool True, r)) (strip_prefix ''rue'' r)
       else if c = CHR ''f'' then map_option (\<lambda>r. (JBool False, r)) (strip_prefix ''alse'' r)
       else if c = quote_char then map_option (\<lambda>(t, r). (JStr t, r)) (read_chars r)
       else if c = CHR ''['' then (case expect (CHR '']'') r of
           Some r' \<Rightarrow> Some (JArr [], r')
         | None \<Rightarrow> map_option (\<lambda>(vs, r'). (JArr vs, r')) (read_elements n r))
       else if c = CHR ''{'' then (case expect (CHR ''}'') r of
           Some r' \<Rightarrow> Some (JObj [], r')
         | None \<Rightarrow> map_option (\<lambda>(kvs, r'). (JObj kvs, r')) (read_members n [] r))
       else read_number (c # r))"
| "read_elements 0 s = None"
| "read_elements (Suc n) s = (case read_value n s of
     None \<Rightarrow> None
   | Some (v, r) \<Rightarrow> (case expect (CHR '','') r of
         Some r' \<Rightarrow> map_option (\<lambda>(vs, r''). (v # vs, r'')) (read_elements n r')
       | None \<Rightarrow> map_option (\<lambda>r'. ([v], r')) (expect (CHR '']'') r)))"
| "read_members 0 acc s = None"
| "read_members (Suc n) acc s = (case read_string (skip_blank s) of
     None \<Rightarrow> None
   | Some (k, r) \<Rightarrow> (case Option.bind (expect (CHR '':'') r) (read_value n) of
         None \<Rightarrow> None
       | Some (v, r') \<Rightarrow> (case expect (CHR '','') r' of
             Some r'' \<Rightarrow> read_members n (oset k v acc) r''
           | None \<Rightarrow> map_option (\<lambda>r''. (oset k v acc, r'')) (expect (CHR ''}'') r'))))"

definition parse_json :: "string \<Rightarrow> json option" where
  "parse_json s = (case read_value (Suc (length s)) s of
     Some (v, r) \<Rightarrow> if skip_blank r = [] then Some v else None
   | None \<Rightarrow> None)"

end
