(* ===== verification/FlowTasks.thy ===== *)
theory FlowTasks
  imports Engine JsonText
begin

section \<open>The flow control tasks\<close>

text \<open>
  \<open>tasks/flow-control/Ultravisor-TaskConfigs-FlowControl.cjs\<close>: the executors of \<open>if-conditional\<close>,
  \<open>split-execute\<close>, \<open>parameter-sweep\<close> and \<open>launch-operation\<close>, as the engine calls them. The two that
  iterate keep their position in their own outputs and are called again through a connection of the
  graph. An exception in an executor is the error \<open>type_error\<close>, which the engine treats like a reply.
\<close>

subsection \<open>Surroundings of a task\<close>

text \<open>
  The clock when the task replies, whether the context has a state manager, the text of a time stamp,
  the expression parser and the template parser of fable if they are installed (\<open>Inl\<close>: the message of
  what they throw), and the message of \<open>JSON.parse\<close>.
\<close>

record task_world =
  uNow :: jstime
  uEngine :: engine_env
  uStateManager :: bool
  uStamp :: "jstime \<Rightarrow> string"
  uSolve :: "(string \<Rightarrow> json obj \<Rightarrow> string + json) option"
  uTemplate :: "(string \<Rightarrow> json \<Rightarrow> string + string) option"
  uJsonError :: "string \<Rightarrow> string"

definition text_value :: "task_world \<Rightarrow> json \<Rightarrow> string" where
  "text_value u v = js_string (uStamp u) v"

text \<open>The characters of a value with \<open>typeof v === 'string'\<close>.\<close>

definition as_text :: "task_world \<Rightarrow> json \<Rightarrow> string option" where
  "as_text u v = (case v of JStr s \<Rightarrow> Some s | JTime t \<Rightarrow> Some (uStamp u t) | _ \<Rightarrow> None)"

text \<open>\<open>a || b\<close>, and \<open>v + 1\<close> of a value that is not undefined; it appends to a string.\<close>

definition json_or :: "json \<Rightarrow> json \<Rightarrow> json" where
  "json_or a b = (if truthy a then a else b)"

definition plus_one :: "task_world \<Rightarrow> json \<Rightarrow> json" where
  "plus_one u v = (case v of
     JNum q \<Rightarrow> JNum (q + 1)
   | JBool b \<Rightarrow> JInt (if b then 2 else 1)
   | JNull \<Rightarrow> JInt 1
   | _ \<Rightarrow> JStr (text_value u v @ ''1''))"

text \<open>\<open>xs[i]\<close>: the element at an index, or at the text of one.\<close>

definition json_index :: "task_world \<Rightarrow> json list \<Rightarrow> json \<Rightarrow> json" where
  "json_index u xs i = (case i of
     JNum q \<Rightarrow> (if 0 \<le> q \<and> q = of_int \<lfloor>q\<rfloor> \<and> \<lfloor>q\<rfloor> < int (length xs) then xs ! nat \<lfloor>q\<rfloor> else JUndef)
   | _ \<Rightarrow> (case find (\<lambda>n. show_nat n = text_value u i) [0..<length xs] of
         Some n \<Rightarrow> xs ! n | None \<Rightarrow> JUndef))"

text \<open>\<open>Object.entries(v)\<close> of a value that is not null or undefined.\<close>

definition indexed :: "json list \<Rightarrow> json obj" where
  "indexed vs = map (\<lambda>(n, v). (show_nat n, v)) (enumerate 0 vs)"

definition object_entries :: "task_world \<Rightarrow> json \<Rightarrow> json obj" where
  "object_entries u v = (case v of
     JObj kvs \<Rightarrow> kvs
   | JArr vs \<Rightarrow> indexed vs
   | _ \<Rightarrow> (case as_text u v of Some s \<Rightarrow> indexed (map (\<lambda>c. JStr [c]) s) | None \<Rightarrow> []))"

definition type_error :: task_reply where
  "type_error = TaskError ''TypeError''"

definition answer_with :: "string \<Rightarrow> json obj \<Rightarrow> json obj \<Rightarrow> string list \<Rightarrow> task_reply" where
  "answer_with ev outs ws lg = TaskResult
     \<lparr>sWaitingForInput = False, sPromptMessage = [], sOutputAddress = [], sResumeEventName = [],
      sEventToFire = ev, sOutputs = Some outs, sStateWrites = ws, sLog = lg\<rparr>"

text \<open>
  What the state manager resolves for a task. The context of a task has the state of the run, but no
  \<open>Output\<close>, so such an address resolves to nothing.
\<close>

definition context_run :: "task_context \<Rightarrow> run" where
  "context_run tc =
     \<lparr>rHash = tRunHash tc, rOperationHash = tOperationHash tc, rOperationName = [], rStatus = [],
      rRunMode = tRunMode tc, rStagingPath = tStagingPath tc, rLive = True,
      rGlobalState = tGlobalState tc, rOperationState = tOperationState tc,
      rTaskOutputs = tTaskOutputs tc, rOutput = [],
      rPendingEvents = [], rWaitingTasks = [], rTaskManifests = [], rEventLog = [], rLog = [],
      rErrors = [], rStartTime = None, rStopTime = None, rElapsedMs = None, rTimingSummary = None,
      rGraph = \<lparr>gNodes = [], gConnections = []\<rparr>, rNodeMap = [], rPortLabelMap = [],
      rConnectionMap = \<lparr>eventSources = [], stateTargets = []\<rparr>,
      rClock = 0, rDisk = tDisk tc, rEffects = []\<rparr>"

definition task_resolve :: "task_world \<Rightarrow> json \<Rightarrow> task_context \<Rightarrow> json" where
  "task_resolve u a tc = (case as_text u a of
     None \<Rightarrow> JUndef
   | Some s \<Rightarrow>
       if before_dot s = ''Output'' then JUndef
       else resolveAddress (uEngine u) s (context_run tc) (tNodeHash tc))"

text \<open>The data an expression can refer to.\<close>

definition expression_data :: "task_context \<Rightarrow> json obj" where
  "expression_data tc =
     [(''Operation'', JObj (tOperationState tc)), (''Global'', JObj (tGlobalState tc)),
      (''TaskOutput'', JObj (tTaskOutputs tc))]"

subsection \<open>if-conditional\<close>

text \<open>\<open>a === b\<close>; two objects or arrays are never the same.\<close>

definition strict_equal :: "task_world \<Rightarrow> json \<Rightarrow> json \<Rightarrow> bool" where
  "strict_equal u a b = (case (a, b) of
     (JObj x, _) \<Rightarrow> False
   | (JArr x, _) \<Rightarrow> False
   | _ \<Rightarrow> (case (as_text u a, as_text u b) of
         (Some x, Some y) \<Rightarrow> x = y
       | (None, None) \<Rightarrow> a = b
       | _ \<Rightarrow> False))"

definition compare_values :: "task_world \<Rightarrow> json \<Rightarrow> json \<Rightarrow> json \<Rightarrow> bool" where
  "compare_values u l r op =
     (let sl = text_value u l; sr = text_value u r;
          nl = js_number (uStamp u) l; nr = js_number (uStamp u) r
      in case as_text u op of
          None \<Rightarrow> sl = sr
        | Some p \<Rightarrow>
            if p = ''=='' then sl = sr
            else if p = ''==='' then strict_equal u l r
            else if p = ''!='' then sl \<noteq> sr
            else if p = ''!=='' then \<not> strict_equal u l r
            else if p = ''>'' then num_less nr nl
            else if p = ''<'' then num_less nl nr
            else if p = ''>='' then num_le nr nl
            else if p = ''<='' then num_le nl nr
            else if p = ''contains'' then str_contains sl sr
            else if p = ''startsWith'' then str_starts sl sr
            else if p = ''endsWith'' then str_ends sl sr
            else if p = ''truthy'' then truthy l
            else if p = ''falsy'' then \<not> truthy l
            else sl = sr)"

text \<open>The solver answers with strings; \<open>'0'\<close> and \<open>'false'\<close> are no.\<close>

definition solved_true :: "task_world \<Rightarrow> json \<Rightarrow> bool" where
  "solved_true u v \<longleftrightarrow>
     \<not> (v = JUndef \<or> v = JNull \<or> v = JBool False \<or> v = JNum 0 \<or> v = JStr [] \<or> v = JStr ''0'' \<or>
        to_lower (text_value u v) = ''false'')"

definition condition_answer :: "bool \<Rightarrow> task_reply" where
  "condition_answer b =
     answer_with (if b then ''True'' else ''False'') [(''Result'', JBool b)] []
       [''Condition evaluated to '' @ (if b then ''true'' else ''false'') @ ''.'']"

definition ifConditional :: "task_world \<Rightarrow> executor" where
  "ifConditional u settings tc = Reply (uNow u)
     (case as_text u (jget settings ''Expression'') of
        Some (c # cs) \<Rightarrow>
          (case uSolve u of
             None \<Rightarrow> condition_answer True
           | Some solve \<Rightarrow> (case solve (c # cs) (expression_data tc) of
                 Inl msg \<Rightarrow> answer_with ''False'' [(''Result'', JBool False)] [] [''Expression error: '' @ msg]
               | Inr v \<Rightarrow> condition_answer (solved_true u v)))
      | _ \<Rightarrow>
          if truthy (jget settings ''DataAddress'')
          then condition_answer
                 (compare_values u
                   (if uStateManager u then task_resolve u (jget settings ''DataAddress'') tc else JUndef)
                   (jget settings ''CompareValue'') (json_or (jget settings ''Operator'') (JStr ''=='')))
          else condition_answer False)"

subsection \<open>split-execute\<close>

definition token_error :: "string \<Rightarrow> task_reply" where
  "token_error msg = answer_with ''Error''
     [(''CurrentToken'', JStr []), (''TokenIndex'', JInt 0), (''TokenCount'', JInt 0), (''CompletedCount'', JInt 0)]
     [] [msg]"

definition token_outputs :: "json list \<Rightarrow> json \<Rightarrow> json \<Rightarrow> json \<Rightarrow> json obj" where
  "token_outputs toks cur idx completed =
     [(''_Tokens'', JArr toks), (''CurrentToken'', cur), (''TokenIndex'', idx),
      (''TokenCount'', JInt (int (length toks))), (''CompletedCount'', completed)]"

definition split_delimiter :: "task_world \<Rightarrow> json obj \<Rightarrow> string" where
  "split_delimiter u settings =
     (let d = jget settings ''SplitDelimiter''
      in if d = JUndef \<or> d = JNull then [newline] else text_value u d)"

definition split_tokens :: "task_world \<Rightarrow> json obj \<Rightarrow> string \<Rightarrow> string list" where
  "split_tokens u settings s =
     (let toks = js_split s (split_delimiter u settings);
          toks1 = (if truthy (jget settings ''TrimTokens'') then map js_trim toks else toks)
      in if truthy (jget settings ''SkipEmpty'') then filter (\<lambda>t. t \<noteq> []) toks1 else toks1)"

definition emitting :: "string \<Rightarrow> nat \<Rightarrow> string \<Rightarrow> string" where
  "emitting pos n t = ''Emitting token '' @ pos @ ''/'' @ show_nat n @ '': '' @ quote_char # take 50 t @ [quote_char]"

definition handlePerformSplit :: "task_world \<Rightarrow> json obj \<Rightarrow> task_reply" where
  "handlePerformSplit u settings = (case as_text u (jget settings ''InputString'') of
     None \<Rightarrow> token_error ''InputString is not a string.''
   | Some s \<Rightarrow>
       let toks = split_tokens u settings s;
           line = ''Splitting input ('' @ show_nat (length s) @ '' chars) by '' @
             quote_char # split_delimiter u settings @ quote_char # '' into '' @ show_nat (length toks) @ '' tokens.''
       in (case toks of
             [] \<Rightarrow> answer_with ''CompletedAllSubtasks''
               [(''CurrentToken'', JStr []), (''TokenIndex'', JInt 0), (''TokenCount'', JInt 0),
                (''CompletedCount'', JInt 0)] [] [line, ''No tokens to process.'']
           | t # ts \<Rightarrow> answer_with ''TokenDataSent''
               (token_outputs (map JStr (t # ts)) (JStr t) (JInt 0) (JInt 0)) []
               [line, emitting ''1'' (length (t # ts)) t]))"

definition handleStepComplete :: "task_world \<Rightarrow> task_context \<Rightarrow> task_reply" where
  "handleStepComplete u tc =
     (let stored = output_or_new (tTaskOutputs tc) (tNodeHash tc)
      in case jfield stored ''_Tokens'' of
          JArr toks \<Rightarrow>
            let n = length toks;
                completed = plus_one u (json_or (jfield stored ''CompletedCount'') (JInt 0));
                idx = plus_one u (json_or (jfield stored ''TokenIndex'') (JInt 0))
            in if num_le (Fin (of_nat n)) (js_number (uStamp u) idx)
               then answer_with ''CompletedAllSubtasks''
                 (token_outputs toks (json_index u toks (JInt (int n - 1))) (JInt (int n - 1)) completed) []
                 [''All '' @ show_nat n @ '' tokens processed ('' @ text_value u completed @ '' completed).'']
               else (case as_text u (json_index u toks idx) of
                   None \<Rightarrow> type_error
                 | Some t \<Rightarrow> answer_with ''TokenDataSent''
                     (token_outputs toks (json_index u toks idx) idx completed) []
                     [emitting (text_value u (plus_one u idx)) n t])
        | _ \<Rightarrow> token_error
            ''StepComplete received but no stored tokens found. Was PerformSplit called first?'')"

definition splitExecute :: "task_world \<Rightarrow> executor" where
  "splitExecute u settings tc = Reply (uNow u)
     (if tTriggeringEventName tc = ''StepComplete'' then handleStepComplete u tc
      else handlePerformSplit u settings)"

subsection \<open>parameter-sweep\<close>

definition flattenParams :: "task_world \<Rightarrow> json \<Rightarrow> json obj" where
  "flattenParams u v =
     map (\<lambda>(k, x). (k, JStr (if x = JNull \<or> x = JUndef then [] else text_value u x)))
       (object_entries u (json_or v (JObj [])))"

definition sweep_outputs :: "task_world \<Rightarrow> json list \<Rightarrow> json \<Rightarrow> json \<Rightarrow> json \<Rightarrow> json obj" where
  "sweep_outputs u sets cur idx completed =
     foldl (\<lambda>m (k, v). oset k v m)
       [(''_ParameterSets'', JArr sets), (''CurrentParameters'', JStr (stringify_text (uStamp u) cur)),
        (''CurrentIndex'', idx), (''TotalCount'', JInt (int (length sets))), (''CompletedCount'', completed)]
       (flattenParams u cur)"

definition no_sweep_outputs :: "json obj" where
  "no_sweep_outputs =
     [(''CurrentParameters'', JStr ''{}''), (''CurrentIndex'', JInt 0), (''TotalCount'', JInt 0),
      (''CompletedCount'', JInt 0)]"

definition sweepStep :: "task_world \<Rightarrow> task_context \<Rightarrow> task_reply" where
  "sweepStep u tc =
     (let stored = output_or_new (tTaskOutputs tc) (tNodeHash tc)
      in case jfield stored ''_ParameterSets'' of
          JArr sets \<Rightarrow>
            let completed = plus_one u (json_or (jfield stored ''CompletedCount'') (JInt 0));
                idx = plus_one u (json_or (jfield stored ''CurrentIndex'') (JInt 0));
                n = length sets
            in if num_le (Fin (of_nat n)) (js_number (uStamp u) idx)
               then answer_with ''SweepComplete''
                 (sweep_outputs u sets (json_or (json_index u sets (JInt (int n - 1))) (JObj [])) (JInt (int n - 1)) completed)
                 [] [''Parameter sweep complete. Processed '' @ text_value u completed @ ''/'' @ show_nat n @ '' set(s).'']
               else answer_with ''ParameterSetReady''
                 (sweep_outputs u sets (json_or (json_index u sets idx) (JObj [])) idx completed)
                 [] [''Emitting parameter set '' @ text_value u (plus_one u idx) @ ''/'' @ show_nat n @ ''.'']
        | _ \<Rightarrow> answer_with ''Error'' no_sweep_outputs []
            [''StepComplete fired but no stored parameter sets found. Was BeginSweep called?''])"

definition sweepOver :: "task_world \<Rightarrow> json \<Rightarrow> task_reply" where
  "sweepOver u v = (case v of
     JArr (first # sets) \<Rightarrow>
       let n = show_nat (length (first # sets))
       in answer_with ''ParameterSetReady''
            (sweep_outputs u (first # sets) (json_or first (JObj [])) (JInt 0) (JInt 0)) []
            [''Parameter sweep started: '' @ n @ '' set(s). Emitting set 1/'' @ n @ ''.'']
   | _ \<Rightarrow> answer_with ''SweepComplete'' no_sweep_outputs [] [''ParameterSets is empty. Nothing to sweep.''])"

definition beginSweep :: "task_world \<Rightarrow> json obj \<Rightarrow> task_reply" where
  "beginSweep u settings =
     (let raw = jget settings ''ParameterSets''
      in case as_text u raw of
          Some s \<Rightarrow> (case parse_json s of
              None \<Rightarrow> answer_with ''Error'' no_sweep_outputs [] [''ParameterSets is not valid JSON: '' @ uJsonError u s]
            | Some v \<Rightarrow> sweepOver u v)
        | None \<Rightarrow> (case raw of
              JArr sets \<Rightarrow> sweepOver u raw
            | _ \<Rightarrow> answer_with ''Error'' no_sweep_outputs [] [''ParameterSets must be a JSON array.'']))"

definition parameterSweep :: "task_world \<Rightarrow> executor" where
  "parameterSweep u settings tc = Reply (uNow u)
     (if tTriggeringEventName tc = ''StepComplete'' then sweepStep u tc else beginSweep u settings)"

subsection \<open>launch-operation\<close>

text \<open>A child operation starts on copies: what \<open>JSON.parse(JSON.stringify(v))\<close> gives.\<close>

definition json_copy :: "task_world \<Rightarrow> json \<Rightarrow> json" where
  "json_copy u v = (case Option.bind (stringify (uStamp u) v) parse_json of None \<Rightarrow> JUndef | Some x \<Rightarrow> x)"

definition launch_error :: "string \<Rightarrow> task_reply" where
  "launch_error msg = answer_with ''Error''
     [(''Result'', JStr []), (''Status'', JStr ''Error''), (''ElapsedMs'', JInt 0)] [] [msg]"

definition child_state :: "task_world \<Rightarrow> json obj \<Rightarrow> task_context \<Rightarrow> initial_state" where
  "child_state u settings tc =
     \<lparr>iGlobalState =
        (if jget settings ''InheritGlobalState'' = JBool False then []
         else fields_of (json_copy u (JObj (tGlobalState tc)))),
      iOperationState = (case as_text u (jget settings ''InputData'') of
          None \<Rightarrow> []
        | Some s \<Rightarrow>
            if s = [] then []
            else (case parse_json s of
                None \<Rightarrow> [(''InputData'', jget settings ''InputData'')]
              | Some v \<Rightarrow> if is_object v then object_entries u v else [])),
      iRunMode = str_or (tRunMode tc) ''standard''\<rparr>"

text \<open>
  What happens after the child was started at \<open>t0\<close>: the timeout fires, or the engine calls back. The
  flag \<open>tmpCompleted\<close> lets only the first one reply.
\<close>

datatype child_event = ChildTimeout jstime | ChildFails jstime string | ChildEnds jstime run

definition error_json :: "run_error \<Rightarrow> json" where
  "error_json e = JObj
     [(''NodeHash'', JOptStr (rrNodeHash e)), (''Message'', JStr (rrMessage e)), (''Timestamp'', JTime (rrTimestamp e))]"

definition child_summary :: "run \<Rightarrow> json" where
  "child_summary c = JObj
     [(''Status'', JStr (str_or (rStatus c) ''Unknown'')), (''TaskOutputs'', JObj (rTaskOutputs c)),
      (''Errors'', JArr (map error_json (rErrors c)))]"

definition launch_reply :: "task_world \<Rightarrow> string \<Rightarrow> int \<Rightarrow> jstime \<Rightarrow> child_event \<Rightarrow> task_run" where
  "launch_reply u h timeout t0 ev = (case ev of
     ChildTimeout t \<Rightarrow> Reply t (answer_with ''Error''
       [(''Result'', JStr ''Operation timed out''), (''Status'', JStr ''Timeout''), (''ElapsedMs'', JInt (t - t0))] []
       [''Child operation ['' @ h @ ''] timed out after '' @ show_int timeout @ ''ms''])
   | ChildFails t msg \<Rightarrow> Reply t (answer_with ''Error''
       [(''Result'', JStr msg), (''Status'', JStr ''Error''), (''ElapsedMs'', JInt (t - t0))] []
       [''Child operation ['' @ h @ ''] failed: '' @ msg])
   | ChildEnds t c \<Rightarrow>
       let st = str_or (rStatus c) ''Unknown''
       in Reply t (answer_with ''Completed''
            [(''Result'', JStr (stringify_text (uStamp u) (child_summary c))), (''Status'', JStr st),
             (''ElapsedMs'', JInt (t - t0))] []
            [''Child operation ['' @ h @ ''] completed with status: '' @ st @ '' ('' @ show_int (t - t0) @ ''ms)'']))"

definition is_timeout :: "child_event \<Rightarrow> bool" where
  "is_timeout ev = (case ev of ChildTimeout t \<Rightarrow> True | _ \<Rightarrow> False)"

fun launch_events :: "task_world \<Rightarrow> string \<Rightarrow> int \<Rightarrow> jstime \<Rightarrow> bool \<Rightarrow> child_event list \<Rightarrow> task_run list" where
  "launch_events u h timeout t0 completed [] = []"
| "launch_events u h timeout t0 completed (ev # evs) =
     (if completed \<or> is_timeout ev \<and> timeout \<le> 0
      then launch_events u h timeout t0 completed evs
      else launch_reply u h timeout t0 ev # launch_events u h timeout t0 True evs)"

text \<open>
  Up to the start of the child: an error, or the operation with its initial state and the timeout.
  The state service and the engine are looked up in the service map; \<open>None\<close> is a service that is
  missing.
\<close>

definition launchOperation ::
    "task_world \<Rightarrow> (string \<Rightarrow> string + operation) option \<Rightarrow> bool \<Rightarrow> json obj \<Rightarrow> task_context \<Rightarrow>
      task_reply + operation \<times> initial_state \<times> int" where
  "launchOperation u operations engine settings tc =
     (case as_text u (jget settings ''OperationHash'') of
        None \<Rightarrow> Inl (launch_error ''No OperationHash specified.'')
      | Some h \<Rightarrow>
          if h = [] then Inl (launch_error ''No OperationHash specified.'')
          else case operations of
              None \<Rightarrow> Inl (launch_error ''UltravisorHypervisorState service not found.'')
            | Some get \<Rightarrow>
                if \<not> engine then Inl (launch_error ''UltravisorExecutionEngine service not found.'')
                else case get h of
                    Inl msg \<Rightarrow> Inl (launch_error (''Operation ['' @ h @ ''] not found: '' @ msg))
                  | Inr op \<Rightarrow> Inr (op, child_state u settings tc, parseInt_or (jget settings ''TimeoutMs'') 0))"

end
