(* ===== verification/DataTasks.thy ===== *)
theory DataTasks
  imports FlowTasks
begin

section \<open>The data transform tasks\<close>

text \<open>
  \<open>tasks/data-transform/Ultravisor-TaskConfigs-DataTransform.cjs\<close>: executors that read values of the
  state, transform them and write the result back. A missing value is undefined, reading a field of it
  throws. Regular expressions of a user and the collation of \<open>localeCompare\<close> are parameters; the two
  tasks that draw random numbers are not modelled.
\<close>

subsection \<open>Fields of any value\<close>

text \<open>\<open>v[k]\<close>; \<open>None\<close> where it throws.\<close>

definition json_prop :: "task_world \<Rightarrow> json \<Rightarrow> string \<Rightarrow> json option" where
  "json_prop u v k = (case v of
     JUndef \<Rightarrow> None
   | JNull \<Rightarrow> None
   | JObj kvs \<Rightarrow> Some (jget kvs k)
   | JArr vs \<Rightarrow> Some (if k = ''length'' then JInt (int (length vs)) else json_index u vs (JStr k))
   | _ \<Rightarrow> (case as_text u v of
         Some s \<Rightarrow> Some (if k = ''length'' then JInt (int (length s))
                    else json_index u (map (\<lambda>c. JStr [c]) s) (JStr k))
       | None \<Rightarrow> Some JUndef))"

text \<open>\<open>v.length\<close> in a template literal.\<close>

definition length_text :: "task_world \<Rightarrow> json \<Rightarrow> string" where
  "length_text u v = text_value u (case json_prop u v ''length'' of Some n \<Rightarrow> n | None \<Rightarrow> JUndef)"

text \<open>\<open>xs.map(f)\<close> where \<open>f\<close> may throw.\<close>

fun map_throw :: "('a \<Rightarrow> 'b option) \<Rightarrow> 'a list \<Rightarrow> 'b list option" where
  "map_throw f [] = Some []"
| "map_throw f (x # xs) = (case f x of
     None \<Rightarrow> None
   | Some y \<Rightarrow> map_option ((#) y) (map_throw f xs))"

definition reply_or_throw :: "task_world \<Rightarrow> task_reply option \<Rightarrow> task_run" where
  "reply_or_throw u r = Reply (uNow u) (case r of None \<Rightarrow> type_error | Some a \<Rightarrow> a)"

text \<open>The value at the address in a setting; the value \<open>d\<close> without an address or state manager.\<close>

definition source_at :: "task_world \<Rightarrow> json obj \<Rightarrow> string \<Rightarrow> json \<Rightarrow> task_context \<Rightarrow> json" where
  "source_at u settings k d tc =
     (if truthy (jget settings k) \<and> uStateManager u then task_resolve u (jget settings k) tc else d)"

definition destination_write :: "task_world \<Rightarrow> json obj \<Rightarrow> json \<Rightarrow> json obj" where
  "destination_write u settings v =
     (let d = jget settings ''Destination'' in if truthy d then [(text_value u d, v)] else [])"

subsection \<open>Values\<close>

definition mapping_label :: "nat \<Rightarrow> string" where
  "mapping_label i = ''Mapping '' @ show_nat i @ '': skipped (no Address).''"

text \<open>One mapping of \<open>set-values\<close>: the writes and the log so far.\<close>

definition set_mapping :: "task_world \<Rightarrow> json obj \<times> string list \<Rightarrow> nat \<times> json \<Rightarrow> json obj \<times> string list" where
  "set_mapping u wl im =
     (let (ws, lg) = wl; (i, m) = im;
          a = (case json_prop u m ''Address'' of Some a \<Rightarrow> a | None \<Rightarrow> JUndef);
          v = (case json_prop u m ''Value'' of Some v \<Rightarrow> v | None \<Rightarrow> JUndef)
      in if \<not> truthy m \<or> \<not> truthy a then (ws, lg @ [mapping_label i])
         else (oset (text_value u a) v ws,
               lg @ [''Set ['' @ text_value u a @ ''] = '' @ stringify_text (uStamp u) v]))"

definition setValues :: "task_world \<Rightarrow> executor" where
  "setValues u settings tc = Reply (uNow u) (case jget settings ''Mappings'' of
     JArr ms \<Rightarrow>
       (case foldl (set_mapping u) ([], []) (enumerate 0 ms) of (ws, lg) \<Rightarrow> answer_with ''Complete'' [] ws lg)
   | JUndef \<Rightarrow> answer_with ''Complete'' [] [] [''No mappings provided.'']
   | JNull \<Rightarrow> answer_with ''Complete'' [] [] [''No mappings provided.'']
   | _ \<Rightarrow> answer_with ''Error'' [] [] [''Mappings is not an array.''])"

definition addFieldMapping :: "task_world \<Rightarrow> executor" where
  "addFieldMapping u settings tc = Reply (uNow u)
     (let from = json_or (jget settings ''From'') (JStr []);
          to = json_or (jget settings ''To'') from;
          template = json_or (jget settings ''Template'') (JStr []);
          address = jget settings ''ListAddress''
      in if \<not> truthy address
         then answer_with ''Complete'' [(''FieldMappings'', JArr [])] [] [''AddFieldMapping: no ListAddress specified.'']
         else if \<not> truthy from
         then answer_with ''Complete'' [(''FieldMappings'', JArr [])] [] [''AddFieldMapping: no From field specified.'']
         else
           let old = (case source_at u settings ''ListAddress'' JUndef tc of JArr xs \<Rightarrow> xs | _ \<Rightarrow> []);
               new = JObj ([(''From'', from), (''To'', to)] @ (if truthy template then [(''Template'', template)] else []));
               lst = JArr (old @ [new])
           in answer_with ''Complete'' [(''FieldMappings'', lst)] [(text_value u address, lst)]
                [''AddFieldMapping: appended '' @ quote_char # text_value u from @ quote_char # '' -> '' @
                 quote_char # text_value u to @ quote_char # '' ('' @ show_nat (length old + 1) @ '' mappings total)''])"

definition setValueTask :: "task_world \<Rightarrow> executor" where
  "setValueTask u settings tc = Reply (uNow u)
     (let a = jget settings ''ToAddress''; raw = jget settings ''Value'';
          v = (if raw = JUndef \<or> raw = JNull then JStr [] else raw)
      in if \<not> truthy a then answer_with ''Error'' [(''WrittenValue'', JStr [])] [] [''No ToAddress specified.'']
         else answer_with ''Complete'' [(''WrittenValue'', v)] [(text_value u a, v)]
                [''Set ['' @ text_value u a @ ''] = '' @ stringify_text (uStamp u) v])"

subsection \<open>Strings\<close>

text \<open>
  A character as the flag \<open>i\<close> compares it: its upper case, if that is a character below 256 again.
\<close>

definition fold_case :: "char \<Rightarrow> char" where
  "fold_case c = (let n = of_char c :: int
     in if 97 \<le> n \<and> n \<le> 122 \<or> 224 \<le> n \<and> n \<le> 254 \<and> n \<noteq> 247 then char_of (n - 32) else c)"

text \<open>The pieces around the occurrences of a non-empty search string, and the occurrences.\<close>

function split_fold :: "string \<Rightarrow> string \<Rightarrow> string \<Rightarrow> string list \<times> string list" where
  "split_fold p w s =
     (if p = [] \<or> s = [] then ([rev w @ s], [])
      else if length p \<le> length s \<and> map fold_case (take (length p) s) = map fold_case p
      then (case split_fold p [] (drop (length p) s) of (ps, ms) \<Rightarrow> (rev w # ps, take (length p) s # ms))
      else split_fold p (hd s # w) (tl s))"
  by auto
termination by (relation "measure (\<lambda>(p, w, s). length s)") auto

declare split_fold.simps [simp del]

text \<open>
  The replacement pattern of \<open>String.prototype.replace\<close> without groups: \<open>$$\<close>, \<open>$&\<close>, \<open>$`\<close> and \<open>$'\<close>.
\<close>

fun expand_pattern :: "string \<Rightarrow> string \<Rightarrow> string \<Rightarrow> string \<Rightarrow> string" where
  "expand_pattern pre m post (d # c # cs) =
     (if d = CHR ''$'' \<and> c = CHR ''$'' then CHR ''$'' # expand_pattern pre m post cs
      else if d = CHR ''$'' \<and> c = CHR ''&'' then m @ expand_pattern pre m post cs
      else if d = CHR ''$'' \<and> c = CHR 0x60 then pre @ expand_pattern pre m post cs
      else if d = CHR ''$'' \<and> c = CHR 0x27 then post @ expand_pattern pre m post cs
      else d # expand_pattern pre m post (c # cs))"
| "expand_pattern pre m post cs = cs"

fun weave :: "string list \<Rightarrow> string list \<Rightarrow> string" where
  "weave (p # ps) (m # ms) = p @ m @ weave ps ms"
| "weave (p # ps) [] = p"
| "weave [] ms = []"

fun replace_fold_from :: "string \<Rightarrow> string \<Rightarrow> string list \<times> string list \<Rightarrow> string" where
  "replace_fold_from r pre (p # ps, m # ms) =
     (let before_match = pre @ p; rest = weave ps ms
      in p @ expand_pattern before_match m rest r @ replace_fold_from r (before_match @ m) (ps, ms))"
| "replace_fold_from r pre (p # ps, []) = p"
| "replace_fold_from r pre ([], ms) = []"

text \<open>
  The regular expression of the user: its flag \<open>i\<close>, the input and the replacement; \<open>None\<close> if it is no
  regular expression, which throws, else the number of matches and the result.
\<close>

type_synonym regex_engine = "string \<Rightarrow> bool \<Rightarrow> string \<Rightarrow> string \<Rightarrow> (nat \<times> string) option"

definition replaceString :: "task_world \<Rightarrow> regex_engine \<Rightarrow> executor" where
  "replaceString u regex settings tc =
     (let r = text_value u (json_or (jget settings ''ReplaceString'') (JStr []));
          sensitive = (jget settings ''CaseSensitive'' \<noteq> JBool False);
          finish = (\<lambda>p (n, out). answer_with ''ReplaceComplete''
            [(''ReplacedString'', JStr out), (''ReplacementCount'', JInt (int n))] []
            [''Replaced '' @ quote_char # p @ quote_char # '' with '' @ quote_char # r @ quote_char #
             '' ('' @ show_nat n @ '' occurrences).''])
      in case as_text u (jget settings ''InputString'') of
          None \<Rightarrow> Reply (uNow u) (answer_with ''Error'' [] [] [''InputString is not a string.''])
        | Some s \<Rightarrow> (case as_text u (jget settings ''SearchString'') of
              Some (c # cs) \<Rightarrow>
                let p = c # cs
                in if truthy (jget settings ''UseRegex'')
                   then (case regex p (\<not> sensitive) s r of
                       None \<Rightarrow> Reply (uNow u) (TaskError ''SyntaxError'')
                     | Some nr \<Rightarrow> Reply (uNow u) (finish p nr))
                   else if \<not> sensitive
                   then (let (ps, ms) = split_fold p [] s
                         in Reply (uNow u) (finish p (length ms, replace_fold_from r [] (ps, ms))))
                   else Reply (uNow u) (finish p (length (js_split s p) - 1, join_by r (js_split s p)))
            | _ \<Rightarrow> Reply (uNow u) (answer_with ''Error'' [] [] [''SearchString is empty or not a string.''])))"

definition stringAppender :: "task_world \<Rightarrow> executor" where
  "stringAppender u settings tc = Reply (uNow u)
     (let raw = jget settings ''InputString'';
          s = (if raw = JUndef then [] else text_value u raw)
      in case as_text u (jget settings ''OutputAddress'') of
          Some (c # cs) \<Rightarrow>
            let a = c # cs;
                cur = (if uStateManager u then task_resolve u (JStr a) tc else JUndef);
                old = (if cur = JUndef \<or> cur = JNull then [] else text_value u cur);
                sep = jget settings ''Separator'';
                new = (if truthy sep then s
                       else if truthy (jget settings ''AppendNewline'') then s @ [newline] else s);
                whole = old @ (if truthy sep \<and> old \<noteq> [] then text_value u sep else []) @ new
            in answer_with ''Completed'' [(''AppendedString'', JStr whole)] [(a, JStr whole)]
                 [''Appended '' @ show_nat (length new) @ '' chars to ['' @ a @ ''] (total: '' @ show_nat (length whole) @ '').'']
        | _ \<Rightarrow> answer_with ''Completed'' [(''AppendedString'', JStr s)] []
            [''No OutputAddress specified, returning InputString as AppendedString.''])"

text \<open>The context of the task itself, the record a template is rendered with.\<close>

definition context_json :: "task_context \<Rightarrow> json" where
  "context_json tc = JObj
     [(''GlobalState'', JObj (tGlobalState tc)), (''OperationState'', JObj (tOperationState tc)),
      (''TaskOutputs'', JObj (tTaskOutputs tc)), (''StagingPath'', JStr (tStagingPath tc)),
      (''OperationHash'', JStr (tOperationHash tc)), (''NodeHash'', JStr (tNodeHash tc)),
      (''RunHash'', JStr (tRunHash tc)), (''RunMode'', JStr (tRunMode tc)),
      (''TriggeringEventName'', JStr (tTriggeringEventName tc))]"

definition templateString :: "task_world \<Rightarrow> executor" where
  "templateString u settings tc = Reply (uNow u)
     (let template = json_or (jget settings ''Template'') (JStr []);
          finish = (\<lambda>v. answer_with ''Complete'' [(''Result'', v)] (destination_write u settings v)
            [''TemplateString: rendered '' @ length_text u v @ '' chars''])
      in case uTemplate u of
          Some parse \<Rightarrow>
            if truthy template
            then (case parse (text_value u template) (context_json tc) of
                Inl msg \<Rightarrow> answer_with ''Error'' [(''Result'', JStr [])] []
                  [''TemplateString: error parsing template: '' @ msg]
              | Inr s \<Rightarrow> finish (JStr s))
            else finish template
        | None \<Rightarrow> finish template)"

definition expressionSolver :: "task_world \<Rightarrow> executor" where
  "expressionSolver u settings tc = Reply (uNow u)
     (let e = json_or (jget settings ''Expression'') (JStr []);
          finish = (\<lambda>v. answer_with ''Complete'' [(''Result'', v)] (destination_write u settings v)
            [''ExpressionSolver: result = '' @ stringify_text (uStamp u) v])
      in case uSolve u of
          Some solve \<Rightarrow>
            if truthy e
            then (case solve (text_value u e) (expression_data tc) of
                Inl msg \<Rightarrow> answer_with ''Error'' [(''Result'', JStr [])] []
                  [''ExpressionSolver: error evaluating '' @ quote_char # text_value u e @ quote_char # '': '' @ msg]
              | Inr v \<Rightarrow> finish v)
            else finish (JStr [])
        | None \<Rightarrow> finish (JStr []))"

subsection \<open>CSV\<close>

text \<open>
  \<open>_splitCSVLine\<close>, whose quote and delimiter are compared with one character: the fields so far, the
  current field and whether it is inside quotes.
\<close>

fun csv_fields :: "string \<Rightarrow> string \<Rightarrow> string list \<Rightarrow> string \<Rightarrow> bool \<Rightarrow> string \<Rightarrow> string list" where
  "csv_fields d q fs cur quoted [] = fs @ [cur]"
| "csv_fields d q fs cur quoted (c # cs) =
     (if [c] = q then
        (case cs of
           c' # cs' \<Rightarrow>
             if quoted \<and> [c'] = q then csv_fields d q fs (cur @ q) quoted cs'
             else csv_fields d q fs cur (\<not> quoted) cs
         | [] \<Rightarrow> csv_fields d q fs cur (\<not> quoted) cs)
      else if [c] = d \<and> \<not> quoted then csv_fields d q (fs @ [cur]) [] quoted cs
      else csv_fields d q fs (cur @ [c]) quoted cs)"

definition splitCSVLine :: "string \<Rightarrow> string \<Rightarrow> string \<Rightarrow> string list" where
  "splitCSVLine line d q = csv_fields d q [] [] False line"

text \<open>A row: an object over the headers, or the array of its fields.\<close>

definition csv_record :: "string list \<Rightarrow> string list \<Rightarrow> json" where
  "csv_record headers fs =
     (if headers = [] then JArr (map JStr fs)
      else JObj (foldl (\<lambda>m (j, h). oset h (JStr (if j < length fs then fs ! j else [])) m) []
             (enumerate 0 headers)))"

text \<open>A delimiter or quote that is no string is equal to no character.\<close>

definition char_setting :: "task_world \<Rightarrow> json obj \<Rightarrow> string \<Rightarrow> string \<Rightarrow> string" where
  "char_setting u settings k d =
     (case as_text u (json_or (jget settings k) (JStr d)) of Some s \<Rightarrow> s | None \<Rightarrow> [])"

definition parseCsv :: "task_world \<Rightarrow> executor" where
  "parseCsv u settings tc = Reply (uNow u)
     (case as_text u (source_at u settings ''SourceAddress'' (JStr []) tc) of
        Some (c # cs) \<Rightarrow>
          let d = char_setting u settings ''Delimiter'' '','';
              q = char_setting u settings ''QuoteCharacter'' [quote_char];
              trim = (jget settings ''TrimFields'' \<noteq> JBool False);
              row = (\<lambda>line. (if trim then map js_trim else id) (splitCSVLine line d q));
              all = js_split (c # cs) [newline];
              lns = (if jget settings ''SkipEmptyLines'' \<noteq> JBool False then filter (\<lambda>l. js_trim l \<noteq> []) all else all);
              headed = (jget settings ''HasHeaders'' \<noteq> JBool False \<and> lns \<noteq> []);
              headers = (if headed then row (hd lns) else []);
              rows = map row (if headed then tl lns else lns);
              recs = JArr (map (csv_record headers) rows);
              width = foldl max (length headers) (map length rows)
          in answer_with ''Complete''
               [(''Records'', recs), (''ColumnCount'', JInt (int width)), (''Headers'', JArr (map JStr headers))]
               (destination_write u settings recs)
               [''ParseCSV: parsed '' @ show_nat (length rows) @ '' records with '' @
                (if headers = [] then ''no'' else show_nat (length headers)) @ '' headers'']
      | _ \<Rightarrow> answer_with ''Complete'' [(''Records'', JArr [])] [] [''ParseCSV: no input text.''])"

definition coerceToArray :: "task_world \<Rightarrow> json \<Rightarrow> json list" where
  "coerceToArray u v = (case v of
     JArr xs \<Rightarrow> xs
   | _ \<Rightarrow> (case as_text u v of
         Some s \<Rightarrow> (if js_trim s = [] then [] else (case parse_json s of Some (JArr xs) \<Rightarrow> xs | _ \<Rightarrow> []))
       | None \<Rightarrow> []))"

text \<open>A record under one field mapping: \<open>None\<close> where the record or the mapping is null, or the template throws.\<close>

definition map_field :: "task_world \<Rightarrow> json \<Rightarrow> json obj option \<Rightarrow> json \<Rightarrow> json obj option" where
  "map_field u r acc m =
     (case (acc, json_prop u m ''From'', json_prop u m ''To'', json_prop u m ''Template'') of
        (Some out, Some from, Some to, Some template) \<Rightarrow>
          (case json_prop u r (text_value u from) of
             None \<Rightarrow> None
           | Some v \<Rightarrow>
               let key = text_value u (json_or to from)
               in (case uTemplate u of
                     Some parse \<Rightarrow>
                       if truthy template
                       then (case parse (text_value u template) r of
                           Inl msg \<Rightarrow> None
                         | Inr s \<Rightarrow> Some (oset key (JStr s) out))
                       else Some (oset key (if v = JUndef then JStr [] else v) out)
                   | None \<Rightarrow> Some (oset key (if v = JUndef then JStr [] else v) out)))
      | _ \<Rightarrow> None)"

definition map_record :: "task_world \<Rightarrow> json list \<Rightarrow> json \<Rightarrow> json option" where
  "map_record u mappings r = map_option JObj (foldl (map_field u r) (Some []) mappings)"

definition keep_field :: "task_world \<Rightarrow> json \<Rightarrow> json obj option \<Rightarrow> json \<Rightarrow> json obj option" where
  "keep_field u r acc f = (case (acc, json_prop u r (text_value u f)) of
     (Some out, Some v) \<Rightarrow> Some (if v = JUndef then out else oset (text_value u f) v out)
   | _ \<Rightarrow> None)"

definition filter_record :: "task_world \<Rightarrow> json list \<Rightarrow> json \<Rightarrow> json option" where
  "filter_record u outs r = map_option JObj (foldl (keep_field u r) (Some []) outs)"

definition csvTransform :: "task_world \<Rightarrow> executor" where
  "csvTransform u settings tc = reply_or_throw u
     (case source_at u settings ''SourceAddress'' (JArr []) tc of
        JArr recs \<Rightarrow>
          let ms = coerceToArray u (jget settings ''FieldMapping''); outs = coerceToArray u (jget settings ''OutputFields'')
          in (case (if ms = [] then Some recs else map_throw (map_record u ms) recs) of
                None \<Rightarrow> None
              | Some mapped \<Rightarrow>
                  (case (if outs = [] then Some mapped else map_throw (filter_record u outs) mapped) of
                     None \<Rightarrow> None
                   | Some result \<Rightarrow> Some (answer_with ''Complete'' [(''Records'', JArr result)]
                       (destination_write u settings (JArr result))
                       [''CSVTransform: processed '' @ show_nat (length result) @ '' records'' @
                        (if ms = [] then [] else '' with '' @ show_nat (length ms) @ '' field mappings'') @
                        (if outs = [] then [] else '', filtered to '' @ show_nat (length outs) @ '' fields'')])))
      | _ \<Rightarrow> Some (answer_with ''Complete'' [(''Records'', JArr [])] [] [''CSVTransform: source is not an array.'']))"

subsection \<open>Intersection and histogram\<close>

definition array_or_empty :: "json \<Rightarrow> json list" where
  "array_or_empty v = (case v of JArr xs \<Rightarrow> xs | _ \<Rightarrow> [])"

text \<open>The index over the second set: a later record with the same key replaces an earlier one.\<close>

definition index_by :: "task_world \<Rightarrow> string \<Rightarrow> json list \<Rightarrow> json obj option" where
  "index_by u f bs = foldl (\<lambda>acc b. case (acc, json_prop u b f) of
     (Some m, Some k) \<Rightarrow> Some (oset (text_value u k) b m) | _ \<Rightarrow> None) (Some []) bs"

text \<open>\<open>Object.assign({}, a, b)\<close>\<close>

definition assign_records :: "task_world \<Rightarrow> json \<Rightarrow> json \<Rightarrow> json" where
  "assign_records u a b = JObj (seed (object_entries u b) (seed (object_entries u a) []))"

definition intersect_on :: "task_world \<Rightarrow> string \<Rightarrow> json list \<Rightarrow> json list \<Rightarrow> json list option" where
  "intersect_on u f sa sb = (case index_by u f sb of
     None \<Rightarrow> None
   | Some m \<Rightarrow>
       map_option (\<lambda>rs. [r. Some r \<leftarrow> rs])
         (map_throw (\<lambda>a. map_option (\<lambda>k.
             let b = jget m (text_value u k) in if truthy b then Some (assign_records u a b) else None)
           (json_prop u a f)) sa))"

definition intersect_values :: "task_world \<Rightarrow> json list \<Rightarrow> json list \<Rightarrow> json list" where
  "intersect_values u sa sb =
     filter (\<lambda>a. stringify (uStamp u) a \<in> set (map (stringify (uStamp u)) sb)) sa"

definition comprehensionIntersect :: "task_world \<Rightarrow> executor" where
  "comprehensionIntersect u settings tc = reply_or_throw u
     (let sa = array_or_empty (source_at u settings ''SourceAddressA'' (JArr []) tc);
          sb = array_or_empty (source_at u settings ''SourceAddressB'' (JArr []) tc);
          f = json_or (jget settings ''MatchField'') (JStr [])
      in map_option (\<lambda>result. answer_with ''Complete''
             [(''Result'', JArr result), (''MatchCount'', JInt (int (length result)))]
             (destination_write u settings (JArr result))
             [''ComprehensionIntersect: '' @ show_nat (length sa) @ '' x '' @ show_nat (length sb) @ '' -> '' @
              show_nat (length result) @ '' results''])
           (if truthy f then intersect_on u (text_value u f) sa sb else Some (intersect_values u sa sb)))"

text \<open>The frequencies in the order of the first occurrence; sorted by count (falling) or by key.\<close>

definition count_key :: "nat obj \<Rightarrow> string \<Rightarrow> nat obj" where
  "count_key m k = oset k ((case oget m k of None \<Rightarrow> 0 | Some n \<Rightarrow> n) + 1) m"

definition frequencies :: "task_world \<Rightarrow> json \<Rightarrow> json list \<Rightarrow> nat obj option" where
  "frequencies u f xs = map_option (\<lambda>ks. foldl count_key [] ks)
     (map_throw (\<lambda>x. map_option (text_value u) (if truthy f then json_prop u x (text_value u f) else Some x)) xs)"

definition sort_frequencies :: "task_world \<Rightarrow> (string \<Rightarrow> string \<Rightarrow> int) \<Rightarrow> json \<Rightarrow> nat obj \<Rightarrow> nat obj" where
  "sort_frequencies u collate by_what fr =
     (if as_text u by_what = Some ''count'' then sort_by (\<lambda>a b. int (snd b) - int (snd a)) fr
      else if as_text u by_what = Some ''key'' then sort_by (\<lambda>a b. collate (fst a) (fst b)) fr
      else fr)"

definition histogram :: "task_world \<Rightarrow> (string \<Rightarrow> string \<Rightarrow> int) \<Rightarrow> executor" where
  "histogram u collate settings tc = reply_or_throw u
     (case source_at u settings ''SourceAddress'' (JArr []) tc of
        JArr xs \<Rightarrow>
          map_option (\<lambda>fr0.
            let fr = sort_frequencies u collate (jget settings ''SortBy'') fr0;
                stats = JObj [(''TotalRecords'', JInt (int (length xs))), (''UniqueValues'', JInt (int (length fr))),
                  (''Frequency'', JObj (map (\<lambda>(k, n). (k, JInt (int n))) fr))]
            in answer_with ''Complete'' [(''Stats'', stats)] (destination_write u settings stats)
                 [''Histogram: analyzed '' @ show_nat (length xs) @ '' records, '' @ show_nat (length fr) @ '' unique values''])
          (frequencies u (json_or (jget settings ''Field'') (JStr [])) xs)
      | _ \<Rightarrow> Some (answer_with ''Complete'' [(''Stats'', JObj [])] [] [''Histogram: source is not an array.'']))"

end
