(* ===== verification/FlowLoop.thy ===== *)
theory FlowLoop
  imports FlowTasks EngineProperties
begin

section \<open>A loop over tokens on the engine\<close>

text \<open>
  \<open>split-execute\<close> makes a loop out of a graph with a cycle: it fires \<open>TokenDataSent\<close>, the worker node
  behind it fires \<open>StepComplete\<close> back, until the tokens are used up. The loop is followed step by step on
  the engine: how many steps a round takes, and what the run holds after it.
\<close>

subsection \<open>Events and their rounds\<close>

text \<open>The node is on the graph, its type is registered, and the executor of the type is \<open>ex\<close>.\<close>

definition node_runs :: "engine_env \<Rightarrow> run \<Rightarrow> string \<Rightarrow> executor \<Rightarrow> bool" where
  "node_runs env c n ex \<longleftrightarrow> (\<exists>nd def ty.
     oget (rNodeMap c) n = Some nd \<and> nType nd \<noteq> ''start'' \<and> nType nd \<noteq> ''end'' \<and>
     getDefinition (vRegistry env) (definition_hash nd) = Some def \<and>
     instantiateTaskType (vRegistry env) (definition_hash nd) = Some ty \<and> yExecute ty = Some ex)"

text \<open>The settings the engine resolves for a node.\<close>

definition node_settings :: "engine_env \<Rightarrow> run \<Rightarrow> string \<Rightarrow> json obj" where
  "node_settings env c n = (case oget (rNodeMap c) n of
     None \<Rightarrow> []
   | Some nd \<Rightarrow> (case getDefinition (vRegistry env) (definition_hash nd) of
         None \<Rightarrow> []
       | Some def \<Rightarrow> resolveStateConnections env n nd def c))"

lemma node_runs_keeps: "keeps c c' \<Longrightarrow> node_runs env c' n ex = node_runs env c n ex"
  by (simp add: keeps_def node_runs_def)

text \<open>Outputs and files that an operation leaves alone.\<close>

definition same_outputs :: "run \<Rightarrow> run \<Rightarrow> bool" where
  "same_outputs c c' \<longleftrightarrow> rTaskOutputs c' = rTaskOutputs c \<and> rDisk c' = rDisk c"

lemma same_outputs_refl [simp]: "same_outputs c c"
  by (simp add: same_outputs_def)

lemma same_outputs_run [simp]:
  "same_outputs a (run_log m c) = same_outputs a c" "same_outputs a (add_effect e c) = same_outputs a c"
  "same_outputs a (at_time t c) = same_outputs a c" "same_outputs a (recordEvent n ev m v c) = same_outputs a c"
  "same_outputs a (recordTaskStart n ev dh def c) = same_outputs a c"
  "same_outputs a (recordTaskComplete n res c) = same_outputs a c"
  "same_outputs a (checkpoint env c) = same_outputs a c" "same_outputs a (add_error x m c) = same_outputs a c"
  "same_outputs a (enqueueDownstreamEvents n ev c) = same_outputs a c"
  "same_outputs a (dequeueEvent e' es c) = same_outputs a c"
  by (simp_all add: same_outputs_def run_log_def add_effect_def at_time_def recordEvent_def
      recordTaskStart_def on_last_execution_def recordTaskComplete_def checkpoint_def writeManifest_def
      add_error_def enqueueDownstreamEvents_def dequeueEvent_def Let_def split: option.split)

lemma same_outputs_log [simp]:
  "same_outputs a (foldl (\<lambda>c l. run_log (f l) c) c ls) = same_outputs a c"
  by (induction ls arbitrary: c) auto

lemma same_outputs_trans: "same_outputs a b \<Longrightarrow> same_outputs b c \<Longrightarrow> same_outputs a c"
  by (simp add: same_outputs_def)

text \<open>An event for such a node: the engine starts its executor.\<close>

lemma startTask_runs:
  assumes "node_runs env c n ex"
  shows "\<exists>c'. startTask env n ev c = (c', Some (ex (node_settings env c n) (taskContext n ev c'))) \<and>
    keeps c c' \<and> same_outputs c c' \<and> rPendingEvents c' = rPendingEvents c"
proof -
  obtain nd def ty where nd: "oget (rNodeMap c) n = Some nd" "nType nd \<noteq> ''start''" "nType nd \<noteq> ''end''"
    "getDefinition (vRegistry env) (definition_hash nd) = Some def"
    "instantiateTaskType (vRegistry env) (definition_hash nd) = Some ty" "yExecute ty = Some ex"
    using assms by (auto simp: node_runs_def)
  let ?c2 = "run_log (''Executing node ['' @ n @ ''] ('' @ dName def @ '') triggered by ['' @ ev @ '']'')
    (recordEvent n ''TaskStart''
      (''Executing ['' @ n @ ''] ('' @ str_or (dName def) (definition_hash nd) @ '') triggered by ['' @ ev @ '']'') 0
      (recordTaskStart n ev (definition_hash nd) def c))"
  have s: "startTask env n ev c = (?c2, Some (ex (node_settings env c n) (taskContext n ev ?c2)))"
    using nd by (simp add: startTask_def node_settings_def task_execute_def Let_def)
  moreover have "keeps c ?c2" by (intro keeps_intros)
  moreover have "same_outputs c ?c2"
    by simp
  moreover have "rPendingEvents ?c2 = rPendingEvents c" by (simp add: queue_simps)
  ultimately show ?thesis by blast
qed

text \<open>A result without state writes: its outputs are merged, its event goes to the queue.\<close>

lemma finishTask_result:
  assumes "\<not> sWaitingForInput res" "sEventToFire res \<noteq> []" "sStateWrites res = []"
  shows "rPendingEvents (finishTask env n (TaskResult res) c) =
      rPendingEvents c @ getDownstreamEvents n (sEventToFire res) c"
    and "same_outputs (case sOutputs res of None \<Rightarrow> c | Some outs \<Rightarrow> merge_outputs env n outs c)
      (finishTask env n (TaskResult res) c)"
proof -
  let ?c5 = "storeResult env n res c"
  have f: "finishTask env n (TaskResult res) c = fireResult env n res ?c5"
    using assms by (simp add: finishTask_def taskCompletes_def)
  have k: "keeps c ?c5" by (intro keeps_intros)
  show "rPendingEvents (finishTask env n (TaskResult res) c) =
      rPendingEvents c @ getDownstreamEvents n (sEventToFire res) c"
    unfolding f using assms
    by (simp add: fireResult_def Let_def queue_simps enqueueDownstream_pending downstream_keeps [OF k])
  let ?m = "case sOutputs res of None \<Rightarrow> c | Some outs \<Rightarrow> merge_outputs env n outs c"
  have "same_outputs ?m ?c5"
    by (simp add: storeResult_def Let_def assms(3) split: option.split)
  moreover have "same_outputs ?c5 (fireResult env n res ?c5)"
    by (simp add: fireResult_def Let_def)
  ultimately show "same_outputs ?m (finishTask env n (TaskResult res) c)"
    unfolding f by (rule same_outputs_trans)
qed

text \<open>The execution of one event, two steps of the engine.\<close>

definition merged :: "engine_env \<Rightarrow> run \<Rightarrow> string \<Rightarrow> json obj option \<Rightarrow> json obj \<times> disk" where
  "merged env c n outs = (case outs of
     None \<Rightarrow> (rTaskOutputs c, rDisk c)
   | Some fs \<Rightarrow> mergeAndLift (vWritable env) (vThreshold env) (rStagingPath c) n fs (rTaskOutputs c) (rDisk c))"

lemma merge_outputs_merged:
  "(rTaskOutputs (merge_outputs env n outs c), rDisk (merge_outputs env n outs c)) = merged env c n (Some outs)"
  by (simp add: merge_outputs_def merged_def split: prod.split)

lemma exec_round:
  assumes runs: "node_runs env c n ex"
    and reply: "\<And>c'. keeps c c' \<Longrightarrow> same_outputs c c' \<Longrightarrow>
      ex (node_settings env c n) (taskContext n ev c') = Reply t (TaskResult res)"
    and res: "\<not> sWaitingForInput res" "sEventToFire res \<noteq> []" "sStateWrites res = []"
  shows "\<exists>c'. (engineStep env ^^ 2) (Exec \<lparr>TargetNodeHash = n, EventName = ev\<rparr> # fs, c) = (fs, c') \<and>
    keeps c c' \<and> rPendingEvents c' = rPendingEvents c @ getDownstreamEvents n (sEventToFire res) c \<and>
    (rTaskOutputs c', rDisk c') = merged env c n (sOutputs res)"
proof -
  obtain c1 where c1: "startTask env n ev c = (c1, Some (ex (node_settings env c n) (taskContext n ev c1)))"
    "keeps c c1" "same_outputs c c1" "rPendingEvents c1 = rPendingEvents c"
    using startTask_runs [OF runs] by blast
  let ?c2 = "at_time t c1"
  let ?c' = "finishTask env n (TaskResult res) ?c2"
  have k2: "keeps c ?c2" by (intro keeps_intros c1(2))
  have steps: "(engineStep env ^^ 2) (Exec \<lparr>TargetNodeHash = n, EventName = ev\<rparr> # fs, c) = (fs, ?c')"
    using c1(1) reply [OF c1(2,3)] by (simp add: numeral_2_eq_2 taskStep_def)
  have o2: "same_outputs c ?c2" using c1(3) by simp
  have "(rTaskOutputs ?c', rDisk ?c') = merged env ?c2 n (sOutputs res)"
    using finishTask_result(2) [OF res, of ?c2 env n] merge_outputs_merged [of env n _ ?c2]
    by (auto simp: same_outputs_def merged_def split: option.splits)
  also have "\<dots> = merged env c n (sOutputs res)"
    using o2 k2 by (auto simp: merged_def same_outputs_def keeps_def split: option.split)
  finally have out: "(rTaskOutputs ?c', rDisk ?c') = merged env c n (sOutputs res)" .
  have "rPendingEvents ?c' = rPendingEvents c @ getDownstreamEvents n (sEventToFire res) c"
    using finishTask_result(1) [OF res, of env n ?c2] c1(4) by (simp add: queue_simps downstream_keeps [OF k2])
  moreover have "keeps c ?c'" by (rule finishTask_keeps [OF k2])
  ultimately show ?thesis using steps out by blast
qed

text \<open>The queue hands over its only event.\<close>

lemma queue_round:
  assumes "rPendingEvents c = [e]"
  shows "\<exists>c'. engineStep env (Queue # fs, c) = (Exec e # Queue # fs, c') \<and> keeps c c' \<and>
    same_outputs c c' \<and> rPendingEvents c' = []"
proof -
  have "keeps c (dequeueEvent e [] c)" unfolding dequeueEvent_def by (intro keeps_intros)
  then show ?thesis using assms by (simp add: dequeueEvent_def queue_simps) (simp add: same_outputs_def recordEvent_def)
qed

subsection \<open>The loop\<close>

text \<open>
  The nodes \<open>n\<close> and \<open>w\<close> of a run: \<open>n\<close> splits, the task of \<open>w\<close> may do anything that ends with the event
  \<open>done\<close> and writes no state, and the two are connected to a circle.
\<close>

definition worker_task :: "executor \<Rightarrow> string \<Rightarrow> bool" where
  "worker_task work fin \<longleftrightarrow> (\<forall>settings tc. \<exists>t res. work settings tc = Reply t (TaskResult res) \<and>
     \<not> sWaitingForInput res \<and> sEventToFire res = fin \<and> sStateWrites res = [])"

definition split_loop :: "engine_env \<Rightarrow> task_world \<Rightarrow> string \<Rightarrow> string \<Rightarrow> string \<Rightarrow> run \<Rightarrow> bool" where
  "split_loop env u n w inp c \<longleftrightarrow> n \<noteq> w \<and> node_runs env c n (splitExecute u) \<and>
     (\<exists>work fin. fin \<noteq> [] \<and> worker_task work fin \<and> node_runs env c w work \<and>
       getDownstreamEvents w fin c = [\<lparr>TargetNodeHash = n, EventName = ''StepComplete''\<rparr>]) \<and>
     getDownstreamEvents n ''TokenDataSent'' c = [\<lparr>TargetNodeHash = w, EventName = inp\<rparr>]"

lemma split_loop_keeps: "keeps c c' \<Longrightarrow> split_loop env u n w inp c' = split_loop env u n w inp c"
  by (simp add: split_loop_def node_runs_keeps downstream_keeps)

text \<open>What the worker finds as the current token, whenever its task is about to be executed.\<close>

fun worker_trace :: "engine_env \<Rightarrow> string \<Rightarrow> string \<Rightarrow> nat \<Rightarrow> config \<Rightarrow> json list" where
  "worker_trace env n w 0 cf = []"
| "worker_trace env n w (Suc k) (fs, c) =
     (case fs of
        Exec e # _ \<Rightarrow>
          if TargetNodeHash e = w
          then [materializeIfRef c (jfield (output_or_new (rTaskOutputs c) n) ''CurrentToken'')] else []
      | _ \<Rightarrow> []) @ worker_trace env n w k (engineStep env (fs, c))"

lemma worker_trace_add:
  "worker_trace env n w (j + k) cf =
    worker_trace env n w j cf @ worker_trace env n w k ((engineStep env ^^ j) cf)"
proof (induction j arbitrary: cf)
  case (Suc j)
  obtain fs c where "cf = (fs, c)" by fastforce
  then show ?case using Suc [of "engineStep env cf"] by (simp add: funpow_swap1)
qed simp

text \<open>The position of the loop in the outputs of the node.\<close>

definition split_state :: "string \<Rightarrow> string list \<Rightarrow> nat \<Rightarrow> run \<Rightarrow> bool" where
  "split_state n toks i c \<longleftrightarrow>
     (let entry = output_or_new (rTaskOutputs c) n
      in is_obj entry \<and> jfield entry ''_Tokens'' = JArr (map JStr toks) \<and>
         jfield entry ''TokenIndex'' = JInt (int i) \<and> jfield entry ''CompletedCount'' = JInt (int i))"

definition token_ready :: "string \<Rightarrow> string \<Rightarrow> run \<Rightarrow> bool" where
  "token_ready n tok c \<longleftrightarrow> materializeIfRef c (jfield (output_or_new (rTaskOutputs c) n) ''CurrentToken'') = JStr tok"

lemma token_ports: "distinct (map (safeSegment \<circ> fst) (token_outputs toks cur idx done))"
  by (simp add: token_outputs_def safeSegment_def safe_char_def)

lemma not_a_file: "materializeRefValue d st x = v \<Longrightarrow> v \<noteq> JUndef \<Longrightarrow> (\<And>s. v \<noteq> JStr s) \<Longrightarrow> x = v"
  by (auto simp: materializeRefValue_def split: if_splits option.splits)

text \<open>Merging the outputs of the splitting node moves the loop on.\<close>

lemma merge_is_obj:
  assumes "mergeAndLift w th st n fs outs d = (outs', d')" "is_obj (output_or_new outs n)"
    and "distinct (map (safeSegment \<circ> fst) fs)" "\<forall>(k, v) \<in> set fs. \<not> isOutputRef v"
  shows "is_obj (jget outs' n) \<and> output_or_new outs' n = jget outs' n"
proof -
  obtain t where m: "mergeFields w th st n fs (output_or_new outs n, d) = (t, d')" and o: "outs' = oset n t outs"
    using assms(1) by (auto simp: mergeAndLift_def split: prod.splits)
  have "is_obj t" using mergeFields_spec [OF m assms(2-4)] by blast
  then show ?thesis by (simp add: o output_or_new_def is_obj_truthy Let_def)
qed

lemma split_state_merged:
  assumes "is_obj (output_or_new (rTaskOutputs c) n)" "keeps c c'"
    and m: "(rTaskOutputs c', rDisk c') = merged env c n
      (Some (token_outputs (map JStr toks) (JStr tok) (JInt (int i)) (JInt (int j))))"
  shows "is_obj (output_or_new (rTaskOutputs c') n)"
    and "jfield (output_or_new (rTaskOutputs c') n) ''_Tokens'' = JArr (map JStr toks)"
    and "jfield (output_or_new (rTaskOutputs c') n) ''TokenIndex'' = JInt (int i)"
    and "jfield (output_or_new (rTaskOutputs c') n) ''CompletedCount'' = JInt (int j)"
    and "materializeIfRef c' (jfield (output_or_new (rTaskOutputs c') n) ''CurrentToken'') = JStr tok"
proof -
  let ?outs = "token_outputs (map JStr toks) (JStr tok) (JInt (int i)) (JInt (int j))"
  have m': "mergeAndLift (vWritable env) (vThreshold env) (rStagingPath c) n ?outs (rTaskOutputs c) (rDisk c) =
      (rTaskOutputs c', rDisk c')"
    using m by (simp add: merged_def)
  have refs: "\<forall>(k, v) \<in> set ?outs. \<not> isOutputRef v" by (simp add: token_outputs_def JInt_def)
  note entry = merge_is_obj [OF m' assms(1) token_ports refs]
  then show "is_obj (output_or_new (rTaskOutputs c') n)" by simp
  have read: "materializeRefValue (rDisk c') (rStagingPath c) (jfield (output_or_new (rTaskOutputs c') n) k) = v"
    if "(k, v) \<in> set ?outs" for k v
    using mergeAndLift_spec(1) [OF m' assms(1) token_ports refs] that entry by auto
  show "jfield (output_or_new (rTaskOutputs c') n) ''_Tokens'' = JArr (map JStr toks)"
    by (rule not_a_file [OF read]) (simp_all add: token_outputs_def)
  show "jfield (output_or_new (rTaskOutputs c') n) ''TokenIndex'' = JInt (int i)"
    by (rule not_a_file [OF read]) (simp_all add: token_outputs_def JInt_def)
  show "jfield (output_or_new (rTaskOutputs c') n) ''CompletedCount'' = JInt (int j)"
    by (rule not_a_file [OF read]) (simp_all add: token_outputs_def JInt_def)
  have "rStagingPath c' = rStagingPath c" using assms(2) by (simp add: keeps_def)
  then show "materializeIfRef c' (jfield (output_or_new (rTaskOutputs c') n) ''CurrentToken'') = JStr tok"
    using read [of "''CurrentToken''" "JStr tok"] by (simp add: materializeIfRef_def token_outputs_def)
qed

text \<open>The answer of the splitting node to \<open>StepComplete\<close>.\<close>

lemma json_index_int:
  "i < length xs \<Longrightarrow> json_index u xs (JInt (int i)) = xs ! i"
  by (simp add: json_index_def JInt_def)

lemma step_complete_answer:
  assumes "split_state n toks i c" "i < length toks"
  defines "next \<equiv> (if i + 1 < length toks then i + 1 else i)"
  shows "\<exists>lg. handleStepComplete u (taskContext n ev c) =
    answer_with (if i + 1 < length toks then ''TokenDataSent'' else ''CompletedAllSubtasks'')
      (token_outputs (map JStr toks) (JStr (toks ! next)) (JInt (int next)) (JInt (int (i + 1)))) [] lg"
proof -
  have plus: "plus_one u (json_or (JInt (int i)) (JInt 0)) = JInt (int (i + 1))"
    by (simp add: plus_one_def json_or_def JInt_def)
  have num: "js_number (uStamp u) (JInt k) = Fin (of_int k)" for k by (simp add: js_number_def JInt_def)
  show ?thesis
  proof (cases "i + 1 < length toks")
    case True
    then have "\<not> num_le (Fin (of_nat (length toks))) (Fin (of_int (int (i + 1))))"
      by simp
    with True show ?thesis
      using assms(1) json_index_int [of "i + 1" "map JStr toks" u] unfolding next_def
      by (simp add: handleStepComplete_def split_state_def taskContext_def plus num Let_def as_text_def
          del: num_le.simps of_nat_add of_nat_Suc) (rule exI, rule refl)
  next
    case False
    with assms(2) have len: "length toks = Suc i" by simp
    have idx: "JInt (int (length toks) - 1) = JInt (int i)" by (simp add: len)
    have "num_le (Fin (of_nat (length toks))) (Fin (of_int (int (i + 1))))" by (simp add: len)
    with False show ?thesis
      using assms(1,2) json_index_int [of i "map JStr toks" u] unfolding next_def
      by (simp add: handleStepComplete_def split_state_def taskContext_def plus num Let_def as_text_def idx
          del: num_le.simps of_nat_add of_nat_Suc) (simp add: len, rule exI, rule refl)
  qed
qed

lemma step_complete_cong:
  assumes "same_outputs c c'"
  shows "handleStepComplete u (taskContext n ev c') = handleStepComplete u (taskContext n ev c)"
  using assms by (simp add: handleStepComplete_def taskContext_def same_outputs_def)

lemma split_state_same:
  "same_outputs c c' \<Longrightarrow> split_state n toks i c' = split_state n toks i c"
  by (simp add: split_state_def same_outputs_def)

text \<open>The splitting node is called back.\<close>

lemma split_round:
  assumes "split_loop env u n w inp c" "split_state n toks i c" "i < length toks" "rPendingEvents c = []"
  shows "\<exists>c'. (engineStep env ^^ 2) (Exec \<lparr>TargetNodeHash = n, EventName = ''StepComplete''\<rparr> # fs, c) = (fs, c') \<and>
    keeps c c' \<and>
    (if i + 1 < length toks
     then split_state n toks (i + 1) c' \<and> token_ready n (toks ! (i + 1)) c' \<and> rPendingEvents c' = [\<lparr>TargetNodeHash = w, EventName = inp\<rparr>]
     else jfield (output_or_new (rTaskOutputs c') n) ''CompletedCount'' = JInt (int (length toks)) \<and>
       rPendingEvents c' = getDownstreamEvents n ''CompletedAllSubtasks'' c)"
proof -
  let ?nxt = "if i + 1 < length toks then i + 1 else i"
  let ?ev = "if i + 1 < length toks then ''TokenDataSent'' else ''CompletedAllSubtasks''"
  let ?outs = "token_outputs (map JStr toks) (JStr (toks ! ?nxt)) (JInt (int ?nxt)) (JInt (int (i + 1)))"
  obtain lg where a: "handleStepComplete u (taskContext n ''StepComplete'' c) = answer_with ?ev ?outs [] lg"
    using step_complete_answer [OF assms(2,3), of u "''StepComplete''"] by blast
  define res where "res = (case answer_with ?ev ?outs [] lg of TaskResult r \<Rightarrow> r)"
  have res: "answer_with ?ev ?outs [] lg = TaskResult res" "\<not> sWaitingForInput res" "sEventToFire res = ?ev"
    "sStateWrites res = []" "sOutputs res = Some ?outs" "sEventToFire res \<noteq> []"
    by (simp_all add: res_def answer_with_def)
  have runs: "node_runs env c n (splitExecute u)" using assms(1) by (simp add: split_loop_def)
  have reply: "splitExecute u (node_settings env c n) (taskContext n ''StepComplete'' c1) = Reply (uNow u) (TaskResult res)"
    if "same_outputs c c1" for c1
    using step_complete_cong [OF that, of u n "''StepComplete''"] a res(1)
    by (simp add: splitExecute_def) (simp add: taskContext_def)
  obtain c' where c': "(engineStep env ^^ 2) (Exec \<lparr>TargetNodeHash = n, EventName = ''StepComplete''\<rparr> # fs, c) = (fs, c')"
    "keeps c c'" "rPendingEvents c' = getDownstreamEvents n ?ev c"
    "(rTaskOutputs c', rDisk c') = merged env c n (Some ?outs)"
    using exec_round [OF runs reply res(2,6,4), where fs = fs] unfolding res(3,5) assms(4) by auto
  have obj: "is_obj (output_or_new (rTaskOutputs c) n)" using assms(2) by (simp add: split_state_def Let_def)
  note st = split_state_merged [OF obj c'(2,4)]
  show ?thesis
  proof (cases "i + 1 < length toks")
    case True
    then have "split_state n toks (i + 1) c' \<and> token_ready n (toks ! (i + 1)) c'"
      using st by (simp add: split_state_def token_ready_def)
    moreover have "rPendingEvents c' = [\<lparr>TargetNodeHash = w, EventName = inp\<rparr>]"
      using True c'(3) assms(1) by (simp add: split_loop_def)
    ultimately show ?thesis using True c'(1,2) by auto
  next
    case False
    then have "int (i + 1) = int (length toks)" using assms(3) by simp
    with st(4) have "jfield (output_or_new (rTaskOutputs c') n) ''CompletedCount'' = JInt (int (length toks))"
      by (simp only:)
    with False c' show ?thesis by auto
  qed
qed

text \<open>The worker is called, with the loop where it was.\<close>

lemma worker_round:
  assumes "split_loop env u n w inp c" "split_state n toks i c" "rPendingEvents c = []"
  shows "\<exists>c'. (engineStep env ^^ 2) (Exec \<lparr>TargetNodeHash = w, EventName = inp\<rparr> # fs, c) = (fs, c') \<and>
    keeps c c' \<and> split_state n toks i c' \<and> rPendingEvents c' = [\<lparr>TargetNodeHash = n, EventName = ''StepComplete''\<rparr>]"
proof -
  obtain work fin where w: "fin \<noteq> []" "worker_task work fin" "node_runs env c w work" "n \<noteq> w"
    "getDownstreamEvents w fin c = [\<lparr>TargetNodeHash = n, EventName = ''StepComplete''\<rparr>]"
    using assms(1) by (auto simp: split_loop_def)
  obtain c1 where c1: "startTask env w inp c = (c1, Some (work (node_settings env c w) (taskContext w inp c1)))"
    "keeps c c1" "same_outputs c c1" "rPendingEvents c1 = rPendingEvents c"
    using startTask_runs [OF w(3)] by blast
  obtain t res where res: "work (node_settings env c w) (taskContext w inp c1) = Reply t (TaskResult res)"
    "\<not> sWaitingForInput res" "sEventToFire res = fin" "sStateWrites res = []"
    using w(2) unfolding worker_task_def by blast
  let ?c2 = "at_time t c1"
  let ?c' = "finishTask env w (TaskResult res) ?c2"
  have k2: "keeps c ?c2" by (intro keeps_intros c1(2))
  have steps: "(engineStep env ^^ 2) (Exec \<lparr>TargetNodeHash = w, EventName = inp\<rparr> # fs, c) = (fs, ?c')"
    using c1(1) res(1) by (simp add: numeral_2_eq_2 taskStep_def)
  have fire: "sEventToFire res \<noteq> []" using res(3) w(1) by simp
  have "jget (rTaskOutputs (case sOutputs res of None \<Rightarrow> ?c2 | Some outs \<Rightarrow> merge_outputs env w outs ?c2)) n =
      jget (rTaskOutputs c) n"
    using w(4) c1(3)
    by (auto simp: merge_outputs_def mergeAndLift_def same_outputs_def at_time_def split: option.split prod.split)
  then have "jget (rTaskOutputs ?c') n = jget (rTaskOutputs c) n"
    using finishTask_result(2) [OF res(2) fire res(4), of ?c2 env w] by (simp add: same_outputs_def)
  then have "split_state n toks i ?c'" using assms(2) by (simp add: split_state_def output_or_new_def)
  moreover have "rPendingEvents ?c' = [\<lparr>TargetNodeHash = n, EventName = ''StepComplete''\<rparr>]"
    using finishTask_result(1) [OF res(2) fire res(4), of env w ?c2] c1(4) w(5) res(3) assms(3)
    by (simp add: queue_simps downstream_keeps [OF k2])
  moreover have "keeps c ?c'" by (rule finishTask_keeps [OF k2])
  ultimately show ?thesis using steps by blast
qed

lemma worker_trace_exec:
  assumes "node_runs env c m ex"
  shows "worker_trace env n w 2 (Exec \<lparr>TargetNodeHash = m, EventName = ev\<rparr> # fs, c) =
    (if m = w then [materializeIfRef c (jfield (output_or_new (rTaskOutputs c) n) ''CurrentToken'')] else [])"
  using startTask_runs [OF assms, of ev] by (auto simp: numeral_2_eq_2)

lemma six_steps:
  assumes "f x = x1" "(f ^^ 2) x1 = x2" "f x2 = x3" "(f ^^ 2) x3 = x4"
  shows "(f ^^ 6) x = x4"
proof -
  have "(f ^^ ((2 + 1) + (2 + 1))) x = x4" using assms by (simp only: funpow_add o_apply) simp
  then show ?thesis by simp
qed

text \<open>
  From the moment the worker's event is in the queue with the loop at token \<open>i\<close>: the worker gets this
  token and all that follow, then the event of the end is fired. Six steps a round.
\<close>

lemma rounds:
  assumes "split_loop env u n w inp c" "split_state n toks i c" "i < length toks"
    and "token_ready n (toks ! i) c" "rPendingEvents c = [\<lparr>TargetNodeHash = w, EventName = inp\<rparr>]"
  shows "\<exists>c'. (engineStep env ^^ (6 * (length toks - i))) ([Queue], c) = ([Queue], c') \<and> keeps c c' \<and>
    worker_trace env n w (6 * (length toks - i)) ([Queue], c) = map JStr (drop i toks) \<and>
    rPendingEvents c' = getDownstreamEvents n ''CompletedAllSubtasks'' c \<and>
    jfield (output_or_new (rTaskOutputs c') n) ''CompletedCount'' = JInt (int (length toks))"
  using assms
proof (induction "length toks - i" arbitrary: i c)
  case (Suc k)
  let ?W = "\<lparr>TargetNodeHash = w, EventName = inp\<rparr>" and ?S = "\<lparr>TargetNodeHash = n, EventName = ''StepComplete''\<rparr>"
  have nw: "n \<noteq> w" using Suc.prems(1) by (simp add: split_loop_def)
  obtain c1 where c1: "engineStep env ([Queue], c) = ([Exec ?W, Queue], c1)" "keeps c c1" "same_outputs c c1"
      "rPendingEvents c1 = []"
    using queue_round [OF Suc.prems(5), of env "[]"] by auto
  obtain c2 where c2: "(engineStep env ^^ 2) ([Exec ?W, Queue], c1) = ([Queue], c2)" "keeps c1 c2"
      "split_state n toks i c2" "rPendingEvents c2 = [?S]"
    using worker_round [of env u n w inp c1 toks i "[Queue]"] Suc.prems(1,2) c1(2-4)
    by (auto simp: split_loop_keeps split_state_same)
  obtain c3 where c3: "engineStep env ([Queue], c2) = ([Exec ?S, Queue], c3)" "keeps c2 c3" "same_outputs c2 c3"
      "rPendingEvents c3 = []"
    using queue_round [OF c2(4), of env "[]"] by auto
  have k3: "keeps c c3" using keeps_trans [OF keeps_trans [OF c1(2) c2(2)] c3(2)] .
  have l3: "split_loop env u n w inp c3" "split_state n toks i c3"
    using Suc.prems(1) c2(3) c3(3) k3 by (simp_all add: split_loop_keeps split_state_same)
  obtain c4 where c4: "(engineStep env ^^ 2) ([Exec ?S, Queue], c3) = ([Queue], c4)" "keeps c3 c4"
      "if i + 1 < length toks
       then split_state n toks (i + 1) c4 \<and> token_ready n (toks ! (i + 1)) c4 \<and> rPendingEvents c4 = [?W]
       else jfield (output_or_new (rTaskOutputs c4) n) ''CompletedCount'' = JInt (int (length toks)) \<and>
         rPendingEvents c4 = getDownstreamEvents n ''CompletedAllSubtasks'' c3"
    using split_round [OF l3 Suc.prems(3) c3(4), of "[Queue]"] by blast
  have k4: "keeps c c4" using keeps_trans [OF k3 c4(2)] .
  have token: "token_ready n (toks ! i) c1"
    using Suc.prems(4) c1(2,3) by (simp add: token_ready_def same_outputs_def keeps_def materializeIfRef_def)
  have six: "(engineStep env ^^ 6) ([Queue], c) = ([Queue], c4)"
    by (rule six_steps [OF c1(1) c2(1) c3(1) c4(1)])
  have runs: "node_runs env c1 w work \<Longrightarrow> worker_trace env n w 2 ([Exec ?W, Queue], c1) = [JStr (toks ! i)]" for work
    using worker_trace_exec [of env c1 w work n w inp "[Queue]"] token by (simp add: token_ready_def)
  have trace: "worker_trace env n w 6 ([Queue], c) = [JStr (toks ! i)]"
  proof -
    have w: "worker_trace env n w 2 ([Exec ?W, Queue], c1) = [JStr (toks ! i)]"
      using Suc.prems(1) runs by (auto simp: split_loop_def node_runs_keeps [OF c1(2)])
    have s: "worker_trace env n w 2 ([Exec ?S, Queue], c3) = []"
      using l3(1) worker_trace_exec [of env c3 n _ n w "''StepComplete''" "[Queue]"] by (auto simp: split_loop_def)
    have "worker_trace env n w (1 + (2 + (1 + 2))) ([Queue], c) = [JStr (toks ! i)]"
      unfolding worker_trace_add by (simp add: c1(1) c2(1) c3(1) w s del: engineStep.simps)
    then show ?thesis by simp
  qed
  show ?case
  proof (cases "i + 1 < length toks")
    case True
    then have st: "split_state n toks (i + 1) c4" "token_ready n (toks ! (i + 1)) c4" "rPendingEvents c4 = [?W]"
      using c4(3) by auto
    have "k = length toks - (i + 1)" using Suc.hyps(2) by simp
    from Suc.hyps(1) [OF this _ st(1) True st(2,3)] obtain c' where c':
      "(engineStep env ^^ (6 * k)) ([Queue], c4) = ([Queue], c')" "keeps c4 c'"
      "worker_trace env n w (6 * k) ([Queue], c4) = map JStr (drop (i + 1) toks)"
      "rPendingEvents c' = getDownstreamEvents n ''CompletedAllSubtasks'' c4"
      "jfield (output_or_new (rTaskOutputs c') n) ''CompletedCount'' = JInt (int (length toks))"
      using Suc.prems(1) k4 \<open>k = _\<close> by (auto simp: split_loop_keeps)
    have len: "6 * (length toks - i) = 6 * k + 6" using Suc.hyps(2) by simp
    have "(engineStep env ^^ (6 * (length toks - i))) ([Queue], c) = ([Queue], c')"
      unfolding len funpow_add using six c'(1) by simp
    moreover have "worker_trace env n w (6 * (length toks - i)) ([Queue], c) = map JStr (drop i toks)"
      unfolding len add.commute [of "6 * k"] worker_trace_add
      using six trace c'(3) by (simp add: Cons_nth_drop_Suc [OF Suc.prems(3), symmetric])
    moreover have "rPendingEvents c' = getDownstreamEvents n ''CompletedAllSubtasks'' c"
      using c'(4) by (simp add: downstream_keeps [OF k4])
    ultimately show ?thesis using keeps_trans [OF k4 c'(2)] c'(5) by blast
  next
    case False
    then have len: "6 * (length toks - i) = 6" and d: "drop i toks = [toks ! i]"
      using Suc.prems(3) Cons_nth_drop_Suc [OF Suc.prems(3)] by auto
    show ?thesis
      unfolding len d using six trace c4(3) False k4 by (auto simp: downstream_keeps [OF k3])
  qed
qed simp

subsection \<open>The whole loop\<close>

text \<open>The answer to the event that starts the loop.\<close>

definition first_outputs :: "string list \<Rightarrow> json obj" where
  "first_outputs toks = (case toks of
     [] \<Rightarrow> [(''CurrentToken'', JStr []), (''TokenIndex'', JInt 0), (''TokenCount'', JInt 0), (''CompletedCount'', JInt 0)]
   | t # ts \<Rightarrow> token_outputs (map JStr (t # ts)) (JStr t) (JInt (int 0)) (JInt (int 0)))"

definition first_event :: "string list \<Rightarrow> string" where
  "first_event toks = (if toks = [] then ''CompletedAllSubtasks'' else ''TokenDataSent'')"

lemma perform_split_answer:
  assumes "as_text u (jget settings ''InputString'') = Some s"
  shows "\<exists>lg. handlePerformSplit u settings =
    answer_with (first_event (split_tokens u settings s)) (first_outputs (split_tokens u settings s)) [] lg"
proof (cases "split_tokens u settings s")
  case Nil
  with assms show ?thesis
    by (simp add: handlePerformSplit_def first_event_def first_outputs_def Let_def split del: if_split)
      (rule exI, rule refl)
next
  case (Cons t ts)
  with assms show ?thesis
    by (simp add: handlePerformSplit_def first_event_def first_outputs_def Let_def split del: if_split)
      (rule exI, rule refl)
qed

lemma start_round:
  assumes loop: "split_loop env u n w inp c" and idle: "rPendingEvents c = []" and start: "ev \<noteq> ''StepComplete''"
    and input: "as_text u (jget (node_settings env c n) ''InputString'') = Some s"
  defines "toks \<equiv> split_tokens u (node_settings env c n) s"
  shows "\<exists>c1. (engineStep env ^^ 2) (Exec \<lparr>TargetNodeHash = n, EventName = ev\<rparr> # fs, c) = (fs, c1) \<and>
    keeps c c1 \<and> rPendingEvents c1 = getDownstreamEvents n (first_event toks) c \<and>
    (rTaskOutputs c1, rDisk c1) = merged env c n (Some (first_outputs toks))"
proof -
  obtain lg where a: "handlePerformSplit u (node_settings env c n) =
      answer_with (first_event toks) (first_outputs toks) [] lg"
    using perform_split_answer [OF input] unfolding toks_def by blast
  define res where "res = (case answer_with (first_event toks) (first_outputs toks) [] lg of TaskResult r \<Rightarrow> r)"
  have res: "answer_with (first_event toks) (first_outputs toks) [] lg = TaskResult res" "\<not> sWaitingForInput res"
    "sEventToFire res = first_event toks" "sStateWrites res = []" "sOutputs res = Some (first_outputs toks)"
    "sEventToFire res \<noteq> []"
    by (simp_all add: res_def answer_with_def) (simp add: first_event_def)
  have runs: "node_runs env c n (splitExecute u)" using loop by (simp add: split_loop_def)
  have reply: "splitExecute u (node_settings env c n) (taskContext n ev c1) = Reply (uNow u) (TaskResult res)" for c1
    using a start unfolding res(1) [symmetric] by (simp add: splitExecute_def taskContext_def)
  show ?thesis
    using exec_round [OF runs reply res(2,6,4), where fs = fs] unfolding res(3,5) idle append_Nil .
qed

lemma zero_ports:
  "distinct (map (safeSegment \<circ> fst) [(''CurrentToken'', JStr []), (''TokenIndex'', JInt 0), (''TokenCount'', JInt 0), (''CompletedCount'', JInt 0)])"
  by (simp add: safeSegment_def safe_char_def)

lemma no_tokens_count:
  assumes obj: "is_obj (output_or_new (rTaskOutputs c) n)"
    and "(rTaskOutputs c1, rDisk c1) = merged env c n (Some (first_outputs []))"
  shows "jfield (output_or_new (rTaskOutputs c1) n) ''CompletedCount'' = JInt 0"
proof -
  let ?outs = "[(''CurrentToken'', JStr []), (''TokenIndex'', JInt 0), (''TokenCount'', JInt 0), (''CompletedCount'', JInt 0)]"
  have m: "mergeAndLift (vWritable env) (vThreshold env) (rStagingPath c) n ?outs (rTaskOutputs c) (rDisk c) =
      (rTaskOutputs c1, rDisk c1)"
    using assms(2) by (simp add: merged_def first_outputs_def)
  have refs: "\<forall>(k, v) \<in> set ?outs. \<not> isOutputRef v" by (simp add: JInt_def)
  have "materializeRefValue (rDisk c1) (rStagingPath c) (jfield (jget (rTaskOutputs c1) n) ''CompletedCount'') = JInt 0"
    using mergeAndLift_spec(1) [OF m obj zero_ports refs] by simp
  then have "jfield (jget (rTaskOutputs c1) n) ''CompletedCount'' = JInt 0"
    by (rule not_a_file) (simp_all add: JInt_def)
  then show ?thesis using merge_is_obj [OF m obj zero_ports refs] by simp
qed


end
