(* ===== verification/JsonRoundTrip.thy ===== *)
theory JsonRoundTrip
  imports JsonText
begin

section \<open>Reading back what was printed\<close>

text \<open>
  \<open>JSON.parse\<close> reads every text of \<open>JSON.stringify\<close>: the laws of the parts are stated with the rest of
  the input, so that they chain into the law of a value.
\<close>

subsection \<open>Values that survive\<close>

text \<open>No undefined, no time stamp, whole numbers, and keys that occur once.\<close>

fun json_plain :: "json \<Rightarrow> bool" where
  "json_plain JUndef = False"
| "json_plain (JNum q) = (q = of_int \<lfloor>q\<rfloor>)"
| "json_plain (JTime t) = False"
| "json_plain (JArr vs) = list_all json_plain vs"
| "json_plain (JObj kvs) = (owf kvs \<and> list_all (\<lambda>(k, v). json_plain v) kvs)"
| "json_plain _ = True"

subsection \<open>Strings\<close>

lemma char_code_lt: "(of_char c :: int) < 256" "0 \<le> (of_char c :: int)"
proof -
  have code: "of_char c mod 256 = (of_char c :: int)" by (rule of_char_mod_256)
  show "(of_char c :: int) < 256" "0 \<le> (of_char c :: int)"
    using pos_mod_bound [of 256 "of_char c :: int"] pos_mod_sign [of 256 "of_char c :: int"] code by auto
qed

lemma hex_val_digit:
  assumes "0 \<le> d" "d < 16"
  shows "hex_val (hex_digit d) = Some d"
proof -
  have "d \<in> set [0..15]" using assms by simp
  moreover have "list_all (\<lambda>d. hex_val (hex_digit d) = Some d) [0..15]" by code_simp
  ultimately show ?thesis by (simp add: list_all_iff)
qed

lemma hex_code_char:
  assumes "(of_char c :: int) < 32"
  shows "hex_code (CHR ''0'') (CHR ''0'') (hex_digit (of_char c div 16)) (hex_digit (of_char c mod 16)) = Some c"
proof -
  have zero: "hex_val (CHR ''0'') = Some 0" by code_simp
  have hi: "hex_val (hex_digit (of_char c div 16)) = Some (of_char c div 16)"
    by (rule hex_val_digit) (use assms char_code_lt [of c] in auto)
  have lo: "hex_val (hex_digit (of_char c mod 16)) = Some (of_char c mod 16)"
    by (rule hex_val_digit) auto
  have "16 * (of_char c div 16) + of_char c mod 16 = (of_char c :: int)" by simp
  then show ?thesis using assms by (simp add: hex_code_def zero hi lo Let_def)
qed

lemma char_by_code: "(of_char c :: int) = n \<Longrightarrow> c = char_of n"
  by auto

lemma read_chars_escape:
  "read_chars (escape_char c @ s) = map_option (\<lambda>(t, r). (c # t, r)) (read_chars s)"
proof -
  let ?n = "of_char c :: int"
  have marks: "quote_char \<noteq> backslash" "backslash \<noteq> quote_char" "CHR ''u'' \<noteq> quote_char"
    by (simp_all add: quote_char_def backslash_def)
  have simple: "simple_escape quote_char = Some quote_char" "simple_escape backslash = Some backslash"
    "simple_escape (CHR ''b'') = Some (char_of (8 :: int))" "simple_escape (CHR ''t'') = Some (char_of (9 :: int))"
    "simple_escape (CHR ''n'') = Some (char_of (10 :: int))" "simple_escape (CHR ''f'') = Some (char_of (12 :: int))"
    "simple_escape (CHR ''r'') = Some (char_of (13 :: int))"
    by code_simp+
  have not_u: "quote_char \<noteq> CHR ''u''" "backslash \<noteq> CHR ''u''" by (simp_all add: quote_char_def backslash_def)
  consider "c = quote_char" | "c = backslash" | "?n \<in> {8, 9, 10, 12, 13}" "c \<noteq> quote_char" "c \<noteq> backslash"
    | "?n < 32" "?n \<notin> {8, 9, 10, 12, 13}" "c \<noteq> quote_char" "c \<noteq> backslash"
    | "32 \<le> ?n" "c \<noteq> quote_char" "c \<noteq> backslash"
    by linarith
  then show ?thesis
  proof cases
    case 3
    then show ?thesis
      by (auto simp: escape_char_def marks simple dest!: char_by_code)
  next
    case 4
    then show ?thesis by (simp add: escape_char_def marks hex_code_char Let_def)
  next
    case 5
    then have "?n \<noteq> 8" "?n \<noteq> 9" "?n \<noteq> 10" "?n \<noteq> 12" "?n \<noteq> 13" "\<not> ?n < 32" by auto
    with 5 show ?thesis by (simp add: escape_char_def plain_char_def)
  qed (simp_all add: escape_char_def marks simple not_u)
qed

lemma read_chars_quoted: "read_chars (concat (map escape_char t) @ quote_char # r) = Some (t, r)"
  by (induction t) (simp_all add: read_chars_escape del: read_chars.simps(2), simp)

lemma read_string_quoted: "read_string (quote_text t @ r) = Some (t, r)"
  by (simp add: read_string_def quote_text_def read_chars_quoted)

subsection \<open>Numbers\<close>

text \<open>What may follow a number.\<close>

definition number_stops :: "string \<Rightarrow> bool" where
  "number_stops r = (case r of [] \<Rightarrow> True
     | c # _ \<Rightarrow> digit_val c = None \<and> c \<noteq> CHR ''.'' \<and> c \<noteq> CHR ''e'' \<and> c \<noteq> CHR ''E'')"

lemma show_digits_nonempty: "show_digits n \<noteq> []"
  by (subst show_digits.simps) simp

lemma show_digits_head:
  "0 < n \<Longrightarrow> hd (show_digits n) \<noteq> CHR ''0''"
proof (induction n rule: show_digits.induct)
  case (1 n)
  show ?case
  proof (cases "n < 10")
    case True
    with 1(2) have "hd (show_digits n) = digit_char n" by (simp add: show_digits.simps [of n])
    moreover have "digit_char n \<noteq> CHR ''0''"
      using digit_val_digit_char [of n] True 1(2) by (auto simp: digit_val_def)
    ultimately show ?thesis by simp
  next
    case False
    with 1 have "hd (show_digits (n div 10)) \<noteq> CHR ''0''" by auto
    with False show ?thesis by (simp add: show_digits.simps [of n] show_digits_nonempty)
  qed
qed

lemma show_digits_short: "0 \<le> n \<Longrightarrow> 1 < length (show_digits n) \<Longrightarrow> 0 < n"
  by (cases "n = 0") (simp_all add: show_digits.simps [of 0])

lemma read_number_digits:
  assumes "0 \<le> n" "number_stops r"
  shows "read_number ((if neg then ''-'' else []) @ show_digits n @ r) =
    Some (JNum (if neg then - of_int n else of_int n), r)"
proof -
  have digits: "take_digits 0 (show_digits n @ r) = (n, length (show_digits n), r)"
    using take_digits_append [of "show_digits n" r 0] assms show_digits_digits [of n]
    by (auto simp: number_stops_def read_show_digits split: list.splits)
  have rest: "read_fraction r = Some (0, r)" "read_exponent r = Some (1, r)"
    using assms(2) by (auto simp: number_stops_def read_fraction_def read_exponent_def split: list.splits)
  obtain d ds where ds: "show_digits n = d # ds" using show_digits_nonempty by (cases "show_digits n") auto
  have d: "digit_val d \<noteq> None" using show_digits_digits [of n d] assms(1) ds by simp
  then have "d \<noteq> CHR ''-''" by (auto simp: digit_val_def)
  moreover have "ds \<noteq> [] \<Longrightarrow> d \<noteq> CHR ''0''"
    using show_digits_head [of n] show_digits_short [of n] assms(1) ds by (cases ds) auto
  ultimately show ?thesis
    using digits rest ds by (cases neg) (auto simp: read_number_def Let_def)
qed

lemma read_number_shown:
  "number_stops r \<Longrightarrow> read_number (show_int n @ r) = Some (JNum (of_int n), r)"
  using read_number_digits [of n r False] read_number_digits [of "- n" r True]
  by (cases "n < 0") (simp_all add: show_int_def)

subsection \<open>Values\<close>

text \<open>The text of a value in an array or object.\<close>

abbreviation text_of :: "(jstime \<Rightarrow> string) \<Rightarrow> json \<Rightarrow> string" where
  "text_of stamp v \<equiv> (case stringify stamp v of None \<Rightarrow> ''null'' | Some t \<Rightarrow> t)"

lemma plain_stringify: "json_plain v \<Longrightarrow> stringify stamp v = Some (text_of stamp v)"
  by (cases v) auto

text \<open>The first character of a printed value: no blank, no bracket that closes, no comma.\<close>

definition opens :: "string \<Rightarrow> bool" where
  "opens t \<longleftrightarrow> t \<noteq> [] \<and> \<not> is_json_blank (hd t) \<and> hd t \<notin> set '']},:''"

lemma opens_digits: "0 \<le> n \<Longrightarrow> opens (show_digits n @ r)"
proof -
  assume n: "0 \<le> n"
  obtain d ds where ds: "show_digits n = d # ds" using show_digits_nonempty by (cases "show_digits n") auto
  then have "digit_val d \<noteq> None" using show_digits_digits [of n d] n by simp
  then show ?thesis using ds by (auto simp: opens_def digit_val_def is_json_blank_def Let_def split: if_splits)
qed

lemma opens_int: "opens (show_int n @ r)"
  using opens_digits [of n r] by (auto simp: show_int_def opens_def is_json_blank_def)

lemma opens_text:
  assumes "json_plain v"
  shows "opens (text_of stamp v @ r)"
proof (cases v)
  case (JNum q)
  with assms have "text_of stamp v = show_int \<lfloor>q\<rfloor>"
    using show_rat_int [of "\<lfloor>q\<rfloor>"] by simp
  then show ?thesis by (simp add: opens_int)
qed (use assms in \<open>auto simp: opens_def is_json_blank_def quote_text_def quote_char_def\<close>)

lemma skip_opens: "opens t \<Longrightarrow> skip_blank t = t"
  by (cases t) (auto simp: opens_def skip_blank_def)

lemma expect_opens: "opens t \<Longrightarrow> c \<in> set '']},:'' \<Longrightarrow> expect c t = None"
  by (cases t) (auto simp: expect_def skip_opens, auto simp: opens_def)

lemma expect_next:
  assumes "c \<in> set '']},:''"
  shows "expect d (c # r) = (if c = d then Some r else None)"
  using assms by (auto simp: expect_def skip_blank_def is_json_blank_def)

definition reads_back :: "(jstime \<Rightarrow> string) \<Rightarrow> json \<Rightarrow> bool" where
  "reads_back stamp v \<longleftrightarrow> (\<forall>n r. length (text_of stamp v) \<le> n \<longrightarrow> number_stops r \<longrightarrow>
     read_value n (text_of stamp v @ r) = Some (v, r))"

lemma stops_next: "c \<in> set '']},:'' \<Longrightarrow> number_stops (c # r)"
  by (auto simp: number_stops_def digit_val_def)

lemma stops_end: "number_stops []"
  by (simp add: number_stops_def)

lemma text_nonempty: "json_plain v \<Longrightarrow> 0 < length (text_of stamp v)"
  using opens_text [of v stamp "[]"] by (auto simp: opens_def)

lemma read_elements_text:
  assumes "vs \<noteq> []" "list_all json_plain vs" "list_all (reads_back stamp) vs"
    and "length (join_by '','' (map (text_of stamp) vs)) < n"
  shows "read_elements n (join_by '','' (map (text_of stamp) vs) @ CHR '']'' # r) = Some (vs, r)"
  using assms
proof (induction vs arbitrary: n)
  case (Cons v vs)
  obtain m where n: "n = Suc m" using Cons.prems(4) by (cases n) auto
  have v: "0 < length (text_of stamp v)" "reads_back stamp v" using Cons.prems text_nonempty by auto
  show ?case
  proof (cases "vs = []")
    case True
    then have "read_value m (text_of stamp v @ CHR '']'' # r) = Some (v, CHR '']'' # r)"
      using v(2) Cons.prems(4) n by (simp add: reads_back_def stops_next)
    with True show ?thesis by (simp add: n expect_next)
  next
    case False
    let ?rest = "join_by '','' (map (text_of stamp) vs) @ CHR '']'' # r"
    have "read_value m (text_of stamp v @ CHR '','' # ?rest) = Some (v, CHR '','' # ?rest)"
      using v(2) Cons.prems(4) False n by (simp add: reads_back_def stops_next join_by_Cons)
    moreover have "read_elements m ?rest = Some (vs, r)"
      using Cons.IH [of m] Cons.prems False n v(1) by (simp add: join_by_Cons)
    ultimately show ?thesis using False by (simp add: n expect_next join_by_Cons)
  qed
qed simp

abbreviation member_text :: "(jstime \<Rightarrow> string) \<Rightarrow> string \<times> json \<Rightarrow> string" where
  "member_text stamp kv \<equiv> quote_text (fst kv) @ CHR '':'' # text_of stamp (snd kv)"

lemma opens_quote: "opens (quote_text k @ r)"
  by (simp add: opens_def quote_text_def is_json_blank_def quote_char_def)

lemma read_members_text:
  assumes "kvs \<noteq> []" "list_all (json_plain \<circ> snd) kvs" "list_all (reads_back stamp \<circ> snd) kvs"
    and "owf (acc @ kvs)"
    and "length (join_by '','' (map (member_text stamp) kvs)) < n"
  shows "read_members n acc (join_by '','' (map (member_text stamp) kvs) @ CHR ''}'' # r) = Some (acc @ kvs, r)"
  using assms
proof (induction kvs arbitrary: n acc)
  case (Cons kv kvs)
  obtain k v where kv: "kv = (k, v)" by fastforce
  obtain m where n: "n = Suc m" using Cons.prems(5) by (cases n) auto
  have v: "0 < length (text_of stamp v)" "reads_back stamp v" using Cons.prems text_nonempty kv by auto
  have acc: "oset k v acc = acc @ [(k, v)]" using Cons.prems(4) kv by (intro oset_fresh) (auto simp: map_of_eq_None_iff)
  have key: "read_string (skip_blank (quote_text k @ x)) = Some (k, x)" for x
    by (simp add: skip_opens opens_quote read_string_quoted)
  show ?case
  proof (cases "kvs = []")
    case True
    then have "read_value m (text_of stamp v @ CHR ''}'' # r) = Some (v, CHR ''}'' # r)"
      using v(2) Cons.prems(5) n kv by (simp add: reads_back_def stops_next)
    with True show ?thesis by (simp add: n kv key expect_next acc)
  next
    case False
    let ?rest = "join_by '','' (map (member_text stamp) kvs) @ CHR ''}'' # r"
    have "read_value m (text_of stamp v @ CHR '','' # ?rest) = Some (v, CHR '','' # ?rest)"
      using v(2) Cons.prems(5) False n kv by (simp add: reads_back_def stops_next join_by_Cons)
    moreover have "read_members m (acc @ [(k, v)]) ?rest = Some (acc @ kv # kvs, r)"
      using Cons.IH [of "acc @ [(k, v)]" m] Cons.prems False n v(1) kv by (simp add: join_by_Cons)
    ultimately show ?thesis using False by (simp add: n kv key expect_next acc join_by_Cons)
  qed
qed simp

lemma member_texts_plain:
  "list_all (json_plain \<circ> snd) kvs \<Longrightarrow>
    member_texts (map (\<lambda>(k, v). (k, stringify stamp v)) kvs) = map (member_text stamp) kvs"
proof (induction kvs)
  case (Cons kv kvs)
  then have "stringify stamp (snd kv) = Some (text_of stamp (snd kv))" by (intro plain_stringify) simp
  then obtain t where "stringify stamp (snd kv) = Some t" by blast
  with Cons show ?case by (cases kv) simp
qed simp

lemma read_printed: "json_plain v \<Longrightarrow> reads_back stamp v"
proof (induction stamp v rule: stringify.induct)
  case (4 stamp q)
  then obtain i where q: "q = of_int i" by (metis json_plain.simps(2))
  show ?case
    unfolding reads_back_def
  proof (intro allI impI)
    fix n r
    assume n: "length (text_of stamp (JNum q)) \<le> n" and r: "number_stops r"
    obtain d ds where ds: "show_int i @ r = d # ds"
      using opens_int [of i r] by (cases "show_int i @ r") (auto simp: opens_def)
    obtain m where m: "n = Suc m" using n opens_int [of i "[]"] by (cases n) (auto simp: q show_rat_int opens_def)
    have d: "digit_val d \<noteq> None \<or> d = CHR ''-''"
    proof (cases "i < 0")
      case False
      then show ?thesis
        using ds show_digits_nonempty [of i] show_digits_digits [of i d]
        by (cases "show_digits i") (auto simp: show_int_def)
    qed (use ds in \<open>simp add: show_int_def\<close>)
    have "read_value n (d # ds) = read_number (d # ds)"
      using d opens_int [of i r] ds
      by (auto simp: m skip_opens digit_val_def quote_char_def)
    then show "read_value n (text_of stamp (JNum q) @ r) = Some (JNum q, r)"
      using read_number_shown [OF r, of i] ds by (simp add: q show_rat_int)
  qed
next
  case (5 stamp s)
  show ?case
    unfolding reads_back_def
  proof (intro allI impI)
    fix n r
    assume "length (text_of stamp (JStr s)) \<le> n"
    then obtain m where "n = Suc m" by (cases n) (auto simp: quote_text_def)
    then show "read_value n (text_of stamp (JStr s) @ r) = Some (JStr s, r)"
      using opens_quote [of s r] read_chars_quoted [of s r]
      by (simp add: quote_text_def skip_opens) (simp add: quote_char_def)
  qed
next
  case (7 stamp vs)
  then have plain: "list_all json_plain vs" and elems: "list_all (reads_back stamp) vs"
    by (auto simp: list_all_iff)
  show ?case
    unfolding reads_back_def
  proof (intro allI impI)
    fix n r
    let ?j = "join_by '','' (map (text_of stamp) vs)"
    assume n: "length (text_of stamp (JArr vs)) \<le> n"
    then obtain m where m: "n = Suc m" by (cases n) auto
    show "read_value n (text_of stamp (JArr vs) @ r) = Some (JArr vs, r)"
    proof (cases "vs = []")
      case True
      then show ?thesis
        by (simp add: m skip_blank_def is_json_blank_def quote_char_def expect_next)
    next
      case False
      then have "opens (?j @ CHR '']'' # r)"
        using opens_text [of "hd vs" stamp] plain by (cases vs; cases "tl vs") auto
      then have o: "expect (CHR '']'') (?j @ CHR '']'' # r) = None" by (rule expect_opens) simp
      then show ?thesis
        using read_elements_text [OF False plain elems, of m r] n
        by (simp add: m) (simp add: o skip_blank_def is_json_blank_def quote_char_def)
    qed
  qed
next
  case (8 stamp kvs)
  then have plain: "list_all (json_plain \<circ> snd) kvs" and elems: "list_all (reads_back stamp \<circ> snd) kvs"
    and owf: "owf kvs"
    by (fastforce simp: list_all_iff)+
  show ?case
    unfolding reads_back_def
  proof (intro allI impI)
    fix n r
    let ?j = "join_by '','' (map (member_text stamp) kvs)"
    assume n: "length (text_of stamp (JObj kvs)) \<le> n"
    then obtain m where m: "n = Suc m" by (cases n) auto
    show "read_value n (text_of stamp (JObj kvs) @ r) = Some (JObj kvs, r)"
    proof (cases "kvs = []")
      case True
      then show ?thesis
        by (simp add: m skip_blank_def is_json_blank_def quote_char_def expect_next)
    next
      case False
      then have "opens (?j @ CHR ''}'' # r)"
        using opens_quote [of "fst (hd kvs)"] by (cases kvs; cases "tl kvs") auto
      then have o: "expect (CHR ''}'') (?j @ CHR ''}'' # r) = None" by (rule expect_opens) simp
      then show ?thesis
        using read_members_text [OF False plain elems, of "[]" m r] n owf
        by (simp add: m member_texts_plain plain) (simp add: o skip_blank_def is_json_blank_def quote_char_def)
    qed
  qed
next
  case (2 stamp)
  show ?case
    unfolding reads_back_def
  proof (intro allI impI)
    fix n r
    assume "length (text_of stamp JNull) \<le> n"
    then show "read_value n (text_of stamp JNull @ r) = Some (JNull, r)"
      by (cases n) (auto simp: skip_blank_def is_json_blank_def quote_char_def)
  qed
next
  case (3 stamp b)
  show ?case
    unfolding reads_back_def
  proof (intro allI impI)
    fix n r
    assume "length (text_of stamp (JBool b)) \<le> n"
    then show "read_value n (text_of stamp (JBool b) @ r) = Some ((JBool b), r)"
      by (cases n; cases b) (auto simp: skip_blank_def is_json_blank_def quote_char_def)
  qed
qed simp_all

lemma parse_stringify:
  assumes "json_plain v"
  shows "parse_json (text_of stamp v) = Some v"
proof -
  have "read_value (Suc (length (text_of stamp v))) (text_of stamp v @ []) = Some (v, [])"
    using read_printed [OF assms, of stamp] unfolding reads_back_def
    by (blast intro: le_SucI order_refl stops_end)
  then show ?thesis by (simp add: parse_json_def skip_blank_def del: read_value.simps)
qed

lemma parse_stringify_text: "json_plain v \<Longrightarrow> parse_json (stringify_text stamp v) = Some v"
  using parse_stringify [of v stamp] plain_stringify [of v stamp]
  by (cases "stringify stamp v") (simp_all add: stringify_text_def)

end
