(* ===== verification/FlowProperties.thy ===== *)
theory FlowProperties
  imports FlowLoop JsonRoundTrip EngineScenarios
begin

section \<open>Properties of the flow control tasks\<close>

text \<open>
  The loop over tokens on a concrete graph; the sweep over parameter sets, which hands out every set once
  and in order, and what a parameter does to it that is named like the counter of the sweep; the replies
  of an operation that was launched.
\<close>

subsection \<open>A concrete loop\<close>

definition demo_world :: task_world where
  "demo_world = \<lparr>uNow = 1, uEngine = flat_env, uStateManager = True, uStamp = show_int,
     uSolve = None, uTemplate = None, uJsonError = (\<lambda>s. ''Unexpected token'')\<rparr>"

definition demo_definition :: "string \<Rightarrow> task_definition" where
  "demo_definition h = \<lparr>dHash = h, dName = h, dCategory = [], dCapability = [], dAction = [], dTier = [],
     dEventInputs = [], dEventOutputs = [], dSettingsInputs = [], dStateOutputs = []\<rparr>"

definition demo_type :: "string \<Rightarrow> executor \<Rightarrow> task_type" where
  "demo_type h ex = \<lparr>yDefinition = demo_definition h, yExecute = Some ex\<rparr>"

definition echo_task :: executor where
  "echo_task settings tc = Reply 2 (answer_with ''Done'' settings [] [])"

definition demo_registry :: task_registry where
  "demo_registry = \<lparr>TaskTypes = [], TaskTypeConfigs =
     [(''split-execute'', demo_type ''split-execute'' (splitExecute demo_world)),
      (''echo'', demo_type ''echo'' echo_task)],
     Definitions = [(''split-execute'', demo_definition ''split-execute''), (''echo'', demo_definition ''echo'')]\<rparr>"

definition loop_env :: engine_env where
  "loop_env = flat_env\<lparr>vRegistry := demo_registry\<rparr>"

definition loop_edge :: "string \<Rightarrow> string \<Rightarrow> string \<Rightarrow> string \<Rightarrow> connection" where
  "loop_edge a out b inp = \<lparr>cSourceNodeHash = a, cSourcePortHash = a @ ''-eo-'' @ out,
     cTargetNodeHash = b, cTargetPortHash = b @ ''-ei-'' @ inp, cConnectionType = ''Event'',
     cTemplate = [], cStateKey = []\<rparr>"

definition loop_run :: run where
  "loop_run = blank_run\<lparr>
     rNodeMap := [(''s'', (demo_node ''s'' ''split-execute'')\<lparr>nSettings :=
         Some [(''InputString'', JStr ''a,b''), (''SplitDelimiter'', JStr '','')]\<rparr>),
       (''w'', demo_node ''w'' ''echo'')],
     rConnectionMap := \<lparr>eventSources = [(''s'', [loop_edge ''s'' ''TokenDataSent'' ''w'' ''In'']),
       (''w'', [loop_edge ''w'' ''Done'' ''s'' ''StepComplete''])], stateTargets = []\<rparr>\<rparr>"

lemma loop_run_fields:
  "rPendingEvents loop_run = []" "rTaskOutputs loop_run = []" "rPortLabelMap loop_run = []"
  by (simp_all add: loop_run_def blank_run_def)

lemma loop_runs:
  "node_runs loop_env loop_run ''s'' (splitExecute demo_world)"
  "node_runs loop_env loop_run ''w'' echo_task"
  unfolding node_runs_def
  by (simp_all add: loop_run_def demo_node_def loop_env_def definition_hash_def str_or_def getDefinition_def
      instantiateTaskType_def demo_registry_def demo_type_def)

lemma loop_downstream:
  "getDownstreamEvents ''s'' ''TokenDataSent'' loop_run = [\<lparr>TargetNodeHash = ''w'', EventName = ''In''\<rparr>]"
  "getDownstreamEvents ''w'' ''Done'' loop_run = [\<lparr>TargetNodeHash = ''s'', EventName = ''StepComplete''\<rparr>]"
  unfolding getDownstreamEvents_def connections_from_def target_event_def loop_run_fields
  by (simp_all add: loop_run_def loop_edge_def extractPortName_def port_prefixes_def)

lemma loop_settings:
  "node_settings loop_env loop_run ''s'' = [(''InputString'', JStr ''a,b''), (''SplitDelimiter'', JStr '','')]"
  by (simp add: node_settings_def loop_run_def loop_env_def demo_node_def definition_hash_def str_or_def
      getDefinition_def demo_registry_def resolveStateConnections_def merged_settings_def
      state_connections_def resolveSetting_def str_includes_def)


subsection \<open>The sweep over parameter sets\<close>

text \<open>
  What the engine does with an answer of the sweep, and the next call: its fields are written into the
  outputs of the node (in place, with a threshold that none of them reaches), and \<open>StepComplete\<close> finds them.
\<close>

definition sweep_fields :: "task_reply \<Rightarrow> json obj" where
  "sweep_fields r = (case r of TaskResult res \<Rightarrow> (case sOutputs res of Some outs \<Rightarrow> outs | None \<Rightarrow> []) | _ \<Rightarrow> [])"

definition fired :: "task_reply \<Rightarrow> string" where
  "fired r = (case r of TaskResult res \<Rightarrow> sEventToFire res | _ \<Rightarrow> [])"

definition sweep_context :: "json obj \<Rightarrow> task_context" where
  "sweep_context stored = \<lparr>tGlobalState = [], tOperationState = [], tTaskOutputs = [(''sweep'', JObj stored)],
     tStagingPath = [], tOperationHash = [], tNodeHash = ''sweep'', tRunHash = [], tRunMode = [],
     tTriggeringEventName = ''StepComplete'', tDisk = []\<rparr>"

fun sweep_replies :: "task_world \<Rightarrow> nat \<Rightarrow> json obj \<Rightarrow> task_reply \<Rightarrow> task_reply list" where
  "sweep_replies u 0 stored r = [r]"
| "sweep_replies u (Suc k) stored r =
     (let stored' = seed (sweep_fields r) stored
      in r # sweep_replies u k stored' (sweepStep u (sweep_context stored')))"

definition reserved :: "string list" where
  "reserved = [''_ParameterSets'', ''CurrentParameters'', ''CurrentIndex'', ''TotalCount'', ''CompletedCount'']"

text \<open>A parameter set: an object none of whose keys is a field of the sweep.\<close>

definition parameter_set :: "json \<Rightarrow> bool" where
  "parameter_set v \<longleftrightarrow> is_obj v \<and> json_plain v \<and> (\<forall>k \<in> set (okeys (fields_of v)). k \<notin> set reserved)"

lemma oget_seed: "oget (seed kvs st) k = (case oget (rev kvs) k of None \<Rightarrow> oget st k | Some v \<Rightarrow> Some v)"
  unfolding seed_def
  by (induction kvs arbitrary: st) (auto simp: obj_simps map_add_def split: option.splits)

lemma jget_seed_other: "k \<notin> set (okeys kvs) \<Longrightarrow> jget (seed kvs st) k = jget st k"
proof -
  assume "k \<notin> set (okeys kvs)"
  then have "oget (rev kvs) k = None" by (simp add: map_of_eq_None_iff)
  then show ?thesis by (simp add: jget_def oget_seed)
qed

lemma jget_seed_own: "owf kvs \<Longrightarrow> k \<in> set (okeys kvs) \<Longrightarrow> jget (seed kvs st) k = jget kvs k"
proof -
  assume kvs: "owf kvs" "k \<in> set (okeys kvs)"
  then have "map_of (rev kvs) = map_of kvs"
    by (intro map_of_inject_set [THEN iffD2]) (simp_all add: rev_map [symmetric])
  moreover obtain v where "oget kvs k = Some v" using kvs(2) by (auto simp: map_of_eq_Some_iff [OF kvs(1)])
  ultimately show ?thesis by (simp add: jget_def oget_seed)
qed

lemma keys_oset: "fst ` set (oset k v ob) = insert k (fst ` set ob)"
  using arg_cong [OF update_keys [of k v ob], of set] by (auto split: if_splits)

lemma seed_keys: "set (okeys (seed kvs st)) = set (okeys st) \<union> set (okeys kvs)"
  unfolding seed_def by (induction kvs arbitrary: st) (simp_all add: keys_oset split_beta)

lemma owf_seed: "owf st \<Longrightarrow> owf (seed kvs st)"
  unfolding seed_def by (induction kvs arbitrary: st) (auto simp: distinct_update)

definition sweep_base :: "task_world \<Rightarrow> json list \<Rightarrow> json \<Rightarrow> json \<Rightarrow> json \<Rightarrow> json obj" where
  "sweep_base u sets cur idx completed =
     [(''_ParameterSets'', JArr sets), (''CurrentParameters'', JStr (stringify_text (uStamp u) cur)),
      (''CurrentIndex'', idx), (''TotalCount'', JInt (int (length sets))), (''CompletedCount'', completed)]"

lemma sweep_outputs_seed:
  "sweep_outputs u sets cur idx completed = seed (flattenParams u cur) (sweep_base u sets cur idx completed)"
  by (simp add: sweep_outputs_def seed_def sweep_base_def)

lemma flatten_keys: "parameter_set v \<Longrightarrow> set (okeys (flattenParams u v)) \<inter> set reserved = {}"
  by (cases v) (auto simp: parameter_set_def is_obj_def flattenParams_def json_or_def object_entries_def fields_of_def)

lemma sweep_outputs_reserved:
  assumes "parameter_set v" "k \<in> set reserved"
  shows "jget (seed (sweep_outputs u sets v idx completed) stored) k = jget (sweep_base u sets v idx completed) k"
    and "jget (sweep_outputs u sets v idx completed) k = jget (sweep_base u sets v idx completed) k"
proof -
  have base: "owf (sweep_base u sets v idx completed)" "set (okeys (sweep_base u sets v idx completed)) = set reserved"
    by (auto simp: sweep_base_def reserved_def)
  have k: "k \<notin> set (okeys (flattenParams u v))" using flatten_keys [OF assms(1), of u] assms(2) by blast
  show own: "jget (sweep_outputs u sets v idx completed) k = jget (sweep_base u sets v idx completed) k"
    unfolding sweep_outputs_seed by (rule jget_seed_other [OF k])
  have "k \<in> set (okeys (sweep_outputs u sets v idx completed))"
    unfolding sweep_outputs_seed seed_keys using base(2) assms(2) by auto
  then show "jget (seed (sweep_outputs u sets v idx completed) stored) k = jget (sweep_base u sets v idx completed) k"
    using jget_seed_own [of "sweep_outputs u sets v idx completed" k stored] owf_seed [OF base(1), of "flattenParams u v"]
      own by (simp add: sweep_outputs_seed)
qed

text \<open>The position of the sweep.\<close>

definition sweep_at :: "json list \<Rightarrow> nat \<Rightarrow> json obj \<Rightarrow> bool" where
  "sweep_at sets i stored \<longleftrightarrow> jget stored ''_ParameterSets'' = JArr sets \<and>
     jget stored ''CurrentIndex'' = JInt (int i) \<and> jget stored ''CompletedCount'' = JInt (int i)"

lemma sweep_moves:
  "parameter_set v \<Longrightarrow> sweep_at sets i (seed (sweep_outputs u sets v (JInt (int i)) (JInt (int i))) stored)"
  by (simp add: sweep_at_def sweep_outputs_reserved reserved_def) (simp add: sweep_base_def jget_def)

lemma parameter_set_truthy: "parameter_set v \<Longrightarrow> json_or v (JObj []) = v"
  by (simp add: parameter_set_def json_or_def is_obj_truthy)

lemma sweep_step_answer:
  assumes "sweep_at sets i stored" "i < length sets"
  shows "i + 1 < length sets \<Longrightarrow> parameter_set (sets ! (i + 1)) \<Longrightarrow> \<exists>lg. sweepStep u (sweep_context stored) =
      answer_with ''ParameterSetReady''
        (sweep_outputs u sets (sets ! (i + 1)) (JInt (int (i + 1))) (JInt (int (i + 1)))) [] lg"
    and "i + 1 = length sets \<Longrightarrow> fired (sweepStep u (sweep_context stored)) = ''SweepComplete''"
proof -
  have plus: "plus_one u (json_or (JInt (int i)) (JInt 0)) = JInt (int (i + 1))"
    by (simp add: plus_one_def json_or_def JInt_def)
  have num: "js_number (uStamp u) (JInt k) = Fin (of_int k)" for k by (simp add: js_number_def JInt_def)
  have stored: "output_or_new (tTaskOutputs (sweep_context stored)) (tNodeHash (sweep_context stored)) = JObj stored"
    by (simp add: sweep_context_def output_or_new_def jget_def)
  show "\<exists>lg. sweepStep u (sweep_context stored) =
      answer_with ''ParameterSetReady''
        (sweep_outputs u sets (sets ! (i + 1)) (JInt (int (i + 1))) (JInt (int (i + 1)))) [] lg"
    if more: "i + 1 < length sets" "parameter_set (sets ! (i + 1))"
  proof -
    have "\<not> num_le (Fin (of_nat (length sets))) (Fin (of_int (int (i + 1))))" using more(1) by simp
    then show ?thesis
      using assms(1) more json_index_int [of "i + 1" sets u]
      by (simp add: sweepStep_def stored sweep_at_def plus num Let_def parameter_set_truthy
          del: num_le.simps of_nat_add of_nat_Suc) (rule exI, rule refl)
  qed
  show "fired (sweepStep u (sweep_context stored)) = ''SweepComplete''" if "i + 1 = length sets"
  proof -
    have "num_le (Fin (of_nat (length sets))) (Fin (of_int (int (i + 1))))" using that by simp
    then show ?thesis
      using assms(1) by (simp add: sweepStep_def stored sweep_at_def plus num Let_def fired_def answer_with_def
          del: num_le.simps of_nat_add of_nat_Suc)
  qed
qed

lemma sweep_replies_from:
  assumes "sweep_at sets i (seed (sweep_fields r) stored)" "i < length sets" "k = length sets - Suc i"
    and "\<forall>v \<in> set sets. parameter_set v" "fired r = ''ParameterSetReady''"
    and "jget (sweep_fields r) ''CurrentParameters'' = JStr (stringify_text (uStamp u) (sets ! i))"
  shows "map fired (sweep_replies u (Suc k) stored r) = replicate (Suc k) ''ParameterSetReady'' @ [''SweepComplete''] \<and>
    map (\<lambda>r. jget (sweep_fields r) ''CurrentParameters'') (take (Suc k) (sweep_replies u (Suc k) stored r)) =
      map (\<lambda>v. JStr (stringify_text (uStamp u) v)) (drop i sets)"
  using assms
proof (induction k arbitrary: i r stored)
  case 0
  then have "i + 1 = length sets" by simp
  then have "fired (sweepStep u (sweep_context (seed (sweep_fields r) stored))) = ''SweepComplete''"
    by (rule sweep_step_answer(2) [OF 0(1,2)])
  moreover have "drop i sets = [sets ! i]"
    using 0(2) \<open>i + 1 = _\<close> Cons_nth_drop_Suc [OF 0(2)] by simp
  ultimately show ?case using 0(5,6) by (simp add: Let_def)
next
  case (Suc k)
  let ?st = "seed (sweep_fields r) stored" and ?v = "sets ! (i + 1)"
  let ?r = "sweepStep u (sweep_context ?st)"
  have more: "i + 1 < length sets" using Suc.prems(3) by simp
  then have v: "parameter_set ?v" using Suc.prems(4) by simp
  obtain lg where r: "?r = answer_with ''ParameterSetReady''
      (sweep_outputs u sets ?v (JInt (int (i + 1))) (JInt (int (i + 1)))) [] lg"
    using sweep_step_answer(1) [OF Suc.prems(1,2) more v, of u] by blast
  have f: "sweep_fields ?r = sweep_outputs u sets ?v (JInt (int (i + 1))) (JInt (int (i + 1)))"
    "fired ?r = ''ParameterSetReady''"
    unfolding r by (simp_all add: sweep_fields_def fired_def answer_with_def)
  have at: "sweep_at sets (i + 1) (seed (sweep_fields ?r) ?st)" unfolding f(1) by (rule sweep_moves [OF v])
  have cur: "jget (sweep_fields ?r) ''CurrentParameters'' = JStr (stringify_text (uStamp u) ?v)"
    unfolding f(1) using sweep_outputs_reserved(2) [OF v, of "''CurrentParameters''"]
    by (simp add: reserved_def) (simp add: sweep_base_def jget_def)
  have k: "k = length sets - Suc (i + 1)" using Suc.prems(3) by simp
  have "map fired (sweep_replies u (Suc k) ?st ?r) = replicate (Suc k) ''ParameterSetReady'' @ [''SweepComplete''] \<and>
    map (\<lambda>r. jget (sweep_fields r) ''CurrentParameters'') (take (Suc k) (sweep_replies u (Suc k) ?st ?r)) =
      map (\<lambda>v. JStr (stringify_text (uStamp u) v)) (drop (i + 1) sets)"
    by (rule Suc.IH [OF at more k Suc.prems(4) f(2) cur])
  then show ?case
    unfolding sweep_replies.simps(2) [of u "Suc k" stored r] Let_def
    using Suc.prems(5,6) Cons_nth_drop_Suc [OF Suc.prems(2), symmetric] by (simp del: sweep_replies.simps)
qed



text \<open>A counter that was overwritten: the text of a negative number, one digit longer after each step.\<close>

definition minus_ones :: "nat \<Rightarrow> string" where
  "minus_ones k = CHR ''-'' # replicate (Suc k) (CHR ''1'')"

lemma minus_ones_next: "minus_ones k @ ''1'' = minus_ones (Suc k)"
  by (simp add: minus_ones_def replicate_append_same)

lemma read_digits_nonneg: "0 \<le> a \<Longrightarrow> 0 \<le> read_digits a s"
proof (induction s arbitrary: a)
  case (Cons c s)
  then show ?case by (auto simp: digit_val_def Let_def split: option.split if_splits)
qed simp

lemma minus_ones_number: "\<exists>q. js_number st (JStr (minus_ones k)) = Fin q \<and> q \<le> 0"
proof -
  let ?ones = "replicate (Suc k) (CHR ''1'')"
  have blank: "\<not> is_blank (CHR ''-'')" "\<not> is_blank (CHR ''1'')" by code_simp+
  have "js_trim (minus_ones k) = minus_ones k"
  proof -
    have "dropWhile is_blank (replicate n (CHR ''1'') @ ''1-'') = replicate n (CHR ''1'') @ ''1-''" for n
      by (cases n) (simp_all add: blank)
    then show ?thesis
      unfolding js_trim_def by (simp add: minus_ones_def blank replicate_append_same [symmetric])
  qed
  moreover have digits: "take_digits 0 ?ones = (read_digits 0 ?ones, length ?ones, [])"
    using take_digits_append [of ?ones "[]" 0] by (simp add: digit_val_def)
  have "unsigned_decimal ?ones = Fin (of_int (read_digits 0 ?ones))"
    unfolding unsigned_decimal_def digits by (simp add: read_exponent_def)
  moreover have "?ones \<noteq> ''Infinity''" by simp
  moreover have "based_literal (minus_ones k) = None" "read_sign (minus_ones k) = (True, ?ones)" "minus_ones k \<noteq> []"
    by (simp_all add: based_literal_def read_sign_def minus_ones_def split: list.split)
  ultimately have "number_of_text (js_trim (minus_ones k)) = Fin (- of_int (read_digits 0 ?ones))"
    by (simp add: number_of_text_def negate_def del: replicate.simps read_digits.simps)
  then have "js_number st (JStr (minus_ones k)) = Fin (- of_int (read_digits 0 ?ones))"
    by (simp add: js_number_def del: replicate.simps read_digits.simps)
  moreover have "0 \<le> read_digits 0 ?ones" by (rule read_digits_nonneg) simp
  ultimately show ?thesis by (intro exI [of _ "- of_int (read_digits 0 ?ones)"]) simp
qed

lemma minus_ones_no_index: "json_index u sets (JStr (minus_ones k)) = JUndef"
proof -
  have "show_nat n \<noteq> minus_ones k" for n
    using show_nat_no_dash [of n] by (auto simp: minus_ones_def)
  then have "find (\<lambda>n. show_nat n = minus_ones k) [0..<length sets] = None" by (simp add: find_None_iff)
  then show ?thesis by (simp add: json_index_def text_value_def)
qed

lemma sweep_step_overwritten:
  assumes "jget stored ''_ParameterSets'' = JArr sets" "sets \<noteq> []"
    and "jget stored ''CurrentIndex'' = JStr (minus_ones k)"
  shows "\<exists>completed lg. sweepStep u (sweep_context stored) =
    answer_with ''ParameterSetReady'' (sweep_base u sets (JObj []) (JStr (minus_ones (Suc k))) completed) [] lg"
proof -
  have stored: "output_or_new (tTaskOutputs (sweep_context stored)) (tNodeHash (sweep_context stored)) = JObj stored"
    by (simp add: sweep_context_def output_or_new_def jget_def)
  have idx: "plus_one u (json_or (JStr (minus_ones k)) (JInt 0)) = JStr (minus_ones (Suc k))"
    using minus_ones_next [of k] by (simp add: plus_one_def json_or_def text_value_def minus_ones_def)
  obtain q where q: "js_number (uStamp u) (JStr (minus_ones (Suc k))) = Fin q" "q \<le> 0"
    using minus_ones_number by blast
  have "(0 :: rat) < of_nat (length sets)" using assms(2) by simp
  then have "\<not> (of_nat (length sets) :: rat) \<le> q" using q(2) by linarith
  moreover have "sweep_outputs u sets (JObj []) i n = sweep_base u sets (JObj []) i n" for i n
    by (simp add: sweep_outputs_def sweep_base_def flattenParams_def json_or_def object_entries_def)
  moreover have "json_or JUndef (JObj []) = JObj []" by (simp add: json_or_def)
  ultimately show ?thesis
    using assms(1,3) q(1)
    by (simp add: sweepStep_def stored idx minus_ones_no_index Let_def) (intro exI, rule refl)
qed

lemma sweep_never_completes:
  assumes "jget (seed (sweep_fields r) stored) ''_ParameterSets'' = JArr sets" "sets \<noteq> []"
    and "jget (seed (sweep_fields r) stored) ''CurrentIndex'' = JStr (minus_ones k)" "fired r = ''ParameterSetReady''"
  shows "map fired (sweep_replies u m stored r) = replicate (Suc m) ''ParameterSetReady''"
  using assms
proof (induction m arbitrary: stored r k)
  case (Suc m)
  let ?st = "seed (sweep_fields r) stored"
  let ?r = "sweepStep u (sweep_context ?st)"
  obtain completed lg where r: "?r = answer_with ''ParameterSetReady''
      (sweep_base u sets (JObj []) (JStr (minus_ones (Suc k))) completed) [] lg"
    using sweep_step_overwritten [OF Suc.prems(1-3), of u] by blast
  have f: "sweep_fields ?r = sweep_base u sets (JObj []) (JStr (minus_ones (Suc k))) completed"
    "fired ?r = ''ParameterSetReady''"
    unfolding r by (simp_all add: sweep_fields_def fired_def answer_with_def)
  have "jget (seed (sweep_fields ?r) ?st) ''_ParameterSets'' = JArr sets"
    "jget (seed (sweep_fields ?r) ?st) ''CurrentIndex'' = JStr (minus_ones (Suc k))"
    unfolding f(1) by (subst jget_seed_own; simp add: sweep_base_def jget_def)+
  from Suc.IH [OF this(1) Suc.prems(2) this(2) f(2)] show ?case
    using Suc.prems(4) by (simp add: Let_def del: sweep_replies.simps(2)) (simp add: Let_def)
qed simp

text \<open>
  The fields of a parameter set are written over the counters of the sweep. A set with a negative
  \<open>CurrentIndex\<close> turns the index into a text to which every step appends a digit: the sweep fires
  \<open>ParameterSetReady\<close> for ever and never completes, however many sets there are.
\<close>

theorem sweep_counter_overwritten:
  assumes "jget settings ''ParameterSets'' = JArr (JObj [(''CurrentIndex'', JInt (- 1))] # sets)"
  shows "map fired (sweep_replies u m [] (beginSweep u settings)) = replicate (Suc m) ''ParameterSetReady''"
proof -
  let ?sets = "JObj [(''CurrentIndex'', JInt (- 1))] # sets" and ?r = "beginSweep u settings"
  have one: "digit_char 1 = CHR ''1''" by code_simp
  have flat: "flattenParams u (JObj [(''CurrentIndex'', JInt (- 1))]) = [(''CurrentIndex'', JStr (minus_ones 0))]"
    using show_rat_int [of "- 1"] one
    by (simp add: flattenParams_def json_or_def object_entries_def JInt_def text_value_def minus_ones_def
        show_int_def show_digits.simps)
  have r: "sweep_fields ?r = seed [(''CurrentIndex'', JStr (minus_ones 0))]
      (sweep_base u ?sets (JObj [(''CurrentIndex'', JInt (- 1))]) (JInt 0) (JInt 0))" "fired ?r = ''ParameterSetReady''"
    using assms
    by (simp_all add: beginSweep_def as_text_def sweepOver_def Let_def sweep_fields_def fired_def answer_with_def
        json_or_def sweep_outputs_seed flat)
  have "jget (seed (sweep_fields ?r) []) ''_ParameterSets'' = JArr ?sets"
    "jget (seed (sweep_fields ?r) []) ''CurrentIndex'' = JStr (minus_ones 0)"
    unfolding r(1) by (simp_all add: seed_def sweep_base_def jget_def)
  from sweep_never_completes [OF this(1) _ this(2) r(2)] show ?thesis by simp
qed

lemma sweep_counter_overwritten_witness:
  "map fired (sweep_replies demo_world 100 []
      (beginSweep demo_world [(''ParameterSets'', JArr [JObj [(''CurrentIndex'', JInt (- 1))]])])) =
    replicate 101 ''ParameterSetReady''"
  using sweep_counter_overwritten [of "[(''ParameterSets'', JArr [JObj [(''CurrentIndex'', JInt (- 1))]])]" "[]" demo_world 100]
  by (simp add: jget_def)

subsection \<open>An operation that was launched\<close>

text \<open>
  A launched operation replies exactly once: with the first of its timeout, if it has one, and the
  call back of the child; what comes after that is dropped.
\<close>

theorem launch_replies_once:
  assumes "\<exists>ev \<in> set evs. \<not> is_timeout ev"
  shows "\<exists>pre ev post. evs = pre @ ev # post \<and> (\<forall>x \<in> set pre. is_timeout x \<and> timeout \<le> 0) \<and>
    \<not> (is_timeout ev \<and> timeout \<le> 0) \<and>
    launch_events u h timeout t0 False evs = [launch_reply u h timeout t0 ev]"
proof -
  have silent: "launch_events u h timeout t0 True evs = []" for evs by (induction evs) auto
  show ?thesis
    using assms
  proof (induction evs)
    case (Cons ev evs)
    show ?case
    proof (cases "is_timeout ev \<and> timeout \<le> 0")
      case False
      then have "launch_events u h timeout t0 False (ev # evs) = [launch_reply u h timeout t0 ev]"
        by (auto simp: silent)
      with False show ?thesis by (intro exI [of _ "[]"]) auto
    next
      case True
      with Cons obtain pre x post where "evs = pre @ x # post" "\<forall>y \<in> set pre. is_timeout y \<and> timeout \<le> 0"
        "\<not> (is_timeout x \<and> timeout \<le> 0)" "launch_events u h timeout t0 False evs = [launch_reply u h timeout t0 x]"
        by auto
      with True show ?thesis by (intro exI [of _ "ev # pre"] exI [of _ x] exI [of _ post]) auto
    qed
  qed simp
qed

lemma launch_replies_once_witness:
  "launch_events demo_world ''op'' 10 0 False [ChildTimeout 10, ChildEnds 12 blank_run] =
     [launch_reply demo_world ''op'' 10 0 (ChildTimeout 10)]"
  using launch_replies_once [of "[ChildTimeout 10, ChildEnds 12 blank_run]" 10 demo_world "''op''" 0]
  by (auto simp: is_timeout_def Cons_eq_append_conv)

end
