(* ===== verification/DataProperties.thy ===== *)
theory DataProperties
  imports DataTasks EngineScenarios FlowProperties
begin

section \<open>Properties of the data transform tasks\<close>

text \<open>
  A printed table is parsed back, the intersection is a join as long as the keys differ, a histogram
  counts every record once, and what an append to the outputs of an operation loses.
\<close>

subsection \<open>A table is read back\<close>

text \<open>The usual way to print a table: every field in quotes, a quote inside doubled, a line per row.\<close>

fun double_quotes :: "char \<Rightarrow> string \<Rightarrow> string" where
  "double_quotes q [] = []"
| "double_quotes q (c # cs) = (if c = q then [q, q] else [c]) @ double_quotes q cs"

definition print_field :: "char \<Rightarrow> string \<Rightarrow> string" where
  "print_field q f = q # double_quotes q f @ [q]"

definition print_row :: "char \<Rightarrow> char \<Rightarrow> string list \<Rightarrow> string" where
  "print_row d q fs = join_by [d] (map (print_field q) fs)"

definition print_table :: "char \<Rightarrow> char \<Rightarrow> string list list \<Rightarrow> string" where
  "print_table d q rows = join_by [newline] (map (print_row d q) rows)"

lemma csv_inside:
  assumes "case r of [] \<Rightarrow> True | c # _ \<Rightarrow> c \<noteq> q"
  shows "csv_fields [d] [q] fs cur True (double_quotes q f @ q # r) = csv_fields [d] [q] fs (cur @ f) False r"
  using assms
proof (induction f arbitrary: cur)
  case Nil
  then show ?case by (cases r) auto
next
  case (Cons c f)
  then show ?case by (cases "c = q") auto
qed

lemma csv_field:
  assumes "case r of [] \<Rightarrow> True | c # _ \<Rightarrow> c \<noteq> q"
  shows "csv_fields [d] [q] fs [] False (print_field q f @ r) = csv_fields [d] [q] fs f False r"
proof -
  obtain c cs where s: "double_quotes q f @ q # r = c # cs" by (cases "double_quotes q f @ q # r") auto
  have "csv_fields [d] [q] fs [] False (print_field q f @ r) = csv_fields [d] [q] fs [] True (double_quotes q f @ q # r)"
    using s by (simp add: print_field_def)
  then show ?thesis using csv_inside [OF assms, of d fs "[]" f] by simp
qed

lemma csv_row:
  "d \<noteq> q \<Longrightarrow> row \<noteq> [] \<Longrightarrow> csv_fields [d] [q] fs [] False (print_row d q row) = fs @ row"
proof (induction row arbitrary: fs)
  case (Cons f row)
  show ?case
  proof (cases "row = []")
    case True
    then show ?thesis using csv_field [of q "[]" d fs f] by (simp add: print_row_def)
  next
    case False
    then have "print_row d q (f # row) = print_field q f @ d # print_row d q row"
      by (simp add: print_row_def join_by_Cons)
    moreover have "csv_fields [d] [q] fs [] False (print_field q f @ d # print_row d q row) =
        csv_fields [d] [q] fs f False (d # print_row d q row)"
      using Cons.prems(1) by (intro csv_field) simp
    moreover have "csv_fields [d] [q] fs f False (d # print_row d q row) = csv_fields [d] [q] (fs @ [f]) [] False (print_row d q row)"
      using Cons.prems(1) by simp
    ultimately show ?thesis using Cons.IH [OF Cons.prems(1) False, of "fs @ [f]"] by simp
  qed
qed simp

text \<open>Splitting at a character that no part contains.\<close>

lemma split_by_part: "c \<notin> set p \<Longrightarrow> split_by [c] w (p @ c # s) = (rev w @ p) # split_by [c] [] s"
  by (induction p arbitrary: w) (subst split_by.simps, simp)+

lemma split_by_last: "c \<notin> set p \<Longrightarrow> split_by [c] w p = [rev w @ p]"
  by (induction p arbitrary: w) (subst split_by.simps, simp)+

lemma js_split_join:
  "ps \<noteq> [] \<Longrightarrow> \<forall>p \<in> set ps. c \<notin> set p \<Longrightarrow> js_split (join_by [c] ps) [c] = ps"
  unfolding js_split_def
proof (induction ps)
  case (Cons p ps)
  then show ?case
    by (cases "ps = []") (simp_all add: join_by_Cons split_by_part split_by_last)
qed simp

lemma set_double_quotes: "set (double_quotes q f) = set f"
  by (induction f) auto

lemma set_print_row: "set (print_row d q row) \<subseteq> \<Union> (set ` set row) \<union> {d, q}"
proof (induction row)
  case (Cons f row)
  then show ?case
    by (cases "row = []") (auto simp: print_row_def join_by_Cons print_field_def set_double_quotes)
qed (simp add: print_row_def)

text \<open>The record of a row whose length is that of the headers.\<close>

lemma csv_record_zip:
  assumes "distinct hs" "hs \<noteq> []" "length row = length hs"
  shows "csv_record hs row = JObj (zip hs (map JStr row))"
proof -
  have "foldl (\<lambda>m (j, h). oset h (JStr (if j < length row then row ! j else [])) m) (zip (take n hs) (map JStr (take n row)))
      (enumerate n (drop n hs)) = zip hs (map JStr row)" if "n \<le> length hs" for n
    using that
  proof (induction "length hs - n" arbitrary: n)
    case 0
    then show ?case using assms(3) by simp
  next
    case (Suc k)
    then have n: "n < length hs" "n < length row" using assms(3) by auto
    have fresh: "oget (zip (take n hs) (map JStr (take n row))) (hs ! n) = None"
      using assms(1) n by (auto simp: map_of_eq_None_iff set_zip nth_eq_iff_index_eq)
    have "enumerate n (drop n hs) = (n, hs ! n) # enumerate (Suc n) (drop (Suc n) hs)"
      using n by (simp add: Cons_nth_drop_Suc [symmetric])
    then show ?case
      using Suc(1) [of "Suc n"] Suc(2) n
      by (simp add: oset_fresh [OF fresh] take_Suc_conv_app_nth zip_append)
  qed
  from this [of 0] show ?thesis using assms(2) by (simp add: csv_record_def)
qed

lemma js_trim_nonempty: "c \<in> set s \<Longrightarrow> \<not> is_blank c \<Longrightarrow> js_trim s \<noteq> []"
proof -
  assume c: "c \<in> set s" "\<not> is_blank c"
  then have "dropWhile is_blank s \<noteq> []" by (auto simp: dropWhile_eq_Nil_conv)
  then obtain x xs where x: "dropWhile is_blank s = x # xs" by (cases "dropWhile is_blank s") auto
  then have "\<not> is_blank x" using hd_dropWhile [of is_blank s] by simp
  then show ?thesis by (simp add: js_trim_def x dropWhile_eq_Nil_conv)
qed

lemma print_row_nonempty: "row \<noteq> [] \<Longrightarrow> q \<in> set (print_row d q row)"
  by (cases row; cases "tl row") (auto simp: print_row_def print_field_def join_by_Cons)

lemma foldl_max_same: "\<forall>n \<in> set ns. n \<le> (m :: nat) \<Longrightarrow> foldl max m ns = m"
  by (induction ns) (auto simp: max_def)


definition table_settings :: "json obj" where
  "table_settings = [(''SourceAddress'', JStr ''Global.t''), (''Delimiter'', JStr '',''), (''QuoteCharacter'', JStr [quote_char]),
     (''TrimFields'', JBool False)]"

definition table_context :: task_context where
  "table_context = (sweep_context [])\<lparr>tGlobalState :=
     [(''t'', JStr (print_table (CHR '','') quote_char [[''a'', ''b''], [''x,y'', [quote_char]]]))]\<rparr>"

lemma table_source:
  "source_at demo_world table_settings ''SourceAddress'' (JStr []) table_context =
    JStr (print_table (CHR '','') quote_char [[''a'', ''b''], [''x,y'', [quote_char]]])"
  by (simp add: source_at_def table_settings_def jget_def demo_world_def task_resolve_def as_text_def dot_defs
      resolveAddress_def resolveFromObject_def context_run_def table_context_def flat_env_def)


subsection \<open>Joining two sets of records\<close>

text \<open>The join on a field whose values are compared as text, the reference for the intersection.\<close>

definition join_on :: "task_world \<Rightarrow> string \<Rightarrow> json list \<Rightarrow> json list \<Rightarrow> json list" where
  "join_on u f sa sb = [assign_records u a b. a \<leftarrow> sa, b \<leftarrow> sb,
     text_value u (jfield a f) = text_value u (jfield b f)]"

lemma prop_of_obj: "is_obj v \<Longrightarrow> json_prop u v f = Some (jfield v f)"
  by (cases v) (simp_all add: is_obj_def json_prop_def)

lemma index_by_objects:
  assumes "\<forall>b \<in> set bs. is_obj b"
  shows "index_by u f bs = Some (foldl (\<lambda>m b. oset (text_value u (jfield b f)) b m) [] bs)"
proof -
  have "foldl (\<lambda>acc b. case (acc, json_prop u b f) of
     (Some m, Some k) \<Rightarrow> Some (oset (text_value u k) b m) | _ \<Rightarrow> None) (Some m) bs =
    Some (foldl (\<lambda>m b. oset (text_value u (jfield b f)) b m) m bs)" for m
    using assms by (induction bs arbitrary: m) (simp_all add: prop_of_obj)
  then show ?thesis by (simp add: index_by_def)
qed

text \<open>The records that no later record with the same key replaces.\<close>

fun last_per_key :: "('a \<Rightarrow> string) \<Rightarrow> 'a list \<Rightarrow> 'a list" where
  "last_per_key key [] = []"
| "last_per_key key (b # bs) = (if key b \<in> set (map key bs) then last_per_key key bs else b # last_per_key key bs)"

lemma last_per_key_set: "key ` set (last_per_key key bs) = key ` set bs"
  by (induction bs) auto

lemma last_per_key_distinct: "distinct (map key bs) \<Longrightarrow> last_per_key key bs = bs"
  by (induction bs) auto

lemma last_per_key_none: "k \<notin> key ` set bs \<Longrightarrow> filter (\<lambda>b. key b = k) (last_per_key key bs) = []"
proof -
  assume "k \<notin> key ` set bs"
  then have "k \<notin> key ` set (last_per_key key bs)" by (simp add: last_per_key_set)
  then show ?thesis by (auto simp: filter_empty_conv)
qed

lemma index_lookup:
  "oget (foldl (\<lambda>m b. oset (key b) b m) m bs) k =
    (case filter (\<lambda>b. key b = k) (last_per_key key bs) of b # _ \<Rightarrow> Some b | [] \<Rightarrow> oget m k)"
proof (induction bs arbitrary: m)
  case (Cons b bs)
  show ?case
  proof (cases "key b \<in> key ` set bs")
    case True
    then have "key b \<in> key ` set (last_per_key key bs)" by (simp add: last_per_key_set)
    then obtain x where "x \<in> set (last_per_key key bs)" "key x = key b" by auto
    then have "key b = k \<Longrightarrow> filter (\<lambda>b. key b = k) (last_per_key key bs) \<noteq> []"
      by (auto simp: filter_empty_conv)
    with True Cons show ?thesis by (auto simp: obj_simps split: list.split)
  next
    case False
    with Cons last_per_key_none [of "key b" key bs] show ?thesis
      by (auto simp: obj_simps split: list.split)
  qed
qed simp

lemma last_per_key_unique:
  "filter (\<lambda>b. key b = k) (last_per_key key bs) = [] \<or> (\<exists>b. filter (\<lambda>b. key b = k) (last_per_key key bs) = [b])"
proof (induction bs)
  case (Cons b bs)
  then show ?case using last_per_key_none [of "key b" key bs] by auto
qed simp

lemma map_throw_total: "(\<And>x. x \<in> set xs \<Longrightarrow> f x = Some (g x)) \<Longrightarrow> map_throw f xs = Some (map g xs)"
  by (induction xs) auto

lemma pick_list: "[g b. b \<leftarrow> bs, k = key b] = map g (filter (\<lambda>b. key b = k) bs)"
  by (induction bs) auto

text \<open>
  C32. The intersection of two sets of records on a field is their join, in the order of the first set, with
  the records of the second set that no later one with the same value replaces; the full join only if no
  value occurs twice there. Values are compared as text, so two records that lack the field match.
\<close>

theorem intersect_is_join_on_last:
  assumes "\<forall>r \<in> set sa \<union> set sb. is_obj r"
  shows "intersect_on u f sa sb =
      Some (join_on u f sa (last_per_key (\<lambda>b. text_value u (jfield b f)) sb)) \<and>
    (distinct (map (\<lambda>b. text_value u (jfield b f)) sb) \<longrightarrow> intersect_on u f sa sb = Some (join_on u f sa sb))"
proof -
  let ?key = "\<lambda>b. text_value u (jfield b f)"
  let ?m = "foldl (\<lambda>m b. oset (?key b) b m) [] sb"
  let ?row = "\<lambda>a. let b = jget ?m (?key a) in if truthy b then Some (assign_records u a b) else None"
  have idx: "index_by u f sb = Some ?m" using assms by (intro index_by_objects) auto
  have "b \<in> set sb" if "b \<in> set (last_per_key ?key bs)" "set bs \<subseteq> set sb" for b bs
    using that by (induction bs) (auto split: if_splits)
  then have last_obj: "is_obj b" if "b \<in> set (last_per_key ?key sb)" for b using that assms by blast
  have row: "(case ?row a of None \<Rightarrow> [] | Some r \<Rightarrow> [r]) =
      [assign_records u a b. b \<leftarrow> last_per_key ?key sb, ?key a = ?key b]" if "a \<in> set sa" for a
  proof -
    have pick: "[assign_records u a b. b \<leftarrow> last_per_key ?key sb, ?key a = ?key b] =
        map (assign_records u a) (filter (\<lambda>b. ?key b = ?key a) (last_per_key ?key sb))"
      by (rule pick_list)
    from last_per_key_unique [of ?key "?key a" sb] show ?thesis
    proof
      assume "filter (\<lambda>b. ?key b = ?key a) (last_per_key ?key sb) = []"
      then show ?thesis unfolding pick by (simp add: jget_def index_lookup)
    next
      assume "\<exists>b. filter (\<lambda>b. ?key b = ?key a) (last_per_key ?key sb) = [b]"
      then obtain b where b: "filter (\<lambda>b. ?key b = ?key a) (last_per_key ?key sb) = [b]" by blast
      then have "b \<in> set (filter (\<lambda>b. ?key b = ?key a) (last_per_key ?key sb))" by simp
      then have "b \<in> set (last_per_key ?key sb)" by simp
      then have "truthy b" by (intro is_obj_truthy last_obj)
      with b show ?thesis unfolding pick by (simp add: jget_def index_lookup)
    qed
  qed
  have "map_throw (\<lambda>a. map_option (\<lambda>k. let b = jget ?m (text_value u k)
      in if truthy b then Some (assign_records u a b) else None) (json_prop u a f)) sa = Some (map ?row sa)"
    using assms by (intro map_throw_total) (simp add: prop_of_obj)
  moreover have "[r. Some r \<leftarrow> map ?row sa] = join_on u f sa (last_per_key ?key sb)"
    using row unfolding join_on_def by (induction sa) (auto simp: Let_def split: option.splits if_splits)
  ultimately have one: "intersect_on u f sa sb = Some (join_on u f sa (last_per_key ?key sb))"
    by (simp add: intersect_on_def idx)
  then show ?thesis using last_per_key_distinct [of ?key sb] by simp
qed

lemma intersect_is_join_on_last_witness:
  "intersect_on demo_world ''id'' [JObj [(''a'', JNum 1)]] [JObj [(''b'', JNum 1)], JObj [(''b'', JNum 2)]] =
    Some [JObj [(''a'', JNum 1), (''b'', JNum 2)]]"
  using intersect_is_join_on_last [of "[JObj [(''a'', JNum 1)]]" "[JObj [(''b'', JNum 1)], JObj [(''b'', JNum 2)]]"
      demo_world "''id''"]
  by (simp add: is_obj_def join_on_def text_value_def jget_def assign_records_def object_entries_def seed_def)

subsection \<open>Frequencies\<close>

lemma count_key_spec:
  "owf m \<Longrightarrow> owf (foldl count_key m ks)"
  "oget (foldl count_key m ks) k =
    (if k \<in> set ks then Some ((case oget m k of None \<Rightarrow> 0 | Some n \<Rightarrow> n) + count_list ks k) else oget m k)"
proof -
  show "owf m \<Longrightarrow> owf (foldl count_key m ks)"
    by (induction ks arbitrary: m) (simp_all add: count_key_def distinct_update)
  show "oget (foldl count_key m ks) k =
    (if k \<in> set ks then Some ((case oget m k of None \<Rightarrow> 0 | Some n \<Rightarrow> n) + count_list ks k) else oget m k)"
    by (induction ks arbitrary: m) (auto simp: count_key_def obj_simps)
qed

lemma sum_counts: "owf m \<Longrightarrow> sum_list (ovals (count_key m k)) = sum_list (ovals m) + 1"
  unfolding count_key_def
proof (induction m)
  case (Cons x m)
  obtain k' n where x: "x = (k', n)" by fastforce
  show ?case
  proof (cases "k' = k")
    case False
    with Cons x show ?thesis by (auto split: option.splits)
  qed (simp add: x)
qed simp

lemma sum_frequencies: "owf m \<Longrightarrow> sum_list (ovals (foldl count_key m ks)) = sum_list (ovals m) + length ks"
proof (induction ks arbitrary: m)
  case (Cons k ks)
  have "owf (count_key m k)" using Cons.prems by (simp add: count_key_def distinct_update)
  with Cons show ?case by (simp add: sum_counts)
qed simp

lemma map_throw_Some: "map_throw f xs = Some ys \<Longrightarrow> map f xs = map Some ys"
  by (induction xs arbitrary: ys) (auto split: option.splits)



subsection \<open>Appending to the outputs of an operation\<close>

text \<open>
  The string appender builds up a text in any part of the state but the outputs of the operation: the
  context of a task does not have them, so an append to an address under \<open>Output\<close> writes the new text alone,
  whatever was there.
\<close>

theorem append_to_output_overwrites:
  assumes "jget settings ''OutputAddress'' = JStr (''Output.'' @ p)" "jget settings ''InputString'' = JStr s"
    and "jget settings ''AppendNewline'' = JUndef"
  shows "\<exists>lg. stringAppender u settings tc =
    Reply (uNow u) (answer_with ''Completed'' [(''AppendedString'', JStr s)] [(''Output.'' @ p, JStr s)] [lg])"
proof -
  have "task_resolve u (JStr (''Output.'' @ p)) tc = JUndef"
    by (simp add: task_resolve_def as_text_def dot_defs)
  then show ?thesis
    using assms by (simp add: stringAppender_def as_text_def text_value_def Let_def) (rule exI, rule refl)
qed

lemma append_to_output_overwrites_witness:
  "\<exists>lg. stringAppender demo_world [(''OutputAddress'', JStr ''Output.log''), (''InputString'', JStr ''next'')] table_context =
    Reply 1 (answer_with ''Completed'' [(''AppendedString'', JStr ''next'')] [(''Output.log'', JStr ''next'')] [lg])"
  using append_to_output_overwrites [of "[(''OutputAddress'', JStr ''Output.log''), (''InputString'', JStr ''next'')]"
      "''log''" "''next''" demo_world table_context]
  by (simp add: jget_def demo_world_def)

end
