(* ===== verification/ProgramState.thy ===== *)
theory ProgramState
  imports Engine JsonText
begin

section \<open>Templates, operations and global state\<close>

text \<open>
  \<open>Ultravisor-Hypervisor-State.cjs\<close>: the tables of node templates and operations, the global state and
  the action catalog, kept in memory and written whole to the configuration file after every change.
  Reading the configuration at the start of the program is a library call; what it finds is a parameter.
  An entity is the JSON object of a request, which nobody else holds; an array is not modelled there.
\<close>

subsection \<open>The configuration file\<close>

text \<open>
  A file holds text that \<open>JSON.parse\<close> refuses, with the message, or the value it reads. A value is
  written with \<open>JSON.stringify\<close> and indented, which a reader does not see.
\<close>

datatype config_file = Garbled string | Config json

definition reparsed :: "(jstime \<Rightarrow> string) \<Rightarrow> json \<Rightarrow> json" where
  "reparsed stamp v =
     (case Option.bind (stringify stamp v) parse_json of None \<Rightarrow> JUndef | Some x \<Rightarrow> x)"

text \<open>
  Surroundings: clock and text of a time stamp; the phases in which the configuration was gathered, with
  their paths (empty for none), as the state service and as the schedule persistence find them; the
  path of \<open>ProgramConfigurationFileName\<close>; and the paths that can be written, with the
  message of a write that fails.
\<close>

record config_env =
  gNow :: jstime
  gStamp :: "jstime \<Rightarrow> string"
  gGatherPhases :: "(string \<times> string) list"
  gFablePhases :: "(string \<times> string) list option"
  gFallbackPath :: string
  gWritable :: "string \<Rightarrow> bool"
  gDenied :: string

text \<open>The last phase with a path that is not the default configuration, else the fallback.\<close>

definition last_phase_path :: "(string \<times> string) list \<Rightarrow> string" where
  "last_phase_path ps =
     foldl (\<lambda>a (phase, p). if phase \<noteq> ''Default Program Configuration'' \<and> p \<noteq> [] then p else a) [] ps"

definition write_config :: "config_env \<Rightarrow> string \<Rightarrow> json \<Rightarrow> config_file obj \<Rightarrow> (config_file obj) option" where
  "write_config g p v d = (if gWritable g p then Some (oset p (Config (reparsed (gStamp g) v)) d) else None)"

subsection \<open>The state\<close>

record program_state =
  NodeTemplates :: "json obj"
  Operations :: "json obj"
  ProgramGlobalState :: "json obj"
  StoredCatalog :: json
  TemplateCounters :: "int obj"
  OperationCounter :: int
  ConfigOutcome :: "json obj"
  ConfigDisk :: "config_file obj"

definition counters_json :: "int obj \<Rightarrow> json" where
  "counters_json cs = JObj (map (\<lambda>(k, n). (k, JInt n)) cs)"

text \<open>Counters that are not whole numbers do not occur in a file the program has written.\<close>

definition read_counters :: "json \<Rightarrow> int obj" where
  "read_counters v = (case v of JObj kvs \<Rightarrow> [(k, \<lfloor>q\<rfloor>). (k, JNum q) \<leftarrow> kvs] | _ \<Rightarrow> [])"

text \<open>
  The constructor: the program configuration \<open>prog\<close> that was found, with the keys of older versions, and
  the outcome of the gathering, which every later write goes through.
\<close>

definition load_state :: "json obj \<Rightarrow> json obj \<Rightarrow> config_file obj \<Rightarrow> program_state" where
  "load_state prog outcome d =
     \<lparr>NodeTemplates = fields_of (let t = jget prog ''NodeTemplates'' in if truthy t then t else jget prog ''TaskDefinitions''),
      Operations = fields_of (jget prog ''Operations''),
      ProgramGlobalState = fields_of (jget prog ''GlobalState''),
      StoredCatalog = (let c = jget prog ''ActionCatalog'' in if is_object c then c else JObj []),
      TemplateCounters = read_counters
        (let c = jget prog ''TemplateCounters'' in if truthy c then c else jget prog ''TaskCounters''),
      OperationCounter = (case jget prog ''OperationCounter'' of JNum q \<Rightarrow> \<lfloor>q\<rfloor> | _ \<Rightarrow> 0),
      ConfigOutcome = outcome, ConfigDisk = d\<rparr>"

subsection \<open>Generated hashes\<close>

text \<open>\<open>String(n).padStart(w, '0')\<close>\<close>

definition pad_start :: "nat \<Rightarrow> string \<Rightarrow> string" where
  "pad_start w s = replicate (w - length s) (CHR ''0'') @ s"

text \<open>
  \<open>toUpperCase().replace(/[^A-Z0-9]/g, '')\<close>; of the letters beyond ASCII only the sharp s has an upper
  case in that range.
\<close>

definition key_char :: "char \<Rightarrow> string" where
  "key_char c = (let n = of_char c :: int in
     if 97 \<le> n \<and> n \<le> 122 then [char_of (n - 32)]
     else if 65 \<le> n \<and> n \<le> 90 \<or> 48 \<le> n \<and> n \<le> 57 then [c]
     else if n = 223 then ''SS'' else [])"

definition type_key :: "string \<Rightarrow> string" where
  "type_key t = concat (map key_char (str_or t ''TEMPLATE''))"

definition template_hash :: "string \<Rightarrow> int \<Rightarrow> string" where
  "template_hash k n = ''TMPL-'' @ k @ ''-'' @ pad_start 3 (show_int n)"

definition generateTemplateHash :: "string \<Rightarrow> program_state \<Rightarrow> string \<times> program_state" where
  "generateTemplateHash t h =
     (let k = type_key t;
          n = (case oget (TemplateCounters h) k of None \<Rightarrow> 0 | Some n \<Rightarrow> n) + 1
      in (template_hash k n, h\<lparr>TemplateCounters := oset k n (TemplateCounters h)\<rparr>))"

definition operation_hash :: "int \<Rightarrow> string" where
  "operation_hash n = ''OPR-'' @ pad_start 4 (show_int n)"

definition generateOperationHash :: "program_state \<Rightarrow> string \<times> program_state" where
  "generateOperationHash h =
     (let n = OperationCounter h + 1 in (operation_hash n, h\<lparr>OperationCounter := n\<rparr>))"

subsection \<open>Persistence\<close>

definition state_path :: "config_env \<Rightarrow> string" where
  "state_path g = str_or (last_phase_path (gGatherPhases g)) (gFallbackPath g)"

definition persisted :: "program_state \<Rightarrow> json obj" where
  "persisted h =
     odel ''TaskCounters'' (odel ''TaskDefinitions''
       (oset ''TemplateCounters'' (counters_json (TemplateCounters h))
       (oset ''OperationCounter'' (JInt (OperationCounter h))
       (oset ''ActionCatalog'' (StoredCatalog h)
       (oset ''GlobalState'' (JObj (ProgramGlobalState h))
       (oset ''Operations'' (JObj (Operations h))
       (oset ''NodeTemplates'' (JObj (NodeTemplates h)) (ConfigOutcome h))))))))"

definition persistState :: "config_env \<Rightarrow> program_state \<Rightarrow> bool \<times> program_state" where
  "persistState g h =
     (if state_path g = [] then (False, h)
      else let h' = h\<lparr>ConfigOutcome := persisted h\<rparr>
           in case write_config g (state_path g) (JObj (persisted h)) (ConfigDisk h) of
               None \<Rightarrow> (False, h')
             | Some d \<Rightarrow> (True, h'\<lparr>ConfigDisk := d\<rparr>))"

subsection \<open>Node templates\<close>

text \<open>The answer of an operation: an error for the callback, a value, or an exception.\<close>

datatype store_reply = StoreError string | Stored json | StoreThrow

text \<open>A \<open>Hash\<close> that is a string with at least one character.\<close>

definition given_hash :: "json obj \<Rightarrow> string option" where
  "given_hash kvs = (case jget kvs ''Hash'' of JStr (c # cs) \<Rightarrow> Some (c # cs) | _ \<Rightarrow> None)"

definition missing_template :: "string \<Rightarrow> store_reply" where
  "missing_template h = StoreError (''Node template ['' @ h @ ''] not found.'')"

definition store_template :: "config_env \<Rightarrow> string \<Rightarrow> json obj \<Rightarrow> program_state \<Rightarrow> store_reply \<times> program_state" where
  "store_template g k kvs h =
     (let new = (case oget (NodeTemplates h) k of
            Some (JObj old) \<Rightarrow> JObj (seed kvs old) | _ \<Rightarrow> JObj kvs)
      in (Stored new, snd (persistState g (h\<lparr>NodeTemplates := oset k new (NodeTemplates h)\<rparr>))))"

definition updateNodeTemplate :: "config_env \<Rightarrow> json \<Rightarrow> program_state \<Rightarrow> store_reply \<times> program_state" where
  "updateNodeTemplate g v h = (case v of
     JObj kvs \<Rightarrow>
       (case given_hash kvs of
          Some k \<Rightarrow> store_template g k kvs h
        | None \<Rightarrow>
            let ty = jget kvs ''Type''
            in (case (if truthy ty then ty else JStr ''TEMPLATE'') of
                  JStr t \<Rightarrow> (let (k, h1) = generateTemplateHash t h
                             in store_template g k (oset ''Hash'' (JStr k) kvs) h1)
                | _ \<Rightarrow> (StoreThrow, h)))
   | _ \<Rightarrow> (StoreError ''updateNodeTemplate requires a valid object.'', h))"

definition getNodeTemplate :: "string \<Rightarrow> program_state \<Rightarrow> store_reply" where
  "getNodeTemplate k h = (case oget (NodeTemplates h) k of None \<Rightarrow> missing_template k | Some v \<Rightarrow> Stored v)"

definition getNodeTemplateList :: "program_state \<Rightarrow> store_reply" where
  "getNodeTemplateList h = Stored (JArr (ovals (NodeTemplates h)))"

definition deleteNodeTemplate :: "config_env \<Rightarrow> string \<Rightarrow> program_state \<Rightarrow> store_reply \<times> program_state" where
  "deleteNodeTemplate g k h =
     (if oget (NodeTemplates h) k = None then (missing_template k, h)
      else (Stored (JBool True), snd (persistState g (h\<lparr>NodeTemplates := odel k (NodeTemplates h)\<rparr>))))"

subsection \<open>Operations\<close>

definition missing_operation :: "string \<Rightarrow> store_reply" where
  "missing_operation h = StoreError (''Operation ['' @ h @ ''] not found.'')"

definition empty_graph :: json where
  "empty_graph = JObj [(''Nodes'', JArr []), (''Connections'', JArr []), (''ViewState'', JObj [])]"

text \<open>
  The stored object of a new operation is the object of the request, so its \<open>UpdatedAt\<close> is set with it;
  that of a known one is the old object, and \<open>UpdatedAt\<close> is set on the request after the merge.
\<close>

definition store_operation :: "config_env \<Rightarrow> string \<Rightarrow> json obj \<Rightarrow> program_state \<Rightarrow> store_reply \<times> program_state" where
  "store_operation g k kvs h =
     (let now = JStr (gStamp g (gNow g));
          kvs1 = (if truthy (jget kvs ''Graph'') then kvs else oset ''Graph'' empty_graph kvs);
          new = (case oget (Operations h) k of
             Some (JObj old) \<Rightarrow> JObj (seed kvs1 old)
           | _ \<Rightarrow> JObj (oset ''UpdatedAt'' now
               (oset ''CreatedAt'' (if truthy (jget kvs1 ''CreatedAt'') then jget kvs1 ''CreatedAt'' else now) kvs1)))
      in (Stored new, snd (persistState g (h\<lparr>Operations := oset k new (Operations h)\<rparr>))))"

definition updateOperation :: "config_env \<Rightarrow> json \<Rightarrow> program_state \<Rightarrow> store_reply \<times> program_state" where
  "updateOperation g v h = (case v of
     JObj kvs \<Rightarrow>
       (case given_hash kvs of
          Some k \<Rightarrow> store_operation g k kvs h
        | None \<Rightarrow> (let (k, h1) = generateOperationHash h
                   in store_operation g k (oset ''Hash'' (JStr k) kvs) h1))
   | _ \<Rightarrow> (StoreError ''updateOperation requires a valid object.'', h))"

definition getOperation :: "string \<Rightarrow> program_state \<Rightarrow> store_reply" where
  "getOperation k h = (case oget (Operations h) k of None \<Rightarrow> missing_operation k | Some v \<Rightarrow> Stored v)"

definition getOperationSync :: "string \<Rightarrow> program_state \<Rightarrow> json" where
  "getOperationSync k h = (let v = jget (Operations h) k in if truthy v then v else JNull)"

definition getOperationList :: "program_state \<Rightarrow> store_reply" where
  "getOperationList h = Stored (JArr (ovals (Operations h)))"

definition deleteOperation :: "config_env \<Rightarrow> string \<Rightarrow> program_state \<Rightarrow> store_reply \<times> program_state" where
  "deleteOperation g k h =
     (if oget (Operations h) k = None then (missing_operation k, h)
      else (Stored (JBool True), snd (persistState g (h\<lparr>Operations := odel k (Operations h)\<rparr>))))"

text \<open>
  The operations a beacon brings with its registration (\<open>_registerBeaconOperations\<close> of the
  coordinator): each is tagged with the beacon and stored.
\<close>

definition tagged_operation :: "string \<Rightarrow> json \<Rightarrow> json" where
  "tagged_operation b v = JObj (oset ''SourceType'' (JStr ''Beacon'')
     (oset ''SourceBeacon'' (JStr b) (seed (fields_of v) [])))"

definition registerBeaconOperations :: "config_env \<Rightarrow> string \<Rightarrow> json list \<Rightarrow> program_state \<Rightarrow> program_state" where
  "registerBeaconOperations g b ops h =
     foldl (\<lambda>h v. snd (updateOperation g (tagged_operation b v) h)) h ops"

subsection \<open>Action catalog and global state\<close>

definition updateActionCatalog :: "config_env \<Rightarrow> json \<Rightarrow> program_state \<Rightarrow> program_state" where
  "updateActionCatalog g v h =
     (if is_object v then snd (persistState g (h\<lparr>StoredCatalog := v\<rparr>)) else h)"

definition getGlobalState :: "config_env \<Rightarrow> program_state \<Rightarrow> json" where
  "getGlobalState g h = reparsed (gStamp g) (JObj (ProgramGlobalState h))"

definition updateGlobalState :: "config_env \<Rightarrow> json obj \<Rightarrow> program_state \<Rightarrow> program_state" where
  "updateGlobalState g kvs h =
     snd (persistState g (h\<lparr>ProgramGlobalState := seed kvs (ProgramGlobalState h)\<rparr>))"

subsection \<open>The routes\<close>

text \<open>
  The routes of the API server (\<open>web_server/Ultravisor-API-Server.cjs\<close>): status and body. An exception
  in a handler never answers (\<open>None\<close>).
\<close>

definition respond :: "nat \<Rightarrow> store_reply \<Rightarrow> (nat \<times> json) option" where
  "respond code r = (case r of
     StoreError msg \<Rightarrow> Some (code, JObj [(''Error'', JStr msg)])
   | Stored v \<Rightarrow> Some (200, v)
   | StoreThrow \<Rightarrow> None)"

definition with_hash :: "string \<Rightarrow> json \<Rightarrow> json" where
  "with_hash k body = (case body of JObj kvs \<Rightarrow> JObj (oset ''Hash'' (JStr k) kvs) | _ \<Rightarrow>
     if truthy body then body else JObj [(''Hash'', JStr k)])"

definition deleted :: "string \<Rightarrow> store_reply \<Rightarrow> store_reply" where
  "deleted k r = (case r of
     Stored v \<Rightarrow> Stored (JObj [(''Status'', JStr ''Deleted''), (''Hash'', JStr k)]) | _ \<Rightarrow> r)"

datatype state_request =
    GetTemplates | GetTemplate string | PostTemplate json | PutTemplate string json | DeleteTemplate string
  | GetOperations | GetOperation string | PostOperation json | PutOperation string json | DeleteOperation string

definition state_route :: "config_env \<Rightarrow> state_request \<Rightarrow> program_state \<Rightarrow> (nat \<times> json) option \<times> program_state" where
  "state_route g r h = (case r of
     GetTemplates \<Rightarrow> (respond 500 (getNodeTemplateList h), h)
   | GetTemplate k \<Rightarrow> (respond 404 (getNodeTemplate k h), h)
   | PostTemplate body \<Rightarrow> map_prod (respond 400) id (updateNodeTemplate g body h)
   | PutTemplate k body \<Rightarrow> map_prod (respond 400) id (updateNodeTemplate g (with_hash k body) h)
   | DeleteTemplate k \<Rightarrow> map_prod (respond 404 \<circ> deleted k) id (deleteNodeTemplate g k h)
   | GetOperations \<Rightarrow> (respond 500 (getOperationList h), h)
   | GetOperation k \<Rightarrow> (respond 404 (getOperation k h), h)
   | PostOperation body \<Rightarrow> map_prod (respond 400) id (updateOperation g body h)
   | PutOperation k body \<Rightarrow> map_prod (respond 400) id (updateOperation g (with_hash k body) h)
   | DeleteOperation k \<Rightarrow> map_prod (respond 404 \<circ> deleted k) id (deleteOperation g k h))"

end
