(* ===== verification/Hypervisor.thy ===== *)
theory Hypervisor
  imports ProgramState
begin

section \<open>The schedule\<close>

text \<open>
  \<open>Ultravisor-Hypervisor.cjs\<close> keeps the entries of the schedule, \<open>events/Ultravisor-Hypervisor-Event-Cron.cjs\<close>
  the jobs of the cron library that run for them, and
  \<open>persistence/Ultravisor-Schedule-Persistence-JSONFile.cjs\<close> the schedule in the configuration file, beside
  what the state service writes there. When a job ticks is up to the library, as is which expressions it
  accepts.
\<close>

subsection \<open>Entries\<close>

record schedule_entry =
  sGUID :: string
  sTargetType :: string
  sTargetHash :: string
  sScheduleType :: string
  sParameters :: string
  sCronExpression :: string
  sActive :: bool
  sCreatedAt :: string

definition entry_json :: "schedule_entry \<Rightarrow> json" where
  "entry_json e = JObj
     [(''GUID'', JStr (sGUID e)), (''TargetType'', JStr (sTargetType e)), (''TargetHash'', JStr (sTargetHash e)),
      (''ScheduleType'', JStr (sScheduleType e)), (''Parameters'', JStr (sParameters e)),
      (''CronExpression'', JStr (sCronExpression e)), (''Active'', JBool (sActive e)),
      (''CreatedAt'', JStr (sCreatedAt e))]"

definition text_field :: "json obj \<Rightarrow> string \<Rightarrow> string" where
  "text_field kvs k = (case jget kvs k of JStr s \<Rightarrow> s | _ \<Rightarrow> [])"

text \<open>An entry as the code reads it; a field that is missing counts as empty.\<close>

definition json_entry :: "json \<Rightarrow> schedule_entry" where
  "json_entry v = (let kvs = fields_of v in
     \<lparr>sGUID = text_field kvs ''GUID'', sTargetType = text_field kvs ''TargetType'',
      sTargetHash = text_field kvs ''TargetHash'', sScheduleType = text_field kvs ''ScheduleType'',
      sParameters = text_field kvs ''Parameters'', sCronExpression = text_field kvs ''CronExpression'',
      sActive = truthy (jget kvs ''Active''), sCreatedAt = text_field kvs ''CreatedAt''\<rparr>)"

definition schedule_json :: "schedule_entry list \<Rightarrow> json" where
  "schedule_json es = JArr (map entry_json es)"

text \<open>\<open>_resolveScheduleExpression\<close>\<close>

definition resolveScheduleExpression :: "string \<Rightarrow> string \<Rightarrow> string" where
  "resolveScheduleExpression ty params =
     (if to_lower (str_or ty ''cron'') = ''daily'' then str_or params ''0 0 * * *''
      else str_or params ''0 * * * *'')"

subsection \<open>The configuration file of the schedule\<close>

definition schedule_path :: "config_env \<Rightarrow> string" where
  "schedule_path g =
     str_or (case gFablePhases g of None \<Rightarrow> [] | Some ps \<Rightarrow> last_phase_path ps) (gFallbackPath g)"

text \<open>\<open>loadSchedule\<close> of the file; every error reads as the empty schedule.\<close>

definition load_file :: "config_env \<Rightarrow> config_file obj \<Rightarrow> json list" where
  "load_file g d =
     (if schedule_path g = [] then []
      else case oget d (schedule_path g) of
          Some (Config (JObj kvs)) \<Rightarrow> (case jget kvs ''Schedule'' of JArr es \<Rightarrow> es | _ \<Rightarrow> [])
        | _ \<Rightarrow> [])"

text \<open>
  \<open>saveSchedule\<close>: the other keys of the file are kept; a file that cannot be parsed is left alone. A
  file with a value that is no object does not occur.
\<close>

definition save_file :: "config_env \<Rightarrow> schedule_entry list \<Rightarrow> config_file obj \<Rightarrow> string option \<times> config_file obj" where
  "save_file g es d =
     (if schedule_path g = [] then (Some ''No config path available.'', d)
      else case (case oget d (schedule_path g) of
            None \<Rightarrow> Inr [] | Some (Config v) \<Rightarrow> Inr (fields_of v) | Some (Garbled msg) \<Rightarrow> Inl msg) of
          Inl msg \<Rightarrow> (Some msg, d)
        | Inr kvs \<Rightarrow>
            (case write_config g (schedule_path g) (JObj (oset ''Schedule'' (schedule_json es) kvs)) d of
               None \<Rightarrow> (Some (gDenied g), d)
             | Some d' \<Rightarrow> (None, d')))"

subsection \<open>Cron jobs\<close>

text \<open>
  The table maps a GUID to its job. The library keeps a started job running until it is stopped, whether
  or not the table still has it; a job carries the entry it was started for, by its GUID and target.
\<close>

record cron_job =
  jNumber :: nat
  jGUID :: string
  jTarget :: string
  jExpression :: string

record cron_service =
  cActive :: bool
  cCronJobs :: "nat obj"
  cRunning :: "cron_job list"
  cNext :: nat

definition no_cron :: cron_service where
  "no_cron = \<lparr>cActive = False, cCronJobs = [], cRunning = [], cNext = 0\<rparr>"

definition stop_job :: "nat \<Rightarrow> cron_service \<Rightarrow> cron_service" where
  "stop_job n c = c\<lparr>cRunning := filter (\<lambda>j. jNumber j \<noteq> n) (cRunning c)\<rparr>"

definition cron_start :: "(string \<Rightarrow> bool) \<Rightarrow> jstime \<Rightarrow> schedule_entry \<Rightarrow> cron_service \<Rightarrow> cron_service" where
  "cron_start accepts now e c =
     (let ex = str_or (sCronExpression e) (str_or (sParameters e) ''0 * * * *'');
          g = str_or (sGUID e) (''cron-'' @ show_int now)
      in if accepts ex
         then c\<lparr>cActive := True, cCronJobs := oset g (cNext c) (cCronJobs c),
                cRunning := cRunning c @ [\<lparr>jNumber = cNext c, jGUID = sGUID e, jTarget = sTargetHash e, jExpression = ex\<rparr>],
                cNext := Suc (cNext c)\<rparr>
         else c\<lparr>cActive := False\<rparr>)"

definition stopJob :: "string \<Rightarrow> cron_service \<Rightarrow> cron_service" where
  "stopJob g c = (case oget (cCronJobs c) g of
     None \<Rightarrow> c
   | Some n \<Rightarrow> (stop_job n c)\<lparr>cCronJobs := odel g (cCronJobs c)\<rparr>)"

definition cron_stop :: "cron_service \<Rightarrow> cron_service" where
  "cron_stop c = (fold stop_job (ovals (cCronJobs c)) c)\<lparr>cActive := False, cCronJobs := []\<rparr>"

definition jobCount :: "cron_service \<Rightarrow> nat" where
  "jobCount c = length (okeys (cCronJobs c))"

subsection \<open>The hypervisor\<close>

text \<open>
  Its surroundings: those of the configuration, the expressions of the cron library, and whether a
  persistence provider is registered. The configuration file is that of the state service.
\<close>

record hyper_env =
  vConfig :: config_env
  vAccepts :: "string \<Rightarrow> bool"
  vPersistence :: bool

record hypervisor =
  hSchedule :: "schedule_entry list"
  hIsRunning :: bool
  hCron :: cron_service
  hState :: program_state

text \<open>A fresh process with an empty schedule, over the state that was loaded.\<close>

definition new_process :: "program_state \<Rightarrow> hypervisor" where
  "new_process st = \<lparr>hSchedule = [], hIsRunning = False, hCron = no_cron, hState = st\<rparr>"

definition persistSchedule :: "hyper_env \<Rightarrow> hypervisor \<Rightarrow> hypervisor" where
  "persistSchedule v h =
     (if vPersistence v
      then h\<lparr>hState := (hState h)\<lparr>ConfigDisk := snd (save_file (vConfig v) (hSchedule h) (ConfigDisk (hState h)))\<rparr>\<rparr>
      else h)"

text \<open>An empty schedule in the file does not replace the one in memory.\<close>

definition loadSchedule :: "hyper_env \<Rightarrow> hypervisor \<Rightarrow> hypervisor" where
  "loadSchedule v h =
     (if \<not> vPersistence v then h
      else case load_file (vConfig v) (ConfigDisk (hState h)) of
          [] \<Rightarrow> h
        | e # es \<Rightarrow> h\<lparr>hSchedule := map json_entry (e # es)\<rparr>)"

definition schedule_guid :: "string \<Rightarrow> jstime \<Rightarrow> string" where
  "schedule_guid op now = ''sched-op-'' @ op @ ''-'' @ show_int now"

definition newEntry :: "config_env \<Rightarrow> string \<Rightarrow> string \<Rightarrow> string \<Rightarrow> schedule_entry" where
  "newEntry g op ty params =
     \<lparr>sGUID = schedule_guid op (gNow g), sTargetType = ''Operation'', sTargetHash = op,
      sScheduleType = str_or ty ''cron'', sParameters = str_or params ''0 * * * *'',
      sCronExpression = resolveScheduleExpression ty params, sActive = False,
      sCreatedAt = gStamp g (gNow g)\<rparr>"

definition scheduleOperation :: "hyper_env \<Rightarrow> string \<Rightarrow> string \<Rightarrow> string \<Rightarrow> hypervisor \<Rightarrow> schedule_entry \<times> hypervisor" where
  "scheduleOperation v op ty params h =
     (let e = newEntry (vConfig v) op ty params
      in (e, persistSchedule v (h\<lparr>hSchedule := hSchedule h @ [e]\<rparr>)))"

text \<open>The loop of \<open>startSchedule\<close>: an entry that is already active is skipped.\<close>

fun start_entries :: "hyper_env \<Rightarrow> schedule_entry list \<Rightarrow> cron_service \<Rightarrow> schedule_entry list \<times> cron_service" where
  "start_entries v [] c = ([], c)"
| "start_entries v (e # es) c =
     (if sActive e then map_prod ((#) e) id (start_entries v es c)
      else let e' = e\<lparr>sActive := True\<rparr>
           in map_prod ((#) e') id
                (start_entries v es (cron_start (vAccepts v) (gNow (vConfig v)) e' c)))"

definition startSchedule :: "hyper_env \<Rightarrow> hypervisor \<Rightarrow> hypervisor" where
  "startSchedule v h =
     (let (es, c) = start_entries v (hSchedule h) (hCron h)
      in h\<lparr>hIsRunning := True, hSchedule := es, hCron := c\<rparr>)"

definition stopSchedule :: "hyper_env \<Rightarrow> hypervisor \<Rightarrow> hypervisor" where
  "stopSchedule v h =
     persistSchedule v (h\<lparr>hCron := cron_stop (hCron h), hIsRunning := False,
       hSchedule := map (\<lambda>e. e\<lparr>sActive := False\<rparr>) (hSchedule h)\<rparr>)"

text \<open>The first entry with a GUID is replaced or removed.\<close>

fun replace_entry :: "string \<Rightarrow> (schedule_entry \<Rightarrow> schedule_entry list) \<Rightarrow> schedule_entry list \<Rightarrow> schedule_entry list" where
  "replace_entry g f [] = []"
| "replace_entry g f (e # es) = (if sGUID e = g then f e @ es else e # replace_entry g f es)"

definition entry_missing :: "string \<Rightarrow> string" where
  "entry_missing g = ''Schedule entry '' @ g @ '' not found.''"

definition startScheduleEntry :: "hyper_env \<Rightarrow> string \<Rightarrow> hypervisor \<Rightarrow> (string + schedule_entry) \<times> hypervisor" where
  "startScheduleEntry v g h = (case find (\<lambda>e. sGUID e = g) (hSchedule h) of
     None \<Rightarrow> (Inl (entry_missing g), h)
   | Some e \<Rightarrow>
       if sActive e then (Inr e, h)
       else let e' = e\<lparr>sActive := True\<rparr>
            in (Inr e', persistSchedule v (h\<lparr>
                 hSchedule := replace_entry g (\<lambda>e. [e']) (hSchedule h),
                 hCron := cron_start (vAccepts v) (gNow (vConfig v)) e' (hCron h)\<rparr>)))"

definition stopScheduleEntry :: "hyper_env \<Rightarrow> string \<Rightarrow> hypervisor \<Rightarrow> (string + schedule_entry) \<times> hypervisor" where
  "stopScheduleEntry v g h = (case find (\<lambda>e. sGUID e = g) (hSchedule h) of
     None \<Rightarrow> (Inl (entry_missing g), h)
   | Some e \<Rightarrow>
       if \<not> sActive e then (Inr e, h)
       else let e' = e\<lparr>sActive := False\<rparr>
            in (Inr e', persistSchedule v (h\<lparr>
                 hSchedule := replace_entry g (\<lambda>e. [e']) (hSchedule h), hCron := stopJob g (hCron h)\<rparr>)))"

definition removeScheduleEntry :: "hyper_env \<Rightarrow> string \<Rightarrow> hypervisor \<Rightarrow> (string + unit) \<times> hypervisor" where
  "removeScheduleEntry v g h = (case find (\<lambda>e. sGUID e = g) (hSchedule h) of
     None \<Rightarrow> (Inl (entry_missing g), h)
   | Some e \<Rightarrow> (Inr (), persistSchedule v (h\<lparr>
       hSchedule := replace_entry g (\<lambda>e. []) (hSchedule h),
       hCron := (if sActive e then stopJob g (hCron h) else hCron h)\<rparr>)))"

text \<open>A tick of a running job: the operation that the engine is asked to execute, if it is stored.\<close>

definition cron_tick :: "hypervisor \<Rightarrow> cron_job \<Rightarrow> store_reply" where
  "cron_tick h j = getOperation (jTarget j) (hState h)"

subsection \<open>The routes\<close>

datatype schedule_request =
    GetSchedule | ScheduleOperation string string string | DeleteSchedule string
  | StartSchedule | StartEntry string | StopSchedule | StopEntry string | StopServer

definition entry_reply :: "string \<Rightarrow> (string + schedule_entry) \<Rightarrow> nat \<times> json" where
  "entry_reply status r = (case r of
     Inl msg \<Rightarrow> (404, JObj [(''Error'', JStr msg)])
   | Inr e \<Rightarrow> (200, JObj [(''Status'', JStr status), (''Entry'', entry_json e)]))"

definition status_reply :: "string \<Rightarrow> nat \<times> json" where
  "status_reply s = (200, JObj [(''Status'', JStr s)])"

definition schedule_route :: "hyper_env \<Rightarrow> schedule_request \<Rightarrow> hypervisor \<Rightarrow> (nat \<times> json) \<times> hypervisor" where
  "schedule_route v r h = (case r of
     GetSchedule \<Rightarrow> ((200, schedule_json (hSchedule h)), h)
   | ScheduleOperation op ty params \<Rightarrow> map_prod (\<lambda>e. (200, entry_json e)) id (scheduleOperation v op ty params h)
   | DeleteSchedule g \<Rightarrow> map_prod (\<lambda>x. case x of
         Inl msg \<Rightarrow> (404, JObj [(''Error'', JStr msg)])
       | Inr u \<Rightarrow> (200, JObj [(''Status'', JStr ''Deleted''), (''GUID'', JStr g)])) id (removeScheduleEntry v g h)
   | StartSchedule \<Rightarrow> (status_reply ''Schedule Started'', startSchedule v h)
   | StartEntry g \<Rightarrow> map_prod (entry_reply ''Entry Started'') id (startScheduleEntry v g h)
   | StopSchedule \<Rightarrow> (status_reply ''Schedule Stopped'', stopSchedule v h)
   | StopEntry g \<Rightarrow> map_prod (entry_reply ''Entry Stopped'') id (stopScheduleEntry v g h)
   | StopServer \<Rightarrow> (status_reply ''STOPPING'', stopSchedule v h))"

end
