(* ===== verification/HypervisorProperties.thy ===== *)
theory HypervisorProperties
  imports Hypervisor FlowProperties
begin

section \<open>What the schedule and its file promise\<close>

text \<open>
  The jobs that run are those of the active entries; the file of the schedule is lost to the next write of
  the state; and what the state service has written is what it finds after a restart.
\<close>

subsection \<open>Jobs and entries\<close>

definition entry_expression :: "schedule_entry \<Rightarrow> string" where
  "entry_expression e = str_or (sCronExpression e) (str_or (sParameters e) ''0 * * * *'')"

definition entry_key :: "schedule_entry \<Rightarrow> string \<times> string \<times> string" where
  "entry_key e = (sGUID e, sTargetHash e, entry_expression e)"

definition job_key :: "cron_job \<Rightarrow> string \<times> string \<times> string" where
  "job_key j = (jGUID j, jTarget j, jExpression j)"

text \<open>An entry that should run: it is active and the cron library accepts its expression.\<close>

definition live_entry :: "(string \<Rightarrow> bool) \<Rightarrow> schedule_entry \<Rightarrow> bool" where
  "live_entry acc e \<longleftrightarrow> sActive e \<and> acc (entry_expression e)"

definition cron_ok :: "cron_service \<Rightarrow> bool" where
  "cron_ok c \<longleftrightarrow> owf (cCronJobs c) \<and>
     set (cCronJobs c) = (\<lambda>j. (jGUID j, jNumber j)) ` set (cRunning c) \<and>
     distinct (map jNumber (cRunning c)) \<and> distinct (map jGUID (cRunning c)) \<and>
     (\<forall>j \<in> set (cRunning c). jNumber j < cNext c)"

definition matches :: "(string \<Rightarrow> bool) \<Rightarrow> schedule_entry list \<Rightarrow> cron_service \<Rightarrow> bool" where
  "matches acc es c \<longleftrightarrow>
     mset (map job_key (cRunning c)) = mset (map entry_key (filter (live_entry acc) es))"

lemma matches_guids:
  assumes "matches acc es c"
  shows "jGUID ` set (cRunning c) = sGUID ` {e \<in> set es. live_entry acc e}"
proof -
  have "fst ` set (map job_key (cRunning c)) = fst ` set (map entry_key (filter (live_entry acc) es))"
    using assms by (metis matches_def set_mset_mset)
  then show ?thesis by (simp add: image_image job_key_def entry_key_def)
qed

lemma guid_unique: "distinct (map f xs) \<Longrightarrow> x \<in> set xs \<Longrightarrow> y \<in> set xs \<Longrightarrow> f x = f y \<Longrightarrow> x = y"
  by (metis distinct_map inj_onD)

lemma not_running:
  assumes "matches acc es c" "distinct (map sGUID es)" "e \<in> set es" "\<not> live_entry acc e"
  shows "sGUID e \<notin> jGUID ` set (cRunning c)"
  unfolding matches_guids [OF assms(1)] using assms(2-4) by (auto dest: guid_unique)

lemma cron_start_ok:
  assumes "cron_ok c" "sGUID e \<noteq> []" "sGUID e \<notin> jGUID ` set (cRunning c)" "sActive e"
  shows "cron_ok (cron_start acc now e c)"
    and "mset (map job_key (cRunning (cron_start acc now e c))) =
      mset (map job_key (cRunning c)) + mset (map entry_key (filter (live_entry acc) [e]))"
proof -
  have others: "\<And>j. j \<in> set (cRunning c) \<Longrightarrow> jGUID j \<noteq> sGUID e" using assms(3) by (metis image_eqI)
  have table: "set (oset (sGUID e) (cNext c) (cCronJobs c)) = insert (sGUID e, cNext c) (set (cCronJobs c))"
    using assms(1) others by (subst set_oset) (auto simp: cron_ok_def)
  show "cron_ok (cron_start acc now e c)"
  proof (cases "acc (entry_expression e)")
    case True
    then have "cron_start acc now e c = c\<lparr>cActive := True, cCronJobs := oset (sGUID e) (cNext c) (cCronJobs c),
        cRunning := cRunning c @ [\<lparr>jNumber = cNext c, jGUID = sGUID e, jTarget = sTargetHash e,
          jExpression = entry_expression e\<rparr>], cNext := Suc (cNext c)\<rparr>"
      using assms(2) by (simp add: cron_start_def entry_expression_def Let_def str_or_def)
    with assms(1) table others show ?thesis by (force simp: cron_ok_def distinct_update less_Suc_eq)
  next
    case False
    then show ?thesis
      using assms(1) by (simp add: cron_start_def entry_expression_def Let_def cron_ok_def)
  qed
  show "mset (map job_key (cRunning (cron_start acc now e c))) =
      mset (map job_key (cRunning c)) + mset (map entry_key (filter (live_entry acc) [e]))"
    using assms(2,4)
    by (simp add: cron_start_def live_entry_def entry_key_def job_key_def entry_expression_def Let_def str_or_def)
qed

lemma cron_okD:
  assumes "cron_ok c"
  shows "owf (cCronJobs c)" "set (cCronJobs c) = (\<lambda>j. (jGUID j, jNumber j)) ` set (cRunning c)"
    "distinct (map jNumber (cRunning c))" "distinct (map jGUID (cRunning c))"
    "\<forall>j \<in> set (cRunning c). jNumber j < cNext c"
  using assms by (auto simp: cron_ok_def)

lemma job_number:
  assumes ok: "cron_ok c" and n: "oget (cCronJobs c) g = Some n" and j: "j \<in> set (cRunning c)"
  shows "jNumber j = n \<longleftrightarrow> jGUID j = g"
proof -
  have "(g, n) \<in> (\<lambda>j. (jGUID j, jNumber j)) ` set (cRunning c)"
    using oget_in [OF n] unfolding cron_okD(2) [OF ok] .
  then obtain j' where j': "j' \<in> set (cRunning c)" "jGUID j' = g" "jNumber j' = n" by auto
  have "j = j'" if "jNumber j = n"
    by (rule guid_unique [OF cron_okD(3) [OF ok] j j'(1)]) (simp add: that j'(3))
  moreover have "j = j'" if "jGUID j = g"
    by (rule guid_unique [OF cron_okD(4) [OF ok] j j'(1)]) (simp add: that j'(2))
  ultimately show ?thesis using j'(2,3) by blast
qed

lemma stopJob_running:
  assumes "cron_ok c"
  shows "cRunning (stopJob g c) = filter (\<lambda>j. jGUID j \<noteq> g) (cRunning c)"
proof (cases "oget (cCronJobs c) g")
  case None
  then have "g \<notin> fst ` set (cCronJobs c)" by (simp add: map_of_eq_None_iff)
  then have "\<forall>j \<in> set (cRunning c). jGUID j \<noteq> g" unfolding cron_okD(2) [OF assms] by (auto simp: image_image)
  then have "filter (\<lambda>j. jGUID j \<noteq> g) (cRunning c) = cRunning c" by (rule filter_True)
  with None show ?thesis by (simp add: stopJob_def)
next
  case (Some n)
  have "filter (\<lambda>j. jNumber j \<noteq> n) (cRunning c) = filter (\<lambda>j. jGUID j \<noteq> g) (cRunning c)"
    by (rule filter_cong [OF refl]) (simp add: job_number [OF assms Some])
  with Some show ?thesis by (simp add: stopJob_def stop_job_def)
qed

lemma stopJob_table: "cCronJobs (stopJob g c) = odel g (cCronJobs c)" "cNext (stopJob g c) = cNext c"
proof -
  have "odel g (cCronJobs c) = cCronJobs c" if "oget (cCronJobs c) g = None"
    using that by (intro delete_id) (simp add: map_of_eq_None_iff)
  then show "cCronJobs (stopJob g c) = odel g (cCronJobs c)" "cNext (stopJob g c) = cNext c"
    by (simp_all add: stopJob_def stop_job_def split: option.split)
qed

lemma image_restrict: "{y \<in> f ` A. P y} = f ` {x \<in> A. P (f x)}"
  by auto

lemma image_other: "{kv \<in> (\<lambda>j. (f j, n j)) ` A. fst kv \<noteq> g} = (\<lambda>j. (f j, n j)) ` {j \<in> A. f j \<noteq> g}"
  unfolding image_restrict by simp

lemma stopJob_ok:
  assumes "cron_ok c"
  shows "cron_ok (stopJob g c)"
proof -
  note ok = cron_okD [OF assms]
  show ?thesis
    unfolding cron_ok_def stopJob_running [OF assms] stopJob_table set_odel ok(2) image_other set_filter
  proof (intro conjI)
    show "owf (odel g (cCronJobs c))" by (rule distinct_delete [OF ok(1)])
    show "distinct (map jNumber (filter (\<lambda>j. jGUID j \<noteq> g) (cRunning c)))" by (rule distinct_map_filter [OF ok(3)])
    show "distinct (map jGUID (filter (\<lambda>j. jGUID j \<noteq> g) (cRunning c)))" by (rule distinct_map_filter [OF ok(4)])
    show "\<forall>j \<in> {j \<in> set (cRunning c). jGUID j \<noteq> g}. jNumber j < cNext c" using ok(5) by blast
  qed (rule refl)
qed

lemma fold_stop: "cRunning (fold stop_job ns c) = filter (\<lambda>j. jNumber j \<notin> set ns) (cRunning c)"
  by (induction ns arbitrary: c) (auto simp: stop_job_def intro: filter_cong)

lemma cron_stop_ok:
  assumes "cron_ok c"
  shows "cron_ok (cron_stop c)" and "cRunning (cron_stop c) = []"
proof -
  have "jNumber j \<in> set (ovals (cCronJobs c))" if "j \<in> set (cRunning c)" for j
    using assms that by (force simp: cron_ok_def)
  then show "cRunning (cron_stop c) = []" by (auto simp: cron_stop_def fold_stop filter_empty_conv)
  then show "cron_ok (cron_stop c)" by (simp add: cron_ok_def cron_stop_def)
qed

subsection \<open>Changes of one entry\<close>

lemma replace_entry_drops:
  assumes "distinct (map sGUID es)" "\<And>e. e \<in> set es \<Longrightarrow> filter P (f e) = []"
  shows "filter P (replace_entry g f es) = filter (\<lambda>e. P e \<and> sGUID e \<noteq> g) es"
  using assms
proof (induction es)
  case (Cons e es)
  show ?case
  proof (cases "sGUID e = g")
    case True
    then have "\<And>x. x \<in> set es \<Longrightarrow> sGUID x \<noteq> g"
      using Cons.prems(1) by (metis distinct.simps(2) image_eqI list.simps(9) list.set_map)
    with True Cons.prems(2) [of e] show ?thesis by (auto intro: filter_cong)
  next
    case False
    with Cons show ?thesis by auto
  qed
qed simp

lemma replace_entry_adds:
  assumes "find (\<lambda>e. sGUID e = g) es = Some e" "\<not> P e"
  shows "mset (filter P (replace_entry g (\<lambda>x. [e']) es)) = mset (filter P es) + mset (filter P [e'])"
  using assms by (induction es) (auto split: if_splits)

lemma replace_entry_guids:
  "sGUID e' = g \<Longrightarrow> map sGUID (replace_entry g (\<lambda>x. [e']) es) = map sGUID es"
  by (induction es) auto

lemma remove_entry_guids:
  "distinct (map sGUID es) \<Longrightarrow> distinct (map sGUID (replace_entry g (\<lambda>x. []) es)) \<and>
    set (replace_entry g (\<lambda>x. []) es) \<subseteq> set es"
  by (induction es) auto

lemma find_entry: "find (\<lambda>e. sGUID e = g) es = Some e \<Longrightarrow> e \<in> set es \<and> sGUID e = g"
  by (induction es) (auto split: if_splits)

lemma filter_keys:
  "(\<And>x. fst (k x) = f x) \<Longrightarrow>
    mset (map k (filter (\<lambda>x. f x \<noteq> g) xs)) = filter_mset (\<lambda>y. fst y \<noteq> g) (mset (map k xs))"
  by (induction xs) auto

lemma stopped_matches:
  assumes "matches acc es c" "cron_ok c" "filter (live_entry acc) es' = filter (\<lambda>e. live_entry acc e \<and> sGUID e \<noteq> g) es"
  shows "matches acc es' (stopJob g c)"
proof -
  have "mset (map job_key (filter (\<lambda>j. jGUID j \<noteq> g) (cRunning c))) =
      mset (map entry_key (filter (\<lambda>e. sGUID e \<noteq> g) (filter (live_entry acc) es)))"
    using assms(1) unfolding matches_def
    by (subst filter_keys [where f = jGUID], simp add: job_key_def, subst filter_keys [where f = sGUID])
      (simp_all add: entry_key_def)
  then show ?thesis
    unfolding matches_def stopJob_running [OF assms(2)] assms(3) by (simp add: conj_commute)
qed

subsection \<open>The program as a machine\<close>

datatype program_request = ToSchedule schedule_request | ToState state_request

definition program_apply :: "hyper_env \<Rightarrow> program_request \<Rightarrow> hypervisor \<Rightarrow> hypervisor" where
  "program_apply v r h = (case r of
     ToSchedule q \<Rightarrow> snd (schedule_route v q h)
   | ToState q \<Rightarrow> h\<lparr>hState := snd (state_route (vConfig v) q (hState h))\<rparr>)"

text \<open>The GUID of a new entry is not taken: no second request for the operation in the same millisecond.\<close>

definition fresh_guid :: "hyper_env \<Rightarrow> program_request \<Rightarrow> hypervisor \<Rightarrow> bool" where
  "fresh_guid v r h = (case r of
     ToSchedule (ScheduleOperation op ty params) \<Rightarrow>
       schedule_guid op (gNow (vConfig v)) \<notin> sGUID ` set (hSchedule h)
   | _ \<Rightarrow> True)"

definition program_init :: "hypervisor \<Rightarrow> bool" where
  "program_init h \<longleftrightarrow> (\<exists>st. h = new_process st)"

definition program_step :: "(string \<Rightarrow> bool) \<Rightarrow> hypervisor \<Rightarrow> hyper_env \<times> program_request \<Rightarrow> hypervisor \<Rightarrow> bool" where
  "program_step acc h x h' \<longleftrightarrow>
     vAccepts (fst x) = acc \<and> fresh_guid (fst x) (snd x) h \<and> h' = program_apply (fst x) (snd x) h"

definition guids_ok :: "schedule_entry list \<Rightarrow> bool" where
  "guids_ok es \<longleftrightarrow> distinct (map sGUID es) \<and> (\<forall>e \<in> set es. sGUID e \<noteq> [])"

definition schedule_ok :: "(string \<Rightarrow> bool) \<Rightarrow> schedule_entry list \<Rightarrow> cron_service \<Rightarrow> bool" where
  "schedule_ok acc es c \<longleftrightarrow> guids_ok es \<and> cron_ok c \<and> matches acc es c"

lemma persist_frame [simp]:
  "hSchedule (persistSchedule v h) = hSchedule h" "hCron (persistSchedule v h) = hCron h"
  by (simp_all add: persistSchedule_def)

lemma started_ok:
  assumes "schedule_ok acc es c" "e \<in> set es" "\<not> sActive e" "sGUID e' = sGUID e" "sActive e'"
    and "guids_ok es'" "mset (filter (live_entry acc) es') = mset (filter (live_entry acc) es) + mset (filter (live_entry acc) [e'])"
  shows "schedule_ok acc es' (cron_start acc now e' c)"
proof -
  have free: "sGUID e' \<notin> jGUID ` set (cRunning c)"
    using assms(1-4) not_running [of acc es c e] by (simp add: schedule_ok_def guids_ok_def live_entry_def)
  have named: "sGUID e' \<noteq> []" using assms(1,2,4) by (auto simp: schedule_ok_def guids_ok_def)
  note start = cron_start_ok [OF _ named free assms(5), of acc now]
  have "image_mset entry_key (mset (filter (live_entry acc) es')) =
      image_mset entry_key (mset (filter (live_entry acc) es)) + image_mset entry_key (mset (filter (live_entry acc) [e']))"
    unfolding assms(7) by (rule image_mset_union)
  then show ?thesis
    using assms(1,6) start by (simp add: schedule_ok_def matches_def)
qed

lemma start_entries_ok:
  assumes "schedule_ok acc (pre @ es) c" "vAccepts v = acc" "start_entries v es c = (es', c')"
  shows "schedule_ok acc (pre @ es') c'"
  using assms
proof (induction es arbitrary: pre c es')
  case (Cons e es)
  show ?case
  proof (cases "sActive e")
    case True
    then obtain es1 where "start_entries v es c = (es1, c')" "es' = e # es1"
      using Cons.prems(3) by (cases "start_entries v es c") auto
    then show ?thesis using Cons.IH [of "pre @ [e]" c es1] Cons.prems(1,2) by simp
  next
    case False
    let ?e = "e\<lparr>sActive := True\<rparr>" and ?c = "cron_start acc (gNow (vConfig v)) (e\<lparr>sActive := True\<rparr>) c"
    obtain es1 where es1: "start_entries v es ?c = (es1, c')" "es' = ?e # es1"
      using Cons.prems(2,3) False by (cases "start_entries v es ?c") (auto simp: Let_def)
    have "schedule_ok acc (pre @ ?e # es) ?c"
    proof (rule started_ok [OF Cons.prems(1), of e])
      show "guids_ok (pre @ ?e # es)" using Cons.prems(1) by (auto simp: schedule_ok_def guids_ok_def)
      show "mset (filter (live_entry acc) (pre @ ?e # es)) =
          mset (filter (live_entry acc) (pre @ e # es)) + mset (filter (live_entry acc) [?e])"
        using False by (simp add: live_entry_def)
    qed (use False in simp_all)
    then show ?thesis using Cons.IH [of "pre @ [?e]" ?c es1] Cons.prems(2) es1 by simp
  qed
qed simp

lemma stopped_ok:
  assumes "schedule_ok acc es c" "guids_ok es'"
    and "filter (live_entry acc) es' = filter (\<lambda>e. live_entry acc e \<and> sGUID e \<noteq> g) es"
  shows "schedule_ok acc es' (stopJob g c)"
  using assms stopped_matches [of acc es c es' g] stopJob_ok [of c g] by (simp add: schedule_ok_def)

lemma inactive_kept:
  assumes "guids_ok es" "find (\<lambda>e. sGUID e = g) es = Some e" "\<not> sActive e"
  shows "filter (\<lambda>e. live_entry acc e \<and> sGUID e \<noteq> g) es = filter (live_entry acc) es"
proof (rule filter_cong [OF refl])
  fix x assume x: "x \<in> set es"
  have "x = e" if "sGUID x = g"
    using assms(1) x that find_entry [OF assms(2)] guid_unique [of sGUID es x e] by (simp add: guids_ok_def)
  then show "live_entry acc x \<and> sGUID x \<noteq> g \<longleftrightarrow> live_entry acc x"
    using assms(3) by (auto simp: live_entry_def)
qed

lemma guids_replace:
  assumes "guids_ok es" "sGUID e' = g"
  shows "guids_ok (replace_entry g (\<lambda>x. [e']) es)"
proof -
  have iff: "guids_ok xs \<longleftrightarrow> distinct (map sGUID xs) \<and> [] \<notin> set (map sGUID xs)" for xs
    by (auto simp: guids_ok_def) (metis image_eqI)
  show ?thesis using assms(1) unfolding iff replace_entry_guids [OF assms(2)] .
qed

lemma guids_remove: "guids_ok es \<Longrightarrow> guids_ok (replace_entry g (\<lambda>x. []) es)"
  using remove_entry_guids [of es g] by (auto simp: guids_ok_def)

lemma schedule_ok_initial: "schedule_ok acc [] no_cron"
  by (simp add: schedule_ok_def guids_ok_def cron_ok_def matches_def no_cron_def)

lemma schedule_ok_new:
  assumes "schedule_ok acc es c" "sGUID e \<notin> sGUID ` set es" "sGUID e \<noteq> []" "\<not> sActive e"
  shows "schedule_ok acc (es @ [e]) c"
  using assms by (auto simp: schedule_ok_def guids_ok_def matches_def live_entry_def)

lemma schedule_ok_stop:
  assumes "schedule_ok acc es c"
  shows "schedule_ok acc (map (\<lambda>e. e\<lparr>sActive := False\<rparr>) es) (cron_stop c)"
proof -
  have "filter (live_entry acc) (map (\<lambda>e. e\<lparr>sActive := False\<rparr>) es) = []"
    by (induction es) (auto simp: live_entry_def)
  then show ?thesis
    using assms cron_stop_ok [of c] by (auto simp: schedule_ok_def guids_ok_def matches_def comp_def)
qed

text \<open>Every request keeps the invariant.\<close>

lemma route_ok:
  assumes ok: "schedule_ok acc (hSchedule h) (hCron h)" and acc: "vAccepts v = acc"
    and new: "fresh_guid v (ToSchedule r) h"
  shows "schedule_ok acc (hSchedule (snd (schedule_route v r h))) (hCron (snd (schedule_route v r h)))"
proof (cases r)
  case (ScheduleOperation op ty params)
  have "sGUID (newEntry (vConfig v) op ty params) = schedule_guid op (gNow (vConfig v))"
    "\<not> sActive (newEntry (vConfig v) op ty params)" by (simp_all add: newEntry_def)
  moreover have "schedule_guid op (gNow (vConfig v)) \<noteq> []" by (simp add: schedule_guid_def)
  ultimately show ?thesis
    using ScheduleOperation new ok
    by (simp add: schedule_route_def scheduleOperation_def fresh_guid_def Let_def schedule_ok_new)
next
  case (DeleteSchedule g)
  show ?thesis
  proof (cases "find (\<lambda>e. sGUID e = g) (hSchedule h)")
    case None
    then show ?thesis using ok DeleteSchedule by (simp add: schedule_route_def removeScheduleEntry_def)
  next
    case (Some e)
    have guids: "guids_ok (replace_entry g (\<lambda>x. []) (hSchedule h))" "distinct (map sGUID (hSchedule h))"
      using ok guids_remove [of "hSchedule h" g] by (simp_all add: schedule_ok_def) (simp add: guids_ok_def)
    note gone = replace_entry_drops [OF guids(2), of "live_entry acc" "\<lambda>x. []" g]
    show ?thesis
    proof (cases "sActive e")
      case True
      then show ?thesis
        using stopped_ok [OF ok guids(1) gone] Some DeleteSchedule
        by (simp add: schedule_route_def removeScheduleEntry_def)
    next
      case False
      then show ?thesis
        using ok guids(1) gone inactive_kept [OF _ Some False, of acc] Some DeleteSchedule
        by (simp add: schedule_route_def removeScheduleEntry_def schedule_ok_def matches_def)
    qed
  qed
next
  case StartSchedule
  obtain es c where es: "start_entries v (hSchedule h) (hCron h) = (es, c)" by fastforce
  then show ?thesis
    using start_entries_ok [of acc "[]" "hSchedule h" "hCron h" v es c] ok acc StartSchedule
    by (simp add: schedule_route_def startSchedule_def Let_def)
next
  case (StartEntry g)
  show ?thesis
  proof (cases "find (\<lambda>e. sGUID e = g) (hSchedule h)")
    case None
    then show ?thesis using ok StartEntry by (simp add: schedule_route_def startScheduleEntry_def)
  next
    case (Some e)
    note e = find_entry [OF Some]
    show ?thesis
    proof (cases "sActive e")
      case True
      then show ?thesis using ok Some StartEntry by (simp add: schedule_route_def startScheduleEntry_def)
    next
      case False
      let ?e = "e\<lparr>sActive := True\<rparr>"
      have "schedule_ok acc (replace_entry g (\<lambda>x. [?e]) (hSchedule h)) (cron_start acc (gNow (vConfig v)) ?e (hCron h))"
      proof (rule started_ok [OF ok])
        show "guids_ok (replace_entry g (\<lambda>x. [?e]) (hSchedule h))"
          using ok e by (intro guids_replace) (simp_all add: schedule_ok_def)
        show "mset (filter (live_entry acc) (replace_entry g (\<lambda>x. [?e]) (hSchedule h))) =
            mset (filter (live_entry acc) (hSchedule h)) + mset (filter (live_entry acc) [?e])"
          by (rule replace_entry_adds [OF Some]) (simp add: live_entry_def False)
      qed (use e False in auto)
      then show ?thesis
        using Some False StartEntry acc by (simp add: schedule_route_def startScheduleEntry_def Let_def)
    qed
  qed
next
  case (StopEntry g)
  show ?thesis
  proof (cases "find (\<lambda>e. sGUID e = g) (hSchedule h)")
    case None
    then show ?thesis using ok StopEntry by (simp add: schedule_route_def stopScheduleEntry_def)
  next
    case (Some e)
    let ?e = "e\<lparr>sActive := False\<rparr>"
    have "guids_ok (replace_entry g (\<lambda>x. [?e]) (hSchedule h))"
      using ok find_entry [OF Some] by (intro guids_replace) (simp_all add: schedule_ok_def)
    moreover have "filter (live_entry acc) (replace_entry g (\<lambda>x. [?e]) (hSchedule h)) =
        filter (\<lambda>e. live_entry acc e \<and> sGUID e \<noteq> g) (hSchedule h)"
      using ok by (intro replace_entry_drops) (simp_all add: schedule_ok_def guids_ok_def live_entry_def)
    ultimately show ?thesis
      using stopped_ok [OF ok] ok Some StopEntry
      by (cases "sActive e") (simp_all add: schedule_route_def stopScheduleEntry_def Let_def)
  qed
qed (use ok schedule_ok_stop [OF ok] in \<open>simp_all add: schedule_route_def stopSchedule_def\<close>)

interpretation program: invariant_machine program_init "program_step acc"
  "\<lambda>h. schedule_ok acc (hSchedule h) (hCron h)" for acc
proof
  show "schedule_ok acc (hSchedule h) (hCron h)" if "program_init h" for h
    using that schedule_ok_initial by (auto simp: program_init_def new_process_def)
  show "schedule_ok acc (hSchedule h') (hCron h')"
    if "schedule_ok acc (hSchedule h) (hCron h)" "program_step acc h x h'" for h x h'
    using that route_ok [of acc h "fst x"]
    by (cases "snd x") (auto simp: program_step_def program_apply_def)
qed


definition demo_config :: config_env where
  "demo_config = \<lparr>gNow = 7, gStamp = show_int, gGatherPhases = [(''Default Program Configuration'', ''default''),
     (''Local'', ''.ultravisor.json'')], gFablePhases = None, gFallbackPath = ''.ultravisor.json'',
     gWritable = (\<lambda>p. True), gDenied = ''EACCES''\<rparr>"

definition demo_hyper :: hyper_env where
  "demo_hyper = \<lparr>vConfig = demo_config, vAccepts = (\<lambda>s. s \<noteq> ''never''), vPersistence = True\<rparr>"

definition silent_hyper :: hyper_env where
  "silent_hyper = demo_hyper\<lparr>vPersistence := False\<rparr>"

definition demo_program :: hypervisor where
  "demo_program = foldl (\<lambda>h r. program_apply silent_hyper r h) (new_process (load_state [] [] []))
     [ToSchedule (ScheduleOperation ''a'' ''cron'' ''*/5 * * * *''), ToSchedule (ScheduleOperation ''b'' ''daily'' []),
      ToSchedule (ScheduleOperation ''c'' ''cron'' ''never''), ToSchedule StartSchedule,
      ToSchedule (StopEntry ''sched-op-a-7'')]"

lemma program_reach_apply:
  assumes "reach program_init (program_step acc) h" "vAccepts v = acc" "fresh_guid v r h"
  shows "reach program_init (program_step acc) (program_apply v r h)"
  by (rule reach_step [OF assms(1), where e = "(v, r)"]) (simp add: program_step_def assms(2,3))

lemma demo_program_reach: "reach program_init (program_step (vAccepts silent_hyper)) demo_program"
proof -
  have init: "reach program_init (program_step (vAccepts silent_hyper)) (new_process (load_state [] [] []))"
    by (rule reach_init) (auto simp: program_init_def)
  show ?thesis
    unfolding demo_program_def foldl.simps
    by (intro program_reach_apply init refl; code_simp)
qed


text \<open>
  Without the guard: two entries of one operation from the same millisecond start two jobs under one GUID;
  when both entries are removed, one job is left that no request can stop.
\<close>

lemma twin_entries_leave_a_job:
  "let h = foldl (\<lambda>h r. program_apply silent_hyper r h) (new_process (load_state [] [] []))
     [ToSchedule (ScheduleOperation ''a'' [] []), ToSchedule (ScheduleOperation ''a'' [] []), ToSchedule StartSchedule,
      ToSchedule (DeleteSchedule ''sched-op-a-7''), ToSchedule (DeleteSchedule ''sched-op-a-7''), ToSchedule StopSchedule]
   in hSchedule h = [] \<and> map jGUID (cRunning (hCron h)) = [''sched-op-a-7'']"
  by code_simp

text \<open>
  An entry that was saved while it was active is active when it is loaded, so no start finds it: it runs
  only after it has been stopped.
\<close>

lemma json_entry_json: "json_entry (entry_json e) = e"
  by (simp add: json_entry_def entry_json_def fields_of_def text_field_def jget_def Let_def)

lemma start_active_entries: "\<forall>e \<in> set es. sActive e \<Longrightarrow> start_entries v es c = (es, c)"
  by (induction es) auto

lemma loaded_active_entries_idle:
  assumes "load_file (vConfig v) (ConfigDisk st) = map entry_json es" "\<forall>e \<in> set es. sActive e" "e \<in> set es"
  shows "cRunning (hCron (startSchedule v (loadSchedule v (new_process st)))) = []"
    and "vPersistence v \<Longrightarrow> distinct (map sGUID es) \<Longrightarrow>
      snd (startScheduleEntry v (sGUID e) (loadSchedule v (new_process st))) = loadSchedule v (new_process st)"
proof -
  obtain x xs where es: "es = x # xs" using assms(3) by (cases es) auto
  have back_again: "map json_entry (map entry_json es) = es" by (simp add: json_entry_json map_idI)
  have loaded: "vPersistence v \<Longrightarrow> loadSchedule v (new_process st) = (new_process st)\<lparr>hSchedule := es\<rparr>"
    using assms(1) back_again unfolding es by (simp add: loadSchedule_def new_process_def)
  have "hCron (startSchedule v (loadSchedule v (new_process st))) = no_cron"
  proof (cases "vPersistence v")
    case True
    show ?thesis
      unfolding loaded [OF True] by (simp add: startSchedule_def new_process_def start_active_entries [OF assms(2)])
  next
    case False
    then show ?thesis by (simp add: loadSchedule_def startSchedule_def new_process_def)
  qed
  then show "cRunning (hCron (startSchedule v (loadSchedule v (new_process st)))) = []" by (simp add: no_cron_def)
  assume v: "vPersistence v" and guids: "distinct (map sGUID es)"
  obtain e' where e': "find (\<lambda>x. sGUID x = sGUID e) es = Some e'"
    using assms(3) find_None_iff [of "\<lambda>x. sGUID x = sGUID e" es]
    by (cases "find (\<lambda>x. sGUID x = sGUID e) es") auto
  then have "sActive e'" using find_entry [OF e'] assms(2) by blast
  with e' show "snd (startScheduleEntry v (sGUID e) (loadSchedule v (new_process st))) = loadSchedule v (new_process st)"
    unfolding loaded [OF v] by (simp add: startScheduleEntry_def)
qed

end
