(* ===== verification/ProgramProperties.thy ===== *)
theory ProgramProperties
  imports HypervisorProperties JsonRoundTrip
begin

section \<open>What the configuration file keeps\<close>

subsection \<open>Written and read\<close>

lemma reparsed_plain: "json_plain v \<Longrightarrow> reparsed stamp v = v"
  using parse_stringify [of v stamp] plain_stringify [of v stamp] by (cases "stringify stamp v") (simp_all add: reparsed_def)

lemma plain_oset:
  assumes "json_plain (JObj kvs)" "json_plain v"
  shows "json_plain (JObj (oset k v kvs))"
proof -
  have "owf kvs" "\<And>kv. kv \<in> set kvs \<Longrightarrow> json_plain (snd kv)"
    using assms(1) by (auto simp: list_all_iff)
  then show ?thesis
    using assms(2) by (auto simp: list_all_iff set_oset distinct_update)
qed

lemma plain_entry: "json_plain (entry_json e)"
  by (simp add: entry_json_def)

lemma plain_schedule: "json_plain (schedule_json es)"
  by (simp add: schedule_json_def list_all_iff plain_entry)

lemma persisted_schedule: "jget (persisted h) ''Schedule'' = jget (ConfigOutcome h) ''Schedule''"
  by (simp add: persisted_def jget_def obj_simps)

lemma persist_outcome:
  "ConfigOutcome (snd (persistState g h)) = (if state_path g = [] then ConfigOutcome h else persisted h)"
  by (simp add: persistState_def Let_def split: option.split)

lemma persist_state_frame [simp]:
  "jget (ConfigOutcome (snd (persistState g h))) ''Schedule'' = jget (ConfigOutcome h) ''Schedule''"
  by (simp add: persistState_def persisted_schedule Let_def split: option.split)

subsection \<open>The schedule in the file\<close>

lemma state_route_outcome:
  "jget (ConfigOutcome (snd (state_route g r h))) ''Schedule'' = jget (ConfigOutcome h) ''Schedule''"
proof -
  have store: "jget (ConfigOutcome (snd (store_template g k kvs h))) ''Schedule'' = jget (ConfigOutcome h) ''Schedule''"
    "jget (ConfigOutcome (snd (store_operation g k kvs h))) ''Schedule'' = jget (ConfigOutcome h) ''Schedule''" for k kvs h
    by (simp_all add: store_template_def store_operation_def Let_def)
  have template: "jget (ConfigOutcome (snd (updateNodeTemplate g v h))) ''Schedule'' = jget (ConfigOutcome h) ''Schedule''" for v
    by (cases v) (auto simp: updateNodeTemplate_def generateTemplateHash_def Let_def store split: option.split json.split)
  have operation: "jget (ConfigOutcome (snd (updateOperation g v h))) ''Schedule'' = jget (ConfigOutcome h) ''Schedule''" for v
    by (cases v) (auto simp: updateOperation_def generateOperationHash_def Let_def store split: option.split)
  have removal: "jget (ConfigOutcome (snd (deleteNodeTemplate g k h))) ''Schedule'' = jget (ConfigOutcome h) ''Schedule''"
    "jget (ConfigOutcome (snd (deleteOperation g k h))) ''Schedule'' = jget (ConfigOutcome h) ''Schedule''" for k
    by (simp_all add: deleteNodeTemplate_def deleteOperation_def)
  show ?thesis by (cases r) (simp_all add: state_route_def template operation removal)
qed

lemma schedule_route_outcome: "ConfigOutcome (hState (snd (schedule_route v r h))) = ConfigOutcome (hState h)"
proof -
  have persist: "ConfigOutcome (hState (persistSchedule v h)) = ConfigOutcome (hState h)" for h
    by (simp add: persistSchedule_def)
  show ?thesis
    by (cases r)
      (simp_all add: schedule_route_def scheduleOperation_def removeScheduleEntry_def startSchedule_def
        startScheduleEntry_def stopScheduleEntry_def stopSchedule_def persist Let_def split_beta split: option.split)
qed

definition program_run :: "(hyper_env \<times> program_request) list \<Rightarrow> hypervisor \<Rightarrow> hypervisor" where
  "program_run rs h = foldl (\<lambda>h x. program_apply (fst x) (snd x) h) h rs"

lemma run_outcome_schedule:
  "jget (ConfigOutcome (hState (program_run rs h))) ''Schedule'' = jget (ConfigOutcome (hState h)) ''Schedule''"
proof -
  have "jget (ConfigOutcome (hState (program_apply v r h))) ''Schedule'' = jget (ConfigOutcome (hState h)) ''Schedule''" for v r h
    by (cases r) (simp_all add: program_apply_def state_route_outcome schedule_route_outcome)
  then show ?thesis unfolding program_run_def by (induction rs arbitrary: h) simp_all
qed

text \<open>The entries under the key \<open>Schedule\<close> of a configuration.\<close>

definition schedule_of :: "json obj \<Rightarrow> json list" where
  "schedule_of kvs = (case jget kvs ''Schedule'' of JArr es \<Rightarrow> es | _ \<Rightarrow> [])"

lemma load_file_config:
  "schedule_path g \<noteq> [] \<Longrightarrow> oget d (schedule_path g) = Some (Config (JObj kvs)) \<Longrightarrow> load_file g d = schedule_of kvs"
  by (simp add: load_file_def schedule_of_def)

lemma load_after_persist:
  assumes "schedule_path g = state_path g" "state_path g \<noteq> []" "gWritable g (state_path g)"
    and "json_plain (JObj (persisted h))"
  shows "load_file g (ConfigDisk (snd (persistState g h))) = schedule_of (ConfigOutcome h)"
proof -
  have "oget (ConfigDisk (snd (persistState g h))) (schedule_path g) = Some (Config (JObj (persisted h)))"
    using assms by (simp add: persistState_def write_config_def reparsed_plain obj_simps Let_def del: json_plain.simps)
  then show ?thesis
    using assms(1,2) load_file_config [of g _ "persisted h"] by (simp add: schedule_of_def persisted_schedule)
qed

lemma load_after_save:
  assumes "schedule_path g \<noteq> []" "gWritable g (schedule_path g)"
    and "oget d (schedule_path g) = Some (Config (JObj kvs))" "json_plain (JObj kvs)"
  shows "load_file g (snd (save_file g es d)) = map entry_json es"
proof -
  have "json_plain (JObj (oset ''Schedule'' (schedule_json es) kvs))" by (rule plain_oset [OF assms(4) plain_schedule])
  then have "oget (snd (save_file g es d)) (schedule_path g) = Some (Config (JObj (oset ''Schedule'' (schedule_json es) kvs)))"
    using assms(1-3) by (simp add: save_file_def write_config_def reparsed_plain obj_simps fields_of_def del: json_plain.simps)
  then show ?thesis
    using load_file_config [OF assms(1)] by (simp add: schedule_of_def schedule_json_def)
qed


definition demo_file :: "json obj" where
  "demo_file = [(''Schedule'', JArr [entry_json (newEntry demo_config ''old'' ''cron'' [])])]"

definition demo_start :: program_state where
  "demo_start = load_state demo_file demo_file [(''.ultravisor.json'', Config (JObj demo_file))]"

definition demo_session :: "(hyper_env \<times> program_request) list" where
  "demo_session = [(demo_hyper, ToSchedule (ScheduleOperation ''b'' [] []))]"


subsection \<open>Generated hashes\<close>

definition dash :: char where "dash = CHR ''-''"

lemma read_padded: "0 \<le> n \<Longrightarrow> read_digits 0 (pad_start w (show_int n)) = n"
proof -
  assume n: "0 \<le> n"
  have "read_digits 0 (replicate k (CHR ''0'') @ s) = read_digits 0 s" for k s
    by (induction k) (simp_all add: digit_val_def)
  with n show ?thesis by (simp add: pad_start_def show_int_def read_show_digits)
qed

lemma pad_inj: "0 \<le> m \<Longrightarrow> 0 \<le> n \<Longrightarrow> pad_start w (show_int m) = pad_start w (show_int n) \<Longrightarrow> m = n"
  by (metis read_padded)

lemma operation_hash_inj: "0 \<le> m \<Longrightarrow> 0 \<le> n \<Longrightarrow> operation_hash m = operation_hash n \<Longrightarrow> m = n"
  unfolding operation_hash_def append_same_eq by (rule pad_inj [of m n 4]) simp_all

lemma key_char_code: "e \<in> set (key_char c) \<Longrightarrow> 48 \<le> (of_char e :: int)"
proof -
  assume e: "e \<in> set (key_char c)"
  let ?n = "of_char c :: int"
  consider "97 \<le> ?n" "?n \<le> 122" | "\<not> (97 \<le> ?n \<and> ?n \<le> 122)" "48 \<le> ?n" "key_char c = [c]"
    | "key_char c = ''SS'' \<or> key_char c = []"
    by (cases "97 \<le> ?n \<and> ?n \<le> 122"; cases "65 \<le> ?n \<and> ?n \<le> 90 \<or> 48 \<le> ?n \<and> ?n \<le> 57")
      (auto simp: key_char_def Let_def)
  then show ?thesis
  proof cases
    case 1
    then have "e = char_of (?n - 32)" using e by (simp add: key_char_def Let_def)
    then have "(of_char e :: int) = (?n - 32) mod 256" by (simp add: of_char_of)
    with 1 show ?thesis by simp
  next
    case 2
    with e show ?thesis by simp
  next
    case 3
    with e have "e = CHR ''S''" by auto
    then show ?thesis by simp
  qed
qed

lemma key_no_dash: "dash \<notin> set (type_key t)"
proof
  assume "dash \<in> set (type_key t)"
  then obtain c where "dash \<in> set (key_char c)" unfolding type_key_def by auto
  from key_char_code [OF this] show False by (simp add: dash_def)
qed

lemma template_hash_inj:
  assumes "dash \<notin> set k" "dash \<notin> set k'" "0 \<le> m" "0 \<le> n" "template_hash k m = template_hash k' n"
  shows "k = k' \<and> m = n"
proof -
  have eq: "k @ dash # pad_start 3 (show_int m) = k' @ dash # pad_start 3 (show_int n)"
    using assms(5) by (simp add: template_hash_def dash_def)
  have upto: "takeWhile (\<lambda>c. c \<noteq> dash) (xs @ dash # ys) = xs" if "dash \<notin> set xs" for xs ys
    using that by (induction xs) auto
  have "k = k'"
    using arg_cong [OF eq, of "takeWhile (\<lambda>c. c \<noteq> dash)"] unfolding upto [OF assms(1)] upto [OF assms(2)] .
  moreover from this eq have "pad_start 3 (show_int m) = pad_start 3 (show_int n)" by simp
  then have "m = n" by (rule pad_inj [OF assms(3,4)])
  ultimately show ?thesis ..
qed

text \<open>What generates a hash: a template of a type (\<open>Some\<close>) or an operation.\<close>

definition next_hash :: "string option \<Rightarrow> program_state \<Rightarrow> string \<times> program_state" where
  "next_hash x h = (case x of Some t \<Rightarrow> generateTemplateHash t h | None \<Rightarrow> generateOperationHash h)"

fun issue_hashes :: "string option list \<Rightarrow> program_state \<Rightarrow> string list \<times> program_state" where
  "issue_hashes [] h = ([], h)"
| "issue_hashes (x # xs) h = (let (k, h1) = next_hash x h; (ks, h2) = issue_hashes xs h1 in (k # ks, h2))"

definition counter_of :: "program_state \<Rightarrow> string \<Rightarrow> int" where
  "counter_of h k = (case oget (TemplateCounters h) k of None \<Rightarrow> 0 | Some n \<Rightarrow> n)"

definition counters_ok :: "program_state \<Rightarrow> bool" where
  "counters_ok h \<longleftrightarrow> 0 \<le> OperationCounter h \<and> (\<forall>k. 0 \<le> counter_of h k)"

text \<open>The hashes that the counters say were generated.\<close>

definition was_issued :: "program_state \<Rightarrow> string \<Rightarrow> bool" where
  "was_issued h s \<longleftrightarrow> (\<exists>n. 0 < n \<and> n \<le> OperationCounter h \<and> s = operation_hash n) \<or>
     (\<exists>k n. dash \<notin> set k \<and> 0 < n \<and> n \<le> counter_of h k \<and> s = template_hash k n)"

lemma was_issued_mono:
  assumes "was_issued h r" "OperationCounter h \<le> OperationCounter h'" "\<And>k. counter_of h k \<le> counter_of h' k"
  shows "was_issued h' r"
  using assms(1) unfolding was_issued_def
proof (elim disjE exE conjE)
  fix n assume "0 < n" "n \<le> OperationCounter h" "r = operation_hash n"
  with assms(2) have "0 < n \<and> n \<le> OperationCounter h' \<and> r = operation_hash n" by simp
  then show "(\<exists>n>0. n \<le> OperationCounter h' \<and> r = operation_hash n) \<or>
      (\<exists>k n. dash \<notin> set k \<and> 0 < n \<and> n \<le> counter_of h' k \<and> r = template_hash k n)" by blast
next
  fix k n assume "dash \<notin> set k" "0 < n" "n \<le> counter_of h k" "r = template_hash k n"
  with assms(3) [of k] have "dash \<notin> set k \<and> 0 < n \<and> n \<le> counter_of h' k \<and> r = template_hash k n" by simp
  then show "(\<exists>n>0. n \<le> OperationCounter h' \<and> r = operation_hash n) \<or>
      (\<exists>k n. dash \<notin> set k \<and> 0 < n \<and> n \<le> counter_of h' k \<and> r = template_hash k n)" by blast
qed

lemma kinds_differ: "operation_hash n \<noteq> template_hash k m"
  by (simp add: operation_hash_def template_hash_def)

lemma next_hash_ok:
  assumes "counters_ok h" "next_hash x h = (s, h')"
  shows "counters_ok h'" "\<not> was_issued h s" "was_issued h' s" "was_issued h r \<Longrightarrow> was_issued h' r"
proof -
  have facts: "counters_ok h' \<and> \<not> was_issued h s \<and> was_issued h' s \<and> (was_issued h r \<longrightarrow> was_issued h' r)" for r
  proof (cases x)
    case None
    then have s: "s = operation_hash (OperationCounter h + 1)" "h' = h\<lparr>OperationCounter := OperationCounter h + 1\<rparr>"
      using assms(2) by (auto simp: next_hash_def generateOperationHash_def Let_def)
    have same: "counter_of h' = counter_of h" using s(2) by (simp add: counter_of_def fun_eq_iff)
    have "operation_hash (OperationCounter h + 1) \<noteq> operation_hash n" if "0 < n" "n \<le> OperationCounter h" for n
      using operation_hash_inj [of "OperationCounter h + 1" n] assms(1) that by (auto simp: counters_ok_def)
    then have "\<not> was_issued h s" unfolding was_issued_def s(1) using kinds_differ by blast
    moreover have "was_issued h' s"
      using assms(1) unfolding was_issued_def s(1) by (intro disjI1 exI [of _ "OperationCounter h + 1"]) (simp add: s(2) counters_ok_def)
    moreover have "was_issued h r \<longrightarrow> was_issued h' r"
      using was_issued_mono [of h r h'] by (simp add: same) (simp add: s(2))
    ultimately show ?thesis using assms(1) same by (simp add: counters_ok_def s(2))
  next
    case (Some t)
    let ?k = "type_key t"
    have s: "s = template_hash ?k (counter_of h ?k + 1)"
      "h' = h\<lparr>TemplateCounters := oset ?k (counter_of h ?k + 1) (TemplateCounters h)\<rparr>"
      using assms(2) Some by (auto simp: next_hash_def generateTemplateHash_def counter_of_def Let_def)
    have count: "counter_of h' k = (if k = ?k then counter_of h ?k + 1 else counter_of h k)" for k
      unfolding s(2) by (simp add: counter_of_def obj_simps)
    have "template_hash ?k (counter_of h ?k + 1) \<noteq> template_hash k n"
      if "dash \<notin> set k" "0 < n" "n \<le> counter_of h k" for k n
      using template_hash_inj [OF key_no_dash [of t] that(1), of "counter_of h ?k + 1" n] assms(1) that(2,3)
      by (auto simp: counters_ok_def)
    then have "\<not> was_issued h s" unfolding was_issued_def s(1) using kinds_differ by metis
    moreover have "was_issued h' s"
      using assms(1) key_no_dash [of t] unfolding was_issued_def s(1)
      by (intro disjI2 exI [of _ ?k] exI [of _ "counter_of h ?k + 1"]) (simp add: count counters_ok_def add_nonneg_pos)
    moreover have "was_issued h r \<longrightarrow> was_issued h' r"
      using was_issued_mono [of h r h'] by (simp add: count) (simp add: s(2))
    ultimately show ?thesis using assms(1) by (simp add: counters_ok_def s(2)) (simp add: count flip: s(2))
  qed
  then show "counters_ok h'" "\<not> was_issued h s" "was_issued h' s" "was_issued h r \<Longrightarrow> was_issued h' r" by blast+
qed

lemma issue_hashes_ok:
  assumes "counters_ok h" "issue_hashes xs h = (ks, h')"
  shows "counters_ok h' \<and> distinct ks \<and> (\<forall>s \<in> set ks. \<not> was_issued h s \<and> was_issued h' s) \<and>
    (\<forall>s. was_issued h s \<longrightarrow> was_issued h' s)"
  using assms
proof (induction xs arbitrary: h ks)
  case (Cons x xs)
  obtain s h1 where one: "next_hash x h = (s, h1)" by fastforce
  obtain ks1 where rest: "issue_hashes xs h1 = (ks1, h')" "ks = s # ks1"
    using Cons.prems(2) one by (auto simp: Let_def split: prod.splits)
  note ok = next_hash_ok [OF Cons.prems(1) one]
  from Cons.IH [OF ok(1) rest(1)] ok rest(2) show ?case by auto
qed simp

lemma read_counters_json: "read_counters (counters_json cs) = cs"
proof -
  have "concat (map (\<lambda>x. case x of (k, JNum q) \<Rightarrow> [(k, \<lfloor>q\<rfloor>)] | (k, _) \<Rightarrow> []) (map (\<lambda>(k, n). (k, JInt n)) cs)) = cs"
    by (induction cs) (auto simp: JInt_def)
  then show ?thesis by (simp add: read_counters_def counters_json_def)
qed

lemma persisted_fields:
  "jget (persisted h) ''NodeTemplates'' = JObj (NodeTemplates h)" "jget (persisted h) ''Operations'' = JObj (Operations h)"
  "jget (persisted h) ''GlobalState'' = JObj (ProgramGlobalState h)" "jget (persisted h) ''ActionCatalog'' = StoredCatalog h"
  "jget (persisted h) ''TemplateCounters'' = counters_json (TemplateCounters h)"
  "jget (persisted h) ''OperationCounter'' = JInt (OperationCounter h)"
  by (simp_all add: persisted_def jget_def obj_simps)


definition demo_used :: program_state where
  "demo_used = snd (issue_hashes [None, Some ''read-file''] demo_start)"


text \<open>
  A client may choose the hash that would be generated next; the operation that then asks for a new hash is
  merged into the one of the client, fields and graph.
\<close>

lemma taken_hash_is_merged:
  assumes "given_hash kvs = None" "truthy (jget kvs ''Graph'')"
    and "oget (Operations h) (operation_hash (OperationCounter h + 1)) = Some (JObj old)"
  shows "fst (updateOperation g (JObj kvs) h) =
    Stored (JObj (seed (oset ''Hash'' (JStr (operation_hash (OperationCounter h + 1))) kvs) old))"
  using assms by (simp add: updateOperation_def generateOperationHash_def store_operation_def Let_def)

text \<open>An operation that is known keeps its time of the last update, unless the request brings one.\<close>

lemma known_operation_keeps_UpdatedAt:
  assumes "given_hash kvs = Some k" "oget (Operations h) k = Some (JObj old)" "''UpdatedAt'' \<notin> set (okeys kvs)"
  shows "\<exists>new. fst (updateOperation g (JObj kvs) h) = Stored (JObj new) \<and> jget new ''UpdatedAt'' = jget old ''UpdatedAt''"
proof -
  have "''UpdatedAt'' \<notin> set (okeys (oset ''Graph'' v kvs))" for v using assms(3) by (simp add: keys_oset)
  then show ?thesis
    using assms by (simp add: updateOperation_def store_operation_def jget_seed_other Let_def)
qed

end
