(* ===== verification/BeaconTasks.thy ===== *)
theory BeaconTasks
  imports DataTasks BeaconRegistry
begin

section \<open>Tasks that wait: for a beacon or for a person\<close>

text \<open>
  \<open>tasks/extension/Ultravisor-TaskConfigs-Extension.cjs\<close>, \<open>tasks/Ultravisor-TaskHelper-BeaconDispatch.cjs\<close>
  and \<open>tasks/content-system/Ultravisor-TaskConfigs-ContentSystem.cjs\<close> put a work item for the task into the
  queue of the coordinator and answer that the task waits; the item names the run and the node, so its
  outcome resumes the run. \<open>tasks/user-interaction/Ultravisor-TaskConfigs-UserInteraction.cjs\<close> waits for a
  value of a person. The accumulators and the event counter beside them only write state.

  An executor here also changes the coordinator; the engine sees its reply. The coordinator is looked up
  when the task runs, \<open>None\<close> if it is not registered.
\<close>

subsection \<open>The work item of a task\<close>

definition waiting :: "string \<Rightarrow> string \<Rightarrow> string \<Rightarrow> string list \<Rightarrow> task_reply" where
  "waiting prompt address ev lg = TaskResult
     \<lparr>sWaitingForInput = True, sPromptMessage = prompt, sOutputAddress = address, sResumeEventName = ev,
      sEventToFire = [], sOutputs = Some [], sStateWrites = [], sLog = lg\<rparr>"

text \<open>A setting that is passed on as a text or as a number of milliseconds; it is one in every graph.\<close>

definition text_setting :: "task_world \<Rightarrow> json \<Rightarrow> string \<Rightarrow> string" where
  "text_setting u v d = (if truthy v then text_value u v else d)"

definition timeout_setting :: "json \<Rightarrow> int" where
  "timeout_setting v = (case v of JNum q \<Rightarrow> num_or \<lfloor>q\<rfloor> 300000 | _ \<Rightarrow> 300000)"

definition with_output_filename :: "json obj \<Rightarrow> json obj" where
  "with_output_filename st =
     (if truthy (jget st ''OutputFile'') \<and> \<not> truthy (jget st ''OutputFilename'')
      then oset ''OutputFilename'' (jget st ''OutputFile'') st else st)"

definition task_work :: "task_context \<Rightarrow> string \<Rightarrow> string \<Rightarrow> json obj \<Rightarrow> string \<Rightarrow> int \<Rightarrow> work_info" where
  "task_work tc cap act st key timeout =
     \<lparr>qRunHash = tRunHash tc, qRunID = [], qNodeHash = tNodeHash tc, qOperationHash = tOperationHash tc,
      qCapability = cap, qAction = act, qSettings = st, qAffinityKey = key, qRequireAffinityMatch = False,
      qTimeoutMs = timeout, qEnqueuedAt = None, qPriority = None\<rparr>"

text \<open>The errors of both dispatching tasks; \<open>beacon-dispatch\<close> also has an exit code.\<close>

definition dispatch_error :: "json obj \<Rightarrow> string \<Rightarrow> string \<Rightarrow> task_reply" where
  "dispatch_error extra out msg = answer_with ''Error''
     ((''StdOut'', JStr out) # extra @ [(''Result'', JStr []), (''BeaconID'', JStr [])]) [] [msg]"

subsection \<open>The helper\<close>

record work_order =
  oCapability :: string
  oAction :: string
  oSettings :: "json obj"
  oAffinityKey :: json
  oTimeoutMs :: json

definition beaconDispatch ::
    "task_world \<Rightarrow> hub_env option \<Rightarrow> work_order \<Rightarrow> task_context \<Rightarrow> coord \<Rightarrow> task_reply \<times> coord" where
  "beaconDispatch u env d tc s = (case env of
     None \<Rightarrow> (dispatch_error [] ''BeaconCoordinator service not available.''
       ''Beacon dispatch: BeaconCoordinator service not found.'', s)
   | Some e \<Rightarrow>
       if Beacons s = []
       then (dispatch_error [] ''No Beacon workers are registered.''
         ''Beacon dispatch: no Beacon workers registered. Cannot dispatch work.'', s)
       else
         let cap = str_or (oCapability d) ''Unknown'';
             (h, s') = enqueueWorkItem e (task_work tc cap (oAction d) (with_output_filename (oSettings d))
               (text_setting u (oAffinityKey d) []) (timeout_setting (oTimeoutMs d))) s
         in (waiting (''Waiting for Beacon ('' @ oCapability d @ ''/'' @ oAction d @ '')'') [] ''Complete''
               [''Beacon dispatch: dispatched as ['' @ h @ ''].'',
                ''Capability: '' @ cap @ '', Action: '' @ oAction d], s'))"

subsection \<open>The content system\<close>

definition content_order :: "string \<Rightarrow> json obj \<Rightarrow> json obj \<Rightarrow> work_order" where
  "content_order act st settings =
     \<lparr>oCapability = ''ContentSystem'', oAction = act, oSettings = st,
      oAffinityKey = jget settings ''AffinityKey'', oTimeoutMs = jget settings ''TimeoutMs''\<rparr>"

definition setting_or :: "json obj \<Rightarrow> string \<Rightarrow> json \<Rightarrow> string \<times> json" where
  "setting_or settings k d = (k, json_or (jget settings k) d)"

definition contentReadFile :: "json obj \<Rightarrow> work_order" where
  "contentReadFile st = content_order ''ReadFile'' [setting_or st ''FilePath'' (JStr [])] st"

definition contentSaveFile :: "json obj \<Rightarrow> work_order" where
  "contentSaveFile st = content_order ''SaveFile''
     [setting_or st ''FilePath'' (JStr []), setting_or st ''Content'' (JStr [])] st"

definition contentListFiles :: "json obj \<Rightarrow> work_order" where
  "contentListFiles st = content_order ''ListFiles''
     [setting_or st ''Path'' (JStr []), setting_or st ''Pattern'' (JStr []), setting_or st ''Recursive'' (JBool False)] st"

definition contentCreateFolder :: "json obj \<Rightarrow> work_order" where
  "contentCreateFolder st = content_order ''CreateFolder'' [setting_or st ''Path'' (JStr [])] st"

subsection \<open>beacon-dispatch\<close>

definition dispatch_meta_keys :: "string list" where
  "dispatch_meta_keys = [''RemoteCapability'', ''RemoteAction'', ''AffinityKey'', ''TimeoutMs'', ''PromptMessage'',
     ''OutputAddress'', ''InputSchema'']"

definition default_text :: "string \<Rightarrow> json obj \<Rightarrow> json obj" where
  "default_text k st = (if truthy (jget st k) then st else oset k (JStr []) st)"

definition dispatch_settings :: "json obj \<Rightarrow> json obj" where
  "dispatch_settings settings =
     default_text ''InputData'' (default_text ''Parameters'' (default_text ''Command''
       (seed (filter (\<lambda>(k, v). k \<notin> set dispatch_meta_keys) settings) [])))"

definition source_settings :: "resolved_address \<Rightarrow> json obj \<Rightarrow> json obj" where
  "source_settings r st =
     oset ''SourceFilename'' (JStr (rFilename r)) (oset ''SourceURL'' (JStr (rURL r)) st)"

text \<open>
  \<open>InputData\<close> that parses: its addresses become source URLs, its fields become settings. \<open>null\<close> has no
  keys to list, which throws before anything is set.
\<close>

definition json_input :: "task_world \<Rightarrow> coord \<Rightarrow> json \<Rightarrow> json obj \<Rightarrow> json obj option" where
  "json_input u s v st =
     (if v = JNull then None
      else let found = (if is_object v then scanAndResolveAddresses (object_entries u v) s else []);
               fields = foldl (\<lambda>m (k, a, r). oset k (JStr (rFilename r)) m) (object_entries u v) found
           in Some (seed fields (foldl (\<lambda>m (k, a, r). source_settings r m) st found)))"

text \<open>What is not JSON may be an address; if it is no text, \<open>charAt\<close> throws (\<open>None\<close>).\<close>

definition raw_input :: "task_world \<Rightarrow> coord \<Rightarrow> json \<Rightarrow> json obj \<Rightarrow> json obj option" where
  "raw_input u s v st = (case as_text u v of
     None \<Rightarrow> None
   | Some a \<Rightarrow> Some (case resolveUniversalAddress a s of None \<Rightarrow> st | Some r \<Rightarrow> source_settings r st))"

definition input_settings :: "task_world \<Rightarrow> coord \<Rightarrow> json obj \<Rightarrow> json obj option" where
  "input_settings u s st =
     (let v = jget st ''InputData''
      in if \<not> truthy v then Some st
         else case Option.bind (parse_json (text_value u v)) (\<lambda>x. json_input u s x st) of
             Some st' \<Rightarrow> Some st'
           | None \<Rightarrow> raw_input u s v st)"

definition command_line :: "task_world \<Rightarrow> json obj \<Rightarrow> string list" where
  "command_line u st = (if truthy (jget st ''Command'')
     then [''Command: '' @ text_value u (jget st ''Command'') @ '' '' @ text_value u (jget st ''Parameters'')] else [])"

definition beaconDispatchTask ::
    "task_world \<Rightarrow> hub_env option \<Rightarrow> json obj \<Rightarrow> task_context \<Rightarrow> coord \<Rightarrow> task_reply \<times> coord" where
  "beaconDispatchTask u env settings tc s = (case env of
     None \<Rightarrow> (dispatch_error [(''ExitCode'', JInt (- 1))] ''BeaconCoordinator service not available.''
       ''Beacon Dispatch: BeaconCoordinator service not found.'', s)
   | Some e \<Rightarrow>
       if Beacons s = []
       then (dispatch_error [(''ExitCode'', JInt (- 1))] ''No Beacon workers are registered.''
         ''Beacon Dispatch: no Beacon workers registered. Cannot dispatch work.'', s)
       else case input_settings u s (dispatch_settings settings) of
           None \<Rightarrow> (type_error, s)
         | Some st0 \<Rightarrow>
             let st = with_output_filename st0;
                 cap = text_setting u (jget settings ''RemoteCapability'') ''Shell'';
                 act = text_setting u (jget settings ''RemoteAction'') ''Execute'';
                 key = text_setting u (jget settings ''AffinityKey'') [];
                 (h, s') = enqueueWorkItem e (task_work tc cap act st key (timeout_setting (jget settings ''TimeoutMs''))) s
             in (waiting (''Waiting for Beacon worker ('' @ cap @ ''/'' @ act @ '')'') [] ''Complete''
                   ([''Beacon Dispatch: dispatched to work queue as ['' @ h @ ''].'',
                     ''Capability: '' @ cap @ '', Action: '' @ act,
                     if key \<noteq> [] then ''Affinity: '' @ key else ''No affinity key''] @ command_line u st), s'))"

subsection \<open>Accumulators and counters\<close>

text \<open>A list in the state to which a task appends one entry.\<close>

definition accumulate ::
    "task_world \<Rightarrow> string \<Rightarrow> json \<Rightarrow> (nat \<Rightarrow> string) \<Rightarrow> json obj \<Rightarrow> task_context \<Rightarrow> task_reply" where
  "accumulate u port entry message settings tc =
     (let old = (case source_at u settings ''ListAddress'' JUndef tc of JArr xs \<Rightarrow> xs | _ \<Rightarrow> []);
          lst = JArr (old @ [entry])
      in answer_with ''Complete'' [(port, lst)] [(text_value u (jget settings ''ListAddress''), lst)]
           [message (length old + 1)])"

definition addOption :: "task_world \<Rightarrow> executor" where
  "addOption u settings tc = Reply (uNow u)
     (let label = json_or (jget settings ''Label'') (JStr []); val = json_or (jget settings ''Value'') (JStr [])
      in if \<not> truthy (jget settings ''ListAddress'')
         then answer_with ''Complete'' [(''Options'', JArr [])] [] [''AddOption: no ListAddress specified.'']
         else accumulate u ''Options'' (JObj [(''Label'', json_or label val), (''Value'', val)])
           (\<lambda>n. ''AddOption: appended '' @ quote_char # text_value u (json_or label val) @ quote_char #
              '' ('' @ show_nat n @ '' options total)'') settings tc)"

definition addEnvVar :: "task_world \<Rightarrow> executor" where
  "addEnvVar u settings tc = Reply (uNow u)
     (let name = json_or (jget settings ''Name'') (JStr []); val = json_or (jget settings ''Value'') (JStr [])
      in if \<not> truthy (jget settings ''ListAddress'')
         then answer_with ''Complete'' [(''Environment'', JArr [])] [] [''AddEnvVar: no ListAddress specified.'']
         else if \<not> truthy name
         then answer_with ''Complete'' [(''Environment'', JArr [])] [] [''AddEnvVar: no variable Name specified.'']
         else accumulate u ''Environment'' (JObj [(''Name'', name), (''Value'', val)])
           (\<lambda>n. ''AddEnvVar: appended '' @ quote_char # text_value u name @ ''='' @ text_value u val @ quote_char #
              '' ('' @ show_nat n @ '' vars total)'') settings tc)"

text \<open>\<open>_parseEnvironment\<close>: an object, the accumulated list, or the JSON text of one; \<open>None\<close> is null.\<close>

definition env_list :: "task_world \<Rightarrow> json list \<Rightarrow> json obj" where
  "env_list u xs = foldl (\<lambda>m x. case json_prop u x ''Name'' of
       Some n \<Rightarrow> if truthy x \<and> truthy n
         then oset (text_value u n) (json_or (case json_prop u x ''Value'' of Some v \<Rightarrow> v | None \<Rightarrow> JUndef) (JStr [])) m
         else m
     | None \<Rightarrow> m) [] xs"

definition parseEnvironment :: "task_world \<Rightarrow> json \<Rightarrow> json obj option" where
  "parseEnvironment u v =
     (if \<not> truthy v then None
      else case v of
          JObj kvs \<Rightarrow> Some kvs
        | JArr xs \<Rightarrow> Some (env_list u xs)
        | _ \<Rightarrow> (case as_text u v of
              None \<Rightarrow> None
            | Some s \<Rightarrow> if js_trim s = [] then None
                else (case parse_json s of
                    Some (JObj kvs) \<Rightarrow> Some kvs | Some (JArr xs) \<Rightarrow> Some (env_list u xs) | _ \<Rightarrow> None)))"

text \<open>
  The event counter keeps its count in its own outputs; \<open>++\<close> turns it into a number, which it is.
\<close>

definition counter_write :: "task_world \<Rightarrow> json obj \<Rightarrow> int \<Rightarrow> json obj" where
  "counter_write u settings n =
     (let a = jget settings ''OutputAddress'' in if truthy a then [(text_value u a, JInt n)] else [])"

definition stored_count :: "task_context \<Rightarrow> int" where
  "stored_count tc = (case jfield (output_or_new (tTaskOutputs tc) (tNodeHash tc)) ''Count'' of JNum q \<Rightarrow> \<lfloor>q\<rfloor> | _ \<Rightarrow> 0)"

definition eventCounter :: "task_world \<Rightarrow> executor" where
  "eventCounter u settings tc = Reply (uNow u)
     (let name = text_setting u (jget settings ''CounterName'') ''Counter''; n = stored_count tc + 1
      in if tTriggeringEventName tc = ''Reset''
         then answer_with ''ResetComplete'' [(''Count'', JInt 0)] (counter_write u settings 0) [name @ '': reset to 0'']
         else answer_with ''Complete'' [(''Count'', JInt n)] (counter_write u settings n) [name @ '': '' @ show_int n])"

subsection \<open>Messages and values of a person\<close>

text \<open>A level that is no text throws in \<open>toLowerCase\<close>; the level only chooses the log of the server.\<close>

definition errorMessage :: "task_world \<Rightarrow> executor" where
  "errorMessage u settings tc = Reply (uNow u)
     (case as_text u (json_or (jget settings ''Level'') (JStr ''error'')) of
        None \<Rightarrow> type_error
      | Some l \<Rightarrow> answer_with ''Complete'' [] []
          [''ERROR: '' @ text_setting u (jget settings ''MessageTemplate'') ''An error occurred.''])"

definition given_value :: "json \<Rightarrow> bool" where
  "given_value v \<longleftrightarrow> v \<noteq> JUndef \<and> v \<noteq> JNull \<and> v \<noteq> JStr []"

definition schema_field :: "task_world \<Rightarrow> json obj \<Rightarrow> string \<Rightarrow> json" where
  "schema_field u settings k =
     (let v = jget settings ''InputSchema''
      in if truthy v then (case json_prop u v k of Some x \<Rightarrow> x | None \<Rightarrow> JUndef) else JUndef)"

definition default_value :: "task_world \<Rightarrow> json obj \<Rightarrow> json" where
  "default_value u settings =
     (let d = jget settings ''DefaultValue''; sd = schema_field u settings ''Default''
      in if truthy d then d else if sd \<noteq> JUndef then JStr (text_value u sd) else JUndef)"

definition input_value :: "json \<Rightarrow> string \<Rightarrow> task_reply" where
  "input_value v line = answer_with ''ValueInputComplete'' [(''InputValue'', v)] [] [line]"

definition quoted_pair :: "string \<Rightarrow> string \<Rightarrow> string" where
  "quoted_pair a b = quote_char # a @ quote_char # '' = '' @ quote_char # b @ [quote_char]"

text \<open>
  A value that is already in the state is taken; a run that was started with parameters takes the default,
  and nothing for an optional field; else the run waits.
\<close>

definition valueInput :: "task_world \<Rightarrow> executor" where
  "valueInput u settings tc = Reply (uNow u)
     (let prompt = text_setting u (jget settings ''PromptMessage'') ''Please provide a value:'';
          address = text_setting u (jget settings ''OutputAddress'') [];
          cur = source_at u settings ''OutputAddress'' JUndef tc;
          programmatic = (tOperationState tc \<noteq> []);
          d = default_value u settings
      in if given_value cur
         then input_value cur (''Auto-resolved from pre-seeded state: '' @ quoted_pair address (take 100 (text_value u cur)))
         else if programmatic \<and> given_value d
         then input_value d (''Auto-resolved from default: '' @ quoted_pair address (take 100 (text_value u d)))
         else if programmatic \<and> schema_field u settings ''Required'' = JBool False
         then input_value (JStr []) (''Auto-resolved optional field: '' @ quoted_pair address [] @ '' (no value provided)'')
         else waiting prompt address [] [''Waiting for input: '' @ quote_char # prompt @ quote_char # '' (-> '' @ address @ '')''])"

end
