(* ===== verification/Spec2Isabelle.thy ===== *)
theory Spec2Isabelle
  imports HubSystem QueueJournal Admission RunManager OutcomeProperties TimeoutProperties
    SchedulerProperties RegistryProperties HubEngineScenarios EventScenarios OperationAuditor
    ObserverScenarios MeshProperties BeaconClientProperties DataProperties ProgramProperties BeaconTasks
begin

text \<open>
  Ultravisor is a hub that runs operations, graphs of tasks, and hands the work items of their tasks
  to beacons (worker processes). This development models the core of it, the JavaScript under
  \<open>src/source/services\<close>, and proves what its operations promise.

  \<^bold>\<open>The program.\<close> The coordinator (\<open>Ultravisor-Beacon-Coordinator.cjs\<close>) owns the beacons, the work
  queue and the affinity bindings; HTTP requests, socket messages and timers call its handlers. The
  scheduler (\<open>Ultravisor-Beacon-Scheduler.cjs\<close>) walks over the coordinator's queue on three timers:
  dispatch, health and summary. The action defaults, the queue journal, the admission policy and the
  run manager are services that the two find at run time. The execution engine
  (\<open>Ultravisor-ExecutionEngine.cjs\<close>) follows the event connections of an operation graph, executes
  the tasks it reaches and pauses where a task waits, for a person or for a beacon; the coordinator
  resumes it with the outcome of a work item. It keeps a run in the execution manifest
  (\<open>Ultravisor-ExecutionManifest.cjs\<close>), reads and writes its state through the state manager
  (\<open>Ultravisor-StateManager.cjs\<close>) and moves large outputs to files with the output store
  (\<open>Ultravisor-OutputStore.cjs\<close>). Node runs a handler to its end before the next one starts, so a
  handler is one step.

  \<^bold>\<open>Theories of the hub.\<close>
  \<^item> \<open>Prelude\<close>: JavaScript objects as insertion-ordered maps (locale \<open>js_object\<close>), JSON values,
    numbers and strings, stable sorting by a comparator (locale \<open>comparator\<close>), reachability and
    invariants of a step relation (locale \<open>invariant_machine\<close>).
  \<^item> \<open>HubTypes\<close>: the records of a work item, a beacon, a binding, the state \<open>coord\<close> of the
    coordinator, the surroundings \<open>hub_env\<close> a handler reads (clock, settings, services) and the
    calls it makes to other services, kept as a list of \<open>effect\<close>s.
  \<^item> \<open>ActionDefaults\<close>, \<open>WorkQueue\<close>, \<open>WorkOutcome\<close>, \<open>BeaconRegistry\<close>, \<open>Scheduler\<close>,
    \<open>QueueJournal\<close>, \<open>Admission\<close>, \<open>RunManager\<close>: one group of definitions per source file or part of
    it, named like the methods of the source. \<open>WorkQueue\<close> has enqueue, routing, the socket push and
    the poll; \<open>WorkOutcome\<close> completion, failure, stalls, waiting callers, progress and
    \<open>_checkTimeouts\<close>.
  \<^item> \<open>SlotInvariant\<close>, \<open>SlotPreservation\<close>: the invariant between queue and beacons and its
    preservation by every handler. \<open>HubSystem\<close>: the step relation over all handlers and its
    reachable states. \<open>Redispatch\<close>: what a freed slot may change.
  \<^item> \<open>OutcomeProperties\<close>, \<open>TimeoutProperties\<close>, \<open>SchedulerProperties\<close>, \<open>RegistryProperties\<close>: the
    properties of the handlers. \<open>Scenarios\<close>: concrete runs, evaluated, on which the properties are
    applied. This theory: the properties of the reachable states.

  \<^bold>\<open>Theories of the engine.\<close>
  \<^item> \<open>OutputStore\<close>: strings as UTF-16 units with their UTF-8 encoding, the chunked writer, lifting,
    references, \<open>mergeAndLift\<close>; its properties.
  \<^item> \<open>EngineTypes\<close>: the statuses (\<open>Ultravisor-Status.cjs\<close>), graphs, task types and their registry
    (\<open>Ultravisor-TaskTypeRegistry.cjs\<close>), the run with its task records and its manifest.
  \<^item> \<open>StateManager\<close>: reading and writing of addresses. \<open>EngineGraph\<close>: the maps of a graph and the
    events that a node fires. \<open>RunManifest\<close>: the life of a run, from its creation to its manifest
    and back.
  \<^item> \<open>Engine\<close>: settings of a task, its execution, the event queue, start, answers, stalls.
    \<open>EngineRecovery\<close>: retry and restart.
  \<^item> \<open>EngineSteps\<close>: which fields of a run each operation keeps, and the measure under which a run on
    an acyclic graph ends. \<open>EngineProperties\<close>, \<open>RunProperties\<close>: the properties; \<open>EngineScenarios\<close>:
    a small graph on which they are applied.
  \<^item> \<open>HubEngine\<close>: the coordinator with the engine behind it; the calls that the outcome of a work
    item makes are carried out on the table of runs and the answer goes back to the coordinator.
    \<open>HubEngineScenarios\<close>: its witnesses.

  \<^bold>\<open>Theories of the tasks.\<close>
  \<^item> \<open>JsonText\<close>, \<open>JsonRoundTrip\<close>: \<open>JSON.stringify\<close>, \<open>JSON.parse\<close> (with fuel, the length of the text), \<open>String\<close>,
    \<open>Number\<close>, \<open>split\<close> and \<open>trim\<close> of the language, and that a printed value is read back.
  \<^item> \<open>FlowTasks\<close>: the executors of the flow control tasks
    (\<open>tasks/flow-control/Ultravisor-TaskConfigs-FlowControl.cjs\<close>). \<open>FlowLoop\<close>: a \<open>split-execute\<close> in the engine,
    looping over the graph once per token. \<open>FlowProperties\<close>: sweeps and launched operations.
  \<^item> \<open>DataTasks\<close>: the data transforms (\<open>tasks/data-transform/Ultravisor-TaskConfigs-DataTransform.cjs\<close>).
    \<open>DataProperties\<close>: tables that are read back, intersections as joins, histograms.
  \<^item> \<open>BeaconTasks\<close>: the tasks that put a work item into the queue (\<open>tasks/extension\<close>, \<open>tasks/content-system\<close>
    and their helper), those that wait for a person (\<open>tasks/user-interaction\<close>), accumulators and counters.

  \<^bold>\<open>Theories of the program state.\<close>
  \<^item> \<open>ProgramState\<close>: templates, operations, global state and catalog
    (\<open>Ultravisor-Hypervisor-State.cjs\<close>) with their routes and the configuration file they are written to.
  \<^item> \<open>Hypervisor\<close>: the schedule (\<open>Ultravisor-Hypervisor.cjs\<close>), its cron jobs and its own way into the same
    file. \<open>HypervisorProperties\<close>: the jobs that run are those of the active entries.
    \<open>ProgramProperties\<close>: what a restart finds, and how a saved schedule is lost.

  \<^bold>\<open>Theories of the event streams.\<close>
  \<^item> \<open>EventStream\<close>: the part of the API server (\<open>web_server/Ultravisor-API-Server.cjs\<close>) that sends events
    to clients: ring buffers, subscriptions with replay, broadcasts, and the long polls with their
    manager (\<open>Ultravisor-LongPollManager.cjs\<close>).
  \<^item> \<open>EventFeed\<close>: what a handler sends to one socket; the locale \<open>replay_buffer\<close>, interpreted on the ring
    of the queue and on the ring of a run. \<open>EventRefinement\<close>: an append-only log as specification of
    the stream, and the simulation of the server with a client that loses its socket and comes back.
  \<^item> \<open>PollProperties\<close>: the invariant of the waiting polls. \<open>EventProperties\<close>: pages, polls that starve,
    the feed of a run that pauses. \<open>EventScenarios\<close>: the runs on which they are applied.

  \<^bold>\<open>Theories of the mesh.\<close>
  \<^item> \<open>BeaconSockets\<close>: the frames of a beacon, its admission
    (\<open>Ultravisor-AuthBeaconBridge.cjs\<close>), the cleanup of a socket and the push channel of the API server,
    over the coordinator and the observer. \<open>MeshProperties\<close>: all of it as one step relation that refines
    the hub, who may join, and what the late close of a socket does.
  \<^item> \<open>BeaconClient\<close>: the client on the beacon's side (\<open>beacon/Ultravisor-Beacon-Client.cjs\<close>) and its
    registry of providers, as events on a state. \<open>BeaconClientProperties\<close>: each item is reported once, a
    stopped client comes back, and its intervals.

  \<^bold>\<open>Theories of the observer and the auditor.\<close>
  \<^item> \<open>ObserverPolicy\<close>: the classification of beacons, work items and runs
    (\<open>observer/ObserverPolicy.cjs\<close>). \<open>Observer\<close>: the observer (\<open>Ultravisor-Observer.cjs\<close>), which hears
    the events of the scheduler, the sockets and the runs and announces what changes.
  \<^item> \<open>ObserverProperties\<close>: the observer as a step function, its runs, and what it tells of a beacon.
    \<open>ObserverScheduler\<close>: its labels beside the decisions of the scheduler. \<open>ObserverScenarios\<close>: the runs
    on which they are applied.
  \<^item> \<open>OperationAuditor\<close>: the static checks of an operation
    (\<open>Ultravisor-OperationAuditor.cjs\<close>) and their agreement with the engine.

  \<^bold>\<open>Correspondence.\<close> A handler is a function from the surroundings and the state to its answer and the
  next state. An item is mutated in place by the source; here it is written back under its hash. A
  callback, a socket push, a journal line, a database write or a broadcast is an \<open>effect\<close> in the order
  of the calls; the answer of a push is read from the parameter \<open>PushHandler\<close>. A throw is the value
  \<open>TypeErr\<close> of \<open>outcome\<close> or \<open>EngineThrow\<close> of \<open>engine_reply\<close>. A record field the source initialises to
  \<open>null\<close> is an option, an absent string is empty. Loops over \<open>Object.keys\<close> recurse on the list of
  keys taken at the start; they need no fuel.

  A task executor of the engine is a function to a tree (\<open>task_run\<close>) of what it does before it calls
  back: firing intermediate events, setting state, replying. The nested callbacks of
  \<open>_processEventQueue\<close>, \<open>_executeTaskForEvent\<close> and \<open>_drainEventsForSubgraph\<close> are a stack of \<open>frame\<close>s,
  \<open>engineStep\<close> takes one step on it, and \<open>processEventQueue\<close> iterates it with \<open>while_option\<close>: on a
  graph with a cycle a run need not end, and then its value is \<open>None\<close>.

  \<^bold>\<open>Parameters.\<close> The clock, one reading per operation, which does not run backwards between the steps
  of the hub; the services that may be missing; the push channel, the fleet filter, the table of
  action defaults, the rows of the queue store; the registry of task types, the template parser, the
  paths inside an object (\<open>manyfest_laws\<close>), the paths that can be written; the GUIDs of events, which
  differ (\<open>fresh_guids\<close>); the expression and template parsers, regular expressions and the collation that
  tasks use (\<open>task_world\<close>); the configuration that was gathered, with its phases, and the expressions
  of the cron library. The guard \<open>register_ok\<close> on
  registrations (a limit is not lowered below the old one, an id is not taken) is what the capacity
  bound needs and the code does not check.

  \<^bold>\<open>Not modelled.\<close> Rounding of doubles (token counts and scores are exact rationals), keys that are
  array indices or names of \<open>Object.prototype\<close>, time stamps that do not parse, decimals of more than 17
  digits and characters from 256 on in the values of tasks, random tasks, request bodies
  that are arrays, and the parts listed as such in the manifest: SQL and
  remote persistence, directory scans, HTTP and sockets, the web interface and the providers of a beacon.
\<close>

section \<open>Safety of the reachable states of the hub\<close>



text \<open>
  C2. Work is never lost on a beacon that is not there: in every reachable state, a Running or Assigned
  item names a registered beacon, that beacon lists the item among its current work, and a strict
  item is on the beacon its affinity key names.
\<close>

theorem placed_item_has_slot:
  assumes "hub_reach env s" and "oget (WorkQueue s) h = Some w" and "Status w = Running \<or> Status w = Assigned"
  shows "\<exists>b bcn. AssignedBeaconID w = Some b \<and> oget (Beacons s) b = Some bcn \<and> BeaconID bcn = b \<and>
    h \<in> set (CurrentWorkItems bcn) \<and>
    (RequireAffinityMatch w \<longrightarrow> AffinityKey w \<noteq> [] \<longrightarrow> Name bcn = AffinityKey w)"
proof -
  have inv: "slots env {} (WorkQueue s) (Beacons s)"
    using reach_slot_inv [OF assms(1)] by (simp add: slot_inv_def)
  from slotsD(3) [OF inv assms(2)] assms(3) obtain b bcn where b: "AssignedBeaconID w = Some b"
    "oget (Beacons s) b = Some bcn" "h \<in> set (CurrentWorkItems bcn)" "beaconSatisfiesAffinity w bcn"
    by (auto simp: item_ok_def placed_def)
  with slots_id [OF inv b(2)] show ?thesis by (auto simp: beaconSatisfiesAffinity_def)
qed

theorem placed_item_has_slot_witness:
  "\<exists>w b bcn. oget (WorkQueue demo_state) ''wi-unknown-unknown-6-1'' = Some w \<and> AssignedBeaconID w = Some b \<and>
     oget (Beacons demo_state) b = Some bcn \<and> ''wi-unknown-unknown-6-1'' \<in> set (CurrentWorkItems bcn) \<and>
     Name bcn = ''b''"
proof -
  have "map_option (\<lambda>w. (Status w, RequireAffinityMatch w, AffinityKey w))
      (oget (WorkQueue demo_state) ''wi-unknown-unknown-6-1'') = Some (Running, True, ''b'')" by code_simp
  then obtain w where w: "oget (WorkQueue demo_state) ''wi-unknown-unknown-6-1'' = Some w" "Status w = Running"
    "RequireAffinityMatch w" "AffinityKey w = ''b''" by auto
  with placed_item_has_slot [OF demo_reach w(1)] show ?thesis by auto
qed

end
